(* ===== verification/Prelude.thy ===== *)
theory Prelude
  imports Main "HOL-Library.AList"
begin

text \<open>
  Shared material of the development: JavaScript values and containers as the TypeScript
  sources use them, thrown errors as values, string helpers, and the lemma collections the
  component theories use.

  A \<open>Map\<close> of JavaScript keeps its insertion order, which \<open>values()\<close> exposes and
  several loops of the code depend on. It is an association list here: setting an existing
  key overwrites in place, a new key is appended, exactly what \<^const>\<open>AList.update\<close> does.
\<close>

named_theorems store_simps \<open>lookup and frame equations of the stores\<close>
named_theorems fsm_simps \<open>evaluation of the operation state machine\<close>

section \<open>Values\<close>

type_synonym exn = string
type_synonym ('k, 'v) jsmap = "('k \<times> 'v) list"

text \<open>Values of type \<open>unknown\<close>: JSON with \<open>undefined\<close> and integer numbers.\<close>

datatype json =
    JUndefined
  | JNull
  | JBool bool
  | JNum int
  | JStr string
  | JArr "json list"
  | JObj "(string \<times> json) list"

definition json_field :: "json \<Rightarrow> string \<Rightarrow> json" where
  "json_field v k = (case v of JObj kvs \<Rightarrow> (case map_of kvs k of Some x \<Rightarrow> x | None \<Rightarrow> JUndefined)
                     | _ \<Rightarrow> JUndefined)"

definition nullish :: "json \<Rightarrow> bool" where
  "nullish v = (v = JNull \<or> v = JUndefined)"

definition or_else :: "'a option \<Rightarrow> 'a option \<Rightarrow> 'a option" where
  "or_else a b = (case a of None \<Rightarrow> b | Some x \<Rightarrow> Some x)"

definition opt_default :: "'a \<Rightarrow> 'a option \<Rightarrow> 'a" where
  "opt_default d a = (case a of None \<Rightarrow> d | Some x \<Rightarrow> x)"

lemma or_else_simps [simp]: "or_else None b = b" "or_else (Some x) b = Some x"
  by (simp_all add: or_else_def)

lemma opt_default_simps [simp]: "opt_default d None = d" "opt_default d (Some x) = x"
  by (simp_all add: opt_default_def)

section \<open>Insertion-ordered maps\<close>

definition js_get :: "('k, 'v) jsmap \<Rightarrow> 'k \<Rightarrow> 'v option" where
  "js_get m k = map_of m k"

definition js_has :: "('k, 'v) jsmap \<Rightarrow> 'k \<Rightarrow> bool" where
  "js_has m k = (js_get m k \<noteq> None)"

definition js_set :: "'k \<Rightarrow> 'v \<Rightarrow> ('k, 'v) jsmap \<Rightarrow> ('k, 'v) jsmap" where
  "js_set k v m = AList.update k v m"

definition js_delete :: "'k \<Rightarrow> ('k, 'v) jsmap \<Rightarrow> ('k, 'v) jsmap" where
  "js_delete k m = AList.delete k m"

definition js_values :: "('k, 'v) jsmap \<Rightarrow> 'v list" where
  "js_values m = map snd m"

text \<open>A map as the runtime builds it never holds a key twice.\<close>

definition js_wf :: "('k, 'v) jsmap \<Rightarrow> bool" where
  "js_wf m = distinct (map fst m)"

lemma js_get_Nil [simp]: "js_get [] k = None"
  by (simp add: js_get_def)

lemma js_get_set [simp, store_simps]: "js_get (js_set k v m) k' = (if k' = k then Some v else js_get m k')"
  by (simp add: js_get_def js_set_def update_conv')

lemma js_get_delete [simp, store_simps]: "js_get (js_delete k m) k' = (if k' = k then None else js_get m k')"
  by (simp add: js_get_def js_delete_def delete_conv')

lemma js_wf_Nil [simp]: "js_wf []"
  by (simp add: js_wf_def)

lemma js_wf_set [simp]: "js_wf m \<Longrightarrow> js_wf (js_set k v m)"
  by (simp add: js_wf_def js_set_def distinct_update)

lemma js_wf_delete [simp]: "js_wf m \<Longrightarrow> js_wf (js_delete k m)"
  by (simp add: js_wf_def js_delete_def distinct_delete)

lemma js_get_mem: "js_wf m \<Longrightarrow> (k, v) \<in> set m \<longleftrightarrow> js_get m k = Some v"
  by (simp add: js_wf_def js_get_def)

lemma js_values_mem: "js_wf m \<Longrightarrow> v \<in> set (js_values m) \<longleftrightarrow> (\<exists>k. js_get m k = Some v)"
  by (force simp: js_values_def simp flip: js_get_mem)

lemma js_set_new: "js_get m k = None \<Longrightarrow> js_set k v m = m @ [(k, v)]"
  by (induction m) (auto simp: js_get_def js_set_def split: if_splits)

lemma js_values_set_new: "js_get m k = None \<Longrightarrow> js_values (js_set k v m) = js_values m @ [v]"
  by (simp add: js_set_new js_values_def)

lemma js_delete_set_new: "js_get m k = None \<Longrightarrow> js_delete k (js_set k v m) = m"
  by (simp add: js_set_new js_delete_def AList.delete_eq js_get_def map_of_eq_None_iff filter_id_conv)
     force

lemma find_append: "find P (xs @ ys) = (case find P xs of None \<Rightarrow> find P ys | Some x \<Rightarrow> Some x)"
  by (induction xs) auto

lemma find_snoc: "find P xs = None \<Longrightarrow> find P (xs @ [x]) = (if P x then Some x else None)"
  by (induction xs) (auto split: if_splits)

section \<open>Numbers and strings\<close>

fun string_of_nat :: "nat \<Rightarrow> string" where
  "string_of_nat n = (if n < 10 then [char_of (n + 48)]
                      else string_of_nat (n div 10) @ [char_of (n mod 10 + 48)])"

declare string_of_nat.simps [simp del]

definition string_of_int :: "int \<Rightarrow> string" where
  "string_of_int i = (if i < 0 then ''-'' @ string_of_nat (nat (- i)) else string_of_nat (nat i))"

definition char_code :: "char \<Rightarrow> nat" where
  "char_code c = of_char c"

definition to_lower_char :: "char \<Rightarrow> char" where
  "to_lower_char c = (if 65 \<le> char_code c \<and> char_code c \<le> 90 then char_of (char_code c + 32) else c)"

text \<open>\<open>toLowerCase\<close> on ASCII text (addresses, hashes, network and asset ids).\<close>

definition toLowerCase :: "string \<Rightarrow> string" where
  "toLowerCase s = map to_lower_char s"

definition to_upper_char :: "char \<Rightarrow> char" where
  "to_upper_char c = (if 97 \<le> char_code c \<and> char_code c \<le> 122 then char_of (char_code c - 32) else c)"

definition toUpperCase :: "string \<Rightarrow> string" where
  "toUpperCase s = map to_upper_char s"

definition padStart :: "string \<Rightarrow> nat \<Rightarrow> char \<Rightarrow> string" where
  "padStart s n c = replicate (n - length s) c @ s"

definition starts_with :: "string \<Rightarrow> string \<Rightarrow> bool" where
  "starts_with p s = (take (length p) s = p)"

definition digit_value :: "char \<Rightarrow> int option" where
  "digit_value c = (let n = char_code c in if 48 \<le> n \<and> n \<le> 57 then Some (int n - 48) else None)"

definition hex_value :: "char \<Rightarrow> int option" where
  "hex_value c = (let n = char_code c in
     if 48 \<le> n \<and> n \<le> 57 then Some (int n - 48)
     else if 97 \<le> n \<and> n \<le> 102 then Some (int n - 87)
     else if 65 \<le> n \<and> n \<le> 70 then Some (int n - 55) else None)"

fun read_digits :: "(char \<Rightarrow> int option) \<Rightarrow> int \<Rightarrow> int \<Rightarrow> string \<Rightarrow> int option" where
  "read_digits val b acc [] = Some acc"
| "read_digits val b acc (c # cs) =
     (case val c of None \<Rightarrow> None | Some d \<Rightarrow> read_digits val b (acc * b + d) cs)"

definition is_blank :: "char \<Rightarrow> bool" where
  "is_blank c = (char_code c = 32 \<or> 9 \<le> char_code c \<and> char_code c \<le> 13)"

definition trim :: "string \<Rightarrow> string" where
  "trim s = rev (dropWhile is_blank (rev (dropWhile is_blank s)))"

text \<open>
  \<open>BigInt(s)\<close>: decimal with an optional sign, or \<open>0x\<close> and hexadecimal digits;
  the empty string is 0; anything else throws \<open>SyntaxError\<close> (\<open>None\<close>). Octal and
  binary literals do not occur in the inputs of this code.
\<close>

definition BigInt :: "string \<Rightarrow> int option" where
  "BigInt s0 = (let s = trim s0 in
     if s = [] then Some 0
     else if starts_with ''0x'' s \<or> starts_with ''0X'' s
          then (if drop 2 s = [] then None else read_digits hex_value 16 0 (drop 2 s))
     else if hd s = CHR ''-''
          then (if tl s = [] then None else map_option uminus (read_digits digit_value 10 0 (tl s)))
     else if hd s = CHR ''+''
          then (if tl s = [] then None else read_digits digit_value 10 0 (tl s))
     else read_digits digit_value 10 0 s)"

lemma read_digits_nonneg:
  assumes val: "\<And>c d. val c = Some d \<Longrightarrow> 0 \<le> d" and b: "0 \<le> b"
  shows "0 \<le> acc \<Longrightarrow> read_digits val b acc s = Some v \<Longrightarrow> 0 \<le> v"
proof (induction s arbitrary: acc)
  case (Cons c cs)
  then obtain d where "val c = Some d" "read_digits val b (acc * b + d) cs = Some v"
    by (auto split: option.splits)
  moreover from this Cons.prems b have "0 \<le> acc * b + d" by (simp add: val)
  ultimately show ?case using Cons.IH by blast
qed simp

text \<open>The section sign and the em dash of the messages, as the UTF-8 bytes they are.\<close>

definition sect :: string where "sect = [CHR 0xC2, CHR 0xA7]"
definition mdash :: string where "mdash = [CHR 0xE2, CHR 0x80, CHR 0x94]"

text \<open>\<open>String(v)\<close>.\<close>

fun join_with :: "string \<Rightarrow> string list \<Rightarrow> string" where
  "join_with sep [] = []"
| "join_with sep [s] = s"
| "join_with sep (s # t # us) = s @ sep @ join_with sep (t # us)"

fun js_String :: "json \<Rightarrow> string" where
  "js_String JUndefined = ''undefined''"
| "js_String JNull = ''null''"
| "js_String (JBool b) = (if b then ''true'' else ''false'')"
| "js_String (JNum n) = string_of_int n"
| "js_String (JStr s) = s"
| "js_String (JArr vs) = join_with '','' (map (\<lambda>v. if nullish v then [] else js_String v) vs)"
| "js_String (JObj kvs) = ''[object Object]''"

section \<open>Numbers that may be NaN\<close>

text \<open>
  \<open>parseInt\<close> answers \<open>NaN\<close> on malformed text and the code keeps computing with it.
  Such a number is an option here, \<open>None\<close> being \<open>NaN\<close>: every comparison with it is
  false and every sum or minimum over it is \<open>NaN\<close> again.
\<close>

type_synonym jsnum = "int option"

definition js_lt :: "jsnum \<Rightarrow> jsnum \<Rightarrow> bool" where
  "js_lt a b = (case (a, b) of (Some x, Some y) \<Rightarrow> x < y | _ \<Rightarrow> False)"

definition js_le :: "jsnum \<Rightarrow> jsnum \<Rightarrow> bool" where
  "js_le a b = (case (a, b) of (Some x, Some y) \<Rightarrow> x \<le> y | _ \<Rightarrow> False)"

definition js_sub :: "jsnum \<Rightarrow> jsnum \<Rightarrow> jsnum" where
  "js_sub a b = (case (a, b) of (Some x, Some y) \<Rightarrow> Some (x - y) | _ \<Rightarrow> None)"

definition js_add :: "jsnum \<Rightarrow> jsnum \<Rightarrow> jsnum" where
  "js_add a b = (case (a, b) of (Some x, Some y) \<Rightarrow> Some (x + y) | _ \<Rightarrow> None)"

text \<open>\<open>Math.min\<close> of a non-empty argument list.\<close>

fun js_min :: "jsnum list \<Rightarrow> jsnum" where
  "js_min [] = None"
| "js_min [a] = a"
| "js_min (a # b # cs) =
     (case (a, js_min (b # cs)) of (Some x, Some y) \<Rightarrow> Some (min x y) | _ \<Rightarrow> None)"

definition js_num_string :: "jsnum \<Rightarrow> string" where
  "js_num_string a = (case a of None \<Rightarrow> ''NaN'' | Some i \<Rightarrow> string_of_int i)"

lemma js_cmp_simps [simp]:
  "js_lt (Some x) (Some y) \<longleftrightarrow> x < y" "\<not> js_lt None b" "\<not> js_lt a None"
  "js_le (Some x) (Some y) \<longleftrightarrow> x \<le> y" "\<not> js_le None b" "\<not> js_le a None"
  "js_sub (Some x) (Some y) = Some (x - y)" "js_add (Some x) (Some y) = Some (x + y)"
  by (simp_all add: js_lt_def js_le_def js_sub_def js_add_def split: option.splits)

lemma js_min_Some:
  "js_min as = Some m \<Longrightarrow> Some m \<in> set as \<and> (\<forall>a \<in> set as. \<exists>x. a = Some x \<and> m \<le> x)"
proof (induction as arbitrary: m rule: js_min.induct)
  case (3 a b cs)
  then obtain x y where xy: "a = Some x" "js_min (b # cs) = Some y" "m = min x y"
    by (auto split: option.splits)
  from "3.IH" [OF xy(2)] xy show ?case by (fastforce simp: min_def)
qed auto

text \<open>\<open>parseInt(s, 16)\<close>: leading blanks, a sign, an optional \<open>0x\<close>, then the longest run of hex digits.\<close>

definition is_hex :: "char \<Rightarrow> bool" where
  "is_hex c = (hex_value c \<noteq> None)"

definition parse_hex_digits :: "string \<Rightarrow> jsnum" where
  "parse_hex_digits s0 = (let s = takeWhile is_hex (if starts_with ''0x'' s0 \<or> starts_with ''0X'' s0 then drop 2 s0 else s0)
     in if s = [] then None else read_digits hex_value 16 0 s)"

definition parseInt16 :: "string \<Rightarrow> jsnum" where
  "parseInt16 s0 = (let s = dropWhile is_blank s0 in
     (case s of [] \<Rightarrow> None
      | c # cs \<Rightarrow> if c = CHR ''-'' then map_option uminus (parse_hex_digits cs)
                 else if c = CHR ''+'' then parse_hex_digits cs else parse_hex_digits s))"

text \<open>\<open>n.toString(16)\<close> of a non-negative integer.\<close>

definition hex_char :: "nat \<Rightarrow> char" where
  "hex_char d = (if d < 10 then char_of (d + 48) else char_of (d + 87))"

fun hex_of_nat :: "nat \<Rightarrow> string" where
  "hex_of_nat n = (if n < 16 then [hex_char n] else hex_of_nat (n div 16) @ [hex_char (n mod 16)])"

declare hex_of_nat.simps [simp del]

lemma hex_value_hex_char [simp]: "d < 16 \<Longrightarrow> hex_value (hex_char d) = Some (int d)"
  by (simp add: hex_value_def hex_char_def char_code_def Let_def)

lemma read_digits_append:
  "read_digits val b acc (xs @ ys) = Option.bind (read_digits val b acc xs) (\<lambda>a. read_digits val b a ys)"
  by (induction xs arbitrary: acc) (auto split: option.splits)

lemma read_hex_of_nat: "read_digits hex_value 16 0 (hex_of_nat n) = Some (int n)"
proof (induction n rule: hex_of_nat.induct)
  case (1 n)
  show ?case
  proof (cases "n < 16")
    case False
    with 1 have "read_digits hex_value 16 0 (hex_of_nat (n div 16)) = Some (int (n div 16))" by simp
    moreover have "int (n div 16) * 16 + int (n mod 16) = int n"
      by (metis div_mult_mod_eq of_nat_add of_nat_mult of_nat_numeral)
    ultimately show ?thesis using False
      by (subst hex_of_nat.simps) (simp add: read_digits_append)
  qed (simp add: hex_of_nat.simps)
qed

lemma hex_of_nat_hex: "c \<in> set (hex_of_nat n) \<Longrightarrow> is_hex c"
proof (induction n rule: hex_of_nat.induct)
  case (1 n)
  then show ?case
    by (cases "n < 16") (auto simp: hex_of_nat.simps [of n] is_hex_def)
qed

lemma hex_of_nat_nonempty [simp]: "hex_of_nat n \<noteq> []"
  by (subst hex_of_nat.simps) simp

lemma parseInt16_hex [simp]: "parseInt16 (CHR ''0'' # CHR ''x'' # hex_of_nat n) = Some (int n)"
proof -
  have tw: "takeWhile is_hex (hex_of_nat n) = hex_of_nat n"
    unfolding takeWhile_eq_all_conv using hex_of_nat_hex by blast
  show ?thesis
    by (simp add: parseInt16_def parse_hex_digits_def is_blank_def char_code_def starts_with_def read_hex_of_nat tw Let_def)
qed

end
