(* ===== verification/CoreTypes.thy ===== *)
theory CoreTypes
  imports Prelude
begin

text \<open>
  The domain types of \<^verbatim>\<open>zeus-secretariat/src/core/types.ts\<close>: the statuses of operations,
  payments and executions, the operation and its evidence, the durable payment intent with
  its settlement states, the evidence bundles and the schedule and finality constants.

  String unions of the source are datatypes. Constructors carry a prefix (\<open>Op_\<close>, \<open>Pay_\<close>,
  \<open>Ex_\<close>, \<open>St_\<close>, \<open>N_\<close>, \<dots>) because the source reuses the same words in several unions.
  Record fields carry the prefix of their interface for the same reason. A field whose type is a
  single literal (\<open>receipt.status: 1\<close>, \<open>authorizationStateFalse: true\<close>) carries no data
  and is left out. \<open>REVERTED_TX\<close> is not in the declared union of scan outcomes, but the
  reconciliation engine writes it through a cast, so it is a constructor here.
\<close>

section \<open>Statuses\<close>

datatype OperationStatus =
    Op_CREATED | Op_DISCOVERING | Op_PAYMENT_REQUIRED | Op_AWAITING_SIGNATURE
  | Op_AUTHORIZED | Op_PAYMENT_SUBMITTED | Op_SETTLEMENT_PENDING | Op_SETTLEMENT_UNKNOWN
  | Op_SETTLED | Op_EXECUTION_PENDING | Op_EXECUTION_CONFIRMED | Op_DELIVERED | Op_SUCCESS
  | Op_FAILED | Op_POLICY_REJECTED | Op_SETTLEMENT_FAILED | Op_EXECUTION_UNKNOWN
  | Op_RECOVERY_PENDING | Op_RECOVERED | Op_UNRESOLVABLE

datatype PaymentStatus =
    Pay_NOT_STARTED | Pay_AUTHORIZED | Pay_SUBMITTED | Pay_SETTLED | Pay_FAILED | Pay_UNKNOWN

datatype ExecutionStatus =
    Ex_NOT_STARTED | Ex_PENDING | Ex_CONFIRMED | Ex_FAILED | Ex_UNKNOWN

datatype DeliveryStatus =
    Del_NOT_STARTED | Del_PENDING | Del_DELIVERED | Del_FAILED | Del_UNKNOWN

text \<open>The status words as the source spells them, used inside evidence payloads and messages.\<close>

fun op_name :: "OperationStatus \<Rightarrow> string" where
  "op_name Op_CREATED = ''CREATED''"
| "op_name Op_DISCOVERING = ''DISCOVERING''"
| "op_name Op_PAYMENT_REQUIRED = ''PAYMENT_REQUIRED''"
| "op_name Op_AWAITING_SIGNATURE = ''AWAITING_SIGNATURE''"
| "op_name Op_AUTHORIZED = ''AUTHORIZED''"
| "op_name Op_PAYMENT_SUBMITTED = ''PAYMENT_SUBMITTED''"
| "op_name Op_SETTLEMENT_PENDING = ''SETTLEMENT_PENDING''"
| "op_name Op_SETTLEMENT_UNKNOWN = ''SETTLEMENT_UNKNOWN''"
| "op_name Op_SETTLED = ''SETTLED''"
| "op_name Op_EXECUTION_PENDING = ''EXECUTION_PENDING''"
| "op_name Op_EXECUTION_CONFIRMED = ''EXECUTION_CONFIRMED''"
| "op_name Op_DELIVERED = ''DELIVERED''"
| "op_name Op_SUCCESS = ''SUCCESS''"
| "op_name Op_FAILED = ''FAILED''"
| "op_name Op_POLICY_REJECTED = ''POLICY_REJECTED''"
| "op_name Op_SETTLEMENT_FAILED = ''SETTLEMENT_FAILED''"
| "op_name Op_EXECUTION_UNKNOWN = ''EXECUTION_UNKNOWN''"
| "op_name Op_RECOVERY_PENDING = ''RECOVERY_PENDING''"
| "op_name Op_RECOVERED = ''RECOVERED''"
| "op_name Op_UNRESOLVABLE = ''UNRESOLVABLE''"

section \<open>Policy, capabilities, evidence\<close>

datatype AuthorizationMode = Explicit | PolicyBound
datatype PaymentTransport = Zeus | Standard

record PaymentPolicy =
  pol_maxPrice :: string
  pol_allowedNetworks :: "string list"
  pol_allowedAssets :: "string list"
  pol_allowedSellers :: "string list option"
  pol_authorizationMode :: AuthorizationMode
  pol_transport :: "PaymentTransport option"

datatype RecoveryCapability =
    Cap_NONE | Cap_EXECUTION_IDEMPOTENT | Cap_RESULT_RETRIEVAL | Cap_SIGNED_RECEIPT

record SellerCapabilities =
  sc_recoveryCapability :: RecoveryCapability
  sc_resultRetrievalEndpoint :: "string option"
  sc_idempotencyHeader :: "string option"

record PaymentRequirement =
  req_amount :: string
  req_asset :: string
  req_network :: string
  req_payee :: string
  req_deadline :: "int option"
  req_maxTimeoutSeconds :: "int option"

record SettlementProof =
  sp_transactionHash :: "string option"
  sp_blockNumber :: "int option"
  sp_timestamp :: int
  sp_amount :: string
  sp_asset :: string
  sp_source :: string
  sp_rawData :: json

datatype EvidenceSource = HTTP_RESPONSE | RESULT_RETRIEVAL | SIGNED_RECEIPT | STANDARD_TRANSPORT

record ExecutionEvidence =
  ee_statusCode :: int
  ee_headers :: "(string \<times> string) list option"
  ee_body :: json
  ee_timestamp :: int
  ee_source :: EvidenceSource
  ee_rawData :: json

datatype EvidencePhase =
  DISCOVERY | POLICY | PAYMENT | SETTLEMENT | EXECUTION | DELIVERY | RECOVERY | FINAL

record EvidenceRecord =
  ev_operationId :: string
  ev_phase :: EvidencePhase
  ev_timestamp :: int
  ev_event :: string
  ev_payload :: json
  ev_sequence :: "nat option"

section \<open>The operation\<close>

record OpTimestamps =
  ts_createdAt :: int
  ts_updatedAt :: int
  ts_discoveryStartedAt :: "int option"
  ts_paymentRequiredAt :: "int option"
  ts_authorizedAt :: "int option"
  ts_paymentSubmittedAt :: "int option"
  ts_settledAt :: "int option"
  ts_executionConfirmedAt :: "int option"
  ts_deliveredAt :: "int option"
  ts_completedAt :: "int option"
  ts_failedAt :: "int option"

record Operation =
  op_operationId :: string
  op_requestId :: string
  op_clientId :: "string option"
  op_target :: string
  op_method :: string
  op_requestPayload :: json
  op_paymentPolicy :: PaymentPolicy
  op_sellerCapability :: "SellerCapabilities option"
  op_paymentState :: PaymentStatus
  op_executionState :: ExecutionStatus
  op_deliveryState :: DeliveryStatus
  op_currentState :: OperationStatus
  op_timestamps :: OpTimestamps
  op_evidence :: "EvidenceRecord list"
  op_resultData :: json
  op_settlementProof :: "SettlementProof option"
  op_executionEvidence :: "ExecutionEvidence option"
  op_error :: "string option"

section \<open>Settlement states\<close>

datatype SettlementState =
    St_PENDING_SIGNATURE | St_AUTHORIZED | St_SUBMITTING | St_SUBMITTED
  | St_SETTLEMENT_PENDING | St_RECONCILING | St_SETTLED | St_NOT_SETTLED
  | St_UNRESOLVED_MANUAL

fun st_name :: "SettlementState \<Rightarrow> string" where
  "st_name St_PENDING_SIGNATURE = ''PENDING_SIGNATURE''"
| "st_name St_AUTHORIZED = ''AUTHORIZED''"
| "st_name St_SUBMITTING = ''SUBMITTING''"
| "st_name St_SUBMITTED = ''SUBMITTED''"
| "st_name St_SETTLEMENT_PENDING = ''SETTLEMENT_PENDING''"
| "st_name St_RECONCILING = ''RECONCILING''"
| "st_name St_SETTLED = ''SETTLED''"
| "st_name St_NOT_SETTLED = ''NOT_SETTLED''"
| "st_name St_UNRESOLVED_MANUAL = ''UNRESOLVED_MANUAL''"

definition allowNewPayment :: "SettlementState \<Rightarrow> bool" where
  "allowNewPayment state = (state = St_NOT_SETTLED)"

definition TERMINAL_SETTLEMENT_STATES :: "SettlementState list" where
  "TERMINAL_SETTLEMENT_STATES = [St_SETTLED, St_NOT_SETTLED, St_UNRESOLVED_MANUAL]"

definition isTerminalSettlementState :: "SettlementState \<Rightarrow> bool" where
  "isTerminalSettlementState state = (state \<in> set TERMINAL_SETTLEMENT_STATES)"

definition PAYMENT_BLOCKED_STATES :: "SettlementState list" where
  "PAYMENT_BLOCKED_STATES =
     [St_PENDING_SIGNATURE, St_AUTHORIZED, St_SUBMITTING, St_SUBMITTED,
      St_SETTLEMENT_PENDING, St_RECONCILING, St_SETTLED, St_UNRESOLVED_MANUAL]"

datatype PaymentDisplayState =
    PAYMENT_PENDING_SIGNATURE | PAYMENT_AUTHORIZED | PAYMENT_SUBMITTING | PAYMENT_SUBMITTED
  | PAYMENT_SETTLEMENT_PENDING | PAYMENT_RECONCILING | PAYMENT_SETTLED | PAYMENT_NOT_SETTLED
  | PAYMENT_UNRESOLVED_MANUAL

fun toDisplayState :: "SettlementState \<Rightarrow> PaymentDisplayState" where
  "toDisplayState St_PENDING_SIGNATURE = PAYMENT_PENDING_SIGNATURE"
| "toDisplayState St_AUTHORIZED = PAYMENT_AUTHORIZED"
| "toDisplayState St_SUBMITTING = PAYMENT_SUBMITTING"
| "toDisplayState St_SUBMITTED = PAYMENT_SUBMITTED"
| "toDisplayState St_SETTLEMENT_PENDING = PAYMENT_SETTLEMENT_PENDING"
| "toDisplayState St_RECONCILING = PAYMENT_RECONCILING"
| "toDisplayState St_SETTLED = PAYMENT_SETTLED"
| "toDisplayState St_NOT_SETTLED = PAYMENT_NOT_SETTLED"
| "toDisplayState St_UNRESOLVED_MANUAL = PAYMENT_UNRESOLVED_MANUAL"

section \<open>Reconciliation evidence and the payment intent\<close>

datatype ReconResult =
  STILL_UNKNOWN | SETTLED_FOUND | NOT_SETTLED_CONFIRMED | RPC_ERROR | STALE_HEAD

record ReconciliationObservation =
  rob_attemptId :: string
  rob_paymentIntentId :: string
  rob_timestamp :: int
  rob_rpcProviderId :: string
  rob_headBlock :: jsnum
  rob_authorizationState :: "bool option"
  rob_validBefore :: int
  rob_result :: ReconResult
  rob_error :: "string option"

record SettledEvidenceBundle =
  seb_au_transactionHash :: string
  seb_au_blockNumber :: jsnum
  seb_au_logIndex :: jsnum
  seb_rc_blockNumber :: jsnum
  seb_rc_gasUsed :: string
  seb_tr_from :: string
  seb_tr_to :: string
  seb_tr_value :: string
  seb_tr_tokenContract :: string
  seb_confirmations :: jsnum
  seb_finalityReached :: bool
  seb_rpcObservations :: "ReconciliationObservation list"

record AuEvent =
  au_transactionHash :: string
  au_blockNumber :: jsnum
  au_logIndex :: jsnum

record ScanObservation =
  so_providerId :: string
  so_underlyingProvider :: string
  so_scanned :: bool
  so_event :: "AuEvent option"
  so_fromBlock :: int
  so_toBlock :: jsnum
  so_chainHead :: jsnum
  so_error :: "string option"
  so_observedAt :: int

datatype ScanOutcome =
  Scan_SCAN_COMPLETE_EMPTY | Scan_EVENT_FOUND | Scan_DISAGREEMENT | Scan_INCOMPLETE | Scan_REVERTED_TX

record RpcObservationForNotSettled =
  rns_providerId :: string
  rns_underlyingProvider :: string
  rns_observedAt :: int
  rns_blockNumber :: jsnum
  rns_chainHead :: jsnum
  rns_stalenessBlocks :: jsnum
  rns_error :: "string option"

record NotSettledEvidenceBundle =
  neb_authorizer :: string
  neb_nonce :: string
  neb_validBefore :: int
  neb_expiryConfirmedAt :: int
  neb_rpcObservations :: "RpcObservationForNotSettled list"
  neb_scanComplete :: bool
  neb_authorizationUsedScanResult :: ScanOutcome
  neb_authorizationUsedScan :: "(ScanOutcome \<times> ScanObservation list) option"

record DurablePaymentIntent =
  pi_paymentIntentId :: string
  pi_operationId :: string
  pi_requestId :: "string option"
  pi_clientId :: "string option"
  pi_authorizer :: string
  pi_payer :: "string option"
  pi_payTo :: string
  pi_value :: string
  pi_asset :: string
  pi_network :: string
  pi_nonce :: string
  pi_validAfter :: int
  pi_validBefore :: int
  pi_paymentPayload :: string
  pi_paymentPayloadHash :: string
  pi_settlementState :: SettlementState
  pi_txHash :: "string option"
  pi_facilitatorHttpStatus :: "int option"
  pi_facilitatorResponseBody :: json
  pi_errorReason :: "string option"
  pi_submitAttemptAt :: "int option"
  pi_settledAt :: "int option"
  pi_notSettledAt :: "int option"
  pi_reconciliationObservations :: "ReconciliationObservation list"
  pi_settledEvidenceBundle :: "SettledEvidenceBundle option"
  pi_notSettledEvidenceBundle :: "NotSettledEvidenceBundle option"
  pi_probeCount :: "nat option"
  pi_nextProbeAt :: "int option"
  pi_createdAt :: int
  pi_updatedAt :: int

datatype NonceStatus = N_RESERVED | N_SIGNED | N_SUBMITTED | N_SETTLED

record NonceRecord =
  nr_operationId :: string
  nr_status :: NonceStatus
  nr_payer :: string
  nr_createdAt :: int
  nr_updatedAt :: int

section \<open>Providers, schedule and finality\<close>

record RpcProviderConfig =
  rpc_providerId :: string
  rpc_underlyingProvider :: string
  rpc_rpcUrl :: string
  rpc_maxStalenessBlocks :: int
  rpc_chainId :: "int option"

record ReconciliationScheduleConfig =
  sch_probes :: "int list"
  sch_periodicIntervalMs :: int
  sch_safetyBufferAfterExpiryMs :: int

definition DEFAULT_RECONCILIATION_SCHEDULE :: ReconciliationScheduleConfig where
  "DEFAULT_RECONCILIATION_SCHEDULE =
     \<lparr>sch_probes = [2000, 10000, 30000, 120000], sch_periodicIntervalMs = 60000,
      sch_safetyBufferAfterExpiryMs = 120000\<rparr>"

record FinalityPolicy =
  fin_requiredConfirmations :: int
  fin_reorgIncidentThreshold :: int

definition DEFAULT_FINALITY_POLICY :: FinalityPolicy where
  "DEFAULT_FINALITY_POLICY =
     \<lparr>fin_requiredConfirmations = 12, fin_reorgIncidentThreshold = 6\<rparr>"

section \<open>Facts about the enumerations\<close>

lemma isTerminalSettlementState_simps [simp]:
  "isTerminalSettlementState St_SETTLED" "isTerminalSettlementState St_NOT_SETTLED"
  "isTerminalSettlementState St_UNRESOLVED_MANUAL"
  "\<not> isTerminalSettlementState St_PENDING_SIGNATURE" "\<not> isTerminalSettlementState St_AUTHORIZED"
  "\<not> isTerminalSettlementState St_SUBMITTING" "\<not> isTerminalSettlementState St_SUBMITTED"
  "\<not> isTerminalSettlementState St_SETTLEMENT_PENDING" "\<not> isTerminalSettlementState St_RECONCILING"
  by (simp_all add: isTerminalSettlementState_def TERMINAL_SETTLEMENT_STATES_def)

lemma isTerminalSettlementState_iff:
  "isTerminalSettlementState s \<longleftrightarrow> s = St_SETTLED \<or> s = St_NOT_SETTLED \<or> s = St_UNRESOLVED_MANUAL"
  by (cases s) simp_all

text \<open>
  The payment gate: a new payment is allowed exactly in the settlement states that are
  not listed as blocked, such a state is terminal, and the client's display names keep the
  nine settlement states apart.
\<close>

theorem payment_gate:
  "(allowNewPayment s \<longleftrightarrow> s \<notin> set PAYMENT_BLOCKED_STATES) \<and>
   (allowNewPayment s \<longrightarrow> isTerminalSettlementState s) \<and>
   (toDisplayState s = toDisplayState s' \<longleftrightarrow> s = s')"
  by (cases s; cases s') (simp_all add: allowNewPayment_def PAYMENT_BLOCKED_STATES_def)

theorem payment_gate_witness: "allowNewPayment St_NOT_SETTLED \<and> isTerminalSettlementState St_NOT_SETTLED"
  using payment_gate [of St_NOT_SETTLED St_NOT_SETTLED] by (simp add: allowNewPayment_def)

end
