(* ===== verification/OperationFsm.thy ===== *)
theory OperationFsm
  imports CoreTypes
begin

text \<open>
  \<^verbatim>\<open>zeus-secretariat/src/core/operation-fsm.ts\<close>, the single transition table of the operation
  state machine, and what its shape guarantees: a rank that every edge decreases (so every
  run ends), and the states from which a failure may still be declared.
\<close>

section \<open>The table\<close>

fun VALID_TRANSITIONS :: "OperationStatus \<Rightarrow> OperationStatus list" where
  "VALID_TRANSITIONS Op_CREATED = [Op_DISCOVERING, Op_FAILED]"
| "VALID_TRANSITIONS Op_DISCOVERING = [Op_PAYMENT_REQUIRED, Op_SUCCESS, Op_FAILED]"
| "VALID_TRANSITIONS Op_PAYMENT_REQUIRED =
     [Op_AWAITING_SIGNATURE, Op_AUTHORIZED, Op_POLICY_REJECTED, Op_FAILED]"
| "VALID_TRANSITIONS Op_AWAITING_SIGNATURE = [Op_AUTHORIZED, Op_FAILED]"
| "VALID_TRANSITIONS Op_AUTHORIZED = [Op_PAYMENT_SUBMITTED, Op_FAILED]"
| "VALID_TRANSITIONS Op_PAYMENT_SUBMITTED =
     [Op_SETTLEMENT_PENDING, Op_SETTLEMENT_UNKNOWN, Op_SETTLED, Op_SETTLEMENT_FAILED, Op_UNRESOLVABLE]"
| "VALID_TRANSITIONS Op_SETTLEMENT_PENDING =
     [Op_SETTLED, Op_SETTLEMENT_UNKNOWN, Op_SETTLEMENT_FAILED, Op_UNRESOLVABLE]"
| "VALID_TRANSITIONS Op_SETTLEMENT_UNKNOWN = [Op_SETTLED, Op_SETTLEMENT_FAILED, Op_UNRESOLVABLE]"
| "VALID_TRANSITIONS Op_SETTLED = [Op_EXECUTION_PENDING, Op_EXECUTION_UNKNOWN]"
| "VALID_TRANSITIONS Op_EXECUTION_PENDING = [Op_EXECUTION_CONFIRMED, Op_EXECUTION_UNKNOWN, Op_FAILED]"
| "VALID_TRANSITIONS Op_EXECUTION_CONFIRMED = [Op_DELIVERED, Op_FAILED]"
| "VALID_TRANSITIONS Op_DELIVERED = [Op_SUCCESS]"
| "VALID_TRANSITIONS Op_SUCCESS = []"
| "VALID_TRANSITIONS Op_FAILED = []"
| "VALID_TRANSITIONS Op_POLICY_REJECTED = []"
| "VALID_TRANSITIONS Op_SETTLEMENT_FAILED = [Op_FAILED]"
| "VALID_TRANSITIONS Op_EXECUTION_UNKNOWN = [Op_RECOVERY_PENDING, Op_FAILED]"
| "VALID_TRANSITIONS Op_RECOVERY_PENDING = [Op_RECOVERED, Op_SUCCESS, Op_UNRESOLVABLE, Op_FAILED]"
| "VALID_TRANSITIONS Op_RECOVERED = []"
| "VALID_TRANSITIONS Op_UNRESOLVABLE = []"

definition isValidTransition :: "OperationStatus \<Rightarrow> OperationStatus \<Rightarrow> bool" where
  "isValidTransition from to = (to \<in> set (VALID_TRANSITIONS from))"

text \<open>The runs of the machine, as a step relation.\<close>

inductive fsm_run :: "OperationStatus \<Rightarrow> OperationStatus list \<Rightarrow> bool" where
  run_nil: "fsm_run s []"
| run_cons: "isValidTransition s t \<Longrightarrow> fsm_run t ts \<Longrightarrow> fsm_run s (t # ts)"

inductive_simps fsm_run_Nil [simp, fsm_simps]: "fsm_run s []"
inductive_simps fsm_run_Cons [simp, fsm_simps]: "fsm_run s (t # ts)"

section \<open>Rank: how many steps can follow\<close>

fun fsm_rank :: "OperationStatus \<Rightarrow> nat" where
  "fsm_rank Op_CREATED = 12"
| "fsm_rank Op_DISCOVERING = 11"
| "fsm_rank Op_PAYMENT_REQUIRED = 10"
| "fsm_rank Op_AWAITING_SIGNATURE = 9"
| "fsm_rank Op_AUTHORIZED = 8"
| "fsm_rank Op_PAYMENT_SUBMITTED = 7"
| "fsm_rank Op_SETTLEMENT_PENDING = 6"
| "fsm_rank Op_SETTLEMENT_UNKNOWN = 5"
| "fsm_rank Op_SETTLED = 4"
| "fsm_rank Op_EXECUTION_PENDING = 3"
| "fsm_rank Op_EXECUTION_CONFIRMED = 2"
| "fsm_rank Op_DELIVERED = 1"
| "fsm_rank Op_SUCCESS = 0"
| "fsm_rank Op_FAILED = 0"
| "fsm_rank Op_POLICY_REJECTED = 0"
| "fsm_rank Op_SETTLEMENT_FAILED = 1"
| "fsm_rank Op_EXECUTION_UNKNOWN = 2"
| "fsm_rank Op_RECOVERY_PENDING = 1"
| "fsm_rank Op_RECOVERED = 0"
| "fsm_rank Op_UNRESOLVABLE = 0"

lemma fsm_rank_decreases: "isValidTransition s t \<Longrightarrow> fsm_rank t < fsm_rank s"
  by (cases s) (auto simp: isValidTransition_def)

lemma fsm_run_rank: "fsm_run s ts \<Longrightarrow> length ts \<le> fsm_rank s"
  by (induction rule: fsm_run.induct) (auto dest: fsm_rank_decreases)

lemma fsm_run_append: "fsm_run s (xs @ ys) \<longleftrightarrow> fsm_run s xs \<and> fsm_run (last (s # xs)) ys"
  by (induction xs arbitrary: s) auto

text \<open>Money may have moved, and nothing about settlement is known yet.\<close>

definition settlement_open :: "OperationStatus \<Rightarrow> bool" where
  "settlement_open s = (s \<in> {Op_PAYMENT_SUBMITTED, Op_SETTLEMENT_PENDING, Op_SETTLEMENT_UNKNOWN})"

definition settled_or_later :: "OperationStatus \<Rightarrow> bool" where
  "settled_or_later s = (s \<in> {Op_SETTLED, Op_EXECUTION_PENDING, Op_EXECUTION_CONFIRMED, Op_DELIVERED,
     Op_SUCCESS, Op_EXECUTION_UNKNOWN, Op_RECOVERY_PENDING, Op_RECOVERED})"

lemma settlement_open_step:
  "settlement_open s \<Longrightarrow> isValidTransition s t \<Longrightarrow>
   settlement_open t \<or> t = Op_SETTLED \<or> t = Op_SETTLEMENT_FAILED \<or> t = Op_UNRESOLVABLE"
  by (cases s) (auto simp: settlement_open_def isValidTransition_def)

lemma settled_step:
  "settled_or_later s \<Longrightarrow> isValidTransition s t \<Longrightarrow>
   settled_or_later t \<or> t = Op_FAILED \<or> t = Op_UNRESOLVABLE"
  by (cases s) (auto simp: settled_or_later_def isValidTransition_def)

lemma fsm_terminal_iff:
  "VALID_TRANSITIONS s = [] \<longleftrightarrow>
   s \<in> {Op_SUCCESS, Op_FAILED, Op_POLICY_REJECTED, Op_RECOVERED, Op_UNRESOLVABLE}"
  by (cases s) auto

lemma terminal_no_step:
  "s \<in> {Op_SUCCESS, Op_FAILED, Op_POLICY_REJECTED, Op_RECOVERED, Op_UNRESOLVABLE} \<Longrightarrow>
   \<not> isValidTransition s t"
  by (auto simp: isValidTransition_def)

section \<open>What the table promises\<close>

lemma open_run_fails:
  "fsm_run s ts \<Longrightarrow> settlement_open s \<Longrightarrow> last (s # ts) = Op_FAILED \<Longrightarrow>
   Op_SETTLED \<in> set ts \<or> Op_SETTLEMENT_FAILED \<in> set ts"
proof (induction rule: fsm_run.induct)
  case (run_cons s t ts)
  consider "settlement_open t" | "t = Op_SETTLED" | "t = Op_SETTLEMENT_FAILED" | "t = Op_UNRESOLVABLE"
    using settlement_open_step run_cons.hyps(1) run_cons.prems(1) by blast
  then show ?case
  proof cases
    case 4
    with run_cons.hyps(2) have "ts = []" by (cases ts) (auto simp: isValidTransition_def)
    with 4 run_cons.prems(2) show ?thesis by simp
  qed (use run_cons in auto)
qed (auto simp: settlement_open_def)

lemma settled_run:
  "fsm_run s ts \<Longrightarrow> settled_or_later s \<Longrightarrow>
   \<forall>t \<in> set ts. settled_or_later t \<or> t = Op_FAILED \<or> t = Op_UNRESOLVABLE"
proof (induction rule: fsm_run.induct)
  case (run_cons s t ts)
  consider "settled_or_later t" | "t = Op_FAILED" | "t = Op_UNRESOLVABLE"
    using settled_step run_cons.hyps(1) run_cons.prems by blast
  then show ?case
  proof cases
    case 1
    with run_cons show ?thesis by auto
  qed (use run_cons.hyps(2) in \<open>(cases ts; auto simp: isValidTransition_def)+\<close>)
qed simp

lemma fsm_run_ranks: "fsm_run s ts \<Longrightarrow> sorted_wrt (\<lambda>a b. fsm_rank b < fsm_rank a) (s # ts)"
proof (induction rule: fsm_run.induct)
  case (run_cons s t ts)
  then show ?case using fsm_rank_decreases [of s t] by auto
qed simp

lemma strict_rank_distinct: "sorted_wrt (\<lambda>a b. f b < (f a :: nat)) xs \<Longrightarrow> distinct xs"
  by (induction xs) auto

text \<open>
  Property C36. No silent failure after submission: once a payment has been submitted and nothing
  is known about its settlement, no run of the machine ends in FAILED unless it first went through
  SETTLED or SETTLEMENT_FAILED, a verdict about the money.
\<close>

theorem no_failure_while_settlement_open:
  assumes "fsm_run s ts" "settlement_open s" "last (s # ts) = Op_FAILED"
  shows "Op_SETTLED \<in> set ts \<or> Op_SETTLEMENT_FAILED \<in> set ts"
  using assms by (rule open_run_fails)

theorem no_failure_while_settlement_open_witness:
  "fsm_run Op_PAYMENT_SUBMITTED [Op_SETTLEMENT_UNKNOWN, Op_SETTLEMENT_FAILED, Op_FAILED] \<and>
   (Op_SETTLED \<in> set [Op_SETTLEMENT_UNKNOWN, Op_SETTLEMENT_FAILED, Op_FAILED] \<or>
    Op_SETTLEMENT_FAILED \<in> set [Op_SETTLEMENT_UNKNOWN, Op_SETTLEMENT_FAILED, Op_FAILED])"
proof -
  have r: "fsm_run Op_PAYMENT_SUBMITTED [Op_SETTLEMENT_UNKNOWN, Op_SETTLEMENT_FAILED, Op_FAILED]"
    by (simp add: isValidTransition_def)
  from r no_failure_while_settlement_open [OF r] show ?thesis by (simp add: settlement_open_def)
qed

text \<open>
  Settlement is never undone: from SETTLED on, every state any run visits is a
  post-settlement state, FAILED or UNRESOLVABLE; no run leads back to an unpaid or unknown
  payment.
\<close>

theorem settlement_never_undone:
  assumes "fsm_run s ts" "settled_or_later s" "t \<in> set ts"
  shows "(settled_or_later t \<or> t = Op_FAILED \<or> t = Op_UNRESOLVABLE) \<and> \<not> settlement_open t"
  using settled_run [OF assms(1,2)] assms(3) by (auto simp: settled_or_later_def settlement_open_def)

theorem settlement_never_undone_witness:
  "settled_or_later Op_EXECUTION_PENDING \<and> \<not> settlement_open Op_EXECUTION_PENDING"
  using settlement_never_undone
    [of Op_SETTLED "[Op_EXECUTION_PENDING, Op_EXECUTION_UNKNOWN, Op_FAILED]" Op_EXECUTION_PENDING]
  by (simp add: settled_or_later_def isValidTransition_def)

text \<open>
  Every operation comes to rest: a run visits no state twice, has at most twelve
  steps, and can be extended unless it has reached one of the five end states.
\<close>

theorem operation_runs_are_bounded:
  assumes "fsm_run s ts"
  shows "length ts \<le> 12 \<and> distinct (s # ts) \<and>
         ((\<nexists>t. fsm_run s (ts @ [t])) \<longleftrightarrow>
          last (s # ts) \<in> {Op_SUCCESS, Op_FAILED, Op_POLICY_REJECTED, Op_RECOVERED, Op_UNRESOLVABLE})"
proof (intro conjI)
  have "fsm_rank s \<le> 12" by (cases s) simp_all
  with fsm_run_rank [OF assms] show "length ts \<le> 12" by simp
  show "distinct (s # ts)" by (rule strict_rank_distinct [OF fsm_run_ranks [OF assms]])
  have "fsm_run s (ts @ [t]) \<longleftrightarrow> t \<in> set (VALID_TRANSITIONS (last (s # ts)))" for t
    using assms by (simp only: fsm_run_append fsm_run_Cons fsm_run_Nil isValidTransition_def simp_thms)
  then have "(\<exists>t. fsm_run s (ts @ [t])) \<longleftrightarrow> VALID_TRANSITIONS (last (s # ts)) \<noteq> []"
    by (simp only: ex_in_conv set_empty)
  with fsm_terminal_iff show "(\<nexists>t. fsm_run s (ts @ [t])) \<longleftrightarrow>
    last (s # ts) \<in> {Op_SUCCESS, Op_FAILED, Op_POLICY_REJECTED, Op_RECOVERED, Op_UNRESOLVABLE}" by blast
qed

theorem operation_runs_are_bounded_witness:
  "\<nexists>t. fsm_run Op_DELIVERED ([Op_SUCCESS] @ [t])"
  using operation_runs_are_bounded [of Op_DELIVERED "[Op_SUCCESS]"] by (simp add: isValidTransition_def)

section \<open>Driving an operation along a plan\<close>

text \<open>
  Both feedback services apply a plan of target states in the same loop: a step whose target
  is the current state is skipped, a step whose edge is missing records why and stops, any
  other step is taken. \<open>adv\<close> is what one taken step does to the operation, \<open>skip\<close> what a
  refused step records. The result says whether any step was taken.
\<close>

fun drive_plan :: "(OperationStatus \<Rightarrow> Operation \<Rightarrow> Operation) \<Rightarrow>
    (OperationStatus \<Rightarrow> Operation \<Rightarrow> Operation) \<Rightarrow> OperationStatus list \<Rightarrow> bool \<Rightarrow> Operation \<Rightarrow>
    bool \<times> Operation" where
  "drive_plan adv skip [] applied opn = (applied, opn)"
| "drive_plan adv skip (nxt # rest) applied opn =
     (if op_currentState opn = nxt then drive_plan adv skip rest applied opn
      else if \<not> isValidTransition (op_currentState opn) nxt then (applied, skip nxt opn)
      else drive_plan adv skip rest True (adv nxt opn))"

text \<open>Whether a plan takes a step depends on the state alone. A chain is a plan of consecutive edges.\<close>

fun takes_step :: "OperationStatus list \<Rightarrow> OperationStatus \<Rightarrow> bool" where
  "takes_step [] s = False"
| "takes_step (x # xs) s = (if s = x then takes_step xs s else isValidTransition s x)"

fun fsm_chain :: "OperationStatus list \<Rightarrow> bool" where
  "fsm_chain [] = True"
| "fsm_chain (x # xs) = fsm_run x xs"

text \<open>
  The contract the services' steps have in common: a taken step lands on its target and
  appends exactly one record, a refused step appends one record and changes no state; records
  are numbered by the length of the list they extend.
\<close>

definition appends_one :: "Operation \<Rightarrow> Operation \<Rightarrow> bool" where
  "appends_one opn opn' = (op_operationId opn' = op_operationId opn \<and>
     (\<exists>r. op_evidence opn' = op_evidence opn @ [r] \<and> ev_sequence r = Some (length (op_evidence opn)) \<and>
          ev_operationId r = op_operationId opn))"

definition evidence_sequenced :: "Operation \<Rightarrow> bool" where
  "evidence_sequenced opn = (\<forall>i < length (op_evidence opn).
     ev_sequence (op_evidence opn ! i) = Some i \<and>
     ev_operationId (op_evidence opn ! i) = op_operationId opn)"

lemma appends_one_sequenced: "appends_one opn opn' \<Longrightarrow> evidence_sequenced opn \<Longrightarrow> evidence_sequenced opn'"
  by (auto simp: appends_one_def evidence_sequenced_def nth_append less_Suc_eq)

locale fsm_driver =
  fixes adv :: "OperationStatus \<Rightarrow> Operation \<Rightarrow> Operation"
    and skip :: "OperationStatus \<Rightarrow> Operation \<Rightarrow> Operation"
  assumes adv_state: "op_currentState (adv s opn) = s"
    and adv_appends: "appends_one opn (adv s opn)"
    and skip_state: "op_currentState (skip s opn) = op_currentState opn"
    and skip_appends: "appends_one opn (skip s opn)"
begin

lemma drive_run:
  assumes "drive_plan adv skip plan a opn = (b, opn')"
  shows "\<exists>ts. fsm_run (op_currentState opn) ts \<and> set ts \<subseteq> set plan \<and>
              op_currentState opn' = last (op_currentState opn # ts) \<and>
              (b \<longleftrightarrow> a \<or> ts \<noteq> [])"
  using assms
proof (induction plan arbitrary: a opn)
  case Nil
  then show ?case by (auto intro: exI [of _ "[]"])
next
  case (Cons nxt rest)
  show ?case
  proof (cases "op_currentState opn = nxt")
    case True
    with Cons.prems have "drive_plan adv skip rest a opn = (b, opn')" by simp
    from Cons.IH [OF this] show ?thesis by auto
  next
    case False
    show ?thesis
    proof (cases "isValidTransition (op_currentState opn) nxt")
      case True
      with False Cons.prems have "drive_plan adv skip rest True (adv nxt opn) = (b, opn')" by simp
      from Cons.IH [OF this] obtain ts where ts: "fsm_run nxt ts" "set ts \<subseteq> set rest"
        "op_currentState opn' = last (nxt # ts)" "b" by (auto simp: adv_state)
      have "fsm_run (op_currentState opn) (nxt # ts)" using True ts(1) by simp
      moreover have "set (nxt # ts) \<subseteq> set (nxt # rest)" using ts(2) by auto
      moreover have "op_currentState opn' = last (op_currentState opn # nxt # ts)" using ts(3) by simp
      ultimately show ?thesis using ts(4) by (intro exI [of _ "nxt # ts"] conjI) simp_all
    next
      case invalid: False
      with False Cons.prems have "b = a" "opn' = skip nxt opn" by simp_all
      then show ?thesis by (intro exI [of _ "[]"]) (simp add: skip_state)
    qed
  qed
qed

lemma drive_sequenced:
  "drive_plan adv skip plan a opn = (b, opn') \<Longrightarrow> evidence_sequenced opn \<Longrightarrow> evidence_sequenced opn'"
proof (induction plan arbitrary: a opn)
  case (Cons nxt rest)
  then show ?case
    by (auto split: if_splits intro: appends_one_sequenced [OF adv_appends] appends_one_sequenced [OF skip_appends])
qed simp

lemma drive_id:
  "drive_plan adv skip plan a opn = (b, opn') \<Longrightarrow> op_operationId opn' = op_operationId opn"
proof (induction plan arbitrary: a opn)
  case (Cons nxt rest)
  then show ?case using adv_appends skip_appends by (auto split: if_splits simp: appends_one_def)
qed simp

lemma drive_follows:
  "fsm_run (op_currentState opn) plan \<Longrightarrow>
   \<exists>opn'. drive_plan adv skip plan a opn = (a \<or> plan \<noteq> [], opn') \<and>
          op_currentState opn' = last (op_currentState opn # plan)"
proof (induction plan arbitrary: a opn)
  case (Cons nxt rest)
  then have v: "isValidTransition (op_currentState opn) nxt" "fsm_run nxt rest" by auto
  then have "op_currentState opn \<noteq> nxt" by (auto dest: fsm_rank_decreases)
  moreover from Cons.IH [of "adv nxt opn" True] v(2) obtain opn' where
    "drive_plan adv skip rest True (adv nxt opn) = (True, opn')"
    "op_currentState opn' = last (nxt # rest)" by (auto simp: adv_state)
  ultimately show ?case using v(1) by auto
qed simp

lemma drive_stuck:
  "plan \<noteq> [] \<Longrightarrow> op_currentState opn \<noteq> hd plan \<Longrightarrow> \<not> isValidTransition (op_currentState opn) (hd plan) \<Longrightarrow>
   drive_plan adv skip plan a opn = (a, skip (hd plan) opn)"
  by (cases plan) auto

lemma drive_flag: "fst (drive_plan adv skip plan a opn) = (a \<or> takes_step plan (op_currentState opn))"
proof (induction plan arbitrary: a opn)
  case (Cons x xs)
  have "fst (drive_plan adv skip xs True o') = True" for o' by (simp add: Cons.IH)
  with Cons show ?case by simp
qed simp

lemma drive_chain:
  "fsm_chain plan \<Longrightarrow> drive_plan adv skip plan False opn = (True, opn') \<Longrightarrow> op_currentState opn' = last plan"
proof (induction plan arbitrary: opn)
  case (Cons x xs)
  show ?case
  proof (cases "op_currentState opn = x")
    case True
    with Cons.prems have d: "drive_plan adv skip xs False opn = (True, opn')" by simp
    then have "xs \<noteq> []" by (cases xs) auto
    moreover have "fsm_chain xs" using Cons.prems(1) by (cases xs) auto
    ultimately show ?thesis using Cons.IH d by simp
  next
    case False
    with Cons.prems have d: "drive_plan adv skip xs True (adv x opn) = (True, opn')" by (simp split: if_splits)
    from drive_follows [of "adv x opn" xs True] Cons.prems(1) d show ?thesis by (auto simp: adv_state)
  qed
qed simp

lemma drive_no_step:
  "drive_plan adv skip plan False opn = (False, opn') \<Longrightarrow> op_currentState opn' = op_currentState opn"
  using drive_run by fastforce

end

end
