(* ===== verification/MemStore.thy ===== *)
theory MemStore
  imports CoreTypes
begin

text \<open>
  \<^verbatim>\<open>zeus-secretariat/src/store/in-memory-store.ts\<close>: the store of operations, evidence, durable
  payment intents, nonces, reconciliation observations and reconciliation jobs, one definition
  per method. A method that throws returns \<open>Inl\<close> and the state it leaves behind. \<open>Date.now()\<close>
  is the argument \<open>t\<close>, a random id the argument \<open>fresh\<close>.

  The two contracts other components rely on are locales: compare-and-set of the settlement
  state (\<open>intent_cas\<close>) and one-time binding of the signed payload (\<open>payload_binder\<close>), both
  interpreted here on the store's own methods.
\<close>

section \<open>State\<close>

record InMemoryIntentRecord =
  ir_intent :: DurablePaymentIntent
  ir_settledEvidenceBundle :: "SettledEvidenceBundle option"
  ir_notSettledEvidenceBundle :: "NotSettledEvidenceBundle option"

datatype ReconJobStatus = RJ_PENDING | RJ_RUNNING | RJ_COMPLETED | RJ_FAILED

record ReconJob =
  rj_jobId :: string
  rj_paymentIntentId :: string
  rj_status :: ReconJobStatus
  rj_nextProbeAt :: int
  rj_createdAt :: int

record mem_store =
  ms_operations :: "(string, Operation) jsmap"
  ms_evidence :: "(string, EvidenceRecord list) jsmap"
  ms_intents :: "(string, InMemoryIntentRecord) jsmap"
  ms_nonces :: "(string, NonceRecord) jsmap"
  ms_reconObservations :: "(string, ReconciliationObservation list) jsmap"
  ms_reconJobs :: "(string, ReconJob) jsmap"

definition empty_store :: mem_store where
  "empty_store = \<lparr>ms_operations = [], ms_evidence = [], ms_intents = [], ms_nonces = [],
     ms_reconObservations = [], ms_reconJobs = []\<rparr>"

section \<open>Payment intents\<close>

definition findIntentByOperationId :: "mem_store \<Rightarrow> string \<Rightarrow> InMemoryIntentRecord option" where
  "findIntentByOperationId st operationId =
     find (\<lambda>rec. pi_operationId (ir_intent rec) = operationId) (js_values (ms_intents st))"

definition createPaymentIntent ::
    "DurablePaymentIntent \<Rightarrow> mem_store \<Rightarrow> (exn + unit) \<times> mem_store" where
  "createPaymentIntent intent st =
     (if js_has (ms_intents st) (pi_paymentIntentId intent)
        then (Inl (''DUPLICATE_OPERATION_ID: '' @ pi_operationId intent), st)
      else if \<exists>rec \<in> set (js_values (ms_intents st)). pi_operationId (ir_intent rec) = pi_operationId intent
        then (Inl (''DUPLICATE_OPERATION_ID: '' @ pi_operationId intent), st)
      else (Inr (), st\<lparr>ms_intents := js_set (pi_paymentIntentId intent)
              \<lparr>ir_intent = intent, ir_settledEvidenceBundle = None, ir_notSettledEvidenceBundle = None\<rparr>
              (ms_intents st)\<rparr>))"

text \<open>What the getters hand out: a copy of the intent with \<open>payer\<close> filled in.\<close>

definition with_payer :: "InMemoryIntentRecord \<Rightarrow> DurablePaymentIntent" where
  "with_payer rec = (ir_intent rec)\<lparr>pi_payer := Some (pi_authorizer (ir_intent rec))\<rparr>"

definition getPaymentIntentByOperationId :: "mem_store \<Rightarrow> string \<Rightarrow> DurablePaymentIntent option" where
  "getPaymentIntentByOperationId st operationId =
     map_option with_payer (findIntentByOperationId st operationId)"

definition getPaymentIntentByRequestId :: "mem_store \<Rightarrow> string \<Rightarrow> DurablePaymentIntent option" where
  "getPaymentIntentByRequestId st requestId =
     map_option with_payer
       (find (\<lambda>rec. pi_requestId (ir_intent rec) = Some requestId) (js_values (ms_intents st)))"

definition getPaymentIntentById :: "mem_store \<Rightarrow> string \<Rightarrow> DurablePaymentIntent option" where
  "getPaymentIntentById st paymentIntentId =
     map_option with_payer (js_get (ms_intents st) paymentIntentId)"

definition put_intent :: "string \<Rightarrow> InMemoryIntentRecord \<Rightarrow> DurablePaymentIntent \<Rightarrow> mem_store \<Rightarrow> mem_store" where
  "put_intent k rec intent st = st\<lparr>ms_intents := js_set k (rec\<lparr>ir_intent := intent\<rparr>) (ms_intents st)\<rparr>"

definition updatePaymentIntentAuthorization ::
    "string \<Rightarrow> string \<Rightarrow> string \<Rightarrow> int \<Rightarrow> mem_store \<Rightarrow> (exn + unit) \<times> mem_store" where
  "updatePaymentIntentAuthorization paymentIntentId payload payloadHash t st =
     (case js_get (ms_intents st) paymentIntentId of
        None \<Rightarrow> (Inl ''INTENT_NOT_FOUND'', st)
      | Some rec \<Rightarrow> (Inr (), put_intent paymentIntentId rec
          ((ir_intent rec)\<lparr>pi_paymentPayload := payload, pi_paymentPayloadHash := payloadHash,
                           pi_updatedAt := t\<rparr>) st))"

record StatusExtra =
  xt_txHash :: "string option"
  xt_facilitatorHttpStatus :: "int option"
  xt_facilitatorResponseBody :: json
  xt_errorReason :: "string option"

definition updatePaymentIntentStatus ::
    "string \<Rightarrow> SettlementState \<Rightarrow> StatusExtra option \<Rightarrow> int \<Rightarrow> mem_store \<Rightarrow> (exn + unit) \<times> mem_store" where
  "updatePaymentIntentStatus paymentIntentId status extra t st =
     (case js_get (ms_intents st) paymentIntentId of
        None \<Rightarrow> (Inl ''INTENT_NOT_FOUND'', st)
      | Some rec \<Rightarrow>
          (let i = ir_intent rec in
           (Inr (), put_intent paymentIntentId rec
             (i\<lparr>pi_settlementState := status,
                pi_txHash := or_else (Option.bind extra xt_txHash) (pi_txHash i),
                pi_facilitatorHttpStatus :=
                  or_else (Option.bind extra xt_facilitatorHttpStatus) (pi_facilitatorHttpStatus i),
                pi_facilitatorResponseBody :=
                  (case extra of None \<Rightarrow> pi_facilitatorResponseBody i
                   | Some x \<Rightarrow> if nullish (xt_facilitatorResponseBody x) then pi_facilitatorResponseBody i
                              else xt_facilitatorResponseBody x),
                pi_errorReason := or_else (Option.bind extra xt_errorReason) (pi_errorReason i),
                pi_updatedAt := t\<rparr>) st)))"

definition authorizePaymentIntent ::
    "string \<Rightarrow> string \<Rightarrow> string \<Rightarrow> SettlementState \<Rightarrow> int \<Rightarrow> mem_store \<Rightarrow> (exn + bool) \<times> mem_store" where
  "authorizePaymentIntent paymentIntentId payload payloadHash expectedState t st =
     (case js_get (ms_intents st) paymentIntentId of
        None \<Rightarrow> (Inl (''INTENT_NOT_FOUND: '' @ paymentIntentId), st)
      | Some rec \<Rightarrow>
          (let i = ir_intent rec;
               conflict = ''PAYMENT_INTENT_AUTHORIZATION_CONFLICT: intent is '' @
                          st_name (pi_settlementState i) @ '' with a different payload''
           in if pi_settlementState i \<in> {St_SETTLED, St_NOT_SETTLED, St_UNRESOLVED_MANUAL}
              then (if pi_paymentPayloadHash i = payloadHash then (Inr False, st) else (Inl conflict, st))
              else if pi_settlementState i = expectedState
              then (Inr True, put_intent paymentIntentId rec
                     (i\<lparr>pi_paymentPayload := payload, pi_paymentPayloadHash := payloadHash,
                        pi_settlementState := St_AUTHORIZED, pi_updatedAt := t\<rparr>) st)
              else if pi_paymentPayloadHash i = payloadHash then (Inr False, st)
              else (Inl conflict, st)))"

definition compareAndSetState ::
    "string \<Rightarrow> SettlementState \<Rightarrow> SettlementState \<Rightarrow> int \<Rightarrow> mem_store \<Rightarrow> bool \<times> mem_store" where
  "compareAndSetState paymentIntentId expectedState newState t st =
     (case js_get (ms_intents st) paymentIntentId of
        None \<Rightarrow> (False, st)
      | Some rec \<Rightarrow>
          (if pi_settlementState (ir_intent rec) \<in> {St_SETTLED, St_NOT_SETTLED, St_UNRESOLVED_MANUAL}
             then (False, st)
           else if pi_settlementState (ir_intent rec) \<noteq> expectedState then (False, st)
           else (True, put_intent paymentIntentId rec
                   ((ir_intent rec)\<lparr>pi_settlementState := newState, pi_updatedAt := t\<rparr>) st)))"

section \<open>Nonces\<close>

definition reserveNonce ::
    "string \<Rightarrow> string \<Rightarrow> string \<Rightarrow> int \<Rightarrow> mem_store \<Rightarrow> (exn + unit) \<times> mem_store" where
  "reserveNonce nonce operationId payer t st =
     (if js_has (ms_nonces st) nonce then (Inl (''NONCE_ALREADY_RESERVED: '' @ nonce), st)
      else (Inr (), st\<lparr>ms_nonces := js_set nonce
             \<lparr>nr_operationId = operationId, nr_status = N_RESERVED, nr_payer = payer,
              nr_createdAt = t, nr_updatedAt = t\<rparr> (ms_nonces st)\<rparr>))"

definition getNonce :: "mem_store \<Rightarrow> string \<Rightarrow> NonceRecord option" where
  "getNonce st nonce = js_get (ms_nonces st) nonce"

definition mark_nonce :: "NonceStatus \<Rightarrow> string \<Rightarrow> int \<Rightarrow> mem_store \<Rightarrow> mem_store" where
  "mark_nonce status nonce t st =
     (case js_get (ms_nonces st) nonce of None \<Rightarrow> st
      | Some n \<Rightarrow> st\<lparr>ms_nonces := js_set nonce (n\<lparr>nr_status := status, nr_updatedAt := t\<rparr>) (ms_nonces st)\<rparr>)"

definition markNonceSigned :: "string \<Rightarrow> int \<Rightarrow> mem_store \<Rightarrow> mem_store" where
  "markNonceSigned = mark_nonce N_SIGNED"

definition markNonceSubmitted :: "string \<Rightarrow> int \<Rightarrow> mem_store \<Rightarrow> mem_store" where
  "markNonceSubmitted = mark_nonce N_SUBMITTED"

definition markNonceSettled :: "string \<Rightarrow> int \<Rightarrow> mem_store \<Rightarrow> mem_store" where
  "markNonceSettled = mark_nonce N_SETTLED"

definition createIntentWithNonce ::
    "DurablePaymentIntent \<Rightarrow> string \<Rightarrow> int \<Rightarrow> mem_store \<Rightarrow> (exn + unit) \<times> mem_store" where
  "createIntentWithNonce intent payer t st =
     (if pi_nonce intent \<noteq> [] \<and> js_has (ms_nonces st) (pi_nonce intent)
        then (Inl (''NONCE_ALREADY_RESERVED: '' @ pi_nonce intent), st)
      else if pi_nonce intent = [] then createPaymentIntent intent st
      else (case reserveNonce (pi_nonce intent) (pi_operationId intent) payer t st of
              (Inl e, st1) \<Rightarrow> (Inl e, st1)
            | (Inr _, st1) \<Rightarrow>
                (case createPaymentIntent intent st1 of
                   (Inr _, st2) \<Rightarrow> (Inr (), st2)
                 | (Inl e, st2) \<Rightarrow>
                     (case js_get (ms_nonces st2) (pi_nonce intent) of
                        None \<Rightarrow> (Inl e, st2)
                      | Some rec \<Rightarrow>
                          (if nr_operationId rec = pi_operationId intent \<and> nr_status rec = N_RESERVED
                           then (Inl e, st2\<lparr>ms_nonces := js_delete (pi_nonce intent) (ms_nonces st2)\<rparr>)
                           else (Inl e, st2))))))"

section \<open>Evidence bundles, observations, jobs\<close>

definition saveSettledEvidenceBundle :: "string \<Rightarrow> SettledEvidenceBundle \<Rightarrow> mem_store \<Rightarrow> mem_store" where
  "saveSettledEvidenceBundle k bdl st =
     (case js_get (ms_intents st) k of None \<Rightarrow> st
      | Some rec \<Rightarrow> st\<lparr>ms_intents := js_set k (rec\<lparr>ir_settledEvidenceBundle := Some bdl\<rparr>) (ms_intents st)\<rparr>)"

definition saveNotSettledEvidenceBundle ::
    "string \<Rightarrow> NotSettledEvidenceBundle \<Rightarrow> mem_store \<Rightarrow> mem_store" where
  "saveNotSettledEvidenceBundle k bdl st =
     (case js_get (ms_intents st) k of None \<Rightarrow> st
      | Some rec \<Rightarrow> st\<lparr>ms_intents := js_set k (rec\<lparr>ir_notSettledEvidenceBundle := Some bdl\<rparr>) (ms_intents st)\<rparr>)"

definition appendReconciliationObservation :: "ReconciliationObservation \<Rightarrow> mem_store \<Rightarrow> mem_store" where
  "appendReconciliationObservation obs st =
     (let key = rob_paymentIntentId obs;
          st1 = st\<lparr>ms_reconObservations :=
                    js_set key (opt_default [] (js_get (ms_reconObservations st) key) @ [obs])
                      (ms_reconObservations st)\<rparr>
      in case js_get (ms_intents st1) key of
           None \<Rightarrow> st1
         | Some rec \<Rightarrow> put_intent key rec
             ((ir_intent rec)\<lparr>pi_reconciliationObservations :=
                pi_reconciliationObservations (ir_intent rec) @ [obs]\<rparr>) st1)"

definition getReconciliationObservations :: "mem_store \<Rightarrow> string \<Rightarrow> ReconciliationObservation list" where
  "getReconciliationObservations st k = opt_default [] (js_get (ms_reconObservations st) k)"

definition job_active :: "string \<Rightarrow> ReconJob \<Rightarrow> bool" where
  "job_active paymentIntentId job =
     (rj_paymentIntentId job = paymentIntentId \<and> rj_status job \<in> {RJ_PENDING, RJ_RUNNING})"

definition createReconciliationJob ::
    "string \<Rightarrow> string \<Rightarrow> int \<Rightarrow> int \<Rightarrow> mem_store \<Rightarrow> string \<times> mem_store" where
  "createReconciliationJob fresh paymentIntentId nextProbeAt t st =
     (case find (job_active paymentIntentId) (js_values (ms_reconJobs st)) of
        Some job \<Rightarrow> (rj_jobId job, st)
      | None \<Rightarrow> (fresh, st\<lparr>ms_reconJobs := js_set fresh
          \<lparr>rj_jobId = fresh, rj_paymentIntentId = paymentIntentId, rj_status = RJ_PENDING,
           rj_nextProbeAt = nextProbeAt, rj_createdAt = t\<rparr> (ms_reconJobs st)\<rparr>))"

text \<open>The loop pushes before it tests the limit, so a limit of 0 still yields one intent.\<close>

definition getSettledIntentsWithoutObligation :: "nat \<Rightarrow> mem_store \<Rightarrow> DurablePaymentIntent list" where
  "getSettledIntentsWithoutObligation limit st =
     take (max 1 limit) (map with_payer
       (filter (\<lambda>rec. pi_settlementState (ir_intent rec) = St_SETTLED) (js_values (ms_intents st))))"

definition getSettledBundle :: "mem_store \<Rightarrow> string \<Rightarrow> SettledEvidenceBundle option" where
  "getSettledBundle st k = Option.bind (js_get (ms_intents st) k) ir_settledEvidenceBundle"

section \<open>Operations and evidence\<close>

definition append_evidence :: "EvidenceRecord \<Rightarrow> mem_store \<Rightarrow> mem_store" where
  "append_evidence r st = st\<lparr>ms_evidence :=
     js_set (ev_operationId r) (opt_default [] (js_get (ms_evidence st) (ev_operationId r)) @ [r]) (ms_evidence st)\<rparr>"

definition getOperation :: "mem_store \<Rightarrow> string \<Rightarrow> Operation option" where
  "getOperation st k = js_get (ms_operations st) k"

definition getOperationByRequestId :: "mem_store \<Rightarrow> string \<Rightarrow> string option \<Rightarrow> Operation option" where
  "getOperationByRequestId st requestId clientId =
     find (\<lambda>opn. op_requestId opn = requestId \<and>
                 \<not> (clientId \<noteq> None \<and> clientId \<noteq> Some [] \<and> op_clientId opn \<noteq> clientId))
       (js_values (ms_operations st))"

definition saveOperation :: "Operation \<Rightarrow> mem_store \<Rightarrow> mem_store" where
  "saveOperation opn st = st\<lparr>ms_operations := js_set (op_operationId opn) opn (ms_operations st)\<rparr>"

definition getEvidence :: "mem_store \<Rightarrow> string \<Rightarrow> EvidenceRecord list" where
  "getEvidence st k = opt_default [] (js_get (ms_evidence st) k)"

definition getOperationsByStatus :: "mem_store \<Rightarrow> OperationStatus \<Rightarrow> Operation list" where
  "getOperationsByStatus st status =
     filter (\<lambda>opn. op_currentState opn = status) (js_values (ms_operations st))"

definition clear :: "mem_store \<Rightarrow> mem_store" where
  "clear st = st\<lparr>ms_operations := [], ms_evidence := []\<rparr>"

section \<open>Lookups after each operation\<close>

definition mem_intent :: "mem_store \<Rightarrow> string \<Rightarrow> DurablePaymentIntent option" where
  "mem_intent st k = map_option ir_intent (js_get (ms_intents st) k)"

lemma mem_intent_put [simp, store_simps]:
  "mem_intent (put_intent k rec i st) k' = (if k' = k then Some i else mem_intent st k')"
  by (simp add: mem_intent_def put_intent_def)

lemma put_intent_frame [simp, store_simps]:
  "ms_operations (put_intent k rec i st) = ms_operations st"
  "ms_evidence (put_intent k rec i st) = ms_evidence st"
  "ms_nonces (put_intent k rec i st) = ms_nonces st"
  "ms_reconObservations (put_intent k rec i st) = ms_reconObservations st"
  "ms_reconJobs (put_intent k rec i st) = ms_reconJobs st"
  by (simp_all add: put_intent_def)

lemma mem_intent_bundles [simp, store_simps]:
  "mem_intent (saveSettledEvidenceBundle k b st) = mem_intent st"
  "mem_intent (saveNotSettledEvidenceBundle k c st) = mem_intent st"
  by (auto simp: fun_eq_iff mem_intent_def saveSettledEvidenceBundle_def saveNotSettledEvidenceBundle_def
      split: option.splits)

lemma mem_intent_nonces [simp, store_simps]:
  "mem_intent (mark_nonce s n t st) = mem_intent st"
  "mem_intent (st\<lparr>ms_nonces := ns\<rparr>) = mem_intent st"
  "mem_intent (markNonceSigned n t st) = mem_intent st"
  "mem_intent (markNonceSubmitted n t st) = mem_intent st"
  "mem_intent (markNonceSettled n t st) = mem_intent st"
  by (auto simp: fun_eq_iff mem_intent_def mark_nonce_def markNonceSigned_def markNonceSubmitted_def
      markNonceSettled_def split: option.splits)

lemma mem_intent_misc [simp, store_simps]:
  "mem_intent (append_evidence r st) = mem_intent st"
  "mem_intent (saveOperation opn st) = mem_intent st"
  "mem_intent (snd (createReconciliationJob f p n t st)) = mem_intent st"
  by (auto simp: fun_eq_iff mem_intent_def append_evidence_def saveOperation_def createReconciliationJob_def
      split: option.splits)

lemma mem_intent_appendObs [simp, store_simps]:
  "mem_intent (appendReconciliationObservation obs st) =
     (\<lambda>k. if k = rob_paymentIntentId obs
          then map_option (\<lambda>i. i\<lparr>pi_reconciliationObservations := pi_reconciliationObservations i @ [obs]\<rparr>) (mem_intent st k)
          else mem_intent st k)"
  by (auto simp: fun_eq_iff appendReconciliationObservation_def Let_def mem_intent_def put_intent_def
      split: option.splits)

lemma getPaymentIntentById_eq:
  "getPaymentIntentById st k = map_option (\<lambda>i. i\<lparr>pi_payer := Some (pi_authorizer i)\<rparr>) (mem_intent st k)"
  by (simp add: getPaymentIntentById_def mem_intent_def with_payer_def [abs_def] option.map_comp comp_def)

section \<open>Interface: compare-and-set of the settlement state\<close>

text \<open>Several workers race from the same expected state: each entry is one call.\<close>

fun cas_all :: "(string \<Rightarrow> SettlementState \<Rightarrow> SettlementState \<Rightarrow> int \<Rightarrow> 'st \<Rightarrow> bool \<times> 'st) \<Rightarrow>
    string \<Rightarrow> SettlementState \<Rightarrow> (SettlementState \<times> int) list \<Rightarrow> 'st \<Rightarrow> bool list \<times> 'st" where
  "cas_all cas k e [] s = ([], s)"
| "cas_all cas k e ((n, t) # calls) s =
     (case cas k e n t s of (won, s1) \<Rightarrow>
        (case cas_all cas k e calls s1 of (wons, s2) \<Rightarrow> (won # wons, s2)))"

text \<open>\<open>moved\<close> is what the store writes on a win: the state, and the columns it keeps beside it.\<close>

locale intent_cas =
  fixes lookup :: "'st \<Rightarrow> string \<Rightarrow> DurablePaymentIntent option"
    and cas :: "string \<Rightarrow> SettlementState \<Rightarrow> SettlementState \<Rightarrow> int \<Rightarrow> 'st \<Rightarrow> bool \<times> 'st"
    and moved :: "SettlementState \<Rightarrow> int \<Rightarrow> DurablePaymentIntent \<Rightarrow> DurablePaymentIntent"
  assumes moved_state: "pi_settlementState (moved n t i) = n"
    and cas_win: "cas k e n t s = (True, s') \<Longrightarrow>
      \<exists>i. lookup s k = Some i \<and> pi_settlementState i = e \<and> \<not> isTerminalSettlementState e \<and>
          lookup s' = (lookup s)(k \<mapsto> moved n t i)"
    and cas_lose: "cas k e n t s = (False, s') \<Longrightarrow> s' = s"
    and cas_enabled: "lookup s k = Some i \<Longrightarrow> pi_settlementState i = e \<Longrightarrow>
      \<not> isTerminalSettlementState e \<Longrightarrow> fst (cas k e n t s)"
begin

lemma cas_terminal_stays:
  assumes "lookup s k = Some i" "isTerminalSettlementState (pi_settlementState i)"
  shows "lookup (snd (cas k' e n t s)) k = Some i"
proof (cases "cas k' e n t s")
  case (Pair won s')
  with assms show ?thesis
    by (cases won) (auto dest!: cas_win cas_lose)
qed

lemma cas_single_winner:
  assumes "cas k e n t s = (True, s1)" "n \<noteq> e"
  shows "cas k e n' t' s1 = (False, s1)"
proof -
  from cas_win [OF assms(1)] obtain i where i: "lookup s1 k = Some (moved n t i)"
    by auto
  obtain won s2 where c: "cas k e n' t' s1 = (won, s2)" by fastforce
  have "\<not> won"
  proof
    assume won
    with c cas_win [of k e n' t' s1 s2] i assms(2) show False by (auto simp: moved_state)
  qed
  with c cas_lose show ?thesis by auto
qed

lemma cas_all_lost:
  "(\<And>n t. cas k e n t s = (False, s)) \<Longrightarrow> cas_all cas k e calls s = (replicate (length calls) False, s)"
  by (induction calls) auto

lemma cas_all_one_winner:
  "\<forall>(n, t) \<in> set calls. n \<noteq> e \<Longrightarrow> length (filter (\<lambda>w. w) (fst (cas_all cas k e calls s))) \<le> 1"
proof (induction calls arbitrary: s)
  case (Cons c calls)
  obtain n t where c: "c = (n, t)" by fastforce
  obtain won s1 where w: "cas k e n t s = (won, s1)" by fastforce
  show ?case
  proof (cases won)
    case True
    with w c Cons.prems have "\<And>n' t'. cas k e n' t' s1 = (False, s1)"
      using cas_single_winner by auto
    with w c True show ?thesis by (simp add: cas_all_lost filter_replicate)
  next
    case False
    with w have "s1 = s" by (simp add: cas_lose)
    moreover obtain wons s2 where r: "cas_all cas k e calls s1 = (wons, s2)" by fastforce
    moreover from Cons.IH [of s1] Cons.prems c r have "length (filter (\<lambda>w. w) wons) \<le> 1" by simp
    ultimately show ?thesis using w c False by simp
  qed
qed simp

end

lemma compareAndSetState_win:
  "compareAndSetState k e n t st = (True, st') \<Longrightarrow>
     \<exists>i. mem_intent st k = Some i \<and> pi_settlementState i = e \<and> \<not> isTerminalSettlementState e \<and>
         mem_intent st' = (mem_intent st)(k \<mapsto> i\<lparr>pi_settlementState := n, pi_updatedAt := t\<rparr>)"
  by (auto simp: compareAndSetState_def mem_intent_def put_intent_def fun_eq_iff isTerminalSettlementState_iff
      split: option.splits if_splits)

lemma compareAndSetState_lose: "compareAndSetState k e n t st = (False, st') \<Longrightarrow> st' = st"
  by (auto simp: compareAndSetState_def split: option.splits if_splits)

lemma compareAndSetState_enabled:
  "mem_intent st k = Some i \<Longrightarrow> pi_settlementState i = e \<Longrightarrow> \<not> isTerminalSettlementState e \<Longrightarrow>
   fst (compareAndSetState k e n t st)"
  by (auto simp: compareAndSetState_def mem_intent_def isTerminalSettlementState_iff)

interpretation mem_cas: intent_cas mem_intent compareAndSetState
    "\<lambda>n t i. i\<lparr>pi_settlementState := n, pi_updatedAt := t\<rparr>"
  by unfold_locales (auto dest: compareAndSetState_win compareAndSetState_lose intro: compareAndSetState_enabled)

section \<open>Interface: one-time binding of the signed payload\<close>

text \<open>
  The contract \<^verbatim>\<open>authorizePaymentIntent\<close> documents in types.ts: a call wins only from the
  expected state and then binds payload, hash and \<open>AUTHORIZED\<close> at once; otherwise nothing
  changes, with \<open>False\<close> exactly when the identical hash is bound and an error when it is not.
\<close>

definition bind_payload :: "string \<Rightarrow> string \<Rightarrow> int \<Rightarrow> DurablePaymentIntent \<Rightarrow> DurablePaymentIntent" where
  "bind_payload p h t i = i\<lparr>pi_paymentPayload := p, pi_paymentPayloadHash := h,
     pi_settlementState := St_AUTHORIZED, pi_updatedAt := t\<rparr>"

fun authorize_all ::
    "(string \<Rightarrow> string \<Rightarrow> string \<Rightarrow> SettlementState \<Rightarrow> int \<Rightarrow> 'st \<Rightarrow> (exn + bool) \<times> 'st) \<Rightarrow>
     string \<Rightarrow> SettlementState \<Rightarrow> (string \<times> string \<times> int) list \<Rightarrow> 'st \<Rightarrow> (exn + bool) list \<times> 'st" where
  "authorize_all authorize k e [] s = ([], s)"
| "authorize_all authorize k e ((p, h, t) # calls) s =
     (case authorize k p h e t s of (r, s1) \<Rightarrow>
        (case authorize_all authorize k e calls s1 of (rs, s2) \<Rightarrow> (r # rs, s2)))"

locale payload_binder =
  fixes lookup :: "'st \<Rightarrow> string \<Rightarrow> DurablePaymentIntent option"
    and authorize :: "string \<Rightarrow> string \<Rightarrow> string \<Rightarrow> SettlementState \<Rightarrow> int \<Rightarrow> 'st \<Rightarrow> (exn + bool) \<times> 'st"
  assumes bind_win: "authorize k p h e t s = (Inr True, s') \<Longrightarrow>
      \<exists>i. lookup s k = Some i \<and> pi_settlementState i = e \<and> lookup s' = (lookup s)(k \<mapsto> bind_payload p h t i)"
    and bind_replay: "authorize k p h e t s = (Inr False, s') \<Longrightarrow>
      s' = s \<and> (\<exists>i. lookup s k = Some i \<and> pi_paymentPayloadHash i = h)"
    and bind_conflict: "authorize k p h e t s = (Inl m, s') \<Longrightarrow>
      s' = s \<and> (\<forall>i. lookup s k = Some i \<longrightarrow> pi_paymentPayloadHash i \<noteq> h \<and> pi_settlementState i \<noteq> e \<or>
                     isTerminalSettlementState (pi_settlementState i))"
begin

lemma bound_step:
  assumes "lookup s k = Some i" "pi_settlementState i \<noteq> e"
  shows "lookup (snd (authorize k p h e t s)) k = Some i \<and> fst (authorize k p h e t s) \<noteq> Inr True"
proof -
  obtain r s' where c: "authorize k p h e t s = (r, s')" by fastforce
  show ?thesis
  proof (cases r)
    case (Inl m)
    with c assms show ?thesis by (auto dest: bind_conflict)
  next
    case (Inr b)
    with c assms show ?thesis by (cases b) (auto dest: bind_win bind_replay)
  qed
qed

lemma bound_forever:
  "lookup s k = Some i \<Longrightarrow> pi_settlementState i \<noteq> e \<Longrightarrow>
   lookup (snd (authorize_all authorize k e calls s)) k = Some i \<and> Inr True \<notin> set (fst (authorize_all authorize k e calls s))"
proof (induction calls arbitrary: s)
  case (Cons c calls)
  obtain p h t where c: "c = (p, h, t)" by (cases c) auto
  obtain r s1 where a: "authorize k p h e t s = (r, s1)" by fastforce
  from bound_step [OF Cons.prems, of p h t] a have "lookup s1 k = Some i" "r \<noteq> Inr True" by auto
  with Cons.IH [of s1] Cons.prems c a show ?case by (auto split: prod.splits)
qed simp

lemma first_binding_wins:
  assumes "authorize k p h e t s = (Inr True, s1)" "e \<noteq> St_AUTHORIZED"
  shows "\<exists>i. lookup (snd (authorize_all authorize k e calls s1)) k = Some (bind_payload p h t i) \<and>
             Inr True \<notin> set (fst (authorize_all authorize k e calls s1))"
proof -
  from bind_win [OF assms(1)] obtain i where "lookup s1 k = Some (bind_payload p h t i)" by auto
  moreover have "pi_settlementState (bind_payload p h t i) \<noteq> e" using assms(2) by (simp add: bind_payload_def)
  ultimately show ?thesis using bound_forever by blast
qed

end

lemma authorizePaymentIntent_win:
  "authorizePaymentIntent k p h e t st = (Inr True, st') \<Longrightarrow>
     \<exists>i. mem_intent st k = Some i \<and> pi_settlementState i = e \<and> \<not> isTerminalSettlementState e \<and>
         mem_intent st' = (mem_intent st)(k \<mapsto> bind_payload p h t i)"
  by (auto simp: authorizePaymentIntent_def mem_intent_def put_intent_def bind_payload_def Let_def fun_eq_iff
      isTerminalSettlementState_iff split: option.splits if_splits)

lemma authorizePaymentIntent_replay:
  "authorizePaymentIntent k p h e t st = (Inr False, st') \<Longrightarrow>
     st' = st \<and> (\<exists>i. mem_intent st k = Some i \<and> pi_paymentPayloadHash i = h)"
  by (auto simp: authorizePaymentIntent_def mem_intent_def Let_def split: option.splits if_splits)

lemma authorizePaymentIntent_conflict:
  "authorizePaymentIntent k p h e t st = (Inl m, st') \<Longrightarrow>
     st' = st \<and> (\<forall>i. mem_intent st k = Some i \<longrightarrow> pi_paymentPayloadHash i \<noteq> h \<and> pi_settlementState i \<noteq> e \<or>
                     isTerminalSettlementState (pi_settlementState i))"
  by (auto simp: authorizePaymentIntent_def mem_intent_def Let_def isTerminalSettlementState_iff
      split: option.splits if_splits)

interpretation mem_bind: payload_binder mem_intent authorizePaymentIntent
  by unfold_locales (blast dest: authorizePaymentIntent_win authorizePaymentIntent_replay authorizePaymentIntent_conflict)+

section \<open>Well-formedness\<close>

text \<open>
  What the methods keep true of the maps: no key twice, every intent stored under its own id,
  one intent per operation, every active reconciliation job the only one of its intent.
\<close>

definition intents_wf :: "mem_store \<Rightarrow> bool" where
  "intents_wf st = (js_wf (ms_intents st) \<and>
     (\<forall>k i. mem_intent st k = Some i \<longrightarrow> pi_paymentIntentId i = k) \<and>
     (\<forall>k k' i i'. mem_intent st k = Some i \<longrightarrow> mem_intent st k' = Some i' \<longrightarrow>
        pi_operationId i = pi_operationId i' \<longrightarrow> k = k'))"

lemma intents_wf_empty: "intents_wf empty_store"
  by (simp add: intents_wf_def empty_store_def mem_intent_def)

text \<open>An update that keeps identity and operation of every intent keeps well-formedness.\<close>

lemma intents_wf_put:
  assumes "intents_wf st" "mem_intent st k = Some i"
    and "pi_paymentIntentId i' = pi_paymentIntentId i" "pi_operationId i' = pi_operationId i"
  shows "intents_wf (put_intent k rec i' st)"
proof -
  have "js_wf (ms_intents (put_intent k rec i' st))"
    using assms(1) by (simp add: intents_wf_def put_intent_def)
  with assms show ?thesis by (auto simp: intents_wf_def split: if_splits)
qed

lemma createPaymentIntent_ok:
  assumes "createPaymentIntent i st = (Inr u, st')"
  shows "mem_intent st (pi_paymentIntentId i) = None"
    and "mem_intent st' = (mem_intent st)(pi_paymentIntentId i \<mapsto> i)"
    and "ms_nonces st' = ms_nonces st"
  using assms by (auto simp: createPaymentIntent_def mem_intent_def js_has_def fun_eq_iff split: if_splits)

lemma createPaymentIntent_err:
  "createPaymentIntent i st = (Inl e, st') \<Longrightarrow> st' = st"
  by (auto simp: createPaymentIntent_def split: if_splits)

lemma intents_wf_inj:
  "intents_wf st \<Longrightarrow> mem_intent st k = Some i \<Longrightarrow> mem_intent st k' = Some i' \<Longrightarrow>
   pi_operationId i = pi_operationId i' \<Longrightarrow> k = k'"
  unfolding intents_wf_def by blast

lemma intents_wf_key: "intents_wf st \<Longrightarrow> mem_intent st k = Some i \<Longrightarrow> pi_paymentIntentId i = k"
  unfolding intents_wf_def by blast

lemma intent_rec_mem:
  "intents_wf st \<Longrightarrow> rec \<in> set (js_values (ms_intents st)) \<longleftrightarrow> (\<exists>k. js_get (ms_intents st) k = Some rec)"
  by (simp add: intents_wf_def js_values_mem)

lemma createPaymentIntent_wf:
  assumes wf: "intents_wf st" and c: "createPaymentIntent i st = (r, st')"
  shows "intents_wf st'"
proof (cases r)
  case (Inl e)
  with c createPaymentIntent_err wf show ?thesis by blast
next
  case (Inr u)
  with c have c': "createPaymentIntent i st = (Inr u, st')" by simp
  have new: "pi_operationId j \<noteq> pi_operationId i" if "mem_intent st k = Some j" for k j
  proof
    assume "pi_operationId j = pi_operationId i"
    with that obtain rec where "js_get (ms_intents st) k = Some rec" "pi_operationId (ir_intent rec) = pi_operationId i"
      by (auto simp: mem_intent_def)
    with wf have "\<exists>rec \<in> set (js_values (ms_intents st)). pi_operationId (ir_intent rec) = pi_operationId i"
      using intent_rec_mem by blast
    with c' show False by (auto simp: createPaymentIntent_def split: if_splits)
  qed
  have "js_wf (ms_intents st')"
    using c' wf by (auto simp: createPaymentIntent_def intents_wf_def split: if_splits)
  with wf show ?thesis
    unfolding intents_wf_def createPaymentIntent_ok(2) [OF c']
    by (auto split: if_splits dest: new new [symmetric])
qed

lemma findIntentByOperationId_Some:
  assumes wf: "intents_wf st"
  shows "findIntentByOperationId st opId = Some rec \<longleftrightarrow>
         (\<exists>k. js_get (ms_intents st) k = Some rec \<and> pi_operationId (ir_intent rec) = opId)"
    (is "?L \<longleftrightarrow> ?R")
proof
  assume ?L
  then have "rec \<in> set (js_values (ms_intents st))" "pi_operationId (ir_intent rec) = opId"
    by (auto simp: findIntentByOperationId_def find_Some_iff)
  then show ?R by (simp add: intent_rec_mem [OF wf])
next
  assume ?R
  then obtain k where k: "js_get (ms_intents st) k = Some rec" "pi_operationId (ir_intent rec) = opId" by blast
  then have "rec \<in> set (js_values (ms_intents st))" using intent_rec_mem [OF wf] by blast
  with k(2) have "findIntentByOperationId st opId \<noteq> None"
    by (auto simp: findIntentByOperationId_def find_None_iff)
  then obtain rec' where r: "findIntentByOperationId st opId = Some rec'" by blast
  then have r': "rec' \<in> set (js_values (ms_intents st))" "pi_operationId (ir_intent rec') = opId"
    by (auto simp: findIntentByOperationId_def find_Some_iff)
  then obtain k' where k': "js_get (ms_intents st) k' = Some rec'" using intent_rec_mem [OF wf] by blast
  have "k' = k"
    by (rule intents_wf_inj [OF wf, of _ "ir_intent rec'" _ "ir_intent rec"])
       (simp_all add: mem_intent_def k k' r')
  with k k' r show ?L by simp
qed

section \<open>Store steps\<close>

text \<open>
  Every method that writes an intent, in any order and with any arguments: the interleavings
  of any number of workers. The two blind writes \<open>updatePaymentIntentStatus\<close> and
  \<open>updatePaymentIntentAuthorization\<close> are legacy-only in the code and are not guarded steps.
\<close>

inductive store_step :: "mem_store \<Rightarrow> mem_store \<Rightarrow> bool" where
  step_create: "createPaymentIntent i st = (r, st') \<Longrightarrow> store_step st st'"
| step_create_nonce: "createIntentWithNonce i payer t st = (r, st') \<Longrightarrow> store_step st st'"
| step_authorize: "authorizePaymentIntent k p h e t st = (r', st') \<Longrightarrow> store_step st st'"
| step_cas: "compareAndSetState k e n t st = (b, st') \<Longrightarrow> store_step st st'"
| step_settled: "store_step st (saveSettledEvidenceBundle k bdl st)"
| step_notSettled: "store_step st (saveNotSettledEvidenceBundle k bdl' st)"
| step_observe: "store_step st (appendReconciliationObservation obs st)"
| step_nonce: "store_step st (mark_nonce ns nonce t st)"
| step_job: "store_step st (snd (createReconciliationJob fresh k nextProbeAt t st))"
| step_evidence: "store_step st (append_evidence rec st)"
| step_save: "store_step st (saveOperation opn st)"

lemma createIntentWithNonce_err:
  assumes "createIntentWithNonce i payer t st = (Inl e, st')"
  shows "st' = st"
proof (cases "js_has (ms_nonces st) (pi_nonce i) \<or> pi_nonce i = []")
  case True
  with assms show ?thesis
    by (auto simp: createIntentWithNonce_def reserveNonce_def dest: createPaymentIntent_err split: if_splits)
next
  case False
  then have free: "js_get (ms_nonces st) (pi_nonce i) = None" and ne: "pi_nonce i \<noteq> []" by (auto simp: js_has_def)
  obtain n st1 where st1: "st1 = st\<lparr>ms_nonces := js_set (pi_nonce i) n (ms_nonces st)\<rparr>"
    and res: "reserveNonce (pi_nonce i) (pi_operationId i) payer t st = (Inr (), st1)"
    and n: "nr_operationId n = pi_operationId i" "nr_status n = N_RESERVED"
    using False by (auto simp: reserveNonce_def)
  obtain r st2 where c: "createPaymentIntent i st1 = (r, st2)" by fastforce
  with assms False res obtain e' where e: "r = Inl e'"
    by (cases r) (auto simp: createIntentWithNonce_def)
  with c have "st2 = st1" by (auto dest: createPaymentIntent_err)
  with assms False res c e n have "st' = st1\<lparr>ms_nonces := js_delete (pi_nonce i) (ms_nonces st1)\<rparr>"
    by (auto simp: createIntentWithNonce_def st1 split: if_splits)
  then show ?thesis by (simp add: st1 js_delete_set_new [OF free])
qed

lemma createIntentWithNonce_ok:
  assumes "createIntentWithNonce i payer t st = (Inr u, st')"
  shows "mem_intent st (pi_paymentIntentId i) = None"
    and "mem_intent st' = (mem_intent st)(pi_paymentIntentId i \<mapsto> i)"
    and "pi_nonce i \<noteq> [] \<Longrightarrow> js_get (ms_nonces st) (pi_nonce i) = None \<and>
           (\<exists>n. js_get (ms_nonces st') (pi_nonce i) = Some n \<and> nr_operationId n = pi_operationId i \<and>
                nr_status n = N_RESERVED \<and> nr_payer n = payer)"
proof -
  obtain n st1 where c: "createPaymentIntent i st1 = (Inr (), st')"
    and st1: "pi_nonce i = [] \<and> st1 = st \<or>
      pi_nonce i \<noteq> [] \<and> js_get (ms_nonces st) (pi_nonce i) = None \<and>
      st1 = st\<lparr>ms_nonces := js_set (pi_nonce i) n (ms_nonces st)\<rparr> \<and>
      nr_operationId n = pi_operationId i \<and> nr_status n = N_RESERVED \<and> nr_payer n = payer"
    using assms by (auto simp: createIntentWithNonce_def reserveNonce_def js_has_def
        split: if_splits sum.splits prod.splits option.splits)
  from st1 have "mem_intent st1 = mem_intent st" by auto
  with createPaymentIntent_ok [OF c]
  show "mem_intent st (pi_paymentIntentId i) = None"
    and "mem_intent st' = (mem_intent st)(pi_paymentIntentId i \<mapsto> i)" by simp_all
  show "pi_nonce i \<noteq> [] \<Longrightarrow> js_get (ms_nonces st) (pi_nonce i) = None \<and>
           (\<exists>n. js_get (ms_nonces st') (pi_nonce i) = Some n \<and> nr_operationId n = pi_operationId i \<and>
                nr_status n = N_RESERVED \<and> nr_payer n = payer)"
    using st1 createPaymentIntent_ok(3) [OF c] by auto
qed

lemma store_step_intent:
  assumes "store_step st st'" "mem_intent st k = Some i"
  shows "\<exists>i'. mem_intent st' k = Some i' \<and>
    (isTerminalSettlementState (pi_settlementState i) \<longrightarrow> pi_settlementState i' = pi_settlementState i \<and>
       pi_paymentPayloadHash i' = pi_paymentPayloadHash i) \<and>
    pi_paymentIntentId i' = pi_paymentIntentId i \<and> pi_operationId i' = pi_operationId i"
  using assms
proof cases
  case (step_create i0 r)
  then show ?thesis
    using assms(2) by (cases r) (auto dest: createPaymentIntent_err simp: createPaymentIntent_ok)
next
  case (step_create_nonce i0 payer t r)
  then show ?thesis
    using assms(2) by (cases r) (auto dest: createIntentWithNonce_err simp: createIntentWithNonce_ok)
next
  case (step_authorize k' p h e t r)
  then show ?thesis
  proof (cases "r = Inr True")
    case True
    with step_authorize authorizePaymentIntent_win [of k' p h e t st st'] assms(2)
    show ?thesis by (auto simp: bind_payload_def)
  next
    case False
    with step_authorize have "st' = st"
      by (cases r) (auto dest: authorizePaymentIntent_replay authorizePaymentIntent_conflict)
    with assms(2) show ?thesis by simp
  qed
next
  case (step_cas k' e n t b)
  then show ?thesis
  proof (cases b)
    case True
    with step_cas compareAndSetState_win [of k' e n t st st'] assms(2) show ?thesis by auto
  next
    case False
    with step_cas have "st' = st" by (auto dest: compareAndSetState_lose)
    with assms(2) show ?thesis by simp
  qed
next
  case (step_observe obs)
  with assms(2) show ?thesis by auto
qed (auto simp: assms(2))

lemma mem_intent_wf_cong:
  assumes "intents_wf st" "js_wf (ms_intents st')"
    and "\<And>k i'. mem_intent st' k = Some i' \<Longrightarrow> \<exists>i. mem_intent st k = Some i \<and>
           pi_paymentIntentId i' = pi_paymentIntentId i \<and> pi_operationId i' = pi_operationId i"
  shows "intents_wf st'"
  unfolding intents_wf_def
proof (intro conjI allI impI)
  fix k i assume "mem_intent st' k = Some i"
  with assms(3) assms(1) show "pi_paymentIntentId i = k" by (fastforce simp: intents_wf_def)
next
  fix k k' i i' assume "mem_intent st' k = Some i" "mem_intent st' k' = Some i'" "pi_operationId i = pi_operationId i'"
  with assms(3) show "k = k'" by (metis intents_wf_inj [OF assms(1)])
qed (fact assms(2))

lemma createIntentWithNonce_intents:
  assumes "createIntentWithNonce i payer t st = (r, st')"
  shows "\<exists>r' st1 st2. createPaymentIntent i st1 = (r', st2) \<and> ms_intents st1 = ms_intents st \<and> ms_intents st' = ms_intents st2
         \<or> st' = st"
proof (cases r)
  case (Inl e)
  with assms show ?thesis by (auto dest: createIntentWithNonce_err)
next
  case (Inr u)
  with assms obtain st1 where "createPaymentIntent i st1 = (Inr (), st')" "ms_intents st1 = ms_intents st"
    by (auto simp: createIntentWithNonce_def reserveNonce_def split: if_splits sum.splits prod.splits option.splits)
  then show ?thesis by blast
qed

lemma ms_intents_frame [simp, store_simps]:
  "ms_intents (mark_nonce ns nonce t st) = ms_intents st"
  "ms_intents (append_evidence rec st) = ms_intents st"
  "ms_intents (saveOperation opn st) = ms_intents st"
  "ms_intents (snd (createReconciliationJob fresh k nextProbeAt t st)) = ms_intents st"
  by (auto simp: mark_nonce_def append_evidence_def saveOperation_def createReconciliationJob_def
      split: option.splits)

lemma intents_wf_ms_intents: "ms_intents st' = ms_intents st \<Longrightarrow> intents_wf st' = intents_wf st"
  by (simp add: intents_wf_def mem_intent_def)

lemma store_step_wf: "store_step st st' \<Longrightarrow> intents_wf st \<Longrightarrow> intents_wf st'"
proof (induction rule: store_step.induct)
  case (step_create i st r st')
  then show ?case by (blast intro: createPaymentIntent_wf)
next
  case (step_create_nonce i payer t st r st')
  with createIntentWithNonce_intents [OF step_create_nonce(1)] show ?case
    by (metis createPaymentIntent_wf intents_wf_ms_intents)
next
  case (step_authorize k p h e t st r st')
  show ?case
  proof (cases "st' = st")
    case False
    with step_authorize(1) obtain rec where "js_get (ms_intents st) k = Some rec"
      "st' = put_intent k rec ((ir_intent rec)\<lparr>pi_paymentPayload := p, pi_paymentPayloadHash := h,
         pi_settlementState := St_AUTHORIZED, pi_updatedAt := t\<rparr>) st"
      by (auto simp: authorizePaymentIntent_def Let_def split: option.splits if_splits)
    then show ?thesis using step_authorize(2) by (auto simp: mem_intent_def intro: intents_wf_put)
  qed (use step_authorize in simp)
next
  case (step_cas k e n t st b st')
  show ?case
  proof (cases "st' = st")
    case False
    with step_cas(1) obtain rec where "js_get (ms_intents st) k = Some rec"
      "st' = put_intent k rec ((ir_intent rec)\<lparr>pi_settlementState := n, pi_updatedAt := t\<rparr>) st"
      by (auto simp: compareAndSetState_def split: option.splits if_splits)
    then show ?thesis using step_cas(2) by (auto simp: mem_intent_def intro: intents_wf_put)
  qed (use step_cas in simp)
next
  case (step_settled st k bdl)
  from step_settled have "js_wf (ms_intents (saveSettledEvidenceBundle k bdl st))"
    by (auto simp: saveSettledEvidenceBundle_def intents_wf_def split: option.splits)
  with step_settled show ?case by (rule_tac mem_intent_wf_cong) auto
next
  case (step_notSettled st k bdl)
  from step_notSettled have "js_wf (ms_intents (saveNotSettledEvidenceBundle k bdl st))"
    by (auto simp: saveNotSettledEvidenceBundle_def intents_wf_def split: option.splits)
  with step_notSettled show ?case by (rule_tac mem_intent_wf_cong) auto
next
  case (step_observe st obs)
  from step_observe have "js_wf (ms_intents (appendReconciliationObservation obs st))"
    by (auto simp: appendReconciliationObservation_def Let_def put_intent_def intents_wf_def split: option.splits)
  with step_observe show ?case by (rule_tac mem_intent_wf_cong) (auto split: if_splits)
qed (erule intents_wf_ms_intents [THEN iffD2, rotated], simp)+

lemma store_steps_wf: "store_step\<^sup>*\<^sup>* st st' \<Longrightarrow> intents_wf st \<Longrightarrow> intents_wf st'"
  by (induction rule: rtranclp_induct) (auto intro: store_step_wf)

lemma store_steps_intent:
  "store_step\<^sup>*\<^sup>* st st' \<Longrightarrow> mem_intent st k = Some i \<Longrightarrow>
   \<exists>i'. mem_intent st' k = Some i' \<and>
    (isTerminalSettlementState (pi_settlementState i) \<longrightarrow> pi_settlementState i' = pi_settlementState i \<and>
       pi_paymentPayloadHash i' = pi_paymentPayloadHash i) \<and>
    pi_paymentIntentId i' = pi_paymentIntentId i \<and> pi_operationId i' = pi_operationId i"
proof (induction rule: rtranclp_induct)
  case (step y z)
  then obtain j where "mem_intent y k = Some j" and j: "(isTerminalSettlementState (pi_settlementState i) \<longrightarrow>
       pi_settlementState j = pi_settlementState i \<and> pi_paymentPayloadHash j = pi_paymentPayloadHash i) \<and>
    pi_paymentIntentId j = pi_paymentIntentId i \<and> pi_operationId j = pi_operationId i" by blast
  from store_step_intent [OF step(2) this(1)] j show ?case by metis
qed auto

section \<open>Reconciliation jobs\<close>

definition recon_jobs_unique :: "mem_store \<Rightarrow> bool" where
  "recon_jobs_unique st = (js_wf (ms_reconJobs st) \<and>
     (\<forall>p. length (filter (job_active p) (js_values (ms_reconJobs st))) \<le> 1))"

lemma createReconciliationJob_unique:
  assumes u: "recon_jobs_unique st" and f: "js_get (ms_reconJobs st) fresh = None"
  shows "recon_jobs_unique (snd (createReconciliationJob fresh k nextProbeAt t st))"
proof (cases "find (job_active k) (js_values (ms_reconJobs st))")
  case None
  define job where "job = \<lparr>rj_jobId = fresh, rj_paymentIntentId = k, rj_status = RJ_PENDING,
    rj_nextProbeAt = nextProbeAt, rj_createdAt = t\<rparr>"
  have c: "ms_reconJobs (snd (createReconciliationJob fresh k nextProbeAt t st)) = js_set fresh job (ms_reconJobs st)"
    using None by (simp add: createReconciliationJob_def job_def)
  have "filter (job_active k) (js_values (ms_reconJobs st)) = []"
    using None by (simp add: find_None_iff filter_empty_conv)
  moreover have "job_active p job \<longleftrightarrow> p = k" for p by (auto simp: job_active_def job_def)
  ultimately show ?thesis
    using u unfolding recon_jobs_unique_def c js_values_set_new [OF f] by auto
next
  case (Some job)
  with u show ?thesis by (simp add: createReconciliationJob_def)
qed

section \<open>Properties\<close>

definition sample_intent :: "string \<Rightarrow> string \<Rightarrow> SettlementState \<Rightarrow> DurablePaymentIntent" where
  "sample_intent k opId s =
     \<lparr>pi_paymentIntentId = k, pi_operationId = opId, pi_requestId = None, pi_clientId = None,
      pi_authorizer = ''0xaa'', pi_payer = None, pi_payTo = ''0xbb'', pi_value = ''500'',
      pi_asset = ''0xcc'', pi_network = ''base'', pi_nonce = ''0x01'', pi_validAfter = 0,
      pi_validBefore = 1000, pi_paymentPayload = ''p'', pi_paymentPayloadHash = ''h'',
      pi_settlementState = s, pi_txHash = None, pi_facilitatorHttpStatus = None,
      pi_facilitatorResponseBody = JUndefined, pi_errorReason = None,
      pi_submitAttemptAt = None, pi_settledAt = None, pi_notSettledAt = None,
      pi_reconciliationObservations = [], pi_settledEvidenceBundle = None,
      pi_notSettledEvidenceBundle = None, pi_probeCount = None, pi_nextProbeAt = None, pi_createdAt = 0, pi_updatedAt = 0\<rparr>"

definition sample_store :: "SettlementState \<Rightarrow> mem_store" where
  "sample_store s = snd (createPaymentIntent (sample_intent ''pi1'' ''op1'' s) empty_store)"

lemma mem_intent_sample_store [simp]:
  "mem_intent (sample_store s) k = (if k = ''pi1'' then Some (sample_intent ''pi1'' ''op1'' s) else None)"
  by (simp add: sample_store_def createPaymentIntent_def empty_store_def js_has_def js_values_def mem_intent_def
      sample_intent_def)

text \<open>
  Property C7. A terminal settlement state is irreversible: whatever the workers do, in any
  order and interleaving of the store's guarded methods, an intent that is SETTLED, NOT_SETTLED
  or UNRESOLVED_MANUAL keeps that state and the payload hash bound to it.
\<close>

theorem terminal_settlement_irreversible:
  assumes "store_step\<^sup>*\<^sup>* st st'"
    and "mem_intent st k = Some i"
    and "isTerminalSettlementState (pi_settlementState i)"
  shows "\<exists>i'. mem_intent st' k = Some i' \<and> pi_settlementState i' = pi_settlementState i \<and>
              pi_paymentPayloadHash i' = pi_paymentPayloadHash i"
  using store_steps_intent [OF assms(1,2)] assms(3) by blast

theorem terminal_settlement_irreversible_witness:
  "\<exists>i'. mem_intent (snd (compareAndSetState ''pi1'' St_SETTLED St_NOT_SETTLED 7 (sample_store St_SETTLED))) ''pi1'' = Some i' \<and>
        pi_settlementState i' = St_SETTLED \<and> pi_paymentPayloadHash i' = ''h''"
  using terminal_settlement_irreversible
    [OF r_into_rtranclp [of store_step, OF step_cas [of "''pi1''" St_SETTLED St_NOT_SETTLED 7 "sample_store St_SETTLED", OF prod.collapse [symmetric]]],
     of "''pi1''" "sample_intent ''pi1'' ''op1'' St_SETTLED"]
  by (simp add: sample_intent_def)

text \<open>
  Exclusive terminal verdict: of any number of workers that try to move the same
  intent from the same observed state, each to a state of its own other than the observed one,
  at most one compare-and-set succeeds.
\<close>

theorem cas_race_at_most_one_winner:
  assumes "\<forall>(n, t) \<in> set calls. n \<noteq> e"
  shows "length (filter (\<lambda>w. w) (fst (cas_all compareAndSetState k e calls st))) \<le> 1"
  using assms by (rule mem_cas.cas_all_one_winner)

theorem cas_race_at_most_one_winner_witness:
  "fst (cas_all compareAndSetState ''pi1'' St_RECONCILING [(St_SETTLED, 1), (St_NOT_SETTLED, 2), (St_SETTLED, 3)]
      (sample_store St_RECONCILING)) = [True, False, False] \<and>
   length (filter (\<lambda>w. w) (fst (cas_all compareAndSetState ''pi1'' St_RECONCILING
     [(St_SETTLED, 1), (St_NOT_SETTLED, 2), (St_SETTLED, 3)] (sample_store St_RECONCILING)))) \<le> 1"
  by (rule conjI, simp add: compareAndSetState_def sample_store_def createPaymentIntent_def empty_store_def js_has_def
        js_values_def put_intent_def sample_intent_def,
      rule cas_race_at_most_one_winner, simp)

text \<open>
  The first signed payload is bound for good: once one Stage-B caller has moved the
  intent from PENDING_SIGNATURE to AUTHORIZED, no further caller with any payload overwrites the
  payload, its hash or the state, and none of them is told that it won.
\<close>

theorem first_payload_binding_is_permanent:
  assumes "authorizePaymentIntent k p h St_PENDING_SIGNATURE t st = (Inr True, st1)"
  shows "\<exists>i. mem_intent (snd (authorize_all authorizePaymentIntent k St_PENDING_SIGNATURE calls st1)) k =
               Some (bind_payload p h t i) \<and>
             Inr True \<notin> set (fst (authorize_all authorizePaymentIntent k St_PENDING_SIGNATURE calls st1))"
  by (rule mem_bind.first_binding_wins [OF assms]) simp

theorem first_payload_binding_is_permanent_witness:
  "\<exists>st1. authorizePaymentIntent ''pi1'' ''signed'' ''h1'' St_PENDING_SIGNATURE 5 (sample_store St_PENDING_SIGNATURE) = (Inr True, st1) \<and>
     (\<exists>i. mem_intent (snd (authorize_all authorizePaymentIntent ''pi1'' St_PENDING_SIGNATURE
             [(''other'', ''h2'', 6), (''signed'', ''h1'', 7)] st1)) ''pi1'' = Some (bind_payload ''signed'' ''h1'' 5 i) \<and>
          Inr True \<notin> set (fst (authorize_all authorizePaymentIntent ''pi1'' St_PENDING_SIGNATURE
             [(''other'', ''h2'', 6), (''signed'', ''h1'', 7)] st1)))"
proof -
  have "fst (authorizePaymentIntent ''pi1'' ''signed'' ''h1'' St_PENDING_SIGNATURE 5 (sample_store St_PENDING_SIGNATURE)) = Inr True"
    by (simp add: authorizePaymentIntent_def sample_store_def createPaymentIntent_def empty_store_def js_has_def
        js_values_def sample_intent_def Let_def)
  then obtain st1 where w: "authorizePaymentIntent ''pi1'' ''signed'' ''h1'' St_PENDING_SIGNATURE 5 (sample_store St_PENDING_SIGNATURE) = (Inr True, st1)"
    by (metis prod.collapse)
  from w first_payload_binding_is_permanent [OF w] show ?thesis by blast
qed

text \<open>
  Intent creation with its nonce is one atomic step: when it fails the store is
  exactly what it was, reservation included; when it succeeds both the intent and (for a
  non-empty nonce, free before) the reservation for its operation and payer exist.
\<close>

theorem createIntentWithNonce_atomic:
  "case createIntentWithNonce i payer t st of
     (Inl e, st') \<Rightarrow> st' = st
   | (Inr _, st') \<Rightarrow> mem_intent st (pi_paymentIntentId i) = None \<and>
       mem_intent st' = (mem_intent st)(pi_paymentIntentId i \<mapsto> i) \<and>
       (if pi_nonce i = [] then ms_nonces st' = ms_nonces st
        else js_get (ms_nonces st) (pi_nonce i) = None \<and>
             (\<exists>n. js_get (ms_nonces st') (pi_nonce i) = Some n \<and> nr_operationId n = pi_operationId i \<and>
                  nr_status n = N_RESERVED \<and> nr_payer n = payer))"
proof (cases "createIntentWithNonce i payer t st")
  case (Pair r st')
  show ?thesis
  proof (cases r)
    case (Inl e)
    with Pair show ?thesis by (simp add: createIntentWithNonce_err)
  next
    case (Inr u)
    with Pair have ok: "createIntentWithNonce i payer t st = (Inr u, st')" by simp
    have "pi_nonce i = [] \<Longrightarrow> ms_nonces st' = ms_nonces st"
      using ok by (simp add: createIntentWithNonce_def createPaymentIntent_ok(3))
    with createIntentWithNonce_ok [OF ok] ok show ?thesis by auto
  qed
qed

text \<open>
  One payment intent per operation: in every store reached from the empty one, the
  lookup by operation finds an intent exactly when an intent of that operation is stored under
  its own id, so both lookups hand out the same record.
\<close>

theorem one_intent_per_operation:
  assumes "store_step\<^sup>*\<^sup>* empty_store st"
  shows "getPaymentIntentByOperationId st opId = Some i \<longleftrightarrow>
         getPaymentIntentById st (pi_paymentIntentId i) = Some i \<and> pi_operationId i = opId"
proof -
  have wf: "intents_wf st" using assms intents_wf_empty by (rule store_steps_wf)
  have key: "js_get (ms_intents st) k = Some rec \<Longrightarrow> pi_paymentIntentId (ir_intent rec) = k" for k rec
    by (rule intents_wf_key [OF wf]) (simp add: mem_intent_def)
  have wp: "pi_paymentIntentId (with_payer rec) = pi_paymentIntentId (ir_intent rec)"
    "pi_operationId (with_payer rec) = pi_operationId (ir_intent rec)" for rec by (simp_all add: with_payer_def)
  show ?thesis
  proof
    assume "getPaymentIntentByOperationId st opId = Some i"
    then obtain rec where f: "findIntentByOperationId st opId = Some rec" and i: "i = with_payer rec"
      by (auto simp: getPaymentIntentByOperationId_def)
    from f obtain k where k: "js_get (ms_intents st) k = Some rec" "pi_operationId (ir_intent rec) = opId"
      using findIntentByOperationId_Some [OF wf] by blast
    moreover have "pi_paymentIntentId i = k" using key [OF k(1)] by (simp add: i wp)
    ultimately show "getPaymentIntentById st (pi_paymentIntentId i) = Some i \<and> pi_operationId i = opId"
      by (simp add: getPaymentIntentById_def) (simp add: i wp)
  next
    assume "getPaymentIntentById st (pi_paymentIntentId i) = Some i \<and> pi_operationId i = opId"
    then obtain rec where k: "js_get (ms_intents st) (pi_paymentIntentId i) = Some rec" and i: "i = with_payer rec"
      and o: "pi_operationId i = opId" by (auto simp: getPaymentIntentById_def)
    then have "findIntentByOperationId st opId = Some rec"
      using findIntentByOperationId_Some [OF wf] wp(2) by metis
    then show "getPaymentIntentByOperationId st opId = Some i" by (simp add: getPaymentIntentByOperationId_def i)
  qed
qed

theorem one_intent_per_operation_witness:
  "getPaymentIntentByOperationId (sample_store St_AUTHORIZED) ''op1'' =
     Some ((sample_intent ''pi1'' ''op1'' St_AUTHORIZED)\<lparr>pi_payer := Some ''0xaa''\<rparr>)"
proof -
  have s: "store_step\<^sup>*\<^sup>* empty_store (sample_store St_AUTHORIZED)"
    unfolding sample_store_def by (rule r_into_rtranclp, rule step_create, rule prod.collapse [symmetric])
  show ?thesis
    unfolding one_intent_per_operation [OF s] by (simp add: getPaymentIntentById_eq) (simp add: sample_intent_def)
qed

text \<open>
  Scheduling reconciliation is idempotent: with a fresh job id, an intent never gets
  a second active job; if one is active its id is returned and the store does not change.
\<close>

theorem reconciliation_job_idempotent:
  assumes "recon_jobs_unique st" "js_get (ms_reconJobs st) fresh = None"
  shows "recon_jobs_unique (snd (createReconciliationJob fresh k nextProbeAt t st)) \<and>
         createReconciliationJob fresh' k nextProbeAt' t' (snd (createReconciliationJob fresh k nextProbeAt t st)) =
         createReconciliationJob fresh k nextProbeAt t st"
proof -
  have "createReconciliationJob fresh' k nextProbeAt' t' (snd (createReconciliationJob fresh k nextProbeAt t st)) =
        createReconciliationJob fresh k nextProbeAt t st"
  proof (cases "find (job_active k) (js_values (ms_reconJobs st))")
    case None
    then show ?thesis
      by (simp add: createReconciliationJob_def js_values_set_new [OF assms(2)] find_snoc)
         (simp add: job_active_def)
  qed (simp add: createReconciliationJob_def)
  with createReconciliationJob_unique [OF assms] show ?thesis by blast
qed

theorem reconciliation_job_idempotent_witness:
  "recon_jobs_unique (snd (createReconciliationJob ''j1'' ''pi1'' 10 0 empty_store)) \<and>
   createReconciliationJob ''j2'' ''pi1'' 20 1 (snd (createReconciliationJob ''j1'' ''pi1'' 10 0 empty_store)) =
   createReconciliationJob ''j1'' ''pi1'' 10 0 empty_store"
  by (rule reconciliation_job_idempotent) (simp_all add: recon_jobs_unique_def empty_store_def js_values_def)

end
