(* ===== verification/Consensus.thy ===== *)
theory Consensus
  imports CoreTypes
begin

text \<open>
  \<^verbatim>\<open>zeus-secretariat/src/core/multi-rpc-checker.ts\<close>: one adapter per RPC provider and the
  checker that asks all of them and decides whether they agree.

  A provider's HTTP endpoint is outside the program. It is a record \<open>rpc_provider\<close> of the
  answers it gives to the five JSON-RPC methods the adapter calls, with the result types the
  source annotates; every answer can be a thrown transport error, an HTTP error status, a
  JSON-RPC error body or a result, and every quantity is the raw string the adapter parses.
  viem's \<open>keccak256(toBytes(_))\<close> is the parameter \<open>keccak\<close>; \<open>Date.now()\<close> is \<open>t\<close>.
\<close>

section \<open>JSON-RPC answers\<close>

datatype 'a rpc_response = RpcThrow exn | RpcHttp int | RpcErrorBody string | RpcResult 'a

record RpcLog =
  rl_address :: string
  rl_topics :: "string list"
  rl_data :: string
  rl_logIndex :: string

record RpcReceipt =
  rr_blockNumber :: string
  rr_status :: string
  rr_gasUsed :: "string option"
  rr_logs :: "RpcLog list option"

record RpcEventRef =
  re_transactionHash :: string
  re_blockNumber :: string
  re_logIndex :: string

record LogFilter =
  lf_address :: string
  lf_topics :: "string list"
  lf_fromBlock :: string
  lf_toBlock :: string

record rpc_provider =
  rp_blockNumber :: "string rpc_response"
  rp_chainId :: "string rpc_response"
  rp_receipt :: "string \<Rightarrow> RpcReceipt option rpc_response"
  rp_ethCall :: "string \<Rightarrow> string \<Rightarrow> json rpc_response"
  rp_getLogs :: "LogFilter \<Rightarrow> RpcEventRef list option rpc_response"

definition rpcCall :: "RpcProviderConfig \<Rightarrow> string \<Rightarrow> 'a rpc_response \<Rightarrow> exn + 'a" where
  "rpcCall cfg meth answer =
     (case answer of
        RpcThrow m \<Rightarrow> Inl m
      | RpcHttp status \<Rightarrow> Inl (''RPC HTTP '' @ string_of_int status @ '' from '' @ rpc_providerId cfg @ '' ('' @ meth @ '')'')
      | RpcErrorBody m \<Rightarrow> Inl (''RPC error: '' @ m)
      | RpcResult r \<Rightarrow> Inr r)"

text \<open>Sequencing of computations that may throw.\<close>

definition bind_exn :: "exn + 'a \<Rightarrow> ('a \<Rightarrow> exn + 'b) \<Rightarrow> exn + 'b" where
  "bind_exn r f = (case r of Inl e \<Rightarrow> Inl e | Inr a \<Rightarrow> f a)"

lemma bind_exn_simps [simp]: "bind_exn (Inl e) f = Inl e" "bind_exn (Inr a) f = f a"
  by (simp_all add: bind_exn_def)

lemma bind_exn_Inr: "bind_exn r f = Inr b \<longleftrightarrow> (\<exists>a. r = Inr a \<and> f a = Inr b)"
  by (cases r) simp_all

section \<open>One provider\<close>

record TransactionLog =
  tl_address :: string
  tl_topics :: "string list"
  tl_data :: string
  tl_logIndex :: jsnum

datatype TxStatus = Tx_success | Tx_reverted | Tx_pending

record TransactionCheckResult =
  tc_found :: bool
  tc_confirmed :: bool
  tc_blockNumber :: "jsnum option"
  tc_status :: TxStatus
  tc_logs :: "TransactionLog list option"
  tc_confirmations :: "jsnum option"
  tc_chainId :: "jsnum option"
  tc_gasUsed :: "string option"

record AuthorizationStateResult =
  as_state :: "bool option"
  as_blockNumber :: jsnum
  as_chainHead :: jsnum
  as_stalenessBlocks :: jsnum
  as_error :: "string option"

definition getBlockNumber :: "RpcProviderConfig \<Rightarrow> rpc_provider \<Rightarrow> exn + jsnum" where
  "getBlockNumber cfg p = bind_exn (rpcCall cfg ''eth_blockNumber'' (rp_blockNumber p)) (\<lambda>hex. Inr (parseInt16 hex))"

definition getChainId :: "RpcProviderConfig \<Rightarrow> rpc_provider \<Rightarrow> exn + jsnum" where
  "getChainId cfg p = bind_exn (rpcCall cfg ''eth_chainId'' (rp_chainId p)) (\<lambda>hex. Inr (parseInt16 hex))"

definition chain_mismatch :: "RpcProviderConfig \<Rightarrow> jsnum \<Rightarrow> bool" where
  "chain_mismatch cfg chainId = (case rpc_chainId cfg of None \<Rightarrow> False | Some c \<Rightarrow> chainId \<noteq> Some c)"

definition chain_mismatch_message :: "RpcProviderConfig \<Rightarrow> jsnum \<Rightarrow> string" where
  "chain_mismatch_message cfg chainId = ''RPC provider '' @ rpc_providerId cfg @ '' returned chain '' @
     js_num_string chainId @ ''; expected '' @ js_num_string (rpc_chainId cfg)"

definition tx_not_found :: TransactionCheckResult where
  "tx_not_found = \<lparr>tc_found = False, tc_confirmed = False, tc_blockNumber = None, tc_status = Tx_pending,
     tc_logs = None, tc_confirmations = None, tc_chainId = None, tc_gasUsed = None\<rparr>"

definition parse_log :: "RpcLog \<Rightarrow> TransactionLog" where
  "parse_log l = \<lparr>tl_address = rl_address l, tl_topics = rl_topics l, tl_data = rl_data l,
     tl_logIndex = parseInt16 (rl_logIndex l)\<rparr>"

text \<open>
  A chain mismatch is rethrown (\<open>Inl\<close>); every other error becomes \<open>null\<close>
  (\<open>Inr None\<close>); an answer without a receipt is the honest \<open>found: false\<close>.
\<close>

definition getTransactionReceipt ::
    "RpcProviderConfig \<Rightarrow> rpc_provider \<Rightarrow> string \<Rightarrow> exn + TransactionCheckResult option" where
  "getTransactionReceipt cfg p txHash =
     (case rpcCall cfg ''eth_getTransactionReceipt'' (rp_receipt p txHash) of
        Inl _ \<Rightarrow> Inr None
      | Inr None \<Rightarrow> Inr (Some tx_not_found)
      | Inr (Some receipt) \<Rightarrow>
          (case getBlockNumber cfg p of
             Inl _ \<Rightarrow> Inr None
           | Inr chainHead \<Rightarrow>
               (case getChainId cfg p of
                  Inl _ \<Rightarrow> Inr None
                | Inr chainId \<Rightarrow>
                    (if chain_mismatch cfg chainId then Inl (chain_mismatch_message cfg chainId)
                     else (case (case rr_gasUsed receipt of None \<Rightarrow> Some None
                                 | Some g \<Rightarrow> map_option (\<lambda>v. Some (string_of_int v)) (BigInt g)) of
                             None \<Rightarrow> Inr None
                           | Some gas \<Rightarrow>
                               (let blockNum = parseInt16 (rr_blockNumber receipt);
                                    ok = (rr_status receipt = ''0x1'')
                                in Inr (Some \<lparr>tc_found = True, tc_confirmed = ok, tc_blockNumber = Some blockNum,
                                     tc_status = (if ok then Tx_success else Tx_reverted),
                                     tc_logs = Some (map parse_log (opt_default [] (rr_logs receipt))),
                                     tc_confirmations = Some (js_sub chainHead blockNum),
                                     tc_chainId = Some chainId, tc_gasUsed = gas\<rparr>)))))))"

text \<open>\<open>s.replace("0x", "")\<close> drops the first occurrence, wherever it stands.\<close>

fun drop_0x :: "string \<Rightarrow> string" where
  "drop_0x [] = []"
| "drop_0x (c # cs) = (if c = CHR ''0'' \<and> take 1 cs = ''x'' then tl cs else c # drop_0x cs)"

definition padded_authorizer :: "string \<Rightarrow> string" where
  "padded_authorizer authorizer = padStart (drop_0x (toLowerCase authorizer)) 64 (CHR ''0'')"

definition padded_nonce :: "string \<Rightarrow> string" where
  "padded_nonce nonce = padStart (drop_0x nonce) 64 (CHR ''0'')"

definition authorization_call_data :: "(string \<Rightarrow> string) \<Rightarrow> string \<Rightarrow> string \<Rightarrow> string" where
  "authorization_call_data keccak authorizer nonce =
     take 10 (keccak ''authorizationState(address,bytes32)'') @ padded_authorizer authorizer @ padded_nonce nonce"

text \<open>
  The bool an \<open>eth_call\<close> result stands for: 32 bytes of hex. Anything else is an error,
  \<open>0x\<close> because \<open>BigInt("0x")\<close> throws.
\<close>

definition decode_bool_word :: "RpcProviderConfig \<Rightarrow> json \<Rightarrow> exn + bool" where
  "decode_bool_word cfg result =
     (let malformed = Inl (''Malformed authorizationState eth_call result from '' @ rpc_providerId cfg @ '': '' @
                     take 66 (js_String result)) in
      case result of
        JStr raw \<Rightarrow>
          (if \<not> starts_with ''0x'' raw \<or> raw \<noteq> ''0x'' \<and> length raw \<noteq> 66 then malformed
           else (case BigInt raw of None \<Rightarrow> Inl (''Cannot convert '' @ raw @ '' to a BigInt'') | Some v \<Rightarrow> Inr (v \<noteq> 0)))
      | _ \<Rightarrow> malformed)"

definition checkAuthorizationState1 ::
    "(string \<Rightarrow> string) \<Rightarrow> RpcProviderConfig \<Rightarrow> rpc_provider \<Rightarrow> string \<Rightarrow> string \<Rightarrow> string \<Rightarrow>
     AuthorizationStateResult" where
  "checkAuthorizationState1 keccak cfg p tokenContract authorizer nonce =
     (case bind_exn (getBlockNumber cfg p) (\<lambda>chainHead.
           bind_exn (getChainId cfg p) (\<lambda>chainId.
             if chain_mismatch cfg chainId then Inl (chain_mismatch_message cfg chainId)
             else bind_exn (rpcCall cfg ''eth_call''
                      (rp_ethCall p tokenContract (authorization_call_data keccak authorizer nonce)))
                    (\<lambda>result. bind_exn (decode_bool_word cfg result) (\<lambda>state. Inr (chainHead, state))))) of
        Inr (chainHead, state) \<Rightarrow>
          \<lparr>as_state = Some state, as_blockNumber = chainHead, as_chainHead = chainHead,
           as_stalenessBlocks = Some 0, as_error = None\<rparr>
      | Inl e \<Rightarrow>
          \<lparr>as_state = None, as_blockNumber = Some (-1), as_chainHead = Some (-1),
           as_stalenessBlocks = Some (-1), as_error = Some e\<rparr>)"

subsection \<open>The chunked log scan\<close>

definition LOG_SCAN_CHUNK :: int where
  "LOG_SCAN_CHUNK = 10000"

definition event_filter :: "(string \<Rightarrow> string) \<Rightarrow> string \<Rightarrow> string \<Rightarrow> string \<Rightarrow> int \<Rightarrow> int \<Rightarrow> LogFilter" where
  "event_filter keccak tokenContract authorizer nonce chunkStart chunkEnd =
     \<lparr>lf_address = tokenContract,
      lf_topics = [keccak ''AuthorizationUsed(address,bytes32)'', ''0x'' @ padded_authorizer authorizer,
                   ''0x'' @ padded_nonce nonce],
      lf_fromBlock = ''0x'' @ hex_of_nat (nat chunkStart), lf_toBlock = ''0x'' @ hex_of_nat (nat chunkEnd)\<rparr>"

definition parse_event :: "RpcEventRef \<Rightarrow> AuEvent" where
  "parse_event e = \<lparr>au_transactionHash = re_transactionHash e, au_blockNumber = parseInt16 (re_blockNumber e),
     au_logIndex = parseInt16 (re_logIndex e)\<rparr>"

definition first_log :: "RpcEventRef list option \<Rightarrow> RpcEventRef option" where
  "first_log logs = (case logs of Some (log # _) \<Rightarrow> Some log | _ \<Rightarrow> None)"

text \<open>The loop over chunks; \<open>query\<close> is one \<open>eth_getLogs\<close> call on a chunk.\<close>

function scan_chunks :: "(int \<Rightarrow> int \<Rightarrow> exn + RpcEventRef list option) \<Rightarrow> int \<Rightarrow> int \<Rightarrow> exn + AuEvent option" where
  "scan_chunks query chunkStart toBlock =
     (if chunkStart \<le> toBlock
      then (case query chunkStart (min (chunkStart + LOG_SCAN_CHUNK - 1) toBlock) of
              Inl e \<Rightarrow> Inl e
            | Inr logs \<Rightarrow> (case first_log logs of
                Some log \<Rightarrow> Inr (Some (parse_event log))
              | None \<Rightarrow> scan_chunks query (chunkStart + LOG_SCAN_CHUNK) toBlock))
      else Inr None)"
  by pat_completeness auto
termination
  by (relation "measure (\<lambda>(q, a, b). nat (b + 1 - a))") (auto simp: LOG_SCAN_CHUNK_def)

declare scan_chunks.simps [simp del]

text \<open>With a \<open>NaN\<close> upper bound the loop condition is false at once.\<close>

definition findAuthorizationUsedEventStrict ::
    "(string \<Rightarrow> string) \<Rightarrow> RpcProviderConfig \<Rightarrow> rpc_provider \<Rightarrow> string \<Rightarrow> string \<Rightarrow> string \<Rightarrow> int \<Rightarrow> jsnum \<Rightarrow>
     exn + AuEvent option" where
  "findAuthorizationUsedEventStrict keccak cfg p tokenContract authorizer nonce fromBlock toBlock =
     (case toBlock of
        None \<Rightarrow> Inr None
      | Some tb \<Rightarrow> scan_chunks (\<lambda>a b. rpcCall cfg ''eth_getLogs''
                      (rp_getLogs p (event_filter keccak tokenContract authorizer nonce a b))) fromBlock tb)"

text \<open>The lenient variant of the same loop: an error is \<open>null\<close>.\<close>

definition findAuthorizationUsedEvent1 ::
    "(string \<Rightarrow> string) \<Rightarrow> RpcProviderConfig \<Rightarrow> rpc_provider \<Rightarrow> string \<Rightarrow> string \<Rightarrow> string \<Rightarrow> int \<Rightarrow> jsnum \<Rightarrow>
     AuEvent option" where
  "findAuthorizationUsedEvent1 keccak cfg p tokenContract authorizer nonce fromBlock toBlock =
     (case toBlock of
        None \<Rightarrow> None
      | Some tb \<Rightarrow>
          (case scan_chunks (\<lambda>a b. rpcCall cfg ''eth_getLogs''
                  (rp_getLogs p (event_filter keccak tokenContract authorizer nonce a b))) fromBlock tb of
             Inl _ \<Rightarrow> None
           | Inr r \<Rightarrow> r))"

section \<open>All providers\<close>

datatype Agreement = UNANIMOUS | DISAGREEMENT | INSUFFICIENT | ALL_FAILED

record BlockData =
  bd_blockNumber :: jsnum
  bd_chainHead :: jsnum
  bd_stalenessBlocks :: jsnum

record 'a Observation =
  ob_providerId :: string
  ob_underlyingProvider :: string
  ob_result :: "'a option"
  ob_error :: "string option"
  ob_observedAt :: int
  ob_blockData :: "BlockData option"

record 'a MultiRpcResult =
  mr_observations :: "'a Observation list"
  mr_agreement :: Agreement
  mr_unanimousValue :: "'a option"

record AuthorizationUsedScanResult =
  sr_observations :: "ScanObservation list"
  sr_outcome :: ScanOutcome
  sr_event :: "AuEvent option"

record MultiRpcChecker =
  ck_configs :: "RpcProviderConfig list"
  ck_finalityPolicy :: FinalityPolicy

definition new_MultiRpcChecker :: "RpcProviderConfig list \<Rightarrow> FinalityPolicy \<Rightarrow> exn + MultiRpcChecker" where
  "new_MultiRpcChecker configs finalityPolicy =
     (if length configs < 2 then Inl (''MultiRpcChecker requires at least 2 RPC providers ('' @ sect @ ''14)'')
      else if card (set (map rpc_underlyingProvider configs)) < 2
        then Inl (sect @ ''15: At least 2 different underlying providers required for independence'')
      else Inr \<lparr>ck_configs = configs, ck_finalityPolicy = finalityPolicy\<rparr>)"

text \<open>
  The consensus projection of a transaction: all fields but \<open>confirmations\<close> and
  \<open>chainId\<close>. The source compares the JSON text of the projection, which is equal exactly
  when the projections are; other result types have neither field and are compared whole.
\<close>

definition canonical_tx :: "TransactionCheckResult \<Rightarrow> TransactionCheckResult" where
  "canonical_tx tx = tx\<lparr>tc_confirmations := None, tc_chainId := None\<rparr>"

fun set_first_result :: "'a \<Rightarrow> 'a Observation list \<Rightarrow> 'a Observation list" where
  "set_first_result v [] = []"
| "set_first_result v (ob # obs) =
     (if ob_result ob = None then ob # set_first_result v obs else ob\<lparr>ob_result := Some v\<rparr> # obs)"

text \<open>
  \<open>getc\<close> reads the \<open>confirmations\<close> of a result (\<open>None\<close> when it has no such
  field) and \<open>setc\<close> writes them. The write goes to the object the first successful
  observation holds, so the observation shows it too.
\<close>

definition aggregateResults ::
    "('a \<Rightarrow> 'b) \<Rightarrow> ('a \<Rightarrow> jsnum option) \<Rightarrow> (jsnum \<Rightarrow> 'a \<Rightarrow> 'a) \<Rightarrow> 'a Observation list \<Rightarrow> 'a MultiRpcResult" where
  "aggregateResults canonical getc setc results =
     (case List.map_filter ob_result results of
        [] \<Rightarrow> \<lparr>mr_observations = results, mr_agreement = ALL_FAILED, mr_unanimousValue = None\<rparr>
      | [_] \<Rightarrow> \<lparr>mr_observations = results, mr_agreement = INSUFFICIENT, mr_unanimousValue = None\<rparr>
      | v # w # vs \<Rightarrow>
          (if list_all (\<lambda>r. canonical r = canonical v) (v # w # vs)
           then (let cl = List.map_filter getc (v # w # vs)
                 in if length cl = length (v # w # vs)
                    then (let c = setc (js_min cl) v
                          in \<lparr>mr_observations = set_first_result c results, mr_agreement = UNANIMOUS,
                              mr_unanimousValue = Some c\<rparr>)
                    else \<lparr>mr_observations = results, mr_agreement = UNANIMOUS, mr_unanimousValue = Some v\<rparr>)
           else \<lparr>mr_observations = results, mr_agreement = DISAGREEMENT, mr_unanimousValue = None\<rparr>))"

definition aggregate_tx :: "TransactionCheckResult Observation list \<Rightarrow> TransactionCheckResult MultiRpcResult" where
  "aggregate_tx = aggregateResults canonical_tx tc_confirmations (\<lambda>c tx. tx\<lparr>tc_confirmations := Some c\<rparr>)"

definition aggregate_plain :: "'a Observation list \<Rightarrow> 'a MultiRpcResult" where
  "aggregate_plain = aggregateResults (\<lambda>v. v) (\<lambda>_. None) (\<lambda>_ v. v)"

definition mk_observation ::
    "RpcProviderConfig \<Rightarrow> int \<Rightarrow> 'a option \<Rightarrow> string option \<Rightarrow> BlockData option \<Rightarrow> 'a Observation" where
  "mk_observation cfg t res err bd =
     \<lparr>ob_providerId = rpc_providerId cfg, ob_underlyingProvider = rpc_underlyingProvider cfg, ob_result = res,
      ob_error = err, ob_observedAt = t, ob_blockData = bd\<rparr>"

definition observe_tx :: "string \<Rightarrow> int \<Rightarrow> RpcProviderConfig \<times> rpc_provider \<Rightarrow> TransactionCheckResult Observation" where
  "observe_tx txHash t = (\<lambda>(cfg, p).
     (case getTransactionReceipt cfg p txHash of
        Inl e \<Rightarrow> mk_observation cfg t None (Some e) None
      | Inr r \<Rightarrow> mk_observation cfg t r None None))"

definition checkTransaction ::
    "MultiRpcChecker \<Rightarrow> rpc_provider list \<Rightarrow> string \<Rightarrow> int \<Rightarrow> TransactionCheckResult MultiRpcResult" where
  "checkTransaction ck ps txHash t = aggregate_tx (map (observe_tx txHash t) (zip (ck_configs ck) ps))"

definition observe_event ::
    "(string \<Rightarrow> string) \<Rightarrow> string \<Rightarrow> string \<Rightarrow> string \<Rightarrow> int \<Rightarrow> jsnum option \<Rightarrow> int \<Rightarrow>
     RpcProviderConfig \<times> rpc_provider \<Rightarrow> AuEvent Observation" where
  "observe_event keccak tokenContract authorizer nonce fromBlock toBlock t = (\<lambda>(cfg, p).
     (case (case toBlock of Some b \<Rightarrow> Inr b | None \<Rightarrow> getBlockNumber cfg p) of
        Inl e \<Rightarrow> mk_observation cfg t None (Some e) None
      | Inr endBlock \<Rightarrow> mk_observation cfg t
          (findAuthorizationUsedEvent1 keccak cfg p tokenContract authorizer nonce fromBlock endBlock) None None))"

definition findAuthorizationUsedEvent ::
    "(string \<Rightarrow> string) \<Rightarrow> MultiRpcChecker \<Rightarrow> rpc_provider list \<Rightarrow> string \<Rightarrow> string \<Rightarrow> string \<Rightarrow> int \<Rightarrow>
     jsnum option \<Rightarrow> int \<Rightarrow> AuEvent MultiRpcResult" where
  "findAuthorizationUsedEvent keccak ck ps tokenContract authorizer nonce fromBlock toBlock t =
     aggregate_plain (map (observe_event keccak tokenContract authorizer nonce fromBlock toBlock t)
       (zip (ck_configs ck) ps))"

definition observe_auth ::
    "(string \<Rightarrow> string) \<Rightarrow> string \<Rightarrow> string \<Rightarrow> string \<Rightarrow> int \<Rightarrow> RpcProviderConfig \<times> rpc_provider \<Rightarrow>
     bool Observation" where
  "observe_auth keccak tokenContract authorizer nonce t = (\<lambda>(cfg, p).
     (let r = checkAuthorizationState1 keccak cfg p tokenContract authorizer nonce
      in mk_observation cfg t (as_state r) (as_error r)
           (if as_state r = None then None
            else Some \<lparr>bd_blockNumber = as_blockNumber r, bd_chainHead = as_chainHead r,
                      bd_stalenessBlocks = as_stalenessBlocks r\<rparr>)))"

definition checkAuthorizationState ::
    "(string \<Rightarrow> string) \<Rightarrow> MultiRpcChecker \<Rightarrow> rpc_provider list \<Rightarrow> string \<Rightarrow> string \<Rightarrow> string \<Rightarrow> int \<Rightarrow>
     bool MultiRpcResult" where
  "checkAuthorizationState keccak ck ps tokenContract authorizer nonce t =
     aggregate_plain (map (observe_auth keccak tokenContract authorizer nonce t) (zip (ck_configs ck) ps))"

definition observe_scan ::
    "(string \<Rightarrow> string) \<Rightarrow> string \<Rightarrow> string \<Rightarrow> string \<Rightarrow> int \<Rightarrow> int \<Rightarrow> RpcProviderConfig \<times> rpc_provider \<Rightarrow>
     ScanObservation" where
  "observe_scan keccak tokenContract authorizer nonce fromBlock t = (\<lambda>(cfg, p).
     (case bind_exn (getBlockNumber cfg p) (\<lambda>chainHead.
             bind_exn (findAuthorizationUsedEventStrict keccak cfg p tokenContract authorizer nonce fromBlock chainHead)
               (\<lambda>event. Inr (chainHead, event))) of
        Inr (chainHead, event) \<Rightarrow>
          \<lparr>so_providerId = rpc_providerId cfg, so_underlyingProvider = rpc_underlyingProvider cfg, so_scanned = True,
           so_event = event, so_fromBlock = fromBlock, so_toBlock = chainHead, so_chainHead = chainHead,
           so_error = None, so_observedAt = t\<rparr>
      | Inl e \<Rightarrow>
          \<lparr>so_providerId = rpc_providerId cfg, so_underlyingProvider = rpc_underlyingProvider cfg, so_scanned = False,
           so_event = None, so_fromBlock = fromBlock, so_toBlock = Some 0, so_chainHead = Some 0,
           so_error = Some e, so_observedAt = t\<rparr>))"

definition scanAuthorizationUsed ::
    "(string \<Rightarrow> string) \<Rightarrow> MultiRpcChecker \<Rightarrow> rpc_provider list \<Rightarrow> string \<Rightarrow> string \<Rightarrow> string \<Rightarrow> int \<Rightarrow> int \<Rightarrow>
     AuthorizationUsedScanResult" where
  "scanAuthorizationUsed keccak ck ps tokenContract authorizer nonce fromBlock t =
     (let observations = map (observe_scan keccak tokenContract authorizer nonce fromBlock t) (zip (ck_configs ck) ps);
          found = filter (\<lambda>ob. so_scanned ob \<and> so_event ob \<noteq> None) observations
      in if \<not> list_all so_scanned observations
           then \<lparr>sr_observations = observations, sr_outcome = Scan_INCOMPLETE, sr_event = None\<rparr>
         else if length found = length observations
           then \<lparr>sr_observations = observations, sr_outcome = Scan_EVENT_FOUND, sr_event = so_event (hd found)\<rparr>
         else if found = []
           then \<lparr>sr_observations = observations, sr_outcome = Scan_SCAN_COMPLETE_EMPTY, sr_event = None\<rparr>
         else \<lparr>sr_observations = observations, sr_outcome = Scan_DISAGREEMENT, sr_event = None\<rparr>)"

section \<open>The NOT_SETTLED gate\<close>

fun freshness_failure :: "RpcProviderConfig list \<Rightarrow> bool Observation list \<Rightarrow> string option" where
  "freshness_failure configs [] = None"
| "freshness_failure configs (ob # obs) =
     (if ob_result ob = None then freshness_failure configs obs
      else (case ob_blockData ob of
        None \<Rightarrow> Some (sect @ ''11-D: provider '' @ ob_providerId ob @ '' produced no fresh block data '' @ mdash @
                    '' cannot declare NOT_SETTLED'')
      | Some bd \<Rightarrow>
          (if js_lt (bd_blockNumber bd) (Some 0) \<or> js_lt (bd_chainHead bd) (Some 0) \<or>
              js_lt (bd_stalenessBlocks bd) (Some 0)
           then Some (sect @ ''11-D: provider '' @ ob_providerId ob @ '' produced no fresh block data '' @ mdash @
                    '' cannot declare NOT_SETTLED'')
           else (case find (\<lambda>c. rpc_providerId c = ob_providerId ob) configs of
                   None \<Rightarrow> Some (sect @ ''11-D: unknown provider '' @ ob_providerId ob @ '' '' @ mdash @
                               '' no staleness budget configured'')
                 | Some c \<Rightarrow>
                     (if js_lt (Some (rpc_maxStalenessBlocks c)) (bd_stalenessBlocks bd)
                      then Some (sect @ ''11-D: provider '' @ ob_providerId ob @ '' stale '' @ mdash @ '' '' @
                             js_num_string (bd_stalenessBlocks bd) @ '' blocks behind head (budget '' @
                             string_of_int (rpc_maxStalenessBlocks c) @ '')'')
                      else freshness_failure configs obs)))))"

definition canDeclareNotSettled :: "MultiRpcChecker \<Rightarrow> bool MultiRpcResult \<Rightarrow> int \<Rightarrow> int \<Rightarrow> bool \<times> string" where
  "canDeclareNotSettled ck authResult validBefore currentTime =
     (if currentTime < validBefore then (False, sect @ ''11-A: validBefore not yet expired'')
      else (case mr_agreement authResult of
        DISAGREEMENT \<Rightarrow> (False, sect @ ''14: RPC disagreement '' @ mdash @ '' cannot declare NOT_SETTLED'')
      | INSUFFICIENT \<Rightarrow> (False, sect @ ''14: Insufficient RPC observations (need >= 2)'')
      | ALL_FAILED \<Rightarrow> (False, sect @ ''14: All RPCs failed'')
      | UNANIMOUS \<Rightarrow>
          (if mr_unanimousValue authResult \<noteq> Some False
             then (False, sect @ ''11-B: authorizationState is not false'')
           else (case freshness_failure (ck_configs ck) (mr_observations authResult) of
                   Some reason \<Rightarrow> (False, reason)
                 | None \<Rightarrow> (True, ''All '' @ sect @ ''11 conditions met'')))))"

definition getFinalityPolicy :: "MultiRpcChecker \<Rightarrow> FinalityPolicy" where
  "getFinalityPolicy ck = ck_finalityPolicy ck"

section \<open>The log scan covers its range\<close>

definition no_logs :: "exn + RpcEventRef list option \<Rightarrow> bool" where
  "no_logs r = (case r of Inl e \<Rightarrow> False | Inr logs \<Rightarrow> first_log logs = None)"

lemma scan_chunks_empty:
  assumes "scan_chunks query a b = Inr None" "a \<le> b"
  shows "no_logs (query a (min (a + LOG_SCAN_CHUNK - 1) b)) \<and>
         scan_chunks query (a + LOG_SCAN_CHUNK) b = Inr None"
  using assms by (subst (asm) scan_chunks.simps) (auto simp: no_logs_def split: sum.splits option.splits)

lemma scan_chunks_empty_covers:
  "scan_chunks query a b = Inr None \<Longrightarrow> a \<le> x \<Longrightarrow> x \<le> b \<Longrightarrow>
   \<exists>lo hi. a \<le> lo \<and> lo \<le> x \<and> x \<le> hi \<and> hi \<le> b \<and> hi - lo < LOG_SCAN_CHUNK \<and> no_logs (query lo hi)"
proof (induction "nat (b + 1 - a)" arbitrary: a rule: less_induct)
  case less
  let ?hi = "min (a + LOG_SCAN_CHUNK - 1) b"
  from less.prems have le: "a \<le> b" by simp
  from scan_chunks_empty [OF less.prems(1) le] have q: "no_logs (query a ?hi)"
    and rest: "scan_chunks query (a + LOG_SCAN_CHUNK) b = Inr None" by auto
  show ?case
  proof (cases "x \<le> ?hi")
    case True
    have "hi - a < LOG_SCAN_CHUNK" if "hi = ?hi" for hi using that by (simp add: min_def)
    with q True less.prems(2) show ?thesis by (intro exI [of _ a] exI [of _ ?hi]) simp
  next
    case False
    with less.prems(3) have x: "a + LOG_SCAN_CHUNK \<le> x" by (auto simp: min_def split: if_splits)
    have "nat (b + 1 - (a + LOG_SCAN_CHUNK)) < nat (b + 1 - a)" using le by (simp add: LOG_SCAN_CHUNK_def)
    from less.hyps [OF this rest x less.prems(3)] obtain lo hi where
      "a + LOG_SCAN_CHUNK \<le> lo" "lo \<le> x" "x \<le> hi" "hi \<le> b" "hi - lo < LOG_SCAN_CHUNK" "no_logs (query lo hi)"
      by blast
    then show ?thesis by (intro exI [of _ lo] exI [of _ hi]) (simp add: LOG_SCAN_CHUNK_def)
  qed
qed

text \<open>An honest endpoint answers a chunk from one list of logs, oldest first.\<close>

definition honest_query :: "(int \<times> RpcEventRef) list \<Rightarrow> int \<Rightarrow> int \<Rightarrow> exn + RpcEventRef list option" where
  "honest_query chain lo hi = Inr (Some (map snd (filter (\<lambda>(blk, e). lo \<le> blk \<and> blk \<le> hi) chain)))"

definition first_event :: "(int \<times> RpcEventRef) list \<Rightarrow> int \<Rightarrow> int \<Rightarrow> AuEvent option" where
  "first_event chain lo hi = map_option (\<lambda>(blk, e). parse_event e) (find (\<lambda>(blk, e). lo \<le> blk \<and> blk \<le> hi) chain)"

lemma find_filter_hd: "find P xs = (case filter P xs of [] \<Rightarrow> None | y # ys \<Rightarrow> Some y)"
  by (induction xs) auto

lemma find_split_range:
  assumes "sorted (map fst chain)" "lo \<le> mid" "mid \<le> hi"
  shows "find (\<lambda>(blk, e). lo \<le> blk \<and> blk \<le> hi) chain =
         or_else (find (\<lambda>(blk, e). lo \<le> blk \<and> blk \<le> mid) chain)
                 (find (\<lambda>(blk, e). mid + 1 \<le> blk \<and> blk \<le> hi) (chain :: (int \<times> 'e) list))"
  using assms(1)
proof (induction chain)
  case (Cons c cs)
  obtain blk e where c: "c = (blk, e)" by fastforce
  have none: "find (\<lambda>(blk, e). lo \<le> blk \<and> blk \<le> mid) cs = None" if "mid < blk"
    using Cons.prems that by (force simp: c find_None_iff)
  from Cons show ?case using assms(2,3) none by (auto simp: c)
qed simp

lemma first_log_honest:
  "first_log (Some (map snd (filter P chain))) = map_option snd (find P chain)"
  by (induction chain) (auto simp: first_log_def)

lemma first_event_split:
  assumes "sorted (map fst chain)" "lo \<le> mid" "mid \<le> hi"
  shows "first_event chain lo hi = or_else (first_event chain lo mid) (first_event chain (mid + 1) hi)"
  unfolding first_event_def find_split_range [OF assms] by (auto simp: or_else_def split: option.splits)

lemma first_event_empty: "hi < lo \<Longrightarrow> first_event chain lo hi = None"
  by (auto simp: first_event_def find_None_iff)

lemma first_event_clip: "first_event chain (min (a + LOG_SCAN_CHUNK - 1) b + 1) b = first_event chain (a + LOG_SCAN_CHUNK) b"
proof (cases "a + LOG_SCAN_CHUNK - 1 \<le> b")
  case True
  then have "min (a + LOG_SCAN_CHUNK - 1) b + 1 = a + LOG_SCAN_CHUNK" by simp
  then show ?thesis by simp
qed (simp add: first_event_empty)

lemma scan_chunks_honest:
  "sorted (map fst chain) \<Longrightarrow> scan_chunks (honest_query chain) a b = Inr (first_event chain a b)"
proof (induction "nat (b + 1 - a)" arbitrary: a rule: less_induct)
  case less
  let ?hi = "min (a + LOG_SCAN_CHUNK - 1) b"
  show ?case
  proof (cases "a \<le> b")
    case True
    then have mid: "a \<le> ?hi" "?hi \<le> b" by (simp_all add: LOG_SCAN_CHUNK_def)
    have "nat (b + 1 - (a + LOG_SCAN_CHUNK)) < nat (b + 1 - a)" using True by (simp add: LOG_SCAN_CHUNK_def)
    from less.hyps [OF this less.prems]
    have rest: "scan_chunks (honest_query chain) (a + LOG_SCAN_CHUNK) b = Inr (first_event chain (a + LOG_SCAN_CHUNK) b)" .
    have ev: "first_event chain a b = or_else (first_event chain a ?hi) (first_event chain (a + LOG_SCAN_CHUNK) b)"
      using first_event_split [OF less.prems mid] by (simp only: first_event_clip)
    have q: "honest_query chain a ?hi = Inr (Some (map snd (filter (\<lambda>(blk, e). a \<le> blk \<and> blk \<le> ?hi) chain)))"
      by (simp only: honest_query_def)
    show ?thesis
      unfolding ev
      by (subst scan_chunks.simps, simp only: q True if_True sum.case first_log_honest rest)
         (auto simp: first_event_def split: option.splits)
  qed (subst scan_chunks.simps, simp add: first_event_empty)
qed

section \<open>Agreement\<close>

lemma set_first_result_frame:
  "map ob_providerId (set_first_result v obs) = map ob_providerId obs"
  "length (set_first_result v obs) = length obs"
  by (induction obs) auto

lemma aggregate_unanimous:
  assumes "mr_agreement (aggregateResults canonical getc setc results) = UNANIMOUS"
  shows "\<exists>v vs. List.map_filter ob_result results = v # vs \<and> vs \<noteq> [] \<and>
           (\<forall>r \<in> set vs. canonical r = canonical v) \<and>
           mr_unanimousValue (aggregateResults canonical getc setc results) =
             Some (if length (List.map_filter getc (v # vs)) = length (v # vs)
                   then setc (js_min (List.map_filter getc (v # vs))) v else v)"
proof -
  from assms obtain v w vs where l: "List.map_filter ob_result results = v # w # vs"
    and a: "list_all (\<lambda>r. canonical r = canonical v) (v # w # vs)"
    by (auto simp: aggregateResults_def Let_def split: list.splits if_splits)
  have "mr_unanimousValue (aggregateResults canonical getc setc results) =
    Some (if length (List.map_filter getc (v # w # vs)) = length (v # w # vs)
          then setc (js_min (List.map_filter getc (v # w # vs))) v else v)"
    unfolding aggregateResults_def l Let_def list.case if_P [OF a]
    by (cases "length (List.map_filter getc (v # w # vs)) = length (v # w # vs)") (simp_all only: if_True if_False simp_thms MultiRpcResult.simps)
  with l a show ?thesis by (intro exI [of _ v] exI [of _ "w # vs"]) (simp add: list_all_iff)
qed

lemma aggregate_value_iff:
  "mr_unanimousValue (aggregateResults canonical getc setc results) \<noteq> None \<longleftrightarrow>
   mr_agreement (aggregateResults canonical getc setc results) = UNANIMOUS"
  by (auto simp: aggregateResults_def Let_def split: list.splits if_splits)

lemma map_filter_complete:
  "length (List.map_filter f xs) = length xs \<Longrightarrow> x \<in> set xs \<Longrightarrow> \<exists>y. f x = Some y \<and> y \<in> set (List.map_filter f xs)"
proof (induction xs)
  case (Cons a xs)
  have "length (List.map_filter f xs) \<le> length xs"
    by (simp add: List.map_filter_def)
  with Cons show ?case by (cases "f a") (auto simp: map_filter_simps)
qed simp

lemma map_filter_results: "set (List.map_filter ob_result obs) = {v. \<exists>ob \<in> set obs. ob_result ob = Some v}"
  by (force simp: List.map_filter_def)

lemma observe_tx_result:
  "ob_result (observe_tx txHash t (cfg, p)) = Some v \<longleftrightarrow> getTransactionReceipt cfg p txHash = Inr (Some v)"
  by (auto simp: observe_tx_def mk_observation_def split: sum.splits)

lemma aggregate_plain_unanimous:
  assumes "mr_agreement (aggregate_plain obs) = UNANIMOUS"
  shows "\<exists>v. mr_unanimousValue (aggregate_plain obs) = Some v \<and> mr_observations (aggregate_plain obs) = obs \<and>
             2 \<le> length (filter (\<lambda>ob. ob_result ob \<noteq> None) obs) \<and>
             (\<forall>ob \<in> set obs. ob_result ob = None \<or> ob_result ob = Some v)"
proof -
  have mf: "List.map_filter (\<lambda>_. None) xs = []" for xs :: "'b list" by (simp add: List.map_filter_def)
  from aggregate_unanimous [OF assms [unfolded aggregate_plain_def]] obtain v vs where
    v: "List.map_filter ob_result obs = v # vs" "vs \<noteq> []" "\<forall>r \<in> set vs. r = v"
    "mr_unanimousValue (aggregate_plain obs) = Some v"
    by (auto simp: mf aggregate_plain_def split: if_splits)
  have o: "mr_observations (aggregate_plain obs) = obs"
    by (auto simp: aggregate_plain_def aggregateResults_def Let_def mf split: list.splits)
  have "length (List.map_filter ob_result obs) = length (filter (\<lambda>ob. ob_result ob \<noteq> None) obs)"
    by (simp add: List.map_filter_def)
  moreover have "2 \<le> length (v # vs)" using v(2) by (cases vs) auto
  moreover have "w = v" if "ob \<in> set obs" "ob_result ob = Some w" for ob w
    using map_filter_results [of obs] v(1,3) that by auto
  ultimately show ?thesis using v o by (metis option.exhaust)
qed

lemma freshness_failure_None:
  "freshness_failure configs obs = None \<longleftrightarrow>
   (\<forall>ob \<in> set obs. ob_result ob \<noteq> None \<longrightarrow>
      (\<exists>bd c. ob_blockData ob = Some bd \<and> \<not> js_lt (bd_blockNumber bd) (Some 0) \<and> \<not> js_lt (bd_chainHead bd) (Some 0) \<and>
         \<not> js_lt (bd_stalenessBlocks bd) (Some 0) \<and>
         find (\<lambda>c. rpc_providerId c = ob_providerId ob) configs = Some c \<and>
         \<not> js_lt (Some (rpc_maxStalenessBlocks c)) (bd_stalenessBlocks bd)))"
  by (induction configs obs rule: freshness_failure.induct) (auto split: option.splits)

lemma checkAuthorizationState1_state:
  "as_state (checkAuthorizationState1 keccak cfg p tok auth nonce) = Some b \<Longrightarrow>
   \<exists>raw. rp_ethCall p tok (authorization_call_data keccak auth nonce) = RpcResult (JStr raw) \<and>
         starts_with ''0x'' raw \<and> length raw = 66 \<and> (\<exists>n. BigInt raw = Some n \<and> (b \<longleftrightarrow> n \<noteq> 0)) \<and>
         (\<exists>h. rp_chainId p = RpcResult h \<and> \<not> chain_mismatch cfg (parseInt16 h))"
proof -
  assume st: "as_state (checkAuthorizationState1 keccak cfg p tok auth nonce) = Some b"
  have bx: "BigInt ''0x'' = None" by (simp add: BigInt_def trim_def is_blank_def char_code_def starts_with_def Let_def)
  from st obtain h raw where h: "rpcCall cfg ''eth_chainId'' (rp_chainId p) = Inr h" "\<not> chain_mismatch cfg (parseInt16 h)"
    and c: "rpcCall cfg ''eth_call'' (rp_ethCall p tok (authorization_call_data keccak auth nonce)) = Inr raw"
    and d: "decode_bool_word cfg raw = Inr b"
    by (auto simp: checkAuthorizationState1_def getChainId_def bind_exn_Inr split: sum.splits if_splits)
  from d obtain s where "raw = JStr s" "starts_with ''0x'' s" "length s = 66 \<or> s = ''0x''"
    "\<exists>n. BigInt s = Some n \<and> (b \<longleftrightarrow> n \<noteq> 0)"
    by (auto simp: decode_bool_word_def Let_def split: json.splits if_splits option.splits)
  moreover from h(1) have "rp_chainId p = RpcResult h" by (auto simp: rpcCall_def split: rpc_response.splits)
  moreover from c have "rp_ethCall p tok (authorization_call_data keccak auth nonce) = RpcResult raw"
    by (auto simp: rpcCall_def split: rpc_response.splits)
  ultimately show ?thesis using h(2) bx by auto
qed

lemma getTransactionReceipt_confirmations:
  "getTransactionReceipt cfg p txHash = Inr (Some v) \<Longrightarrow> tc_found v \<longleftrightarrow> tc_confirmations v \<noteq> None"
  by (auto simp: getTransactionReceipt_def tx_not_found_def Let_def split: sum.splits option.splits if_splits)

lemma canonical_tx_simps [simp]:
  "tc_found (canonical_tx tx) = tc_found tx" "tc_status (canonical_tx tx) = tc_status tx"
  "canonical_tx (tx\<lparr>tc_confirmations := c\<rparr>) = canonical_tx tx"
  by (simp_all add: canonical_tx_def)

lemma canonical_found: "canonical_tx v = canonical_tx w \<Longrightarrow> tc_found v = tc_found w"
  by (metis canonical_tx_simps(1))

lemma js_min_map_filter:
  assumes "length (List.map_filter f xs) = length xs" "js_min (List.map_filter f xs) = Some m" "x \<in> set xs"
  shows "\<exists>y. f x = Some (Some y) \<and> m \<le> y"
  using map_filter_complete [OF assms(1,3)] js_min_Some [OF assms(2)] by auto

lemma scan_chunks_cong:
  "(\<And>lo hi. a \<le> lo \<Longrightarrow> lo \<le> hi \<Longrightarrow> q1 lo hi = q2 lo hi) \<Longrightarrow> scan_chunks q1 a b = scan_chunks q2 a b"
proof (induction "nat (b + 1 - a)" arbitrary: a rule: less_induct)
  case less
  show ?case
  proof (cases "a \<le> b")
    case True
    have "nat (b + 1 - (a + LOG_SCAN_CHUNK)) < nat (b + 1 - a)" using True by (simp add: LOG_SCAN_CHUNK_def)
    then have "scan_chunks q1 (a + LOG_SCAN_CHUNK) b = scan_chunks q2 (a + LOG_SCAN_CHUNK) b"
      by (rule less.hyps) (rule less.prems, simp_all add: LOG_SCAN_CHUNK_def)
    moreover have "q1 a (min (a + LOG_SCAN_CHUNK - 1) b) = q2 a (min (a + LOG_SCAN_CHUNK - 1) b)"
      by (rule less.prems) (use True in \<open>simp_all add: LOG_SCAN_CHUNK_def\<close>)
    ultimately show ?thesis by (subst (1 2) scan_chunks.simps) (simp split: sum.splits option.splits)
  qed (subst (1 2) scan_chunks.simps, simp)
qed

lemma rpcCall_Inr: "rpcCall cfg m r = Inr a \<longleftrightarrow> r = RpcResult a"
  by (cases r) (simp_all add: rpcCall_def)

lemma observe_scan_empty:
  assumes "so_scanned (observe_scan keccak tok auth nonce fromBlock t (cfg, p))"
    and "so_event (observe_scan keccak tok auth nonce fromBlock t (cfg, p)) = None"
  shows "\<exists>h. rp_blockNumber p = RpcResult h \<and>
           (\<forall>head. parseInt16 h = Some head \<longrightarrow> scan_chunks (\<lambda>a b. rpcCall cfg ''eth_getLogs''
              (rp_getLogs p (event_filter keccak tok auth nonce a b))) fromBlock head = Inr None)"
  using assms
  by (auto simp: observe_scan_def getBlockNumber_def bind_exn_Inr rpcCall_Inr findAuthorizationUsedEventStrict_def
      split: sum.splits option.splits)

lemma no_logs_rpc: "no_logs (rpcCall cfg m r) \<longleftrightarrow> (\<exists>logs. r = RpcResult logs \<and> first_log logs = None)"
  by (cases r) (simp_all add: no_logs_def rpcCall_def)

section \<open>Properties\<close>

text \<open>
  Property C23. Consensus on a transaction: when the checker reports agreement, at least two
  providers answered, every provider that answered reports the same settlement-relevant fields
  as the agreed value, and the agreed confirmation count, when it is a number, is a lower bound
  of the count each of them witnessed.
\<close>

theorem transaction_consensus:
  assumes "mr_agreement (checkTransaction ck ps txHash t) = UNANIMOUS"
  shows "\<exists>tx. mr_unanimousValue (checkTransaction ck ps txHash t) = Some tx \<and>
     2 \<le> length (filter (\<lambda>(cfg, p). \<exists>v. getTransactionReceipt cfg p txHash = Inr (Some v)) (zip (ck_configs ck) ps)) \<and>
     (\<forall>(cfg, p) \<in> set (zip (ck_configs ck) ps). \<forall>v. getTransactionReceipt cfg p txHash = Inr (Some v) \<longrightarrow>
        canonical_tx v = canonical_tx tx \<and>
        (\<forall>c. tc_confirmations tx = Some (Some c) \<longrightarrow> (\<exists>c'. tc_confirmations v = Some (Some c') \<and> c \<le> c')))"
proof -
  let ?zs = "zip (ck_configs ck) ps"
  let ?obs = "map (observe_tx txHash t) ?zs"
  let ?cl = "\<lambda>vs. List.map_filter tc_confirmations vs"
  from aggregate_unanimous [OF assms [unfolded checkTransaction_def aggregate_tx_def]]
  obtain v vs where vs: "List.map_filter ob_result ?obs = v # vs" "vs \<noteq> []"
      "\<forall>r \<in> set vs. canonical_tx r = canonical_tx v"
    and val: "mr_unanimousValue (checkTransaction ck ps txHash t) =
      Some (if length (?cl (v # vs)) = length (v # vs) then v\<lparr>tc_confirmations := Some (js_min (?cl (v # vs)))\<rparr> else v)"
      (is "_ = Some ?tx")
    unfolding checkTransaction_def aggregate_tx_def by blast
  have mem: "w \<in> set (v # vs) \<longleftrightarrow> (\<exists>(cfg, p) \<in> set ?zs. getTransactionReceipt cfg p txHash = Inr (Some w))" for w
    unfolding vs(1) [symmetric] map_filter_results using observe_tx_result by (fastforce simp del: set_zip)
  have fnd: "tc_found w \<longleftrightarrow> tc_confirmations w \<noteq> None" if "w \<in> set (v # vs)" for w
    using that mem getTransactionReceipt_confirmations by blast
  have conf: "\<exists>c'. tc_confirmations w = Some (Some c') \<and> c \<le> c'"
    if w: "w \<in> set (v # vs)" and c: "tc_confirmations ?tx = Some (Some c)" for w c
  proof (cases "length (?cl (v # vs)) = length (v # vs)")
    case True
    then have "js_min (?cl (v # vs)) = Some c" using c by simp
    from js_min_map_filter [OF True this w] show ?thesis .
  next
    case False
    then have "tc_found v" using c fnd [of v] by simp
    then have all: "tc_confirmations r \<noteq> None" if "r \<in> set (v # vs)" for r
      using fnd [OF that] canonical_found [of r v] vs(3) that by auto
    have "length (?cl (v # vs)) = length (v # vs)"
      using all by (simp add: List.map_filter_def filter_id_conv del: length_Cons)
    with False show ?thesis by simp
  qed
  have can: "canonical_tx w = canonical_tx ?tx" if "w \<in> set (v # vs)" for w using that vs(3) by auto
  have "length (v # vs) = length (filter (\<lambda>(cfg, p). \<exists>v. getTransactionReceipt cfg p txHash = Inr (Some v)) ?zs)"
    unfolding vs(1) [symmetric]
    by (auto simp: List.map_filter_def filter_map comp_def observe_tx_result intro!: arg_cong [of _ _ length] filter_cong)
  moreover have "2 \<le> length (v # vs)" using vs(2) by (cases vs) auto
  moreover have "canonical_tx w = canonical_tx ?tx \<and>
      (\<forall>c. tc_confirmations ?tx = Some (Some c) \<longrightarrow> (\<exists>c'. tc_confirmations w = Some (Some c') \<and> c \<le> c'))"
    if "(cfg, p) \<in> set ?zs" "getTransactionReceipt cfg p txHash = Inr (Some w)" for cfg p w
  proof -
    from that mem have "w \<in> set (v # vs)" by blast
    then show ?thesis using can conf by blast
  qed
  ultimately show ?thesis using val by (intro exI [of _ ?tx] conjI) auto
qed

text \<open>Two providers for the witnesses: one finds no transaction, no log and an unused authorization.\<close>

definition zero_word :: string where "zero_word = ''0x'' @ replicate 64 (CHR ''0'')"

definition sample_cfg :: "string \<Rightarrow> string \<Rightarrow> RpcProviderConfig" where
  "sample_cfg ident vendor = \<lparr>rpc_providerId = ident, rpc_underlyingProvider = vendor, rpc_rpcUrl = [],
     rpc_maxStalenessBlocks = 5, rpc_chainId = None\<rparr>"

definition sample_checker :: MultiRpcChecker where
  "sample_checker = \<lparr>ck_configs = [sample_cfg ''a'' ''alchemy'', sample_cfg ''b'' ''infura''],
     ck_finalityPolicy = DEFAULT_FINALITY_POLICY\<rparr>"

definition empty_provider :: "string \<Rightarrow> rpc_provider" where
  "empty_provider head = \<lparr>rp_blockNumber = RpcResult head, rp_chainId = RpcResult ''0x2105'',
     rp_receipt = (\<lambda>_. RpcResult None), rp_ethCall = (\<lambda>_ _. RpcResult (JStr zero_word)),
     rp_getLogs = (\<lambda>_. RpcResult (Some []))\<rparr>"

text \<open>A provider that knows one successful receipt, and no more.\<close>

definition receipt_provider :: "string \<Rightarrow> RpcReceipt \<Rightarrow> rpc_provider" where
  "receipt_provider head rc = (empty_provider head)\<lparr>rp_receipt := (\<lambda>_. RpcResult (Some rc))\<rparr>"

definition sample_receipt :: RpcReceipt where
  "sample_receipt = \<lparr>rr_blockNumber = ''0x1'', rr_status = ''0x1'', rr_gasUsed = None, rr_logs = None\<rparr>"

lemmas sample_rpc_defs = sample_cfg_def sample_checker_def empty_provider_def receipt_provider_def sample_receipt_def
  rpcCall_def getBlockNumber_def getChainId_def chain_mismatch_def mk_observation_def Let_def
  checkTransaction_def observe_tx_def getTransactionReceipt_def aggregate_tx_def aggregateResults_def
  List.map_filter_def list_all_iff canonical_tx_def

theorem transaction_consensus_witness:
  "mr_agreement (checkTransaction sample_checker [receipt_provider ''0x20'' sample_receipt, receipt_provider ''0x10'' sample_receipt] ''0xtx'' 0) = UNANIMOUS \<and>
   (\<exists>tx. mr_unanimousValue (checkTransaction sample_checker
      [receipt_provider ''0x20'' sample_receipt, receipt_provider ''0x10'' sample_receipt] ''0xtx'' 0) = Some tx)"
proof -
  have u: "mr_agreement (checkTransaction sample_checker [receipt_provider ''0x20'' sample_receipt, receipt_provider ''0x10'' sample_receipt] ''0xtx'' 0) = UNANIMOUS"
    by (simp add: sample_rpc_defs)
  from u transaction_consensus [OF u] show ?thesis by blast
qed

text \<open>
  A malformed answer is never a verdict: when the checker agrees on an authorization
  state, at least two providers answered, and every provider whose answer counted returned a
  well-formed 32-byte word from the expected chain that decodes to the agreed value; a short,
  empty or non-string answer counts as a failed provider.
\<close>

theorem authorization_state_consensus:
  assumes "mr_agreement (checkAuthorizationState keccak ck ps tok auth nonce t) = UNANIMOUS"
  shows "\<exists>b. mr_unanimousValue (checkAuthorizationState keccak ck ps tok auth nonce t) = Some b \<and>
     2 \<le> length (filter (\<lambda>ob. ob_result ob \<noteq> None)
            (mr_observations (checkAuthorizationState keccak ck ps tok auth nonce t))) \<and>
     (\<forall>(cfg, p) \<in> set (zip (ck_configs ck) ps).
        as_state (checkAuthorizationState1 keccak cfg p tok auth nonce) \<noteq> None \<longrightarrow>
        (\<exists>raw n h. rp_ethCall p tok (authorization_call_data keccak auth nonce) = RpcResult (JStr raw) \<and>
             starts_with ''0x'' raw \<and> length raw = 66 \<and> BigInt raw = Some n \<and> (b \<longleftrightarrow> n \<noteq> 0) \<and>
             rp_chainId p = RpcResult h \<and> \<not> chain_mismatch cfg (parseInt16 h)))"
proof -
  let ?obs = "map (observe_auth keccak tok auth nonce t) (zip (ck_configs ck) ps)"
  have eq: "checkAuthorizationState keccak ck ps tok auth nonce t = aggregate_plain ?obs"
    by (simp add: checkAuthorizationState_def)
  from aggregate_plain_unanimous [OF assms [unfolded eq]] obtain b where
    b: "mr_unanimousValue (aggregate_plain ?obs) = Some b" "mr_observations (aggregate_plain ?obs) = ?obs"
    "2 \<le> length (filter (\<lambda>ob. ob_result ob \<noteq> None) ?obs)"
    "\<forall>ob \<in> set ?obs. ob_result ob = None \<or> ob_result ob = Some b" by blast
  have "as_state (checkAuthorizationState1 keccak cfg p tok auth nonce) = Some b"
    if "(cfg, p) \<in> set (zip (ck_configs ck) ps)" "as_state (checkAuthorizationState1 keccak cfg p tok auth nonce) \<noteq> None" for cfg p
  proof -
    from that(1) have "observe_auth keccak tok auth nonce t (cfg, p) \<in> set ?obs" by (simp only: set_map image_eqI)
    with b(4) that(2) show ?thesis by (auto simp: observe_auth_def mk_observation_def Let_def)
  qed
  then have "\<exists>raw n h. rp_ethCall p tok (authorization_call_data keccak auth nonce) = RpcResult (JStr raw) \<and>
             starts_with ''0x'' raw \<and> length raw = 66 \<and> BigInt raw = Some n \<and> (b \<longleftrightarrow> n \<noteq> 0) \<and>
             rp_chainId p = RpcResult h \<and> \<not> chain_mismatch cfg (parseInt16 h)"
    if "(cfg, p) \<in> set (zip (ck_configs ck) ps)" "as_state (checkAuthorizationState1 keccak cfg p tok auth nonce) \<noteq> None" for cfg p
    using checkAuthorizationState1_state that by blast
  with b(1-3) show ?thesis unfolding eq by (intro exI [of _ b]) (simp only: b(2), fast)
qed

lemma BigInt_zero_word: "BigInt zero_word = Some 0"
  by code_simp

lemma sample_auth_unanimous:
  "checkAuthorizationState keccak sample_checker [empty_provider h, empty_provider h'] tok auth nonce t =
     \<lparr>mr_observations =
        [mk_observation (sample_cfg ''a'' ''alchemy'') t (Some False) None
           (Some \<lparr>bd_blockNumber = parseInt16 h, bd_chainHead = parseInt16 h, bd_stalenessBlocks = Some 0\<rparr>),
         mk_observation (sample_cfg ''b'' ''infura'') t (Some False) None
           (Some \<lparr>bd_blockNumber = parseInt16 h', bd_chainHead = parseInt16 h', bd_stalenessBlocks = Some 0\<rparr>)],
      mr_agreement = UNANIMOUS, mr_unanimousValue = Some False\<rparr>"
proof -
  have z: "starts_with ''0x'' zero_word" "length zero_word = 66" by (simp_all add: starts_with_def zero_word_def)
  show ?thesis
    by (simp add: checkAuthorizationState_def observe_auth_def checkAuthorizationState1_def decode_bool_word_def z
        BigInt_zero_word sample_rpc_defs aggregate_plain_def del: replicate.simps)
       (intro impI exI [of _ False], simp)
qed

theorem authorization_state_consensus_witness:
  "mr_agreement (checkAuthorizationState (\<lambda>s. s) sample_checker [empty_provider ''0x10'', empty_provider ''0x12''] ''t'' ''0xaa'' ''0x01'' 0) = UNANIMOUS \<and>
   2 \<le> length (filter (\<lambda>ob. ob_result ob \<noteq> None) (mr_observations
      (checkAuthorizationState (\<lambda>s. s) sample_checker [empty_provider ''0x10'', empty_provider ''0x12''] ''t'' ''0xaa'' ''0x01'' 0)))"
proof -
  have u: "mr_agreement (checkAuthorizationState (\<lambda>s. s) sample_checker [empty_provider ''0x10'', empty_provider ''0x12''] ''t'' ''0xaa'' ''0x01'' 0) = UNANIMOUS"
    by (simp add: sample_auth_unanimous)
  from u authorization_state_consensus [OF u] show ?thesis by blast
qed

text \<open>
  The NOT_SETTLED gate: it opens exactly when the authorization has expired, the
  providers agree on \<open>false\<close>, and every provider that answered has witnessed block data (no
  negative block, head or staleness) within the staleness budget configured for it.
\<close>

theorem not_settled_gate:
  "fst (canDeclareNotSettled ck r validBefore now) \<longleftrightarrow>
   validBefore \<le> now \<and> mr_agreement r = UNANIMOUS \<and> mr_unanimousValue r = Some False \<and>
   (\<forall>ob \<in> set (mr_observations r). ob_result ob \<noteq> None \<longrightarrow>
      (\<exists>bd c. ob_blockData ob = Some bd \<and> \<not> js_lt (bd_blockNumber bd) (Some 0) \<and> \<not> js_lt (bd_chainHead bd) (Some 0) \<and>
         \<not> js_lt (bd_stalenessBlocks bd) (Some 0) \<and>
         find (\<lambda>c. rpc_providerId c = ob_providerId ob) (ck_configs ck) = Some c \<and>
         \<not> js_lt (Some (rpc_maxStalenessBlocks c)) (bd_stalenessBlocks bd)))"
  unfolding canDeclareNotSettled_def freshness_failure_None [symmetric]
  by (auto split: Agreement.splits option.splits)

theorem not_settled_gate_witness:
  "fst (canDeclareNotSettled sample_checker
      (checkAuthorizationState (\<lambda>s. s) sample_checker [empty_provider ''0x10'', empty_provider ''0x12''] ''t'' ''0xaa'' ''0x01'' 0)
      1000 1000)"
  unfolding not_settled_gate sample_auth_unanimous
  by (simp add: mk_observation_def sample_cfg_def sample_checker_def parseInt16_def parse_hex_digits_def
      is_hex_def hex_value_def is_blank_def starts_with_def char_code_def Let_def)

text \<open>
  Property C24. A complete empty scan is evidence: when the scan's outcome is SCAN_COMPLETE_EMPTY,
  every provider reported a head and, whenever that head is a number, for every block from the
  first to the head it answered a log query of at most one chunk covering that block, and the
  answer held no event.
\<close>

theorem empty_scan_covers_every_block:
  assumes "sr_outcome (scanAuthorizationUsed keccak ck ps tok auth nonce fromBlock t) = Scan_SCAN_COMPLETE_EMPTY"
    and "(cfg, p) \<in> set (zip (ck_configs ck) ps)"
  shows "\<exists>h. rp_blockNumber p = RpcResult h \<and>
     (\<forall>head x. parseInt16 h = Some head \<longrightarrow> fromBlock \<le> x \<longrightarrow> x \<le> head \<longrightarrow>
        (\<exists>lo hi logs. fromBlock \<le> lo \<and> lo \<le> x \<and> x \<le> hi \<and> hi \<le> head \<and> hi - lo < LOG_SCAN_CHUNK \<and>
           rp_getLogs p (event_filter keccak tok auth nonce lo hi) = RpcResult logs \<and> first_log logs = None))"
proof -
  let ?ob = "observe_scan keccak tok auth nonce fromBlock t (cfg, p)"
  from assms have "so_scanned ?ob" "so_event ?ob = None"
    by (auto simp: scanAuthorizationUsed_def Let_def list_all_iff filter_empty_conv split: if_splits)
  from observe_scan_empty [OF this] obtain h where h: "rp_blockNumber p = RpcResult h"
    and sc: "\<And>head. parseInt16 h = Some head \<Longrightarrow> scan_chunks (\<lambda>a b. rpcCall cfg ''eth_getLogs''
              (rp_getLogs p (event_filter keccak tok auth nonce a b))) fromBlock head = Inr None" by blast
  have "\<exists>lo hi logs. fromBlock \<le> lo \<and> lo \<le> x \<and> x \<le> hi \<and> hi \<le> head \<and> hi - lo < LOG_SCAN_CHUNK \<and>
           rp_getLogs p (event_filter keccak tok auth nonce lo hi) = RpcResult logs \<and> first_log logs = None"
    if "parseInt16 h = Some head" "fromBlock \<le> x" "x \<le> head" for head x
    using scan_chunks_empty_covers [OF sc [OF that(1)] that(2,3)] unfolding no_logs_rpc by blast
  with h show ?thesis by blast
qed

lemma sample_scan_empty:
  "parseInt16 h = Some 16 \<Longrightarrow>
   sr_outcome (scanAuthorizationUsed keccak sample_checker [empty_provider h, empty_provider h] tok auth nonce 0 t) =
     Scan_SCAN_COMPLETE_EMPTY"
  by (simp add: scanAuthorizationUsed_def observe_scan_def findAuthorizationUsedEventStrict_def sample_rpc_defs
      scan_chunks.simps LOG_SCAN_CHUNK_def first_log_def)

theorem empty_scan_covers_every_block_witness:
  "\<exists>lo hi logs. lo \<le> 7 \<and> 7 \<le> hi \<and>
     rp_getLogs (empty_provider ''0x10'') (event_filter (\<lambda>s. s) ''t'' ''0xaa'' ''0x01'' lo hi) = RpcResult logs \<and> first_log logs = None"
proof -
  have p: "parseInt16 ''0x10'' = Some 16" by code_simp
  from empty_scan_covers_every_block [OF sample_scan_empty [OF p, of "\<lambda>s. s" "''t''" "''0xaa''" "''0x01''" 0], of "sample_cfg ''a'' ''alchemy''" "empty_provider ''0x10''"]
  obtain h where h: "rp_blockNumber (empty_provider ''0x10'') = RpcResult h"
    and r: "\<And>head x. parseInt16 h = Some head \<Longrightarrow> 0 \<le> x \<Longrightarrow> x \<le> head \<Longrightarrow> \<exists>lo hi logs. 0 \<le> lo \<and> lo \<le> x \<and> x \<le> hi \<and> hi \<le> head \<and>
       hi - lo < LOG_SCAN_CHUNK \<and> rp_getLogs (empty_provider ''0x10'') (event_filter (\<lambda>s. s) ''t'' ''0xaa'' ''0x01'' lo hi) = RpcResult logs \<and> first_log logs = None"
    by (auto simp: sample_checker_def)
  from h p have "parseInt16 h = Some 16" by (simp add: empty_provider_def)
  from r [OF this, of 7] show ?thesis by auto
qed

text \<open>
  The hypothesis on the head is needed: a head that does not parse makes the loop condition
  false at once, and the scan reports SCAN_COMPLETE_EMPTY without one log query.
\<close>

lemma unparsable_head_scans_nothing:
  assumes "length ps = length (ck_configs ck)" "ps \<noteq> []"
    and "\<forall>p \<in> set ps. \<exists>h. rp_blockNumber p = RpcResult h \<and> parseInt16 h = None"
  shows "sr_outcome (scanAuthorizationUsed keccak ck ps tok auth nonce fromBlock t) = Scan_SCAN_COMPLETE_EMPTY"
proof -
  have "so_scanned (observe_scan keccak tok auth nonce fromBlock t (cfg, p)) \<and>
        so_event (observe_scan keccak tok auth nonce fromBlock t (cfg, p)) = None" if "p \<in> set ps" for cfg p
    using assms(3) that by (auto simp: observe_scan_def getBlockNumber_def rpcCall_def findAuthorizationUsedEventStrict_def)
  then have ob: "\<forall>ob \<in> set obs. so_scanned ob \<and> so_event ob = None"
    if "obs = map (observe_scan keccak tok auth nonce fromBlock t) (zip (ck_configs ck) ps)" for obs
    using that by (auto dest: set_zip_rightD)
  have ne: "map (observe_scan keccak tok auth nonce fromBlock t) (zip (ck_configs ck) ps) \<noteq> []"
    using assms(1,2) by (cases ps; cases "ck_configs ck") auto
  have emp: "obs \<noteq> [] \<Longrightarrow> \<forall>ob \<in> set obs. so_scanned ob \<and> so_event ob = None \<Longrightarrow>
    list_all so_scanned obs \<and> filter (\<lambda>ob. so_scanned ob \<and> so_event ob \<noteq> None) obs = [] \<and> length ([] :: ScanObservation list) \<noteq> length obs" for obs
    by (auto simp: list_all_iff filter_empty_conv)
  from emp [OF ne ob [OF refl]] show ?thesis
    unfolding scanAuthorizationUsed_def Let_def by (elim conjE) (simp only: if_True if_False simp_thms AuthorizationUsedScanResult.simps)
qed

text \<open>
  Scanning in chunks finds what one scan of the whole range would: against a provider
  that answers each query from one block-ordered list of logs, reading the hexadecimal bounds it
  is sent, the loop returns the first event of the range, or none if the range has none.
\<close>

theorem chunked_scan_equals_full_scan:
  assumes "sorted (map fst chain)" "0 \<le> fromBlock"
    and "\<forall>f. rp_getLogs p f = RpcResult (Some (map snd (filter
           (\<lambda>(blk, e). js_le (parseInt16 (lf_fromBlock f)) (Some blk) \<and> js_le (Some blk) (parseInt16 (lf_toBlock f))) chain)))"
  shows "findAuthorizationUsedEventStrict keccak cfg p tok auth nonce fromBlock (Some toBlock) =
         Inr (first_event chain fromBlock toBlock)"
proof -
  have "scan_chunks (\<lambda>a b. rpcCall cfg ''eth_getLogs'' (rp_getLogs p (event_filter keccak tok auth nonce a b))) fromBlock toBlock =
        scan_chunks (honest_query chain) fromBlock toBlock"
    by (rule scan_chunks_cong) (use assms(2,3) in \<open>simp add: rpcCall_def honest_query_def event_filter_def\<close>)
  with scan_chunks_honest [OF assms(1)] show ?thesis by (simp add: findAuthorizationUsedEventStrict_def)
qed

definition chain_provider :: "(int \<times> RpcEventRef) list \<Rightarrow> rpc_provider" where
  "chain_provider chain = (empty_provider ''0x1'')\<lparr>rp_getLogs := (\<lambda>f. RpcResult (Some (map snd (filter
     (\<lambda>(blk, e). js_le (parseInt16 (lf_fromBlock f)) (Some blk) \<and> js_le (Some blk) (parseInt16 (lf_toBlock f))) chain))))\<rparr>"

theorem chunked_scan_equals_full_scan_witness:
  "findAuthorizationUsedEventStrict (\<lambda>s. s) (sample_cfg ''a'' ''alchemy'')
     (chain_provider [(25000, \<lparr>re_transactionHash = ''0xt'', re_blockNumber = ''0x61a8'', re_logIndex = ''0x0''\<rparr>)])
     ''t'' ''0xaa'' ''0x01'' 0 (Some 30000) =
   Inr (Some \<lparr>au_transactionHash = ''0xt'', au_blockNumber = Some 25000, au_logIndex = Some 0\<rparr>)"
proof -
  have "parseInt16 ''0x61a8'' = Some 25000" "parseInt16 ''0x0'' = Some 0" by code_simp+
  with chunked_scan_equals_full_scan [of "[(25000, \<lparr>re_transactionHash = ''0xt'', re_blockNumber = ''0x61a8'', re_logIndex = ''0x0''\<rparr>)]"
    0 "chain_provider [(25000, \<lparr>re_transactionHash = ''0xt'', re_blockNumber = ''0x61a8'', re_logIndex = ''0x0''\<rparr>)]"
    "\<lambda>s. s" "sample_cfg ''a'' ''alchemy''" "''t''" "''0xaa''" "''0x01''" 30000]
  show ?thesis by (simp add: chain_provider_def first_event_def parse_event_def)
qed

end
