(* ===== verification/Reconciliation.thy ===== *)
theory Reconciliation
  imports MemStore Consensus
begin

text \<open>
  \<^verbatim>\<open>zeus-secretariat/src/core/reconciliation-engine.ts\<close>: from one payment intent to a verdict
  about its settlement.

  The two strategies of the engine call each other. Each is a definition of its own whose
  result says whether it finished or which strategy follows with which intent; \<open>follow\<close> runs
  them with fuel. The chain moves while the engine works, so every checker call gets a view of
  the providers of its own: \<open>rc_views n\<close> is what they answer to the n-th call.
\<close>

section \<open>Outcomes\<close>

datatype ReconStatus = RS_SETTLED | RS_NOT_SETTLED | RS_RECONCILING | RS_UNRESOLVED_MANUAL | RS_INCIDENT

datatype SettlementEvidence = Ev_settled SettledEvidenceBundle | Ev_not_settled NotSettledEvidenceBundle

record ReconciliationOutcome =
  ro_status :: ReconStatus
  ro_reason :: "string option"
  ro_nextProbeMs :: "int option"
  ro_evidence :: "SettlementEvidence option"

definition reconciling :: "string \<Rightarrow> int option \<Rightarrow> ReconciliationOutcome" where
  "reconciling reason next_ms =
     \<lparr>ro_status = RS_RECONCILING, ro_reason = Some reason, ro_nextProbeMs = next_ms, ro_evidence = None\<rparr>"

record recon_env =
  rc_checker :: MultiRpcChecker
  rc_schedule :: ReconciliationScheduleConfig
  rc_finalityPolicy :: FinalityPolicy
  rc_keccak :: "string \<Rightarrow> string"
  rc_views :: "nat \<Rightarrow> rpc_provider list"
  rc_attemptId :: string
  rc_now :: int

definition now_seconds :: "recon_env \<Rightarrow> int" where
  "now_seconds env = rc_now env div 1000"

section \<open>Receipt logs\<close>

definition TRANSFER_TOPIC :: string where
  "TRANSFER_TOPIC = ''0xddf252ad1be2c89b69c2b068fc378daa952ba7f163c4a11628f55a4df523b3ef''"

record TransferEvent =
  te_from :: string
  te_to :: string
  te_value :: int
  te_tokenContract :: string

text \<open>\<open>BigInt(log.data)\<close> throws on malformed data, before the parties are compared.\<close>

fun parseTransferLogs ::
    "TransactionLog list \<Rightarrow> string \<Rightarrow> string \<Rightarrow> int \<Rightarrow> string \<Rightarrow> exn + TransferEvent option" where
  "parseTransferLogs [] efrom eto minv token = Inr None"
| "parseTransferLogs (log # logs) efrom eto minv token =
     (if toLowerCase (tl_address log) \<noteq> toLowerCase token then parseTransferLogs logs efrom eto minv token
      else if tl_topics log = [] \<or> hd (tl_topics log) \<noteq> TRANSFER_TOPIC then parseTransferLogs logs efrom eto minv token
      else if length (tl_topics log) < 3 then parseTransferLogs logs efrom eto minv token
      else (case BigInt (tl_data log) of
          None \<Rightarrow> Inl (''Cannot convert '' @ tl_data log @ '' to a BigInt'')
        | Some v \<Rightarrow>
            (let f = ''0x'' @ toLowerCase (drop 26 (tl_topics log ! 1));
                 d = ''0x'' @ toLowerCase (drop 26 (tl_topics log ! 2))
             in if f \<noteq> toLowerCase efrom then parseTransferLogs logs efrom eto minv token
                else if d \<noteq> toLowerCase eto then parseTransferLogs logs efrom eto minv token
                else if v < minv then parseTransferLogs logs efrom eto minv token
                else Inr (Some \<lparr>te_from = f, te_to = d, te_value = v, te_tokenContract = toLowerCase (tl_address log)\<rparr>))))"

definition strip_0x :: "string \<Rightarrow> string" where
  "strip_0x s = (if starts_with ''0x'' s \<or> starts_with ''0X'' s then drop 2 s else s)"

definition topic_word :: "string \<Rightarrow> string" where
  "topic_word s = ''0x'' @ padStart (toLowerCase (strip_0x s)) 64 (CHR ''0'')"

definition topic_is :: "TransactionLog \<Rightarrow> nat \<Rightarrow> string \<Rightarrow> bool" where
  "topic_is log n w = (n < length (tl_topics log) \<and> toLowerCase (tl_topics log ! n) = w)"

definition matches_authorization :: "(string \<Rightarrow> string) \<Rightarrow> string \<Rightarrow> string \<Rightarrow> string \<Rightarrow> TransactionLog \<Rightarrow> bool" where
  "matches_authorization keccak token authorizer nonce log =
     (toLowerCase (tl_address log) = toLowerCase token \<and>
      topic_is log 0 (toLowerCase (keccak ''AuthorizationUsed(address,bytes32)'')) \<and>
      topic_is log 1 (topic_word authorizer) \<and> topic_is log 2 (topic_word nonce))"

definition findAuthorizationUsedLog ::
    "(string \<Rightarrow> string) \<Rightarrow> TransactionLog list \<Rightarrow> string \<Rightarrow> string \<Rightarrow> string \<Rightarrow> jsnum option" where
  "findAuthorizationUsedLog keccak logs token authorizer nonce =
     map_option tl_logIndex (find (matches_authorization keccak token authorizer nonce) logs)"

section \<open>Schedule and observations\<close>

definition getNextProbeDelay :: "ReconciliationScheduleConfig \<Rightarrow> nat \<Rightarrow> int" where
  "getNextProbeDelay sch probeCount =
     (if probeCount < length (sch_probes sch) then sch_probes sch ! probeCount else sch_periodicIntervalMs sch)"

definition next_probe :: "recon_env \<Rightarrow> DurablePaymentIntent \<Rightarrow> int option" where
  "next_probe env i = Some (getNextProbeDelay (rc_schedule env) (opt_default 0 (pi_probeCount i)))"

definition tx_observation_result :: "TransactionCheckResult Observation \<Rightarrow> ReconResult" where
  "tx_observation_result ob = (case ob_result ob of None \<Rightarrow> RPC_ERROR
     | Some tx \<Rightarrow> if tc_confirmed tx then SETTLED_FOUND else STILL_UNKNOWN)"

definition tx_observation ::
    "recon_env \<Rightarrow> DurablePaymentIntent \<Rightarrow> jsnum \<Rightarrow> TransactionCheckResult Observation \<Rightarrow> ReconciliationObservation" where
  "tx_observation env i head ob =
     \<lparr>rob_attemptId = rc_attemptId env, rob_paymentIntentId = pi_paymentIntentId i, rob_timestamp = ob_observedAt ob,
      rob_rpcProviderId = ob_providerId ob, rob_headBlock = head, rob_authorizationState = None,
      rob_validBefore = pi_validBefore i, rob_result = tx_observation_result ob, rob_error = ob_error ob\<rparr>"

definition auth_observation ::
    "recon_env \<Rightarrow> DurablePaymentIntent \<Rightarrow> bool Observation \<Rightarrow> ReconciliationObservation" where
  "auth_observation env i ob =
     \<lparr>rob_attemptId = rc_attemptId env, rob_paymentIntentId = pi_paymentIntentId i, rob_timestamp = ob_observedAt ob,
      rob_rpcProviderId = ob_providerId ob, rob_headBlock = Some 0, rob_authorizationState = ob_result ob,
      rob_validBefore = pi_validBefore i,
      rob_result = (case ob_result ob of None \<Rightarrow> RPC_ERROR | Some b \<Rightarrow> if b then SETTLED_FOUND else STILL_UNKNOWN),
      rob_error = ob_error ob\<rparr>"

definition persist_all :: "ReconciliationObservation list \<Rightarrow> mem_store \<Rightarrow> mem_store" where
  "persist_all obs st = fold appendReconciliationObservation obs st"

section \<open>Strategy 1: the transaction is known\<close>

datatype recon_step =
    Finished "exn + ReconciliationOutcome"
  | FollowTx DurablePaymentIntent
  | FollowAuth DurablePaymentIntent

definition block_of :: "TransactionCheckResult Observation \<Rightarrow> jsnum" where
  "block_of ob = opt_default (Some 0) (Option.bind (ob_result ob) tc_blockNumber)"

definition revert_evidence ::
    "recon_env \<Rightarrow> DurablePaymentIntent \<Rightarrow> TransactionCheckResult MultiRpcResult \<Rightarrow> NotSettledEvidenceBundle" where
  "revert_evidence env i r =
     \<lparr>neb_authorizer = pi_authorizer i, neb_nonce = pi_nonce i, neb_validBefore = pi_validBefore i,
      neb_expiryConfirmedAt = now_seconds env,
      neb_rpcObservations =
        map (\<lambda>ob. \<lparr>rns_providerId = ob_providerId ob, rns_underlyingProvider = ob_underlyingProvider ob,
                    rns_observedAt = ob_observedAt ob, rns_blockNumber = block_of ob,
                    rns_chainHead = js_add (block_of ob)
                      (opt_default (Some 0) (Option.bind (ob_result ob) tc_confirmations)),
                    rns_stalenessBlocks = Some 0, rns_error = None\<rparr>)
          (filter (\<lambda>ob. case ob_result ob of None \<Rightarrow> False | Some tx \<Rightarrow> tc_found tx) (mr_observations r)),
      neb_scanComplete = True, neb_authorizationUsedScanResult = Scan_REVERTED_TX,
      neb_authorizationUsedScan = Some (Scan_REVERTED_TX, [])\<rparr>"

definition settled_evidence ::
    "recon_env \<Rightarrow> DurablePaymentIntent \<Rightarrow> TransactionCheckResult MultiRpcResult \<Rightarrow> TransactionCheckResult \<Rightarrow>
     TransferEvent \<Rightarrow> jsnum \<Rightarrow> SettledEvidenceBundle" where
  "settled_evidence env i r tx tr logIndex =
     (let blk = opt_default None (tc_blockNumber tx) in
      \<lparr>seb_au_transactionHash = opt_default [] (pi_txHash i), seb_au_blockNumber = blk, seb_au_logIndex = logIndex,
       seb_rc_blockNumber = blk, seb_rc_gasUsed = opt_default ''unavailable'' (tc_gasUsed tx),
       seb_tr_from = te_from tr, seb_tr_to = te_to tr, seb_tr_value = string_of_int (te_value tr),
       seb_tr_tokenContract = te_tokenContract tr, seb_confirmations = opt_default None (tc_confirmations tx),
       seb_finalityReached = js_le (Some (fin_requiredConfirmations (rc_finalityPolicy env)))
                               (opt_default (Some 0) (tc_confirmations tx)),
       seb_rpcObservations = map (\<lambda>ob. tx_observation env i (block_of ob) ob) (mr_observations r)\<rparr>)"

definition confirmations_string :: "TransactionCheckResult \<Rightarrow> recon_env \<Rightarrow> string" where
  "confirmations_string tx env = js_num_string (opt_default (Some 0) (tc_confirmations tx)) @ ''/'' @
     string_of_int (fin_requiredConfirmations (rc_finalityPolicy env))"

text \<open>The part of the strategy after a unanimous successful transaction with enough confirmations.\<close>

definition verify_settled ::
    "recon_env \<Rightarrow> DurablePaymentIntent \<Rightarrow> TransactionCheckResult MultiRpcResult \<Rightarrow> TransactionCheckResult \<Rightarrow>
     mem_store \<Rightarrow> recon_step \<times> mem_store" where
  "verify_settled env i r tx st =
     (case tc_logs tx of
        None \<Rightarrow> (Finished (Inr (reconciling (sect @ ''7: No logs available for Transfer verification'') (next_probe env i))), st)
      | Some logs \<Rightarrow>
     (case BigInt (pi_value i) of
        None \<Rightarrow> (Finished (Inl (''Cannot convert '' @ pi_value i @ '' to a BigInt'')), st)
      | Some minv \<Rightarrow>
     (case parseTransferLogs logs (pi_authorizer i) (pi_payTo i) minv (pi_asset i) of
        Inl e \<Rightarrow> (Finished (Inl e), st)
      | Inr None \<Rightarrow> (Finished (Inr \<lparr>ro_status = RS_UNRESOLVED_MANUAL,
            ro_reason = Some (sect @ ''7-8: No matching Transfer event found in successful transaction''),
            ro_nextProbeMs = None, ro_evidence = None\<rparr>), st)
      | Inr (Some tr) \<Rightarrow>
     (case findAuthorizationUsedLog (rc_keccak env) logs (pi_asset i) (pi_authorizer i) (pi_nonce i) of
        None \<Rightarrow> (Finished (Inr (reconciling
            (sect @ ''7: Successful transaction has no matching AuthorizationUsed event'') (next_probe env i))), st)
      | Some logIndex \<Rightarrow>
          (let evidence = settled_evidence env i r tx tr logIndex in
           case compareAndSetState (pi_paymentIntentId i) (pi_settlementState i) St_SETTLED (rc_now env) st of
             (False, st1) \<Rightarrow> (Finished (Inr (reconciling
                 (sect @ ''21: CAS failed '' @ mdash @ '' another worker already transitioned'') None)), st1)
           | (True, st1) \<Rightarrow>
               (let st2 = saveSettledEvidenceBundle (pi_paymentIntentId i) evidence st1;
                    st3 = (if pi_nonce i = [] then st2 else markNonceSettled (pi_nonce i) (rc_now env) st2)
                in (Finished (Inr \<lparr>ro_status = RS_SETTLED, ro_reason = None, ro_nextProbeMs = None,
                      ro_evidence = Some (Ev_settled evidence)\<rparr>), st3)))))))"

definition reconcileByTxHash ::
    "recon_env \<Rightarrow> nat \<Rightarrow> DurablePaymentIntent \<Rightarrow> mem_store \<Rightarrow> recon_step \<times> mem_store" where
  "reconcileByTxHash env v i st0 =
     (let r = checkTransaction (rc_checker env) (rc_views env v) (opt_default [] (pi_txHash i)) (rc_now env);
          st = persist_all (map (tx_observation env i (Some 0)) (mr_observations r)) st0
      in case mr_agreement r of
        ALL_FAILED \<Rightarrow> (Finished (Inr (reconciling ''RPC ALL_FAILED'' (next_probe env i))), st)
      | INSUFFICIENT \<Rightarrow> (Finished (Inr (reconciling ''RPC INSUFFICIENT'' (next_probe env i))), st)
      | DISAGREEMENT \<Rightarrow> (Finished (Inr (reconciling (sect @ ''14: RPC disagreement on txHash'') (next_probe env i))), st)
      | UNANIMOUS \<Rightarrow>
     (case mr_unanimousValue r of
        None \<Rightarrow> (Finished (Inl ''TypeError''), st)
      | Some tx \<Rightarrow>
     (if \<not> tc_found tx
        then (if now_seconds env < pi_validBefore i
              then (Finished (Inr (reconciling (''Transaction not found on chain '' @ mdash @
                      '' authorization window still open, probing'') (next_probe env i))), st)
              else (FollowAuth i, st))
      else if tc_status tx = Tx_reverted
        then (if now_seconds env < pi_validBefore i
              then (Finished (Inr (reconciling (sect @ ''9: Transaction reverted '' @ mdash @
                      '' authorization stays live until validBefore; NOT_SETTLED deferred'') (next_probe env i))), st)
              else (case compareAndSetState (pi_paymentIntentId i) (pi_settlementState i) St_NOT_SETTLED (rc_now env) st of
                      (False, st1) \<Rightarrow> (Finished (Inr (reconciling
                          (sect @ ''21: CAS failed '' @ mdash @ '' another worker transitioned state'') None)), st1)
                    | (True, st1) \<Rightarrow> (Finished (Inr \<lparr>ro_status = RS_NOT_SETTLED,
                          ro_reason = Some (sect @ ''9: Transaction reverted (authorization window closed)''),
                          ro_nextProbeMs = None, ro_evidence = Some (Ev_not_settled (revert_evidence env i r))\<rparr>), st1)))
      else if tc_status tx = Tx_pending
        then (Finished (Inr (reconciling ''Transaction still pending'' (next_probe env i))), st)
      else if js_lt (opt_default (Some 0) (tc_confirmations tx)) (Some (fin_requiredConfirmations (rc_finalityPolicy env)))
        then (Finished (Inr (reconciling (sect @ ''24: Insufficient confirmations ('' @ confirmations_string tx env @ '')'')
                (next_probe env i))), st)
      else verify_settled env i r tx st)))"

text \<open>A unanimous result always carries its value, so the \<open>TypeError\<close> branch above is dead.\<close>

section \<open>Strategy 2: the authorization state\<close>

text \<open>The evidence list of a NOT_SETTLED verdict, or the provider that lacks block data.\<close>

fun not_settled_observations :: "bool Observation list \<Rightarrow> string + RpcObservationForNotSettled list" where
  "not_settled_observations [] = Inr []"
| "not_settled_observations (ob # obs) =
     (if ob_result ob \<noteq> Some False then not_settled_observations obs
      else (case ob_blockData ob of
          None \<Rightarrow> Inl (ob_providerId ob)
        | Some bd \<Rightarrow>
            (case not_settled_observations obs of
               Inl p \<Rightarrow> Inl p
             | Inr rest \<Rightarrow> Inr (\<lparr>rns_providerId = ob_providerId ob, rns_underlyingProvider = ob_underlyingProvider ob,
                   rns_observedAt = ob_observedAt ob, rns_blockNumber = bd_blockNumber bd, rns_chainHead = bd_chainHead bd,
                   rns_stalenessBlocks = bd_stalenessBlocks bd, rns_error = None\<rparr> # rest))))"

definition not_settled_evidence ::
    "recon_env \<Rightarrow> DurablePaymentIntent \<Rightarrow> RpcObservationForNotSettled list \<Rightarrow> AuthorizationUsedScanResult \<Rightarrow>
     NotSettledEvidenceBundle" where
  "not_settled_evidence env i obs scan =
     \<lparr>neb_authorizer = pi_authorizer i, neb_nonce = pi_nonce i, neb_validBefore = pi_validBefore i,
      neb_expiryConfirmedAt = now_seconds env, neb_rpcObservations = obs, neb_scanComplete = True,
      neb_authorizationUsedScanResult = Scan_SCAN_COMPLETE_EMPTY,
      neb_authorizationUsedScan = Some (sr_outcome scan, sr_observations scan)\<rparr>"

fun scan_name :: "ScanOutcome \<Rightarrow> string" where
  "scan_name Scan_SCAN_COMPLETE_EMPTY = ''SCAN_COMPLETE_EMPTY''"
| "scan_name Scan_EVENT_FOUND = ''EVENT_FOUND''"
| "scan_name Scan_DISAGREEMENT = ''DISAGREEMENT''"
| "scan_name Scan_INCOMPLETE = ''INCOMPLETE''"
| "scan_name Scan_REVERTED_TX = ''REVERTED_TX''"

text \<open>
  Recovery of the transaction hash: the same-state compare-and-set, whose result the engine
  ignores, then the first strategy with the hash. The in-memory store drops the extra hash.
\<close>

definition follow_event :: "recon_env \<Rightarrow> DurablePaymentIntent \<Rightarrow> AuEvent \<Rightarrow> mem_store \<Rightarrow> recon_step \<times> mem_store" where
  "follow_event env i ev st =
     (FollowTx (i\<lparr>pi_txHash := Some (au_transactionHash ev)\<rparr>),
      snd (compareAndSetState (pi_paymentIntentId i) (pi_settlementState i) (pi_settlementState i) (rc_now env) st))"

text \<open>The part after the NOT_SETTLED gate has opened: the scan, then the terminal compare-and-set.\<close>

definition declare_not_settled ::
    "recon_env \<Rightarrow> nat \<Rightarrow> DurablePaymentIntent \<Rightarrow> bool MultiRpcResult \<Rightarrow> mem_store \<Rightarrow> recon_step \<times> mem_store" where
  "declare_not_settled env v i r st =
     (let scan = scanAuthorizationUsed (rc_keccak env) (rc_checker env) (rc_views env (Suc v)) (pi_asset i)
                   (pi_authorizer i) (pi_nonce i) 0 (rc_now env)
      in case (sr_outcome scan, sr_event scan) of
        (Scan_EVENT_FOUND, Some ev) \<Rightarrow> follow_event env i ev st
      | (outcome, _) \<Rightarrow>
          (if outcome \<noteq> Scan_SCAN_COMPLETE_EMPTY
             then (Finished (Inr (reconciling (sect @ ''11: AuthorizationUsed scan '' @ scan_name outcome @ '' '' @ mdash @
                     '' NOT_SETTLED requires a complete empty scan on every independent provider'') (next_probe env i))), st)
           else (case not_settled_observations (mr_observations r) of
               Inl p \<Rightarrow> (Finished (Inr (reconciling (sect @ ''11-D: observation from '' @ p @ '' lacks block data '' @ mdash @
                     '' NOT_SETTLED evidence would be incomplete'') (next_probe env i))), st)
             | Inr obs \<Rightarrow>
                 (case compareAndSetState (pi_paymentIntentId i) (pi_settlementState i) St_NOT_SETTLED (rc_now env) st of
                    (False, st1) \<Rightarrow> (Finished (Inr (reconciling (sect @ ''21: CAS failed'') None)), st1)
                  | (True, st1) \<Rightarrow>
                      (let evidence = not_settled_evidence env i obs scan
                       in (Finished (Inr \<lparr>ro_status = RS_NOT_SETTLED, ro_reason = None, ro_nextProbeMs = None,
                             ro_evidence = Some (Ev_not_settled evidence)\<rparr>),
                           saveNotSettledEvidenceBundle (pi_paymentIntentId i) evidence st1))))))"

definition reconcileByAuthorizationState ::
    "recon_env \<Rightarrow> nat \<Rightarrow> DurablePaymentIntent \<Rightarrow> mem_store \<Rightarrow> recon_step \<times> mem_store" where
  "reconcileByAuthorizationState env v i st0 =
     (let r = checkAuthorizationState (rc_keccak env) (rc_checker env) (rc_views env v) (pi_asset i)
                (pi_authorizer i) (pi_nonce i) (rc_now env);
          st = persist_all (map (auth_observation env i) (mr_observations r)) st0
      in case mr_agreement r of
        ALL_FAILED \<Rightarrow> (Finished (Inr (reconciling ''All RPCs failed'' (next_probe env i))), st)
      | DISAGREEMENT \<Rightarrow> (Finished (Inr (reconciling (sect @ ''14: RPC disagreement on authorizationState'') (next_probe env i))), st)
      | INSUFFICIENT \<Rightarrow> (Finished (Inr (reconciling (sect @ ''14: Insufficient RPC observations'') (next_probe env i))), st)
      | UNANIMOUS \<Rightarrow>
          (if mr_unanimousValue r = Some True
           then (let s = findAuthorizationUsedEvent (rc_keccak env) (rc_checker env) (rc_views env (Suc v)) (pi_asset i)
                           (pi_authorizer i) (pi_nonce i) 0 None (rc_now env)
                 in case (mr_agreement s, mr_unanimousValue s) of
                      (UNANIMOUS, Some ev) \<Rightarrow> follow_event env i ev st
                    | _ \<Rightarrow> (Finished (Inr (reconciling (sect @ ''10: authorizationState=true '' @ mdash @
                             '' attempting txHash recovery via AuthorizationUsed'') (next_probe env i))), st))
           else (case canDeclareNotSettled (rc_checker env) r (pi_validBefore i) (now_seconds env) of
                   (False, reason) \<Rightarrow> (Finished (Inr (reconciling reason (next_probe env i))), st)
                 | (True, _) \<Rightarrow> declare_not_settled env v i r st)))"

section \<open>The engine\<close>

text \<open>
  One strategy uses at most two views, so strategy n works on views \<open>2 n\<close> and
  \<open>2 n + 1\<close>. \<open>None\<close> is running out of fuel.
\<close>

fun follow :: "recon_env \<Rightarrow> nat \<Rightarrow> nat \<Rightarrow> recon_step \<Rightarrow> mem_store \<Rightarrow> (exn + ReconciliationOutcome) option \<times> mem_store" where
  "follow env fuel n (Finished r) st = (Some r, st)"
| "follow env 0 n (FollowTx i) st = (None, st)"
| "follow env 0 n (FollowAuth i) st = (None, st)"
| "follow env (Suc fuel) n (FollowTx i) st =
     (case reconcileByTxHash env (2 * n) i st of (s, st1) \<Rightarrow> follow env fuel (Suc n) s st1)"
| "follow env (Suc fuel) n (FollowAuth i) st =
     (case reconcileByAuthorizationState env (2 * n) i st of (s, st1) \<Rightarrow> follow env fuel (Suc n) s st1)"

fun status_of :: "SettlementState \<Rightarrow> ReconStatus" where
  "status_of St_SETTLED = RS_SETTLED"
| "status_of St_NOT_SETTLED = RS_NOT_SETTLED"
| "status_of St_UNRESOLVED_MANUAL = RS_UNRESOLVED_MANUAL"
| "status_of _ = RS_RECONCILING"

definition persisted_evidence :: "DurablePaymentIntent \<Rightarrow> SettlementEvidence option" where
  "persisted_evidence i =
     or_else (map_option Ev_settled (pi_settledEvidenceBundle i)) (map_option Ev_not_settled (pi_notSettledEvidenceBundle i))"

text \<open>Where \<open>reconcile\<close> starts: an early answer, or one of the strategies.\<close>

definition first_step :: "DurablePaymentIntent option \<Rightarrow> recon_step" where
  "first_step found =
     (case found of
        None \<Rightarrow> Finished (Inr \<lparr>ro_status = RS_UNRESOLVED_MANUAL, ro_reason = Some ''Payment intent not found'',
                    ro_nextProbeMs = None, ro_evidence = None\<rparr>)
      | Some i \<Rightarrow>
          (if pi_settlementState i = St_PENDING_SIGNATURE
             then Finished (Inr (reconciling ''PENDING_SIGNATURE: awaiting externally signed payment payload'' None))
           else if pi_settlementState i \<in> {St_SETTLED, St_NOT_SETTLED, St_UNRESOLVED_MANUAL}
             then Finished (Inr \<lparr>ro_status = status_of (pi_settlementState i), ro_reason = Some ''Already terminal'',
                    ro_nextProbeMs = None, ro_evidence = persisted_evidence i\<rparr>)
           else if pi_txHash i \<noteq> None \<and> pi_txHash i \<noteq> Some [] then FollowTx i
           else FollowAuth i))"

definition reconcile ::
    "recon_env \<Rightarrow> nat \<Rightarrow> string \<Rightarrow> mem_store \<Rightarrow> (exn + ReconciliationOutcome) option \<times> mem_store" where
  "reconcile env fuel paymentIntentId st = follow env fuel 0 (first_step (getPaymentIntentById st paymentIntentId)) st"

text \<open>
  \<open>recoverAfterCrash\<close> over the intents the store's \<open>getNonTerminalIntents\<close> returned
  (the Postgres store has that query, the in-memory store does not); \<open>envs n\<close> is the
  environment of the n-th \<open>reconcile\<close>. A throw aborts the loop.
\<close>

fun recoverAfterCrash ::
    "(nat \<Rightarrow> recon_env) \<Rightarrow> nat \<Rightarrow> DurablePaymentIntent list \<Rightarrow> (string, ReconciliationOutcome) jsmap \<Rightarrow> mem_store \<Rightarrow>
     (exn + (string, ReconciliationOutcome) jsmap) option \<times> mem_store" where
  "recoverAfterCrash envs fuel [] results st = (Some (Inr results), st)"
| "recoverAfterCrash envs fuel (i # is) results st =
     (case (if pi_settlementState i = St_SUBMITTING \<and> (pi_txHash i = None \<or> pi_txHash i = Some [])
            then compareAndSetState (pi_paymentIntentId i) St_SUBMITTING St_RECONCILING (rc_now (envs 0)) st
            else (True, st)) of
        (False, st1) \<Rightarrow> recoverAfterCrash (\<lambda>n. envs (Suc n)) fuel is results st1
      | (True, st1) \<Rightarrow>
          (case reconcile (envs 0) fuel (pi_paymentIntentId i) st1 of
             (Some (Inr outcome), st2) \<Rightarrow>
               recoverAfterCrash (\<lambda>n. envs (Suc n)) fuel is (js_set (pi_paymentIntentId i) outcome results) st2
           | (Some (Inl e), st2) \<Rightarrow> (Some (Inl e), st2)
           | (None, st2) \<Rightarrow> (None, st2)))"

section \<open>What a strategy may do to the store\<close>

definition st_of :: "mem_store \<Rightarrow> string \<Rightarrow> SettlementState option" where
  "st_of st k = map_option pi_settlementState (mem_intent st k)"

lemma st_of_frame [simp, store_simps]:
  "st_of (appendReconciliationObservation ob st) = st_of st"
  "st_of (persist_all obs st) = st_of st"
  "st_of (saveSettledEvidenceBundle k b st) = st_of st"
  "st_of (saveNotSettledEvidenceBundle k c st) = st_of st"
  "st_of (markNonceSettled n t st) = st_of st"
proof -
  show o: "st_of (appendReconciliationObservation ob st) = st_of st" for ob st
    by (auto simp: st_of_def fun_eq_iff option.map_comp comp_def)
  show "st_of (persist_all obs st) = st_of st"
    unfolding persist_all_def by (induction obs arbitrary: st) (simp_all add: o)
qed (simp_all add: st_of_def fun_eq_iff)

lemma cas_st_of:
  assumes "compareAndSetState k e n t st = (b, st')"
  shows "if b then st_of st k = Some e \<and> \<not> isTerminalSettlementState e \<and> st_of st' = (st_of st)(k \<mapsto> n) else st' = st"
proof (cases b)
  case True
  with mem_cas.cas_win [of k e n t st st'] assms show ?thesis by (auto simp: st_of_def fun_eq_iff)
next
  case False
  with mem_cas.cas_lose [of k e n t st st'] assms show ?thesis by simp
qed

lemma cas_same_state: "st_of (snd (compareAndSetState k e e t st)) = st_of st"
  using cas_st_of [of k e e t st "fst (compareAndSetState k e e t st)" "snd (compareAndSetState k e e t st)"]
  by (auto split: if_splits)

text \<open>
  Finality as the code can know it: a confirmation count at or above the required one that every answering
  provider confirms, or a provider whose head or receipt carries a block number that is not a number. In that case
  the agreed count is NaN and passes the comparison.
\<close>

definition unreadable_block :: "rpc_provider \<Rightarrow> string \<Rightarrow> bool" where
  "unreadable_block p hash = (\<exists>receipt. rp_receipt p hash = RpcResult (Some receipt) \<and>
     ((\<exists>b. rp_blockNumber p = RpcResult b \<and> parseInt16 b = None) \<or> parseInt16 (rr_blockNumber receipt) = None))"

definition final_enough :: "recon_env \<Rightarrow> nat \<Rightarrow> string \<Rightarrow> TransactionCheckResult \<Rightarrow> bool" where
  "final_enough env v hash tx =
     ((\<exists>n. tc_confirmations tx = Some (Some n) \<and> fin_requiredConfirmations (rc_finalityPolicy env) \<le> n \<and>
         (\<forall>(cfg, p) \<in> set (zip (ck_configs (rc_checker env)) (rc_views env v)). \<forall>w. getTransactionReceipt cfg p hash = Inr (Some w) \<longrightarrow>
            (\<exists>m. tc_confirmations w = Some (Some m) \<and> n \<le> m))) \<or>
      tc_confirmations tx = Some None \<and> (\<exists>p \<in> set (rc_views env v). unreadable_block p hash))"

text \<open>
  The proofs the two verdicts require, over the checker's answers. Neither mentions the
  transaction hash the intent carries: it may be one the engine recovered.
\<close>

definition settled_proof :: "recon_env \<Rightarrow> DurablePaymentIntent \<Rightarrow> bool" where
  "settled_proof env i = (\<exists>v hash tx logs minv tr lg.
     mr_agreement (checkTransaction (rc_checker env) (rc_views env v) hash (rc_now env)) = UNANIMOUS \<and>
     mr_unanimousValue (checkTransaction (rc_checker env) (rc_views env v) hash (rc_now env)) = Some tx \<and>
     tc_found tx \<and> tc_status tx = Tx_success \<and>
     final_enough env v hash tx \<and>
     tc_logs tx = Some logs \<and> BigInt (pi_value i) = Some minv \<and>
     parseTransferLogs logs (pi_authorizer i) (pi_payTo i) minv (pi_asset i) = Inr (Some tr) \<and>
     findAuthorizationUsedLog (rc_keccak env) logs (pi_asset i) (pi_authorizer i) (pi_nonce i) = Some lg)"

definition not_settled_proof :: "recon_env \<Rightarrow> DurablePaymentIntent \<Rightarrow> bool" where
  "not_settled_proof env i = (pi_validBefore i \<le> now_seconds env \<and>
    ((\<exists>v hash tx. mr_agreement (checkTransaction (rc_checker env) (rc_views env v) hash (rc_now env)) = UNANIMOUS \<and>
        mr_unanimousValue (checkTransaction (rc_checker env) (rc_views env v) hash (rc_now env)) = Some tx \<and>
        tc_found tx \<and> tc_status tx = Tx_reverted) \<or>
     (\<exists>v. fst (canDeclareNotSettled (rc_checker env)
             (checkAuthorizationState (rc_keccak env) (rc_checker env) (rc_views env v) (pi_asset i) (pi_authorizer i)
                (pi_nonce i) (rc_now env)) (pi_validBefore i) (now_seconds env)) \<and>
          sr_outcome (scanAuthorizationUsed (rc_keccak env) (rc_checker env) (rc_views env (Suc v)) (pi_asset i)
             (pi_authorizer i) (pi_nonce i) 0 (rc_now env)) = Scan_SCAN_COMPLETE_EMPTY)))"

definition verdict_effect ::
    "recon_env \<Rightarrow> DurablePaymentIntent \<Rightarrow> SettlementState \<Rightarrow> ReconStatus \<Rightarrow> bool \<Rightarrow> recon_step \<Rightarrow> mem_store \<Rightarrow> mem_store \<Rightarrow> bool" where
  "verdict_effect env i verdict status evid s st st' =
     (st_of st (pi_paymentIntentId i) = Some (pi_settlementState i) \<and> \<not> isTerminalSettlementState (pi_settlementState i) \<and>
      st_of st' = (st_of st)(pi_paymentIntentId i \<mapsto> verdict) \<and>
      (\<exists>out. s = Finished (Inr out) \<and> ro_status out = status) \<and> evid)"

definition no_verdict :: "DurablePaymentIntent \<Rightarrow> recon_step \<Rightarrow> bool" where
  "no_verdict i s = (case s of
     Finished r \<Rightarrow> (\<forall>out. r = Inr out \<longrightarrow> ro_status out \<in> {RS_RECONCILING, RS_UNRESOLVED_MANUAL})
   | FollowTx j \<Rightarrow> (\<exists>h. j = i\<lparr>pi_txHash := h\<rparr>)
   | FollowAuth j \<Rightarrow> j = i)"

definition recon_effect :: "recon_env \<Rightarrow> DurablePaymentIntent \<Rightarrow> recon_step \<Rightarrow> mem_store \<Rightarrow> mem_store \<Rightarrow> bool" where
  "recon_effect env i s st st' =
     (st_of st' = st_of st \<and> no_verdict i s \<or>
      verdict_effect env i St_SETTLED RS_SETTLED (settled_proof env i) s st st' \<or>
      verdict_effect env i St_NOT_SETTLED RS_NOT_SETTLED (not_settled_proof env i) s st st')"

lemma no_verdict_simps [simp]:
  "no_verdict i (Finished (Inl e))" "no_verdict i (Finished (Inr (reconciling r n)))" "no_verdict i (FollowAuth i)"
  "no_verdict i (FollowTx (i\<lparr>pi_txHash := h\<rparr>))"
  "no_verdict i (Finished (Inr \<lparr>ro_status = RS_UNRESOLVED_MANUAL, ro_reason = why, ro_nextProbeMs = n, ro_evidence = ev\<rparr>))"
  by (auto simp: no_verdict_def reconciling_def)

lemma recon_effect_same: "st_of st' = st_of st \<Longrightarrow> no_verdict i s \<Longrightarrow> recon_effect env i s st st'"
  by (simp add: recon_effect_def)

lemma recon_effect_start: "st_of st1 = st_of st \<Longrightarrow> recon_effect env i s st1 st' \<Longrightarrow> recon_effect env i s st st'"
  by (simp add: recon_effect_def verdict_effect_def)

lemma js_min_NaN: "js_min as = None \<Longrightarrow> as = [] \<or> None \<in> set as"
  by (induction as rule: js_min.induct) (auto split: option.splits)

lemma map_filter_mem: "y \<in> set (List.map_filter f xs) \<longleftrightarrow> (\<exists>x \<in> set xs. f x = Some y)"
  by (induction xs) (auto simp: map_filter_simps split: option.split)

lemma NaN_confirmations_unreadable:
  "getTransactionReceipt cfg p hash = Inr (Some w) \<Longrightarrow> tc_confirmations w = Some None \<Longrightarrow> unreadable_block p hash"
  by (auto simp: getTransactionReceipt_def tx_not_found_def unreadable_block_def getBlockNumber_def bind_exn_Inr rpcCall_Inr js_sub_def Let_def
      split: sum.splits option.splits if_splits)

lemma found_confirmations:
  assumes "\<forall>w \<in> set ws. tc_found w \<longleftrightarrow> tc_confirmations w \<noteq> None" "\<forall>w \<in> set ws. tc_found w"
  shows "length (List.map_filter tc_confirmations ws) = length ws"
  using assms by (induction ws) (auto simp: map_filter_simps)

text \<open>The count of a transaction the providers agree on, against the counts they gave.\<close>

lemma agreed_confirmations:
  assumes "mr_agreement (checkTransaction ck ps hash t) = UNANIMOUS"
    and "mr_unanimousValue (checkTransaction ck ps hash t) = Some tx" "tc_found tx"
  shows "\<exists>c. tc_confirmations tx = Some c \<and>
    (\<forall>n. c = Some n \<longrightarrow> (\<forall>(cfg, p) \<in> set (zip (ck_configs ck) ps). \<forall>w. getTransactionReceipt cfg p hash = Inr (Some w) \<longrightarrow>
       (\<exists>m. tc_confirmations w = Some (Some m) \<and> n \<le> m))) \<and>
    (c = None \<longrightarrow> (\<exists>p \<in> set ps. unreadable_block p hash))"
proof -
  let ?obs = "map (observe_tx hash t) (zip (ck_configs ck) ps)"
  from aggregate_unanimous [OF assms(1) [unfolded checkTransaction_def aggregate_tx_def]] assms(2)
  obtain v vs where vs: "List.map_filter ob_result ?obs = v # vs" "\<forall>w \<in> set (v # vs). canonical_tx w = canonical_tx v"
    and val: "tx = (if length (List.map_filter tc_confirmations (v # vs)) = length (v # vs)
        then v\<lparr>tc_confirmations := Some (js_min (List.map_filter tc_confirmations (v # vs)))\<rparr> else v)"
    unfolding checkTransaction_def aggregate_tx_def by auto
  have mem: "w \<in> set (v # vs) \<longleftrightarrow> (\<exists>(cfg, p) \<in> set (zip (ck_configs ck) ps). getTransactionReceipt cfg p hash = Inr (Some w))" for w
    unfolding vs(1) [symmetric] map_filter_results using observe_tx_result by (fastforce simp del: set_zip)
  have "tc_found v" using assms(3) val by (simp split: if_splits)
  then have found: "\<forall>w \<in> set (v # vs). tc_found w" using vs(2) canonical_found by blast
  have full: "length (List.map_filter tc_confirmations (v # vs)) = length (v # vs)"
    by (rule found_confirmations [OF _ found]) (use mem getTransactionReceipt_confirmations in blast)
  then have c: "tc_confirmations tx = Some (js_min (List.map_filter tc_confirmations (v # vs)))" using val by simp
  have nan: "\<exists>p \<in> set ps. unreadable_block p hash" if "js_min (List.map_filter tc_confirmations (v # vs)) = None"
  proof -
    from js_min_NaN [OF that] full have "None \<in> set (List.map_filter tc_confirmations (v # vs))" by auto
    then obtain w where w: "w \<in> set (v # vs)" "tc_confirmations w = Some None" unfolding map_filter_mem by blast
    with mem obtain cfg p where "(cfg, p) \<in> set (zip (ck_configs ck) ps)" "getTransactionReceipt cfg p hash = Inr (Some w)" by blast
    with NaN_confirmations_unreadable [OF this(2) w(2)] show ?thesis by (auto dest: set_zip_rightD)
  qed
  have low: "\<exists>m. tc_confirmations w = Some (Some m) \<and> n \<le> m"
    if "js_min (List.map_filter tc_confirmations (v # vs)) = Some n" "w \<in> set (v # vs)" for n w
    by (rule js_min_map_filter [OF full that])
  have "\<exists>m. tc_confirmations w = Some (Some m) \<and> n \<le> m"
    if "js_min (List.map_filter tc_confirmations (v # vs)) = Some n" "(cfg, p) \<in> set (zip (ck_configs ck) ps)"
      "getTransactionReceipt cfg p hash = Inr (Some w)" for n cfg p w
    using low [OF that(1)] that(2,3) mem by blast
  with c nan show ?thesis by (intro exI [of _ "js_min (List.map_filter tc_confirmations (v # vs))"]) blast
qed

lemma final_enoughI:
  assumes "mr_agreement (checkTransaction (rc_checker env) (rc_views env v) hash (rc_now env)) = UNANIMOUS"
    and "mr_unanimousValue (checkTransaction (rc_checker env) (rc_views env v) hash (rc_now env)) = Some tx" "tc_found tx"
    and "\<not> js_lt (opt_default (Some 0) (tc_confirmations tx)) (Some (fin_requiredConfirmations (rc_finalityPolicy env)))"
  shows "final_enough env v hash tx"
proof -
  from agreed_confirmations [OF assms(1-3)] obtain c where c: "tc_confirmations tx = Some c"
    "\<forall>n. c = Some n \<longrightarrow> (\<forall>(cfg, p) \<in> set (zip (ck_configs (rc_checker env)) (rc_views env v)). \<forall>w.
       getTransactionReceipt cfg p hash = Inr (Some w) \<longrightarrow> (\<exists>m. tc_confirmations w = Some (Some m) \<and> n \<le> m))"
    "c = None \<longrightarrow> (\<exists>p \<in> set (rc_views env v). unreadable_block p hash)" by blast
  show ?thesis
  proof (cases c)
    case None
    with c show ?thesis by (simp add: final_enough_def)
  next
    case (Some n)
    with c assms(4) have "fin_requiredConfirmations (rc_finalityPolicy env) \<le> n" by simp
    with Some c(1,2) show ?thesis unfolding final_enough_def by blast
  qed
qed

lemma verify_settled_effect:
  assumes "mr_agreement r = UNANIMOUS" "mr_unanimousValue r = Some tx" "tc_found tx" "tc_status tx = Tx_success"
    and "\<not> js_lt (opt_default (Some 0) (tc_confirmations tx)) (Some (fin_requiredConfirmations (rc_finalityPolicy env)))"
    and r: "r = checkTransaction (rc_checker env) (rc_views env v) hash (rc_now env)"
    and run: "verify_settled env i r tx st = (s, st')"
  shows "recon_effect env i s st st'"
proof (cases "\<exists>logs minv tr lg. tc_logs tx = Some logs \<and> BigInt (pi_value i) = Some minv \<and>
     parseTransferLogs logs (pi_authorizer i) (pi_payTo i) minv (pi_asset i) = Inr (Some tr) \<and>
     findAuthorizationUsedLog (rc_keccak env) logs (pi_asset i) (pi_authorizer i) (pi_nonce i) = Some lg")
  case True
  then obtain logs minv tr lg where l: "tc_logs tx = Some logs" "BigInt (pi_value i) = Some minv"
     "parseTransferLogs logs (pi_authorizer i) (pi_payTo i) minv (pi_asset i) = Inr (Some tr)"
     "findAuthorizationUsedLog (rc_keccak env) logs (pi_asset i) (pi_authorizer i) (pi_nonce i) = Some lg" by blast
  have "final_enough env v hash tx" using assms(1-5) final_enoughI unfolding r by blast
  with l have proof_ok: "settled_proof env i" using assms(1-4) unfolding settled_proof_def r by blast
  obtain b st1 where c: "compareAndSetState (pi_paymentIntentId i) (pi_settlementState i) St_SETTLED (rc_now env) st = (b, st1)"
    by fastforce
  show ?thesis
  proof (cases b)
    case True
    with run l c cas_st_of [OF c] proof_ok show ?thesis
      by (auto simp: verify_settled_def Let_def recon_effect_def verdict_effect_def)
  next
    case False
    with run l c cas_st_of [OF c] show ?thesis
      by (auto simp: verify_settled_def Let_def intro: recon_effect_same)
  qed
next
  case False
  with run have "st_of st' = st_of st \<and> no_verdict i s"
    by (auto simp: verify_settled_def Let_def split: option.splits sum.splits)
  then show ?thesis by (simp add: recon_effect_same)
qed

lemma not_settled_effect:
  assumes "not_settled_proof env i" "ro_status out = RS_NOT_SETTLED"
    and "compareAndSetState (pi_paymentIntentId i) (pi_settlementState i) St_NOT_SETTLED (rc_now env) st = (True, st1)"
    and "st_of st' = st_of st1"
  shows "recon_effect env i (Finished (Inr out)) st st'"
  using cas_st_of [OF assms(3)] assms by (simp add: recon_effect_def verdict_effect_def)

lemma reconcileByTxHash_effect:
  assumes "reconcileByTxHash env v i st0 = (s, st')"
  shows "recon_effect env i s st0 st'"
proof -
  define r where "r = checkTransaction (rc_checker env) (rc_views env v) (opt_default [] (pi_txHash i)) (rc_now env)"
  define st where "st = persist_all (map (tx_observation env i (Some 0)) (mr_observations r)) st0"
  note run = assms [unfolded reconcileByTxHash_def Let_def, folded r_def, folded st_def]
  have "recon_effect env i s st st'"
  proof (cases "mr_agreement r = UNANIMOUS \<and> (\<exists>tx. mr_unanimousValue r = Some tx \<and> tc_found tx)")
    case True
    then obtain tx where u: "mr_agreement r = UNANIMOUS" "mr_unanimousValue r = Some tx" "tc_found tx" by blast
    consider (early) "now_seconds env < pi_validBefore i \<and> tc_status tx = Tx_reverted"
      | (reverted) "pi_validBefore i \<le> now_seconds env" "tc_status tx = Tx_reverted"
      | (pending) "tc_status tx = Tx_pending"
      | (few) "tc_status tx = Tx_success" "js_lt (opt_default (Some 0) (tc_confirmations tx)) (Some (fin_requiredConfirmations (rc_finalityPolicy env)))"
      | (verify) "tc_status tx = Tx_success" "\<not> js_lt (opt_default (Some 0) (tc_confirmations tx)) (Some (fin_requiredConfirmations (rc_finalityPolicy env)))"
      by (cases "tc_status tx") force+
    then show ?thesis
    proof cases
      case reverted
      have ev: "not_settled_proof env i" unfolding not_settled_proof_def using reverted u unfolding r_def by blast
      obtain b st1 where c: "compareAndSetState (pi_paymentIntentId i) (pi_settlementState i) St_NOT_SETTLED (rc_now env) st = (b, st1)"
        by fastforce
      show ?thesis
      proof (cases b)
        case True
        with run u reverted c show ?thesis by (auto intro!: not_settled_effect [OF ev])
      next
        case False
        with run u reverted c cas_st_of [OF c] show ?thesis by (auto intro!: recon_effect_same)
      qed
    next
      case verify
      with run u have "verify_settled env i r tx st = (s, st')" by simp
      from verify_settled_effect [OF u verify r_def this] show ?thesis .
    qed (use run u in \<open>auto intro!: recon_effect_same\<close>)
  next
    case False
    then have "st_of st' = st_of st \<and> no_verdict i s"
      using run by (auto split: Agreement.splits option.splits if_splits)
    then show ?thesis by (simp add: recon_effect_same)
  qed
  then show ?thesis by (rule recon_effect_start [rotated]) (simp add: st_def)
qed

lemma follow_event_effect: "follow_event env i ev st = (s, st') \<Longrightarrow> recon_effect env i s st st'"
  by (auto simp: follow_event_def cas_same_state intro!: recon_effect_same)

lemma declare_not_settled_effect:
  assumes run: "declare_not_settled env v i r st = (s, st')"
    and r: "r = checkAuthorizationState (rc_keccak env) (rc_checker env) (rc_views env v) (pi_asset i)
                (pi_authorizer i) (pi_nonce i) (rc_now env)"
    and gate: "fst (canDeclareNotSettled (rc_checker env) r (pi_validBefore i) (now_seconds env))"
  shows "recon_effect env i s st st'"
proof -
  define scan where "scan = scanAuthorizationUsed (rc_keccak env) (rc_checker env) (rc_views env (Suc v)) (pi_asset i)
                   (pi_authorizer i) (pi_nonce i) 0 (rc_now env)"
  note run' = run [unfolded declare_not_settled_def Let_def, folded scan_def]
  show ?thesis
  proof (cases "sr_outcome scan = Scan_SCAN_COMPLETE_EMPTY \<and> (\<exists>obs. not_settled_observations (mr_observations r) = Inr obs)")
    case True
    then obtain obs where e: "sr_outcome scan = Scan_SCAN_COMPLETE_EMPTY" "not_settled_observations (mr_observations r) = Inr obs" by blast
    have ev: "not_settled_proof env i"
      using gate e(1) not_settled_gate [of "rc_checker env" r "pi_validBefore i" "now_seconds env"]
      unfolding not_settled_proof_def r scan_def by blast
    obtain b st1 where c: "compareAndSetState (pi_paymentIntentId i) (pi_settlementState i) St_NOT_SETTLED (rc_now env) st = (b, st1)"
      by fastforce
    show ?thesis
    proof (cases b)
      case True
      with run' e c show ?thesis by (auto intro!: not_settled_effect [OF ev])
    next
      case False
      with run' e c cas_st_of [OF c] show ?thesis by (auto intro!: recon_effect_same)
    qed
  next
    case False
    then show ?thesis
      using run' follow_event_effect
      by (auto intro!: recon_effect_same split: ScanOutcome.splits option.splits sum.splits)
  qed
qed

lemma reconcileByAuthorizationState_effect:
  assumes "reconcileByAuthorizationState env v i st0 = (s, st')"
  shows "recon_effect env i s st0 st'"
proof -
  define r where "r = checkAuthorizationState (rc_keccak env) (rc_checker env) (rc_views env v) (pi_asset i)
                (pi_authorizer i) (pi_nonce i) (rc_now env)"
  define st where "st = persist_all (map (auth_observation env i) (mr_observations r)) st0"
  note run = assms [unfolded reconcileByAuthorizationState_def Let_def, folded r_def, folded st_def]
  have "recon_effect env i s st st'"
  proof (cases "mr_agreement r = UNANIMOUS \<and> mr_unanimousValue r \<noteq> Some True \<and>
      fst (canDeclareNotSettled (rc_checker env) r (pi_validBefore i) (now_seconds env))")
    case True
    then obtain why where "canDeclareNotSettled (rc_checker env) r (pi_validBefore i) (now_seconds env) = (True, why)"
      by (metis prod.collapse)
    with True run have "declare_not_settled env v i r st = (s, st')" by simp
    then show ?thesis by (rule declare_not_settled_effect [OF _ r_def]) (use True in blast)
  next
    case False
    then show ?thesis
      using run follow_event_effect
      by (auto intro!: recon_effect_same split: Agreement.splits option.splits if_splits prod.splits bool.splits)
  qed
  then show ?thesis by (rule recon_effect_start [rotated]) (simp add: st_def)
qed

lemma proofs_ignore_txHash [simp]:
  "settled_proof env (i\<lparr>pi_txHash := h\<rparr>) = settled_proof env i"
  "not_settled_proof env (i\<lparr>pi_txHash := h\<rparr>) = not_settled_proof env i"
  by (simp_all add: settled_proof_def not_settled_proof_def)

lemma recon_effect_txHash:
  "recon_effect env (i\<lparr>pi_txHash := h\<rparr>) (Finished r) st st' \<Longrightarrow> recon_effect env i (Finished r) st st'"
  by (simp add: recon_effect_def verdict_effect_def no_verdict_def)

lemma recon_effect_continue:
  "recon_effect env i (FollowTx j) st st' \<Longrightarrow> st_of st' = st_of st \<and> (\<exists>h. j = i\<lparr>pi_txHash := h\<rparr>)"
  "recon_effect env i (FollowAuth j) st st' \<Longrightarrow> st_of st' = st_of st \<and> j = i"
  by (simp_all add: recon_effect_def verdict_effect_def no_verdict_def)

definition step_intent :: "recon_step \<Rightarrow> DurablePaymentIntent option" where
  "step_intent s = (case s of Finished _ \<Rightarrow> None | FollowTx j \<Rightarrow> Some j | FollowAuth j \<Rightarrow> Some j)"

lemma follow_one:
  assumes "step_intent s = Some j"
  shows "follow env fuel n s st = (case fuel of 0 \<Rightarrow> (None, st) | Suc m \<Rightarrow>
    (case (case s of FollowTx x \<Rightarrow> reconcileByTxHash env (2 * n) j st | _ \<Rightarrow> reconcileByAuthorizationState env (2 * n) j st) of
       (s1, st1) \<Rightarrow> follow env m (Suc n) s1 st1))"
  using assms by (cases s; cases fuel) (simp_all add: step_intent_def)

lemma strategy_effect:
  assumes "(case s of FollowTx x \<Rightarrow> reconcileByTxHash env v j st | _ \<Rightarrow> reconcileByAuthorizationState env v j st) = (s1, st1)"
  shows "recon_effect env j s1 st st1"
  using assms reconcileByTxHash_effect reconcileByAuthorizationState_effect by (cases s) auto

lemma follow_effect:
  "step_intent s = Some (i\<lparr>pi_txHash := h\<rparr>) \<Longrightarrow> follow env fuel n s st = (res, st') \<Longrightarrow>
   (case res of None \<Rightarrow> st_of st' = st_of st | Some r \<Rightarrow> recon_effect env i (Finished r) st st')"
proof (induction fuel arbitrary: n s st h)
  case 0
  then show ?case by (simp add: follow_one)
next
  case (Suc m)
  let ?j = "i\<lparr>pi_txHash := h\<rparr>"
  obtain s1 st1 where b: "(case s of FollowTx x \<Rightarrow> reconcileByTxHash env (2 * n) ?j st
      | _ \<Rightarrow> reconcileByAuthorizationState env (2 * n) ?j st) = (s1, st1)" by fastforce
  from strategy_effect [OF this] have eff: "recon_effect env ?j s1 st st1" .
  from Suc.prems b have f: "follow env m (Suc n) s1 st1 = (res, st')" by (simp add: follow_one)
  show ?case
  proof (cases s1)
    case (Finished r)
    with f eff show ?thesis by (auto intro: recon_effect_txHash)
  next
    case (FollowTx j)
    with eff recon_effect_continue obtain h' where "j = ?j\<lparr>pi_txHash := h'\<rparr>" and so: "st_of st1 = st_of st" by blast
    then have "step_intent s1 = Some (i\<lparr>pi_txHash := h'\<rparr>)" using FollowTx by (simp add: step_intent_def)
    from Suc.IH [OF this f] so show ?thesis by (auto split: option.splits intro: recon_effect_start)
  next
    case (FollowAuth j)
    with eff recon_effect_continue have "j = ?j" and so: "st_of st1 = st_of st" by blast+
    then have "step_intent s1 = Some (i\<lparr>pi_txHash := h\<rparr>)" using FollowAuth by (simp add: step_intent_def)
    from Suc.IH [OF this f] so show ?thesis by (auto split: option.splits intro: recon_effect_start)
  qed
qed

lemma first_step_cases:
  "first_step (Some i) = (if pi_settlementState i = St_PENDING_SIGNATURE \<or> isTerminalSettlementState (pi_settlementState i)
     then Finished (Inr \<lparr>ro_status = status_of (pi_settlementState i),
            ro_reason = Some (if pi_settlementState i = St_PENDING_SIGNATURE
              then ''PENDING_SIGNATURE: awaiting externally signed payment payload'' else ''Already terminal''),
            ro_nextProbeMs = None,
            ro_evidence = (if pi_settlementState i = St_PENDING_SIGNATURE then None else persisted_evidence i)\<rparr>)
     else if pi_txHash i \<noteq> None \<and> pi_txHash i \<noteq> Some [] then FollowTx i else FollowAuth i)"
  by (cases "pi_settlementState i") (simp_all add: first_step_def reconciling_def)

lemma reconcile_effect:
  assumes "mem_intent st k = Some i" "\<not> isTerminalSettlementState (pi_settlementState i)"
    "pi_settlementState i \<noteq> St_PENDING_SIGNATURE" "reconcile env fuel k st = (res, st')"
  shows "case res of None \<Rightarrow> st_of st' = st_of st | Some r \<Rightarrow> recon_effect env i (Finished r) st st'"
proof -
  let ?j = "i\<lparr>pi_payer := Some (pi_authorizer i)\<rparr>"
  from assms(1) have g: "getPaymentIntentById st k = Some ?j" by (simp add: getPaymentIntentById_eq)
  have si: "step_intent (first_step (Some ?j)) = Some (?j\<lparr>pi_txHash := pi_txHash i\<rparr>)"
    using assms(2,3) by (auto simp: first_step_cases step_intent_def)
  from follow_effect [OF si] assms(4) have
    "case res of None \<Rightarrow> st_of st' = st_of st | Some r \<Rightarrow> recon_effect env ?j (Finished r) st st'"
    by (simp add: reconcile_def g)
  moreover have "recon_effect env ?j (Finished r) st st' = recon_effect env i (Finished r) st st'" for r
    by (simp add: recon_effect_def verdict_effect_def no_verdict_def settled_proof_def not_settled_proof_def)
  ultimately show ?thesis by (cases res) simp_all
qed

lemma reconcile_passive:
  assumes "mem_intent st k = Some i"
    "isTerminalSettlementState (pi_settlementState i) \<or> pi_settlementState i = St_PENDING_SIGNATURE"
  shows "\<exists>out. reconcile env fuel k st = (Some (Inr out), st) \<and> ro_status out = status_of (pi_settlementState i)"
  using assms by (auto simp: reconcile_def getPaymentIntentById_eq first_step_cases)

section \<open>Termination\<close>

text \<open>A transaction no view unanimously denies.\<close>

definition tx_known :: "recon_env \<Rightarrow> string \<Rightarrow> bool" where
  "tx_known env hash = (\<forall>v tx. mr_unanimousValue (checkTransaction (rc_checker env) (rc_views env v) hash (rc_now env)) = Some tx \<longrightarrow>
     tc_found tx)"

text \<open>
  The chain the providers serve is consistent: a transaction they unanimously report an event of
  is never unanimously reported missing.
\<close>

definition consistent_views :: "recon_env \<Rightarrow> DurablePaymentIntent \<Rightarrow> bool" where
  "consistent_views env i = (\<forall>v ev.
     mr_unanimousValue (findAuthorizationUsedEvent (rc_keccak env) (rc_checker env) (rc_views env v) (pi_asset i)
        (pi_authorizer i) (pi_nonce i) 0 None (rc_now env)) = Some ev \<or>
     sr_event (scanAuthorizationUsed (rc_keccak env) (rc_checker env) (rc_views env v) (pi_asset i)
        (pi_authorizer i) (pi_nonce i) 0 (rc_now env)) = Some ev \<longrightarrow> tx_known env (au_transactionHash ev))"

lemma verify_settled_finishes: "\<exists>r. fst (verify_settled env i x tx st) = Finished r"
  by (auto simp: verify_settled_def Let_def split: option.splits sum.splits prod.splits bool.splits)

lemma byTx_finishes:
  assumes "tx_known env (opt_default [] (pi_txHash i))"
  shows "\<exists>r. fst (reconcileByTxHash env v i st) = Finished r"
  using assms verify_settled_finishes
  by (auto simp: reconcileByTxHash_def Let_def tx_known_def split: Agreement.splits option.splits prod.splits bool.splits)

lemma byTx_continues: "\<exists>r. fst (reconcileByTxHash env v i st) \<in> {Finished r, FollowAuth i}"
  using verify_settled_finishes
  by (auto simp: reconcileByTxHash_def Let_def split: Agreement.splits option.splits prod.splits bool.splits)

lemma declare_not_settled_continues:
  "\<exists>r ev. fst (declare_not_settled env v i x st) = Finished r \<or>
     fst (declare_not_settled env v i x st) = FollowTx (i\<lparr>pi_txHash := Some (au_transactionHash ev)\<rparr>) \<and>
     sr_event (scanAuthorizationUsed (rc_keccak env) (rc_checker env) (rc_views env (Suc v)) (pi_asset i)
       (pi_authorizer i) (pi_nonce i) 0 (rc_now env)) = Some ev"
  by (auto simp: declare_not_settled_def Let_def follow_event_def
      split: ScanOutcome.splits option.splits sum.splits prod.splits bool.splits)

lemma byAuth_continues:
  assumes "consistent_views env i"
  shows "\<exists>r h. fst (reconcileByAuthorizationState env v i st) = Finished r \<or>
     fst (reconcileByAuthorizationState env v i st) = FollowTx (i\<lparr>pi_txHash := Some h\<rparr>) \<and> tx_known env h"
proof -
  let ?st = "\<lambda>r. persist_all (map (auth_observation env i) (mr_observations r)) st"
  have d: "\<exists>r h. fst (declare_not_settled env v i x st1) = Finished r \<or>
     fst (declare_not_settled env v i x st1) = FollowTx (i\<lparr>pi_txHash := Some h\<rparr>) \<and> tx_known env h" for x st1
    using declare_not_settled_continues [of env v i x st1] assms unfolding consistent_views_def by blast
  have e: "mr_unanimousValue (findAuthorizationUsedEvent (rc_keccak env) (rc_checker env) (rc_views env (Suc v)) (pi_asset i)
        (pi_authorizer i) (pi_nonce i) 0 None (rc_now env)) = Some ev \<Longrightarrow> tx_known env (au_transactionHash ev)" for ev
    using assms unfolding consistent_views_def by blast
  define x where "x = checkAuthorizationState (rc_keccak env) (rc_checker env) (rc_views env v) (pi_asset i)
    (pi_authorizer i) (pi_nonce i) (rc_now env)"
  show ?thesis
  proof (cases "mr_agreement x = UNANIMOUS \<and> mr_unanimousValue x \<noteq> Some True \<and>
      fst (canDeclareNotSettled (rc_checker env) x (pi_validBefore i) (now_seconds env))")
    case True
    then obtain why where "canDeclareNotSettled (rc_checker env) x (pi_validBefore i) (now_seconds env) = (True, why)"
      by (metis prod.collapse)
    with True have "reconcileByAuthorizationState env v i st = declare_not_settled env v i x (?st x)"
      unfolding reconcileByAuthorizationState_def Let_def x_def [symmetric] by simp
    with d show ?thesis by metis
  next
    case False
    then show ?thesis
      unfolding reconcileByAuthorizationState_def Let_def x_def [symmetric]
      by (auto simp: follow_event_def dest: e split: Agreement.splits option.splits prod.splits bool.splits)
  qed
qed

lemma follow_finishes:
  assumes "consistent_views env i"
  shows "tx_known env h \<Longrightarrow> 1 \<le> fuel \<Longrightarrow> fst (follow env fuel n (FollowTx (i\<lparr>pi_txHash := Some h\<rparr>)) st) \<noteq> None"
    and "2 \<le> fuel \<Longrightarrow> fst (follow env fuel n (FollowAuth i) st) \<noteq> None"
    and "3 \<le> fuel \<Longrightarrow> fst (follow env fuel n (FollowTx i) st) \<noteq> None"
proof -
  show tx: "fst (follow env fuel n (FollowTx (i\<lparr>pi_txHash := Some h\<rparr>)) st) \<noteq> None" if "tx_known env h" "1 \<le> fuel" for h fuel n st
  proof -
    from that(1) have "tx_known env (opt_default [] (pi_txHash (i\<lparr>pi_txHash := Some h\<rparr>)))" by simp
    from byTx_finishes [OF this, of "2 * n" st]
    obtain r st1 where "reconcileByTxHash env (2 * n) (i\<lparr>pi_txHash := Some h\<rparr>) st = (Finished r, st1)"
      by (metis prod.collapse)
    with that(2) show ?thesis by (cases fuel) simp_all
  qed
  show au: "fst (follow env fuel n (FollowAuth i) st) \<noteq> None" if le: "2 \<le> fuel" for fuel n st
  proof -
    obtain m where m: "fuel = Suc m" "1 \<le> m" using le by (cases fuel) auto
    obtain s1 st1 where b: "reconcileByAuthorizationState env (2 * n) i st = (s1, st1)" by fastforce
    with byAuth_continues [OF assms, of "2 * n" st] consider r where "s1 = Finished r"
      | h where "s1 = FollowTx (i\<lparr>pi_txHash := Some h\<rparr>)" "tx_known env h" by auto
    then show ?thesis using tx m b by cases auto
  qed
  show "fst (follow env fuel n (FollowTx i) st) \<noteq> None" if le: "3 \<le> fuel"
  proof -
    obtain m where m: "fuel = Suc m" "2 \<le> m" using le by (cases fuel) auto
    obtain s1 st1 where b: "reconcileByTxHash env (2 * n) i st = (s1, st1)" by fastforce
    with byTx_continues [of env "2 * n" i st] consider r where "s1 = Finished r" | "s1 = FollowAuth i" by auto
    then show ?thesis using au m b by cases auto
  qed
qed

text \<open>
  Without that consistency the two strategies call each other for ever: the state is \<open>true\<close>,
  the providers report an event, and unanimously miss its transaction after the window closed.
\<close>

lemma inconsistent_views_never_return:
  assumes auth: "\<And>v. mr_agreement (checkAuthorizationState (rc_keccak env) (rc_checker env) (rc_views env v) (pi_asset i)
        (pi_authorizer i) (pi_nonce i) (rc_now env)) = UNANIMOUS"
      "\<And>v. mr_unanimousValue (checkAuthorizationState (rc_keccak env) (rc_checker env) (rc_views env v) (pi_asset i)
        (pi_authorizer i) (pi_nonce i) (rc_now env)) = Some True"
    and event: "\<And>v. mr_agreement (findAuthorizationUsedEvent (rc_keccak env) (rc_checker env) (rc_views env v) (pi_asset i)
        (pi_authorizer i) (pi_nonce i) 0 None (rc_now env)) = UNANIMOUS"
      "\<And>v. mr_unanimousValue (findAuthorizationUsedEvent (rc_keccak env) (rc_checker env) (rc_views env v) (pi_asset i)
        (pi_authorizer i) (pi_nonce i) 0 None (rc_now env)) = Some ev"
    and tx: "\<And>v. mr_agreement (checkTransaction (rc_checker env) (rc_views env v) (au_transactionHash ev) (rc_now env)) = UNANIMOUS"
      "\<And>v. mr_unanimousValue (checkTransaction (rc_checker env) (rc_views env v) (au_transactionHash ev) (rc_now env)) = Some tx_not_found"
    and closed: "pi_validBefore i \<le> now_seconds env"
  shows "fst (follow env fuel n (FollowAuth (i\<lparr>pi_txHash := h\<rparr>)) st) = None \<and>
         fst (follow env fuel n (FollowTx (i\<lparr>pi_txHash := Some (au_transactionHash ev)\<rparr>)) st) = None"
proof (induction fuel arbitrary: n h st)
  case (Suc m)
  show ?case
    using Suc.IH assms
    by (simp add: reconcileByAuthorizationState_def reconcileByTxHash_def follow_event_def tx_not_found_def Let_def)
qed simp

section \<open>Concrete runs\<close>

definition sample_env :: "rpc_provider list \<Rightarrow> int \<Rightarrow> recon_env" where
  "sample_env ps now = \<lparr>rc_checker = sample_checker, rc_schedule = DEFAULT_RECONCILIATION_SCHEDULE,
     rc_finalityPolicy = DEFAULT_FINALITY_POLICY, rc_keccak = (\<lambda>_. ''0xk''), rc_views = (\<lambda>_. ps),
     rc_attemptId = ''recon'', rc_now = now\<rparr>"

definition short_topic :: "string \<Rightarrow> string" where
  "short_topic s = ''0x'' @ replicate 24 (CHR ''0'') @ s"

definition payment_logs :: "RpcLog list" where
  "payment_logs =
    [\<lparr>rl_address = ''0xcc'', rl_topics = [TRANSFER_TOPIC, short_topic ''aa'', short_topic ''bb''], rl_data = ''0x1f4'',
      rl_logIndex = ''0x0''\<rparr>,
     \<lparr>rl_address = ''0xcc'', rl_topics = [''0xk'', topic_word ''0xaa'', topic_word ''0x01''], rl_data = ''0x'',
      rl_logIndex = ''0x1''\<rparr>]"

definition paid_provider :: "string \<Rightarrow> rpc_provider" where
  "paid_provider head = receipt_provider head (sample_receipt\<lparr>rr_logs := Some payment_logs\<rparr>)"

definition reverted_provider :: "string \<Rightarrow> rpc_provider" where
  "reverted_provider head = receipt_provider head (sample_receipt\<lparr>rr_status := ''0x0''\<rparr>)"

definition submitted_store :: mem_store where
  "submitted_store = snd (createPaymentIntent ((sample_intent ''pi1'' ''op1'' St_SUBMITTED)\<lparr>pi_txHash := Some ''0xtx''\<rparr>) empty_store)"

lemma settle_run:
  "st_of submitted_store ''pi1'' = Some St_SUBMITTED"
  "st_of (snd (reconcile (sample_env [paid_provider ''0x20'', paid_provider ''0x30''] 5000) 3 ''pi1'' submitted_store)) ''pi1'' = Some St_SETTLED"
  by code_simp+

lemma revert_run:
  "st_of (snd (reconcile (sample_env [reverted_provider ''0x20'', reverted_provider ''0x30''] 2000000) 3 ''pi1'' submitted_store)) ''pi1'' = Some St_NOT_SETTLED"
  by code_simp

lemma submitted_store_intent:
  "mem_intent submitted_store k = (if k = ''pi1'' then Some ((sample_intent ''pi1'' ''op1'' St_SUBMITTED)\<lparr>pi_txHash := Some ''0xtx''\<rparr>) else None)"
  by (simp add: submitted_store_def createPaymentIntent_def empty_store_def js_has_def js_values_def mem_intent_def
      sample_intent_def)

lemma submitted_store_wf: "intents_wf submitted_store"
proof -
  have "store_step\<^sup>*\<^sup>* empty_store submitted_store"
    unfolding submitted_store_def by (rule r_into_rtranclp, rule step_create, rule prod.collapse [symmetric])
  then show ?thesis using intents_wf_empty by (rule store_steps_wf)
qed

section \<open>Properties\<close>

lemma reconcile_changes:
  assumes "intents_wf st" "mem_intent st k = Some i" "reconcile env fuel k st = (res, st')" "st_of st' \<noteq> st_of st"
  shows "\<exists>r. res = Some r \<and> \<not> isTerminalSettlementState (pi_settlementState i) \<and> pi_settlementState i \<noteq> St_PENDING_SIGNATURE \<and>
     (verdict_effect env i St_SETTLED RS_SETTLED (settled_proof env i) (Finished r) st st' \<or>
      verdict_effect env i St_NOT_SETTLED RS_NOT_SETTLED (not_settled_proof env i) (Finished r) st st') \<and>
     pi_paymentIntentId i = k"
proof -
  have np: "\<not> isTerminalSettlementState (pi_settlementState i)" "pi_settlementState i \<noteq> St_PENDING_SIGNATURE"
    using reconcile_passive [OF assms(2), of env fuel] assms(3,4) by auto
  from reconcile_effect [OF assms(2) np assms(3)] assms(4) np intents_wf_key [OF assms(1,2)]
  show ?thesis by (cases res) (auto simp: recon_effect_def)
qed


lemma paid_provider_readable: "p \<in> {paid_provider ''0x20'', paid_provider ''0x30''} \<Longrightarrow> \<not> unreadable_block p hash"
proof -
  have "parseInt16 ''0x20'' \<noteq> None" "parseInt16 ''0x30'' \<noteq> None" "parseInt16 ''0x1'' \<noteq> None" by code_simp+
  then show "p \<in> {paid_provider ''0x20'', paid_provider ''0x30''} \<Longrightarrow> \<not> unreadable_block p hash"
    by (auto simp: unreadable_block_def paid_provider_def receipt_provider_def empty_provider_def sample_receipt_def)
qed


text \<open>
  Property C2. NOT_SETTLED is never premature: when one \<open>reconcile\<close> call moves an intent to
  NOT_SETTLED, its authorization has expired, and either the providers agreed that its transaction
  reverted, or the gate on the authorization state was open and the log scan came back complete
  and empty; and NOT_SETTLED is what it reports.
\<close>

theorem not_settled_verdict_is_proved:
  assumes "intents_wf st" "mem_intent st k = Some i" "pi_settlementState i \<noteq> St_NOT_SETTLED"
    and "reconcile env fuel k st = (res, st')" "st_of st' k = Some St_NOT_SETTLED"
  shows "not_settled_proof env i \<and> pi_validBefore i \<le> now_seconds env \<and>
         (\<exists>out. res = Some (Inr out) \<and> ro_status out = RS_NOT_SETTLED)"
proof -
  have "st_of st' k \<noteq> st_of st k" using assms(2,3,5) by (auto simp: st_of_def)
  then have "st_of st' \<noteq> st_of st" by auto
  from reconcile_changes [OF assms(1,2,4) this] assms(5) show ?thesis
    by (auto simp: verdict_effect_def not_settled_proof_def)
qed

theorem not_settled_verdict_is_proved_witness:
  "not_settled_proof (sample_env [reverted_provider ''0x20'', reverted_provider ''0x30''] 2000000)
     ((sample_intent ''pi1'' ''op1'' St_SUBMITTED)\<lparr>pi_txHash := Some ''0xtx''\<rparr>)"
  using not_settled_verdict_is_proved [OF submitted_store_wf, of "''pi1''" _ _ _ _ "snd (reconcile _ _ _ _)", OF _ _ prod.collapse [symmetric] revert_run]
  by (simp add: submitted_store_intent) (simp add: sample_intent_def)

text \<open>
  A reconciliation moves at most its own intent, and only to SETTLED or NOT_SETTLED: the
  settlement state of every other intent is untouched, and an intent that is terminal or still
  awaits its signature leaves the whole store as it was and is reported as what it is.
\<close>

theorem reconcile_moves_only_its_intent:
  assumes "intents_wf st" "mem_intent st k = Some i" "reconcile env fuel k st = (res, st')"
  shows "(\<forall>k'. k' \<noteq> k \<longrightarrow> st_of st' k' = st_of st k') \<and>
         st_of st' k \<in> {st_of st k, Some St_SETTLED, Some St_NOT_SETTLED} \<and>
         (isTerminalSettlementState (pi_settlementState i) \<or> pi_settlementState i = St_PENDING_SIGNATURE \<longrightarrow>
            st' = st \<and> (\<exists>out. res = Some (Inr out) \<and> ro_status out = status_of (pi_settlementState i)))"
proof (cases "st_of st' = st_of st")
  case True
  then show ?thesis using reconcile_passive [OF assms(2), of env fuel] assms(3) by auto
next
  case False
  from reconcile_changes [OF assms False] show ?thesis by (auto simp: verdict_effect_def)
qed

theorem reconcile_moves_only_its_intent_witness:
  "st_of (snd (reconcile (sample_env [paid_provider ''0x20'', paid_provider ''0x30''] 5000) 3 ''pi1'' submitted_store)) ''pi2'' =
   st_of submitted_store ''pi2''"
  using reconcile_moves_only_its_intent [OF submitted_store_wf, of "''pi1''", OF _ prod.collapse [symmetric]]
  by (simp add: submitted_store_intent)

lemma reconcile_verdict_durable:
  assumes "intents_wf st" "mem_intent st k = Some i" "reconcile env fuel k st = (Some (Inr out), st')"
    and "ro_status out = status_of verdict" "verdict = St_SETTLED \<or> verdict = St_NOT_SETTLED"
  shows "st_of st' k = Some verdict"
proof (cases "isTerminalSettlementState (pi_settlementState i) \<or> pi_settlementState i = St_PENDING_SIGNATURE")
  case True
  from reconcile_passive [OF assms(2) True, of env fuel] assms(3-5) have "st' = st" "status_of (pi_settlementState i) = status_of verdict"
    by auto
  with assms(2,5) show ?thesis by (cases "pi_settlementState i") (auto simp: st_of_def)
next
  case False
  with reconcile_effect [OF assms(2) _ _ assms(3)] assms(4,5) intents_wf_key [OF assms(1,2)] show ?thesis
    by (auto simp: recon_effect_def verdict_effect_def no_verdict_def)
qed

text \<open>
  A reported verdict is durable: a \<open>reconcile\<close> call that answers SETTLED or NOT_SETTLED
  leaves the intent in that state in the store.
\<close>

theorem reported_verdict_is_durable:
  assumes "intents_wf st" "mem_intent st k = Some i" "reconcile env fuel k st = (Some (Inr out), st')"
    and "ro_status out = status_of verdict" "verdict = St_SETTLED \<or> verdict = St_NOT_SETTLED"
  shows "st_of st' k = Some verdict"
  using assms by (rule reconcile_verdict_durable)

theorem reported_verdict_is_durable_witness:
  "\<exists>out st'. reconcile (sample_env [paid_provider ''0x20'', paid_provider ''0x30''] 5000) 3 ''pi1'' submitted_store = (Some (Inr out), st') \<and>
     st_of st' ''pi1'' = Some St_SETTLED"
proof -
  let ?run = "reconcile (sample_env [paid_provider ''0x20'', paid_provider ''0x30''] 5000) 3 ''pi1'' submitted_store"
  have "(case fst ?run of Some (Inr out) \<Rightarrow> ro_status out | _ \<Rightarrow> RS_INCIDENT) = RS_SETTLED" by code_simp
  then obtain out where out: "fst ?run = Some (Inr out)" "ro_status out = RS_SETTLED"
    by (auto split: option.splits sum.splits)
  then have run: "?run = (Some (Inr out), snd ?run)" by (metis prod.collapse)
  with reported_verdict_is_durable [OF submitted_store_wf _ run, of "(sample_intent ''pi1'' ''op1'' St_SUBMITTED)\<lparr>pi_txHash := Some ''0xtx''\<rparr>" St_SETTLED] out(2)
  show ?thesis by (auto simp: submitted_store_intent)
qed

text \<open>
  Property C22. \<open>reconcile\<close> returns: although its two strategies call each other, on consistent views
  of the chain at most three of them run before a result, whatever the intent and the answers.
\<close>

theorem reconcile_returns:
  assumes "\<forall>i. mem_intent st k = Some i \<longrightarrow> consistent_views env i" "3 \<le> fuel"
  shows "\<exists>r. fst (reconcile env fuel k st) = Some r"
proof (cases "mem_intent st k")
  case None
  then show ?thesis by (simp add: reconcile_def getPaymentIntentById_eq first_step_def)
next
  case (Some i)
  let ?j = "i\<lparr>pi_payer := Some (pi_authorizer i)\<rparr>"
  from Some assms(1) have c: "consistent_views env ?j" by (simp add: consistent_views_def)
  have f: "reconcile env fuel k st = follow env fuel 0 (first_step (Some ?j)) st"
    using Some by (simp add: reconcile_def getPaymentIntentById_eq)
  have "\<exists>r. first_step (Some ?j) \<in> {Finished r, FollowTx ?j, FollowAuth ?j}" by (auto simp: first_step_def)
  then consider r where "first_step (Some ?j) = Finished r" | "first_step (Some ?j) = FollowTx ?j"
    | "first_step (Some ?j) = FollowAuth ?j" by blast
  then show ?thesis
    unfolding f using follow_finishes(2,3) [OF c, of fuel 0 st] assms(2) by cases auto
qed

theorem reconcile_returns_witness:
  "\<exists>r. fst (reconcile (sample_env [paid_provider ''0x20'', paid_provider ''0x30''] 5000) 3 ''pi1'' submitted_store) = Some r"
proof (rule reconcile_returns)
  have "mr_unanimousValue (findAuthorizationUsedEvent (\<lambda>_. ''0xk'') sample_checker [paid_provider ''0x20'', paid_provider ''0x30'']
      ''0xcc'' ''0xaa'' ''0x01'' 0 None 5000) = None"
    "sr_event (scanAuthorizationUsed (\<lambda>_. ''0xk'') sample_checker [paid_provider ''0x20'', paid_provider ''0x30'']
      ''0xcc'' ''0xaa'' ''0x01'' 0 5000) = None" by code_simp+
  then show "\<forall>i. mem_intent submitted_store ''pi1'' = Some i \<longrightarrow>
      consistent_views (sample_env [paid_provider ''0x20'', paid_provider ''0x30''] 5000) i"
    by (simp add: submitted_store_intent consistent_views_def sample_env_def sample_intent_def)
qed simp

section \<open>A head that does not parse defeats the confirmation gate\<close>

text \<open>
  One provider answers \<open>eth_blockNumber\<close> with text that is not a number. Its confirmations are
  NaN, so is the minimum, and \<open>NaN < 12\<close> is false: the intent is declared SETTLED on a
  transaction in the newest block, with \<open>finalityReached\<close> false in its own evidence.
\<close>

lemma unparsable_head_skips_finality:
  "st_of (snd (reconcile (sample_env [paid_provider ''0x1'', paid_provider []] 5000) 3 ''pi1'' submitted_store)) ''pi1'' = Some St_SETTLED"
  "Option.bind (getSettledBundle (snd (reconcile (sample_env [paid_provider ''0x1'', paid_provider []] 5000) 3 ''pi1'' submitted_store)) ''pi1'')
     (\<lambda>b. Some (seb_finalityReached b)) = Some False"
  by code_simp+

end
