(* ===== verification/SettlementFeedback.thy ===== *)
theory SettlementFeedback
  imports OperationFsm Reconciliation
begin

text \<open>
  \<^verbatim>\<open>zeus-secretariat/src/core/settlement-feedback-service.ts\<close>: a reconciliation outcome drives the
  durable operation along the state machine. The loop over the plan is \<open>drive_plan\<close>; this
  theory supplies its two steps and interprets the \<open>fsm_driver\<close> contract on them.

  The service mutates the object the store hands out and saves it only when a transition was
  taken. A store that copies, as the Postgres one does, then keeps nothing of a refused plan;
  that is the reading modelled here.
\<close>

section \<open>The plan\<close>

fun planSettlementTransitions :: "ReconStatus \<Rightarrow> OperationStatus list option" where
  "planSettlementTransitions RS_SETTLED = Some [Op_SETTLED]"
| "planSettlementTransitions RS_NOT_SETTLED = Some [Op_SETTLEMENT_FAILED, Op_FAILED]"
| "planSettlementTransitions RS_UNRESOLVED_MANUAL = Some [Op_UNRESOLVABLE]"
| "planSettlementTransitions RS_INCIDENT = Some [Op_UNRESOLVABLE]"
| "planSettlementTransitions RS_RECONCILING = None"

fun recon_status_name :: "ReconStatus \<Rightarrow> string" where
  "recon_status_name RS_SETTLED = ''SETTLED''"
| "recon_status_name RS_NOT_SETTLED = ''NOT_SETTLED''"
| "recon_status_name RS_RECONCILING = ''RECONCILING''"
| "recon_status_name RS_UNRESOLVED_MANUAL = ''UNRESOLVED_MANUAL''"
| "recon_status_name RS_INCIDENT = ''INCIDENT''"

section \<open>The marker of a standard paid call\<close>

definition STANDARD_PAID_CALL_MARKER :: string where
  "STANDARD_PAID_CALL_MARKER = ''STANDARD_PAID_CALL''"

definition isStandardPaidCallRecord :: "json \<Rightarrow> bool" where
  "isStandardPaidCallRecord v = (case v of JObj _ \<Rightarrow> json_field v ''kind'' = JStr STANDARD_PAID_CALL_MARKER | _ \<Rightarrow> False)"

text \<open>The transport writes the marker itself, with numbers in its number fields.\<close>

definition num_field :: "json \<Rightarrow> string \<Rightarrow> int" where
  "num_field v k = (case json_field v k of JNum n \<Rightarrow> n | _ \<Rightarrow> 0)"

type_synonym intent_reader = "string \<Rightarrow> DurablePaymentIntent option"

definition readStandardMarker :: "intent_reader option \<Rightarrow> string \<Rightarrow> json option" where
  "readStandardMarker durable paymentIntentId =
     (case durable of
        None \<Rightarrow> None
      | Some reader \<Rightarrow>
          (case reader paymentIntentId of
             None \<Rightarrow> None
           | Some i \<Rightarrow> if isStandardPaidCallRecord (pi_facilitatorResponseBody i)
                      then Some (pi_facilitatorResponseBody i) else None))"

section \<open>Steps\<close>

definition pushSettlementEvidence :: "string \<Rightarrow> json \<Rightarrow> int \<Rightarrow> Operation \<Rightarrow> Operation" where
  "pushSettlementEvidence event payload t opn = opn\<lparr>op_evidence := op_evidence opn @
     [\<lparr>ev_operationId = op_operationId opn, ev_phase = SETTLEMENT, ev_timestamp = t, ev_event = event,
       ev_payload = payload, ev_sequence = Some (length (op_evidence opn))\<rparr>]\<rparr>"

definition stamp :: "int option \<Rightarrow> int \<Rightarrow> int option" where
  "stamp old t = Some (opt_default t old)"

fun settlementSideEffects :: "OperationStatus \<Rightarrow> int \<Rightarrow> Operation \<Rightarrow> Operation" where
  "settlementSideEffects Op_SETTLED t opn = opn\<lparr>op_paymentState := Pay_SETTLED,
     op_timestamps := (op_timestamps opn)\<lparr>ts_settledAt := stamp (ts_settledAt (op_timestamps opn)) t\<rparr>\<rparr>"
| "settlementSideEffects Op_SETTLEMENT_FAILED t opn = opn\<lparr>op_paymentState := Pay_FAILED\<rparr>"
| "settlementSideEffects Op_FAILED t opn = opn\<lparr>op_paymentState := Pay_FAILED,
     op_executionState := (if op_executionState opn = Ex_CONFIRMED then Ex_CONFIRMED else Ex_FAILED),
     op_deliveryState := (if op_deliveryState opn = Del_DELIVERED then Del_DELIVERED else Del_FAILED),
     op_timestamps := (op_timestamps opn)\<lparr>ts_failedAt := stamp (ts_failedAt (op_timestamps opn)) t\<rparr>\<rparr>"
| "settlementSideEffects Op_UNRESOLVABLE t opn = opn\<lparr>op_paymentState := Pay_FAILED\<rparr>"
| "settlementSideEffects Op_EXECUTION_PENDING t opn =
     opn\<lparr>op_executionState := (if op_executionState opn = Ex_CONFIRMED then Ex_CONFIRMED else Ex_PENDING)\<rparr>"
| "settlementSideEffects Op_EXECUTION_CONFIRMED t opn = opn\<lparr>op_executionState := Ex_CONFIRMED,
     op_timestamps := (op_timestamps opn)\<lparr>ts_executionConfirmedAt := stamp (ts_executionConfirmedAt (op_timestamps opn)) t\<rparr>\<rparr>"
| "settlementSideEffects Op_EXECUTION_UNKNOWN t opn =
     opn\<lparr>op_executionState := (if op_executionState opn = Ex_CONFIRMED then Ex_CONFIRMED else Ex_UNKNOWN)\<rparr>"
| "settlementSideEffects Op_DELIVERED t opn = opn\<lparr>op_deliveryState := Del_DELIVERED,
     op_timestamps := (op_timestamps opn)\<lparr>ts_deliveredAt := stamp (ts_deliveredAt (op_timestamps opn)) t\<rparr>\<rparr>"
| "settlementSideEffects Op_SUCCESS t opn = opn\<lparr>op_deliveryState := Del_DELIVERED,
     op_timestamps := (op_timestamps opn)\<lparr>ts_completedAt := stamp (ts_completedAt (op_timestamps opn)) t\<rparr>\<rparr>"
| "settlementSideEffects _ t opn = opn"

definition opt_str :: "string option \<Rightarrow> json" where
  "opt_str s = (case s of None \<Rightarrow> JUndefined | Some x \<Rightarrow> JStr x)"

text \<open>\<open>extra\<close>, spread into the evidence payload.\<close>

definition extra_fields :: "string option option \<Rightarrow> (string \<times> json) list" where
  "extra_fields extra = (case extra of None \<Rightarrow> [] | Some pid \<Rightarrow> [(''paymentIntentId'', opt_str pid)])"

definition settlement_adv ::
    "ReconciliationOutcome \<Rightarrow> string option option \<Rightarrow> int \<Rightarrow> OperationStatus \<Rightarrow> Operation \<Rightarrow> Operation" where
  "settlement_adv outcome extra t nxt opn =
     (let from = op_currentState opn;
          opn1 = opn\<lparr>op_currentState := nxt, op_timestamps := (op_timestamps opn)\<lparr>ts_updatedAt := t\<rparr>\<rparr>;
          payload = JObj ([(''from'', JStr (op_name from)), (''to'', JStr (op_name nxt)),
                           (''outcomeStatus'', JStr (recon_status_name (ro_status outcome)))] @
                          (if ro_status outcome \<in> {RS_SETTLED, RS_NOT_SETTLED} then []
                           else [(''reason'', opt_str (ro_reason outcome))]) @ extra_fields extra)
      in pushSettlementEvidence ''STATE_TRANSITION'' payload t (settlementSideEffects nxt t opn1))"

definition settlement_skip :: "ReconciliationOutcome \<Rightarrow> int \<Rightarrow> OperationStatus \<Rightarrow> Operation \<Rightarrow> Operation" where
  "settlement_skip outcome t nxt opn = pushSettlementEvidence ''SETTLEMENT_FEEDBACK_SKIPPED''
     (JObj [(''attemptedFrom'', JStr (op_name (op_currentState opn))), (''attemptedTo'', JStr (op_name nxt)),
            (''reason'', JStr ''transition not present in VALID_TRANSITIONS''),
            (''outcomeStatus'', JStr (recon_status_name (ro_status outcome)))]) t opn"

section \<open>Completion of a standard paid call\<close>

definition standard_has_result :: "json \<Rightarrow> Operation \<Rightarrow> bool" where
  "standard_has_result marker opn = (\<not> nullish (json_field marker ''sellerBody'') \<or>
     (case op_executionEvidence opn of None \<Rightarrow> False | Some e \<Rightarrow> ee_source e = STANDARD_TRANSPORT))"

definition standard_steps :: "bool \<Rightarrow> OperationStatus list" where
  "standard_steps hasResult =
     (if hasResult then [Op_EXECUTION_PENDING, Op_EXECUTION_CONFIRMED, Op_DELIVERED, Op_SUCCESS]
      else [Op_EXECUTION_UNKNOWN, Op_RECOVERY_PENDING, Op_UNRESOLVABLE])"

definition discharge_standard :: "json \<Rightarrow> int \<Rightarrow> Operation \<Rightarrow> Operation" where
  "discharge_standard marker t opn =
     (let body = json_field marker ''sellerBody'';
          opn1 = (if nullish body then opn else opn\<lparr>op_resultData := body\<rparr>);
          opn2 = (if (case op_executionEvidence opn1 of None \<Rightarrow> True | Some e \<Rightarrow> ee_source e \<noteq> STANDARD_TRANSPORT)
                  then opn1\<lparr>op_executionEvidence := Some
                    \<lparr>ee_statusCode = num_field marker ''sellerHttpStatus'', ee_headers = None,
                     ee_body = (if nullish body then JUndefined else body), ee_timestamp = num_field marker ''capturedAt'',
                     ee_source = STANDARD_TRANSPORT, ee_rawData = JUndefined\<rparr>\<rparr>
                  else opn1);
          note_text = (if standard_has_result marker opn
             then ''paid call delivered the result '' @ mdash @ '' completing inline from the STANDARD_PAID_CALL marker''
             else ''settlement confirmed on-chain but the paid-call result was never received '' @ mdash @ '' honest UNRESOLVABLE'')
      in opn2\<lparr>op_evidence := op_evidence opn2 @
           [\<lparr>ev_operationId = op_operationId opn2, ev_phase = EXECUTION, ev_timestamp = t,
             ev_event = ''STANDARD_EXECUTION_DISCHARGED'',
             ev_payload = JObj [(''note'', JStr note_text), (''kind'', JStr STANDARD_PAID_CALL_MARKER),
                                (''sellerHttpStatus'', json_field marker ''sellerHttpStatus'')],
             ev_sequence = Some (length (op_evidence opn2))\<rparr>]\<rparr>)"

section \<open>The service\<close>

definition SETTLEMENT_TERMINAL :: "OperationStatus list" where
  "SETTLEMENT_TERMINAL = [Op_SUCCESS, Op_FAILED, Op_UNRESOLVABLE, Op_POLICY_REJECTED, Op_RECOVERED]"

definition standard_marker :: "intent_reader option \<Rightarrow> string option option \<Rightarrow> json option" where
  "standard_marker durable extra =
     (case extra of
        Some (Some pid) \<Rightarrow> if pid = [] then None else readStandardMarker durable pid
      | _ \<Rightarrow> None)"

text \<open>The plan to drive and the operation to start from, with the standard completion folded in.\<close>

definition settlement_start ::
    "intent_reader option \<Rightarrow> string option option \<Rightarrow> int \<Rightarrow> OperationStatus list \<Rightarrow> Operation \<Rightarrow>
     OperationStatus list \<times> Operation" where
  "settlement_start durable extra t plan opn =
     (if Op_SETTLED \<in> set plan
      then (case standard_marker durable extra of
              None \<Rightarrow> (plan, opn)
            | Some marker \<Rightarrow> (plan @ standard_steps (standard_has_result marker opn), discharge_standard marker t opn))
      else (plan, opn))"

definition applyOutcome ::
    "intent_reader option \<Rightarrow> string \<Rightarrow> ReconciliationOutcome \<Rightarrow> string option option \<Rightarrow> int \<Rightarrow> mem_store \<Rightarrow>
     (bool \<times> OperationStatus option) \<times> mem_store" where
  "applyOutcome durable operationId outcome extra t st =
     (case planSettlementTransitions (ro_status outcome) of
        None \<Rightarrow> ((False, None), st)
      | Some plan \<Rightarrow>
     (case getOperation st operationId of
        None \<Rightarrow> ((False, None), st)
      | Some opn \<Rightarrow>
     (if op_currentState opn \<in> set SETTLEMENT_TERMINAL then ((False, Some (op_currentState opn)), st)
      else (case settlement_start durable extra t plan opn of (steps, opn1) \<Rightarrow>
           (case drive_plan (settlement_adv outcome extra t) (settlement_skip outcome t) steps False opn1 of
              (applied, opn2) \<Rightarrow>
                ((applied, Some (op_currentState opn2)), if applied then saveOperation opn2 st else st))))))"

section \<open>The steps meet the driver's contract\<close>

lemma settlementSideEffects_frame [simp]:
  "op_currentState (settlementSideEffects s t opn) = op_currentState opn"
  "op_evidence (settlementSideEffects s t opn) = op_evidence opn"
  "op_operationId (settlementSideEffects s t opn) = op_operationId opn"
  by (cases s; simp)+

lemma pushSettlementEvidence_frame [simp]:
  "op_currentState (pushSettlementEvidence e p t opn) = op_currentState opn"
  "op_operationId (pushSettlementEvidence e p t opn) = op_operationId opn"
  by (simp_all add: pushSettlementEvidence_def)

interpretation sf: fsm_driver "settlement_adv outcome extra t" "settlement_skip outcome t"
  by unfold_locales
     (simp_all add: settlement_adv_def settlement_skip_def Let_def appends_one_def pushSettlementEvidence_def)

lemma discharge_standard_frame [simp]:
  "op_currentState (discharge_standard m t opn) = op_currentState opn"
  "op_operationId (discharge_standard m t opn) = op_operationId opn"
  by (simp_all add: discharge_standard_def Let_def)

lemma discharge_standard_appends: "appends_one opn (discharge_standard m t opn)"
  by (simp add: discharge_standard_def Let_def appends_one_def)

lemma standard_steps_cases: "standard_steps b = standard_steps True \<or> standard_steps b = standard_steps False"
  by (cases b) simp_all

lemma settlement_start_frame:
  assumes "settlement_start durable extra t plan opn = (steps, opn1)"
  shows "op_currentState opn1 = op_currentState opn" "op_operationId opn1 = op_operationId opn"
    "evidence_sequenced opn \<Longrightarrow> evidence_sequenced opn1"
    "steps = plan \<or> Op_SETTLED \<in> set plan \<and> (\<exists>b. steps = plan @ standard_steps b)"
  using assms
  by (auto simp: settlement_start_def split: option.splits if_splits
      intro: appends_one_sequenced [OF discharge_standard_appends])

lemma settlement_start_steps:
  "fst (settlement_start durable extra t plan opn) = fst (settlement_start durable extra t' plan opn)"
  by (auto simp: settlement_start_def split: option.splits)

lemma plan_chain:
  "planSettlementTransitions st = Some plan \<Longrightarrow> plan \<noteq> [] \<and> fsm_chain plan \<and>
   (Op_SETTLED \<in> set plan \<longrightarrow> plan = [Op_SETTLED]) \<and> (Op_SETTLED \<notin> set plan \<longrightarrow> last plan \<in> set SETTLEMENT_TERMINAL)"
  by (cases st) (auto simp: isValidTransition_def SETTLEMENT_TERMINAL_def)

lemma standard_steps_chain:
  "fsm_chain ([Op_SETTLED] @ standard_steps b) \<and> last ([Op_SETTLED] @ standard_steps b) \<in> set SETTLEMENT_TERMINAL"
  by (cases b) (simp_all add: standard_steps_def isValidTransition_def SETTLEMENT_TERMINAL_def)

lemma start_chain:
  assumes "planSettlementTransitions s = Some plan" "settlement_start durable extra t plan opn = (steps, opn1)"
  shows "steps \<noteq> [] \<and> fsm_chain steps \<and> (steps = [Op_SETTLED] \<or> last steps \<in> set SETTLEMENT_TERMINAL)"
  using plan_chain [OF assms(1)] settlement_start_frame(4) [OF assms(2)] standard_steps_chain by fastforce

section \<open>Properties\<close>

definition sample_policy :: PaymentPolicy where
  "sample_policy = \<lparr>pol_maxPrice = ''1000'', pol_allowedNetworks = [''base''], pol_allowedAssets = [''USDC''],
     pol_allowedSellers = None, pol_authorizationMode = PolicyBound, pol_transport = None\<rparr>"

definition sample_operation :: "OperationStatus \<Rightarrow> Operation" where
  "sample_operation s = \<lparr>op_operationId = ''op1'', op_requestId = ''r1'', op_clientId = None, op_target = ''https://s'',
     op_method = ''GET'', op_requestPayload = JUndefined, op_paymentPolicy = sample_policy, op_sellerCapability = None,
     op_paymentState = Pay_SUBMITTED, op_executionState = Ex_NOT_STARTED, op_deliveryState = Del_NOT_STARTED,
     op_currentState = s,
     op_timestamps = \<lparr>ts_createdAt = 0, ts_updatedAt = 0, ts_discoveryStartedAt = None, ts_paymentRequiredAt = None,
       ts_authorizedAt = None, ts_paymentSubmittedAt = None, ts_settledAt = None, ts_executionConfirmedAt = None,
       ts_deliveredAt = None, ts_completedAt = None, ts_failedAt = None\<rparr>,
     op_evidence = [], op_resultData = JUndefined, op_settlementProof = None, op_executionEvidence = None, op_error = None\<rparr>"

definition op_store :: "OperationStatus \<Rightarrow> mem_store" where
  "op_store s = saveOperation (sample_operation s) empty_store"

definition sample_outcome :: "ReconStatus \<Rightarrow> ReconciliationOutcome" where
  "sample_outcome s = \<lparr>ro_status = s, ro_reason = None, ro_nextProbeMs = None, ro_evidence = None\<rparr>"

lemma getOperation_save [simp, store_simps]:
  "getOperation (saveOperation opn st) k = (if k = op_operationId opn then Some opn else getOperation st k)"
  by (simp add: getOperation_def saveOperation_def)

lemma op_store_get: "getOperation (op_store s) k = (if k = ''op1'' then Some (sample_operation s) else None)"
  by (simp add: op_store_def sample_operation_def empty_store_def getOperation_def saveOperation_def)

lemma sample_operation_simps [simp]:
  "op_currentState (sample_operation s) = s" "op_operationId (sample_operation s) = ''op1''"
  "evidence_sequenced (sample_operation s)"
  by (simp_all add: sample_operation_def evidence_sequenced_def)

text \<open>
  Settlement feedback stays on the state machine: applying any reconciliation outcome
  moves the operation along a (possibly empty) run of valid transitions, reports a change exactly
  when that run is non-empty, keeps the evidence gaplessly numbered, leaves every other operation
  alone, and writes nothing at all when nothing was applied.
\<close>

theorem settlement_feedback_follows_fsm:
  assumes "getOperation st opId = Some opn" "op_operationId opn = opId" "evidence_sequenced opn"
    and "applyOutcome durable opId outcome extra t st = ((applied, cur), st')"
  shows "\<exists>opn' ts. getOperation st' opId = Some opn' \<and> fsm_run (op_currentState opn) ts \<and>
     op_currentState opn' = last (op_currentState opn # ts) \<and> (applied \<longleftrightarrow> ts \<noteq> []) \<and> evidence_sequenced opn' \<and>
     (\<forall>k. k \<noteq> opId \<longrightarrow> getOperation st' k = getOperation st k) \<and> (\<not> applied \<longrightarrow> st' = st)"
proof (cases applied)
  case False
  with assms(4) have "st' = st" by (auto simp: applyOutcome_def split: option.splits if_splits prod.splits)
  with False assms show ?thesis by (intro exI [of _ opn] exI [of _ "[]"]) simp
next
  case True
  with assms(1,4) obtain plan steps opn1 opn2 where
    s: "settlement_start durable extra t plan opn = (steps, opn1)"
    and d: "drive_plan (settlement_adv outcome extra t) (settlement_skip outcome t) steps False opn1 = (True, opn2)"
    and st': "st' = saveOperation opn2 st"
    by (auto simp: applyOutcome_def split: option.splits if_splits prod.splits)
  note fr = settlement_start_frame [OF s]
  from sf.drive_run [OF d] obtain ts where ts: "fsm_run (op_currentState opn) ts" "ts \<noteq> []"
    "op_currentState opn2 = last (op_currentState opn # ts)" by (auto simp: fr(1))
  have "op_operationId opn2 = opId"
    using sf.drive_id [OF d] fr(2) assms(2) by simp
  moreover have "evidence_sequenced opn2" using sf.drive_sequenced [OF d] fr(3) assms(3) by simp
  ultimately show ?thesis using ts True by (intro exI [of _ opn2] exI [of _ ts]) (simp add: st')
qed

theorem settlement_feedback_follows_fsm_witness:
  "\<exists>opn' ts. getOperation (snd (applyOutcome None ''op1'' (sample_outcome RS_SETTLED) None 5 (op_store Op_SETTLEMENT_PENDING))) ''op1'' = Some opn' \<and>
     fsm_run Op_SETTLEMENT_PENDING ts \<and> op_currentState opn' = last (Op_SETTLEMENT_PENDING # ts)"
proof -
  obtain applied cur st' where run: "applyOutcome None ''op1'' (sample_outcome RS_SETTLED) None 5 (op_store Op_SETTLEMENT_PENDING) = ((applied, cur), st')"
    by (metis prod.collapse)
  from settlement_feedback_follows_fsm [OF _ _ _ run, of "sample_operation Op_SETTLEMENT_PENDING"] show ?thesis
    by (auto simp: op_store_get run)
qed

text \<open>
  Every settlement verdict closes an open settlement: from a submitted, pending or
  unknown settlement, SETTLED leads to SETTLED (and, for a standard paid call, on to SUCCESS with
  its result or UNRESOLVABLE without it), NOT_SETTLED to FAILED, and a manual or incident verdict
  to UNRESOLVABLE, never FAILED; the change is reported and saved.
\<close>

theorem settlement_verdict_closes_operation:
  assumes "getOperation st opId = Some opn" "settlement_open (op_currentState opn)"
    and "planSettlementTransitions (ro_status outcome) = Some plan"
  shows "\<exists>opn'. applyOutcome durable opId outcome extra t st =
      ((True, Some (op_currentState opn')), saveOperation opn' st) \<and>
      op_currentState opn' =
        (if ro_status outcome = RS_SETTLED
         then (case standard_marker durable extra of
                 None \<Rightarrow> Op_SETTLED
               | Some m \<Rightarrow> if standard_has_result m opn then Op_SUCCESS else Op_UNRESOLVABLE)
         else if ro_status outcome = RS_NOT_SETTLED then Op_FAILED else Op_UNRESOLVABLE)"
proof -
  obtain steps opn1 where s: "settlement_start durable extra t plan opn = (steps, opn1)" by fastforce
  note fr = settlement_start_frame [OF s]
  have steps: "steps = (if ro_status outcome = RS_SETTLED
      then (case standard_marker durable extra of
              None \<Rightarrow> [Op_SETTLED] | Some m \<Rightarrow> Op_SETTLED # standard_steps (standard_has_result m opn))
      else plan)"
    using s assms(3) by (cases "ro_status outcome") (auto simp: settlement_start_def split: option.splits if_splits)
  have run: "fsm_run (op_currentState opn1) steps"
  proof -
    have "isValidTransition (op_currentState opn) Op_SETTLED" "isValidTransition (op_currentState opn) Op_SETTLEMENT_FAILED"
      "isValidTransition (op_currentState opn) Op_UNRESOLVABLE"
      using assms(2) by (auto simp: settlement_open_def isValidTransition_def)
    moreover have "fsm_run Op_SETTLED (standard_steps b)" for b
      by (cases b) (simp_all add: standard_steps_def isValidTransition_def)
    moreover have "isValidTransition Op_SETTLEMENT_FAILED Op_FAILED" by (simp add: isValidTransition_def)
    ultimately show ?thesis
      using assms(3) unfolding fr(1) steps by (cases "ro_status outcome") (auto split: option.splits)
  qed
  have nt: "op_currentState opn \<notin> set SETTLEMENT_TERMINAL"
    using assms(2) by (auto simp: settlement_open_def SETTLEMENT_TERMINAL_def)
  have "steps \<noteq> []" using start_chain [OF assms(3) s] by blast
  with sf.drive_follows [OF run, of outcome extra t False] obtain opn' where
    d: "drive_plan (settlement_adv outcome extra t) (settlement_skip outcome t) steps False opn1 = (True, opn')"
    "op_currentState opn' = last steps" by auto
  have "last steps = (if ro_status outcome = RS_SETTLED
         then (case standard_marker durable extra of
                 None \<Rightarrow> Op_SETTLED
               | Some m \<Rightarrow> if standard_has_result m opn then Op_SUCCESS else Op_UNRESOLVABLE)
         else if ro_status outcome = RS_NOT_SETTLED then Op_FAILED else Op_UNRESOLVABLE)"
    using assms(3) unfolding steps by (cases "ro_status outcome") (auto simp: standard_steps_def split: option.splits)
  with d assms(1,3) nt s show ?thesis by (intro exI [of _ opn']) (simp add: applyOutcome_def)
qed

theorem settlement_verdict_closes_operation_witness:
  "fst (applyOutcome None ''op1'' (sample_outcome RS_INCIDENT) None 5 (op_store Op_SETTLEMENT_UNKNOWN)) = (True, Some Op_UNRESOLVABLE)"
  using settlement_verdict_closes_operation [of "op_store Op_SETTLEMENT_UNKNOWN" "''op1''" "sample_operation Op_SETTLEMENT_UNKNOWN"
      "sample_outcome RS_INCIDENT" "[Op_UNRESOLVABLE]" None None 5]
  by (auto simp: op_store_get settlement_open_def sample_outcome_def)

text \<open>
  Settlement feedback is idempotent: delivering the same outcome again, at any later
  time, reports no change and leaves the store as the first delivery left it.
\<close>

theorem settlement_feedback_idempotent:
  assumes "getOperation st opId = Some opn" "op_operationId opn = opId"
  shows "fst (fst (applyOutcome durable opId outcome extra t' (snd (applyOutcome durable opId outcome extra t st)))) = False \<and>
         snd (applyOutcome durable opId outcome extra t' (snd (applyOutcome durable opId outcome extra t st))) =
         snd (applyOutcome durable opId outcome extra t st)"
proof (cases "planSettlementTransitions (ro_status outcome)")
  case None
  then show ?thesis by (simp add: applyOutcome_def)
next
  case (Some plan)
  have again: "fst (fst (applyOutcome durable opId outcome extra t' s1)) = False \<Longrightarrow>
    snd (applyOutcome durable opId outcome extra t' s1) = s1" for s1
    by (auto simp: applyOutcome_def split: option.splits if_splits prod.splits)
  have flag: "fst (fst (applyOutcome durable opId outcome extra u s1)) \<longleftrightarrow>
      op_currentState o1 \<notin> set SETTLEMENT_TERMINAL \<and>
      takes_step (fst (settlement_start durable extra u plan o1)) (op_currentState o1)"
    if "getOperation s1 opId = Some o1" for s1 o1 u
  proof -
    obtain steps o2 where s: "settlement_start durable extra u plan o1 = (steps, o2)" by fastforce
    from sf.drive_flag [of outcome extra u steps False o2] settlement_start_frame(1) [OF s] s that Some show ?thesis
      by (auto simp: applyOutcome_def split: prod.splits)
  qed
  show ?thesis
  proof (cases "fst (fst (applyOutcome durable opId outcome extra t st))")
    case False
    then have st1: "snd (applyOutcome durable opId outcome extra t st) = st"
      by (auto simp: applyOutcome_def split: option.splits if_splits prod.splits)
    from False flag [OF assms(1), of t] flag [OF assms(1), of t'] settlement_start_steps
    have "\<not> fst (fst (applyOutcome durable opId outcome extra t' st))" by metis
    with again [of st] st1 show ?thesis by simp
  next
    case True
    obtain steps opn1 where s: "settlement_start durable extra t plan opn = (steps, opn1)" by fastforce
    obtain b opn2 where d: "drive_plan (settlement_adv outcome extra t) (settlement_skip outcome t) steps False opn1 = (b, opn2)"
      by fastforce
    from True assms(1) Some s d have b: "b" and st1: "snd (applyOutcome durable opId outcome extra t st) = saveOperation opn2 st"
      by (auto simp: applyOutcome_def split: if_splits)
    note ch = start_chain [OF Some s]
    from sf.drive_chain [OF _ d [unfolded b [THEN eqTrueI]]] ch have lst: "op_currentState opn2 = last steps" by blast
    have get: "getOperation (saveOperation opn2 st) opId = Some opn2"
      using sf.drive_id [OF d] settlement_start_frame(2) [OF s] assms(2) by simp
    have "\<not> fst (fst (applyOutcome durable opId outcome extra t' (saveOperation opn2 st)))"
    proof (cases "last steps \<in> set SETTLEMENT_TERMINAL")
      case True
      then show ?thesis using flag [OF get] lst by simp
    next
      case False
      with ch have st1: "steps = [Op_SETTLED]" by blast
      have "fst (settlement_start durable extra t' plan opn2) = [Op_SETTLED]"
        using s st1 by (auto simp: settlement_start_def standard_steps_def split: option.splits if_splits)
      then show ?thesis using flag [OF get] lst st1 by simp
    qed
    with again [of "saveOperation opn2 st"] show ?thesis unfolding st1 by simp
  qed
qed

theorem settlement_feedback_idempotent_witness:
  "fst (fst (applyOutcome None ''op1'' (sample_outcome RS_NOT_SETTLED) None 9
     (snd (applyOutcome None ''op1'' (sample_outcome RS_NOT_SETTLED) None 5 (op_store Op_PAYMENT_SUBMITTED))))) = False"
  using settlement_feedback_idempotent [of "op_store Op_PAYMENT_SUBMITTED" "''op1''" "sample_operation Op_PAYMENT_SUBMITTED"]
  by (simp add: op_store_get)

text \<open>A refused plan is not recorded: the skip record is pushed on the object and never saved.\<close>

lemma refused_feedback_is_not_saved:
  assumes "getOperation st opId = Some opn" "op_currentState opn = Op_EXECUTION_UNKNOWN" "ro_status outcome = RS_SETTLED"
  shows "applyOutcome None opId outcome extra t st = ((False, Some Op_EXECUTION_UNKNOWN), st)"
  using assms by (auto simp: applyOutcome_def settlement_start_def standard_marker_def readStandardMarker_def
      SETTLEMENT_TERMINAL_def isValidTransition_def settlement_skip_def split: option.splits)

end
