(* ===== verification/ExecStore.thy ===== *)
theory ExecStore
  imports CoreTypes
begin

text \<open>
  The execution store of \<^verbatim>\<open>zeus-secretariat/src/core/post-settlement-engine.ts\<close>: execution attempts,
  recovery jobs, and the fencing generation every claim of a job increments. One definition per
  method of \<open>InMemoryExecutionStore\<close>; a fenced method answers whether its write took place.
  \<open>Partial<\<dots>>\<close> arguments are records of the fields the callers pass.
\<close>

section \<open>Attempts and jobs\<close>

text \<open>
  A capability arrives in job metadata of type \<open>unknown\<close>, so a value outside the declared
  union is possible and the code has a branch for it: \<open>XC_other\<close>.
\<close>

datatype ExecutionCapability = XC_EXECUTION_IDEMPOTENT | XC_RESULT_RETRIEVAL | XC_NONE | XC_other string

fun capability_name :: "ExecutionCapability \<Rightarrow> string" where
  "capability_name XC_EXECUTION_IDEMPOTENT = ''EXECUTION_IDEMPOTENT''"
| "capability_name XC_RESULT_RETRIEVAL = ''RESULT_RETRIEVAL''"
| "capability_name XC_NONE = ''NONE''"
| "capability_name (XC_other s) = s"

datatype ExecutionObligationStatus =
  Ob_PENDING | Ob_ATTEMPTED | Ob_SUCCESS | Ob_HTTP_FAILURE | Ob_DELIVERY_UNKNOWN | Ob_UNRESOLVABLE

datatype RecoveryJobType = Jt_EXECUTION | Jt_RETRY | Jt_RETRIEVAL | Jt_OBSERVATION

datatype RecoveryJobStatus = Jb_PENDING | Jb_RUNNING | Jb_COMPLETED | Jb_FAILED | Jb_UNRESOLVABLE

record ExecutionAttempt =
  xa_attemptId :: string
  xa_operationId :: string
  xa_executionId :: string
  xa_attemptNumber :: nat
  xa_status :: ExecutionObligationStatus
  xa_requestUrl :: "string option"
  xa_requestMethod :: "string option"
  xa_requestBody :: json
  xa_responseStatusCode :: "int option"
  xa_responseBody :: json
  xa_responseHeaders :: "(string \<times> string) list option"
  xa_errorReason :: "string option"
  xa_idempotencyKey :: "string option"
  xa_startedAt :: "int option"
  xa_completedAt :: "int option"
  xa_createdAt :: int

record JobMetadata =
  md_capability :: "ExecutionCapability option"
  md_requestBody :: json
  md_originalJobId :: "string option"
  md_resultRetrievalEndpoint :: "string option"
  md_linkedAttempt :: "(string \<times> ExecutionObligationStatus) option"

record RecoveryJob =
  xj_jobId :: string
  xj_operationId :: string
  xj_jobType :: RecoveryJobType
  xj_status :: RecoveryJobStatus
  xj_priority :: nat
  xj_maxAttempts :: nat
  xj_currentAttempt :: nat
  xj_lockedBy :: "string option"
  xj_lockedUntil :: "int option"
  xj_lastError :: "string option"
  xj_metadata :: "JobMetadata option"
  xj_createdAt :: int
  xj_updatedAt :: int

record AttemptExtra =
  ax_responseStatusCode :: "int option"
  ax_responseBody :: "json option"
  ax_responseHeaders :: "(string \<times> string) list option"
  ax_errorReason :: "string option"
  ax_completedAt :: "int option"

definition no_extra :: AttemptExtra where
  "no_extra = \<lparr>ax_responseStatusCode = None, ax_responseBody = None, ax_responseHeaders = None,
     ax_errorReason = None, ax_completedAt = None\<rparr>"

definition assign_attempt :: "AttemptExtra \<Rightarrow> ExecutionAttempt \<Rightarrow> ExecutionAttempt" where
  "assign_attempt x a = a\<lparr>xa_responseStatusCode := or_else (ax_responseStatusCode x) (xa_responseStatusCode a),
     xa_responseBody := opt_default (xa_responseBody a) (ax_responseBody x),
     xa_responseHeaders := or_else (ax_responseHeaders x) (xa_responseHeaders a),
     xa_errorReason := or_else (ax_errorReason x) (xa_errorReason a),
     xa_completedAt := or_else (ax_completedAt x) (xa_completedAt a)\<rparr>"

record JobExtra =
  jx_lastError :: "string option"
  jx_unlock :: bool

definition assign_job :: "JobExtra \<Rightarrow> RecoveryJob \<Rightarrow> RecoveryJob" where
  "assign_job x j = j\<lparr>xj_lastError := or_else (jx_lastError x) (xj_lastError j),
     xj_lockedBy := (if jx_unlock x then None else xj_lockedBy j),
     xj_lockedUntil := (if jx_unlock x then None else xj_lockedUntil j)\<rparr>"

definition plain :: JobExtra where "plain = \<lparr>jx_lastError = None, jx_unlock = False\<rparr>"

definition because :: "string \<Rightarrow> JobExtra" where "because e = \<lparr>jx_lastError = Some e, jx_unlock = False\<rparr>"

section \<open>The store\<close>

record exec_store =
  xs_attempts :: "(string, ExecutionAttempt) jsmap"
  xs_jobs :: "(string, RecoveryJob) jsmap"
  xs_attemptsByOp :: "(string, string list) jsmap"

definition empty_exec :: exec_store where
  "empty_exec = \<lparr>xs_attempts = [], xs_jobs = [], xs_attemptsByOp = []\<rparr>"

definition put_attempt :: "ExecutionAttempt \<Rightarrow> exec_store \<Rightarrow> exec_store" where
  "put_attempt a xs = xs\<lparr>xs_attempts := js_set (xa_attemptId a) a (xs_attempts xs)\<rparr>"

definition put_job :: "RecoveryJob \<Rightarrow> exec_store \<Rightarrow> exec_store" where
  "put_job j xs = xs\<lparr>xs_jobs := js_set (xj_jobId j) j (xs_jobs xs)\<rparr>"

definition index_attempt :: "string \<Rightarrow> string \<Rightarrow> exec_store \<Rightarrow> exec_store" where
  "index_attempt opId attemptId xs =
     (let list = opt_default [] (js_get (xs_attemptsByOp xs) opId)
      in xs\<lparr>xs_attemptsByOp := js_set opId (if attemptId \<in> set list then list else list @ [attemptId]) (xs_attemptsByOp xs)\<rparr>)"

definition saveAttempt :: "ExecutionAttempt \<Rightarrow> exec_store \<Rightarrow> exec_store" where
  "saveAttempt a xs = index_attempt (xa_operationId a) (xa_attemptId a) (put_attempt a xs)"

definition saveJob :: "RecoveryJob \<Rightarrow> exec_store \<Rightarrow> exec_store" where
  "saveJob j xs = put_job j xs"

definition saveAttemptWithJob :: "ExecutionAttempt \<Rightarrow> RecoveryJob \<Rightarrow> exec_store \<Rightarrow> exec_store" where
  "saveAttemptWithJob a j xs = put_job j (index_attempt (xa_operationId a) (xa_attemptId a) (put_attempt a xs))"

definition getAttemptById :: "exec_store \<Rightarrow> string \<Rightarrow> ExecutionAttempt option" where
  "getAttemptById xs attemptId = js_get (xs_attempts xs) attemptId"

definition getAttemptsByOperation :: "exec_store \<Rightarrow> string \<Rightarrow> ExecutionAttempt list" where
  "getAttemptsByOperation xs opId =
     List.map_filter (js_get (xs_attempts xs)) (opt_default [] (js_get (xs_attemptsByOp xs) opId))"

definition getJob :: "exec_store \<Rightarrow> string \<Rightarrow> RecoveryJob option" where
  "getJob xs jobId = js_get (xs_jobs xs) jobId"

text \<open>A lease that has run out; a lock time of 0 is falsy.\<close>

definition lease_expired :: "int \<Rightarrow> RecoveryJob \<Rightarrow> bool" where
  "lease_expired t j = (xj_status j = Jb_RUNNING \<and>
     (case xj_lockedUntil j of None \<Rightarrow> False | Some u \<Rightarrow> u \<noteq> 0 \<and> u < t))"

definition getPendingJobs :: "int \<Rightarrow> exec_store \<Rightarrow> RecoveryJob list" where
  "getPendingJobs t xs = filter (\<lambda>j. xj_status j = Jb_PENDING \<or> lease_expired t j) (js_values (xs_jobs xs))"

definition claimJob :: "string \<Rightarrow> string \<Rightarrow> int \<Rightarrow> int \<Rightarrow> exec_store \<Rightarrow> nat option \<times> exec_store" where
  "claimJob jobId workerId lockDurationMs t xs =
     (case getJob xs jobId of
        None \<Rightarrow> (None, xs)
      | Some j \<Rightarrow>
          (if xj_status j \<noteq> Jb_PENDING \<and> \<not> lease_expired t j then (None, xs)
           else (let j' = j\<lparr>xj_status := Jb_RUNNING, xj_lockedBy := Some workerId,
                            xj_lockedUntil := Some (t + lockDurationMs),
                            xj_currentAttempt := Suc (xj_currentAttempt j), xj_updatedAt := t\<rparr>
                 in (Some (xj_currentAttempt j'), xs\<lparr>xs_jobs := js_set jobId j' (xs_jobs xs)\<rparr>))))"

section \<open>Fenced writes\<close>

definition TERMINAL_OBLIGATION :: "ExecutionObligationStatus list" where
  "TERMINAL_OBLIGATION = [Ob_SUCCESS, Ob_HTTP_FAILURE, Ob_DELIVERY_UNKNOWN, Ob_UNRESOLVABLE]"

definition TERMINAL_JOB :: "RecoveryJobStatus list" where
  "TERMINAL_JOB = [Jb_COMPLETED, Jb_FAILED, Jb_UNRESOLVABLE]"

text \<open>The job whose generation fences a write to an attempt: the named one, else the operation's first.\<close>

definition fencing_job :: "exec_store \<Rightarrow> ExecutionAttempt \<Rightarrow> string option \<Rightarrow> RecoveryJob option" where
  "fencing_job xs a jobId =
     (case jobId of
        Some k \<Rightarrow> if k = [] then find (\<lambda>j. xj_operationId j = xa_operationId a) (js_values (xs_jobs xs)) else getJob xs k
      | None \<Rightarrow> find (\<lambda>j. xj_operationId j = xa_operationId a) (js_values (xs_jobs xs)))"

definition fence_ok :: "exec_store \<Rightarrow> ExecutionAttempt \<Rightarrow> string option \<Rightarrow> nat \<Rightarrow> bool" where
  "fence_ok xs a jobId g =
     (case fencing_job xs a jobId of
        None \<Rightarrow> False
      | Some j \<Rightarrow> xj_operationId j = xa_operationId a \<and> xj_currentAttempt j = g)"

definition set_attempt :: "string \<Rightarrow> ExecutionAttempt \<Rightarrow> exec_store \<Rightarrow> exec_store" where
  "set_attempt k a xs = xs\<lparr>xs_attempts := js_set k a (xs_attempts xs)\<rparr>"

definition set_job :: "string \<Rightarrow> RecoveryJob \<Rightarrow> exec_store \<Rightarrow> exec_store" where
  "set_job k j xs = xs\<lparr>xs_jobs := js_set k j (xs_jobs xs)\<rparr>"

definition updateAttemptStatus ::
    "string \<Rightarrow> ExecutionObligationStatus \<Rightarrow> nat \<Rightarrow> AttemptExtra \<Rightarrow> string option \<Rightarrow> exec_store \<Rightarrow> bool \<times> exec_store" where
  "updateAttemptStatus attemptId status g extra jobId xs =
     (case getAttemptById xs attemptId of
        None \<Rightarrow> (False, xs)
      | Some a \<Rightarrow>
          (if \<not> fence_ok xs a jobId g then (False, xs)
           else if xa_status a \<in> set TERMINAL_OBLIGATION then (False, xs)
           else (True, set_attempt attemptId (assign_attempt extra (a\<lparr>xa_status := status\<rparr>)) xs)))"

definition markAttemptInProgress :: "string \<Rightarrow> nat \<Rightarrow> string option \<Rightarrow> int \<Rightarrow> exec_store \<Rightarrow> bool \<times> exec_store" where
  "markAttemptInProgress attemptId g jobId t xs =
     (case getAttemptById xs attemptId of
        None \<Rightarrow> (False, xs)
      | Some a \<Rightarrow>
          (if xa_status a \<noteq> Ob_PENDING then (False, xs)
           else if \<not> fence_ok xs a jobId g then (False, xs)
           else (True, set_attempt attemptId (a\<lparr>xa_status := Ob_ATTEMPTED, xa_startedAt := Some t\<rparr>) xs)))"

definition owns :: "exec_store \<Rightarrow> string \<Rightarrow> string \<Rightarrow> nat \<Rightarrow> (RecoveryJob \<times> ExecutionAttempt) option" where
  "owns xs jobId attemptId g =
     (case (getJob xs jobId, getAttemptById xs attemptId) of
        (Some j, Some a) \<Rightarrow>
          (if xj_status j = Jb_RUNNING \<and> xj_currentAttempt j = g \<and> xa_operationId a = xj_operationId j
           then Some (j, a) else None)
      | _ \<Rightarrow> None)"

definition resolveRetrievalSuccessIfOwner ::
    "string \<Rightarrow> string \<Rightarrow> nat \<Rightarrow> AttemptExtra \<Rightarrow> int \<Rightarrow> exec_store \<Rightarrow> bool \<times> exec_store" where
  "resolveRetrievalSuccessIfOwner jobId attemptId g extra t xs =
     (case owns xs jobId attemptId g of
        None \<Rightarrow> (False, xs)
      | Some (j, a) \<Rightarrow>
          (if xa_status a \<noteq> Ob_DELIVERY_UNKNOWN then (False, xs)
           else (True, set_job jobId (j\<lparr>xj_status := Jb_COMPLETED, xj_lockedBy := None, xj_lockedUntil := None, xj_updatedAt := t\<rparr>)
                   (set_attempt attemptId (assign_attempt extra (a\<lparr>xa_status := Ob_SUCCESS\<rparr>)) xs))))"

definition demote_attempted :: "string \<Rightarrow> ExecutionAttempt \<Rightarrow> ExecutionAttempt" where
  "demote_attempted reason a = (if xa_status a = Ob_ATTEMPTED
     then a\<lparr>xa_status := Ob_DELIVERY_UNKNOWN, xa_errorReason := Some reason\<rparr> else a)"

definition createRecoveryAttemptIfOwner ::
    "string \<Rightarrow> string \<Rightarrow> nat \<Rightarrow> ExecutionAttempt \<Rightarrow> string \<Rightarrow> int \<Rightarrow> exec_store \<Rightarrow> bool \<times> exec_store" where
  "createRecoveryAttemptIfOwner jobId originalId g retry reason t xs =
     (case owns xs jobId originalId g of
        None \<Rightarrow> (False, xs)
      | Some (j, a) \<Rightarrow>
          (if xa_status a \<noteq> Ob_ATTEMPTED \<and> xa_status a \<noteq> Ob_DELIVERY_UNKNOWN then (False, xs)
           else (True, set_job jobId (j\<lparr>xj_status := Jb_PENDING, xj_lockedBy := None, xj_lockedUntil := None, xj_updatedAt := t\<rparr>)
                   (index_attempt (xa_operationId retry) (xa_attemptId retry)
                     (set_attempt (xa_attemptId retry) retry
                       (set_attempt originalId (demote_attempted reason a) xs))))))"

definition createRecoveryJobIfOwner ::
    "string \<Rightarrow> string \<Rightarrow> nat \<Rightarrow> RecoveryJob \<Rightarrow> string \<Rightarrow> int \<Rightarrow> exec_store \<Rightarrow> bool \<times> exec_store" where
  "createRecoveryJobIfOwner jobId originalId g retrievalJob reason t xs =
     (case owns xs jobId originalId g of
        None \<Rightarrow> (False, xs)
      | Some (j, a) \<Rightarrow>
          (if xa_status a \<noteq> Ob_ATTEMPTED \<and> xa_status a \<noteq> Ob_DELIVERY_UNKNOWN then (False, xs)
           else (True, set_job jobId (j\<lparr>xj_status := Jb_COMPLETED, xj_lastError := Some reason, xj_lockedBy := None,
                                     xj_lockedUntil := None, xj_updatedAt := t\<rparr>)
                   (set_job (xj_jobId retrievalJob) retrievalJob
                     (set_attempt originalId (demote_attempted reason a) xs)))))"

definition resolveAttemptUnresolvableIfOwner ::
    "string \<Rightarrow> string \<Rightarrow> nat \<Rightarrow> string \<Rightarrow> string \<Rightarrow> int \<Rightarrow> exec_store \<Rightarrow> bool \<times> exec_store" where
  "resolveAttemptUnresolvableIfOwner jobId attemptId g attemptErrorReason jobLastError t xs =
     (case owns xs jobId attemptId g of
        None \<Rightarrow> (False, xs)
      | Some (j, a) \<Rightarrow>
          (if xa_status a \<in> set TERMINAL_OBLIGATION then (False, xs)
           else (True, set_job jobId (j\<lparr>xj_status := Jb_UNRESOLVABLE, xj_lastError := Some jobLastError, xj_updatedAt := t\<rparr>)
                   (set_attempt attemptId (a\<lparr>xa_status := Ob_UNRESOLVABLE, xa_errorReason := Some attemptErrorReason\<rparr>) xs))))"

definition updateJobStatus ::
    "string \<Rightarrow> RecoveryJobStatus \<Rightarrow> nat \<Rightarrow> JobExtra \<Rightarrow> int \<Rightarrow> exec_store \<Rightarrow> bool \<times> exec_store" where
  "updateJobStatus jobId status g extra t xs =
     (case getJob xs jobId of
        None \<Rightarrow> (False, xs)
      | Some j \<Rightarrow>
          (if xj_currentAttempt j \<noteq> g then (False, xs)
           else if xj_status j \<in> set TERMINAL_JOB then (False, xs)
           else (True, set_job jobId ((assign_job extra (j\<lparr>xj_status := status\<rparr>))\<lparr>xj_updatedAt := t\<rparr>) xs)))"

section \<open>Lookups after each update\<close>

lemma exec_lookup_simps [simp, store_simps]:
  "getJob (set_job k j xs) k' = (if k' = k then Some j else getJob xs k')"
  "getJob (set_attempt k a xs) k' = getJob xs k'"
  "getJob (index_attempt o1 i xs) k' = getJob xs k'"
  "getJob (put_attempt a xs) k' = getJob xs k'"
  "getJob (put_job j xs) k' = (if k' = xj_jobId j then Some j else getJob xs k')"
  "getAttemptById (set_attempt k a xs) k' = (if k' = k then Some a else getAttemptById xs k')"
  "getAttemptById (set_job k j xs) k' = getAttemptById xs k'"
  "getAttemptById (index_attempt o1 i xs) k' = getAttemptById xs k'"
  "getAttemptById (put_attempt a xs) k' = (if k' = xa_attemptId a then Some a else getAttemptById xs k')"
  "getAttemptById (put_job j xs) k' = getAttemptById xs k'"
  by (simp_all add: getJob_def getAttemptById_def set_job_def set_attempt_def index_attempt_def put_attempt_def
      put_job_def Let_def)

lemma assign_simps [simp]:
  "xa_status (assign_attempt x a) = xa_status a" "xa_operationId (assign_attempt x a) = xa_operationId a"
  "xa_idempotencyKey (assign_attempt x a) = xa_idempotencyKey a" "xa_executionId (assign_attempt x a) = xa_executionId a"
  "xj_status (assign_job y j) = xj_status j" "xj_currentAttempt (assign_job y j) = xj_currentAttempt j"
  "xj_operationId (assign_job y j) = xj_operationId j" "xj_metadata (assign_job y j) = xj_metadata j"
  by (simp_all add: assign_attempt_def assign_job_def)

definition fence_of :: "exec_store \<Rightarrow> string \<Rightarrow> nat option" where
  "fence_of xs k = map_option xj_currentAttempt (getJob xs k)"

definition attempt_status :: "exec_store \<Rightarrow> string \<Rightarrow> ExecutionObligationStatus option" where
  "attempt_status xs k = map_option xa_status (getAttemptById xs k)"

definition job_status :: "exec_store \<Rightarrow> string \<Rightarrow> RecoveryJobStatus option" where
  "job_status xs k = map_option xj_status (getJob xs k)"

lemmas exec_view_defs = fence_of_def attempt_status_def job_status_def

section \<open>Every write under one job\<close>

text \<open>The fenced methods as one function of the job and the generation they are called with.\<close>

datatype exec_write =
    W_attempt string ExecutionObligationStatus AttemptExtra
  | W_mark string
  | W_resolve string AttemptExtra
  | W_retry string ExecutionAttempt string
  | W_retrieve string RecoveryJob string
  | W_unresolvable string string string
  | W_job RecoveryJobStatus JobExtra

fun fenced_write :: "string \<Rightarrow> nat \<Rightarrow> exec_write \<Rightarrow> int \<Rightarrow> exec_store \<Rightarrow> bool \<times> exec_store" where
  "fenced_write k g (W_attempt a s x) t xs = updateAttemptStatus a s g x (Some k) xs"
| "fenced_write k g (W_mark a) t xs = markAttemptInProgress a g (Some k) t xs"
| "fenced_write k g (W_resolve a x) t xs = resolveRetrievalSuccessIfOwner k a g x t xs"
| "fenced_write k g (W_retry a r e) t xs = createRecoveryAttemptIfOwner k a g r e t xs"
| "fenced_write k g (W_retrieve a r e) t xs = createRecoveryJobIfOwner k a g r e t xs"
| "fenced_write k g (W_unresolvable a e e') t xs = resolveAttemptUnresolvableIfOwner k a g e e' t xs"
| "fenced_write k g (W_job s x) t xs = updateJobStatus k s g x t xs"

text \<open>Ids of new rows are random UUIDs: a write creates no row that exists.\<close>

fun write_fresh :: "exec_write \<Rightarrow> exec_store \<Rightarrow> bool" where
  "write_fresh (W_retry a r e) xs = (getAttemptById xs (xa_attemptId r) = None)"
| "write_fresh (W_retrieve a r e) xs = (getJob xs (xj_jobId r) = None)"
| "write_fresh _ xs = True"

lemma owns_Some:
  "owns xs k a g = Some (j, x) \<longleftrightarrow> getJob xs k = Some j \<and> getAttemptById xs a = Some x \<and> xj_status j = Jb_RUNNING \<and>
     xj_currentAttempt j = g \<and> xa_operationId x = xj_operationId j"
  by (auto simp: owns_def split: option.splits)

lemma fenced_write_stale:
  assumes "fence_of xs k \<noteq> Some g" "k \<noteq> []"
  shows "fenced_write k g w t xs = (False, xs)"
proof -
  have o: "owns xs k a g = None" for a
    using assms(1) by (auto simp: owns_def fence_of_def split: option.splits)
  have f: "\<not> fence_ok xs a (Some k) g" for a
    using assms by (auto simp: fence_ok_def fencing_job_def fence_of_def split: option.splits)
  show ?thesis
  proof (cases w)
    case (W_job s x)
    with assms(1) show ?thesis by (auto simp: updateJobStatus_def fence_of_def split: option.splits)
  qed (simp_all add: o f updateAttemptStatus_def markAttemptInProgress_def resolveRetrievalSuccessIfOwner_def
      createRecoveryAttemptIfOwner_def createRecoveryJobIfOwner_def resolveAttemptUnresolvableIfOwner_def split: option.splits)
qed

lemmas fenced_write_defs = updateAttemptStatus_def markAttemptInProgress_def resolveRetrievalSuccessIfOwner_def
  createRecoveryAttemptIfOwner_def createRecoveryJobIfOwner_def resolveAttemptUnresolvableIfOwner_def updateJobStatus_def

lemma demote_attempted_simps [simp]:
  "xa_status (demote_attempted e a) = (if xa_status a = Ob_ATTEMPTED then Ob_DELIVERY_UNKNOWN else xa_status a)"
  "xa_operationId (demote_attempted e a) = xa_operationId a"
  by (simp_all add: demote_attempted_def)

lemma fenced_write_fence:
  assumes "fenced_write k g w t xs = (b, xs')" "write_fresh w xs" "fence_of xs k' = Some n"
  shows "fence_of xs' k' = Some n"
  using assms by (cases w) (auto simp: fenced_write_defs fence_of_def owns_Some split: option.splits if_splits)

text \<open>Which status changes a store allows: terminal ones stay, but a retrieval may prove success.\<close>

definition attempt_may :: "ExecutionObligationStatus \<Rightarrow> ExecutionObligationStatus \<Rightarrow> bool" where
  "attempt_may s s' = (s' = s \<or> s \<notin> set TERMINAL_OBLIGATION \<or> s = Ob_DELIVERY_UNKNOWN \<and> s' = Ob_SUCCESS)"

lemma attempt_may_refl [simp]: "attempt_may s s"
  by (simp add: attempt_may_def)

lemma attempt_may_trans: "attempt_may s s' \<Longrightarrow> attempt_may s' s'' \<Longrightarrow> attempt_may s s''"
  by (auto simp: attempt_may_def TERMINAL_OBLIGATION_def)

lemma fenced_write_attempt:
  assumes "fenced_write k g w t xs = (b, xs')" "write_fresh w xs" "attempt_status xs a = Some s"
  shows "\<exists>s'. attempt_status xs' a = Some s' \<and> attempt_may s s'"
  using assms
  by (cases w) (auto simp: fenced_write_defs attempt_status_def owns_Some attempt_may_def TERMINAL_OBLIGATION_def
      split: option.splits if_splits)

lemma fenced_write_job:
  assumes "fenced_write k g w t xs = (b, xs')" "write_fresh w xs" "job_status xs j = Some s" "s \<in> set TERMINAL_JOB"
  shows "job_status xs' j = Some s"
  using assms
  by (cases w) (auto simp: fenced_write_defs job_status_def owns_Some TERMINAL_JOB_def split: option.splits if_splits)

section \<open>Steps of the store\<close>

text \<open>
  Everything that happens to the store, by any worker: a fresh obligation, a fresh job, a claim,
  a write fenced to a job, and the one write of the engine that names no job.
\<close>

inductive exec_step :: "exec_store \<Rightarrow> exec_store \<Rightarrow> bool" where
  es_create: "getAttemptById xs (xa_attemptId a) = None \<Longrightarrow> getJob xs (xj_jobId j) = None \<Longrightarrow>
    exec_step xs (saveAttemptWithJob a j xs)"
| es_job: "getJob xs (xj_jobId j) = None \<Longrightarrow> exec_step xs (saveJob j xs)"
| es_claim: "claimJob k w d t xs = (r, xs') \<Longrightarrow> exec_step xs xs'"
| es_write: "fenced_write k g w t xs = (b, xs') \<Longrightarrow> write_fresh w xs \<Longrightarrow> exec_step xs xs'"
| es_unbound: "updateAttemptStatus a s g x None xs = (b, xs') \<Longrightarrow> exec_step xs xs'"

lemma claimJob_Some:
  "claimJob k w d t xs = (Some g, xs') \<Longrightarrow> \<exists>g0. fence_of xs k = Some g0 \<and> g = Suc g0 \<and> fence_of xs' k = Some g"
  by (auto simp: claimJob_def fence_of_def getJob_def Let_def split: option.splits if_splits)

lemma claimJob_fence:
  "claimJob k w d t xs = (r, xs') \<Longrightarrow> fence_of xs k' = Some g \<Longrightarrow> \<exists>g'. fence_of xs' k' = Some g' \<and> g \<le> g'"
  by (auto simp: claimJob_def fence_of_def getJob_def Let_def split: option.splits if_splits)

lemma claimJob_status:
  "claimJob k w d t xs = (r, xs') \<Longrightarrow> attempt_status xs' a = attempt_status xs a"
  "claimJob k w d t xs = (r, xs') \<Longrightarrow> job_status xs j = Some s \<Longrightarrow> s \<in> set TERMINAL_JOB \<Longrightarrow> job_status xs' j = Some s"
  by (auto simp: claimJob_def attempt_status_def job_status_def getJob_def getAttemptById_def Let_def TERMINAL_JOB_def
      lease_expired_def split: option.splits if_splits)

lemma exec_step_fence:
  "exec_step xs xs' \<Longrightarrow> fence_of xs k = Some g \<Longrightarrow> \<exists>g'. fence_of xs' k = Some g' \<and> g \<le> g'"
proof (induction rule: exec_step.induct)
  case (es_claim k w d t xs r xs')
  then show ?case by (rule claimJob_fence)
next
  case (es_write k g w t xs b xs')
  then show ?case using fenced_write_fence by blast
qed (auto simp: saveAttemptWithJob_def saveJob_def fence_of_def updateAttemptStatus_def split: option.splits if_splits)

lemma exec_step_attempt:
  "exec_step xs xs' \<Longrightarrow> attempt_status xs a = Some s \<Longrightarrow> \<exists>s'. attempt_status xs' a = Some s' \<and> attempt_may s s'"
proof (induction rule: exec_step.induct)
  case (es_write k g w t xs b xs')
  then show ?case by (blast intro: fenced_write_attempt)
next
  case (es_claim k w d t xs r xs')
  then show ?case by (auto simp: claimJob_status)
qed (auto simp: saveAttemptWithJob_def saveJob_def attempt_status_def updateAttemptStatus_def attempt_may_def
      split: option.splits if_splits)

lemma exec_step_job:
  "exec_step xs xs' \<Longrightarrow> job_status xs j = Some s \<Longrightarrow> s \<in> set TERMINAL_JOB \<Longrightarrow> job_status xs' j = Some s"
proof (induction rule: exec_step.induct)
  case (es_write k g w t xs b xs')
  then show ?case by (blast intro: fenced_write_job)
next
  case (es_claim k w d t xs r xs')
  then show ?case by (blast intro: claimJob_status(2))
qed (auto simp: saveAttemptWithJob_def saveJob_def job_status_def updateAttemptStatus_def split: option.splits if_splits)

section \<open>Interface: fencing\<close>

text \<open>
  What a worker relies on, in every valid state of a store: a claim hands out the next generation of the job, no
  step of anybody lowers a generation, and a write under another generation than the current one is
  refused and does nothing.
\<close>

locale job_fence =
  fixes valid :: "'st \<Rightarrow> bool"
    and fence :: "'st \<Rightarrow> string \<Rightarrow> nat option"
    and claim :: "string \<Rightarrow> string \<Rightarrow> int \<Rightarrow> int \<Rightarrow> 'st \<Rightarrow> nat option \<times> 'st"
    and step :: "'st \<Rightarrow> 'st \<Rightarrow> bool"
    and fwrite :: "string \<Rightarrow> nat \<Rightarrow> 'w \<Rightarrow> int \<Rightarrow> 'st \<Rightarrow> 'a \<times> 'st"
    and refused :: 'a
  assumes step_valid: "step s s' \<Longrightarrow> valid s \<Longrightarrow> valid s'"
    and claim_step: "claim k w d t s = (r, s') \<Longrightarrow> step s s'"
    and claim_next: "valid s \<Longrightarrow> claim k w d t s = (Some g, s') \<Longrightarrow>
      \<exists>g0. fence s k = Some g0 \<and> g = Suc g0 \<and> fence s' k = Some g"
    and step_mono: "valid s \<Longrightarrow> step s s' \<Longrightarrow> fence s k = Some g \<Longrightarrow> \<exists>g'. fence s' k = Some g' \<and> g \<le> g'"
    and stale_write: "valid s \<Longrightarrow> fence s k \<noteq> Some g \<Longrightarrow> k \<noteq> [] \<Longrightarrow> fwrite k g x t s = (refused, s)"
begin

lemma steps_valid: "step\<^sup>*\<^sup>* s s' \<Longrightarrow> valid s \<Longrightarrow> valid s'"
  by (induction rule: rtranclp_induct) (auto intro: step_valid)

lemma steps_mono: "step\<^sup>*\<^sup>* s s' \<Longrightarrow> valid s \<Longrightarrow> fence s k = Some g \<Longrightarrow> \<exists>g'. fence s' k = Some g' \<and> g \<le> g'"
proof (induction rule: rtranclp_induct)
  case (step y z)
  then obtain g1 where g1: "fence y k = Some g1" "g \<le> g1" by blast
  from step_mono [OF steps_valid [OF step.hyps(1) step.prems(1)] step.hyps(2) g1(1)] g1(2) show ?case by fastforce
qed auto

lemma lost_lease:
  assumes "valid s0" "claim k w d t s0 = (Some g, s1)" "step\<^sup>*\<^sup>* s1 s2" "claim k w' d' t' s2 = (Some g', s3)"
    and "step\<^sup>*\<^sup>* s3 s4" "k \<noteq> []"
  shows "g < g' \<and> fwrite k g x t'' s4 = (refused, s4)"
proof -
  have v1: "valid s1" using step_valid claim_step assms(1,2) by blast
  then have v2: "valid s2" using steps_valid assms(3) by blast
  then have v3: "valid s3" using step_valid claim_step assms(4) by blast
  from claim_next [OF assms(1,2)] have "fence s1 k = Some g" by blast
  from steps_mono [OF assms(3) v1 this] claim_next [OF v2 assms(4)] have g': "g < g'" "fence s3 k = Some g'" by auto
  from steps_mono [OF assms(5) v3 g'(2)] g'(1) have "fence s4 k \<noteq> Some g" by auto
  with stale_write [OF steps_valid [OF assms(5) v3]] assms(6) g'(1) show ?thesis by blast
qed

end

interpretation fenced: job_fence "\<lambda>_. True" fence_of claimJob exec_step fenced_write False
  by unfold_locales (auto intro: es_claim claimJob_Some exec_step_fence fenced_write_stale)

section \<open>Properties\<close>

definition sample_attempt :: "ExecutionObligationStatus \<Rightarrow> ExecutionAttempt" where
  "sample_attempt s = \<lparr>xa_attemptId = ''a1'', xa_operationId = ''op1'', xa_executionId = ''op1'', xa_attemptNumber = 1,
     xa_status = s, xa_requestUrl = Some ''https://s'', xa_requestMethod = Some ''POST'', xa_requestBody = JUndefined,
     xa_responseStatusCode = None, xa_responseBody = JUndefined, xa_responseHeaders = None, xa_errorReason = None,
     xa_idempotencyKey = Some ''op1'', xa_startedAt = None, xa_completedAt = None, xa_createdAt = 0\<rparr>"

definition sample_job :: "ExecutionCapability \<Rightarrow> RecoveryJob" where
  "sample_job c = \<lparr>xj_jobId = ''j1'', xj_operationId = ''op1'', xj_jobType = Jt_EXECUTION, xj_status = Jb_PENDING,
     xj_priority = 0, xj_maxAttempts = 3, xj_currentAttempt = 0, xj_lockedBy = None, xj_lockedUntil = None,
     xj_lastError = None,
     xj_metadata = Some \<lparr>md_capability = Some c, md_requestBody = JUndefined, md_originalJobId = None,
        md_resultRetrievalEndpoint = None, md_linkedAttempt = None\<rparr>,
     xj_createdAt = 0, xj_updatedAt = 0\<rparr>"

definition sample_exec :: "ExecutionCapability \<Rightarrow> ExecutionObligationStatus \<Rightarrow> exec_store" where
  "sample_exec c s = saveAttemptWithJob (sample_attempt s) (sample_job c) empty_exec"

text \<open>
  A worker that lost its lease writes nothing: once another worker has claimed the job,
  whatever steps anybody takes before or after, every kind of write the first worker tries under
  its own generation is refused and leaves the store as it is.
\<close>

theorem lost_lease_writes_nothing:
  assumes "claimJob k w d t s0 = (Some g, s1)" "exec_step\<^sup>*\<^sup>* s1 s2" "claimJob k w' d' t' s2 = (Some g', s3)"
    and "exec_step\<^sup>*\<^sup>* s3 s4" "k \<noteq> []"
  shows "g < g' \<and> fenced_write k g x t'' s4 = (False, s4)"
  using assms by (rule fenced.lost_lease [OF TrueI])

theorem lost_lease_writes_nothing_witness:
  "fst (claimJob ''j1'' ''A'' 100 0 (sample_exec XC_NONE Ob_PENDING)) = Some 1 \<and>
   fst (claimJob ''j1'' ''B'' 100 200 (snd (claimJob ''j1'' ''A'' 100 0 (sample_exec XC_NONE Ob_PENDING)))) = Some 2 \<and>
   fst (fenced_write ''j1'' 1 (W_mark ''a1'') 201
     (snd (claimJob ''j1'' ''B'' 100 200 (snd (claimJob ''j1'' ''A'' 100 0 (sample_exec XC_NONE Ob_PENDING)))))) = False"
proof -
  have c: "fst (claimJob ''j1'' ''A'' 100 0 (sample_exec XC_NONE Ob_PENDING)) = Some 1"
    "fst (claimJob ''j1'' ''B'' 100 200 (snd (claimJob ''j1'' ''A'' 100 0 (sample_exec XC_NONE Ob_PENDING)))) = Some 2"
    by code_simp+
  from lost_lease_writes_nothing [OF surjective_pairing [THEN trans, OF arg_cong2 [of _ _ _ _ Pair, OF c(1) refl]] rtranclp.rtrancl_refl
      surjective_pairing [THEN trans, OF arg_cong2 [of _ _ _ _ Pair, OF c(2) refl]] rtranclp.rtrancl_refl, of "W_mark ''a1''" 201]
  show ?thesis using c by simp
qed

text \<open>
  Execution outcomes are irreversible: across any steps of the store a delivered, failed
  or unresolvable attempt keeps its status, an unknown delivery can only become a success (proved
  by a retrieval), and a completed, failed or unresolvable job never runs again.
\<close>

theorem execution_outcomes_irreversible:
  assumes "exec_step\<^sup>*\<^sup>* xs xs'"
  shows "(\<forall>a s. attempt_status xs a = Some s \<and> s \<in> {Ob_SUCCESS, Ob_HTTP_FAILURE, Ob_UNRESOLVABLE} \<longrightarrow>
            attempt_status xs' a = Some s) \<and>
         (\<forall>a. attempt_status xs a = Some Ob_DELIVERY_UNKNOWN \<longrightarrow>
            attempt_status xs' a \<in> {Some Ob_DELIVERY_UNKNOWN, Some Ob_SUCCESS}) \<and>
         (\<forall>j s. job_status xs j = Some s \<and> s \<in> {Jb_COMPLETED, Jb_FAILED, Jb_UNRESOLVABLE} \<longrightarrow> job_status xs' j = Some s)"
proof -
  have att: "\<exists>s'. attempt_status xs' a = Some s' \<and> attempt_may s s'" if at: "attempt_status xs a = Some s" for a s
    using assms
  proof (induction rule: rtranclp_induct)
    case base
    from at show ?case by simp
  next
    case (step y z)
    then obtain s1 where s1: "attempt_status y a = Some s1" "attempt_may s s1" by blast
    from exec_step_attempt [OF step.hyps(2) s1(1)] s1(2) show ?case using attempt_may_trans by blast
  qed
  have job: "job_status xs' j = Some s" if "job_status xs j = Some s" "s \<in> set TERMINAL_JOB" for j s
    using assms
  proof (induction rule: rtranclp_induct)
    case (step y z)
    with that exec_step_job show ?case by blast
  qed (simp add: that)
  show ?thesis using att job unfolding attempt_may_def TERMINAL_OBLIGATION_def TERMINAL_JOB_def by fastforce
qed

theorem execution_outcomes_irreversible_witness:
  "attempt_status (snd (fenced_write ''j1'' 0 (W_attempt ''a1'' Ob_HTTP_FAILURE no_extra) 5 (sample_exec XC_NONE Ob_SUCCESS))) ''a1'' = Some Ob_SUCCESS"
proof -
  have "exec_step\<^sup>*\<^sup>* (sample_exec XC_NONE Ob_SUCCESS)
      (snd (fenced_write ''j1'' 0 (W_attempt ''a1'' Ob_HTTP_FAILURE no_extra) 5 (sample_exec XC_NONE Ob_SUCCESS)))"
    by (rule r_into_rtranclp, rule es_write, rule prod.collapse [symmetric]) simp
  from execution_outcomes_irreversible [OF this] show ?thesis
    by (simp add: sample_exec_def attempt_status_def saveAttemptWithJob_def sample_attempt_def empty_exec_def getAttemptById_def
        put_attempt_def put_job_def index_attempt_def)
qed

end
