(* ===== verification/ExecutionFeedback.thy ===== *)
theory ExecutionFeedback
  imports SettlementFeedback ExecStore
begin

text \<open>
  \<^verbatim>\<open>zeus-secretariat/src/core/execution-feedback-service.ts\<close>: the result of a processed execution
  job drives the operation along the state machine, by the same loop as the settlement feedback.
\<close>

section \<open>The plan\<close>

text \<open>What \<open>processJob\<close> reports: the union of obligation and job statuses.\<close>

datatype FinalStatus =
    F_PENDING | F_ATTEMPTED | F_SUCCESS | F_HTTP_FAILURE | F_DELIVERY_UNKNOWN | F_UNRESOLVABLE
  | F_RUNNING | F_COMPLETED | F_FAILED

fun final_name :: "FinalStatus \<Rightarrow> string" where
  "final_name F_PENDING = ''PENDING''"
| "final_name F_ATTEMPTED = ''ATTEMPTED''"
| "final_name F_SUCCESS = ''SUCCESS''"
| "final_name F_HTTP_FAILURE = ''HTTP_FAILURE''"
| "final_name F_DELIVERY_UNKNOWN = ''DELIVERY_UNKNOWN''"
| "final_name F_UNRESOLVABLE = ''UNRESOLVABLE''"
| "final_name F_RUNNING = ''RUNNING''"
| "final_name F_COMPLETED = ''COMPLETED''"
| "final_name F_FAILED = ''FAILED''"

fun planExecutionTransitions :: "FinalStatus \<Rightarrow> OperationStatus list option" where
  "planExecutionTransitions F_SUCCESS =
     Some [Op_EXECUTION_PENDING, Op_EXECUTION_CONFIRMED, Op_DELIVERED, Op_SUCCESS]"
| "planExecutionTransitions F_HTTP_FAILURE = Some [Op_EXECUTION_PENDING, Op_FAILED]"
| "planExecutionTransitions F_DELIVERY_UNKNOWN = Some [Op_EXECUTION_PENDING, Op_EXECUTION_UNKNOWN]"
| "planExecutionTransitions F_UNRESOLVABLE = Some [Op_EXECUTION_PENDING, Op_EXECUTION_UNKNOWN]"
| "planExecutionTransitions _ = None"

section \<open>Steps\<close>

record FeedbackExtra =
  fx_jobId :: "string option"
  fx_statusCode :: "int option"
  fx_reason :: "string option"

definition feedback_fields :: "FeedbackExtra option \<Rightarrow> (string \<times> json) list" where
  "feedback_fields extra = (case extra of None \<Rightarrow> []
     | Some x \<Rightarrow> [(''jobId'', opt_str (fx_jobId x)),
                  (''statusCode'', case fx_statusCode x of None \<Rightarrow> JUndefined | Some n \<Rightarrow> JNum n),
                  (''reason'', opt_str (fx_reason x))])"

definition pushExecutionEvidence :: "string \<Rightarrow> json \<Rightarrow> int \<Rightarrow> Operation \<Rightarrow> Operation" where
  "pushExecutionEvidence event payload t opn = opn\<lparr>op_evidence := op_evidence opn @
     [\<lparr>ev_operationId = op_operationId opn, ev_phase = EXECUTION, ev_timestamp = t, ev_event = event,
       ev_payload = payload, ev_sequence = Some (length (op_evidence opn))\<rparr>]\<rparr>"

fun executionSideEffects :: "OperationStatus \<Rightarrow> int \<Rightarrow> Operation \<Rightarrow> Operation" where
  "executionSideEffects Op_EXECUTION_PENDING t opn = opn\<lparr>op_executionState := Ex_PENDING, op_deliveryState := Del_PENDING\<rparr>"
| "executionSideEffects Op_EXECUTION_CONFIRMED t opn = opn\<lparr>op_executionState := Ex_CONFIRMED,
     op_timestamps := (op_timestamps opn)\<lparr>ts_executionConfirmedAt := Some t\<rparr>\<rparr>"
| "executionSideEffects Op_DELIVERED t opn = opn\<lparr>op_deliveryState := Del_DELIVERED,
     op_timestamps := (op_timestamps opn)\<lparr>ts_deliveredAt := Some t\<rparr>\<rparr>"
| "executionSideEffects Op_SUCCESS t opn = opn\<lparr>op_paymentState := Pay_SETTLED, op_executionState := Ex_CONFIRMED,
     op_deliveryState := Del_DELIVERED, op_timestamps := (op_timestamps opn)\<lparr>ts_completedAt := Some t\<rparr>\<rparr>"
| "executionSideEffects Op_FAILED t opn = opn\<lparr>op_executionState := Ex_FAILED, op_deliveryState := Del_FAILED,
     op_timestamps := (op_timestamps opn)\<lparr>ts_failedAt := Some t\<rparr>\<rparr>"
| "executionSideEffects Op_EXECUTION_UNKNOWN t opn = opn\<lparr>op_executionState := Ex_UNKNOWN, op_deliveryState := Del_UNKNOWN\<rparr>"
| "executionSideEffects Op_UNRESOLVABLE t opn = opn\<lparr>op_executionState := Ex_UNKNOWN, op_deliveryState := Del_UNKNOWN\<rparr>"
| "executionSideEffects _ t opn = opn"

definition execution_adv ::
    "FinalStatus \<Rightarrow> FeedbackExtra option \<Rightarrow> int \<Rightarrow> OperationStatus \<Rightarrow> Operation \<Rightarrow> Operation" where
  "execution_adv final extra t nxt opn =
     (let from = op_currentState opn;
          opn1 = opn\<lparr>op_currentState := nxt, op_timestamps := (op_timestamps opn)\<lparr>ts_updatedAt := t\<rparr>\<rparr>
      in pushExecutionEvidence ''STATE_TRANSITION''
           (JObj ([(''from'', JStr (op_name from)), (''to'', JStr (op_name nxt)), (''finalStatus'', JStr (final_name final))] @
                  feedback_fields extra)) t (executionSideEffects nxt t opn1))"

definition execution_skip :: "FinalStatus \<Rightarrow> int \<Rightarrow> OperationStatus \<Rightarrow> Operation \<Rightarrow> Operation" where
  "execution_skip final t nxt opn = pushExecutionEvidence ''EXECUTION_FEEDBACK_SKIPPED''
     (JObj [(''attemptedFrom'', JStr (op_name (op_currentState opn))), (''attemptedTo'', JStr (op_name nxt)),
            (''reason'', JStr ''transition not present in existing VALID_TRANSITIONS''),
            (''finalStatus'', JStr (final_name final))]) t opn"

section \<open>The service\<close>

definition EXECUTION_TERMINAL :: "OperationStatus list" where
  "EXECUTION_TERMINAL = [Op_SUCCESS, Op_FAILED, Op_UNRESOLVABLE, Op_POLICY_REJECTED, Op_SETTLEMENT_FAILED, Op_RECOVERED]"

definition applyResult ::
    "string \<Rightarrow> FinalStatus \<Rightarrow> FeedbackExtra option \<Rightarrow> int \<Rightarrow> mem_store \<Rightarrow> (bool \<times> OperationStatus option) \<times> mem_store" where
  "applyResult operationId final extra t st =
     (case planExecutionTransitions final of
        None \<Rightarrow> ((False, None), st)
      | Some plan \<Rightarrow>
     (case getOperation st operationId of
        None \<Rightarrow> ((False, None), st)
      | Some opn \<Rightarrow>
     (if op_currentState opn \<in> set EXECUTION_TERMINAL then ((False, Some (op_currentState opn)), st)
      else (case drive_plan (execution_adv final extra t) (execution_skip final t) plan False opn of
              (applied, opn1) \<Rightarrow>
                ((applied, Some (op_currentState opn1)), if applied then saveOperation opn1 st else st)))))"

section \<open>The steps meet the driver's contract\<close>

lemma executionSideEffects_frame [simp]:
  "op_currentState (executionSideEffects s t opn) = op_currentState opn"
  "op_evidence (executionSideEffects s t opn) = op_evidence opn"
  "op_operationId (executionSideEffects s t opn) = op_operationId opn"
  by (cases s; simp)+

interpretation xf: fsm_driver "execution_adv final extra t" "execution_skip final t"
  by unfold_locales
     (simp_all add: execution_adv_def execution_skip_def Let_def appends_one_def pushExecutionEvidence_def)

lemma execution_plan_chain: "planExecutionTransitions f = Some plan \<Longrightarrow> plan \<noteq> [] \<and> fsm_chain plan"
  by (cases f) (auto simp: isValidTransition_def)

lemma execution_plan_failed: "planExecutionTransitions f = Some plan \<Longrightarrow> Op_FAILED \<in> set plan \<longleftrightarrow> f = F_HTTP_FAILURE"
  by (cases f) auto

lemma applyResult_unapplied:
  "\<not> fst (fst (applyResult opId f x t st)) \<Longrightarrow> snd (applyResult opId f x t st) = st"
  by (auto simp: applyResult_def split: option.splits if_splits prod.splits)

lemma applyResult_applied:
  assumes "getOperation st opId = Some opn" "fst (fst (applyResult opId f x t st))"
  shows "\<exists>plan opn1. planExecutionTransitions f = Some plan \<and> op_currentState opn \<notin> set EXECUTION_TERMINAL \<and>
     drive_plan (execution_adv f x t) (execution_skip f t) plan False opn = (True, opn1) \<and>
     applyResult opId f x t st = ((True, Some (op_currentState opn1)), saveOperation opn1 st)"
  using assms by (auto simp: applyResult_def split: option.splits if_splits prod.splits)

section \<open>Properties\<close>

text \<open>
  Execution feedback stays on the state machine and never invents a failure: applying
  any result moves the operation along a run of valid transitions, keeps the evidence gaplessly
  numbered, and reaches FAILED only when the seller answered with a definite HTTP failure; an
  unknown or unresolvable delivery never does.
\<close>

theorem execution_feedback_follows_fsm:
  assumes "getOperation st opId = Some opn" "op_operationId opn = opId" "evidence_sequenced opn"
  shows "\<exists>opn' ts. getOperation (snd (applyResult opId f x t st)) opId = Some opn' \<and>
     fsm_run (op_currentState opn) ts \<and> op_currentState opn' = last (op_currentState opn # ts) \<and>
     (fst (fst (applyResult opId f x t st)) \<longleftrightarrow> ts \<noteq> []) \<and> evidence_sequenced opn' \<and>
     (Op_FAILED \<in> set ts \<longrightarrow> f = F_HTTP_FAILURE)"
proof (cases "fst (fst (applyResult opId f x t st))")
  case False
  with applyResult_unapplied [OF False] assms show ?thesis by (intro exI [of _ opn] exI [of _ "[]"]) simp
next
  case True
  from applyResult_applied [OF assms(1) True] obtain plan opn1 where
    p: "planExecutionTransitions f = Some plan"
    and d: "drive_plan (execution_adv f x t) (execution_skip f t) plan False opn = (True, opn1)"
    and r: "applyResult opId f x t st = ((True, Some (op_currentState opn1)), saveOperation opn1 st)" by blast
  from xf.drive_run [OF d] obtain ts where "fsm_run (op_currentState opn) ts" "set ts \<subseteq> set plan" "ts \<noteq> []"
    "op_currentState opn1 = last (op_currentState opn # ts)" by auto
  moreover have "op_operationId opn1 = opId" using xf.drive_id [OF d] assms(2) by simp
  moreover have "evidence_sequenced opn1" using xf.drive_sequenced [OF d assms(3)] .
  ultimately show ?thesis using execution_plan_failed [OF p] r by (intro exI [of _ opn1] exI [of _ ts]) auto
qed

theorem execution_feedback_follows_fsm_witness:
  "\<exists>opn' ts. getOperation (snd (applyResult ''op1'' F_DELIVERY_UNKNOWN None 5 (op_store Op_SETTLED))) ''op1'' = Some opn' \<and>
     fsm_run Op_SETTLED ts \<and> op_currentState opn' = last (Op_SETTLED # ts) \<and> Op_FAILED \<notin> set ts"
  using execution_feedback_follows_fsm [of "op_store Op_SETTLED" "''op1''" "sample_operation Op_SETTLED" F_DELIVERY_UNKNOWN None 5]
  by (auto simp: op_store_get)

text \<open>
  From SETTLED every execution result lands where the mapping table says: success on
  SUCCESS, a definite HTTP failure on FAILED, unknown and unresolvable deliveries on
  EXECUTION_UNKNOWN, and a repeated delivery of the same result changes nothing.
\<close>

theorem execution_result_lands_once:
  assumes "getOperation st opId = Some opn" "op_operationId opn = opId"
    and "op_currentState opn = Op_SETTLED \<or> op_currentState opn = Op_EXECUTION_PENDING"
    and "planExecutionTransitions f = Some plan"
  shows "fst (applyResult opId f x t st) =
           (True, Some (if f = F_SUCCESS then Op_SUCCESS else if f = F_HTTP_FAILURE then Op_FAILED else Op_EXECUTION_UNKNOWN)) \<and>
         fst (fst (applyResult opId f x' t' (snd (applyResult opId f x t st)))) = False \<and>
         snd (applyResult opId f x' t' (snd (applyResult opId f x t st))) = snd (applyResult opId f x t st)"
proof -
  have step: "takes_step plan (op_currentState opn)"
    using assms(3,4) by (cases f) (auto simp: isValidTransition_def)
  obtain b opn1 where d: "drive_plan (execution_adv f x t) (execution_skip f t) plan False opn = (b, opn1)" by fastforce
  with xf.drive_flag [of f x t plan False opn] step have b: "b = True" by simp
  from execution_plan_chain [OF assms(4)] xf.drive_chain [OF _ d [unfolded b]]
  have lst: "op_currentState opn1 = last plan" by blast
  have r: "applyResult opId f x t st = ((True, Some (last plan)), saveOperation opn1 st)"
    using assms(1,3,4) d b lst by (auto simp: applyResult_def EXECUTION_TERMINAL_def)
  have get: "getOperation (saveOperation opn1 st) opId = Some opn1" using xf.drive_id [OF d] assms(2) by simp
  have "\<not> fst (fst (applyResult opId f x' t' (saveOperation opn1 st)))"
  proof
    assume a: "fst (fst (applyResult opId f x' t' (saveOperation opn1 st)))"
    from applyResult_applied [OF get a] obtain opn2 where
      "op_currentState opn1 \<notin> set EXECUTION_TERMINAL"
      "drive_plan (execution_adv f x' t') (execution_skip f t') plan False opn1 = (True, opn2)" using assms(4) by auto
    with xf.drive_flag [of f x' t' plan False opn1] lst have "takes_step plan (last plan)" "last plan \<notin> set EXECUTION_TERMINAL" by auto
    with assms(4) show False by (cases f) (auto simp: isValidTransition_def EXECUTION_TERMINAL_def)
  qed
  moreover have "last plan = (if f = F_SUCCESS then Op_SUCCESS else if f = F_HTTP_FAILURE then Op_FAILED else Op_EXECUTION_UNKNOWN)"
    using assms(4) by (cases f) auto
  ultimately show ?thesis using applyResult_unapplied r by simp
qed

theorem execution_result_lands_once_witness:
  "fst (applyResult ''op1'' F_UNRESOLVABLE None 5 (op_store Op_SETTLED)) = (True, Some Op_EXECUTION_UNKNOWN)"
  using execution_result_lands_once [of "op_store Op_SETTLED" "''op1''" "sample_operation Op_SETTLED" F_UNRESOLVABLE
      "[Op_EXECUTION_PENDING, Op_EXECUTION_UNKNOWN]"]
  by (simp add: op_store_get)

text \<open>
  A result that arrives after an unknown delivery was fed back is lost: the plan starts with an
  edge EXECUTION_UNKNOWN does not have, so a later SUCCESS leaves the operation where it is.
\<close>

lemma late_success_is_dropped:
  assumes "getOperation st opId = Some opn" "op_currentState opn = Op_EXECUTION_UNKNOWN"
  shows "applyResult opId F_SUCCESS x t st = ((False, Some Op_EXECUTION_UNKNOWN), st)"
  using assms by (simp add: applyResult_def EXECUTION_TERMINAL_def isValidTransition_def execution_skip_def pushExecutionEvidence_def)

end
