(* ===== verification/PostSettlement.thy ===== *)
theory PostSettlement
  imports MemStore ExecStore ExecutionFeedback
begin

text \<open>
  \<^verbatim>\<open>zeus-secretariat/src/core/post-settlement-engine.ts\<close>: after settlement, the obligation to call
  the seller, its execution under a fenced job, and the recovery of calls whose outcome is unknown.

  The world is the payment store, the execution store, the log of the requests sent to the seller
  and a counter of the random ids used. The seller is outside the program: \<open>seller log r\<close> is
  its answer to request \<open>r\<close> after the requests in \<open>log\<close>. One engine call runs at one
  time \<open>t\<close>; \<open>pc_uuid n\<close> is the n-th random id.
\<close>

section \<open>The seller\<close>

record SellerExecutionRequest =
  rq_idempotencyKey :: string
  rq_url :: string
  rq_method :: string
  rq_body :: json

datatype SellerExecutionResult =
    SR_SUCCESS int json "(string \<times> string) list" int
  | SR_HTTP_FAILURE int json "(string \<times> string) list" int
  | SR_DELIVERY_UNKNOWN string string int

fun result_kind :: "SellerExecutionResult \<Rightarrow> string" where
  "result_kind (SR_SUCCESS c b h d) = ''SUCCESS''"
| "result_kind (SR_HTTP_FAILURE c b h d) = ''HTTP_FAILURE''"
| "result_kind (SR_DELIVERY_UNKNOWN r err d) = ''DELIVERY_UNKNOWN''"

definition headers_json :: "(string \<times> string) list \<Rightarrow> json" where
  "headers_json hs = JObj (map (\<lambda>(k, v). (k, JStr v)) hs)"

fun result_json :: "SellerExecutionResult \<Rightarrow> json" where
  "result_json (SR_SUCCESS c b h d) = JObj [(''kind'', JStr ''SUCCESS''), (''statusCode'', JNum c), (''body'', b), (''headers'', headers_json h), (''durationMs'', JNum d)]"
| "result_json (SR_HTTP_FAILURE c b h d) = JObj [(''kind'', JStr ''HTTP_FAILURE''), (''statusCode'', JNum c), (''body'', b), (''headers'', headers_json h), (''durationMs'', JNum d)]"
| "result_json (SR_DELIVERY_UNKNOWN r err d) = JObj [(''kind'', JStr ''DELIVERY_UNKNOWN''), (''reason'', JStr r), (''error'', JStr err), (''durationMs'', JNum d)]"

text \<open>The log tells executions of an attempt from retrievals of a result.\<close>

datatype seller_call = ExecutionCall string SellerExecutionRequest | RetrievalCall string SellerExecutionRequest

type_synonym seller = "seller_call list \<Rightarrow> SellerExecutionRequest \<Rightarrow> SellerExecutionResult"

definition RETRYABLE_SELLER_STATUSES :: "int list" where
  "RETRYABLE_SELLER_STATUSES = [408, 429, 500, 502, 503, 504]"

section \<open>The engine's world\<close>

record pse_config =
  pc_workerId :: string
  pc_lockDurationMs :: int
  pc_maxExecutionAttempts :: nat
  pc_sellerUrl :: string
  pc_sellerMethod :: string
  pc_resultRetrievalUrl :: string
  pc_uuid :: "nat \<Rightarrow> string"

definition new_PostSettlementEngine ::
    "string \<Rightarrow> int option \<Rightarrow> nat option \<Rightarrow> string \<Rightarrow> string option \<Rightarrow> string option \<Rightarrow> (nat \<Rightarrow> string) \<Rightarrow> pse_config" where
  "new_PostSettlementEngine workerId lockMs maxAttempts sellerUrl sellerMethod retrievalUrl uuid =
     \<lparr>pc_workerId = workerId, pc_lockDurationMs = opt_default 60000 lockMs,
      pc_maxExecutionAttempts = opt_default 3 maxAttempts, pc_sellerUrl = sellerUrl,
      pc_sellerMethod = opt_default ''POST'' sellerMethod, pc_resultRetrievalUrl = opt_default [] retrievalUrl,
      pc_uuid = uuid\<rparr>"

record pse_world =
  pw_pay :: mem_store
  pw_exec :: exec_store
  pw_calls :: "seller_call list"
  pw_ids :: nat

text \<open>\<open>prefix-now-uuid\<close>, with a fresh uuid.\<close>

definition fresh_id :: "pse_config \<Rightarrow> string \<Rightarrow> int \<Rightarrow> pse_world \<Rightarrow> string \<times> pse_world" where
  "fresh_id cfg prefix t w = (prefix @ string_of_int t @ ''-'' @ pc_uuid cfg (pw_ids w), w\<lparr>pw_ids := Suc (pw_ids w)\<rparr>)"

definition appendEvidence :: "string \<Rightarrow> string \<Rightarrow> json \<Rightarrow> int \<Rightarrow> pse_world \<Rightarrow> pse_world" where
  "appendEvidence operationId event payload t w = w\<lparr>pw_pay := append_evidence
     \<lparr>ev_operationId = operationId, ev_phase = EXECUTION, ev_timestamp = t, ev_event = event, ev_payload = payload,
      ev_sequence = Some (length (getEvidence (pw_pay w) operationId))\<rparr> (pw_pay w)\<rparr>"

text \<open>A write to the execution store inside the world.\<close>

definition exec_do :: "(exec_store \<Rightarrow> bool \<times> exec_store) \<Rightarrow> pse_world \<Rightarrow> bool \<times> pse_world" where
  "exec_do f w = (case f (pw_exec w) of (b, xs) \<Rightarrow> (b, w\<lparr>pw_exec := xs\<rparr>))"

section \<open>Creating the obligation\<close>

definition execution_job :: "pse_config \<Rightarrow> string \<Rightarrow> string \<Rightarrow> RecoveryJobStatus \<Rightarrow> JobMetadata \<Rightarrow> int \<Rightarrow> RecoveryJob" where
  "execution_job cfg jobId operationId status md t =
     \<lparr>xj_jobId = jobId, xj_operationId = operationId, xj_jobType = Jt_EXECUTION, xj_status = status, xj_priority = 0,
      xj_maxAttempts = pc_maxExecutionAttempts cfg, xj_currentAttempt = 0, xj_lockedBy = None, xj_lockedUntil = None,
      xj_lastError = None, xj_metadata = Some md, xj_createdAt = t, xj_updatedAt = t\<rparr>"

definition initial_attempt :: "pse_config \<Rightarrow> string \<Rightarrow> string \<Rightarrow> json \<Rightarrow> int \<Rightarrow> ExecutionAttempt" where
  "initial_attempt cfg attemptId operationId requestBody t =
     \<lparr>xa_attemptId = attemptId, xa_operationId = operationId, xa_executionId = operationId,
      xa_attemptNumber = 1, xa_status = Ob_PENDING, xa_requestUrl = Some (pc_sellerUrl cfg),
      xa_requestMethod = Some (pc_sellerMethod cfg), xa_requestBody = requestBody,
      xa_responseStatusCode = None, xa_responseBody = JUndefined, xa_responseHeaders = None,
      xa_errorReason = None, xa_idempotencyKey = Some operationId, xa_startedAt = None,
      xa_completedAt = None, xa_createdAt = t\<rparr>"

definition initiateExecution ::
    "pse_config \<Rightarrow> string \<Rightarrow> ExecutionCapability \<Rightarrow> json \<Rightarrow> int \<Rightarrow> pse_world \<Rightarrow> (exn + (string \<times> string)) \<times> pse_world" where
  "initiateExecution cfg operationId capability requestBody t w =
     (case getPaymentIntentByOperationId (pw_pay w) operationId of
        None \<Rightarrow> (Inl (''INV-8_VIOLATION: Cannot execute '' @ mdash @ '' intent status is NOT_FOUND, expected SETTLED''), w)
      | Some i \<Rightarrow>
          (if pi_settlementState i \<noteq> St_SETTLED
           then (Inl (''INV-8_VIOLATION: Cannot execute '' @ mdash @ '' intent status is '' @ st_name (pi_settlementState i) @
                      '', expected SETTLED''), w)
           else (case fresh_id cfg ''attempt-'' t w of (attemptId, w1) \<Rightarrow>
                (case fresh_id cfg ''job-'' t w1 of (jobId, w2) \<Rightarrow>
                 (let attempt = initial_attempt cfg attemptId operationId requestBody t;
                      job = execution_job cfg jobId operationId Jb_PENDING
                        \<lparr>md_capability = Some capability, md_requestBody = requestBody, md_originalJobId = None,
                         md_resultRetrievalEndpoint = None, md_linkedAttempt = None\<rparr> t;
                      w3 = w2\<lparr>pw_exec := saveAttemptWithJob attempt job (pw_exec w2)\<rparr>
                  in (Inr (attemptId, jobId), appendEvidence operationId ''EXECUTION_INITIATED''
                        (JObj [(''attemptId'', JStr attemptId), (''jobId'', JStr jobId), (''executionId'', JStr operationId),
                               (''capability'', JStr (capability_name capability))]) t w3))))))"

section \<open>One call to the seller\<close>

definition call_seller :: "seller \<Rightarrow> (SellerExecutionRequest \<Rightarrow> seller_call) \<Rightarrow> SellerExecutionRequest \<Rightarrow> pse_world \<Rightarrow>
    SellerExecutionResult \<times> pse_world" where
  "call_seller seller tag r w = (seller (pw_calls w) r, w\<lparr>pw_calls := pw_calls w @ [tag r]\<rparr>)"

definition transient :: "int \<Rightarrow> bool" where
  "transient status = (status \<in> set RETRYABLE_SELLER_STATUSES)"

text \<open>The status and the fields an answer is recorded with.\<close>

fun recorded :: "int \<Rightarrow> SellerExecutionResult \<Rightarrow> ExecutionObligationStatus \<times> AttemptExtra" where
  "recorded t (SR_SUCCESS c b h d) = (Ob_SUCCESS, \<lparr>ax_responseStatusCode = Some c, ax_responseBody = Some b,
     ax_responseHeaders = Some h, ax_errorReason = None, ax_completedAt = Some t\<rparr>)"
| "recorded t (SR_HTTP_FAILURE c b h d) =
     (if transient c
      then (Ob_DELIVERY_UNKNOWN, \<lparr>ax_responseStatusCode = Some c, ax_responseBody = Some b, ax_responseHeaders = None,
        ax_errorReason = Some (''HTTP '' @ string_of_int c @ '' '' @ mdash @ '' transient seller failure (outcome unknown)''),
        ax_completedAt = Some t\<rparr>)
      else (Ob_HTTP_FAILURE, \<lparr>ax_responseStatusCode = Some c, ax_responseBody = Some b, ax_responseHeaders = Some h,
        ax_errorReason = None, ax_completedAt = Some t\<rparr>))"
| "recorded t (SR_DELIVERY_UNKNOWN r err d) = (Ob_DELIVERY_UNKNOWN, \<lparr>ax_responseStatusCode = None, ax_responseBody = None,
     ax_responseHeaders = None, ax_errorReason = Some r, ax_completedAt = Some t\<rparr>)"

definition execution_request :: "pse_config \<Rightarrow> ExecutionAttempt \<Rightarrow> SellerExecutionRequest" where
  "execution_request cfg a = \<lparr>rq_idempotencyKey = opt_default (xa_executionId a) (xa_idempotencyKey a),
     rq_url = opt_default (pc_sellerUrl cfg) (xa_requestUrl a),
     rq_method = opt_default (pc_sellerMethod cfg) (xa_requestMethod a), rq_body = xa_requestBody a\<rparr>"

definition executeAttempt ::
    "pse_config \<Rightarrow> seller \<Rightarrow> string \<Rightarrow> nat \<Rightarrow> string option \<Rightarrow> int \<Rightarrow> pse_world \<Rightarrow>
     (exn + SellerExecutionResult) \<times> pse_world" where
  "executeAttempt cfg seller attemptId g jobId t w =
     (case getAttemptById (pw_exec w) attemptId of
        None \<Rightarrow> (Inl ''ATTEMPT_NOT_FOUND'', w)
      | Some a \<Rightarrow>
     (case exec_do (markAttemptInProgress attemptId g jobId t) w of
        (False, w1) \<Rightarrow> (Inl ''FENCE_REJECTED: lost ownership before seller call'', w1)
      | (True, w1) \<Rightarrow>
     (case call_seller seller (ExecutionCall attemptId) (execution_request cfg a) w1 of (result, w2) \<Rightarrow>
     (let w3 = appendEvidence (xa_operationId a) ''EXECUTION_RESULT_RAW''
                 (JObj [(''attemptId'', JStr attemptId), (''result'', result_json result)]) t w2
      in case recorded t result of (status, extra) \<Rightarrow>
     (case exec_do (updateAttemptStatus attemptId status g extra jobId) w3 of
        (True, w4) \<Rightarrow> (Inr result, w4)
      | (False, w4) \<Rightarrow>
          (Inl (''ATTEMPT_PERSIST_REJECTED: '' @ result_kind result @ '' outcome for attempt '' @ attemptId @
                '' was not durably committed''),
           appendEvidence (xa_operationId a) ''EXECUTION_PERSIST_REJECTED''
             (JObj [(''attemptId'', JStr attemptId), (''jobId'', case jobId of None \<Rightarrow> JNull | Some k \<Rightarrow> JStr k),
                    (''outcome'', JStr (result_kind result)),
                    (''note'', JStr (''Authoritative store rejected the status write '' @ mdash @ '' outcome NOT published''))]) t w4))))))"

section \<open>Processing a job\<close>

record JobOutcome =
  jo_success :: bool
  jo_result :: "SellerExecutionResult option"
  jo_finalStatus :: FinalStatus

type_synonym job_answer = "(exn + JobOutcome) \<times> pse_world"

definition finish :: "bool \<Rightarrow> SellerExecutionResult option \<Rightarrow> FinalStatus \<Rightarrow> exn + JobOutcome" where
  "finish ok r f = Inr \<lparr>jo_success = ok, jo_result = r, jo_finalStatus = f\<rparr>"

definition lost :: "exn + JobOutcome" where
  "lost = finish False None F_RUNNING"

definition close_job :: "string \<Rightarrow> RecoveryJobStatus \<Rightarrow> nat \<Rightarrow> JobExtra \<Rightarrow> int \<Rightarrow> pse_world \<Rightarrow> bool \<times> pse_world" where
  "close_job jobId status g extra t w = exec_do (updateJobStatus jobId status g extra t) w"

definition retry_attempt :: "string \<Rightarrow> RecoveryJob \<Rightarrow> ExecutionAttempt \<Rightarrow> int \<Rightarrow> ExecutionAttempt" where
  "retry_attempt newId job latest t = \<lparr>xa_attemptId = newId, xa_operationId = xj_operationId job,
     xa_executionId = xa_executionId latest, xa_attemptNumber = Suc (xa_attemptNumber latest), xa_status = Ob_PENDING,
     xa_requestUrl = xa_requestUrl latest, xa_requestMethod = xa_requestMethod latest,
     xa_requestBody = xa_requestBody latest, xa_responseStatusCode = None, xa_responseBody = JUndefined,
     xa_responseHeaders = None, xa_errorReason = None, xa_idempotencyKey = xa_idempotencyKey latest,
     xa_startedAt = None, xa_completedAt = None, xa_createdAt = t\<rparr>"

definition retrieval_job :: "string \<Rightarrow> RecoveryJob \<Rightarrow> ExecutionCapability \<Rightarrow> int \<Rightarrow> RecoveryJob" where
  "retrieval_job newId job capability t = \<lparr>xj_jobId = newId, xj_operationId = xj_operationId job,
     xj_jobType = Jt_RETRIEVAL, xj_status = Jb_PENDING, xj_priority = 1, xj_maxAttempts = 3, xj_currentAttempt = 0,
     xj_lockedBy = None, xj_lockedUntil = None, xj_lastError = None,
     xj_metadata = Some \<lparr>md_capability = Some capability, md_requestBody = JUndefined,
       md_originalJobId = Some (xj_jobId job), md_resultRetrievalEndpoint = None, md_linkedAttempt = None\<rparr>,
     xj_createdAt = t, xj_updatedAt = t\<rparr>"

text \<open>Create the retry attempt, or report the lost fence; both recovery branches and the live ones use it.\<close>

definition try_retry ::
    "pse_config \<Rightarrow> RecoveryJob \<Rightarrow> ExecutionAttempt \<Rightarrow> nat \<Rightarrow> string \<Rightarrow> string \<Rightarrow> SellerExecutionResult option \<Rightarrow> int \<Rightarrow>
     pse_world \<Rightarrow> job_answer" where
  "try_retry cfg job latest g reason evidenceReason r t w =
     (case fresh_id cfg ''attempt-retry-'' t w of (newId, w1) \<Rightarrow>
     (case exec_do (createRecoveryAttemptIfOwner (xj_jobId job) (xa_attemptId latest) g (retry_attempt newId job latest t) reason t) w1 of
        (False, w2) \<Rightarrow> (lost, w2)
      | (True, w2) \<Rightarrow> (finish False r F_DELIVERY_UNKNOWN, appendEvidence (xj_operationId job) ''EXECUTION_RETRY_CREATED''
          (JObj [(''reason'', JStr evidenceReason), (''newAttemptId'', JStr newId),
                 (''originalAttemptId'', JStr (xa_attemptId latest))]) t w2)))"

definition recoveryReason :: string where
  "recoveryReason = ''RECOVERY: attempt was ATTEMPTED at crash recovery '' @ mdash @ '' seller call outcome unknown''"

text \<open>The latest attempt was ATTEMPTED when the job was claimed: its outcome is unknown.\<close>

definition recover_attempted ::
    "pse_config \<Rightarrow> RecoveryJob \<Rightarrow> ExecutionAttempt \<Rightarrow> ExecutionCapability \<Rightarrow> nat \<Rightarrow> int \<Rightarrow> pse_world \<Rightarrow> job_answer" where
  "recover_attempted cfg job latest capability g t w =
     (case capability of
        XC_NONE \<Rightarrow>
          (case exec_do (resolveAttemptUnresolvableIfOwner (xj_jobId job) (xa_attemptId latest) g recoveryReason
                  (''INV-10: ATTEMPTED at crash recovery with NONE capability '' @ mdash @ '' no blind retry'') t) w of
             (False, w1) \<Rightarrow> (lost, w1)
           | (True, w1) \<Rightarrow> (finish False None F_UNRESOLVABLE, appendEvidence (xj_operationId job) ''EXECUTION_UNRESOLVABLE''
               (JObj [(''reason'', JStr recoveryReason), (''attemptId'', JStr (xa_attemptId latest))]) t w1))
      | XC_RESULT_RETRIEVAL \<Rightarrow>
          (case fresh_id cfg ''job-retrieval-'' t w of (newId, w1) \<Rightarrow>
          (case exec_do (createRecoveryJobIfOwner (xj_jobId job) (xa_attemptId latest) g (retrieval_job newId job capability t)
                  recoveryReason t) w1 of
             (False, w2) \<Rightarrow> (lost, w2)
           | (True, w2) \<Rightarrow> (finish False None F_DELIVERY_UNKNOWN, appendEvidence (xj_operationId job) ''RETRIEVAL_CREATED''
               (JObj [(''reason'', JStr recoveryReason), (''retrievalJobId'', JStr newId),
                      (''attemptId'', JStr (xa_attemptId latest))]) t w2)))
      | XC_EXECUTION_IDEMPOTENT \<Rightarrow>
          (if xj_currentAttempt job < xj_maxAttempts job
           then try_retry cfg job latest g recoveryReason recoveryReason None t w
           else (case exec_do (updateAttemptStatus (xa_attemptId latest) Ob_UNRESOLVABLE g
                         (no_extra\<lparr>ax_errorReason := Some recoveryReason\<rparr>) None) w of
                   (False, w1) \<Rightarrow> (lost, w1)
                 | (True, w1) \<Rightarrow>
                     (case close_job (xj_jobId job) Jb_UNRESOLVABLE g (because (''Max attempts ('' @ string_of_nat (xj_maxAttempts job) @
                              '') reached '' @ mdash @ '' ATTEMPTED at crash recovery'')) t w1 of
                        (False, w2) \<Rightarrow> (lost, w2)
                      | (True, w2) \<Rightarrow> (finish False None F_UNRESOLVABLE, w2))))
      | XC_other _ \<Rightarrow>
          (finish False None F_UNRESOLVABLE,
           snd (close_job (xj_jobId job) Jb_UNRESOLVABLE g (because ''ATTEMPTED at crash recovery with unknown capability'') t
             (snd (exec_do (updateAttemptStatus (xa_attemptId latest) Ob_UNRESOLVABLE g
                (no_extra\<lparr>ax_errorReason := Some recoveryReason\<rparr>) None) w)))))"

definition retrieval_url :: "pse_config \<Rightarrow> RecoveryJob \<Rightarrow> ExecutionAttempt \<Rightarrow> string" where
  "retrieval_url cfg job a =
     (let endpoint = opt_default [] (Option.bind (xj_metadata job) md_resultRetrievalEndpoint)
      in if endpoint \<noteq> [] then endpoint
         else if pc_resultRetrievalUrl cfg \<noteq> [] then pc_resultRetrievalUrl cfg
         else opt_default (pc_sellerUrl cfg) (xa_requestUrl a) @ ''/result/'' @ xa_executionId a)"

definition arrow :: string where "arrow = [CHR 0xE2, CHR 0x86, CHR 0x92]"

definition performRetrieval ::
    "pse_config \<Rightarrow> seller \<Rightarrow> RecoveryJob \<Rightarrow> ExecutionAttempt \<Rightarrow> nat \<Rightarrow> int \<Rightarrow> pse_world \<Rightarrow> job_answer" where
  "performRetrieval cfg seller job a g t w =
     (case call_seller seller (RetrievalCall (xj_jobId job))
             \<lparr>rq_idempotencyKey = ''retrieval-'' @ xa_executionId a, rq_url = retrieval_url cfg job a,
              rq_method = ''GET'', rq_body = JUndefined\<rparr> w of (result, w1) \<Rightarrow>
     (let w2 = appendEvidence (xj_operationId job) ''RETRIEVAL_RESULT''
                 (JObj [(''jobId'', JStr (xj_jobId job)), (''result'', result_json result)]) t w1;
          failed = (case close_job (xj_jobId job) Jb_UNRESOLVABLE g (because (''Retrieval failed: '' @ result_kind result)) t w2 of
                      (False, w3) \<Rightarrow> (lost, w3)
                    | (True, w3) \<Rightarrow> (finish False None F_UNRESOLVABLE, w3))
      in case result of
        SR_SUCCESS c b h d \<Rightarrow>
          (case exec_do (resolveRetrievalSuccessIfOwner (xj_jobId job) (xa_attemptId a) g
                  \<lparr>ax_responseStatusCode = Some c, ax_responseBody = Some b, ax_responseHeaders = None, ax_errorReason = None,
                   ax_completedAt = Some t\<rparr> t) w2 of
             (False, w3) \<Rightarrow> (lost, appendEvidence (xj_operationId job) ''RETRIEVAL_SUCCESS_NOT_COMMITTED''
               (JObj [(''jobId'', JStr (xj_jobId job)), (''attemptId'', JStr (xa_attemptId a)),
                      (''note'', JStr (''Attempt transition DELIVERY_UNKNOWN'' @ arrow @ ''SUCCESS was rejected '' @ mdash @ '' outcome NOT published''))]) t w3)
           | (True, w3) \<Rightarrow> (finish True None F_SUCCESS, w3))
      | SR_HTTP_FAILURE c b h d \<Rightarrow>
          (if c \<noteq> 404 then failed
           else if xj_maxAttempts job \<le> xj_currentAttempt job
           then (case close_job (xj_jobId job) Jb_UNRESOLVABLE g (because (''Retrieval exhausted maxAttempts ('' @
                        string_of_nat (xj_maxAttempts job) @ '') '' @ mdash @ '' result still unavailable (404)'')) t w2 of
                   (False, w3) \<Rightarrow> (lost, w3)
                 | (True, w3) \<Rightarrow> (finish False None F_UNRESOLVABLE, appendEvidence (xj_operationId job) ''RETRIEVAL_UNRESOLVABLE''
                     (JObj [(''jobId'', JStr (xj_jobId job)), (''reason'', JStr (''Result unavailable after '' @
                        string_of_nat (xj_currentAttempt job) @ '' observation attempts (404)''))]) t w3))
           else (case close_job (xj_jobId job) Jb_PENDING g \<lparr>jx_lastError = Some (''Result not found yet '' @ mdash @ '' observation '' @
                        string_of_nat (xj_currentAttempt job) @ ''/'' @ string_of_nat (xj_maxAttempts job) @
                        '' (requeued with poll-interval backoff)''), jx_unlock = True\<rparr> t w2 of
                   (False, w3) \<Rightarrow> (lost, w3)
                 | (True, w3) \<Rightarrow> (finish False None F_DELIVERY_UNKNOWN, w3)))
      | SR_DELIVERY_UNKNOWN r err d \<Rightarrow> failed))"

definition may_retry :: "ExecutionCapability \<Rightarrow> RecoveryJob \<Rightarrow> bool" where
  "may_retry capability job = (capability = XC_EXECUTION_IDEMPOTENT \<and> xj_currentAttempt job < xj_maxAttempts job)"

text \<open>What becomes of the job once the seller has answered.\<close>

fun handle_result ::
    "pse_config \<Rightarrow> RecoveryJob \<Rightarrow> ExecutionAttempt \<Rightarrow> ExecutionCapability \<Rightarrow> nat \<Rightarrow> int \<Rightarrow> SellerExecutionResult \<Rightarrow>
     pse_world \<Rightarrow> job_answer" where
  "handle_result cfg job latest capability g t (SR_SUCCESS c b h d) w =
     (case close_job (xj_jobId job) Jb_COMPLETED g plain t w of
        (False, w1) \<Rightarrow> (lost, w1)
      | (True, w1) \<Rightarrow> (finish True (Some (SR_SUCCESS c b h d)) F_SUCCESS, appendEvidence (xj_operationId job) ''EXECUTION_SUCCESS''
          (JObj [(''attemptId'', JStr (xa_attemptId latest)), (''statusCode'', JNum c)]) t w1))"
| "handle_result cfg job latest capability g t (SR_HTTP_FAILURE c b h d) w =
     (let r = Some (SR_HTTP_FAILURE c b h d); http = ''HTTP '' @ string_of_int c in
      if transient c then
        (if may_retry capability job
         then try_retry cfg job latest g (http @ '' '' @ mdash @ '' transient seller failure, idempotent retry created'')
                (http @ '' '' @ mdash @ '' transient seller failure'') r t w
         else (let why = http @ '' with capability '' @ capability_name capability @ '' '' @ mdash @ '' outcome unknown, no safe retry'';
                   w1 = snd (exec_do (updateAttemptStatus (xa_attemptId latest) Ob_UNRESOLVABLE g
                          (no_extra\<lparr>ax_errorReason := Some why\<rparr>) (Some (xj_jobId job))) w)
               in case close_job (xj_jobId job) Jb_UNRESOLVABLE g (because (http @ '' '' @ mdash @
                         '' transient seller failure without retry capability '' @ capability_name capability)) t w1 of
                    (False, w2) \<Rightarrow> (lost, w2)
                  | (True, w2) \<Rightarrow> (finish False r F_UNRESOLVABLE, appendEvidence (xj_operationId job) ''EXECUTION_UNRESOLVABLE''
                      (JObj [(''reason'', JStr why), (''attemptId'', JStr (xa_attemptId latest))]) t w2)))
      else (case close_job (xj_jobId job) Jb_FAILED g (because http) t w of
              (False, w1) \<Rightarrow> (lost, w1)
            | (True, w1) \<Rightarrow> (finish False r F_HTTP_FAILURE, appendEvidence (xj_operationId job) ''EXECUTION_HTTP_FAILURE''
                (JObj [(''attemptId'', JStr (xa_attemptId latest)), (''statusCode'', JNum c)]) t w1)))"
| "handle_result cfg job latest capability g t (SR_DELIVERY_UNKNOWN reason err d) w =
     (let r = Some (SR_DELIVERY_UNKNOWN reason err d) in
      if capability = XC_NONE then
        (let w1 = snd (exec_do (updateAttemptStatus (xa_attemptId latest) Ob_UNRESOLVABLE g no_extra (Some (xj_jobId job))) w)
         in case close_job (xj_jobId job) Jb_UNRESOLVABLE g (because ''INV-10: DELIVERY_UNKNOWN with NONE capability'') t w1 of
              (False, w2) \<Rightarrow> (lost, w2)
            | (True, w2) \<Rightarrow> (finish False r F_UNRESOLVABLE, w2))
      else if capability = XC_RESULT_RETRIEVAL then
        (case fresh_id cfg ''job-retrieval-'' t w of (newId, w1) \<Rightarrow>
        (case exec_do (createRecoveryJobIfOwner (xj_jobId job) (xa_attemptId latest) g (retrieval_job newId job capability t)
                (''DELIVERY_UNKNOWN '' @ mdash @ '' retrieval job created'') t) w1 of
           (False, w2) \<Rightarrow> (lost, w2)
         | (True, w2) \<Rightarrow> (finish False r F_DELIVERY_UNKNOWN, w2)))
      else if may_retry capability job then
        try_retry cfg job latest g (''DELIVERY_UNKNOWN '' @ mdash @ '' retry attempt created'')
          (''DELIVERY_UNKNOWN '' @ mdash @ '' retry attempt created'') r t w
      else (case close_job (xj_jobId job) Jb_UNRESOLVABLE g (because (''Max attempts ('' @ string_of_nat (xj_maxAttempts job) @
                   '') reached with DELIVERY_UNKNOWN'')) t w of
              (False, w1) \<Rightarrow> (lost, w1)
            | (True, w1) \<Rightarrow> (finish False r F_UNRESOLVABLE, w1)))"

text \<open>NONE capability and an unknown delivery: the job is closed, nothing is sent.\<close>

definition close_unknown ::
    "RecoveryJob \<Rightarrow> ExecutionAttempt \<Rightarrow> nat \<Rightarrow> int \<Rightarrow> pse_world \<Rightarrow> job_answer" where
  "close_unknown job latest g t w =
     (let w1 = snd (exec_do (updateAttemptStatus (xa_attemptId latest) Ob_UNRESOLVABLE g no_extra (Some (xj_jobId job))) w)
      in case close_job (xj_jobId job) Jb_UNRESOLVABLE g
                (because (''INV-10: DELIVERY_UNKNOWN with NONE capability '' @ mdash @ '' no blind retry'')) t w1 of
           (False, w2) \<Rightarrow> (lost, w2)
         | (True, w2) \<Rightarrow> (finish False None F_UNRESOLVABLE, appendEvidence (xj_operationId job) ''EXECUTION_UNRESOLVABLE''
             (JObj [(''reason'', JStr ''NONE capability cannot recover from DELIVERY_UNKNOWN''),
                    (''attemptId'', JStr (xa_attemptId latest))]) t w2))"

definition job_capability :: "RecoveryJob \<Rightarrow> ExecutionCapability" where
  "job_capability job = opt_default XC_NONE (Option.bind (xj_metadata job) md_capability)"

text \<open>The claimed job: decided by the latest attempt of its operation.\<close>

definition run_claimed ::
    "pse_config \<Rightarrow> seller \<Rightarrow> RecoveryJob \<Rightarrow> nat \<Rightarrow> int \<Rightarrow> pse_world \<Rightarrow> job_answer" where
  "run_claimed cfg seller job g t w =
     (let capability = job_capability job; attempts = getAttemptsByOperation (pw_exec w) (xj_operationId job)
      in if attempts = []
           then (finish False None F_FAILED, snd (close_job (xj_jobId job) Jb_FAILED g (because ''No execution attempt found'') t w))
         else (let latest = last attempts in
           if xa_status latest = Ob_SUCCESS
             then (case close_job (xj_jobId job) Jb_COMPLETED g plain t w of
                     (False, w1) \<Rightarrow> (lost, w1)
                   | (True, w1) \<Rightarrow> (finish True None F_SUCCESS, w1))
           else if xa_status latest = Ob_ATTEMPTED then recover_attempted cfg job latest capability g t w
           else if capability = XC_NONE \<and> xa_status latest = Ob_DELIVERY_UNKNOWN then close_unknown job latest g t w
           else if xj_jobType job = Jt_RETRIEVAL \<and> capability = XC_RESULT_RETRIEVAL
             then performRetrieval cfg seller job latest g t w
           else (case executeAttempt cfg seller (xa_attemptId latest) g (Some (xj_jobId job)) t w of
                   (Inl e, w1) \<Rightarrow> (Inl e, w1)
                 | (Inr result, w1) \<Rightarrow> handle_result cfg job latest capability g t result w1)))"

definition processJob :: "pse_config \<Rightarrow> seller \<Rightarrow> string \<Rightarrow> int \<Rightarrow> pse_world \<Rightarrow> job_answer" where
  "processJob cfg seller jobId t w =
     (case claimJob jobId (pc_workerId cfg) (pc_lockDurationMs cfg) t (pw_exec w) of
        (None, xs) \<Rightarrow> (lost, w\<lparr>pw_exec := xs\<rparr>)
      | (Some g, xs) \<Rightarrow>
          (case getJob xs jobId of
             None \<Rightarrow> (Inl ''JOB_NOT_FOUND'', w\<lparr>pw_exec := xs\<rparr>)
           | Some job \<Rightarrow> run_claimed cfg seller job g t (w\<lparr>pw_exec := xs\<rparr>)))"

section \<open>Recovery and scanning\<close>

text \<open>\<open>recoverPendingJobs\<close>: every claimable job in turn; a throw aborts the loop.\<close>

fun process_all :: "pse_config \<Rightarrow> seller \<Rightarrow> string list \<Rightarrow> int \<Rightarrow> string list \<Rightarrow> pse_world \<Rightarrow> (exn + string list) \<times> pse_world" where
  "process_all cfg seller [] t acc w = (Inr acc, w)"
| "process_all cfg seller (k # ks) t acc w =
     (case processJob cfg seller k t w of
        (Inl e, w1) \<Rightarrow> (Inl e, w1)
      | (Inr out, w1) \<Rightarrow> process_all cfg seller ks t (acc @ [k @ '':'' @ final_name (jo_finalStatus out)]) w1)"

definition recoverPendingJobs :: "pse_config \<Rightarrow> seller \<Rightarrow> int \<Rightarrow> pse_world \<Rightarrow> (exn + string list) \<times> pse_world" where
  "recoverPendingJobs cfg seller t w =
     process_all cfg seller (map xj_jobId (getPendingJobs t (pw_exec w))) t [] w"

text \<open>The status word of an attempt, for evidence.\<close>

fun obligation_name :: "ExecutionObligationStatus \<Rightarrow> string" where
  "obligation_name Ob_PENDING = ''PENDING''"
| "obligation_name Ob_ATTEMPTED = ''ATTEMPTED''"
| "obligation_name Ob_SUCCESS = ''SUCCESS''"
| "obligation_name Ob_HTTP_FAILURE = ''HTTP_FAILURE''"
| "obligation_name Ob_DELIVERY_UNKNOWN = ''DELIVERY_UNKNOWN''"
| "obligation_name Ob_UNRESOLVABLE = ''UNRESOLVABLE''"

definition ensure_one :: "pse_config \<Rightarrow> int \<Rightarrow> DurablePaymentIntent \<Rightarrow> string list \<times> pse_world \<Rightarrow> string list \<times> pse_world" where
  "ensure_one cfg t i = (\<lambda>(created, w).
     (let opId = pi_operationId i; attempts = getAttemptsByOperation (pw_exec w) opId in
      if isStandardPaidCallRecord (pi_facilitatorResponseBody i)
        then (created, appendEvidence opId ''EXECUTION_OBLIGATION_SKIPPED_STANDARD_TRANSPORT''
          (JObj [(''note'', JStr (''STANDARD_PAID_CALL intent '' @ mdash @
                    '' execution discharged by the paid call; feedback service owns completion'')),
                 (''paymentIntentId'', JStr (pi_paymentIntentId i))]) t w)
      else if attempts \<noteq> []
        then (let a = last attempts in
          (case fresh_id cfg ''job-'' t w of (jobId, w1) \<Rightarrow>
           (let job = execution_job cfg jobId opId
                  (if xa_status a \<in> set TERMINAL_OBLIGATION then Jb_COMPLETED else Jb_PENDING)
                  \<lparr>md_capability = Some XC_EXECUTION_IDEMPOTENT, md_requestBody = JUndefined, md_originalJobId = None,
                   md_resultRetrievalEndpoint = None, md_linkedAttempt = Some (xa_attemptId a, xa_status a)\<rparr> t
            in (created @ [opId @ '':'' @ jobId @ '':repaired''],
                appendEvidence opId ''EXECUTION_OBLIGATION_REPAIRED''
                  (JObj [(''jobId'', JStr jobId), (''linkedAttemptId'', JStr (xa_attemptId a)),
                         (''linkedAttemptStatus'', JStr (obligation_name (xa_status a)))]) t
                  (w1\<lparr>pw_exec := saveJob job (pw_exec w1)\<rparr>)))))
      else (case initiateExecution cfg opId XC_EXECUTION_IDEMPOTENT JUndefined t w of
              (Inl _, w1) \<Rightarrow> (created, w1)
            | (Inr (attemptId, jobId), w1) \<Rightarrow> (created @ [opId @ '':'' @ jobId], w1))))"

definition ensureExecutionObligations :: "pse_config \<Rightarrow> int \<Rightarrow> pse_world \<Rightarrow> string list \<times> pse_world" where
  "ensureExecutionObligations cfg t w =
     fold (ensure_one cfg t) (getSettledIntentsWithoutObligation 100 (pw_pay w)) ([], w)"

section \<open>What the engine may do to the execution store\<close>

definition same_obligation :: "ExecutionAttempt \<Rightarrow> ExecutionAttempt \<Rightarrow> bool" where
  "same_obligation a a' = (xa_attemptId a' = xa_attemptId a \<and> xa_operationId a' = xa_operationId a \<and>
     xa_executionId a' = xa_executionId a \<and> xa_idempotencyKey a' = xa_idempotencyKey a \<and>
     (xa_status a \<noteq> Ob_PENDING \<longrightarrow> xa_status a' \<noteq> Ob_PENDING))"

definition attempt_kept :: "exec_store \<Rightarrow> exec_store \<Rightarrow> string \<Rightarrow> bool" where
  "attempt_kept xs xs' k = (case getAttemptById xs k of
     None \<Rightarrow> getAttemptById xs' k = None
   | Some a \<Rightarrow> \<exists>a'. getAttemptById xs' k = Some a' \<and> same_obligation a a')"

definition job_keys :: "exec_store \<Rightarrow> bool" where
  "job_keys xs = (\<forall>k j. getJob xs k = Some j \<longrightarrow> xj_jobId j = k)"

definition exec_same :: "exec_store \<Rightarrow> exec_store \<Rightarrow> bool" where
  "exec_same xs xs' = ((\<forall>k. attempt_kept xs xs' k) \<and> xs_attemptsByOp xs' = xs_attemptsByOp xs \<and>
     (job_keys xs \<longrightarrow> job_keys xs'))"

lemma same_obligation_refl [simp]: "same_obligation a a"
  by (simp add: same_obligation_def)

lemma same_obligation_trans: "same_obligation a b \<Longrightarrow> same_obligation b c \<Longrightarrow> same_obligation a c"
  by (auto simp: same_obligation_def)

lemma attempt_kept_trans: "attempt_kept xs ys k \<Longrightarrow> attempt_kept ys zs k \<Longrightarrow> attempt_kept xs zs k"
  by (auto simp: attempt_kept_def split: option.splits dest: same_obligation_trans)

lemma exec_same_refl [simp]: "exec_same xs xs"
  by (auto simp: exec_same_def attempt_kept_def split: option.splits)

lemma exec_same_trans: "exec_same xs ys \<Longrightarrow> exec_same ys zs \<Longrightarrow> exec_same xs zs"
  by (auto simp: exec_same_def intro: attempt_kept_trans)

lemma index_of_simps [simp]:
  "xs_attemptsByOp (set_attempt k a xs) = xs_attemptsByOp xs" "xs_attemptsByOp (set_job k j xs) = xs_attemptsByOp xs"
  by (simp_all add: set_attempt_def set_job_def)

lemma same_obligation_updates [simp]:
  "same_obligation a (assign_attempt x a) = True"
  "s \<noteq> Ob_PENDING \<Longrightarrow> same_obligation a (a\<lparr>xa_status := s\<rparr>)"
  "s \<noteq> Ob_PENDING \<Longrightarrow> same_obligation a (assign_attempt x (a\<lparr>xa_status := s\<rparr>))"
  "s \<noteq> Ob_PENDING \<Longrightarrow> same_obligation a (a\<lparr>xa_status := s, xa_startedAt := u\<rparr>)"
  "s \<noteq> Ob_PENDING \<Longrightarrow> same_obligation a (a\<lparr>xa_status := s, xa_errorReason := e\<rparr>)"
  "same_obligation a (demote_attempted r a)"
  by (auto simp: same_obligation_def assign_attempt_def demote_attempted_def)

lemma set_attempt_same:
  "getAttemptById xs k = Some a \<Longrightarrow> same_obligation a a' \<Longrightarrow> exec_same xs (set_attempt k a' xs)"
  by (auto simp: exec_same_def attempt_kept_def job_keys_def split: option.splits)

lemma set_job_same: "xj_jobId j = k \<Longrightarrow> exec_same xs (set_job k j xs)"
  by (auto simp: exec_same_def attempt_kept_def job_keys_def split: option.splits)

lemma set_known_job_same:
  "getJob xs k = Some j \<Longrightarrow> xj_jobId j' = xj_jobId j \<Longrightarrow> exec_same xs (set_job k j' xs)"
  by (auto simp: exec_same_def attempt_kept_def job_keys_def split: option.splits)

lemma set_retrieval_same:
  "getJob xs k = Some j \<Longrightarrow> xj_jobId j' = xj_jobId j \<Longrightarrow> getAttemptById xs i = Some b \<Longrightarrow> same_obligation b b' \<Longrightarrow>
   exec_same xs (set_job k j' (set_job (xj_jobId rj) rj (set_attempt i b' xs)))"
  by (auto simp: exec_same_def attempt_kept_def job_keys_def split: option.splits)

lemma assign_ids [simp]:
  "xj_jobId (assign_job x j) = xj_jobId j" "xa_attemptId (assign_attempt y a) = xa_attemptId a"
  by (simp_all add: assign_job_def assign_attempt_def)

lemma writes_same:
  "s \<noteq> Ob_PENDING \<Longrightarrow> exec_same xs (snd (updateAttemptStatus a s g x jobId xs))"
  "exec_same xs (snd (markAttemptInProgress a g jobId t xs))"
  "exec_same xs (snd (updateJobStatus k js g jx t xs))"
  "exec_same xs (snd (resolveRetrievalSuccessIfOwner k a g x t xs))"
  "exec_same xs (snd (resolveAttemptUnresolvableIfOwner k a g e e' t xs))"
  "exec_same xs (snd (createRecoveryJobIfOwner k a g rj e t xs))"
  by (auto simp: fenced_write_defs owns_Some split: option.splits
      intro!: set_attempt_same exec_same_trans [OF set_attempt_same set_known_job_same]
        set_retrieval_same set_known_job_same)

text \<open>A retry adds exactly one attempt.\<close>

definition exec_added :: "exec_store \<Rightarrow> exec_store \<Rightarrow> ExecutionAttempt \<Rightarrow> bool" where
  "exec_added xs xs' r = ((\<forall>k. k \<noteq> xa_attemptId r \<longrightarrow> attempt_kept xs xs' k) \<and>
     getAttemptById xs' (xa_attemptId r) = Some r \<and>
     xs_attemptsByOp xs' = xs_attemptsByOp (index_attempt (xa_operationId r) (xa_attemptId r) xs) \<and>
     (job_keys xs \<longrightarrow> job_keys xs'))"

definition attempt_ok :: "ExecutionAttempt \<Rightarrow> bool" where
  "attempt_ok a = (xa_executionId a = xa_operationId a \<and> xa_idempotencyKey a = Some (xa_operationId a))"

definition exec_ok :: "exec_store \<Rightarrow> bool" where
  "exec_ok xs = ((\<forall>k a. getAttemptById xs k = Some a \<longrightarrow> xa_attemptId a = k \<and> attempt_ok a) \<and> job_keys xs \<and>
     (\<forall>opId ids i. js_get (xs_attemptsByOp xs) opId = Some ids \<longrightarrow> i \<in> set ids \<longrightarrow>
        (\<exists>a. getAttemptById xs i = Some a \<and> xa_operationId a = opId)))"

lemma attempt_kept_back:
  "attempt_kept xs xs' k \<Longrightarrow> getAttemptById xs' k = Some a' \<Longrightarrow> \<exists>a. getAttemptById xs k = Some a \<and> same_obligation a a'"
  by (auto simp: attempt_kept_def split: option.splits)

lemma attempt_kept_fwd:
  "attempt_kept xs xs' k \<Longrightarrow> getAttemptById xs k = Some a \<Longrightarrow> \<exists>a'. getAttemptById xs' k = Some a' \<and> same_obligation a a'"
  by (auto simp: attempt_kept_def)

lemma same_obligation_ok: "same_obligation a a' \<Longrightarrow> attempt_ok a' = attempt_ok a"
  by (simp add: same_obligation_def attempt_ok_def)

lemma exec_same_ok:
  assumes "exec_ok xs" "exec_same xs xs'"
  shows "exec_ok xs'"
proof -
  have k: "attempt_kept xs xs' k" for k using assms(2) by (simp add: exec_same_def)
  have "xa_attemptId a = k \<and> attempt_ok a" if "getAttemptById xs' k = Some a" for k a
    using attempt_kept_back [OF k that] assms(1) by (auto simp: exec_ok_def same_obligation_ok) (simp add: same_obligation_def)
  moreover have "\<exists>a. getAttemptById xs' i = Some a \<and> xa_operationId a = opId"
    if "js_get (xs_attemptsByOp xs) opId = Some ids" "i \<in> set ids" for opId ids i
  proof -
    from that assms(1) obtain a where "getAttemptById xs i = Some a" "xa_operationId a = opId"
      unfolding exec_ok_def by blast
    with attempt_kept_fwd [OF k] show ?thesis by (metis same_obligation_def)
  qed
  ultimately show ?thesis using assms by (simp add: exec_ok_def exec_same_def)
qed

lemma index_attempt_lookup:
  "js_get (xs_attemptsByOp (index_attempt opId i xs)) o1 = Some ids \<Longrightarrow> x \<in> set ids \<Longrightarrow>
   o1 = opId \<and> x = i \<or> (\<exists>old. js_get (xs_attemptsByOp xs) o1 = Some old \<and> x \<in> set old)"
  by (auto simp: index_attempt_def Let_def split: if_splits) (cases "js_get (xs_attemptsByOp xs) opId"; auto)+

lemma exec_added_ok:
  assumes "exec_ok xs" "exec_added xs xs' r" "attempt_ok r" "getAttemptById xs (xa_attemptId r) = None"
  shows "exec_ok xs'"
proof -
  have k: "k \<noteq> xa_attemptId r \<Longrightarrow> attempt_kept xs xs' k" for k using assms(2) by (simp add: exec_added_def)
  have new: "getAttemptById xs' (xa_attemptId r) = Some r" using assms(2) by (simp add: exec_added_def)
  have "xa_attemptId a = k \<and> attempt_ok a" if "getAttemptById xs' k = Some a" for k a
  proof (cases "k = xa_attemptId r")
    case True
    with that new assms(3) show ?thesis by simp
  next
    case False
    from attempt_kept_back [OF k [OF False] that] assms(1) show ?thesis
      by (auto simp: exec_ok_def same_obligation_ok) (simp add: same_obligation_def)
  qed
  moreover have "\<exists>a. getAttemptById xs' i = Some a \<and> xa_operationId a = opId"
    if "js_get (xs_attemptsByOp xs') opId = Some ids" "i \<in> set ids" for opId ids i
  proof -
    from that assms(2) have "js_get (xs_attemptsByOp (index_attempt (xa_operationId r) (xa_attemptId r) xs)) opId = Some ids"
      by (simp add: exec_added_def)
    from index_attempt_lookup [OF this that(2)] show ?thesis
    proof
      assume "opId = xa_operationId r \<and> i = xa_attemptId r"
      with new show ?thesis by simp
    next
      assume "\<exists>old. js_get (xs_attemptsByOp xs) opId = Some old \<and> i \<in> set old"
      with assms(1) obtain a where a: "getAttemptById xs i = Some a" "xa_operationId a = opId" unfolding exec_ok_def by blast
      with assms(4) have "i \<noteq> xa_attemptId r" by auto
      from attempt_kept_fwd [OF k [OF this] a(1)] a(2) show ?thesis by (metis same_obligation_def)
    qed
  qed
  ultimately show ?thesis using assms(1,2) unfolding exec_ok_def exec_added_def by blast
qed

lemma createRecoveryAttempt_effect:
  assumes "createRecoveryAttemptIfOwner k i g r e t xs = (b, xs')" "getAttemptById xs (xa_attemptId r) = None"
  shows "if b then exec_added xs xs' r else xs' = xs"
proof (cases b)
  case False
  with assms(1) show ?thesis by (auto simp: createRecoveryAttemptIfOwner_def split: option.splits if_splits)
next
  case True
  with assms(1) obtain j a where j: "getJob xs k = Some j" "getAttemptById xs i = Some a"
    and xs': "xs' = set_job k (j\<lparr>xj_status := Jb_PENDING, xj_lockedBy := None, xj_lockedUntil := None, xj_updatedAt := t\<rparr>)
                   (index_attempt (xa_operationId r) (xa_attemptId r)
                     (set_attempt (xa_attemptId r) r (set_attempt i (demote_attempted e a) xs)))"
    by (auto simp: createRecoveryAttemptIfOwner_def owns_Some split: option.splits if_splits)
  have "xs_attemptsByOp xs' = xs_attemptsByOp (index_attempt (xa_operationId r) (xa_attemptId r) xs)"
    by (simp add: xs' index_attempt_def Let_def)
  moreover have "i \<noteq> xa_attemptId r" using j assms(2) by auto
  ultimately show ?thesis using True j
    by (auto simp: exec_added_def xs' attempt_kept_def job_keys_def split: option.splits)
qed

section \<open>What the engine may do to the world\<close>

lemma appendEvidence_frame [simp]:
  "pw_exec (appendEvidence opId e p t w) = pw_exec w" "pw_calls (appendEvidence opId e p t w) = pw_calls w"
  "pw_ids (appendEvidence opId e p t w) = pw_ids w"
  by (simp_all add: appendEvidence_def)

lemma fresh_id_frame:
  "fresh_id cfg p t w = (i, w1) \<Longrightarrow> pw_exec w1 = pw_exec w \<and> pw_calls w1 = pw_calls w"
  by (auto simp: fresh_id_def)

lemma exec_do_frame:
  "exec_do f w = (b, w') \<Longrightarrow> pw_calls w' = pw_calls w \<and> pw_ids w' = pw_ids w \<and> f (pw_exec w) = (b, pw_exec w')"
  by (auto simp: exec_do_def split: prod.splits)

lemma exec_do_same:
  assumes "exec_do f w = (b, w')" "\<And>xs. exec_same xs (snd (f xs))"
  shows "pw_calls w' = pw_calls w \<and> pw_ids w' = pw_ids w \<and> exec_same (pw_exec w) (pw_exec w')"
  using exec_do_frame [OF assms(1)] assms(2) [of "pw_exec w"] by simp

lemma exec_do_snd:
  assumes "\<And>xs. exec_same xs (snd (f xs))"
  shows "pw_calls (snd (exec_do f w)) = pw_calls w \<and> pw_ids (snd (exec_do f w)) = pw_ids w \<and> exec_same (pw_exec w) (pw_exec (snd (exec_do f w)))"
  using exec_do_same [OF prod.collapse [symmetric] assms] .

lemma close_job_same:
  "close_job k s g x t w = (b, w') \<Longrightarrow> pw_calls w' = pw_calls w \<and> pw_ids w' = pw_ids w \<and> exec_same (pw_exec w) (pw_exec w')"
  unfolding close_job_def by (erule exec_do_same) (rule writes_same(3))

text \<open>Either no attempt is added, or exactly the retry the capability and the bound allow.\<close>

definition outcome_effect ::
    "pse_config \<Rightarrow> RecoveryJob \<Rightarrow> ExecutionAttempt \<Rightarrow> ExecutionCapability \<Rightarrow> int \<Rightarrow> pse_world \<Rightarrow> pse_world \<Rightarrow> bool" where
  "outcome_effect cfg job latest capability t w w' = (pw_calls w' = pw_calls w \<and>
     (exec_same (pw_exec w) (pw_exec w') \<or>
      may_retry capability job \<and> pw_ids w < pw_ids w' \<and>
      exec_added (pw_exec w) (pw_exec w') (retry_attempt (fst (fresh_id cfg ''attempt-retry-'' t w)) job latest t)))"

definition retry_id_fresh :: "pse_config \<Rightarrow> int \<Rightarrow> pse_world \<Rightarrow> bool" where
  "retry_id_fresh cfg t w = (getAttemptById (pw_exec w) (fst (fresh_id cfg ''attempt-retry-'' t w)) = None)"

lemma outcome_same: "pw_calls w' = pw_calls w \<Longrightarrow> exec_same (pw_exec w) (pw_exec w') \<Longrightarrow> outcome_effect cfg job latest c t w w'"
  by (simp add: outcome_effect_def)

lemma try_retry_effect:
  assumes "try_retry cfg job latest g e e' r t w = (out, w')" "retry_id_fresh cfg t w" "may_retry c job"
  shows "outcome_effect cfg job latest c t w w'"
proof -
  obtain i w1 where f: "fresh_id cfg ''attempt-retry-'' t w = (i, w1)" by fastforce
  note ff = fresh_id_frame [OF f]
  obtain b w2 where d: "exec_do (createRecoveryAttemptIfOwner (xj_jobId job) (xa_attemptId latest) g (retry_attempt i job latest t) e t) w1 = (b, w2)"
    by fastforce
  note dd = exec_do_frame [OF d]
  from dd have "createRecoveryAttemptIfOwner (xj_jobId job) (xa_attemptId latest) g (retry_attempt i job latest t) e t (pw_exec w) = (b, pw_exec w2)"
    using ff by simp
  from createRecoveryAttempt_effect [OF this] assms(2) ff
  have eff: "if b then exec_added (pw_exec w) (pw_exec w2) (retry_attempt i job latest t) else pw_exec w2 = pw_exec w"
    by (simp add: retry_id_fresh_def retry_attempt_def f)
  from assms(1) f d have w': "pw_calls w' = pw_calls w2 \<and> pw_exec w' = pw_exec w2"
    by (cases b) (auto simp: try_retry_def)
  have calls: "pw_calls w' = pw_calls w" using w' dd ff by simp
  have ids: "pw_ids w' = Suc (pw_ids w)" using assms(1) f d dd by (cases b) (auto simp: try_retry_def fresh_id_def)
  show ?thesis
  proof (cases b)
    case True
    with eff w' have "exec_added (pw_exec w) (pw_exec w') (retry_attempt i job latest t)" by simp
    with calls ids assms(3) show ?thesis by (simp add: outcome_effect_def f)
  next
    case False
    with eff w' have "pw_exec w' = pw_exec w" by simp
    with calls show ?thesis by (intro outcome_same) simp_all
  qed
qed

lemma same_step: "pw_calls w' = pw_calls w1 \<and> pw_ids w' = pw_ids w1 \<and> exec_same (pw_exec w1) (pw_exec w') \<Longrightarrow>
   pw_calls w1 = pw_calls w \<and> pw_ids w1 = pw_ids w \<and> exec_same (pw_exec w) (pw_exec w1) \<Longrightarrow>
   pw_calls w' = pw_calls w \<and> pw_ids w' = pw_ids w \<and> exec_same (pw_exec w) (pw_exec w')"
  by (auto intro: exec_same_trans)

lemma retrieval_created_same:
  "exec_do (createRecoveryJobIfOwner k a g rj e t) w = (b, w') \<Longrightarrow>
   pw_calls w' = pw_calls w \<and> pw_ids w' = pw_ids w \<and> exec_same (pw_exec w) (pw_exec w')"
  by (erule exec_do_same) (rule writes_same(6))

lemma attempt_write_same:
  "s \<noteq> Ob_PENDING \<Longrightarrow> exec_do (updateAttemptStatus a s g x jobId) w = (b, w') \<Longrightarrow>
   pw_calls w' = pw_calls w \<and> pw_ids w' = pw_ids w \<and> exec_same (pw_exec w) (pw_exec w')"
  by (erule exec_do_same) (rule writes_same(1))

lemma unresolvable_same:
  "exec_do (resolveAttemptUnresolvableIfOwner k a g e e' t) w = (b, w') \<Longrightarrow>
   pw_calls w' = pw_calls w \<and> pw_ids w' = pw_ids w \<and> exec_same (pw_exec w) (pw_exec w')"
  by (erule exec_do_same) (rule writes_same(5))

lemma retrieved_same:
  "exec_do (resolveRetrievalSuccessIfOwner k a g x t) w = (b, w') \<Longrightarrow>
   pw_calls w' = pw_calls w \<and> pw_ids w' = pw_ids w \<and> exec_same (pw_exec w) (pw_exec w')"
  by (erule exec_do_same) (rule writes_same(4))

lemma marked_same:
  "exec_do (markAttemptInProgress a g k t) w = (b, w') \<Longrightarrow>
   pw_calls w' = pw_calls w \<and> pw_ids w' = pw_ids w \<and> exec_same (pw_exec w) (pw_exec w')"
  by (erule exec_do_same) (rule writes_same(2))

lemma exec_do_pair: "snd (exec_do f w) = w' \<Longrightarrow> \<exists>b. exec_do f w = (b, w')"
  by (metis prod.collapse)

lemma recover_attempted_effect:
  assumes "recover_attempted cfg job latest c g t w = (out, w')" "retry_id_fresh cfg t w"
  shows "outcome_effect cfg job latest c t w w'"
proof (cases c)
  case XC_EXECUTION_IDEMPOTENT
  show ?thesis
  proof (cases "xj_currentAttempt job < xj_maxAttempts job")
    case True
    with assms XC_EXECUTION_IDEMPOTENT show ?thesis
      by (intro try_retry_effect) (auto simp: recover_attempted_def may_retry_def)
  next
    case False
    obtain b w1 where u: "exec_do (updateAttemptStatus (xa_attemptId latest) Ob_UNRESOLVABLE g
        (no_extra\<lparr>ax_errorReason := Some recoveryReason\<rparr>) None) w = (b, w1)" by fastforce
    note us = attempt_write_same [OF _ u, simplified]
    from assms(1) False XC_EXECUTION_IDEMPOTENT u have "w' = w1 \<or> (\<exists>b' x. close_job (xj_jobId job) Jb_UNRESOLVABLE g x t w1 = (b', w'))"
      by (auto simp: recover_attempted_def split: bool.splits prod.splits)
    with us close_job_same show ?thesis by (metis outcome_same same_step)
  qed
next
  case XC_RESULT_RETRIEVAL
  obtain i w1 where f: "fresh_id cfg ''job-retrieval-'' t w = (i, w1)" by fastforce
  obtain b w2 where u: "exec_do (createRecoveryJobIfOwner (xj_jobId job) (xa_attemptId latest) g (retrieval_job i job c t) recoveryReason t) w1 = (b, w2)"
    by fastforce
  from assms(1) XC_RESULT_RETRIEVAL f u have "pw_calls w' = pw_calls w2 \<and> pw_exec w' = pw_exec w2"
    by (auto simp: recover_attempted_def split: bool.splits)
  with retrieval_created_same [OF u] fresh_id_frame [OF f] show ?thesis by (intro outcome_same) simp_all
next
  case XC_NONE
  obtain b w2 where u: "exec_do (resolveAttemptUnresolvableIfOwner (xj_jobId job) (xa_attemptId latest) g recoveryReason
      (''INV-10: ATTEMPTED at crash recovery with NONE capability '' @ mdash @ '' no blind retry'') t) w = (b, w2)" by fastforce
  from assms(1) XC_NONE u have "pw_calls w' = pw_calls w2 \<and> pw_exec w' = pw_exec w2"
    by (auto simp: recover_attempted_def split: bool.splits)
  with unresolvable_same [OF u] show ?thesis by (intro outcome_same) simp_all
next
  case (XC_other x)
  obtain b w1 where u: "exec_do (updateAttemptStatus (xa_attemptId latest) Ob_UNRESOLVABLE g
      (no_extra\<lparr>ax_errorReason := Some recoveryReason\<rparr>) None) w = (b, w1)" by fastforce
  obtain b' w2 where v: "close_job (xj_jobId job) Jb_UNRESOLVABLE g (because ''ATTEMPTED at crash recovery with unknown capability'') t w1 = (b', w2)"
    by fastforce
  from assms(1) XC_other u v have "w' = w2" by (simp add: recover_attempted_def)
  with close_job_same [OF v] attempt_write_same [OF _ u, simplified] show ?thesis by (metis outcome_same same_step)
qed

lemma close_after_write_same:
  assumes "close_job k s g x t (snd (exec_do (updateAttemptStatus a Ob_UNRESOLVABLE g' y jid) w)) = (b, w2)"
  shows "pw_calls w2 = pw_calls w \<and> pw_ids w2 = pw_ids w \<and> exec_same (pw_exec w) (pw_exec w2)"
  using same_step [OF close_job_same [OF assms] attempt_write_same [OF _ prod.collapse [symmetric]]] by simp

lemma close_unknown_effect:
  "close_unknown job latest g t w = (out, w') \<Longrightarrow> pw_calls w' = pw_calls w \<and> exec_same (pw_exec w) (pw_exec w')"
  unfolding close_unknown_def Let_def
  by (auto split: prod.splits bool.splits dest!: close_after_write_same)

lemma handle_result_effect:
  assumes "handle_result cfg job latest c g t result w = (out, w')" "retry_id_fresh cfg t w"
  shows "outcome_effect cfg job latest c t w w'"
proof (cases result)
  case (SR_SUCCESS code b h d)
  with assms(1) show ?thesis
    by (auto split: prod.splits bool.splits dest!: close_job_same intro!: outcome_same)
next
  case (SR_HTTP_FAILURE code b h d)
  consider (retry) "transient code" "may_retry c job" | (unknown) "transient code" "\<not> may_retry c job" | (final) "\<not> transient code"
    by blast
  then show ?thesis
  proof cases
    case retry
    with assms SR_HTTP_FAILURE show ?thesis by (auto simp: Let_def intro: try_retry_effect)
  next
    case unknown
    with assms(1) SR_HTTP_FAILURE show ?thesis
      by (auto simp: Let_def split: prod.splits bool.splits dest!: close_after_write_same intro!: outcome_same)
  next
    case final
    with assms(1) SR_HTTP_FAILURE show ?thesis
      by (auto simp: Let_def split: prod.splits bool.splits dest!: close_job_same intro!: outcome_same)
  qed
next
  case (SR_DELIVERY_UNKNOWN reason err d)
  consider (none) "c = XC_NONE" | (retr) "c = XC_RESULT_RETRIEVAL" | (retry) "c \<noteq> XC_NONE" "c \<noteq> XC_RESULT_RETRIEVAL" "may_retry c job"
    | (cap) "c \<noteq> XC_NONE" "c \<noteq> XC_RESULT_RETRIEVAL" "\<not> may_retry c job" by blast
  then show ?thesis
  proof cases
    case none
    with assms(1) SR_DELIVERY_UNKNOWN show ?thesis
      by (auto simp: Let_def split: prod.splits bool.splits dest!: close_after_write_same intro!: outcome_same)
  next
    case retr
    with assms(1) SR_DELIVERY_UNKNOWN show ?thesis
      by (auto simp: Let_def split: prod.splits bool.splits dest!: retrieval_created_same fresh_id_frame intro!: outcome_same)
  next
    case retry
    with assms SR_DELIVERY_UNKNOWN show ?thesis by (auto simp: Let_def intro: try_retry_effect)
  next
    case cap
    with assms(1) SR_DELIVERY_UNKNOWN show ?thesis
      by (auto simp: Let_def split: prod.splits bool.splits dest!: close_job_same intro!: outcome_same)
  qed
qed

end
