(* ===== verification/SellerCalls.thy ===== *)
theory SellerCalls
  imports PostSettlement
begin

text \<open>
  The calls \<^verbatim>\<open>zeus-secretariat/src/core/post-settlement-engine.ts\<close> makes to the seller,
  over all runs of its entry points in any order, by any number of engines sharing the stores:
  each attempt is sent at most once, under the operation's own idempotency key, and only for an
  operation whose payment is settled.
\<close>

section \<open>Ids and the payment store only move forward\<close>

definition world_le :: "pse_world \<Rightarrow> pse_world \<Rightarrow> bool" where
  "world_le w w' = (pw_ids w \<le> pw_ids w' \<and> store_step\<^sup>*\<^sup>* (pw_pay w) (pw_pay w'))"

lemma world_le_refl [simp, intro]: "world_le w w"
  by (simp add: world_le_def)

lemma world_le_trans: "world_le u v \<Longrightarrow> world_le v w \<Longrightarrow> world_le u w"
  by (auto simp: world_le_def)

lemma world_le_evidence [intro]: "world_le u w \<Longrightarrow> world_le u (appendEvidence i e p t w)"
  by (auto simp: world_le_def appendEvidence_def intro: rtranclp.rtrancl_into_rtrancl step_evidence)

lemma world_le_exec [intro]: "world_le u w \<Longrightarrow> world_le u (w\<lparr>pw_exec := xs\<rparr>)"
  by (simp add: world_le_def)

lemma exec_do_le: "exec_do f w = (b, w') \<Longrightarrow> world_le w w'"
  by (auto simp: exec_do_def world_le_def split: prod.splits)

lemma exec_do_snd_le [intro]: "world_le u w \<Longrightarrow> world_le u (snd (exec_do f w))"
  by (auto simp: exec_do_def world_le_def split: prod.splits)

lemma fresh_id_le: "fresh_id cfg p t w = (i, w') \<Longrightarrow> world_le w w'"
  by (auto simp: fresh_id_def world_le_def)

lemma call_seller_le: "call_seller s tag r w = (x, w') \<Longrightarrow> world_le w w'"
  by (auto simp: call_seller_def world_le_def)

lemma close_job_le: "close_job k s g x t w = (b, w') \<Longrightarrow> world_le w w'"
  unfolding close_job_def by (rule exec_do_le)

lemmas le_steps = exec_do_le fresh_id_le call_seller_le close_job_le

lemma close_job_snd_le [intro]: "world_le u w \<Longrightarrow> world_le u (snd (close_job k s g x t w))"
  unfolding close_job_def by (rule exec_do_snd_le)

lemma try_retry_le: "try_retry cfg job latest g e e' r t w = (out, w') \<Longrightarrow> world_le w w'"
  by (auto simp: try_retry_def split: prod.splits bool.splits dest!: le_steps intro: world_le_trans)

lemma recover_attempted_le: "recover_attempted cfg job latest c g t w = (out, w') \<Longrightarrow> world_le w w'"
  by (auto simp: recover_attempted_def split: ExecutionCapability.splits prod.splits bool.splits if_splits
      dest!: le_steps try_retry_le intro: world_le_trans)

lemma close_unknown_le: "close_unknown job latest g t w = (out, w') \<Longrightarrow> world_le w w'"
  by (auto simp: close_unknown_def Let_def split: prod.splits bool.splits dest!: le_steps
      intro: world_le_trans [OF exec_do_snd_le [OF world_le_refl]])

lemma handle_result_le: "handle_result cfg job latest c g t r w = (out, w') \<Longrightarrow> world_le w w'"
  by (cases r) (auto simp: Let_def split: prod.splits bool.splits if_splits dest!: le_steps try_retry_le
      intro: world_le_trans world_le_trans [OF exec_do_snd_le [OF world_le_refl]])

text \<open>The two outcomes of an attempt: no request is sent, or exactly one after the mark.\<close>

lemma executeAttempt_cases:
  assumes "executeAttempt cfg s i g k t w = (out, w')"
  obtains (unsent) e where "out = Inl e" "w' = w \<or> (\<exists>b. exec_do (markAttemptInProgress i g k t) w = (b, w'))"
  | (sent) a w1 r w2 st x b w4 op e p op' e' p' where "getAttemptById (pw_exec w) i = Some a"
      "exec_do (markAttemptInProgress i g k t) w = (True, w1)"
      "call_seller s (ExecutionCall i) (execution_request cfg a) w1 = (r, w2)" "recorded t r = (st, x)"
      "exec_do (updateAttemptStatus i st g x k) (appendEvidence op e p t w2) = (b, w4)"
      "w' = (if b then w4 else appendEvidence op' e' p' t w4)" "if b then out = Inr r else isl out"
proof (cases "getAttemptById (pw_exec w) i")
  case None
  with assms show ?thesis by (intro unsent) (auto simp: executeAttempt_def)
next
  case (Some a)
  obtain m w1 where m: "exec_do (markAttemptInProgress i g k t) w = (m, w1)" by fastforce
  show ?thesis
  proof (cases m)
    case False
    with assms Some m show ?thesis by (intro unsent) (auto simp: executeAttempt_def)
  next
    case True
    with m have m': "exec_do (markAttemptInProgress i g k t) w = (True, w1)" by simp
    obtain r w2 where c: "call_seller s (ExecutionCall i) (execution_request cfg a) w1 = (r, w2)" by fastforce
    obtain st x where rec: "recorded t r = (st, x)" by fastforce
    obtain b w4 where u: "exec_do (updateAttemptStatus i st g x k) (appendEvidence (xa_operationId a) ''EXECUTION_RESULT_RAW''
        (JObj [(''attemptId'', JStr i), (''result'', result_json r)]) t w2) = (b, w4)" by fastforce
    show ?thesis
    proof (cases b)
      case b: True
      show ?thesis
        by (rule sent [OF Some m' c rec u])
           (use assms Some m' c rec u b in \<open>simp_all add: executeAttempt_def Let_def\<close>)
    next
      case b: False
      show ?thesis
        by (rule sent [OF Some m' c rec u, of "xa_operationId a" "''EXECUTION_PERSIST_REJECTED''"])
           (use assms Some m' c rec u b in \<open>auto simp: executeAttempt_def Let_def\<close>)
    qed
  qed
qed

lemma executeAttempt_le: "executeAttempt cfg s i g k t w = (out, w') \<Longrightarrow> world_le w w'"
proof (erule executeAttempt_cases)
  fix a w1 r w2 st x b w4 op e p op' e' p'
  assume "exec_do (markAttemptInProgress i g k t) w = (True, w1)" "call_seller s (ExecutionCall i) (execution_request cfg a) w1 = (r, w2)"
    "exec_do (updateAttemptStatus i st g x k) (appendEvidence op e p t w2) = (b, w4)"
    "w' = (if b then w4 else appendEvidence op' e' p' t w4)"
  from this(1,2) have 2: "world_le w w2" by (blast dest: le_steps intro: world_le_trans)
  have 4: "world_le w w4"
    by (rule world_le_trans [OF world_le_evidence [OF 2] exec_do_le]) fact
  then show "world_le w w'" using \<open>w' = _\<close> by (simp add: world_le_evidence)
qed (auto dest: exec_do_le)

lemma performRetrieval_le: "performRetrieval cfg s job a g t w = (out, w') \<Longrightarrow> world_le w w'"
  by (auto simp: performRetrieval_def Let_def split: SellerExecutionResult.splits prod.splits bool.splits if_splits
      dest!: le_steps intro: world_le_trans)

section \<open>The invariant\<close>

fun executed :: "seller_call list \<Rightarrow> string list" where
  "executed [] = []"
| "executed (ExecutionCall i r # cs) = i # executed cs"
| "executed (RetrievalCall k r # cs) = executed cs"

lemma executed_append [simp]: "executed (cs @ ds) = executed cs @ executed ds"
  by (induction cs rule: executed.induct) simp_all

lemma executed_mem: "i \<in> set (executed cs) \<longleftrightarrow> (\<exists>r. ExecutionCall i r \<in> set cs)"
  by (induction cs rule: executed.induct) auto

definition calls_ok :: "pse_world \<Rightarrow> bool" where
  "calls_ok w = (distinct (executed (pw_calls w)) \<and>
     (\<forall>i r. ExecutionCall i r \<in> set (pw_calls w) \<longrightarrow> (\<exists>a. getAttemptById (pw_exec w) i = Some a \<and>
        xa_status a \<noteq> Ob_PENDING \<and> rq_idempotencyKey r = xa_operationId a)))"

definition settled_op :: "mem_store \<Rightarrow> string \<Rightarrow> bool" where
  "settled_op st opId = (case getPaymentIntentByOperationId st opId of
     None \<Rightarrow> False | Some i \<Rightarrow> pi_settlementState i = St_SETTLED)"

definition paid_ok :: "pse_world \<Rightarrow> bool" where
  "paid_ok w = (intents_wf (pw_pay w) \<and>
     (\<forall>k a. getAttemptById (pw_exec w) k = Some a \<longrightarrow> settled_op (pw_pay w) (xa_operationId a)))"

definition ids_ok :: "(nat \<Rightarrow> string) \<Rightarrow> pse_world \<Rightarrow> bool" where
  "ids_ok uuid w = (\<forall>k a. getAttemptById (pw_exec w) k = Some a \<longrightarrow> (\<exists>n p. n < pw_ids w \<and> k = p @ ''-'' @ uuid n))"

definition engine_inv :: "(nat \<Rightarrow> string) \<Rightarrow> pse_world \<Rightarrow> bool" where
  "engine_inv uuid w = (exec_ok (pw_exec w) \<and> calls_ok w \<and> paid_ok w \<and> ids_ok uuid w)"

lemma settled_op_iff:
  "intents_wf st \<Longrightarrow> settled_op st opId \<longleftrightarrow> (\<exists>k i. mem_intent st k = Some i \<and> pi_operationId i = opId \<and> pi_settlementState i = St_SETTLED)"
  by (auto simp: settled_op_def getPaymentIntentByOperationId_def with_payer_def findIntentByOperationId_Some mem_intent_def
      split: option.splits)
     (metis findIntentByOperationId_Some not_None_eq option.inject)+

lemma settled_op_stays:
  assumes "store_step\<^sup>*\<^sup>* st st'" "intents_wf st" "settled_op st opId"
  shows "settled_op st' opId"
proof -
  from assms(2,3) obtain k i where i: "mem_intent st k = Some i" "pi_operationId i = opId" "pi_settlementState i = St_SETTLED"
    by (auto simp: settled_op_iff)
  from store_steps_intent [OF assms(1) i(1)] i obtain i' where
    "mem_intent st' k = Some i'" "pi_operationId i' = opId" "pi_settlementState i' = St_SETTLED"
    by auto
  with store_steps_wf [OF assms(1,2)] show ?thesis by (auto simp: settled_op_iff)
qed

definition same_calls :: "pse_world \<Rightarrow> pse_world \<Rightarrow> bool" where
  "same_calls w w' = (\<exists>cs. pw_calls w' = pw_calls w @ cs \<and> (\<forall>c \<in> set cs. \<exists>k r. c = RetrievalCall k r))"

lemma same_calls_refl [intro]: "pw_calls w' = pw_calls w \<Longrightarrow> same_calls w w'"
  by (simp add: same_calls_def)

lemma executed_retrievals: "\<forall>c \<in> set cs. \<exists>k r. c = RetrievalCall k r \<Longrightarrow> executed cs = []"
  by (induction cs rule: executed.induct) auto

text \<open>What was known of every attempt is kept.\<close>

lemma calls_ok_kept:
  assumes "calls_ok w" "same_calls w w'" "\<And>k a. getAttemptById (pw_exec w) k = Some a \<Longrightarrow>
    \<exists>a'. getAttemptById (pw_exec w') k = Some a' \<and> same_obligation a a'"
  shows "calls_ok w'"
proof -
  from assms(2) obtain cs where cs: "pw_calls w' = pw_calls w @ cs" "\<forall>c \<in> set cs. \<exists>k r. c = RetrievalCall k r"
    by (auto simp: same_calls_def)
  have "\<exists>a. getAttemptById (pw_exec w') i = Some a \<and> xa_status a \<noteq> Ob_PENDING \<and> rq_idempotencyKey r = xa_operationId a"
    if "ExecutionCall i r \<in> set (pw_calls w')" for i r
  proof -
    from that cs have "ExecutionCall i r \<in> set (pw_calls w)" by auto
    with assms(1) obtain a where a: "getAttemptById (pw_exec w) i = Some a" "xa_status a \<noteq> Ob_PENDING"
      "rq_idempotencyKey r = xa_operationId a" by (auto simp: calls_ok_def)
    from assms(3) [OF a(1)] a show ?thesis by (auto simp: same_obligation_def)
  qed
  with assms(1) cs show ?thesis by (simp add: calls_ok_def executed_retrievals)
qed

lemma exec_same_fwd: "exec_same xs xs' \<Longrightarrow> getAttemptById xs k = Some a \<Longrightarrow> \<exists>a'. getAttemptById xs' k = Some a' \<and> same_obligation a a'"
  by (auto simp: exec_same_def intro: attempt_kept_fwd)

lemma exec_same_back: "exec_same xs xs' \<Longrightarrow> getAttemptById xs' k = Some a' \<Longrightarrow> \<exists>a. getAttemptById xs k = Some a \<and> same_obligation a a'"
  by (auto simp: exec_same_def intro: attempt_kept_back)

lemma paid_ok_from:
  assumes "paid_ok w" "world_le w w'" "\<And>k a'. getAttemptById (pw_exec w') k = Some a' \<Longrightarrow> settled_op (pw_pay w) (xa_operationId a')"
  shows "paid_ok w'"
  using assms store_steps_wf settled_op_stays by (auto simp: paid_ok_def world_le_def)

lemma ids_okD: "ids_ok uuid w \<Longrightarrow> getAttemptById (pw_exec w) k = Some a \<Longrightarrow> \<exists>n p. n < pw_ids w \<and> k = p @ ''-'' @ uuid n"
  by (simp add: ids_ok_def)

lemma ids_ok_le: "\<exists>n p. n < pw_ids w \<and> k = p @ ''-'' @ uuid n \<Longrightarrow> world_le w w' \<Longrightarrow> \<exists>n p. n < pw_ids w' \<and> k = p @ ''-'' @ uuid n"
  unfolding world_le_def by (elim exE conjE, rule exI, rule exI, rule conjI, erule (1) order_less_le_trans)

lemma inv_frame:
  assumes "engine_inv uuid w" "exec_same (pw_exec w) (pw_exec w')" "calls_ok w'" "world_le w w'"
  shows "engine_inv uuid w'"
proof -
  note inv = assms(1) [unfolded engine_inv_def]
  have "exec_ok (pw_exec w')" using exec_same_ok inv assms(2) by blast
  moreover have "paid_ok w'"
  proof (rule paid_ok_from [OF _ assms(4)])
    fix k a' assume "getAttemptById (pw_exec w') k = Some a'"
    from exec_same_back [OF assms(2) this] inv show "settled_op (pw_pay w) (xa_operationId a')"
      by (auto simp: paid_ok_def same_obligation_def)
  qed (use inv in simp)
  moreover have "ids_ok uuid w'"
    unfolding ids_ok_def
  proof (intro allI impI)
    fix k a' assume "getAttemptById (pw_exec w') k = Some a'"
    from exec_same_back [OF assms(2) this] obtain a where "getAttemptById (pw_exec w) k = Some a" by blast
    then show "\<exists>n p. n < pw_ids w' \<and> k = p @ ''-'' @ uuid n"
      using inv by (intro ids_ok_le [OF ids_okD assms(4)]) simp_all
  qed
  ultimately show ?thesis using assms(3) by (simp add: engine_inv_def)
qed

lemma inv_same:
  assumes "engine_inv uuid w" "exec_same (pw_exec w) (pw_exec w')" "same_calls w w'" "world_le w w'"
  shows "engine_inv uuid w'"
proof -
  have "calls_ok w'"
    by (rule calls_ok_kept [OF _ assms(3) exec_same_fwd [OF assms(2)]]) (use assms(1) in \<open>simp_all add: engine_inv_def\<close>)
  from inv_frame [OF assms(1,2) this assms(4)] show ?thesis .
qed

lemma inv_added:
  assumes "engine_inv uuid w" "exec_added (pw_exec w) (pw_exec w') r" "same_calls w w'" "world_le w w'"
    and "attempt_ok r" "settled_op (pw_pay w) (xa_operationId r)" "getAttemptById (pw_exec w) (xa_attemptId r) = None"
    and "n < pw_ids w'" "xa_attemptId r = p @ ''-'' @ uuid n"
  shows "engine_inv uuid w'"
proof -
  note inv = assms(1) [unfolded engine_inv_def]
  have k: "attempt_kept (pw_exec w) (pw_exec w') k" if "k \<noteq> xa_attemptId r" for k
    using assms(2) that by (simp add: exec_added_def)
  have new: "getAttemptById (pw_exec w') (xa_attemptId r) = Some r" using assms(2) by (simp add: exec_added_def)
  have old: "a' = r \<and> k = xa_attemptId r \<or> (\<exists>a. getAttemptById (pw_exec w) k = Some a \<and> same_obligation a a')"
    if "getAttemptById (pw_exec w') k = Some a'" for k a'
    using attempt_kept_back [OF k that] new that by (cases "k = xa_attemptId r") auto
  have "exec_ok (pw_exec w')" using exec_added_ok [OF _ assms(2,5,7)] inv by simp
  moreover have "calls_ok w'"
  proof (rule calls_ok_kept [OF _ assms(3)])
    fix k a assume a: "getAttemptById (pw_exec w) k = Some a"
    with assms(7) have "k \<noteq> xa_attemptId r" by auto
    from attempt_kept_fwd [OF k [OF this] a] show "\<exists>a'. getAttemptById (pw_exec w') k = Some a' \<and> same_obligation a a'" .
  qed (use inv in simp)
  moreover have "paid_ok w'"
  proof (rule paid_ok_from [OF _ assms(4)])
    fix k a' assume "getAttemptById (pw_exec w') k = Some a'"
    from old [OF this] inv assms(6) show "settled_op (pw_pay w) (xa_operationId a')"
      by (auto simp: paid_ok_def same_obligation_def)
  qed (use inv in simp)
  moreover have "ids_ok uuid w'"
    unfolding ids_ok_def
  proof (intro allI impI)
    fix k a' assume "getAttemptById (pw_exec w') k = Some a'"
    from old [OF this] show "\<exists>n p. n < pw_ids w' \<and> k = p @ ''-'' @ uuid n"
    proof (elim disjE conjE exE)
      assume "k = xa_attemptId r" with assms(8,9) show ?thesis by blast
    next
      fix a assume "getAttemptById (pw_exec w) k = Some a"
      then show ?thesis using inv by (intro ids_ok_le [OF ids_okD assms(4)]) simp_all
    qed
  qed
  ultimately show ?thesis by (simp add: engine_inv_def)
qed

section \<open>Every entry point keeps the invariant\<close>

text \<open>What the code relies on of \<open>randomUUID\<close>: a hyphen followed by one determines its number.\<close>

definition fresh_uuids :: "(nat \<Rightarrow> string) \<Rightarrow> bool" where
  "fresh_uuids uuid = (\<forall>n m p q. p @ ''-'' @ uuid n = q @ ''-'' @ uuid m \<longrightarrow> n = m)"

lemma fresh_id_is_fresh:
  assumes "fresh_uuids (pc_uuid cfg)" "ids_ok (pc_uuid cfg) w"
  shows "getAttemptById (pw_exec w) (fst (fresh_id cfg p t w)) = None"
proof (rule ccontr)
  assume "\<not> ?thesis"
  then obtain a where "getAttemptById (pw_exec w) (fst (fresh_id cfg p t w)) = Some a" by blast
  with assms(2) obtain n q where n: "n < pw_ids w" "(p @ string_of_int t) @ ''-'' @ pc_uuid cfg (pw_ids w) = q @ ''-'' @ pc_uuid cfg n"
    unfolding ids_ok_def fresh_id_def fst_conv append_assoc by blast
  from assms(1) n(2) have "pw_ids w = n" unfolding fresh_uuids_def by blast
  with n(1) show False by simp
qed

lemma fresh_id_form: "fresh_id cfg p t w = (i, w1) \<Longrightarrow>
  i = (p @ string_of_int t) @ ''-'' @ pc_uuid cfg (pw_ids w) \<and> pw_ids w1 = Suc (pw_ids w) \<and> pw_pay w1 = pw_pay w"
  by (auto simp: fresh_id_def)

lemma recorded_not_pending: "recorded t r = (st, x) \<Longrightarrow> st \<noteq> Ob_PENDING"
  by (cases r) (auto split: if_splits)

lemma mark_takes:
  "exec_do (markAttemptInProgress i g k t) w = (True, w1) \<Longrightarrow>
   \<exists>a a'. getAttemptById (pw_exec w) i = Some a \<and> xa_status a = Ob_PENDING \<and>
     getAttemptById (pw_exec w1) i = Some a' \<and> xa_status a' = Ob_ATTEMPTED"
  by (auto simp: exec_do_def markAttemptInProgress_def split: prod.splits option.splits if_splits)

lemma execution_key:
  "attempt_ok a \<Longrightarrow> rq_idempotencyKey (execution_request cfg a) = xa_operationId a"
  by (simp add: attempt_ok_def execution_request_def)

lemma executeAttempt_sent:
  assumes "executeAttempt cfg s i g k t w = (out, w')"
  shows "pw_calls w' = pw_calls w \<and> exec_same (pw_exec w) (pw_exec w') \<or>
    (\<exists>a a'. getAttemptById (pw_exec w) i = Some a \<and> xa_status a = Ob_PENDING \<and>
       pw_calls w' = pw_calls w @ [ExecutionCall i (execution_request cfg a)] \<and>
       exec_same (pw_exec w) (pw_exec w') \<and> getAttemptById (pw_exec w') i = Some a' \<and> xa_status a' \<noteq> Ob_PENDING)"
  using assms
proof (cases rule: executeAttempt_cases)
  case (unsent e)
  from unsent(2) have "pw_calls w' = pw_calls w \<and> exec_same (pw_exec w) (pw_exec w')"
    using marked_same by auto
  then show ?thesis by (rule disjI1)
next
  case (sent a w1 r w2 st x b w4 op e p op' e' p')
  note m = marked_same [OF sent(2)]
  from mark_takes [OF sent(2)] sent(1) obtain a1 where a1: "xa_status a = Ob_PENDING"
    "getAttemptById (pw_exec w1) i = Some a1" "xa_status a1 = Ob_ATTEMPTED" by auto
  have w2: "pw_exec w2 = pw_exec w1" "pw_calls w2 = pw_calls w1 @ [ExecutionCall i (execution_request cfg a)]"
    using sent(3) by (auto simp: call_seller_def)
  have w4: "pw_calls w4 = pw_calls w2" "exec_same (pw_exec w1) (pw_exec w4)"
    using attempt_write_same [OF recorded_not_pending [OF sent(4)] sent(5)] w2 by simp_all
  have w': "pw_calls w' = pw_calls w4" "pw_exec w' = pw_exec w4" using sent(6) by simp_all
  from exec_same_fwd [OF w4(2) a1(2)] a1(3) obtain a' where
    "getAttemptById (pw_exec w') i = Some a'" "xa_status a' \<noteq> Ob_PENDING" by (auto simp: same_obligation_def w')
  moreover have "exec_same (pw_exec w) (pw_exec w')" using m w4(2) w' exec_same_trans by metis
  moreover have "pw_calls w' = pw_calls w @ [ExecutionCall i (execution_request cfg a)]" using w' w4 w2 m by simp
  ultimately show ?thesis using sent(1) a1(1) by blast
qed

lemma executeAttempt_inv:
  assumes "executeAttempt cfg s i g k t w = (out, w')" "engine_inv uuid w"
  shows "engine_inv uuid w'"
  using executeAttempt_sent [OF assms(1)]
proof (elim disjE exE conjE)
  fix a a'
  assume a: "getAttemptById (pw_exec w) i = Some a" "xa_status a = Ob_PENDING"
    and c: "pw_calls w' = pw_calls w @ [ExecutionCall i (execution_request cfg a)]"
    and e: "exec_same (pw_exec w) (pw_exec w')" and a': "getAttemptById (pw_exec w') i = Some a'" "xa_status a' \<noteq> Ob_PENDING"
  from assms(2) have inv: "calls_ok w" "exec_ok (pw_exec w)" by (simp_all add: engine_inv_def)
  from inv(1) a have new: "i \<notin> set (executed (pw_calls w))" by (fastforce simp: calls_ok_def executed_mem)
  have key: "rq_idempotencyKey (execution_request cfg a) = xa_operationId a'"
    using inv(2) a(1) exec_same_fwd [OF e a(1)] a'(1) by (auto simp: exec_ok_def execution_key same_obligation_def)
  have "calls_ok (w'\<lparr>pw_calls := pw_calls w\<rparr>)"
    by (rule calls_ok_kept [OF inv(1)]) (use exec_same_fwd [OF e] in auto)
  with new key a' have "calls_ok w'" by (auto simp: calls_ok_def c)
  then show ?thesis by (rule inv_frame [OF assms(2) e _ executeAttempt_le [OF assms(1)]])
qed (use assms executeAttempt_le in \<open>blast intro: inv_same\<close>)

text \<open>The attempt a job acts on.\<close>

definition served :: "pse_world \<Rightarrow> RecoveryJob \<Rightarrow> ExecutionAttempt \<Rightarrow> bool" where
  "served w job a = (attempt_ok a \<and> xa_operationId a = xj_operationId job \<and> settled_op (pw_pay w) (xj_operationId job))"

lemma attempt_of_operation:
  "exec_ok xs \<Longrightarrow> a \<in> set (getAttemptsByOperation xs opId) \<Longrightarrow>
   getAttemptById xs (xa_attemptId a) = Some a \<and> xa_operationId a = opId \<and> attempt_ok a"
  by (cases "js_get (xs_attemptsByOp xs) opId")
    (fastforce simp: exec_ok_def getAttemptsByOperation_def map_filter_def getAttemptById_def)+

definition served_by :: "pse_world \<Rightarrow> RecoveryJob \<Rightarrow> ExecutionAttempt \<Rightarrow> bool" where
  "served_by w job a = (let as = getAttemptsByOperation (pw_exec w) (xj_operationId job) in as \<noteq> [] \<and> a = last as)"

lemma served_by_stored:
  "served_by w job a \<Longrightarrow> exec_ok (pw_exec w) \<Longrightarrow>
   getAttemptById (pw_exec w) (xa_attemptId a) = Some a \<and> xa_operationId a = xj_operationId job \<and> attempt_ok a"
  unfolding served_by_def Let_def using attempt_of_operation last_in_set by metis

lemma latest_served: "engine_inv uuid w \<Longrightarrow> served_by w job a \<Longrightarrow> served w job a"
  using served_by_stored unfolding engine_inv_def paid_ok_def served_def by metis

lemma served_later: "served w job a \<Longrightarrow> world_le w w' \<Longrightarrow> intents_wf (pw_pay w) \<Longrightarrow> served w' job a"
  by (auto simp: served_def world_le_def intro: settled_op_stays)

lemma outcome_inv:
  assumes "outcome_effect cfg job latest c t w w'" "world_le w w'" "engine_inv (pc_uuid cfg) w"
    and "served w job latest" "fresh_uuids (pc_uuid cfg)"
  shows "engine_inv (pc_uuid cfg) w'"
proof -
  let ?r = "retry_attempt (fst (fresh_id cfg ''attempt-retry-'' t w)) job latest t"
  have calls: "same_calls w w'" using assms(1) by (auto simp: outcome_effect_def)
  from assms(1) consider (same) "exec_same (pw_exec w) (pw_exec w')"
    | (added) "exec_added (pw_exec w) (pw_exec w') ?r" "pw_ids w < pw_ids w'" by (auto simp: outcome_effect_def)
  then show ?thesis
  proof cases
    case same
    from inv_same [OF assms(3) this calls assms(2)] show ?thesis .
  next
    case added
    have "attempt_ok ?r" "settled_op (pw_pay w) (xa_operationId ?r)"
      using assms(4) by (simp_all add: served_def attempt_ok_def retry_attempt_def)
    moreover have "getAttemptById (pw_exec w) (xa_attemptId ?r) = None"
      using fresh_id_is_fresh [OF assms(5)] assms(3) by (simp add: retry_attempt_def engine_inv_def)
    moreover have "xa_attemptId ?r = (''attempt-retry-'' @ string_of_int t) @ ''-'' @ pc_uuid cfg (pw_ids w)"
      by (simp add: retry_attempt_def fresh_id_def)
    ultimately show ?thesis by (rule inv_added [OF assms(3) added(1) calls assms(2) _ _ _ added(2)])
  qed
qed

lemma retry_fresh: "fresh_uuids (pc_uuid cfg) \<Longrightarrow> engine_inv (pc_uuid cfg) w \<Longrightarrow> retry_id_fresh cfg t w"
  by (simp add: retry_id_fresh_def fresh_id_is_fresh engine_inv_def)

lemma closed_inv:
  "close_job k st g x t w = (b, w') \<Longrightarrow> engine_inv uuid w \<Longrightarrow> engine_inv uuid w'"
  by (rule inv_same) (auto dest: close_job_same close_job_le)

lemma evidence_inv: "engine_inv uuid w \<Longrightarrow> engine_inv uuid (appendEvidence i e p t w)"
  by (rule inv_same) auto

lemma performRetrieval_inv:
  assumes "performRetrieval cfg s job a g t w = (out, w')" "engine_inv uuid w"
  shows "engine_inv uuid w'"
proof -
  obtain r w1 where c: "call_seller s (RetrievalCall (xj_jobId job))
             \<lparr>rq_idempotencyKey = ''retrieval-'' @ xa_executionId a, rq_url = retrieval_url cfg job a,
              rq_method = ''GET'', rq_body = JUndefined\<rparr> w = (r, w1)" by fastforce
  have "engine_inv uuid w1"
    by (rule inv_same [OF assms(2)]) (use c in \<open>auto simp: call_seller_def same_calls_def world_le_def\<close>)
  then have e: "engine_inv uuid (appendEvidence (xj_operationId job) ''RETRIEVAL_RESULT''
                 (JObj [(''jobId'', JStr (xj_jobId job)), (''result'', result_json r)]) t w1)" by (rule evidence_inv)
  have ok: "engine_inv uuid w4" if "exec_do (resolveRetrievalSuccessIfOwner k i g x t) w3 = (b, w4)" "engine_inv uuid w3" for k i g x t w3 b w4
    by (rule inv_same [OF that(2)]) (use retrieved_same [OF that(1)] exec_do_le [OF that(1)] in auto)
  show ?thesis
    using assms(1) e c unfolding performRetrieval_def
    by (auto simp: Let_def split: SellerExecutionResult.splits prod.splits bool.splits if_splits
        dest: closed_inv ok intro: evidence_inv)
qed

lemma wf_of_inv: "engine_inv uuid w \<Longrightarrow> intents_wf (pw_pay w)"
  by (simp add: engine_inv_def paid_ok_def)

text \<open>The branches of a claimed job.\<close>

lemma run_claimed_cases:
  assumes "run_claimed cfg s job g t w = (out, w')"
  obtains (bare) b where "getAttemptsByOperation (pw_exec w) (xj_operationId job) = []" "\<not> (\<exists>o1. out = Inr o1 \<and> jo_success o1)"
      "close_job (xj_jobId job) Jb_FAILED g (because ''No execution attempt found'') t w = (b, w')"
  | (succeeded) a b where "served_by w job a" "xa_status a = Ob_SUCCESS" "close_job (xj_jobId job) Jb_COMPLETED g plain t w = (b, w')"
      "if b then out = finish True None F_SUCCESS else out = lost"
  | (recover) a where "served_by w job a" "recover_attempted cfg job a (job_capability job) g t w = (out, w')"
  | (unknown) a where "served_by w job a" "close_unknown job a g t w = (out, w')"
  | (retrieval) a where "served_by w job a" "performRetrieval cfg s job a g t w = (out, w')"
  | (failed) a e where "served_by w job a" "out = Inl e"
      "executeAttempt cfg s (xa_attemptId a) g (Some (xj_jobId job)) t w = (Inl e, w')"
  | (answered) a r w1 where "served_by w job a" "executeAttempt cfg s (xa_attemptId a) g (Some (xj_jobId job)) t w = (Inr r, w1)"
      "handle_result cfg job a (job_capability job) g t r w1 = (out, w')"
proof (cases "getAttemptsByOperation (pw_exec w) (xj_operationId job) = []")
  case True
  obtain b w1 where c: "close_job (xj_jobId job) Jb_FAILED g (because ''No execution attempt found'') t w = (b, w1)" by fastforce
  with assms True show ?thesis by (intro bare [OF True _ c [THEN trans]]) (auto simp: run_claimed_def finish_def)
next
  case False
  define a where "a = last (getAttemptsByOperation (pw_exec w) (xj_operationId job))"
  with False have a: "served_by w job a" by (simp add: served_by_def)
  let ?c = "job_capability job"
  have run': "run_claimed cfg s job g t w =
     (if xa_status a = Ob_SUCCESS
      then (case close_job (xj_jobId job) Jb_COMPLETED g plain t w of (False, w1) \<Rightarrow> (lost, w1) | (True, w1) \<Rightarrow> (finish True None F_SUCCESS, w1))
      else if xa_status a = Ob_ATTEMPTED then recover_attempted cfg job a ?c g t w
      else if ?c = XC_NONE \<and> xa_status a = Ob_DELIVERY_UNKNOWN then close_unknown job a g t w
      else if xj_jobType job = Jt_RETRIEVAL \<and> ?c = XC_RESULT_RETRIEVAL then performRetrieval cfg s job a g t w
      else (case executeAttempt cfg s (xa_attemptId a) g (Some (xj_jobId job)) t w of
              (Inl e, w1) \<Rightarrow> (Inl e, w1) | (Inr result, w1) \<Rightarrow> handle_result cfg job a ?c g t result w1))"
    by (simp only: run_claimed_def a_def Let_def False if_False)
  show ?thesis
    using assms unfolding run'
    by (auto split: if_splits prod.splits bool.splits sum.splits
        intro: recover [OF a] unknown [OF a] retrieval [OF a] failed [OF a] answered [OF a] succeeded [OF a])
qed

lemma run_claimed_inv:
  assumes run: "run_claimed cfg s job g t w = (out, w')" and inv: "engine_inv (pc_uuid cfg) w"
    and fresh: "fresh_uuids (pc_uuid cfg)"
  shows "engine_inv (pc_uuid cfg) w'"
  using run
proof (cases rule: run_claimed_cases)
  case (bare b)
  from closed_inv [OF bare(3) inv] show ?thesis .
next
  case (succeeded a b)
  from closed_inv [OF succeeded(3) inv] show ?thesis .
next
  case (recover a)
  from outcome_inv [OF recover_attempted_effect [OF recover(2) retry_fresh [OF fresh inv]] recover_attempted_le [OF recover(2)]
      inv latest_served [OF inv recover(1)] fresh]
  show ?thesis .
next
  case (unknown a)
  from close_unknown_effect [OF unknown(2)] close_unknown_le [OF unknown(2)] show ?thesis by (intro inv_same [OF inv]) auto
next
  case (retrieval a)
  from performRetrieval_inv [OF retrieval(2) inv] show ?thesis .
next
  case (failed a e)
  from executeAttempt_inv [OF failed(3) inv] show ?thesis .
next
  case (answered a r w1)
  note inv1 = executeAttempt_inv [OF answered(2) inv]
  have a1: "served w1 job a"
    by (rule served_later [OF latest_served [OF inv answered(1)] executeAttempt_le [OF answered(2)] wf_of_inv [OF inv]])
  from outcome_inv [OF handle_result_effect [OF answered(3) retry_fresh [OF fresh inv1]] handle_result_le [OF answered(3)] inv1 a1 fresh]
  show ?thesis .
qed

lemma claimJob_same: "exec_same xs (snd (claimJob k u d t xs))"
  by (auto simp: claimJob_def Let_def exec_same_def attempt_kept_def job_keys_def getAttemptById_def getJob_def
      split: option.splits)

lemma claimed_inv: "claimJob k u d t (pw_exec w) = (b, xs) \<Longrightarrow> engine_inv uuid w \<Longrightarrow> engine_inv uuid (w\<lparr>pw_exec := xs\<rparr>)"
  using claimJob_same [of "pw_exec w" k u d t]
  by (elim inv_same) (simp_all add: same_calls_refl world_le_exec world_le_refl)

lemma processJob_inv:
  assumes "processJob cfg s k t w = (out, w')" "engine_inv (pc_uuid cfg) w" "fresh_uuids (pc_uuid cfg)"
  shows "engine_inv (pc_uuid cfg) w'"
proof -
  obtain g xs where c: "claimJob k (pc_workerId cfg) (pc_lockDurationMs cfg) t (pw_exec w) = (g, xs)" by fastforce
  note inv1 = claimed_inv [OF c assms(2)]
  from assms(1) c consider "w' = w\<lparr>pw_exec := xs\<rparr>"
    | job g' where "run_claimed cfg s job g' t (w\<lparr>pw_exec := xs\<rparr>) = (out, w')"
    by (auto simp: processJob_def split: option.splits)
  then show ?thesis using inv1 run_claimed_inv [OF _ inv1 assms(3)] by cases simp_all
qed

lemma process_all_inv:
  "process_all cfg s ks t acc w = (out, w') \<Longrightarrow> engine_inv (pc_uuid cfg) w \<Longrightarrow> fresh_uuids (pc_uuid cfg) \<Longrightarrow>
   engine_inv (pc_uuid cfg) w'"
proof (induction cfg s ks t acc w rule: process_all.induct)
  case (2 cfg s k ks t acc w)
  obtain r w1 where p: "processJob cfg s k t w = (r, w1)" by fastforce
  note inv1 = processJob_inv [OF p 2(3,4)]
  show ?case
  proof (cases r)
    case (Inl e)
    with 2(2) p inv1 show ?thesis by simp
  next
    case (Inr o1)
    from 2(2) p Inr have "process_all cfg s ks t (acc @ [k @ '':'' @ final_name (jo_finalStatus o1)]) w1 = (out, w')" by simp
    from 2(1) [OF p [symmetric] Inr this inv1 2(4)] show ?thesis .
  qed
qed simp

lemma settled_op_Some:
  "settled_op st opId \<longleftrightarrow> (\<exists>i. getPaymentIntentByOperationId st opId = Some i \<and> pi_settlementState i = St_SETTLED)"
  by (auto simp: settled_op_def split: option.splits)

lemma initiateExecution_refused:
  "\<not> settled_op (pw_pay w) opId \<Longrightarrow> \<exists>e. initiateExecution cfg opId c b t w = (Inl e, w)"
  by (auto simp: initiateExecution_def settled_op_def split: option.splits)

lemma initiateExecution_done:
  assumes "settled_op (pw_pay w) opId"
  obtains i w1 k w2 md e p where "fresh_id cfg ''attempt-'' t w = (i, w1)" "fresh_id cfg ''job-'' t w1 = (k, w2)"
    "md_capability md = Some c" "initiateExecution cfg opId c b t w = (Inr (i, k), appendEvidence opId e p t
       (w2\<lparr>pw_exec := saveAttemptWithJob (initial_attempt cfg i opId b t) (execution_job cfg k opId Jb_PENDING md t) (pw_exec w)\<rparr>))"
proof -
  obtain i w1 where i: "fresh_id cfg ''attempt-'' t w = (i, w1)" by fastforce
  obtain k w2 where k: "fresh_id cfg ''job-'' t w1 = (k, w2)" by fastforce
  have "pw_exec w2 = pw_exec w" using fresh_id_frame [OF i] fresh_id_frame [OF k] by simp
  then show ?thesis
    using assms i k by (intro that [OF i k]) (auto simp: initiateExecution_def settled_op_Some Let_def)
qed

lemma saveAttemptWithJob_added:
  "getAttemptById xs (xa_attemptId a) = None \<Longrightarrow> exec_added xs (saveAttemptWithJob a j xs) a"
  by (auto simp: exec_added_def saveAttemptWithJob_def attempt_kept_def job_keys_def index_attempt_def put_attempt_def
      put_job_def Let_def getAttemptById_def getJob_def split: option.splits)

lemma initiateExecution_inv:
  assumes "initiateExecution cfg opId c b t w = (out, w')" "engine_inv (pc_uuid cfg) w" "fresh_uuids (pc_uuid cfg)"
  shows "engine_inv (pc_uuid cfg) w'"
proof (cases "settled_op (pw_pay w) opId")
  case False
  with assms initiateExecution_refused show ?thesis by (metis prod.inject)
next
  case True
  then obtain i w1 k w2 md e p where i: "fresh_id cfg ''attempt-'' t w = (i, w1)" "fresh_id cfg ''job-'' t w1 = (k, w2)"
    and w': "w' = appendEvidence opId e p t
       (w2\<lparr>pw_exec := saveAttemptWithJob (initial_attempt cfg i opId b t) (execution_job cfg k opId Jb_PENDING md t) (pw_exec w)\<rparr>)"
    by (rule initiateExecution_done [of w opId cfg t c b]) (metis assms(1) prod.inject)
  let ?a = "initial_attempt cfg i opId b t"
  have a: "xa_attemptId ?a = i" "xa_operationId ?a = opId" "attempt_ok ?a" by (simp_all add: initial_attempt_def attempt_ok_def)
  have new: "getAttemptById (pw_exec w) (xa_attemptId ?a) = None"
    using fresh_id_is_fresh [OF assms(3), of w "''attempt-''" t] assms(2) i a by (simp add: engine_inv_def)
  have le: "world_le w w2" using i by (blast dest: fresh_id_le intro: world_le_trans)
  show ?thesis unfolding w'
  proof (rule evidence_inv, rule inv_added [OF assms(2) _ _ _ a(3) _ new])
    show "exec_added (pw_exec w) (pw_exec (w2\<lparr>pw_exec := saveAttemptWithJob ?a (execution_job cfg k opId Jb_PENDING md t) (pw_exec w)\<rparr>)) ?a"
      using saveAttemptWithJob_added [OF new] by simp
    show "xa_attemptId ?a = (''attempt-'' @ string_of_int t) @ ''-'' @ pc_uuid cfg (pw_ids w)"
      using fresh_id_form [OF i(1)] a by simp
  qed (use le i True a fresh_id_form [OF i(1)] fresh_id_form [OF i(2)] fresh_id_frame [OF i(1)] fresh_id_frame [OF i(2)]
      in \<open>auto simp: world_le_def same_calls_def\<close>)
qed

lemma saveJob_same: "exec_same xs (saveJob j xs)"
  by (auto simp: exec_same_def saveJob_def put_job_def attempt_kept_def job_keys_def getAttemptById_def getJob_def
      split: option.splits)

lemma ensure_one_inv:
  assumes "ensure_one cfg t i (c, w) = (c', w')" "engine_inv (pc_uuid cfg) w" "fresh_uuids (pc_uuid cfg)"
  shows "engine_inv (pc_uuid cfg) w'"
proof -
  let ?opId = "pi_operationId i"
  consider (standard) "isStandardPaidCallRecord (pi_facilitatorResponseBody i)"
    | (repair) "\<not> isStandardPaidCallRecord (pi_facilitatorResponseBody i)" "getAttemptsByOperation (pw_exec w) ?opId \<noteq> []"
    | (create) "\<not> isStandardPaidCallRecord (pi_facilitatorResponseBody i)" "getAttemptsByOperation (pw_exec w) ?opId = []" by blast
  then show ?thesis
  proof cases
    case standard
    with assms show ?thesis by (auto simp: ensure_one_def intro: evidence_inv)
  next
    case repair
    obtain k w1 where k: "fresh_id cfg ''job-'' t w = (k, w1)" by fastforce
    from repair assms(1) k obtain j e p where
      w': "w' = appendEvidence ?opId e p t (w1\<lparr>pw_exec := saveJob j (pw_exec w1)\<rparr>)"
      by (simp add: ensure_one_def Let_def) blast
    show ?thesis unfolding w'
      by (rule evidence_inv, rule inv_same [OF assms(2)])
        (use fresh_id_frame [OF k] fresh_id_le [OF k] saveJob_same in \<open>auto simp: world_le_def\<close>)
  next
    case create
    obtain r w1 where r: "initiateExecution cfg ?opId XC_EXECUTION_IDEMPOTENT JUndefined t w = (r, w1)" by fastforce
    with create assms(1) have "w' = w1" by (auto simp: ensure_one_def Let_def split: sum.splits prod.splits)
    with initiateExecution_inv [OF r assms(2,3)] show ?thesis by simp
  qed
qed

lemma ensure_all_inv:
  "engine_inv (pc_uuid cfg) w \<Longrightarrow> fresh_uuids (pc_uuid cfg) \<Longrightarrow> engine_inv (pc_uuid cfg) (snd (fold (ensure_one cfg t) is (c, w)))"
proof (induction "is" arbitrary: c w)
  case (Cons i "is")
  obtain c' w' where "ensure_one cfg t i (c, w) = (c', w')" by fastforce
  with Cons ensure_one_inv [OF this Cons(2,3)] show ?case by simp
qed simp

section \<open>All runs\<close>

text \<open>
  Every world the engines can reach from an empty execution store: any entry point of any engine,
  with any seller, at any time, between any steps of the payment store.
\<close>

inductive engine_run :: "(nat \<Rightarrow> string) \<Rightarrow> pse_world \<Rightarrow> bool" for uuid where
  run_start: "pw_exec w = empty_exec \<Longrightarrow> pw_calls w = [] \<Longrightarrow> intents_wf (pw_pay w) \<Longrightarrow> engine_run uuid w"
| run_initiate: "engine_run uuid w \<Longrightarrow> pc_uuid cfg = uuid \<Longrightarrow> initiateExecution cfg opId c b t w = (r, w') \<Longrightarrow> engine_run uuid w'"
| run_process: "engine_run uuid w \<Longrightarrow> pc_uuid cfg = uuid \<Longrightarrow> processJob cfg s k t w = (out, w') \<Longrightarrow> engine_run uuid w'"
| run_recover: "engine_run uuid w \<Longrightarrow> pc_uuid cfg = uuid \<Longrightarrow> recoverPendingJobs cfg s t w = (out', w') \<Longrightarrow> engine_run uuid w'"
| run_ensure: "engine_run uuid w \<Longrightarrow> pc_uuid cfg = uuid \<Longrightarrow> ensureExecutionObligations cfg t w = (l, w') \<Longrightarrow> engine_run uuid w'"
| run_payment: "engine_run uuid w \<Longrightarrow> store_step (pw_pay w) st \<Longrightarrow> engine_run uuid (w\<lparr>pw_pay := st\<rparr>)"

lemma engine_inv_start: "pw_exec w = empty_exec \<Longrightarrow> pw_calls w = [] \<Longrightarrow> intents_wf (pw_pay w) \<Longrightarrow> engine_inv uuid w"
  by (simp add: engine_inv_def exec_ok_def calls_ok_def paid_ok_def ids_ok_def job_keys_def empty_exec_def
      getAttemptById_def getJob_def)

lemma engine_run_inv:
  assumes "engine_run uuid w" "fresh_uuids uuid"
  shows "engine_inv uuid w"
  using assms(1)
proof induction
  case (run_initiate w cfg opId c b t r w')
  with initiateExecution_inv [OF run_initiate(3)] assms(2) show ?case by simp
next
  case (run_process w cfg s k t out w')
  with processJob_inv [OF run_process(3)] assms(2) show ?case by simp
next
  case (run_recover w cfg s t out w')
  with process_all_inv [OF run_recover(3) [unfolded recoverPendingJobs_def]] assms(2) show ?case by simp
next
  case (run_ensure w cfg t l w')
  then have "w' = snd (fold (ensure_one cfg t) (getSettledIntentsWithoutObligation 100 (pw_pay w)) ([], w))"
    by (metis ensureExecutionObligations_def snd_conv)
  with ensure_all_inv [of cfg w] run_ensure assms(2) show ?case by simp
next
  case (run_payment w st)
  then show ?case by (intro inv_same [OF run_payment(3)]) (auto simp: world_le_def)
qed (rule engine_inv_start)

lemma hyphen_free_fresh:
  assumes "\<And>n. CHR ''-'' \<notin> set (uuid n)" "inj uuid"
  shows "fresh_uuids uuid"
  unfolding fresh_uuids_def
proof (intro allI impI)
  fix n m p q assume eq: "p @ ''-'' @ uuid n = q @ ''-'' @ uuid m"
  have tail: "takeWhile (\<lambda>c. c \<noteq> CHR ''-'') (rev (x @ ''-'' @ uuid k)) = rev (uuid k)" for x k
    using assms(1) [of k] by (simp add: takeWhile_append)
  from eq have "rev (uuid n) = rev (uuid m)" using tail [of p n] tail [of q m] by simp
  with assms(2) show "n = m" by (simp add: inj_eq)
qed

lemma hex_uuids: "fresh_uuids hex_of_nat"
proof (rule hyphen_free_fresh)
  show "CHR ''-'' \<notin> set (hex_of_nat n)" for n
    using hex_of_nat_hex [of "CHR ''-''" n] by (auto simp: is_hex_def hex_value_def char_code_def)
  show "inj hex_of_nat"
    by (rule injI) (metis int_int_eq option.inject read_hex_of_nat)
qed

section \<open>What a job answers and what the store holds\<close>

lemma close_job_done:
  "close_job k st g x t w = (True, w') \<Longrightarrow> job_status (pw_exec w') k = Some st \<and>
   (\<forall>i. getAttemptById (pw_exec w') i = getAttemptById (pw_exec w) i)"
  by (auto simp: close_job_def exec_do_def updateJobStatus_def exec_view_defs split: prod.splits option.splits if_splits)

lemma update_attempt_done:
  "exec_do (updateAttemptStatus i st g x k) w = (True, w') \<Longrightarrow> attempt_status (pw_exec w') i = Some st"
  by (auto simp: exec_do_def updateAttemptStatus_def exec_view_defs split: prod.splits option.splits if_splits)

lemma resolve_done:
  "exec_do (resolveRetrievalSuccessIfOwner k i g x t) w = (True, w') \<Longrightarrow>
   job_status (pw_exec w') k = Some Jb_COMPLETED \<and> attempt_status (pw_exec w') i = Some Ob_SUCCESS"
  by (auto simp: exec_do_def resolveRetrievalSuccessIfOwner_def exec_view_defs split: prod.splits option.splits if_splits)

lemma executeAttempt_success:
  assumes "executeAttempt cfg s i g k t w = (Inr (SR_SUCCESS c b h d), w')"
  shows "attempt_status (pw_exec w') i = Some Ob_SUCCESS"
  using assms
proof (cases rule: executeAttempt_cases)
  case (sent a w1 r w2 st x b' w4 op e p op' e' p')
  then have b': b' "r = SR_SUCCESS c b h d" by (auto split: if_splits)
  with sent have "st = Ob_SUCCESS" "w' = w4" by auto
  with update_attempt_done [of i st g x k _ w4] sent(5) b' show ?thesis by simp
qed simp

lemma unsuccessful [simp]: "jo_success o1 \<Longrightarrow> (lost = Inr o1) = False" "jo_success o1 \<Longrightarrow> (Inr o1 = lost) = False" "jo_success o1 \<Longrightarrow> (finish False r f = Inr o1) = False"
  by (auto simp: lost_def finish_def)

lemma try_retry_unsuccessful: "try_retry cfg job a g e e' r t w = (Inr o1, w') \<Longrightarrow> jo_success o1 \<Longrightarrow> False"
  by (auto simp: try_retry_def split: prod.splits bool.splits)

lemma recover_unsuccessful: "recover_attempted cfg job a c g t w = (Inr o1, w') \<Longrightarrow> jo_success o1 \<Longrightarrow> False"
  by (auto simp: recover_attempted_def split: ExecutionCapability.splits if_splits prod.splits bool.splits dest: try_retry_unsuccessful)

lemma unknown_unsuccessful: "close_unknown job a g t w = (Inr o1, w') \<Longrightarrow> jo_success o1 \<Longrightarrow> False"
  by (auto simp: close_unknown_def Let_def split: prod.splits bool.splits)

lemma retrieval_successful:
  "performRetrieval cfg s job a g t w = (Inr o1, w') \<Longrightarrow> jo_success o1 \<Longrightarrow>
   \<exists>w2 x. exec_do (resolveRetrievalSuccessIfOwner (xj_jobId job) (xa_attemptId a) g x t) w2 = (True, w') \<and> pw_exec w2 = pw_exec w"
  by (auto simp: performRetrieval_def call_seller_def Let_def split: SellerExecutionResult.splits if_splits prod.splits bool.splits)

lemma handle_successful:
  "handle_result cfg job a c g t r w = (Inr o1, w') \<Longrightarrow> jo_success o1 \<Longrightarrow>
   \<exists>code b h d w1. r = SR_SUCCESS code b h d \<and> close_job (xj_jobId job) Jb_COMPLETED g plain t w = (True, w1) \<and> pw_exec w' = pw_exec w1"
  by (cases r) (auto simp: Let_def split: if_splits prod.splits bool.splits dest: try_retry_unsuccessful)

lemma run_claimed_success:
  assumes run: "run_claimed cfg s job g t w = (Inr o1, w')" and ok: "jo_success o1" and inv: "exec_ok (pw_exec w)"
  shows "job_status (pw_exec w') (xj_jobId job) = Some Jb_COMPLETED \<and>
    (\<exists>i a. getAttemptById (pw_exec w') i = Some a \<and> xa_operationId a = xj_operationId job \<and> xa_status a = Ob_SUCCESS)"
proof -
  have later: "\<exists>i a. getAttemptById (pw_exec w') i = Some a \<and> xa_operationId a = xj_operationId job \<and> xa_status a = Ob_SUCCESS"
    if "served_by w job b" "exec_same (pw_exec w) (pw_exec w')" "attempt_status (pw_exec w') (xa_attemptId b) = Some Ob_SUCCESS" for b
  proof -
    note b = served_by_stored [OF that(1) inv]
    from exec_same_fwd [OF that(2) conjunct1 [OF b]] obtain b' where
      "getAttemptById (pw_exec w') (xa_attemptId b) = Some b'" "same_obligation b b'" by blast
    with that(3) b show ?thesis
      by (intro exI [of _ "xa_attemptId b"] exI [of _ b']) (simp add: attempt_status_def same_obligation_def)
  qed
  from run show ?thesis
  proof (cases rule: run_claimed_cases)
    case (succeeded a b)
    with ok have c: "close_job (xj_jobId job) Jb_COMPLETED g plain t w = (True, w')" by (auto split: if_splits)
    with close_job_done [OF c] served_by_stored [OF succeeded(1) inv] succeeded(2) show ?thesis by metis
  next
    case (retrieval a)
    from retrieval_successful [OF retrieval(2) ok] obtain w2 x where
      r: "exec_do (resolveRetrievalSuccessIfOwner (xj_jobId job) (xa_attemptId a) g x t) w2 = (True, w')" "pw_exec w2 = pw_exec w" by blast
    from resolve_done [OF r(1)] retrieved_same [OF r(1)] r(2) later [OF retrieval(1)] show ?thesis by auto
  next
    case (answered a r w1)
    from handle_successful [OF answered(3) ok] obtain c b h d w2 where r: "r = SR_SUCCESS c b h d"
      "close_job (xj_jobId job) Jb_COMPLETED g plain t w1 = (True, w2)" "pw_exec w' = pw_exec w2" by blast
    note sent = answered(2) [unfolded r(1)]
    have "exec_same (pw_exec w) (pw_exec w1)" using executeAttempt_sent [OF sent] by blast
    then have "exec_same (pw_exec w) (pw_exec w')" using close_job_same [OF r(2)] r(3) exec_same_trans by metis
    moreover have "attempt_status (pw_exec w') (xa_attemptId a) = Some Ob_SUCCESS"
      using executeAttempt_success [OF sent] close_job_done [OF r(2)] r(3) by (simp add: attempt_status_def)
    ultimately show ?thesis using later [OF answered(1)] close_job_done [OF r(2)] r(3) by simp
  qed (use ok recover_unsuccessful unknown_unsuccessful in blast)+
qed

lemma claimed_job:
  "claimJob k u d t xs = (b, xs') \<Longrightarrow> getJob xs' k = Some j' \<Longrightarrow>
   \<exists>j. getJob xs k = Some j \<and> xj_operationId j' = xj_operationId j \<and> xj_jobType j' = xj_jobType j \<and>
     job_capability j' = job_capability j \<and> xj_jobId j' = xj_jobId j \<and> xj_maxAttempts j' = xj_maxAttempts j \<and>
     (b \<noteq> None \<longrightarrow> xj_currentAttempt j' = Suc (xj_currentAttempt j) \<and> b = Some (xj_currentAttempt j'))"
  by (auto simp: claimJob_def getJob_def Let_def job_capability_def split: option.splits if_splits)

lemma processJob_success:
  assumes "processJob cfg s k t w = (Inr o1, w')" "jo_success o1" "exec_ok (pw_exec w)"
  shows "job_status (pw_exec w') k = Some Jb_COMPLETED \<and> (\<exists>j i a. getJob (pw_exec w) k = Some j \<and>
    getAttemptById (pw_exec w') i = Some a \<and> xa_operationId a = xj_operationId j \<and> xa_status a = Ob_SUCCESS)"
proof -
  obtain g xs where c: "claimJob k (pc_workerId cfg) (pc_lockDurationMs cfg) t (pw_exec w) = (g, xs)" by fastforce
  have ok: "exec_ok xs" using exec_same_ok [OF assms(3) claimJob_same] c by (metis snd_conv)
  from assms(1,2) c obtain job g' where j: "getJob xs k = Some job"
    and r: "run_claimed cfg s job g' t (w\<lparr>pw_exec := xs\<rparr>) = (Inr o1, w')"
    by (auto simp: processJob_def lost_def finish_def split: option.splits)
  from ok j have "xj_jobId job = k" by (auto simp: exec_ok_def job_keys_def)
  with run_claimed_success [OF r assms(2)] ok claimed_job [OF c j] show ?thesis by simp metis
qed

section \<open>Creating and repeating attempts\<close>

lemma initiateExecution_stored:
  assumes "settled_op (pw_pay w) opId"
  shows "\<exists>i k a j w'. initiateExecution cfg opId c b t w = (Inr (i, k), w') \<and> getAttemptById (pw_exec w') i = Some a \<and>
    xa_status a = Ob_PENDING \<and> xa_operationId a = opId \<and> xa_idempotencyKey a = Some opId \<and>
    getJob (pw_exec w') k = Some j \<and> xj_status j = Jb_PENDING \<and> xj_operationId j = opId \<and> job_capability j = c"
proof -
  from assms obtain i w1 k w2 md e p where md: "md_capability md = Some c" and
    run: "initiateExecution cfg opId c b t w = (Inr (i, k), appendEvidence opId e p t
       (w2\<lparr>pw_exec := saveAttemptWithJob (initial_attempt cfg i opId b t) (execution_job cfg k opId Jb_PENDING md t) (pw_exec w)\<rparr>))"
    by (rule initiateExecution_done)
  show ?thesis
    by (intro exI conjI, rule run)
      (simp add: saveAttemptWithJob_def initial_attempt_def execution_job_def job_capability_def md)+
qed

text \<open>Which attempts exist, and how many executions the log holds.\<close>

definition no_new_attempt :: "pse_world \<Rightarrow> pse_world \<Rightarrow> bool" where
  "no_new_attempt w w' = (\<forall>i. getAttemptById (pw_exec w') i \<noteq> None \<longrightarrow> getAttemptById (pw_exec w) i \<noteq> None)"

lemma same_no_new: "exec_same (pw_exec w) (pw_exec w') \<Longrightarrow> no_new_attempt w w'"
  by (auto simp: no_new_attempt_def dest: exec_same_back)

lemma outcome_no_retry:
  "outcome_effect cfg job latest c t w w' \<Longrightarrow> \<not> may_retry c job \<Longrightarrow> pw_calls w' = pw_calls w \<and> exec_same (pw_exec w) (pw_exec w')"
  by (auto simp: outcome_effect_def)

definition quiet :: "pse_world \<Rightarrow> pse_world \<Rightarrow> bool" where
  "quiet w w' = (executed (pw_calls w') = executed (pw_calls w) \<and> exec_same (pw_exec w) (pw_exec w'))"

lemma quiet_after:
  "close_job k st g x t w1 = (b, w2) \<Longrightarrow> quiet w w1 \<Longrightarrow> quiet w w2"
  "exec_do (resolveRetrievalSuccessIfOwner k' i g' x' t') w1 = (b, w2) \<Longrightarrow> quiet w w1 \<Longrightarrow> quiet w w2"
  "quiet w w1 \<Longrightarrow> quiet w (appendEvidence op e p t w1)"
  using close_job_same [of k st g x t w1 b w2] retrieved_same [of k' i g' x' t' w1 b w2]
  by (auto simp: quiet_def intro: exec_same_trans)

lemma performRetrieval_quiet:
  assumes "performRetrieval cfg s job a g t w = (out, w')"
  shows "quiet w w'"
proof -
  obtain r w1 where c: "call_seller s (RetrievalCall (xj_jobId job))
             \<lparr>rq_idempotencyKey = ''retrieval-'' @ xa_executionId a, rq_url = retrieval_url cfg job a,
              rq_method = ''GET'', rq_body = JUndefined\<rparr> w = (r, w1)" by fastforce
  then have "quiet w w1" by (auto simp: call_seller_def quiet_def)
  then have e: "quiet w (appendEvidence (xj_operationId job) ''RETRIEVAL_RESULT''
                 (JObj [(''jobId'', JStr (xj_jobId job)), (''result'', result_json r)]) t w1)" by (rule quiet_after)
  show ?thesis
    using assms e c unfolding performRetrieval_def
    by (auto simp: Let_def split: SellerExecutionResult.splits prod.splits bool.splits if_splits
        dest: quiet_after(1,2) intro: quiet_after(3))
qed

lemma executeAttempt_once:
  assumes "executeAttempt cfg s i g k t w = (out, w')"
  shows "length (executed (pw_calls w')) \<le> Suc (length (executed (pw_calls w))) \<and> exec_same (pw_exec w) (pw_exec w')"
  using executeAttempt_sent [OF assms] by auto

lemma run_claimed_no_retry:
  assumes run: "run_claimed cfg s job g t w = (out, w')" and inv: "engine_inv (pc_uuid cfg) w"
    and fresh: "fresh_uuids (pc_uuid cfg)" and no: "\<not> may_retry (job_capability job) job"
  shows "length (executed (pw_calls w')) \<le> Suc (length (executed (pw_calls w))) \<and> exec_same (pw_exec w) (pw_exec w')"
  using run
proof (cases rule: run_claimed_cases)
  case (recover a)
  from outcome_no_retry [OF recover_attempted_effect [OF recover(2) retry_fresh [OF fresh inv]] no] show ?thesis by simp
next
  case (retrieval a)
  from performRetrieval_quiet [OF retrieval(2)] show ?thesis by (simp add: quiet_def)
next
  case (answered a r w1)
  from outcome_no_retry [OF handle_result_effect [OF answered(3) retry_fresh [OF fresh executeAttempt_inv [OF answered(2) inv]]] no]
    executeAttempt_once [OF answered(2)] exec_same_trans show ?thesis by fastforce
qed (auto dest: close_job_same close_unknown_effect executeAttempt_once)

lemma processJob_no_retry:
  assumes "processJob cfg s k t w = (out, w')" "engine_inv (pc_uuid cfg) w" "fresh_uuids (pc_uuid cfg)"
    and j: "getJob (pw_exec w) k = Some j"
    and no: "job_capability j \<noteq> XC_EXECUTION_IDEMPOTENT \<or> xj_maxAttempts j \<le> Suc (xj_currentAttempt j)"
  shows "length (executed (pw_calls w')) \<le> Suc (length (executed (pw_calls w))) \<and> exec_same (pw_exec w) (pw_exec w')"
proof -
  obtain g xs where c: "claimJob k (pc_workerId cfg) (pc_lockDurationMs cfg) t (pw_exec w) = (g, xs)" by fastforce
  have same: "exec_same (pw_exec w) xs" using claimJob_same [of "pw_exec w"] c by (metis snd_conv)
  note inv1 = claimed_inv [OF c assms(2)]
  from assms(1) c consider "w' = w\<lparr>pw_exec := xs\<rparr>"
    | job g' where "g = Some g'" "getJob xs k = Some job" "run_claimed cfg s job g' t (w\<lparr>pw_exec := xs\<rparr>) = (out, w')"
    by (auto simp: processJob_def split: option.splits)
  then show ?thesis
  proof cases
    case 1
    with same show ?thesis by simp
  next
    case 2
    from claimed_job [OF c 2(2)] j 2(1) no have "\<not> may_retry (job_capability job) job" by (auto simp: may_retry_def)
    from run_claimed_no_retry [OF 2(3) inv1 assms(3) this] same show ?thesis using exec_same_trans by fastforce
  qed
qed

section \<open>A crash after the answer of the seller was recorded\<close>

lemma attempts_of_operation_ok:
  assumes "exec_ok xs"
  shows "getAttemptsByOperation xs opId = map (\<lambda>i. the (getAttemptById xs i)) (opt_default [] (js_get (xs_attemptsByOp xs) opId))"
proof (cases "js_get (xs_attemptsByOp xs) opId")
  case (Some ids)
  with assms have "\<forall>i \<in> set ids. js_get (xs_attempts xs) i \<noteq> None" by (fastforce simp: exec_ok_def getAttemptById_def)
  then have "List.map_filter (js_get (xs_attempts xs)) ids = map (\<lambda>i. the (js_get (xs_attempts xs) i)) ids"
    by (induction ids) (auto simp: map_filter_def)
  with Some show ?thesis by (simp add: getAttemptsByOperation_def getAttemptById_def)
qed (simp add: getAttemptsByOperation_def map_filter_def)

lemma served_by_kept:
  assumes "exec_ok (pw_exec w)" "exec_same (pw_exec w) (pw_exec w1)" "served_by w job a"
    and "getAttemptById (pw_exec w1) (xa_attemptId a) = Some a'"
  shows "served_by w1 job a'"
proof -
  let ?ids = "opt_default [] (js_get (xs_attemptsByOp (pw_exec w)) (xj_operationId job))"
  have idx: "xs_attemptsByOp (pw_exec w1) = xs_attemptsByOp (pw_exec w)" using assms(2) by (simp add: exec_same_def)
  note ok1 = exec_same_ok [OF assms(1,2)]
  from assms(1,3) have ne: "?ids \<noteq> []" and a: "a = the (getAttemptById (pw_exec w) (last ?ids))"
    by (auto simp: served_by_def Let_def attempts_of_operation_ok last_map)
  have "getAttemptById (pw_exec w) (last ?ids) \<noteq> None"
  proof (cases "js_get (xs_attemptsByOp (pw_exec w)) (xj_operationId job)")
    case (Some ids)
    with ne have "last ids \<in> set ids" by simp
    with assms(1) Some show ?thesis unfolding exec_ok_def by fastforce
  qed (use ne in simp)
  with a assms(1) have "xa_attemptId a = last ?ids" by (auto simp: exec_ok_def)
  with assms(4) ne show ?thesis by (simp add: served_by_def Let_def attempts_of_operation_ok [OF ok1] idx last_map)
qed

lemma write_keeps_jobs:
  "exec_do (updateAttemptStatus i st g x k) w = (b, w') \<Longrightarrow> getJob (pw_exec w') j = getJob (pw_exec w) j"
  "exec_do (markAttemptInProgress i g k t) w = (b', w') \<Longrightarrow> getJob (pw_exec w') j = getJob (pw_exec w) j"
  by (auto simp: exec_do_def updateAttemptStatus_def markAttemptInProgress_def split: prod.splits option.splits if_splits)

lemma executeAttempt_recorded:
  assumes "executeAttempt cfg s i g k t w = (Inr r, w')"
  shows "attempt_status (pw_exec w') i = Some (fst (recorded t r)) \<and> getJob (pw_exec w') j = getJob (pw_exec w) j"
  using assms
proof (cases rule: executeAttempt_cases)
  case (sent a w1 r' w2 st x b w4 op e p op' e' p')
  then have b: "b" "r' = r" by (auto split: if_splits)
  with sent have w4: "w' = w4" "st = fst (recorded t r)" by auto
  have w2: "pw_exec w2 = pw_exec w1" using sent(3) by (auto simp: call_seller_def)
  from update_attempt_done [of i st g x k _ w4] sent(5) b have "attempt_status (pw_exec w4) i = Some st" by simp
  moreover have "getJob (pw_exec w4) j = getJob (pw_exec w) j"
    using write_keeps_jobs(1) [OF sent(5)] write_keeps_jobs(2) [OF sent(2)] w2 by simp
  ultimately show ?thesis using w4 by simp
qed simp

lemma executeAttempt_rejected:
  assumes "getAttemptById (pw_exec w) i = Some a" "xa_status a \<noteq> Ob_PENDING"
  shows "executeAttempt cfg s i g k t w = (Inl ''FENCE_REJECTED: lost ownership before seller call'', w)"
  using assms by (simp add: executeAttempt_def exec_do_def markAttemptInProgress_def)

lemma processJob_blocked:
  assumes ok: "exec_ok (pw_exec w)" and j: "getJob (pw_exec w) k = Some j" "xj_status j = Jb_PENDING \<or> lease_expired t j"
    and cap: "job_capability j = XC_EXECUTION_IDEMPOTENT" "xj_jobType j = Jt_EXECUTION"
    and a: "served_by w j a" "xa_status a \<in> {Ob_HTTP_FAILURE, Ob_DELIVERY_UNKNOWN, Ob_UNRESOLVABLE}"
  shows "\<exists>w'. processJob cfg s k t w = (Inl ''FENCE_REJECTED: lost ownership before seller call'', w') \<and>
    job_status (pw_exec w') k = Some Jb_RUNNING \<and> pw_calls w' = pw_calls w"
proof -
  obtain g xs where c: "claimJob k (pc_workerId cfg) (pc_lockDurationMs cfg) t (pw_exec w) = (Some g, xs)"
    using j by (auto simp: claimJob_def Let_def)
  let ?w = "w\<lparr>pw_exec := xs\<rparr>"
  from c j obtain j' where j': "getJob xs k = Some j'" "xj_status j' = Jb_RUNNING" by (auto simp: claimJob_def Let_def getJob_def)
  have same: "exec_same (pw_exec w) (pw_exec ?w)" using claimJob_same [of "pw_exec w"] c by (metis pse_world.select_convs(2) pse_world.surjective pse_world.update_convs(2) snd_conv)
  have att: "getAttemptById xs i = getAttemptById (pw_exec w) i" for i
    using c by (auto simp: claimJob_def Let_def getAttemptById_def split: option.splits if_splits)
  note st = conjunct1 [OF served_by_stored [OF a(1) ok]]
  from served_by_kept [OF ok same a(1)] st att claimed_job [OF c j'(1)] j(1)
  have "served_by ?w j' a" by (simp add: served_by_def)
  then have l: "getAttemptsByOperation xs (xj_operationId j') \<noteq> []" "last (getAttemptsByOperation xs (xj_operationId j')) = a"
    by (auto simp: served_by_def Let_def)
  have "executeAttempt cfg s (xa_attemptId a) g (Some (xj_jobId j')) t ?w = (Inl ''FENCE_REJECTED: lost ownership before seller call'', ?w)"
    by (rule executeAttempt_rejected [of _ _ a]) (use st att a(2) in auto)
  then have "run_claimed cfg s j' g t ?w = (Inl ''FENCE_REJECTED: lost ownership before seller call'', ?w)"
  proof -
    have "job_capability j' = XC_EXECUTION_IDEMPOTENT" "xj_jobType j' = Jt_EXECUTION"
      using cap claimed_job [OF c j'(1)] j(1) by auto
    moreover have "xa_status a \<noteq> Ob_SUCCESS" "xa_status a \<noteq> Ob_ATTEMPTED" using a(2) by auto
    ultimately show ?thesis
      using \<open>executeAttempt _ _ _ _ _ _ _ = _\<close> by (simp add: run_claimed_def Let_def l)
  qed
  with c j' show ?thesis by (auto simp: processJob_def job_status_def)
qed

section \<open>Properties\<close>

text \<open>
  In every run of any number of engines each execution attempt is sent to the seller at
  most once: the attempt ids in the log of requests are distinct, every one of them belongs to a
  stored attempt that is no longer pending, and the request carries the attempt's operation id as
  its idempotency key, so that retries of one operation are recognisable as the same obligation.
\<close>

theorem seller_called_once_per_attempt:
  assumes "engine_run uuid w" "fresh_uuids uuid"
  shows "distinct (executed (pw_calls w)) \<and>
    (\<forall>i r. ExecutionCall i r \<in> set (pw_calls w) \<longrightarrow> (\<exists>a. getAttemptById (pw_exec w) i = Some a \<and>
       xa_status a \<noteq> Ob_PENDING \<and> rq_idempotencyKey r = xa_operationId a))"
  using engine_run_inv [OF assms] by (simp add: engine_inv_def calls_ok_def)

definition sample_pse :: pse_config where
  "sample_pse = new_PostSettlementEngine ''w1'' None None ''http://seller'' None None hex_of_nat"

definition sample_world :: "SettlementState \<Rightarrow> pse_world" where
  "sample_world s = \<lparr>pw_pay = sample_store s, pw_exec = empty_exec, pw_calls = [], pw_ids = 0\<rparr>"

definition sample_initiated :: pse_world where
  "sample_initiated = snd (initiateExecution sample_pse ''op1'' XC_EXECUTION_IDEMPOTENT JNull 5 (sample_world St_SETTLED))"

definition sample_job_id :: string where "sample_job_id = ''job-5-1''"

definition sample_attempt_id :: string where "sample_attempt_id = ''attempt-5-0''"

definition sample_seller :: seller where "sample_seller log r = SR_SUCCESS 200 JNull [] 3"

definition sample_done :: "(exn + JobOutcome) \<times> pse_world" where
  "sample_done = processJob sample_pse sample_seller sample_job_id 6 sample_initiated"

lemma sample_store_wf: "intents_wf (sample_store s)"
  unfolding sample_store_def by (rule createPaymentIntent_wf [OF intents_wf_empty prod.collapse [symmetric]])

lemma sample_uuid: "pc_uuid sample_pse = hex_of_nat"
  by (simp add: sample_pse_def new_PostSettlementEngine_def)

lemma sample_runs: "engine_run hex_of_nat sample_initiated" "engine_run hex_of_nat (snd sample_done)"
proof -
  have "engine_run hex_of_nat (sample_world St_SETTLED)"
    by (rule run_start) (simp_all add: sample_world_def sample_store_wf)
  then show 1: "engine_run hex_of_nat sample_initiated"
    unfolding sample_initiated_def by (rule run_initiate [OF _ sample_uuid prod.collapse [symmetric]])
  show "engine_run hex_of_nat (snd sample_done)"
    unfolding sample_done_def by (rule run_process [OF 1 sample_uuid prod.collapse [symmetric]])
qed

theorem seller_called_once_per_attempt_witness:
  "executed (pw_calls (snd sample_done)) = [sample_attempt_id] \<and> distinct (executed (pw_calls (snd sample_done)))"
proof
  show "executed (pw_calls (snd sample_done)) = [sample_attempt_id]" by code_simp
  show "distinct (executed (pw_calls (snd sample_done)))"
    using seller_called_once_per_attempt [OF sample_runs(2) hex_uuids] by blast
qed

text \<open>
  Property C9. The seller is only ever called for operations whose payment is settled: in every run
  of any number of engines, for every execution request in the log the payment store holds a
  SETTLED intent for the operation named by the request's idempotency key.
\<close>

theorem seller_called_only_when_settled:
  assumes "engine_run uuid w" "fresh_uuids uuid" "ExecutionCall i r \<in> set (pw_calls w)"
  shows "\<exists>p. getPaymentIntentByOperationId (pw_pay w) (rq_idempotencyKey r) = Some p \<and> pi_settlementState p = St_SETTLED"
proof -
  note inv = engine_run_inv [OF assms(1,2)]
  with assms(3) obtain a where "getAttemptById (pw_exec w) i = Some a" "rq_idempotencyKey r = xa_operationId a"
    unfolding engine_inv_def calls_ok_def by blast
  with inv show ?thesis by (auto simp: engine_inv_def paid_ok_def simp flip: settled_op_Some)
qed

theorem seller_called_only_when_settled_witness:
  "\<exists>r p. pw_calls (snd sample_done) = [ExecutionCall sample_attempt_id r] \<and>
     getPaymentIntentByOperationId (pw_pay (snd sample_done)) (rq_idempotencyKey r) = Some p \<and> pi_settlementState p = St_SETTLED"
proof -
  let ?r = "\<lparr>rq_idempotencyKey = ''op1'', rq_url = ''http://seller'', rq_method = ''POST'', rq_body = JNull\<rparr>"
  have c: "pw_calls (snd sample_done) = [ExecutionCall sample_attempt_id ?r]" by code_simp
  from seller_called_only_when_settled [OF sample_runs(2) hex_uuids, of sample_attempt_id ?r] c show ?thesis by auto
qed

text \<open>
  A job reported as successful is durably so (the answer is not published before the
  stores agree): the job is COMPLETED and an attempt of the job's operation is recorded as SUCCESS.
\<close>

theorem reported_success_is_durable:
  assumes "engine_run uuid w" "fresh_uuids uuid" "processJob cfg s k t w = (Inr o1, w')" "jo_success o1"
  shows "job_status (pw_exec w') k = Some Jb_COMPLETED \<and> (\<exists>j i a. getJob (pw_exec w) k = Some j \<and>
    getAttemptById (pw_exec w') i = Some a \<and> xa_operationId a = xj_operationId j \<and> xa_status a = Ob_SUCCESS)"
  using processJob_success [OF assms(3,4)] engine_run_inv [OF assms(1,2)] by (simp add: engine_inv_def)

theorem reported_success_is_durable_witness:
  "(case fst sample_done of Inr out \<Rightarrow> jo_success out | Inl e \<Rightarrow> False) \<and>
   job_status (pw_exec (snd sample_done)) sample_job_id = Some Jb_COMPLETED"
proof
  show ok: "case fst sample_done of Inr out \<Rightarrow> jo_success out | Inl e \<Rightarrow> False" by code_simp
  then obtain out where out: "fst sample_done = Inr out" "jo_success out" by (auto split: sum.splits)
  then have p: "processJob sample_pse sample_seller sample_job_id 6 sample_initiated = (Inr out, snd sample_done)"
    by (metis prod.collapse sample_done_def)
  from reported_success_is_durable [OF sample_runs(1) hex_uuids p out(2)]
  show "job_status (pw_exec (snd sample_done)) sample_job_id = Some Jb_COMPLETED" by blast
qed

text \<open>
  INV-8: an execution obligation exists only for a settled payment. If the operation has
  no SETTLED intent, \<open>initiateExecution\<close> throws and changes nothing; otherwise it returns the ids of
  a pending attempt and a pending job it stored, both for the operation, the attempt with the
  operation id as idempotency key and the job with the given capability.
\<close>

theorem obligation_needs_settlement:
  "if settled_op (pw_pay w) opId
   then \<exists>i k a j w'. initiateExecution cfg opId c b t w = (Inr (i, k), w') \<and> getAttemptById (pw_exec w') i = Some a \<and>
     xa_status a = Ob_PENDING \<and> xa_operationId a = opId \<and> xa_idempotencyKey a = Some opId \<and>
     getJob (pw_exec w') k = Some j \<and> xj_status j = Jb_PENDING \<and> xj_operationId j = opId \<and> job_capability j = c
   else \<exists>e. initiateExecution cfg opId c b t w = (Inl e, w)"
  by (cases "settled_op (pw_pay w) opId") (simp_all add: initiateExecution_stored initiateExecution_refused)

text \<open>
  No blind retry (INV-10): a job whose capability is not EXECUTION_IDEMPOTENT, or whose
  claims are used up, sends at most one execution and leaves every attempt's identity as it was and
  adds none.
\<close>

theorem no_blind_retry:
  assumes "engine_run (pc_uuid cfg) w" "fresh_uuids (pc_uuid cfg)" "processJob cfg s k t w = (out, w')"
    and "getJob (pw_exec w) k = Some j"
    and "job_capability j \<noteq> XC_EXECUTION_IDEMPOTENT \<or> xj_maxAttempts j \<le> Suc (xj_currentAttempt j)"
  shows "length (executed (pw_calls w')) \<le> Suc (length (executed (pw_calls w))) \<and>
    (\<forall>i. getAttemptById (pw_exec w) i = None \<longrightarrow> getAttemptById (pw_exec w') i = None)"
  using processJob_no_retry [OF assms(3) engine_run_inv [OF assms(1,2)] assms(2,4,5)] same_no_new [of w w']
  unfolding no_new_attempt_def by blast

definition sample_none :: pse_world where
  "sample_none = snd (initiateExecution sample_pse ''op1'' XC_NONE JNull 5 (sample_world St_SETTLED))"

definition silent_seller :: seller where "silent_seller log r = SR_DELIVERY_UNKNOWN ''TIMEOUT'' ''aborted'' 10000"

theorem no_blind_retry_witness:
  "length (executed (pw_calls (snd (processJob sample_pse silent_seller sample_job_id 6 sample_none)))) \<le> 1 \<and>
   job_status (pw_exec (snd (processJob sample_pse silent_seller sample_job_id 6 sample_none))) sample_job_id = Some Jb_UNRESOLVABLE"
proof
  have "engine_run hex_of_nat (sample_world St_SETTLED)"
    by (rule run_start) (simp_all add: sample_world_def sample_store_wf)
  then have r: "engine_run (pc_uuid sample_pse) sample_none"
    unfolding sample_none_def sample_uuid by (rule run_initiate [OF _ sample_uuid prod.collapse [symmetric]])
  have c: "executed (pw_calls sample_none) = []" by code_simp
  have "map_option job_capability (getJob (pw_exec sample_none) sample_job_id) = Some XC_NONE" by code_simp
  then obtain j where j: "getJob (pw_exec sample_none) sample_job_id = Some j" "job_capability j = XC_NONE" by auto
  from no_blind_retry [OF r _ prod.collapse [symmetric] j(1), of silent_seller 6] hex_uuids j(2) c
  show "length (executed (pw_calls (snd (processJob sample_pse silent_seller sample_job_id 6 sample_none)))) \<le> 1"
    by (simp add: sample_uuid)
  show "job_status (pw_exec (snd (processJob sample_pse silent_seller sample_job_id 6 sample_none))) sample_job_id = Some Jb_UNRESOLVABLE"
    by code_simp
qed

text \<open>
  A crash between recording the seller's answer and closing the job blocks the job: once
  an EXECUTION job with capability EXECUTION_IDEMPOTENT has recorded an answer other than SUCCESS
  and its lease has run out, the next \<open>processJob\<close> throws \<open>FENCE_REJECTED\<close>, calls nobody and leaves
  the job RUNNING, so the promised retry never happens.
\<close>

theorem crash_after_answer_blocks_job:
  assumes "engine_run uuid w0" "fresh_uuids uuid"
    and claim: "claimJob k u d t (pw_exec w0) = (Some g, xs)" "getJob xs k = Some j"
    and cap: "job_capability j = XC_EXECUTION_IDEMPOTENT" "xj_jobType j = Jt_EXECUTION"
    and a: "served_by (w0\<lparr>pw_exec := xs\<rparr>) j a"
    and answer: "executeAttempt cfg s (xa_attemptId a) g (Some k) t (w0\<lparr>pw_exec := xs\<rparr>) = (Inr r, w1)" "result_kind r \<noteq> ''SUCCESS''"
    and expired: "t + d \<noteq> 0" "t + d < t'"
  shows "\<exists>w2. processJob cfg' s' k t' w1 = (Inl ''FENCE_REJECTED: lost ownership before seller call'', w2) \<and>
    job_status (pw_exec w2) k = Some Jb_RUNNING \<and> pw_calls w2 = pw_calls w1"
proof -
  let ?w = "w0\<lparr>pw_exec := xs\<rparr>"
  have ok: "exec_ok (pw_exec ?w)"
    using claimed_inv [OF claim(1) engine_run_inv [OF assms(1,2)]] by (simp add: engine_inv_def)
  have same: "exec_same (pw_exec ?w) (pw_exec w1)" using executeAttempt_once [OF answer(1)] by blast
  note rec = executeAttempt_recorded [OF answer(1), of k]
  from rec claim(2) have j1: "getJob (pw_exec w1) k = Some j" by simp
  from rec obtain a' where a': "getAttemptById (pw_exec w1) (xa_attemptId a) = Some a'" "xa_status a' = fst (recorded t r)"
    by (auto simp: attempt_status_def)
  have st: "xa_status a' \<in> {Ob_HTTP_FAILURE, Ob_DELIVERY_UNKNOWN, Ob_UNRESOLVABLE}"
    using a'(2) answer(2) by (cases r) auto
  have ex: "lease_expired t' j" using claim expired by (auto simp: claimJob_def Let_def getJob_def lease_expired_def split: option.splits if_splits)
  show ?thesis
    by (rule processJob_blocked [OF exec_same_ok [OF ok same] j1 disjI2 [OF ex] cap served_by_kept [OF ok same a a'(1)] st])
qed

definition crash_claim :: "nat option \<times> exec_store" where
  "crash_claim = claimJob sample_job_id ''w1'' 60000 6 (pw_exec sample_initiated)"

definition crash_answer :: "(exn + SellerExecutionResult) \<times> pse_world" where
  "crash_answer = executeAttempt sample_pse silent_seller sample_attempt_id 1 (Some sample_job_id) 6
     (sample_initiated\<lparr>pw_exec := snd crash_claim\<rparr>)"

theorem crash_after_answer_blocks_job_witness:
  "fst crash_answer = Inr (SR_DELIVERY_UNKNOWN ''TIMEOUT'' ''aborted'' 10000) \<and>
   (\<exists>w2. processJob sample_pse sample_seller sample_job_id 70000 (snd crash_answer) =
        (Inl ''FENCE_REJECTED: lost ownership before seller call'', w2) \<and>
      job_status (pw_exec w2) sample_job_id = Some Jb_RUNNING \<and> pw_calls w2 = pw_calls (snd crash_answer))"
proof
  show f: "fst crash_answer = Inr (SR_DELIVERY_UNKNOWN ''TIMEOUT'' ''aborted'' 10000)" by code_simp
  let ?as = "getAttemptsByOperation (snd crash_claim) ''op1''"
  have "fst crash_claim = Some 1" by code_simp
  then have claim: "claimJob sample_job_id ''w1'' 60000 6 (pw_exec sample_initiated) = (Some 1, snd crash_claim)"
    by (metis crash_claim_def prod.collapse)
  have "map_option (\<lambda>j. (job_capability j, xj_jobType j, xj_operationId j)) (getJob (snd crash_claim) sample_job_id) =
      Some (XC_EXECUTION_IDEMPOTENT, Jt_EXECUTION, ''op1'')" by code_simp
  then obtain j where j: "getJob (snd crash_claim) sample_job_id = Some j"
    "job_capability j = XC_EXECUTION_IDEMPOTENT" "xj_jobType j = Jt_EXECUTION" "xj_operationId j = ''op1''" by auto
  have "map xa_attemptId ?as = [sample_attempt_id]" by code_simp
  then obtain a where a: "?as = [a]" "xa_attemptId a = sample_attempt_id" by auto
  have s: "served_by (sample_initiated\<lparr>pw_exec := snd crash_claim\<rparr>) j a" by (simp add: served_by_def j a(1))
  have e: "executeAttempt sample_pse silent_seller (xa_attemptId a) 1 (Some sample_job_id) 6 (sample_initiated\<lparr>pw_exec := snd crash_claim\<rparr>) =
      (Inr (SR_DELIVERY_UNKNOWN ''TIMEOUT'' ''aborted'' 10000), snd crash_answer)"
    using f unfolding a(2) by (metis crash_answer_def prod.collapse)
  from crash_after_answer_blocks_job [OF sample_runs(1) hex_uuids claim j(1,2,3) s e, of 70000]
  show "\<exists>w2. processJob sample_pse sample_seller sample_job_id 70000 (snd crash_answer) =
        (Inl ''FENCE_REJECTED: lost ownership before seller call'', w2) \<and>
      job_status (pw_exec w2) sample_job_id = Some Jb_RUNNING \<and> pw_calls w2 = pw_calls (snd crash_answer)" by simp
qed

end
