(* ===== verification/Fingerprint.thy ===== *)
theory Fingerprint
  imports Prelude "HOL-Library.Char_ord" "HOL-Library.List_Lexorder"
begin

text \<open>
  \<open>stableFingerprint\<close> of \<^verbatim>\<open>zeus-secretariat/src/core/state-machine.ts\<close>: a textual fingerprint of
  a request payload that does not depend on the order of object keys. The collision guard of the
  state machine compares payloads by it, so the theory proves that it tells payloads apart: two
  payloads have the same fingerprint exactly when they are the same value up to key order.

  Strings are sequences of bytes; \<open>JSON.stringify\<close> escapes the quote, the backslash and the control
  characters. JavaScript objects have distinct keys (\<open>json_wf\<close>).
\<close>

section \<open>Text of a string\<close>

definition hex_digit :: "nat \<Rightarrow> char" where
  "hex_digit n = (if n < 10 then char_of (n + 48) else char_of (n + 87))"

definition escape_char :: "char \<Rightarrow> string" where
  "escape_char c =
     (if char_code c = 34 then [CHR 0x5C, CHR 0x22]
      else if char_code c = 92 then [CHR 0x5C, CHR 0x5C]
      else if char_code c = 8 then [CHR 0x5C, CHR ''b'']
      else if char_code c = 12 then [CHR 0x5C, CHR ''f'']
      else if char_code c = 10 then [CHR 0x5C, CHR ''n'']
      else if char_code c = 13 then [CHR 0x5C, CHR ''r'']
      else if char_code c = 9 then [CHR 0x5C, CHR ''t'']
      else if char_code c < 32
           then [CHR 0x5C, CHR ''u'', CHR ''0'', CHR ''0'', hex_digit (char_code c div 16), hex_digit (char_code c mod 16)]
      else [c])"

text \<open>The same by the bits of the character, for evaluation.\<close>

lemma escape_char_code [code]:
  "escape_char (Char b0 b1 b2 b3 b4 b5 b6 b7) =
     (if b5 \<or> b6 \<or> b7
      then (if b1 \<and> b5 \<and> \<not> (b0 \<or> b2 \<or> b3 \<or> b4 \<or> b6 \<or> b7) then [CHR 0x5C, CHR 0x22]
            else if b2 \<and> b3 \<and> b4 \<and> b6 \<and> \<not> (b0 \<or> b1 \<or> b5 \<or> b7) then [CHR 0x5C, CHR 0x5C]
            else [Char b0 b1 b2 b3 b4 b5 b6 b7])
      else let c = Char b0 b1 b2 b3 b4 False False False in
        if char_code c = 8 then [CHR 0x5C, CHR ''b''] else if char_code c = 9 then [CHR 0x5C, CHR ''t'']
        else if char_code c = 10 then [CHR 0x5C, CHR ''n''] else if char_code c = 12 then [CHR 0x5C, CHR ''f'']
        else if char_code c = 13 then [CHR 0x5C, CHR ''r'']
        else [CHR 0x5C, CHR ''u'', CHR ''0'', CHR ''0'', hex_digit (char_code c div 16), hex_digit (char_code c mod 16)])"
  by (cases b0; cases b1; cases b2; cases b3; cases b4; cases b5; cases b6; cases b7) (simp_all add: escape_char_def char_code_def)

definition quote_string :: "string \<Rightarrow> string" where
  "quote_string s = [CHR 0x22] @ concat (map escape_char s) @ [CHR 0x22]"

section \<open>The fingerprint\<close>

fun stableFingerprint :: "json \<Rightarrow> string" where
  "stableFingerprint JUndefined = ''undefined''"
| "stableFingerprint JNull = ''null''"
| "stableFingerprint (JBool b) = (if b then ''true'' else ''false'')"
| "stableFingerprint (JNum n) = string_of_int n"
| "stableFingerprint (JStr s) = quote_string s"
| "stableFingerprint (JArr vs) = ''['' @ join_with '','' (map stableFingerprint vs) @ '']''"
| "stableFingerprint (JObj kvs) = ''{'' @ join_with '',''
     (map (\<lambda>(k, f). quote_string k @ '':'' @ f) (sort_key fst (map (\<lambda>(k, v). (k, stableFingerprint v)) kvs))) @ ''}''"

section \<open>Values up to key order\<close>

fun canon :: "json \<Rightarrow> json" where
  "canon (JArr vs) = JArr (map canon vs)"
| "canon (JObj kvs) = JObj (sort_key fst (map (\<lambda>(k, v). (k, canon v)) kvs))"
| "canon v = v"

text \<open>The fingerprint is the plain text of the canonical value.\<close>

fun plain_text :: "json \<Rightarrow> string" where
  "plain_text JUndefined = ''undefined''"
| "plain_text JNull = ''null''"
| "plain_text (JBool b) = (if b then ''true'' else ''false'')"
| "plain_text (JNum n) = string_of_int n"
| "plain_text (JStr s) = quote_string s"
| "plain_text (JArr vs) = ''['' @ join_with '','' (map plain_text vs) @ '']''"
| "plain_text (JObj kvs) = ''{'' @ join_with '','' (map (\<lambda>(k, v). quote_string k @ '':'' @ plain_text v) kvs) @ ''}''"

lemma insort_key_map_snd:
  "insort_key fst (k, f v) (map (\<lambda>(k, v). (k, f v)) xs) = map (\<lambda>(k, v). (k, f v)) (insort_key fst (k, v) xs)"
  by (induction xs) auto

lemma sort_key_map_snd: "sort_key fst (map (\<lambda>(k, v). (k, f v)) kvs) = map (\<lambda>(k, v). (k, f v)) (sort_key fst kvs)"
  by (induction kvs) (auto simp: sort_key_def insort_key_map_snd)

lemma stableFingerprint_canon: "stableFingerprint v = plain_text (canon v)"
proof (induction v)
  case (JArr vs)
  then show ?case by (simp cong: map_cong)
next
  case (JObj kvs)
  have "map (\<lambda>x. quote_string (fst x) @ CHR '':'' # stableFingerprint (snd x)) (sort_key fst kvs) =
      map (\<lambda>x. quote_string (fst x) @ CHR '':'' # plain_text (canon (snd x))) (sort_key fst kvs)"
    by (rule map_cong) (use JObj in \<open>auto simp: snds.simps\<close>)
  then show ?case
    unfolding stableFingerprint.simps canon.simps plain_text.simps sort_key_map_snd map_map comp_def
    by (simp add: case_prod_unfold del: map_eq_conv)
qed simp_all

section \<open>Strings are quoted unambiguously\<close>

lemma char_code_inj: "char_code c = char_code d \<Longrightarrow> c = d"
  by (simp add: char_code_def)

lemma char_code_less: "char_code c < 256"
  by (simp add: char_code_def)

definition hex_code :: "char \<Rightarrow> nat" where
  "hex_code c = (if char_code c < 58 then char_code c - 48 else char_code c - 87)"

fun read_char :: "string \<Rightarrow> (char \<times> string) option" where
  "read_char [] = None"
| "read_char (c # s) =
     (if c \<noteq> CHR 0x5C then Some (c, s)
      else (case s of
          [] \<Rightarrow> None
        | d # s' \<Rightarrow>
            (if d = CHR ''u'' then (case s' of _ # _ # h # l # r \<Rightarrow> Some (char_of (16 * hex_code h + hex_code l :: nat), r) | _ \<Rightarrow> None)
             else Some (if d = CHR ''b'' then CHR 0x08 else if d = CHR ''f'' then CHR 0x0C else if d = CHR ''n'' then CHR 0x0A
                        else if d = CHR ''r'' then CHR 0x0D else if d = CHR ''t'' then CHR 0x09 else d, s'))))"

lemma code_of_char_of [simp]: "char_code (char_of (n :: nat)) = n mod 256"
  by (simp add: char_code_def)

lemma char_of_code [simp]: "char_of (char_code c) = c"
  by (simp add: char_code_def)

lemma hex_code_digit [simp]: "n < 16 \<Longrightarrow> hex_code (hex_digit n) = n"
  by (auto simp: hex_code_def hex_digit_def)

lemma char_eq_code: "c = d \<longleftrightarrow> char_code c = char_code d"
  using char_code_inj by blast

lemma read_escape: "read_char (escape_char c @ s) = Some (c, s)"
proof -
  have [simp]: "char_code (CHR 0x5C) = 92" "char_code (CHR 0x22) = 34" "char_code CHR ''u'' = 117" "char_code CHR ''b'' = 98"
    "char_code CHR ''f'' = 102" "char_code CHR ''n'' = 110" "char_code CHR ''r'' = 114" "char_code CHR ''t'' = 116"
    "char_code CHR 0x08 = 8" "char_code CHR 0x0C = 12" "char_code CHR 0x0A = 10" "char_code CHR 0x0D = 13" "char_code CHR 0x09 = 9"
    by (simp_all add: char_code_def)
  show ?thesis using char_code_less [of c] by (auto simp: escape_char_def char_eq_code)
qed

lemma escape_char_hd: "escape_char c = d # r \<Longrightarrow> d \<noteq> CHR 0x22"
  using char_code_less [of c] by (auto simp: escape_char_def char_code_def split: if_splits)

lemma escape_nonempty [simp]: "escape_char c \<noteq> []"
  by (simp add: escape_char_def)

lemma escaped_inj:
  "concat (map escape_char a) @ CHR 0x22 # s = concat (map escape_char b) @ CHR 0x22 # t \<Longrightarrow> a = b \<and> s = t"
proof (induction a arbitrary: b)
  case Nil
  show ?case
  proof (cases b)
    case (Cons d ds)
    obtain x r where "escape_char d = x # r" by (cases "escape_char d") simp_all
    with Nil Cons escape_char_hd show ?thesis by auto
  qed (use Nil in simp)
next
  case (Cons c a)
  show ?case
  proof (cases b)
    case Nil
    obtain x r where "escape_char c = x # r" by (cases "escape_char c") simp_all
    with Nil Cons.prems escape_char_hd show ?thesis by auto
  next
    case (Cons d ds)
    with Cons.prems have "read_char (escape_char c @ concat (map escape_char a) @ CHR 0x22 # s) =
        read_char (escape_char d @ concat (map escape_char ds) @ CHR 0x22 # t)" by simp
    then have "c = d" "concat (map escape_char a) @ CHR 0x22 # s = concat (map escape_char ds) @ CHR 0x22 # t"
      by (simp_all add: read_escape)
    with Cons.IH Cons show ?thesis by blast
  qed
qed

lemma quote_inj: "quote_string a @ s = quote_string b @ t \<Longrightarrow> a = b \<and> s = t"
  using escaped_inj [of a s b t] by (simp add: quote_string_def)

section \<open>Numbers end where their digits end\<close>

definition stop :: "string \<Rightarrow> bool" where
  "stop s = (case s of [] \<Rightarrow> True | c # _ \<Rightarrow> c \<in> {CHR '','', CHR '']'', CHR ''}''})"

definition digit_char :: "char \<Rightarrow> bool" where
  "digit_char c = (digit_value c \<noteq> None)"

lemma digit_of_nat: "n < 10 \<Longrightarrow> digit_value (char_of (n + 48)) = Some (int n)"
  by (simp add: digit_value_def)

lemma read_string_of_nat: "read_digits digit_value 10 0 (string_of_nat n) = Some (int n)"
proof (induction n rule: string_of_nat.induct)
  case (1 n)
  show ?case
  proof (cases "n < 10")
    case True
    then show ?thesis by (subst string_of_nat.simps) (simp add: digit_of_nat)
  next
    case False
    have "int (n div 10) * 10 + int (n mod 10) = int n" using div_mult_mod_eq [of n 10] by linarith
    with 1 False show ?thesis
      by (subst string_of_nat.simps) (simp add: read_digits_append digit_of_nat)
  qed
qed

lemma string_of_nat_digits: "c \<in> set (string_of_nat n) \<Longrightarrow> digit_char c"
proof (induction n rule: string_of_nat.induct)
  case (1 n)
  then show ?case
    by (subst (asm) (2) string_of_nat.simps) (auto simp: digit_char_def digit_of_nat split: if_splits)
qed

lemma string_of_nat_nonempty [simp]: "string_of_nat n \<noteq> []"
  by (subst string_of_nat.simps) simp

lemma stop_not_digit: "stop s \<Longrightarrow> takeWhile digit_char s = []"
  by (cases s) (auto simp: stop_def digit_char_def digit_value_def char_code_def)

lemma nat_text_inj:
  assumes "string_of_nat n @ s = string_of_nat m @ t" "stop s" "stop t"
  shows "n = m \<and> s = t"
proof -
  have tw: "takeWhile digit_char (string_of_nat k @ r) = string_of_nat k" if "stop r" for k r
    using that string_of_nat_digits by (subst takeWhile_append2) (auto simp: stop_not_digit)
  have e: "string_of_nat n = string_of_nat m" using tw [OF assms(2), of n] tw [OF assms(3), of m] assms(1) by metis
  then have "n = m" by (metis read_string_of_nat option.inject of_nat_eq_iff)
  with e assms(1) show ?thesis by simp
qed

lemma minus_not_digit: "\<not> digit_char CHR ''-''"
  by (simp add: digit_char_def digit_value_def char_code_def)

lemma int_text_inj:
  assumes "string_of_int n @ s = string_of_int m @ t" "stop s" "stop t"
  shows "n = m \<and> s = t"
proof -
  have no: "CHR ''-'' # x \<noteq> string_of_nat k @ r" for x k r
    using string_of_nat_digits [of "CHR ''-''" k] minus_not_digit by (cases "string_of_nat k") auto
  show ?thesis
  proof (cases "n < 0")
    case True
    with assms(1) no have m: "m < 0" by (cases "m < 0") (auto simp: string_of_int_def)
    with True assms nat_text_inj [of "nat (- n)" s "nat (- m)" t] show ?thesis by (auto simp: string_of_int_def)
  next
    case False
    with assms(1) no have m: "\<not> m < 0" by (cases "m < 0") (auto simp: string_of_int_def dest: sym)
    with False assms nat_text_inj [of "nat n" s "nat m" t] show ?thesis by (auto simp: string_of_int_def)
  qed
qed

section \<open>Values are printed unambiguously\<close>

text \<open>The constructor of a value shows in the first character of its text.\<close>

fun json_kind :: "json \<Rightarrow> nat" where
  "json_kind JUndefined = 0"
| "json_kind JNull = 1"
| "json_kind (JBool b) = (if b then 2 else 3)"
| "json_kind (JNum n) = 4"
| "json_kind (JStr s) = 5"
| "json_kind (JArr vs) = 6"
| "json_kind (JObj kvs) = 7"

definition char_kind :: "char \<Rightarrow> nat" where
  "char_kind c = (if c = CHR ''u'' then 0 else if c = CHR ''n'' then 1 else if c = CHR ''t'' then 2 else if c = CHR ''f'' then 3
     else if c = CHR ''-'' \<or> digit_char c then 4 else if c = CHR 0x22 then 5 else if c = CHR ''['' then 6
     else if c = CHR ''{'' then 7 else 8)"

lemma char_kind_digit: "digit_char c \<Longrightarrow> char_kind c = 4"
  by (auto simp: char_kind_def digit_char_def digit_value_def char_code_def)

lemma plain_text_hd: "\<exists>c r. plain_text v = c # r \<and> char_kind c = json_kind v"
proof (cases v)
  case (JNum n)
  have "\<exists>c r. string_of_nat k = c # r \<and> char_kind c = 4" for k
    using string_of_nat_digits [of "hd (string_of_nat k)" k] char_kind_digit by (cases "string_of_nat k") auto
  with JNum show ?thesis by (auto simp: string_of_int_def char_kind_def)
qed (auto simp: char_kind_def quote_string_def digit_char_def digit_value_def char_code_def)

lemma char_kind_stop: "char_kind c < 8 \<Longrightarrow> \<not> stop (c # r)"
  by (auto simp: stop_def char_kind_def digit_char_def digit_value_def char_code_def split: if_splits)

lemma json_kind_less: "json_kind v < 8"
  by (cases v) simp_all

lemma plain_text_kind: "plain_text v @ s = plain_text w @ t \<Longrightarrow> json_kind v = json_kind w"
  using plain_text_hd [of v] plain_text_hd [of w] by auto

lemma join_Cons: "join_with sep (x # xs) = x @ concat (map (\<lambda>y. sep @ y) xs)"
  by (induction xs arbitrary: x) auto

text \<open>A printer of items whose text is unambiguous, nonempty and does not begin with a stop character.\<close>

definition prints_well :: "('a \<Rightarrow> string) \<Rightarrow> 'a \<Rightarrow> bool" where
  "prints_well P x = (\<forall>y s t. P x @ s = P y @ t \<longrightarrow> stop s \<longrightarrow> stop t \<longrightarrow> x = y \<and> s = t)"

lemma prints_wellD: "prints_well P x \<Longrightarrow> P x @ s = P y @ t \<Longrightarrow> stop s \<Longrightarrow> stop t \<Longrightarrow> x = y \<and> s = t"
  unfolding prints_well_def by blast

lemma rest_inj:
  assumes "\<forall>x \<in> set xs. prints_well P x" "c \<in> {CHR '']'', CHR ''}''}"
  shows "concat (map (\<lambda>x. '','' @ P x) xs) @ c # s = concat (map (\<lambda>x. '','' @ P x) ys) @ c # t \<Longrightarrow> xs = ys \<and> s = t"
  using assms(1)
proof (induction xs arbitrary: ys)
  case Nil
  then show ?case using assms(2) by (cases ys) auto
next
  case (Cons x xs)
  show ?case
  proof (cases ys)
    case Nil
    with Cons.prems(1) assms(2) show ?thesis by auto
  next
    case (Cons y zs)
    have st: "stop (concat (map (\<lambda>x. '','' @ P x) us) @ c # r)" for us r
      using assms(2) by (cases us) (auto simp: stop_def)
    from Cons.prems Cons have "P x @ (concat (map (\<lambda>x. '','' @ P x) xs) @ c # s) = P y @ (concat (map (\<lambda>x. '','' @ P x) zs) @ c # t)"
      by simp
    from prints_wellD [OF bspec [OF Cons.prems(2), of x, simplified] this st st]
    have "x = y" "concat (map (\<lambda>x. '','' @ P x) xs) @ c # s = concat (map (\<lambda>x. '','' @ P x) zs) @ c # t" by simp_all
    with Cons.IH [of zs] Cons.prems(2) Cons show ?thesis by simp
  qed
qed

lemma list_inj:
  assumes "\<forall>x \<in> set xs. prints_well P x" "c \<in> {CHR '']'', CHR ''}''}"
    and "\<And>x. \<exists>d r. P x = d # r \<and> char_kind d < 8"
    and "join_with '','' (map P xs) @ c # s = join_with '','' (map P ys) @ c # t"
  shows "xs = ys \<and> s = t"
proof -
  have hd: "P x @ r \<noteq> c # u" for x r u
    using assms(3) [of x] assms(2) char_kind_stop [of c] by (auto simp: stop_def)
  have join: "join_with '','' (map P (z # zs)) = P z @ concat (map (\<lambda>x. '','' @ P x) zs)" for z zs
    by (simp add: join_Cons comp_def)
  show ?thesis
  proof (cases xs; cases ys)
    fix x xs' y ys' assume xy: "xs = x # xs'" "ys = y # ys'"
    have st: "stop (concat (map (\<lambda>x. '','' @ P x) us) @ c # r)" for us r
      using assms(2) by (cases us) (auto simp: stop_def)
    from assms(4) xy have "P x @ (concat (map (\<lambda>x. '','' @ P x) xs') @ c # s) = P y @ (concat (map (\<lambda>x. '','' @ P x) ys') @ c # t)"
      by (simp only: join append_assoc)
    from prints_wellD [OF bspec [OF assms(1), of x] this st st] xy
    have "x = y" "concat (map (\<lambda>x. '','' @ P x) xs') @ c # s = concat (map (\<lambda>x. '','' @ P x) ys') @ c # t" by simp_all
    with rest_inj [of xs' P c s ys' t] assms(1,2) xy show ?thesis by simp
  qed (use assms(4) hd join in \<open>auto dest: sym\<close>)
qed

lemma pair_prints_well:
  assumes "prints_well plain_text v"
  shows "prints_well (\<lambda>(k, v). quote_string k @ '':'' @ plain_text v) (k, v)"
  unfolding prints_well_def
proof (intro allI impI)
  fix y s t assume eq: "(case (k, v) of (k, v) \<Rightarrow> quote_string k @ '':'' @ plain_text v) @ s =
      (case y of (k, v) \<Rightarrow> quote_string k @ '':'' @ plain_text v) @ t" and st: "stop s" "stop t"
  obtain k' v' where y: "y = (k', v')" by fastforce
  from eq y have "quote_string k @ '':'' @ plain_text v @ s = quote_string k' @ '':'' @ plain_text v' @ t" by simp
  from quote_inj [OF this] have "k = k'" "plain_text v @ s = plain_text v' @ t" by simp_all
  with prints_wellD [OF assms _ st] y show "(k, v) = y \<and> s = t" by blast
qed

lemma const_prints_well: "\<forall>w. json_kind w = json_kind v \<longrightarrow> w = v \<Longrightarrow> prints_well plain_text v"
  unfolding prints_well_def by (metis plain_text_kind same_append_eq)

lemma json_kind_JUndefined: "json_kind w = 0 \<Longrightarrow> w = JUndefined"
  by (cases w) (simp_all split: if_splits)

lemma json_kind_JNull: "json_kind w = 1 \<Longrightarrow> w = JNull"
  by (cases w) (simp_all split: if_splits)

lemma json_kind_JBool: "json_kind w = (if b then 2 else 3) \<Longrightarrow> w = JBool b"
  by (cases w) (simp_all split: if_splits)

lemma plain_text_inj: "prints_well plain_text v"
proof (induction v)
  case (JArr vs)
  show ?case
    unfolding prints_well_def
  proof (intro allI impI)
    fix w s t assume eq: "plain_text (JArr vs) @ s = plain_text w @ t" and st: "stop s" "stop t"
    from plain_text_kind [OF eq] obtain ws where w: "w = JArr ws" by (cases w) (auto split: if_splits)
    have ne: "\<exists>d r. plain_text x = d # r \<and> char_kind d < 8" for x
      using plain_text_hd [of x] json_kind_less [of x] by auto
    from eq w have "join_with '','' (map plain_text vs) @ CHR '']'' # s = join_with '','' (map plain_text ws) @ CHR '']'' # t" by simp
    from list_inj [OF _ _ ne this] JArr w show "JArr vs = w \<and> s = t" by simp
  qed
next
  case (JObj kvs)
  let ?P = "\<lambda>(k, v). quote_string k @ '':'' @ plain_text v"
  show ?case
    unfolding prints_well_def
  proof (intro allI impI)
    fix w s t assume eq: "plain_text (JObj kvs) @ s = plain_text w @ t" and st: "stop s" "stop t"
    from plain_text_kind [OF eq] obtain ws where w: "w = JObj ws" by (cases w) (auto split: if_splits)
    have ne: "\<exists>d r. ?P x = d # r \<and> char_kind d < 8" for x
      by (cases x) (simp add: quote_string_def char_kind_def digit_char_def digit_value_def char_code_def)
    have items: "\<forall>x \<in> set kvs. prints_well ?P x"
    proof
      fix x assume "x \<in> set kvs"
      with JObj have "prints_well plain_text (snd x)" by (cases x) (force simp: snds.simps)
      with pair_prints_well show "prints_well ?P x" by (cases x) simp
    qed
    from eq w have "join_with '','' (map ?P kvs) @ CHR ''}'' # s = join_with '','' (map ?P ws) @ CHR ''}'' # t" by simp
    from list_inj [OF items _ ne this] w show "JObj kvs = w \<and> s = t" by simp
  qed
next
  case (JNum n)
  show ?case
    unfolding prints_well_def
  proof (intro allI impI)
    fix w s t assume eq: "plain_text (JNum n) @ s = plain_text w @ t" and st: "stop s" "stop t"
    from plain_text_kind [OF eq] obtain m where w: "w = JNum m" by (cases w) (auto split: if_splits)
    with eq have "string_of_int n @ s = string_of_int m @ t" by simp
    from int_text_inj [OF this st] w show "JNum n = w \<and> s = t" by simp
  qed
next
  case (JStr a)
  show ?case
    unfolding prints_well_def
  proof (intro allI impI)
    fix w s t assume eq: "plain_text (JStr a) @ s = plain_text w @ t"
    from plain_text_kind [OF eq] obtain b where w: "w = JStr b" by (cases w) (auto split: if_splits)
    with eq have "quote_string a @ s = quote_string b @ t" by simp
    from quote_inj [OF this] w show "JStr a = w \<and> s = t" by simp
  qed
next
  case JUndefined
  show ?case by (rule const_prints_well) (simp add: json_kind_JUndefined)
next
  case JNull
  show ?case by (rule const_prints_well) (simp add: json_kind_JNull)
next
  case (JBool b)
  show ?case by (rule const_prints_well) (use json_kind_JBool [of _ b] in \<open>simp only: json_kind.simps\<close>, blast)
qed

section \<open>The fingerprint identifies payloads up to key order\<close>

lemma fingerprint_identifies_payload:
  "stableFingerprint v = stableFingerprint w \<longleftrightarrow> canon v = canon w"
proof
  assume "stableFingerprint v = stableFingerprint w"
  then have "plain_text (canon v) @ [] = plain_text (canon w) @ []" by (simp add: stableFingerprint_canon)
  from prints_wellD [OF plain_text_inj this] show "canon v = canon w" by (simp add: stop_def)
qed (simp add: stableFingerprint_canon)

end
