(* ===== verification/Outbox.thy ===== *)
theory Outbox
  imports SettlementFeedback "HOL-Library.Product_Lexorder"
begin

text \<open>
  The evidence outbox of \<^verbatim>\<open>zeus-secretariat/src/core/state-machine.ts\<close>: evidence is recorded on
  the operation with a sequence number, and a flush appends what the store has not confirmed, in
  sequence order, with a bounded number of attempts. The store's \<open>append\<close> may fail; it is an
  argument, with its contract in the locale \<open>evidence_log\<close>.
\<close>

section \<open>Recording\<close>

definition recordEvidence :: "EvidencePhase \<Rightarrow> string \<Rightarrow> json \<Rightarrow> int \<Rightarrow> Operation \<Rightarrow> Operation" where
  "recordEvidence phase event payload t opn = opn\<lparr>op_evidence := op_evidence opn @
     [\<lparr>ev_operationId = op_operationId opn, ev_phase = phase, ev_timestamp = t, ev_event = event,
       ev_payload = payload, ev_sequence = Some (length (op_evidence opn))\<rparr>]\<rparr>"

definition rightarrow :: string where "rightarrow = [CHR 0xE2, CHR 0x86, CHR 0x92]"

definition transitionState :: "OperationStatus \<Rightarrow> int \<Rightarrow> Operation \<Rightarrow> exn + Operation" where
  "transitionState newState t opn =
     (if \<not> isValidTransition (op_currentState opn) newState
      then Inl (''Invalid state transition: '' @ op_name (op_currentState opn) @ '' '' @ rightarrow @ '' '' @ op_name newState)
      else Inr (recordEvidence FINAL ''STATE_TRANSITION''
             (JObj [(''from'', JStr (op_name (op_currentState opn))), (''to'', JStr (op_name newState))]) t
             (opn\<lparr>op_currentState := newState, op_timestamps := (op_timestamps opn)\<lparr>ts_updatedAt := t\<rparr>\<rparr>)))"

section \<open>Flushing\<close>

text \<open>The configured number of attempts, clamped to 1..10.\<close>

definition evidenceFlushAttempts :: "int option \<Rightarrow> nat" where
  "evidenceFlushAttempts configured = nat (max 1 (min 10 (opt_default 3 configured)))"

definition ordered_evidence :: "Operation \<Rightarrow> (EvidenceRecord \<times> nat) list" where
  "ordered_evidence opn = sort_key (\<lambda>(r, key). (key, ev_timestamp r))
     (map (\<lambda>(idx, r). (r, opt_default idx (ev_sequence r))) (List.enumerate 0 (op_evidence opn)))"

type_synonym 'st append_op = "EvidenceRecord \<Rightarrow> 'st \<Rightarrow> (exn + unit) \<times> 'st"
type_synonym cursors = "(string, nat) jsmap"

text \<open>One pass over the records: stops at the first failing append.\<close>

fun flush_batch :: "'st append_op \<Rightarrow> string \<Rightarrow> (EvidenceRecord \<times> nat) list \<Rightarrow> cursors \<Rightarrow> 'st \<Rightarrow> exn option \<times> cursors \<times> 'st" where
  "flush_batch app opId [] cs st = (None, cs, st)"
| "flush_batch app opId ((r, key) # rs) cs st =
     (if key < opt_default 0 (js_get cs opId) then flush_batch app opId rs cs st
      else (case app r st of
              (Inr _, st') \<Rightarrow> flush_batch app opId rs (js_set opId (Suc key) cs) st'
            | (Inl e, st') \<Rightarrow> (Some e, cs, st')))"

fun flush_passes :: "'st append_op \<Rightarrow> string \<Rightarrow> (EvidenceRecord \<times> nat) list \<Rightarrow> nat \<Rightarrow> exn \<Rightarrow> cursors \<Rightarrow> 'st \<Rightarrow> (exn + unit) \<times> cursors \<times> 'st" where
  "flush_passes app opId rs 0 lastErr cs st = (Inl lastErr, cs, st)"
| "flush_passes app opId rs (Suc n) lastErr cs st =
     (case flush_batch app opId rs cs st of
        (None, cs', st') \<Rightarrow> (Inr (), cs', st')
      | (Some e, cs', st') \<Rightarrow> flush_passes app opId rs n e cs' st')"

definition flushPendingEvidence :: "'st append_op \<Rightarrow> nat \<Rightarrow> Operation \<Rightarrow> cursors \<Rightarrow> 'st \<Rightarrow> (exn + unit) \<times> cursors \<times> 'st" where
  "flushPendingEvidence app maxAttempts opn cs st =
     (case flush_passes app (op_operationId opn) (ordered_evidence opn) maxAttempts ''unknown'' cs st of
        (Inr u, cs', st') \<Rightarrow> (Inr u, cs', st')
      | (Inl e, cs', st') \<Rightarrow>
          (Inl (''EVIDENCE_PERSISTENCE_FAILED: '' @
                string_of_nat (length (op_evidence opn) - opt_default 0 (js_get cs' (op_operationId opn))) @
                '' evidence record(s) unpersisted after '' @ string_of_nat maxAttempts @
                '' attempt(s); last error: '' @ e), cs', st'))"

text \<open>Flush, then snapshot the operation; a failed flush is thrown before the snapshot.\<close>

definition persistOperation ::
    "'st append_op \<Rightarrow> (Operation \<Rightarrow> 'st \<Rightarrow> (exn + unit) \<times> 'st) \<Rightarrow> nat \<Rightarrow> Operation \<Rightarrow> cursors \<Rightarrow> 'st \<Rightarrow> (exn + unit) \<times> cursors \<times> 'st" where
  "persistOperation app save maxAttempts opn cs st =
     (case flushPendingEvidence app maxAttempts opn cs st of
        (Inl e, cs', st') \<Rightarrow> (Inl e, cs', st')
      | (Inr _, cs', st') \<Rightarrow> (case save opn st' of (x, st'') \<Rightarrow> (x, cs', st'')))"

text \<open>After a restart the cursor is the number of records the store has.\<close>

definition seedEvidenceCursor :: "('st \<Rightarrow> string \<Rightarrow> EvidenceRecord list) \<Rightarrow> string \<Rightarrow> cursors \<Rightarrow> 'st \<Rightarrow> cursors" where
  "seedEvidenceCursor readEvidence opId cs st =
     (if js_has cs opId then cs else js_set opId (length (readEvidence st opId)) cs)"

section \<open>The store's contract\<close>

text \<open>
  An append that succeeds adds the record at the end; one that fails has either done so or nothing
  (a failed call does not prove that the database made no change). \<open>calls\<close> and \<open>faults\<close>
  count the calls and the failed calls.
\<close>

locale evidence_log =
  fixes app :: "'st append_op" and log :: "'st \<Rightarrow> string \<Rightarrow> EvidenceRecord list"
    and calls :: "'st \<Rightarrow> nat" and faults :: "'st \<Rightarrow> nat"
  assumes append_ok: "app r st = (Inr u, st') \<Longrightarrow> log st' (ev_operationId r) = log st (ev_operationId r) @ [r] \<and>
      calls st' = Suc (calls st) \<and> faults st' = faults st"
    and append_err: "app r st = (Inl e, st') \<Longrightarrow>
      log st' (ev_operationId r) \<in> {log st (ev_operationId r), log st (ev_operationId r) @ [r]} \<and>
      calls st' = Suc (calls st) \<and> faults st' = Suc (faults st)"
begin

text \<open>From cursor \<open>c\<close> to \<open>c'\<close>: everything in between was appended, nothing was removed.\<close>

definition advanced :: "string \<Rightarrow> EvidenceRecord list \<Rightarrow> nat \<Rightarrow> 'st \<Rightarrow> nat \<Rightarrow> 'st \<Rightarrow> bool" where
  "advanced k es c st c' st' = (c \<le> c' \<and> c' \<le> length es \<and>
     (\<exists>ys. log st' k = log st k @ ys \<and> set (take (c' - c) (drop c es)) \<subseteq> set ys))"

lemma advanced_refl: "c \<le> length es \<Longrightarrow> log st' k = log st k @ ys \<Longrightarrow> advanced k es c st c st'"
  by (simp add: advanced_def)

lemma advanced_trans:
  assumes "advanced k es c st c' st'" "advanced k es c' st' c'' st''"
  shows "advanced k es c st c'' st''"
proof -
  from assms have le: "c \<le> c'" "c' \<le> c''" "c'' \<le> length es" by (auto simp: advanced_def)
  then have "c'' - c = (c' - c) + (c'' - c')" by simp
  with le have "take (c'' - c) (drop c es) = take (c' - c) (drop c es) @ take (c'' - c') (drop c' es)"
    by (simp only: take_add drop_drop) (simp add: add.commute)
  with assms le show ?thesis by (fastforce simp: advanced_def)
qed

lemma batch_advances:
  assumes "flush_batch app k (zip (drop i es) [i..<length es]) cs st = (e, cs', st')" "\<forall>r \<in> set es. ev_operationId r = k"
    and "i \<le> opt_default 0 (js_get cs k)" "opt_default 0 (js_get cs k) \<le> length es" "i \<le> length es"
  shows "advanced k es (opt_default 0 (js_get cs k)) st (opt_default 0 (js_get cs' k)) st' \<and>
    (e = None \<longrightarrow> opt_default 0 (js_get cs' k) = length es) \<and>
    calls st' = calls st + (opt_default 0 (js_get cs' k) - opt_default 0 (js_get cs k)) + (if e = None then 0 else 1) \<and>
    faults st' = faults st + (if e = None then 0 else 1)"
  using assms
proof (induction "length es - i" arbitrary: i cs st)
  case 0
  then show ?case by (auto simp: advanced_def)
next
  case (Suc n)
  then have i: "i < length es" by simp
  let ?r = "es ! i" let ?c = "opt_default 0 (js_get cs k)"
  have split: "zip (drop i es) [i..<length es] = (?r, i) # zip (drop (Suc i) es) [Suc i..<length es]"
    using i by (simp add: Cons_nth_drop_Suc [symmetric] upt_conv_Cons)
  have r: "ev_operationId ?r = k" using Suc.prems(2) i by simp
  show ?case
  proof (cases "i < ?c")
    case True
    with Suc.prems(1) split have "flush_batch app k (zip (drop (Suc i) es) [Suc i..<length es]) cs st = (e, cs', st')" by simp
    from Suc.hyps(1) [OF _ this Suc.prems(2)] Suc.hyps(2) True Suc.prems(4) i show ?thesis by simp
  next
    case False
    with Suc.prems(3) have c: "?c = i" by simp
    obtain x st1 where a: "app ?r st = (x, st1)" by fastforce
    show ?thesis
    proof (cases x)
      case (Inl e')
      with append_err [of ?r st e' st1] a r Suc.prems(1) split c have st: "st' = st1" "cs' = cs" "e = Some e'"
        and l: "log st1 k \<in> {log st k, log st k @ [?r]}" "calls st1 = Suc (calls st)" "faults st1 = Suc (faults st)" by auto
      from l(1) obtain ys where "log st1 k = log st k @ ys" by auto
      with st l c i show ?thesis by (auto intro: advanced_refl)
    next
      case (Inr u)
      with append_ok [of ?r st u st1] a r have l: "log st1 k = log st k @ [?r]" "calls st1 = Suc (calls st)" "faults st1 = faults st" by auto
      have "flush_batch app k (zip (drop (Suc i) es) [Suc i..<length es]) (js_set k (Suc i) cs) st1 = (e, cs', st')"
        using Suc.prems(1) split a Inr c by simp
      from Suc.hyps(1) [OF _ this Suc.prems(2)] Suc.hyps(2) i
      have IH: "advanced k es (Suc i) st1 (opt_default 0 (js_get cs' k)) st'"
        "e = None \<longrightarrow> opt_default 0 (js_get cs' k) = length es"
        "calls st' = calls st1 + (opt_default 0 (js_get cs' k) - Suc i) + (if e = None then 0 else 1)"
        "faults st' = faults st1 + (if e = None then 0 else 1)" by simp_all
      have "advanced k es i st (Suc i) st1"
        using l i by (simp add: advanced_def take_Suc_conv_app_nth [of 0] hd_drop_conv_nth take_Suc)
      from advanced_trans [OF this IH(1)] IH l c show ?thesis by (auto simp: advanced_def)
    qed
  qed
qed

lemma passes_advance:
  assumes "flush_passes app k (zip es [0..<length es]) m e0 cs st = (x, cs', st')" "\<forall>r \<in> set es. ev_operationId r = k"
    and "opt_default 0 (js_get cs k) \<le> length es"
  shows "advanced k es (opt_default 0 (js_get cs k)) st (opt_default 0 (js_get cs' k)) st' \<and>
    (isl x \<longrightarrow> faults st' = faults st + m) \<and>
    (\<not> isl x \<longrightarrow> faults st' < faults st + m \<and> opt_default 0 (js_get cs' k) = length es) \<and>
    calls st' \<le> calls st + (opt_default 0 (js_get cs' k) - opt_default 0 (js_get cs k)) + m"
  using assms
proof (induction m arbitrary: e0 cs st)
  case 0
  then show ?case by (auto simp: advanced_def)
next
  case (Suc m)
  obtain e cs1 st1 where b: "flush_batch app k (zip es [0..<length es]) cs st = (e, cs1, st1)" by (metis prod_cases3)
  note B = batch_advances [of k 0 es cs st e cs1 st1, simplified, OF b Suc.prems(2,3)]
  show ?case
  proof (cases e)
    case None
    with Suc.prems(1) b have "x = Inr ()" "cs' = cs1" "st' = st1" by auto
    with B None show ?thesis by auto
  next
    case (Some e1)
    with Suc.prems(1) b have p: "flush_passes app k (zip es [0..<length es]) m e1 cs1 st1 = (x, cs', st')" by simp
    from B have le: "opt_default 0 (js_get cs1 k) \<le> length es" by (simp add: advanced_def)
    note IH = Suc.IH [OF p Suc.prems(2) le]
    have "advanced k es (opt_default 0 (js_get cs k)) st (opt_default 0 (js_get cs' k)) st'"
      using advanced_trans B IH by blast
    with B IH Some show ?thesis by (auto simp: advanced_def)
  qed
qed

lemma flush_advances:
  assumes "flushPendingEvidence app m opn cs st = (x, cs', st')" "ordered_evidence opn = zip es [0..<length es]"
    and "es = op_evidence opn" "\<forall>r \<in> set es. ev_operationId r = op_operationId opn"
    and "opt_default 0 (js_get cs (op_operationId opn)) \<le> length es"
  shows "advanced (op_operationId opn) es (opt_default 0 (js_get cs (op_operationId opn))) st
      (opt_default 0 (js_get cs' (op_operationId opn))) st' \<and>
    (isl x \<longrightarrow> faults st' = faults st + m) \<and>
    (\<not> isl x \<longrightarrow> faults st' < faults st + m \<and> opt_default 0 (js_get cs' (op_operationId opn)) = length es) \<and>
    calls st' \<le> calls st + (opt_default 0 (js_get cs' (op_operationId opn)) - opt_default 0 (js_get cs (op_operationId opn))) + m"
proof -
  obtain y cs1 st1 where p: "flush_passes app (op_operationId opn) (zip es [0..<length es]) m ''unknown'' cs st = (y, cs1, st1)"
    by (metis prod_cases3)
  from assms(1,2) p have eq: "cs' = cs1" "st' = st1" "isl x = isl y"
    by (auto simp: flushPendingEvidence_def split: sum.splits)
  from passes_advance [OF p assms(4,5)] show ?thesis by (simp add: eq)
qed

end

section \<open>Recorded evidence is numbered\<close>

definition numbered :: "Operation \<Rightarrow> bool" where
  "numbered opn = (\<forall>i < length (op_evidence opn). ev_sequence (op_evidence opn ! i) = Some i \<and>
     ev_operationId (op_evidence opn ! i) = op_operationId opn)"

lemma numbered_empty: "op_evidence opn = [] \<Longrightarrow> numbered opn"
  by (simp add: numbered_def)

lemma numbered_record [simp]: "numbered opn \<Longrightarrow> numbered (recordEvidence phase event payload t opn)"
  by (auto simp: numbered_def recordEvidence_def nth_append less_Suc_eq)

lemma numbered_transition: "numbered opn \<Longrightarrow> transitionState s t opn = Inr opn' \<Longrightarrow> numbered opn'"
  by (auto simp: transitionState_def numbered_def recordEvidence_def nth_append less_Suc_eq split: if_splits)

lemma ordered_numbered:
  assumes "numbered opn"
  shows "ordered_evidence opn = zip (op_evidence opn) [0..<length (op_evidence opn)]"
proof -
  let ?es = "op_evidence opn"
  have m: "map (\<lambda>(idx, r). (r, opt_default idx (ev_sequence r))) (List.enumerate 0 ?es) = zip ?es [0..<length ?es]"
    using assms by (auto simp: numbered_def enumerate_eq_zip intro!: nth_equalityI)
  have "sorted (map (\<lambda>(r, key). (key, ev_timestamp r)) (zip ?es [0..<length ?es]))"
    by (auto simp: sorted_iff_nth_mono_less less_eq_prod_def)
  with m show ?thesis by (simp add: ordered_evidence_def sorted_sort_id sort_key_id_if_sorted)
qed

lemma numbered_operation: "numbered opn \<Longrightarrow> \<forall>r \<in> set (op_evidence opn). ev_operationId r = op_operationId opn"
  by (auto simp: numbered_def in_set_conv_nth)

section \<open>A store behind a failing connection\<close>

text \<open>
  The in-memory store reached through a connection that may fail: \<open>fault n\<close> says whether the n-th
  call fails, and if so whether it was carried out all the same.
\<close>

record faulty_store =
  fs_store :: mem_store
  fs_calls :: nat
  fs_faults :: nat

definition faulty_append :: "(nat \<Rightarrow> bool option) \<Rightarrow> EvidenceRecord \<Rightarrow> faulty_store \<Rightarrow> (exn + unit) \<times> faulty_store" where
  "faulty_append fault r fs =
     (let fs1 = fs\<lparr>fs_calls := Suc (fs_calls fs)\<rparr>; done_it = fs1\<lparr>fs_store := append_evidence r (fs_store fs)\<rparr>
      in case fault (fs_calls fs) of
           None \<Rightarrow> (Inr (), done_it)
         | Some committed \<Rightarrow>
             (Inl ''connection failure'', (if committed then done_it else fs1)\<lparr>fs_faults := Suc (fs_faults fs)\<rparr>))"

definition faulty_log :: "faulty_store \<Rightarrow> string \<Rightarrow> EvidenceRecord list" where
  "faulty_log fs k = getEvidence (fs_store fs) k"

lemma getEvidence_append [simp]:
  "getEvidence (append_evidence r st) k = (if k = ev_operationId r then getEvidence st k @ [r] else getEvidence st k)"
  by (simp add: getEvidence_def append_evidence_def)

interpretation faulty: evidence_log "faulty_append fault" faulty_log fs_calls fs_faults
  by unfold_locales (auto simp: faulty_append_def faulty_log_def Let_def split: option.splits if_splits)

section \<open>Properties\<close>

text \<open>
  The evidence outbox over a failing connection: a flush only adds to the store's log and
  appends every record between the old and the new cursor; it succeeds exactly when fewer than the
  allowed number of calls fail, and then the cursor has reached the last record; and the number of
  store calls is at most the records confirmed plus the allowed failures, even when a failed call
  was carried out.
\<close>

theorem evidence_flush_complete_and_bounded:
  assumes "numbered opn" "k = op_operationId opn" "es = op_evidence opn" "c = opt_default 0 (js_get cs k)" "c \<le> length es"
    and "flushPendingEvidence (faulty_append fault) m opn cs fs = (x, cs', fs')" "c' = opt_default 0 (js_get cs' k)"
  shows "(\<exists>ys. faulty_log fs' k = faulty_log fs k @ ys \<and> set (take (c' - c) (drop c es)) \<subseteq> set ys) \<and>
    (x = Inr () \<longleftrightarrow> fs_faults fs' < fs_faults fs + m) \<and> (x = Inr () \<longrightarrow> c' = length es) \<and>
    c \<le> c' \<and> c' \<le> length es \<and> fs_calls fs' \<le> fs_calls fs + (c' - c) + m"
proof -
  have o: "ordered_evidence opn = zip es [0..<length es]" using ordered_numbered [OF assms(1)] by (simp add: assms(3))
  note A = faulty.flush_advances [OF assms(6) o assms(3), unfolded assms(3), OF numbered_operation [OF assms(1)]]
  have "x = Inr () \<longleftrightarrow> \<not> isl x" by (cases x) auto
  with A assms show ?thesis by (auto simp: faulty.advanced_def)
qed

definition sample_outbox :: Operation where
  "sample_outbox = recordEvidence POLICY ''B'' JNull 2 (recordEvidence DISCOVERY ''A'' JNull 1 (sample_operation Op_CREATED))"

definition one_fault :: "nat \<Rightarrow> bool option" where "one_fault n = (if n = 1 then Some False else None)"

definition sample_flush :: "(exn + unit) \<times> cursors \<times> faulty_store" where
  "sample_flush = flushPendingEvidence (faulty_append one_fault) 3 sample_outbox []
     \<lparr>fs_store = empty_store, fs_calls = 0, fs_faults = 0\<rparr>"

theorem evidence_flush_complete_and_bounded_witness:
  "fst sample_flush = Inr () \<and> opt_default 0 (js_get (fst (snd sample_flush)) ''op1'') = 2 \<and>
   fs_calls (snd (snd sample_flush)) = 3 \<and> fs_calls (snd (snd sample_flush)) \<le> 2 + 3"
proof -
  have n: "numbered sample_outbox" by (simp add: sample_outbox_def numbered_empty sample_operation_def)
  have l: "length (op_evidence sample_outbox) = 2" "op_operationId sample_outbox = ''op1''" by code_simp+
  have r: "flushPendingEvidence (faulty_append one_fault) 3 sample_outbox [] \<lparr>fs_store = empty_store, fs_calls = 0, fs_faults = 0\<rparr> =
      (fst sample_flush, fst (snd sample_flush), snd (snd sample_flush))" by (simp add: sample_flush_def)
  have f: "fst sample_flush = Inr ()" "fs_calls (snd (snd sample_flush)) = 3" by code_simp+
  from evidence_flush_complete_and_bounded [OF n refl refl refl _ r refl] f l show ?thesis by simp
qed

end
