(* ===== verification/RequestPolicy.thy ===== *)
theory RequestPolicy
  imports Outbox Fingerprint
begin

text \<open>
  The decisions \<^verbatim>\<open>zeus-secretariat/src/core/state-machine.ts\<close> takes before any money moves: the identity
  of a request and the guard against reusing it for a different one, the payment requirement kept in
  the evidence, the payment policy, and the check of an externally signed payload; with
  \<^verbatim>\<open>core/capability-resolver.ts\<close>.
\<close>

section \<open>Requests\<close>

record ExecuteRequest =
  xr_requestId :: "string option"
  xr_clientId :: "string option"
  xr_target :: string
  xr_method :: string
  xr_payload :: json
  xr_policy :: PaymentPolicy
  xr_authorizer :: "string option"

text \<open>An optional string that is present and not empty, as a condition of the source reads it.\<close>

definition truthy :: "string option \<Rightarrow> bool" where
  "truthy s = (s \<noteq> None \<and> s \<noteq> Some [])"

definition generateOperationId :: "int \<Rightarrow> string \<Rightarrow> string" where
  "generateOperationId t uuid = ''op_'' @ string_of_int t @ ''_'' @ uuid"

definition generateRequestId :: "int \<Rightarrow> string \<Rightarrow> string" where
  "generateRequestId t uuid = ''req_'' @ string_of_int t @ ''_'' @ uuid"

definition generatePaymentIntentId :: "int \<Rightarrow> string \<Rightarrow> string" where
  "generatePaymentIntentId t uuid = ''pi_'' @ string_of_int t @ ''_'' @ uuid"

definition resolveLogicalRequestId :: "ExecuteRequest \<Rightarrow> int \<Rightarrow> string \<Rightarrow> string" where
  "resolveLogicalRequestId r t uuid =
     (if truthy (xr_requestId r) then the (xr_requestId r)
      else if truthy (xr_clientId r) then ''cid:'' @ the (xr_clientId r)
      else generateRequestId t uuid)"

text \<open>\<open>replace(/\/+$/, '')\<close>.\<close>

definition strip_slashes :: "string \<Rightarrow> string" where
  "strip_slashes u = rev (dropWhile (\<lambda>c. c = CHR ''/'') (rev u))"

definition assertNoLogicalRequestCollision :: "bool \<Rightarrow> ExecuteRequest \<Rightarrow> Operation \<Rightarrow> string \<Rightarrow> exn + unit" where
  "assertNoLogicalRequestCollision derived r existing requestId =
     (let sameTarget = strip_slashes (op_target existing) = strip_slashes (xr_target r);
          sameMethod = toUpperCase (op_method existing) = toUpperCase (xr_method r)
      in if \<not> derived \<and> \<not> sameTarget \<and> \<not> sameMethod then Inr ()
         else if sameTarget \<and> sameMethod then
           (if stableFingerprint (xr_payload r) = stableFingerprint (op_requestPayload existing) then Inr ()
            else Inl (''REQUEST_COLLISION: '' @
              (if derived then ''client '' @ opt_default ''undefined'' (xr_clientId r) @ '' already owns logical request \"'' @ requestId @ ''\"''
               else ''requestId \"'' @ requestId @ ''\" is already bound'') @
              '' for '' @ op_method existing @ '' '' @ op_target existing @ '' with a DIFFERENT payload. '' @
              ''Replays must reuse the exact same body; send a new requestId for a new logical request.''))
         else if \<not> derived then Inr ()
         else Inl (''REQUEST_COLLISION: client '' @ opt_default ''undefined'' (xr_clientId r) @ '' already owns logical request \"'' @ requestId @
              ''\" for '' @ op_method existing @ '' '' @ op_target existing @ ''. The new request ('' @ xr_method r @ '' '' @ xr_target r @
              '') differs '' @ mdash @ '' send an explicit requestId for each new logical request.''))"

section \<open>Small checks\<close>

definition requireNonEmpty :: "string option \<Rightarrow> string \<Rightarrow> exn + string" where
  "requireNonEmpty value field =
     (if \<not> truthy value \<or> trim (the value) = []
      then Inl (''Invalid payment authorization: '' @ field @ '' is required'') else Inr (the value))"

definition toEpochSeconds :: "int option \<Rightarrow> int \<Rightarrow> int" where
  "toEpochSeconds deadlineMs currentMs =
     (let deadline = opt_default (currentMs + 300000) deadlineMs
      in if 10000000000 < deadline then deadline div 1000 else deadline)"

section \<open>The requirement in the evidence\<close>

definition opt_num :: "string \<Rightarrow> int option \<Rightarrow> (string \<times> json) list" where
  "opt_num k v = (case v of None \<Rightarrow> [] | Some n \<Rightarrow> [(k, JNum n)])"

definition requirement_json :: "PaymentRequirement \<Rightarrow> json" where
  "requirement_json r = JObj ([(''amount'', JStr (req_amount r)), (''asset'', JStr (req_asset r)),
     (''network'', JStr (req_network r)), (''payee'', JStr (req_payee r))] @
     opt_num ''deadline'' (req_deadline r) @ opt_num ''maxTimeoutSeconds'' (req_maxTimeoutSeconds r))"

definition num_of :: "json \<Rightarrow> int option" where
  "num_of v = (case v of JNum n \<Rightarrow> Some n | _ \<Rightarrow> None)"

definition requirement_of_json :: "json \<Rightarrow> PaymentRequirement option" where
  "requirement_of_json v = (case v of
     JObj _ \<Rightarrow> Some \<lparr>req_amount = js_String (json_field v ''amount''), req_asset = js_String (json_field v ''asset''),
       req_network = js_String (json_field v ''network''), req_payee = js_String (json_field v ''payee''),
       req_deadline = num_of (json_field v ''deadline''), req_maxTimeoutSeconds = num_of (json_field v ''maxTimeoutSeconds'')\<rparr>
   | _ \<Rightarrow> None)"

definition getPaymentRequirementFromEvidence :: "Operation \<Rightarrow> PaymentRequirement option" where
  "getPaymentRequirementFromEvidence opn =
     (case find (\<lambda>e. ev_phase e = DISCOVERY \<and> ev_event e = ''PAYMENT_REQUIREMENT_RECEIVED'') (op_evidence opn) of
        None \<Rightarrow> None
      | Some e \<Rightarrow> requirement_of_json (json_field (ev_payload e) ''requirement''))"

definition requirementFromIntent :: "DurablePaymentIntent \<Rightarrow> PaymentRequirement" where
  "requirementFromIntent i = \<lparr>req_amount = pi_value i, req_asset = pi_asset i, req_network = pi_network i,
     req_payee = pi_payTo i, req_deadline = Some (pi_validBefore i * 1000), req_maxTimeoutSeconds = None\<rparr>"

record X402Accept =
  ac_scheme :: string
  ac_network :: string
  ac_asset :: string
  ac_amount :: string
  ac_payTo :: string
  ac_maxTimeoutSeconds :: "int option"

definition acceptToRequirement :: "X402Accept \<Rightarrow> int \<Rightarrow> PaymentRequirement" where
  "acceptToRequirement a t = \<lparr>req_amount = ac_amount a, req_asset = ac_asset a, req_network = ac_network a, req_payee = ac_payTo a,
     req_deadline = (case ac_maxTimeoutSeconds a of None \<Rightarrow> None | Some n \<Rightarrow> if n = 0 then None else Some (t + n * 1000)),
     req_maxTimeoutSeconds = ac_maxTimeoutSeconds a\<rparr>"

section \<open>The payment policy\<close>

definition isInt :: "string \<Rightarrow> bool" where
  "isInt s = (s \<noteq> [] \<and> list_all digit_char s)"

definition isDecimal :: "string \<Rightarrow> bool" where
  "isDecimal s = (let a = takeWhile digit_char s; r = dropWhile digit_char s
     in a \<noteq> [] \<and> (r = [] \<or> hd r = CHR ''.'' \<and> isInt (tl r)))"

definition hasDot :: "string \<Rightarrow> bool" where
  "hasDot s = (CHR ''.'' \<in> set s)"

text \<open>\<open>s.split(".")[0]\<close> and \<open>s.split(".")[1]\<close> (empty when there is none).\<close>

definition int_part :: "string \<Rightarrow> string" where
  "int_part s = takeWhile (\<lambda>c. c \<noteq> CHR ''.'') s"

definition frac_part :: "string \<Rightarrow> string" where
  "frac_part s = takeWhile (\<lambda>c. c \<noteq> CHR ''.'') (drop 1 (dropWhile (\<lambda>c. c \<noteq> CHR ''.'') s))"

definition padEnd :: "string \<Rightarrow> nat \<Rightarrow> char \<Rightarrow> string" where
  "padEnd s n c = s @ replicate (n - length s) c"

definition scaled :: "string \<Rightarrow> nat \<Rightarrow> int option" where
  "scaled s scale = BigInt (int_part s @ padEnd (frac_part s) scale CHR ''0'')"

datatype price_check = Exceeds | Within | Incomparable

text \<open>The comparison with the maximum price; \<open>None\<close> is the \<open>SyntaxError\<close> of \<open>BigInt\<close>.\<close>

definition compare_price :: "string \<Rightarrow> string \<Rightarrow> price_check option" where
  "compare_price reqAmount maxPrice =
     (let verdict = (\<lambda>a b. if b < a then Exceeds else Within) in
      if isInt reqAmount \<and> isInt maxPrice
      then (case (BigInt reqAmount, BigInt maxPrice) of (Some a, Some b) \<Rightarrow> Some (verdict a b) | _ \<Rightarrow> None)
      else if hasDot reqAmount \<and> hasDot maxPrice
      then (let scale = max (length (frac_part reqAmount)) (length (frac_part maxPrice))
            in case (scaled reqAmount scale, scaled maxPrice scale) of (Some a, Some b) \<Rightarrow> Some (verdict a b) | _ \<Rightarrow> None)
      else Some Incomparable)"

definition norm_id :: "string \<Rightarrow> string" where
  "norm_id v = toLowerCase (trim v)"

definition listed :: "string \<Rightarrow> string list \<Rightarrow> bool" where
  "listed v vs = (norm_id v \<in> set (map norm_id vs))"

definition policy_rejected :: "string \<Rightarrow> json \<Rightarrow> string \<Rightarrow> json \<Rightarrow> int \<Rightarrow> Operation \<Rightarrow> (exn + bool) \<times> Operation" where
  "policy_rejected reason required k allowed t opn =
     (Inr False, recordEvidence POLICY ''POLICY_REJECTED''
        (JObj [(''reason'', JStr reason), (''required'', required), (k, allowed)]) t opn)"

definition str_list :: "string list \<Rightarrow> json" where
  "str_list ss = JArr (map JStr ss)"

definition validatePolicy :: "int \<Rightarrow> Operation \<Rightarrow> (exn + bool) \<times> Operation" where
  "validatePolicy t opn0 =
     (let opn = recordEvidence POLICY ''POLICY_VALIDATION_STARTED'' (JObj []) t opn0; policy = op_paymentPolicy opn in
      case getPaymentRequirementFromEvidence opn of
        None \<Rightarrow> (Inr False, recordEvidence POLICY ''POLICY_VALIDATION_FAILED'' (JObj [(''reason'', JStr ''No payment requirement found'')]) t opn)
      | Some req \<Rightarrow>
     (let reqAmount = trim (req_amount req); maxPrice = trim (pol_maxPrice policy) in
      if \<not> isDecimal maxPrice
      then policy_rejected ''Invalid maxPrice format (expected a non-negative decimal number)'' (JStr reqAmount)
             ''maxAllowed'' (JStr (pol_maxPrice policy)) t opn
      else case compare_price reqAmount maxPrice of
        None \<Rightarrow> (Inl ''SyntaxError: Cannot convert to a BigInt'', opn)
      | Some Incomparable \<Rightarrow>
          policy_rejected (''INCOMPARABLE_UNITS: requirement.amount is a smallest-unit integer while maxPrice is a human decimal '' @ mdash @
             '' provide maxPrice in the same unit'') (JStr reqAmount) ''maxAllowed'' (JStr (pol_maxPrice policy)) t opn
      | Some Exceeds \<Rightarrow> policy_rejected ''Amount exceeds maxPrice'' (JStr reqAmount) ''maxAllowed'' (JStr maxPrice) t opn
      | Some Within \<Rightarrow>
          (if \<not> listed (req_network req) (pol_allowedNetworks policy)
           then policy_rejected ''Network not allowed'' (JStr (req_network req)) ''allowed'' (str_list (pol_allowedNetworks policy)) t opn
           else if \<not> listed (req_asset req) (pol_allowedAssets policy)
           then policy_rejected ''Asset not allowed'' (JStr (req_asset req)) ''allowed'' (str_list (pol_allowedAssets policy)) t opn
           else if (case pol_allowedSellers policy of None \<Rightarrow> False | Some sellers \<Rightarrow> \<not> listed (req_payee req) sellers)
           then policy_rejected ''Seller not allowed'' (JStr (req_payee req)) ''allowed''
                  (case pol_allowedSellers policy of None \<Rightarrow> JUndefined | Some sellers \<Rightarrow> str_list sellers) t opn
           else (Inr True, recordEvidence POLICY ''POLICY_VALIDATION_PASSED''
                  (JObj [(''amount'', JStr (req_amount req)), (''network'', JStr (req_network req)),
                         (''asset'', JStr (req_asset req)), (''payee'', JStr (req_payee req))]) t opn))))"

section \<open>The seller's capability\<close>

definition capability_of_header :: "string option \<Rightarrow> RecoveryCapability option" where
  "capability_of_header h =
     (if h = Some ''EXECUTION_IDEMPOTENT'' then Some Cap_EXECUTION_IDEMPOTENT
      else if h = Some ''RESULT_RETRIEVAL'' then Some Cap_RESULT_RETRIEVAL else None)"

definition nonempty :: "string option \<Rightarrow> string option" where
  "nonempty s = (if truthy s then s else None)"

text \<open>Trusted sources in order, then the response headers as a hint, then none; never overwritten.\<close>

definition resolveAndSnapshot ::
    "(string \<Rightarrow> SellerCapabilities option) list \<Rightarrow> (string \<Rightarrow> string option) option \<Rightarrow> Operation \<Rightarrow> Operation" where
  "resolveAndSnapshot sources headers opn =
     (if op_sellerCapability opn \<noteq> None then opn
      else opn\<lparr>op_sellerCapability := Some
        (case List.map_filter (\<lambda>source. source (op_target opn)) sources of
           cap # _ \<Rightarrow> cap
         | [] \<Rightarrow>
             (case headers of
                None \<Rightarrow> \<lparr>sc_recoveryCapability = Cap_NONE, sc_resultRetrievalEndpoint = None, sc_idempotencyHeader = None\<rparr>
              | Some get \<Rightarrow>
                  (case capability_of_header (get ''X-Recovery-Capability'') of
                     None \<Rightarrow> \<lparr>sc_recoveryCapability = Cap_NONE, sc_resultRetrievalEndpoint = None, sc_idempotencyHeader = None\<rparr>
                   | Some c \<Rightarrow> \<lparr>sc_recoveryCapability = c,
                        sc_resultRetrievalEndpoint = nonempty (get ''X-Result-Retrieval-Endpoint''),
                        sc_idempotencyHeader = nonempty (get ''X-Idempotency-Header'')\<rparr>)))\<rparr>)"

section \<open>What a decimal means\<close>

definition digits_num :: "string \<Rightarrow> int" where
  "digits_num s = the (read_digits digit_value 10 0 s)"

text \<open>The number a decimal denotes, as a fraction over a power of ten, and the order of such numbers.\<close>

definition decimal_num :: "string \<Rightarrow> int \<times> nat" where
  "decimal_num s = (digits_num (int_part s @ frac_part s), length (frac_part s))"

definition decimal_le :: "string \<Rightarrow> string \<Rightarrow> bool" where
  "decimal_le a b = (case (decimal_num a, decimal_num b) of
     ((m, i), (n, j)) \<Rightarrow> m * 10 ^ j \<le> n * 10 ^ i)"

lemma digit_value_range: "digit_value c = Some d \<Longrightarrow> 0 \<le> d \<and> d < 10"
  by (auto simp: digit_value_def Let_def split: if_splits)

lemma read_digits_all: "list_all digit_char s \<Longrightarrow> read_digits digit_value 10 acc s \<noteq> None"
  by (induction s arbitrary: acc) (auto simp: digit_char_def)

lemma digits_num_read: "list_all digit_char s \<Longrightarrow> read_digits digit_value 10 0 s = Some (digits_num s)"
  using read_digits_all [of s 0] by (simp add: digits_num_def)

lemma digit_not_blank: "digit_char c \<Longrightarrow> \<not> is_blank c"
  by (auto simp: digit_char_def digit_value_def is_blank_def Let_def split: if_splits)

lemma dropWhile_none: "list_all (\<lambda>c. \<not> P c) s \<Longrightarrow> dropWhile P s = s"
  by (cases s) auto

lemma trim_digits: "list_all digit_char s \<Longrightarrow> trim s = s"
  unfolding trim_def using digit_not_blank by (subst dropWhile_none, force simp: list_all_iff)+ simp

lemma BigInt_digits:
  assumes "isInt s"
  shows "BigInt s = Some (digits_num s)"
proof -
  from assms have d: "list_all digit_char s" "s \<noteq> []" by (auto simp: isInt_def)
  have hd: "hd s \<noteq> CHR ''-''" "hd s \<noteq> CHR ''+''" and x: "\<not> starts_with ''0x'' s" "\<not> starts_with ''0X'' s"
    using d by (cases s; auto simp: starts_with_def digit_char_def digit_value_def char_code_def split: if_splits;
        cases "tl s"; auto simp: digit_char_def digit_value_def char_code_def)+
  show ?thesis using d hd x by (simp add: BigInt_def trim_digits Let_def digits_num_read)
qed

lemma dot_not_digit: "\<not> digit_char CHR ''.''"
  by (simp add: digit_char_def digit_value_def char_code_def)

lemma isInt_no_dot: "isInt s \<Longrightarrow> \<not> hasDot s"
  using dot_not_digit by (auto simp: isInt_def hasDot_def list_all_iff)

lemma isDecimal_cases:
  assumes "isDecimal s"
  obtains (int) "isInt s" | (dotted) a f where "s = a @ CHR ''.'' # f" "isInt a" "isInt f"
proof -
  let ?a = "takeWhile digit_char s" let ?r = "dropWhile digit_char s"
  have s: "s = ?a @ ?r" and a: "list_all digit_char ?a" by (auto simp: list_all_iff dest: set_takeWhileD)
  from assms consider "?a \<noteq> []" "?r = []" | "?a \<noteq> []" "?r \<noteq> []" "hd ?r = CHR ''.''" "isInt (tl ?r)"
    by (auto simp: isDecimal_def Let_def)
  then show ?thesis
  proof cases
    case 1
    with s a show ?thesis by (intro int) (simp add: isInt_def)
  next
    case 2
    then have "s = ?a @ CHR ''.'' # tl ?r" by (metis s list.collapse)
    with dotted [of ?a "tl ?r"] 2 a show ?thesis by (simp add: isInt_def)
  qed
qed

lemma parts_dotted:
  assumes "isInt a" "isInt f"
  shows "int_part (a @ CHR ''.'' # f) = a" "frac_part (a @ CHR ''.'' # f) = f"
proof -
  have nd: "\<forall>c \<in> set a. c \<noteq> CHR ''.''" "\<forall>c \<in> set f. c \<noteq> CHR ''.''"
    using assms dot_not_digit by (auto simp: isInt_def list_all_iff)
  then show "int_part (a @ CHR ''.'' # f) = a" by (simp add: int_part_def takeWhile_append2)
  have "takeWhile (\<lambda>c. c \<noteq> CHR ''.'') f = f" using nd by (simp add: takeWhile_eq_all_conv)
  with nd show "frac_part (a @ CHR ''.'' # f) = f" by (simp add: frac_part_def dropWhile_append2)
qed

lemma parts_int:
  assumes "isInt s"
  shows "int_part s = s" "frac_part s = []"
proof -
  have "\<forall>c \<in> set s. c \<noteq> CHR ''.''" using assms dot_not_digit by (auto simp: isInt_def list_all_iff)
  then have "takeWhile (\<lambda>c. c \<noteq> CHR ''.'') s = s" "dropWhile (\<lambda>c. c \<noteq> CHR ''.'') s = []"
    by (simp_all add: takeWhile_eq_all_conv dropWhile_eq_Nil_conv)
  then show "int_part s = s" "frac_part s = []" unfolding int_part_def frac_part_def by (metis, metis drop_Nil takeWhile.simps(1))
qed

lemma digits_num_append_zeros:
  "list_all digit_char s \<Longrightarrow> digits_num (s @ replicate n CHR ''0'') = digits_num s * 10 ^ n"
proof (induction n)
  case (Suc n)
  have z: "list_all digit_char (s @ replicate n CHR ''0'')" using Suc.prems by (auto simp: list_all_iff digit_char_def digit_value_def char_code_def)
  have r: "s @ replicate (Suc n) CHR ''0'' = (s @ replicate n CHR ''0'') @ [CHR ''0'']" by (simp flip: replicate_append_same)
  have "digits_num (s @ replicate (Suc n) CHR ''0'') = digits_num (s @ replicate n CHR ''0'') * 10"
    unfolding r digits_num_def [of "(s @ replicate n CHR ''0'') @ [CHR ''0'']"]
      read_digits_append [of _ _ _ "s @ replicate n CHR ''0''" "[CHR ''0'']"] digits_num_read [OF z]
    by (simp add: digit_value_def char_code_def)
  with Suc show ?case by (simp add: algebra_simps)
qed simp

lemma scaled_value:
  assumes "isInt (int_part s)" "list_all digit_char (frac_part s)" "length (frac_part s) \<le> scale"
  shows "scaled s scale = Some (fst (decimal_num s) * 10 ^ (scale - length (frac_part s)))"
proof -
  let ?d = "int_part s @ frac_part s"
  have d: "list_all digit_char ?d" using assms(1,2) by (simp add: isInt_def)
  have "isInt (?d @ replicate (scale - length (frac_part s)) CHR ''0'')"
    using assms(1) d by (auto simp: isInt_def list_all_iff digit_char_def digit_value_def char_code_def)
  from BigInt_digits [OF this] digits_num_append_zeros [OF d] show ?thesis
    by (simp add: scaled_def padEnd_def decimal_num_def)
qed

lemma scaled_order:
  fixes m n :: int
  shows "m * 10 ^ (max i j - i) \<le> n * 10 ^ (max i j - j) \<longleftrightarrow> m * 10 ^ j \<le> n * 10 ^ i"
proof -
  have e: "max i j - i + min i j = j" "max i j - j + min i j = i" by (auto simp: max_def min_def)
  have p: "m * 10 ^ (max i j - i) * 10 ^ (min i j) = m * 10 ^ j" "n * 10 ^ (max i j - j) * 10 ^ (min i j) = n * 10 ^ i"
    by (simp_all only: mult.assoc power_add [symmetric] e)
  have "(m * 10 ^ (max i j - i) \<le> n * 10 ^ (max i j - j)) =
      (m * 10 ^ (max i j - i) * 10 ^ (min i j) \<le> n * 10 ^ (max i j - j) * 10 ^ (min i j))" by simp
  then show ?thesis by (simp only: p)
qed

lemma decimal_parts:
  assumes "isDecimal s"
  shows "isInt (int_part s) \<and> list_all digit_char (frac_part s) \<and> (hasDot s \<longleftrightarrow> frac_part s \<noteq> []) \<and> (isInt s \<longleftrightarrow> \<not> hasDot s)"
  using assms
proof (cases rule: isDecimal_cases)
  case int
  with isInt_no_dot show ?thesis by (simp add: parts_int)
next
  case (dotted a f)
  have "hasDot s" using dotted(1) by (simp add: hasDot_def)
  moreover have "\<not> isInt s" using calculation isInt_no_dot by blast
  ultimately show ?thesis using dotted parts_dotted [OF dotted(2,3)] by (simp add: isInt_def)
qed

text \<open>The code's comparison is the order of the numbers, on well-formed decimals of the same kind.\<close>

lemma compare_price_spec:
  assumes "isDecimal a" "isDecimal b"
  shows "compare_price a b = Some (if hasDot a \<noteq> hasDot b then Incomparable else if decimal_le a b then Within else Exceeds)"
proof -
  note A = decimal_parts [OF assms(1)] note B = decimal_parts [OF assms(2)]
  show ?thesis
  proof (cases "hasDot a"; cases "hasDot b")
    assume d: "hasDot a" "hasDot b"
    let ?i = "length (frac_part a)" let ?j = "length (frac_part b)"
    have "scaled a (max ?i ?j) = Some (fst (decimal_num a) * 10 ^ (max ?i ?j - ?i))"
      "scaled b (max ?i ?j) = Some (fst (decimal_num b) * 10 ^ (max ?i ?j - ?j))"
      using A B by (simp_all add: scaled_value)
    with d A B scaled_order [of "fst (decimal_num a)" ?i ?j "fst (decimal_num b)"] show ?thesis
      by (simp add: compare_price_def Let_def decimal_le_def decimal_num_def not_less [symmetric])
  next
    assume d: "\<not> hasDot a" "\<not> hasDot b"
    with A B have "isInt a" "isInt b" by simp_all
    then show ?thesis using d
      by (auto simp: compare_price_def Let_def BigInt_digits decimal_le_def decimal_num_def parts_int)
  qed (use A B in \<open>simp_all add: compare_price_def Let_def\<close>)
qed

section \<open>The requirement stays what was discovered\<close>

lemma getRequirement_record:
  "getPaymentRequirementFromEvidence opn = Some r \<Longrightarrow> getPaymentRequirementFromEvidence (recordEvidence ph ev p t opn) = Some r"
  by (auto simp: getPaymentRequirementFromEvidence_def recordEvidence_def find_append split: option.splits)

lemma getRequirement_other:
  "ph \<noteq> DISCOVERY \<or> ev \<noteq> ''PAYMENT_REQUIREMENT_RECEIVED'' \<Longrightarrow>
   getPaymentRequirementFromEvidence (recordEvidence ph ev p t opn) = getPaymentRequirementFromEvidence opn"
  by (auto simp: getPaymentRequirementFromEvidence_def recordEvidence_def find_append split: option.splits)

lemma requirement_json_roundtrip: "requirement_of_json (requirement_json r) = Some r"
  by (cases r; cases "req_deadline r"; cases "req_maxTimeoutSeconds r")
    (auto simp: requirement_of_json_def requirement_json_def json_field_def opt_num_def num_of_def)

text \<open>Any number of later records.\<close>

fun record_all :: "(EvidencePhase \<times> string \<times> json \<times> int) list \<Rightarrow> Operation \<Rightarrow> Operation" where
  "record_all [] opn = opn"
| "record_all ((ph, ev, p, t) # rs) opn = record_all rs (recordEvidence ph ev p t opn)"

lemma getRequirement_record_all:
  "getPaymentRequirementFromEvidence opn = Some r \<Longrightarrow> getPaymentRequirementFromEvidence (record_all rs opn) = Some r"
  by (induction rs opn rule: record_all.induct) (auto intro: getRequirement_record)

section \<open>Properties\<close>

text \<open>
  The discovered payment requirement is read back as it was written: on an operation with
  no requirement yet, recording one in the evidence makes it the requirement every later step reads,
  field by field, whatever is recorded afterwards, a second requirement included.
\<close>

theorem recorded_requirement_is_read_back:
  assumes "\<forall>e \<in> set (op_evidence opn). ev_event e \<noteq> ''PAYMENT_REQUIREMENT_RECEIVED''"
  shows "getPaymentRequirementFromEvidence (record_all rs
    (recordEvidence DISCOVERY ''PAYMENT_REQUIREMENT_RECEIVED'' (JObj [(''requirement'', requirement_json r)]) t opn)) = Some r"
proof (rule getRequirement_record_all)
  have "find (\<lambda>e. ev_phase e = DISCOVERY \<and> ev_event e = ''PAYMENT_REQUIREMENT_RECEIVED'') (op_evidence opn) = None"
    using assms by (auto simp: find_None_iff)
  then show "getPaymentRequirementFromEvidence
      (recordEvidence DISCOVERY ''PAYMENT_REQUIREMENT_RECEIVED'' (JObj [(''requirement'', requirement_json r)]) t opn) = Some r"
    by (simp add: getPaymentRequirementFromEvidence_def recordEvidence_def find_append requirement_json_roundtrip
        json_field_def [of "JObj [(''requirement'', requirement_json r)]"])
qed

definition sample_requirement :: "string \<Rightarrow> PaymentRequirement" where
  "sample_requirement amount = \<lparr>req_amount = amount, req_asset = ''usdc'', req_network = ''base'', req_payee = ''0xBB'',
     req_deadline = Some 1000, req_maxTimeoutSeconds = None\<rparr>"

definition sample_discovered :: "string \<Rightarrow> Operation" where
  "sample_discovered amount = recordEvidence DISCOVERY ''PAYMENT_REQUIREMENT_RECEIVED''
     (JObj [(''requirement'', requirement_json (sample_requirement amount))]) 1 (sample_operation Op_PAYMENT_REQUIRED)"

theorem recorded_requirement_is_read_back_witness:
  "getPaymentRequirementFromEvidence (record_all [(POLICY, ''X'', JNull, 2),
      (DISCOVERY, ''PAYMENT_REQUIREMENT_RECEIVED'', JNull, 3)] (sample_discovered ''500'')) = Some (sample_requirement ''500'')"
  unfolding sample_discovered_def
  by (rule recorded_requirement_is_read_back) (simp_all add: getPaymentRequirementFromEvidence_def sample_operation_def)

text \<open>
  Property C40. The payment policy admits exactly what it says: for a well-formed decimal amount,
  \<open>validatePolicy\<close> returns and answers true if and only if the maximum price is a decimal of the
  same kind (both smallest-unit integers or both human decimals), the amount does not exceed it as
  a number (no rounding), and network, asset and, when restricted, seller are on the policy's lists
  up to case and surrounding blanks.
\<close>

theorem policy_admits_exactly:
  assumes "getPaymentRequirementFromEvidence opn = Some req"
    and "amount = trim (req_amount req)" "maxPrice = trim (pol_maxPrice (op_paymentPolicy opn))" "isDecimal amount"
  shows "fst (validatePolicy t opn) = Inr (isDecimal maxPrice \<and> hasDot amount = hasDot maxPrice \<and> decimal_le amount maxPrice \<and>
    listed (req_network req) (pol_allowedNetworks (op_paymentPolicy opn)) \<and>
    listed (req_asset req) (pol_allowedAssets (op_paymentPolicy opn)) \<and>
    (case pol_allowedSellers (op_paymentPolicy opn) of None \<Rightarrow> True | Some sellers \<Rightarrow> listed (req_payee req) sellers))"
proof -
  let ?o = "recordEvidence POLICY ''POLICY_VALIDATION_STARTED'' (JObj []) t opn"
  have o: "getPaymentRequirementFromEvidence ?o = Some req" "op_paymentPolicy ?o = op_paymentPolicy opn"
    using getRequirement_record [OF assms(1)] by (simp_all add: recordEvidence_def)
  show ?thesis
  proof (cases "isDecimal maxPrice")
    case False
    with o assms(2,3) show ?thesis by (simp add: validatePolicy_def Let_def policy_rejected_def)
  next
    case True
    from compare_price_spec [OF assms(4) True] o True assms(2,3) show ?thesis
      by (simp add: validatePolicy_def Let_def policy_rejected_def split: option.splits)
  qed
qed

theorem policy_admits_exactly_witness:
  "fst (validatePolicy 2 (sample_discovered ''1000'')) = Inr True \<and> fst (validatePolicy 2 (sample_discovered ''1001'')) = Inr False \<and>
   fst (validatePolicy 2 (sample_discovered ''0.5'')) = Inr False"
proof -
  have r: "getPaymentRequirementFromEvidence (sample_discovered a) = Some (sample_requirement a)" for a
    unfolding sample_discovered_def using getRequirement_record_all [of _ _ "[]"]
    by (simp add: getPaymentRequirementFromEvidence_def recordEvidence_def sample_operation_def json_field_def [of "JObj [(''requirement'', _)]"]
        requirement_json_roundtrip)
  note P = policy_admits_exactly [OF r refl refl, of _ 2]
  have d: "isDecimal (trim (req_amount (sample_requirement ''1000'')))" "isDecimal (trim (req_amount (sample_requirement ''1001'')))"
    "isDecimal (trim (req_amount (sample_requirement ''0.5'')))" by code_simp+
  show ?thesis
    unfolding P [OF d(1)] P [OF d(2)] P [OF d(3)] by code_simp
qed

text \<open>
  The collision guard: reusing an operation for a request passes exactly when target
  (up to trailing slashes), method (up to case) and payload (up to the order of object keys) are the
  same, except that a request with an explicit id also passes when target or method differ. In
  particular an id derived from the client never resolves to a different request.
\<close>

theorem request_reuse_only_for_same_request:
  "assertNoLogicalRequestCollision derived r existing requestId = Inr () \<longleftrightarrow>
   (if strip_slashes (op_target existing) = strip_slashes (xr_target r) \<and> toUpperCase (op_method existing) = toUpperCase (xr_method r)
    then canon (xr_payload r) = canon (op_requestPayload existing) else \<not> derived)"
  by (simp add: assertNoLogicalRequestCollision_def Let_def fingerprint_identifies_payload)

end
