(* ===== verification/FacilitatorClient.thy ===== *)
theory FacilitatorClient
  imports Reconciliation Fingerprint
begin

text \<open>
  \<^verbatim>\<open>zeus-secretariat/src/adapters/x402-facilitator-client.ts\<close>: the client that sends a signed payment
  to the x402 facilitator's \<open>/settle\<close>. The facilitator is an argument; the durable store is the
  intent table, with the compare-and-set that also writes the result columns as
  \<^verbatim>\<open>lib/db/src/secretariat/postgres-store.ts\<close> has it. A failing database call is an argument too.
\<close>

section \<open>The signed payload\<close>

record PaymentResource =
  rs_url :: string
  rs_description :: "string option"
  rs_mimeType :: "string option"

record PaymentAccepted =
  pa_scheme :: string
  pa_network :: string
  pa_amount :: string
  pa_asset :: string
  pa_payTo :: string
  pa_maxTimeoutSeconds :: int
  pa_extra :: "json option"

record TransferAuthorization =
  ta_from :: string
  ta_to :: string
  ta_value :: string
  ta_validAfter :: string
  ta_validBefore :: string
  ta_nonce :: string

record PaymentPayload =
  pp_x402Version :: int
  pp_resource :: "PaymentResource option"
  pp_accepted :: PaymentAccepted
  pp_signature :: string
  pp_authorization :: TransferAuthorization
  pp_extensions :: "json option"

record SettleRequirements =
  sr_scheme :: string
  sr_network :: string
  sr_asset :: string
  sr_amount :: string
  sr_payTo :: string
  sr_maxTimeoutSeconds :: int
  sr_resource :: "PaymentResource option"
  sr_extra :: "json option"

record FacilitatorSettleRequest =
  fr_x402Version :: int
  fr_paymentPayload :: PaymentPayload
  fr_paymentRequirements :: SettleRequirements

definition buildFacilitatorRequest :: "PaymentPayload \<Rightarrow> FacilitatorSettleRequest" where
  "buildFacilitatorRequest p =
     \<lparr>fr_x402Version = pp_x402Version p, fr_paymentPayload = p,
      fr_paymentRequirements =
        \<lparr>sr_scheme = pa_scheme (pp_accepted p), sr_network = pa_network (pp_accepted p),
         sr_asset = pa_asset (pp_accepted p), sr_amount = pa_amount (pp_accepted p),
         sr_payTo = pa_payTo (pp_accepted p), sr_maxTimeoutSeconds = pa_maxTimeoutSeconds (pp_accepted p),
         sr_resource = pp_resource p, sr_extra = pa_extra (pp_accepted p)\<rparr>\<rparr>"

section \<open>The durable store's side\<close>

record IntentExtra =
  ix_txHash :: "string option"
  ix_facilitatorHttpStatus :: "int option"
  ix_facilitatorResponseBody :: json
  ix_errorReason :: "string option"
  ix_submitAttemptAt :: "int option"

definition no_row_extra :: IntentExtra where
  "no_row_extra = \<lparr>ix_txHash = None, ix_facilitatorHttpStatus = None, ix_facilitatorResponseBody = JUndefined,
     ix_errorReason = None, ix_submitAttemptAt = None\<rparr>"

text \<open>The columns the update sets; what \<open>extra\<close> leaves undefined stays.\<close>

definition update_row :: "SettlementState \<Rightarrow> IntentExtra \<Rightarrow> int \<Rightarrow> DurablePaymentIntent \<Rightarrow> DurablePaymentIntent" where
  "update_row newState x t i = i\<lparr>
     pi_settlementState := newState,
     pi_txHash := or_else (ix_txHash x) (pi_txHash i),
     pi_facilitatorHttpStatus := or_else (ix_facilitatorHttpStatus x) (pi_facilitatorHttpStatus i),
     pi_facilitatorResponseBody := (if ix_facilitatorResponseBody x = JUndefined then pi_facilitatorResponseBody i
                                    else ix_facilitatorResponseBody x),
     pi_errorReason := or_else (ix_errorReason x) (pi_errorReason i),
     pi_submitAttemptAt := or_else (ix_submitAttemptAt x) (pi_submitAttemptAt i),
     pi_settledAt := (if newState = St_SETTLED then Some t else pi_settledAt i),
     pi_notSettledAt := (if newState = St_NOT_SETTLED then Some t else pi_notSettledAt i),
     pi_updatedAt := t\<rparr>"

definition compareAndSetRow ::
    "string \<Rightarrow> SettlementState \<Rightarrow> SettlementState \<Rightarrow> IntentExtra \<Rightarrow> int \<Rightarrow> mem_store \<Rightarrow> bool \<times> mem_store" where
  "compareAndSetRow intentId expectedState newState extra t st =
     (if isTerminalSettlementState expectedState then (False, st)
      else case js_get (ms_intents st) intentId of
        None \<Rightarrow> (False, st)
      | Some rec \<Rightarrow>
          (if pi_settlementState (ir_intent rec) = expectedState
           then (True, put_intent intentId rec (update_row newState extra t (ir_intent rec)) st)
           else (False, st)))"

definition transitionToSubmitting :: "string \<Rightarrow> int \<Rightarrow> mem_store \<Rightarrow> bool \<times> mem_store" where
  "transitionToSubmitting k t st = compareAndSetRow k St_AUTHORIZED St_SUBMITTING no_row_extra t st"

definition recordSubmissionResult ::
    "string \<Rightarrow> SettlementState \<Rightarrow> string option \<Rightarrow> int \<Rightarrow> json \<Rightarrow> int \<Rightarrow> mem_store \<Rightarrow> bool \<times> mem_store" where
  "recordSubmissionResult k newState txHash httpStatus responseBody t st =
     compareAndSetRow k St_SUBMITTING newState
       \<lparr>ix_txHash = txHash, ix_facilitatorHttpStatus = Some httpStatus,
        ix_facilitatorResponseBody = (if nullish responseBody then JUndefined else responseBody),
        ix_errorReason = None, ix_submitAttemptAt = Some t\<rparr> t st"

text \<open>
  The database may fail after the facilitator has answered: \<open>df_book\<close> is the error of the
  bookkeeping calls and whether the update was made all the same, \<open>df_cas\<close> tells that the other
  compare-and-set calls fail.
\<close>

record DbFaults =
  df_book :: "(exn \<times> bool) option"
  df_cas :: bool

definition no_faults :: DbFaults where "no_faults = \<lparr>df_book = None, df_cas = False\<rparr>"

definition guarded_cas ::
    "DbFaults \<Rightarrow> string \<Rightarrow> SettlementState \<Rightarrow> IntentExtra \<Rightarrow> int \<Rightarrow> mem_store \<Rightarrow> mem_store" where
  "guarded_cas db k newState extra t st =
     (if df_cas db then st else snd (compareAndSetRow k St_SUBMITTING newState extra t st))"

section \<open>The client\<close>

datatype SubmitResult =
    Sub_SUBMITTED string json
  | Sub_REJECTED string json
  | Sub_UNKNOWN string

datatype FacilitatorReply =
    Network_error string
  | Reply int json

definition reconcileAmbiguous ::
    "DbFaults \<Rightarrow> string \<Rightarrow> int option \<Rightarrow> json \<Rightarrow> string \<Rightarrow> int \<Rightarrow> mem_store \<Rightarrow> mem_store" where
  "reconcileAmbiguous db k httpStatus body reason t st =
     guarded_cas db k St_RECONCILING
       \<lparr>ix_txHash = None, ix_facilitatorHttpStatus = httpStatus, ix_facilitatorResponseBody = body,
        ix_errorReason = Some reason, ix_submitAttemptAt = None\<rparr> t st"

text \<open>\<open>a ?? b ?? ... ?? d\<close> over fields of the body.\<close>

fun first_field :: "json \<Rightarrow> string list \<Rightarrow> string \<Rightarrow> string" where
  "first_field body [] d = d"
| "first_field body (k # ks) d =
     (if nullish (json_field body k) then first_field body ks d else js_String (json_field body k))"

fun contains :: "string \<Rightarrow> string \<Rightarrow> bool" where
  "contains p [] = (p = [])"
| "contains p (c # cs) = (starts_with p (c # cs) \<or> contains p cs)"

text \<open>The case-insensitive pattern of the reason; \<open>[_ ]?\<close> is an underscore, a blank or nothing.\<close>

definition replayish_reason :: "string \<Rightarrow> bool" where
  "replayish_reason reason =
     (let s = toLowerCase reason in
      \<exists>(a, b) \<in> set [(''authorization'', ''used''), (''already'', ''used''), (''duplicate'', ''settlement'')].
        \<exists>sep \<in> set [[], ''_'', '' '']. contains (a @ sep @ b) s)"

definition submit_guard :: "DurablePaymentIntent \<Rightarrow> mem_store \<Rightarrow> SubmitResult option" where
  "submit_guard intent st =
     (case getPaymentIntentByOperationId st (pi_operationId intent) of
        None \<Rightarrow> Some (Sub_REJECTED ''INTENT_NOT_FOUND in DB'' JNull)
      | Some dbIntent \<Rightarrow>
          (let s = pi_settlementState dbIntent in
           if \<not> allowNewPayment s \<and> s \<noteq> St_AUTHORIZED \<and>
              s \<in> set [St_PENDING_SIGNATURE, St_SUBMITTING, St_SUBMITTED, St_SETTLEMENT_PENDING, St_RECONCILING, St_SETTLED, St_UNRESOLVED_MANUAL]
           then Some (Sub_REJECTED (''DB_STATE_GUARD: persisted state is '' @ st_name s @ '', cannot re-submit'') JNull)
           else None))"

text \<open>Everything before the network call.\<close>

definition mark_submitting :: "DurablePaymentIntent \<Rightarrow> int \<Rightarrow> mem_store \<Rightarrow> SubmitResult option \<times> mem_store" where
  "mark_submitting intent t st =
     (case submit_guard intent st of
        Some r \<Rightarrow> (Some r, st)
      | None \<Rightarrow>
          (case transitionToSubmitting (pi_paymentIntentId intent) t st of
             (False, st') \<Rightarrow> (Some (Sub_REJECTED (''CAS_FAILED: could not transition to SUBMITTING '' @ mdash @ '' state already changed'') JNull), st')
           | (True, st') \<Rightarrow> (None, st')))"

definition settle_bookkeeping ::
    "DbFaults \<Rightarrow> DurablePaymentIntent \<Rightarrow> string \<Rightarrow> int \<Rightarrow> json \<Rightarrow> int \<Rightarrow> mem_store \<Rightarrow> mem_store" where
  "settle_bookkeeping db intent txHash status body t st =
     (let tx = (if txHash = [] then None else Some txHash);
          st1 = snd (recordSubmissionResult (pi_paymentIntentId intent) St_SETTLEMENT_PENDING tx status body t st)
      in case df_book db of
           None \<Rightarrow> (if pi_nonce intent = [] then st1 else markNonceSubmitted (pi_nonce intent) t st1)
         | Some (e, written) \<Rightarrow>
             guarded_cas db (pi_paymentIntentId intent) St_SETTLEMENT_PENDING
               (no_row_extra\<lparr>ix_txHash := tx, ix_errorReason := Some (''SETTLE_OK_BOOKKEEPING_FAILED: '' @ e)\<rparr>) t
               (if written then st1 else st))"

text \<open>A 2xx body that does not declare success, and a status outside 2xx: the answer and the recorded reason.\<close>

definition unsuccessful_2xx :: "json \<Rightarrow> SubmitResult \<times> string" where
  "unsuccessful_2xx body =
     (let reason = first_field body [''errorReason'', ''error'', ''message''] ''FACILITATOR_SETTLE_FAILED''
      in if json_field body ''success'' = JBool False
         then (Sub_REJECTED reason body, ''FACILITATOR_REJECTED: '' @ reason)
         else (Sub_UNKNOWN ''FACILITATOR_AMBIGUOUS: 2xx response without a canonical success verdict'',
               ''FACILITATOR_AMBIGUOUS: 2xx without success field '' @ mdash @ '' reconciler owns the outcome''))"

definition not_2xx :: "int \<Rightarrow> json \<Rightarrow> SubmitResult \<times> string" where
  "not_2xx status body =
     (let reason = first_field body [''errorReason'', ''error'', ''message''] (''HTTP '' @ string_of_int status);
          replayish = (status = 409 \<or> replayish_reason reason);
          definitiveRefusal = (400 \<le> status \<and> status < 500 \<and> status \<noteq> 408 \<and> status \<noteq> 429 \<and> \<not> replayish);
          ambiguous = ''FACILITATOR_AMBIGUOUS: HTTP '' @ string_of_int status @ '' '' @ mdash @ '' '' @ reason
      in if definitiveRefusal then (Sub_REJECTED reason body, ''FACILITATOR_REJECTED: '' @ reason)
         else (Sub_UNKNOWN ambiguous, ambiguous))"

text \<open>
  Everything after the network call. A body that is the JSON value \<open>null\<close> makes the reading of its
  fields throw; a body that is no JSON at all reads as the empty object.
\<close>

definition record_reply ::
    "DbFaults \<Rightarrow> DurablePaymentIntent \<Rightarrow> FacilitatorReply \<Rightarrow> int \<Rightarrow> mem_store \<Rightarrow> (exn + SubmitResult) \<times> mem_store" where
  "record_reply db intent reply t st =
     (case reply of
        Network_error msg \<Rightarrow>
          (Inr (Sub_UNKNOWN (''NETWORK_ERROR: '' @ msg)),
           reconcileAmbiguous db (pi_paymentIntentId intent) None JUndefined (''NETWORK_ERROR: '' @ msg) t st)
      | Reply status body \<Rightarrow>
          (if body = JNull then (Inl ''TypeError: Cannot read properties of null'', st)
           else if 200 \<le> status \<and> status \<le> 299 \<and> json_field body ''success'' = JBool True then
             (let txHash = first_field body [''transaction'', ''transactionHash'', ''txHash'', ''transaction_hash''] []
              in (Inr (Sub_SUBMITTED txHash body), settle_bookkeeping db intent txHash status body t st))
           else
             (let (answer, reason) = (if 200 \<le> status \<and> status \<le> 299 then unsuccessful_2xx body else not_2xx status body)
              in (Inr answer, reconcileAmbiguous db (pi_paymentIntentId intent) (Some status) body reason t st))))"

definition submit ::
    "(FacilitatorSettleRequest \<Rightarrow> FacilitatorReply) \<Rightarrow> DbFaults \<Rightarrow> DurablePaymentIntent \<Rightarrow> PaymentPayload \<Rightarrow> int \<Rightarrow>
     mem_store \<Rightarrow> (exn + SubmitResult) \<times> mem_store" where
  "submit facilitator db intent payload t st =
     (case mark_submitting intent t st of
        (Some r, st') \<Rightarrow> (Inr r, st')
      | (None, st') \<Rightarrow> record_reply db intent (facilitator (buildFacilitatorRequest payload)) t st')"

section \<open>The settlement state of an intent\<close>

lemma settlement_put [simp, store_simps]:
  "st_of (put_intent k rec i st) = (st_of st)(k \<mapsto> pi_settlementState i)"
  by (simp add: st_of_def fun_eq_iff)

lemma settlement_nonces [simp, store_simps]: "st_of (markNonceSubmitted n t st) = st_of st"
  by (simp add: st_of_def fun_eq_iff)

lemma update_row_simps [simp]:
  "pi_settlementState (update_row n x t i) = n"
  "pi_txHash (update_row n x t i) = or_else (ix_txHash x) (pi_txHash i)"
  "pi_paymentIntentId (update_row n x t i) = pi_paymentIntentId i"
  "pi_operationId (update_row n x t i) = pi_operationId i"
  by (simp_all add: update_row_def)

lemma compareAndSetRow_eq:
  assumes "compareAndSetRow k e n x t st = (won, st')"
  shows "mem_intent st' = (if won then (mem_intent st)(k := map_option (update_row n x t) (mem_intent st k)) else mem_intent st) \<and>
    (won \<longleftrightarrow> \<not> isTerminalSettlementState e \<and> st_of st k = Some e)"
  using assms by (auto simp: compareAndSetRow_def mem_intent_def st_of_def put_intent_def fun_eq_iff
      split: if_splits option.splits)

lemma compareAndSetRow_settlement:
  "st_of (snd (compareAndSetRow k e n x t st)) =
     (if \<not> isTerminalSettlementState e \<and> st_of st k = Some e then (st_of st)(k \<mapsto> n) else st_of st)"
proof (cases "compareAndSetRow k e n x t st")
  case (Pair won st')
  from compareAndSetRow_eq [OF Pair] Pair show ?thesis by (auto simp: st_of_def fun_eq_iff)
qed

lemma guarded_cas_settlement:
  "st_of (guarded_cas db k n x t st) =
     (if \<not> df_cas db \<and> st_of st k = Some St_SUBMITTING then (st_of st)(k \<mapsto> n) else st_of st)"
  by (simp add: guarded_cas_def compareAndSetRow_settlement)

lemma recordSubmissionResult_settlement:
  "st_of (snd (recordSubmissionResult k n tx s b t st)) =
     (if st_of st k = Some St_SUBMITTING then (st_of st)(k \<mapsto> n) else st_of st)"
  by (simp add: recordSubmissionResult_def compareAndSetRow_settlement)

text \<open>The client moves an intent only out of \<open>SUBMITTING\<close> once the call is on its way.\<close>

definition moves_from_submitting :: "string \<Rightarrow> mem_store \<Rightarrow> mem_store \<Rightarrow> bool" where
  "moves_from_submitting k st st' = (st_of st' = st_of st \<or>
     st_of st k = Some St_SUBMITTING \<and>
     (\<exists>n. n \<in> {St_RECONCILING, St_SETTLEMENT_PENDING} \<and> st_of st' = (st_of st)(k \<mapsto> n)))"

lemma settle_bookkeeping_settlement:
  "st_of (settle_bookkeeping db intent tx s b t st) =
     (if st_of st (pi_paymentIntentId intent) = Some St_SUBMITTING \<and>
         \<not> (df_cas db \<and> (\<exists>e. df_book db = Some (e, False)))
      then (st_of st)(pi_paymentIntentId intent \<mapsto> St_SETTLEMENT_PENDING) else st_of st)"
  by (auto simp: settle_bookkeeping_def Let_def guarded_cas_settlement recordSubmissionResult_settlement
      split: option.splits)

lemma reconcileAmbiguous_moves: "moves_from_submitting k st (reconcileAmbiguous db k hs body reason t st)"
  by (auto simp: moves_from_submitting_def reconcileAmbiguous_def guarded_cas_settlement)

lemma settle_bookkeeping_moves:
  "moves_from_submitting (pi_paymentIntentId intent) st (settle_bookkeeping db intent tx s b t st)"
  by (auto simp: moves_from_submitting_def settle_bookkeeping_settlement)

lemma moves_refl: "moves_from_submitting k st st"
  by (simp add: moves_from_submitting_def)

lemma record_reply_moves:
  assumes "record_reply db intent reply t st = (x, st')"
  shows "moves_from_submitting (pi_paymentIntentId intent) st st'"
proof -
  have "moves_from_submitting (pi_paymentIntentId intent) st (snd (record_reply db intent reply t st))"
    by (simp add: record_reply_def Let_def reconcileAmbiguous_moves settle_bookkeeping_moves moves_refl
        split: FacilitatorReply.split prod.split)
  with assms show ?thesis by simp
qed

lemma mark_submitting_cases:
  assumes "mark_submitting intent t st = (r, st')"
  shows "(r \<noteq> None \<longrightarrow> st' = st) \<and>
    (r = None \<longrightarrow> st_of st (pi_paymentIntentId intent) = Some St_AUTHORIZED \<and>
       st_of st' = (st_of st)(pi_paymentIntentId intent \<mapsto> St_SUBMITTING))"
proof (cases "submit_guard intent st")
  case None
  obtain won st1 where c: "compareAndSetRow (pi_paymentIntentId intent) St_AUTHORIZED St_SUBMITTING no_row_extra t st = (won, st1)"
    by fastforce
  have "\<not> won \<Longrightarrow> st1 = st" using c by (auto simp: compareAndSetRow_def split: if_splits option.splits)
  with c compareAndSetRow_eq [OF c] compareAndSetRow_settlement [of "pi_paymentIntentId intent" St_AUTHORIZED St_SUBMITTING no_row_extra t st]
    assms None show ?thesis
    by (cases won) (auto simp: mark_submitting_def transitionToSubmitting_def)
qed (use assms in \<open>auto simp: mark_submitting_def\<close>)

section \<open>What an answer leaves behind\<close>

lemma compareAndSetRow_intent:
  "\<not> isTerminalSettlementState e \<Longrightarrow> st_of st k = Some e \<Longrightarrow>
   mem_intent (snd (compareAndSetRow k e n x t st)) k = map_option (update_row n x t) (mem_intent st k)"
  by (cases "compareAndSetRow k e n x t st") (auto dest: compareAndSetRow_eq)

lemma settle_bookkeeping_tx:
  assumes "st_of st k = Some St_SUBMITTING" "k = pi_paymentIntentId intent" "\<not> df_cas db" "tx \<noteq> []"
  shows "map_option pi_txHash (mem_intent (settle_bookkeeping db intent tx s b t st) k) = Some (Some tx)"
proof -
  obtain i where i: "mem_intent st k = Some i" using assms(1) by (auto simp: st_of_def)
  have r: "map_option pi_txHash (mem_intent (snd (recordSubmissionResult k St_SETTLEMENT_PENDING (Some tx) s b t st)) k) = Some (Some tx)"
    using assms(1) i by (simp add: recordSubmissionResult_def compareAndSetRow_intent)
  have g: "map_option pi_txHash (mem_intent (guarded_cas db k n (no_row_extra\<lparr>ix_txHash := Some tx, ix_errorReason := e\<rparr>) t st1) k) = Some (Some tx)"
    if "st1 = st \<or> st1 = snd (recordSubmissionResult k St_SETTLEMENT_PENDING (Some tx) s b t st)" for st1 n e
    using that
  proof
    assume "st1 = st"
    with assms i show ?thesis by (simp add: guarded_cas_def compareAndSetRow_intent)
  next
    assume st1: "st1 = snd (recordSubmissionResult k St_SETTLEMENT_PENDING (Some tx) s b t st)"
    then have "st_of st1 k \<noteq> Some St_SUBMITTING" using assms(1) by (simp add: recordSubmissionResult_settlement)
    then have "snd (compareAndSetRow k St_SUBMITTING n (no_row_extra\<lparr>ix_txHash := Some tx, ix_errorReason := e\<rparr>) t st1) = st1"
      by (auto simp: compareAndSetRow_def st_of_def mem_intent_def split: option.splits)
    with r st1 assms(3) show ?thesis by (simp add: guarded_cas_def)
  qed
  show ?thesis
    using r g assms(2-4) by (auto simp: settle_bookkeeping_def Let_def split: option.splits)
qed

definition declared_settled :: "FacilitatorReply \<Rightarrow> json \<Rightarrow> bool" where
  "declared_settled reply raw = (\<exists>s. reply = Reply s raw \<and> 200 \<le> s \<and> s \<le> 299 \<and> json_field raw ''success'' = JBool True)"

lemma record_reply_outcome:
  assumes "st_of st k = Some St_SUBMITTING" "k = pi_paymentIntentId intent" "\<not> df_cas db"
    and "record_reply db intent reply t st = (x, st')"
  shows "case x of
      Inl e \<Rightarrow> st' = st \<and> (\<exists>s. reply = Reply s JNull)
    | Inr (Sub_SUBMITTED tx raw) \<Rightarrow> st_of st' = (st_of st)(k \<mapsto> St_SETTLEMENT_PENDING) \<and>
        declared_settled reply raw \<and> (tx \<noteq> [] \<longrightarrow> map_option pi_txHash (mem_intent st' k) = Some (Some tx))
    | Inr _ \<Rightarrow> st_of st' = (st_of st)(k \<mapsto> St_RECONCILING)"
proof (cases reply)
  case (Network_error msg)
  with assms show ?thesis by (auto simp: record_reply_def reconcileAmbiguous_def guarded_cas_settlement)
next
  case (Reply s b)
  have a: "st_of (reconcileAmbiguous db k hs body r t st) = (st_of st)(k \<mapsto> St_RECONCILING)" for hs body r
    using assms(1,3) by (simp add: reconcileAmbiguous_def guarded_cas_settlement)
  have b: "st_of (settle_bookkeeping db intent tx s b t st) = (st_of st)(k \<mapsto> St_SETTLEMENT_PENDING)" for tx
    using assms(1-3) by (simp add: settle_bookkeeping_settlement)
  consider (null) "b = JNull" | (ok) "b \<noteq> JNull" "200 \<le> s \<and> s \<le> 299" "json_field b ''success'' = JBool True"
    | (refused) "b \<noteq> JNull" "\<not> (200 \<le> s \<and> s \<le> 299 \<and> json_field b ''success'' = JBool True)" by blast
  then show ?thesis
  proof cases
    case ok
    let ?tx = "first_field b [''transaction'', ''transactionHash'', ''txHash'', ''transaction_hash''] []"
    have "x = Inr (Sub_SUBMITTED ?tx b)" "st' = settle_bookkeeping db intent ?tx s b t st"
      using assms(4) Reply ok by (simp_all add: record_reply_def Let_def del: first_field.simps)
    with b [of ?tx] settle_bookkeeping_tx [OF assms(1-3), of ?tx s b t] Reply ok show ?thesis
      by (simp add: declared_settled_def del: first_field.simps)
  next
    case refused
    obtain answer reason where v: "(if 200 \<le> s \<and> s \<le> 299 then unsuccessful_2xx b else not_2xx s b) = (answer, reason)" by fastforce
    with refused have "\<nexists>tx raw. answer = Sub_SUBMITTED tx raw"
      by (auto simp: unsuccessful_2xx_def not_2xx_def Let_def split: if_splits)
    moreover from refused have c: "\<not> (200 \<le> s \<and> s \<le> 299 \<and> json_field b ''success'' = JBool True)" by blast
    have "x = Inr answer" "st' = reconcileAmbiguous db k (Some s) b reason t st"
      using assms(2,4) refused(1) by (simp_all only: record_reply_def Reply FacilitatorReply.case if_False c v Let_def prod.case prod.inject)
    ultimately show ?thesis using a by (cases answer) auto
  qed (use assms(4) Reply in \<open>auto simp: record_reply_def\<close>)
qed

section \<open>Properties\<close>

definition sample_payload :: "DurablePaymentIntent \<Rightarrow> PaymentPayload" where
  "sample_payload i = \<lparr>pp_x402Version = 2, pp_resource = None,
     pp_accepted = \<lparr>pa_scheme = ''exact'', pa_network = pi_network i, pa_amount = pi_value i, pa_asset = pi_asset i,
       pa_payTo = pi_payTo i, pa_maxTimeoutSeconds = 300, pa_extra = None\<rparr>,
     pp_signature = ''0x51'', pp_authorization = \<lparr>ta_from = pi_authorizer i, ta_to = pi_payTo i, ta_value = pi_value i,
       ta_validAfter = ''0'', ta_validBefore = ''1000'', ta_nonce = pi_nonce i\<rparr>, pp_extensions = None\<rparr>"

definition sample_sender :: DurablePaymentIntent where
  "sample_sender = sample_intent ''pi1'' ''op1'' St_AUTHORIZED"

text \<open>
  The answer of a submission is durable: \<open>submit\<close> answers SUBMITTED only when the
  facilitator replied 2xx with \<open>success: true\<close>, and then the intent is SETTLEMENT_PENDING with the
  transaction hash recorded, even when the bookkeeping call failed; any other answer leaves the
  intent RECONCILING, or the store untouched when the intent was not AUTHORIZED (nothing was sent);
  it throws only on a \<open>null\<close> body, and then leaves the intent SUBMITTING.
\<close>

theorem submit_answer_is_durable:
  assumes "submit facilitator db intent payload t st = (x, st')" "k = pi_paymentIntentId intent" "\<not> df_cas db"
    and "reply = facilitator (buildFacilitatorRequest payload)"
  shows "case x of
      Inl e \<Rightarrow> st_of st' = (st_of st)(k \<mapsto> St_SUBMITTING) \<and> (\<exists>s. reply = Reply s JNull)
    | Inr (Sub_SUBMITTED tx raw) \<Rightarrow> st_of st k = Some St_AUTHORIZED \<and>
        st_of st' = (st_of st)(k \<mapsto> St_SETTLEMENT_PENDING) \<and> declared_settled reply raw \<and>
        (tx \<noteq> [] \<longrightarrow> map_option pi_txHash (mem_intent st' k) = Some (Some tx))
    | Inr _ \<Rightarrow> st' = st \<or> st_of st k = Some St_AUTHORIZED \<and> st_of st' = (st_of st)(k \<mapsto> St_RECONCILING)"
proof -
  obtain r st1 where m: "mark_submitting intent t st = (r, st1)" by fastforce
  note M = mark_submitting_cases [OF m]
  show ?thesis
  proof (cases r)
    case None
    with M assms(2) have s: "st_of st1 k = Some St_SUBMITTING" "st_of st1 = (st_of st)(k \<mapsto> St_SUBMITTING)"
      "st_of st k = Some St_AUTHORIZED" by auto
    have "record_reply db intent reply t st1 = (x, st')" using assms(1,4) m None by (simp add: submit_def)
    from record_reply_outcome [OF s(1) assms(2,3) this] s(2,3) show ?thesis
      by (auto split: sum.splits SubmitResult.splits)
  next
    case (Some a)
    with assms(1) m M have "x = Inr a" "st' = st" by (auto simp: submit_def)
    moreover have "\<nexists>tx raw. a = Sub_SUBMITTED tx raw"
      using m Some by (auto simp: mark_submitting_def submit_guard_def Let_def split: option.splits if_splits bool.splits prod.splits)
    ultimately show ?thesis by (cases a) auto
  qed
qed

definition sample_settle :: "json \<Rightarrow> (exn + SubmitResult) \<times> mem_store" where
  "sample_settle body = submit (\<lambda>_. Reply 200 body) \<lparr>df_book = Some (''deadlock'', False), df_cas = False\<rparr>
     sample_sender (sample_payload sample_sender) 5 (sample_store St_AUTHORIZED)"

definition sample_success :: json where
  "sample_success = JObj [(''success'', JBool True), (''transaction'', JStr ''0xabc'')]"

theorem submit_answer_is_durable_witness:
  "fst (sample_settle sample_success) = Inr (Sub_SUBMITTED ''0xabc'' sample_success) \<and>
   st_of (snd (sample_settle sample_success)) ''pi1'' = Some St_SETTLEMENT_PENDING \<and>
   map_option pi_txHash (mem_intent (snd (sample_settle sample_success)) ''pi1'') = Some (Some ''0xabc'')"
proof -
  have x: "fst (sample_settle sample_success) = Inr (Sub_SUBMITTED ''0xabc'' sample_success)" by code_simp
  have "submit (\<lambda>_. Reply 200 sample_success) \<lparr>df_book = Some (''deadlock'', False), df_cas = False\<rparr> sample_sender
      (sample_payload sample_sender) 5 (sample_store St_AUTHORIZED) =
      (Inr (Sub_SUBMITTED ''0xabc'' sample_success), snd (sample_settle sample_success))"
    using x by (simp add: sample_settle_def prod_eq_iff)
  from submit_answer_is_durable [OF this refl _ refl] x show ?thesis by (simp add: sample_sender_def sample_intent_def)
qed

end
