(* ===== verification/StandardTransport.thy ===== *)
theory StandardTransport
  imports SettlementFeedback FacilitatorClient
begin

text \<open>
  \<^verbatim>\<open>zeus-secretariat/src/core/standard-x402-transport.ts\<close>: the paid call to a third-party seller, where
  the signed payment rides in a request header and the seller's own facilitator settles it. The
  seller is an argument, as are JSON parsing and base64 decoding (\<open>parse\<close>, \<open>decode\<close>; \<open>None\<close> is a throw).
\<close>

section \<open>The receipt\<close>

record StandardPaymentReceipt =
  rc_transaction :: string
  rc_errorReason :: "string option"

text \<open>\<open>/^0x[0-9a-fA-F]{64}$/\<close>.\<close>

definition TX_RE :: "string \<Rightarrow> bool" where
  "TX_RE s = (length s = 66 \<and> take 2 s = ''0x'' \<and> list_all is_hex (drop 2 s))"

definition parsePaymentResponseHeader :: "(string \<Rightarrow> json option) \<Rightarrow> string option \<Rightarrow> StandardPaymentReceipt option" where
  "parsePaymentResponseHeader decode header =
     (case header of
        None \<Rightarrow> None
      | Some h \<Rightarrow> if h = [] then None else
          (case decode h of
             None \<Rightarrow> None
           | Some parsed \<Rightarrow>
               (if json_field parsed ''success'' \<noteq> JBool True then None
                else (case json_field parsed ''transaction'' of
                        JStr tx \<Rightarrow> if \<not> TX_RE tx then None
                          else Some \<lparr>rc_transaction = tx,
                            rc_errorReason = (case json_field parsed ''errorReason'' of JStr r \<Rightarrow> Some r | _ \<Rightarrow> None)\<rparr>
                      | _ \<Rightarrow> None))))"

definition receipt_json :: "StandardPaymentReceipt option \<Rightarrow> json" where
  "receipt_json r = (case r of None \<Rightarrow> JNull
     | Some x \<Rightarrow> JObj ([(''success'', JBool True), (''transaction'', JStr (rc_transaction x))] @
         (case rc_errorReason x of None \<Rightarrow> [] | Some e \<Rightarrow> [(''errorReason'', JStr e)])))"

section \<open>The paid call\<close>

record StandardTransportTarget =
  tt_url :: string
  tt_method :: string
  tt_body :: "string option"

record PaidRequest =
  pq_url :: string
  pq_method :: string
  pq_payload :: PaymentPayload
  pq_idempotencyKey :: string
  pq_body :: "string option"

text \<open>What the seller's side does: the call throws, or answers with a status, a body (reading it may throw) and a receipt header.\<close>

record PaidResponse =
  pr_status :: int
  pr_text :: "exn + string"
  pr_receipt :: "string option"

type_synonym paid_answer = "exn + PaidResponse"

definition bodyless :: "string \<Rightarrow> bool" where
  "bodyless method = (method \<in> {''GET'', ''HEAD''})"

definition paid_request :: "DurablePaymentIntent \<Rightarrow> PaymentPayload \<Rightarrow> StandardTransportTarget \<Rightarrow> PaidRequest" where
  "paid_request intent payload target =
     \<lparr>pq_url = tt_url target, pq_method = tt_method target, pq_payload = payload,
      pq_idempotencyKey = pi_operationId intent,
      pq_body = (if bodyless (toUpperCase (tt_method target)) then None else tt_body target)\<rparr>"

definition seller_body :: "(string \<Rightarrow> json option) \<Rightarrow> exn + string \<Rightarrow> json" where
  "seller_body parse text = (case text of
     Inl _ \<Rightarrow> JNull
   | Inr s \<Rightarrow> if s = [] then JNull else (case parse s of None \<Rightarrow> JStr s | Some v \<Rightarrow> v))"

definition paid_call_record ::
    "(string \<Rightarrow> json option) \<Rightarrow> StandardPaymentReceipt option \<Rightarrow> PaidResponse \<Rightarrow> int \<Rightarrow> json" where
  "paid_call_record parse receipt resp t = JObj
     ([(''kind'', JStr STANDARD_PAID_CALL_MARKER), (''sellerHttpStatus'', JNum (pr_status resp)),
       (''paymentResponse'', receipt_json receipt), (''sellerBody'', seller_body parse (pr_text resp)),
       (''capturedAt'', JNum t)] @
      (case pr_text resp of Inl e \<Rightarrow> if e = [] then [] else [(''note'', JStr e)] | Inr _ \<Rightarrow> []))"

definition standard_bookkeeping ::
    "DbFaults \<Rightarrow> DurablePaymentIntent \<Rightarrow> string \<Rightarrow> int \<Rightarrow> json \<Rightarrow> int \<Rightarrow> mem_store \<Rightarrow> mem_store" where
  "standard_bookkeeping db intent tx status rec t st =
     (let st1 = snd (recordSubmissionResult (pi_paymentIntentId intent) St_SETTLEMENT_PENDING (Some tx) status rec t st)
      in case df_book db of
           None \<Rightarrow> (if pi_nonce intent = [] then st1 else markNonceSubmitted (pi_nonce intent) t st1)
         | Some (e, written) \<Rightarrow>
             guarded_cas db (pi_paymentIntentId intent) St_SETTLEMENT_PENDING
               (no_row_extra\<lparr>ix_txHash := Some tx, ix_facilitatorResponseBody := rec,
                  ix_errorReason := Some (''SETTLE_OK_BOOKKEEPING_FAILED: '' @ e)\<rparr>) t
               (if written then st1 else st))"

definition standard_not_2xx :: "int \<Rightarrow> json \<Rightarrow> SubmitResult \<times> string" where
  "standard_not_2xx status rec =
     (let reason = ''STANDARD_TRANSPORT: HTTP '' @ string_of_int status @ '' '' @ mdash @ '' seller refused the payment''
      in if status \<in> {408, 409, 429} \<or> 500 \<le> status
         then (Sub_UNKNOWN reason, ''STANDARD_TRANSPORT_AMBIGUOUS: HTTP '' @ string_of_int status)
         else (Sub_REJECTED reason rec, ''STANDARD_TRANSPORT_REJECTED: HTTP '' @ string_of_int status))"

definition record_paid_answer ::
    "(string \<Rightarrow> json option) \<Rightarrow> (string \<Rightarrow> json option) \<Rightarrow> DbFaults \<Rightarrow> DurablePaymentIntent \<Rightarrow> paid_answer \<Rightarrow> int \<Rightarrow>
     mem_store \<Rightarrow> SubmitResult \<times> mem_store" where
  "record_paid_answer decode parse db intent answer t st =
     (case answer of
        Inl msg \<Rightarrow>
          (Sub_UNKNOWN (''NETWORK_ERROR: '' @ msg),
           reconcileAmbiguous db (pi_paymentIntentId intent) None JUndefined (''STANDARD_TRANSPORT_NETWORK_ERROR: '' @ msg) t st)
      | Inr resp \<Rightarrow>
          (let receipt = parsePaymentResponseHeader decode (pr_receipt resp);
               rec = paid_call_record parse receipt resp t;
               status = pr_status resp
           in if 200 \<le> status \<and> status \<le> 299 then
                (case receipt of
                   None \<Rightarrow>
                     (Sub_UNKNOWN ''STANDARD_TRANSPORT_AMBIGUOUS: 2xx response without a canonical PAYMENT-RESPONSE receipt'',
                      reconcileAmbiguous db (pi_paymentIntentId intent) (Some status) rec
                        ''STANDARD_TRANSPORT_AMBIGUOUS: 2xx without a canonical PAYMENT-RESPONSE receipt'' t st)
                 | Some r \<Rightarrow> (Sub_SUBMITTED (rc_transaction r) rec,
                              standard_bookkeeping db intent (rc_transaction r) status rec t st))
              else (let (ans, reason) = standard_not_2xx status rec
                    in (ans, reconcileAmbiguous db (pi_paymentIntentId intent) (Some status) rec reason t st))))"

definition submit_standard ::
    "(PaidRequest \<Rightarrow> paid_answer) \<Rightarrow> (string \<Rightarrow> json option) \<Rightarrow> (string \<Rightarrow> json option) \<Rightarrow> DbFaults \<Rightarrow>
     DurablePaymentIntent \<Rightarrow> PaymentPayload \<Rightarrow> StandardTransportTarget \<Rightarrow> int \<Rightarrow> mem_store \<Rightarrow> SubmitResult \<times> mem_store" where
  "submit_standard seller decode parse db intent payload target t st =
     (case transitionToSubmitting (pi_paymentIntentId intent) t st of
        (False, st') \<Rightarrow> (Sub_REJECTED (''CAS_FAILED: could not transition to SUBMITTING '' @ mdash @ '' state already changed'') JNull, st')
      | (True, st') \<Rightarrow> record_paid_answer decode parse db intent (seller (paid_request intent payload target)) t st')"

section \<open>What an answer leaves behind\<close>

lemma transitionToSubmitting_cases:
  assumes "transitionToSubmitting k t st = (won, st')"
  shows "(\<not> won \<longrightarrow> st' = st) \<and> (won \<longrightarrow> st_of st k = Some St_AUTHORIZED \<and> st_of st' = (st_of st)(k \<mapsto> St_SUBMITTING))"
proof -
  have c: "compareAndSetRow k St_AUTHORIZED St_SUBMITTING no_row_extra t st = (won, st')"
    using assms by (simp add: transitionToSubmitting_def)
  have "\<not> won \<Longrightarrow> st' = st" using c by (auto simp: compareAndSetRow_def split: if_splits option.splits)
  with compareAndSetRow_eq [OF c] compareAndSetRow_settlement [of k St_AUTHORIZED St_SUBMITTING no_row_extra t st] c
  show ?thesis by auto
qed

lemma standard_bookkeeping_settlement:
  "st_of (standard_bookkeeping db intent tx s rec t st) =
     (if st_of st (pi_paymentIntentId intent) = Some St_SUBMITTING \<and> \<not> (df_cas db \<and> (\<exists>e. df_book db = Some (e, False)))
      then (st_of st)(pi_paymentIntentId intent \<mapsto> St_SETTLEMENT_PENDING) else st_of st)"
  by (auto simp: standard_bookkeeping_def Let_def guarded_cas_settlement recordSubmissionResult_settlement split: option.splits)

lemma standard_bookkeeping_moves:
  "moves_from_submitting (pi_paymentIntentId intent) st (standard_bookkeeping db intent tx s rec t st)"
  by (auto simp: moves_from_submitting_def standard_bookkeeping_settlement)

lemma record_paid_answer_moves:
  assumes "record_paid_answer decode parse db intent answer t st = (x, st')"
  shows "moves_from_submitting (pi_paymentIntentId intent) st st'"
proof -
  have "moves_from_submitting (pi_paymentIntentId intent) st (snd (record_paid_answer decode parse db intent answer t st))"
    by (simp add: record_paid_answer_def Let_def reconcileAmbiguous_moves standard_bookkeeping_moves
        split: sum.split option.split prod.split)
  with assms show ?thesis by simp
qed

text \<open>A claim of settlement is only taken from a 2xx answer with a strict receipt.\<close>

lemma record_paid_answer_submitted:
  assumes "record_paid_answer decode parse db intent answer t st = (Sub_SUBMITTED tx raw, st')"
  shows "\<exists>resp. answer = Inr resp \<and> 200 \<le> pr_status resp \<and> pr_status resp \<le> 299 \<and>
    map_option rc_transaction (parsePaymentResponseHeader decode (pr_receipt resp)) = Some tx \<and>
    raw = paid_call_record parse (parsePaymentResponseHeader decode (pr_receipt resp)) resp t"
  using assms by (auto simp: record_paid_answer_def standard_not_2xx_def Let_def split: sum.splits if_splits option.splits prod.splits)

lemma receipt_transaction: "parsePaymentResponseHeader decode h = Some r \<Longrightarrow> TX_RE (rc_transaction r)"
  by (auto simp: parsePaymentResponseHeader_def split: option.splits if_splits json.splits)

end
