(* ===== verification/PaymentCalls.thy ===== *)
theory PaymentCalls
  imports StandardTransport
begin

text \<open>
  The two ways a signed payment leaves the process, the facilitator's \<open>/settle\<close> and the paid call to a
  standard seller, run by any number of processes over one database: no payment intent is ever sent
  twice.
\<close>

section \<open>Any number of processes\<close>

text \<open>
  A submission begins (the guarded mark, then the network call), its answer is recorded at any later
  time or never, and in between other writers create intents, bind payloads, move intents by
  compare-and-set to any state past \<open>AUTHORIZED\<close>, or write anything that is no settlement state.
  \<open>pc_calls\<close> are the requests sent, in order.
\<close>

datatype sent_request = Settle FacilitatorSettleRequest | Paid_call PaidRequest

record payment_world =
  pc_store :: mem_store
  pc_inflight :: "DurablePaymentIntent list"
  pc_calls :: "(string \<times> sent_request) list"

definition send :: "DurablePaymentIntent \<Rightarrow> sent_request \<Rightarrow> mem_store \<Rightarrow> payment_world \<Rightarrow> payment_world" where
  "send intent r st w = w\<lparr>pc_store := st, pc_inflight := intent # pc_inflight w,
     pc_calls := pc_calls w @ [(pi_paymentIntentId intent, r)]\<rparr>"

definition answered :: "DurablePaymentIntent \<Rightarrow> mem_store \<Rightarrow> payment_world \<Rightarrow> payment_world" where
  "answered intent st w = w\<lparr>pc_store := st, pc_inflight := remove1 intent (pc_inflight w)\<rparr>"

inductive payment_step :: "payment_world \<Rightarrow> payment_world \<Rightarrow> bool" where
  ps_settle: "mark_submitting intent t (pc_store w) = (None, st') \<Longrightarrow>
     payment_step w (send intent (Settle (buildFacilitatorRequest payload)) st' w)"
| ps_refuse: "mark_submitting intent t (pc_store w) = (Some r, st') \<Longrightarrow> payment_step w (w\<lparr>pc_store := st'\<rparr>)"
| ps_paid_call: "transitionToSubmitting (pi_paymentIntentId intent) t (pc_store w) = (True, st') \<Longrightarrow>
     payment_step w (send intent (Paid_call (paid_request intent payload target)) st' w)"
| ps_settle_answer: "intent \<in> set (pc_inflight w) \<Longrightarrow> record_reply db intent reply t (pc_store w) = (x, st') \<Longrightarrow>
     payment_step w (answered intent st' w)"
| ps_paid_answer: "intent \<in> set (pc_inflight w) \<Longrightarrow>
     record_paid_answer decode parse db intent answer t (pc_store w) = (y, st') \<Longrightarrow> payment_step w (answered intent st' w)"
| ps_create: "createIntentWithNonce i payer t (pc_store w) = (z, st') \<Longrightarrow> payment_step w (w\<lparr>pc_store := st'\<rparr>)"
| ps_authorize: "authorizePaymentIntent k p h St_PENDING_SIGNATURE t (pc_store w) = (b, st') \<Longrightarrow>
     payment_step w (w\<lparr>pc_store := st'\<rparr>)"
| ps_move: "n \<noteq> St_PENDING_SIGNATURE \<Longrightarrow> n \<noteq> St_AUTHORIZED \<Longrightarrow> compareAndSetState k e n t (pc_store w) = (c, st') \<Longrightarrow>
     payment_step w (w\<lparr>pc_store := st'\<rparr>)"
| ps_other: "st_of st' = st_of (pc_store w) \<Longrightarrow> payment_step w (w\<lparr>pc_store := st'\<rparr>)"

text \<open>
  The client's contract behind all of it: an intent can be claimed for sending only from
  \<open>AUTHORIZED\<close>, and the claim takes it out of \<open>AUTHORIZED\<close>.
\<close>

locale send_claim =
  fixes claim :: "DurablePaymentIntent \<Rightarrow> int \<Rightarrow> mem_store \<Rightarrow> bool \<times> mem_store"
  assumes claim_won: "claim i t st = (True, st') \<Longrightarrow>
      st_of st (pi_paymentIntentId i) = Some St_AUTHORIZED \<and> st_of st' = (st_of st)(pi_paymentIntentId i \<mapsto> St_SUBMITTING)"
    and claim_lost: "claim i t st = (False, st') \<Longrightarrow> st' = st"
begin

lemma claim_not_twice:
  assumes "claim i t st = (True, st')"
  shows "\<not> fst (claim i t' st')"
proof
  assume "fst (claim i t' st')"
  then have "claim i t' st' = (True, snd (claim i t' st'))" by (simp add: prod_eq_iff)
  from claim_won [OF this] claim_won [OF assms] show False by simp
qed

end

definition facilitator_claim :: "DurablePaymentIntent \<Rightarrow> int \<Rightarrow> mem_store \<Rightarrow> bool \<times> mem_store" where
  "facilitator_claim i t st = (case mark_submitting i t st of (r, st') \<Rightarrow> (r = None, st'))"

interpretation by_facilitator: send_claim facilitator_claim
  by unfold_locales (auto simp: facilitator_claim_def split: prod.splits dest: mark_submitting_cases)

interpretation by_seller: send_claim "\<lambda>i. transitionToSubmitting (pi_paymentIntentId i)"
  by unfold_locales (auto dest: transitionToSubmitting_cases)

definition past_authorized :: "mem_store \<Rightarrow> string \<Rightarrow> bool" where
  "past_authorized st k = (\<exists>s. st_of st k = Some s \<and> s \<noteq> St_PENDING_SIGNATURE \<and> s \<noteq> St_AUTHORIZED)"

definition calls_inv :: "payment_world \<Rightarrow> bool" where
  "calls_inv w = (distinct (map fst (pc_calls w)) \<and> (\<forall>k \<in> set (map fst (pc_calls w)). past_authorized (pc_store w) k))"

lemma create_settlement:
  assumes "createIntentWithNonce i payer t st = (x, st')" "st_of st k = Some s"
  shows "st_of st' k = Some s"
  using assms by (cases x) (auto dest: createIntentWithNonce_err simp: createIntentWithNonce_ok st_of_def)

lemma authorize_settlement:
  assumes "authorizePaymentIntent k0 p h St_PENDING_SIGNATURE t st = (x, st')" "past_authorized st k"
  shows "past_authorized st' k"
proof (cases "x = Inr True")
  case True
  with authorizePaymentIntent_win [of k0 p h St_PENDING_SIGNATURE t st st'] assms show ?thesis
    by (auto simp: past_authorized_def st_of_def)
next
  case False
  with assms(1) have "st' = st"
    by (cases x) (auto dest: authorizePaymentIntent_replay authorizePaymentIntent_conflict)
  with assms(2) show ?thesis by simp
qed

lemma move_settlement:
  assumes "compareAndSetState k0 e n t st = (b, st')" "n \<noteq> St_PENDING_SIGNATURE" "n \<noteq> St_AUTHORIZED" "past_authorized st k"
  shows "past_authorized st' k"
proof (cases b)
  case True
  with compareAndSetState_win [of k0 e n t st st'] assms show ?thesis
    by (auto simp: past_authorized_def st_of_def)
next
  case False
  with assms show ?thesis by (auto dest: compareAndSetState_lose)
qed

lemma calls_inv_send:
  assumes "calls_inv w" "st_of (pc_store w) (pi_paymentIntentId i) = Some St_AUTHORIZED"
    and "st_of st' = (st_of (pc_store w))(pi_paymentIntentId i \<mapsto> St_SUBMITTING)"
  shows "calls_inv (send i r st' w)"
  using assms by (auto simp: calls_inv_def past_authorized_def send_def)

lemma calls_inv_store:
  assumes "calls_inv w" "\<And>k. past_authorized (pc_store w) k \<Longrightarrow> past_authorized st' k"
  shows "calls_inv (w\<lparr>pc_store := st'\<rparr>)" "calls_inv (answered i st' w)"
  using assms by (auto simp: calls_inv_def answered_def)

lemma past_authorized_moves:
  "moves_from_submitting k0 st st' \<Longrightarrow> past_authorized st k \<Longrightarrow> past_authorized st' k"
  by (auto simp: moves_from_submitting_def past_authorized_def)

lemma calls_inv_step: "payment_step w w' \<Longrightarrow> calls_inv w \<Longrightarrow> calls_inv w'"
proof (induction rule: payment_step.induct)
  case (ps_settle intent t w st' payload)
  with by_facilitator.claim_won [of intent t "pc_store w" st'] show ?case
    by (simp add: facilitator_claim_def calls_inv_send)
next
  case (ps_refuse intent t w r st')
  with mark_submitting_cases [OF ps_refuse(1)] show ?case by simp
next
  case (ps_paid_call intent t w st' payload target)
  with by_seller.claim_won [OF ps_paid_call(1)] show ?case by (simp add: calls_inv_send)
next
  case (ps_settle_answer intent w db reply t x st')
  with past_authorized_moves [OF record_reply_moves [OF ps_settle_answer(2)]] show ?case by (simp add: calls_inv_store)
next
  case (ps_paid_answer intent w decode parse db answer t y st')
  with past_authorized_moves [OF record_paid_answer_moves [OF ps_paid_answer(2)]] show ?case by (simp add: calls_inv_store)
next
  case (ps_create i payer t w z st')
  with create_settlement [OF ps_create(1)] show ?case by (auto simp: past_authorized_def intro!: calls_inv_store)
next
  case (ps_authorize k p h t w b st')
  with authorize_settlement [OF ps_authorize(1)] show ?case by (simp add: calls_inv_store)
next
  case (ps_move n k e t w c st')
  with move_settlement [OF ps_move(3) ps_move(1,2)] show ?case by (simp add: calls_inv_store)
next
  case (ps_other st' w)
  then show ?case by (auto simp: past_authorized_def intro!: calls_inv_store(1))
qed

lemma calls_inv_run: "payment_step\<^sup>*\<^sup>* w w' \<Longrightarrow> calls_inv w \<Longrightarrow> calls_inv w'"
  by (induction rule: rtranclp_induct) (auto intro: calls_inv_step)

section \<open>Properties\<close>

text \<open>
  Property C3. A payment leaves the process at most once: over every interleaving of any number of
  processes, answers that come late or never, failing database calls, and other writers that never
  move an intent back, each payment intent is sent at most once, to the facilitator or to a standard
  seller, and an intent that was sent stays past \<open>AUTHORIZED\<close>, so it is never sent again.
\<close>

theorem payment_sent_once_per_intent:
  assumes "payment_step\<^sup>*\<^sup>* w w'" "pc_calls w = []"
  shows "distinct (map fst (pc_calls w')) \<and> (\<forall>k \<in> set (map fst (pc_calls w')). past_authorized (pc_store w') k)"
proof -
  have "calls_inv w" using assms(2) by (simp add: calls_inv_def)
  from calls_inv_run [OF assms(1) this] show ?thesis by (simp add: calls_inv_def)
qed

definition sample_sent :: payment_world where
  "sample_sent = send sample_sender (Settle (buildFacilitatorRequest (sample_payload sample_sender)))
     (snd (mark_submitting sample_sender 5 (sample_store St_AUTHORIZED)))
     \<lparr>pc_store = sample_store St_AUTHORIZED, pc_inflight = [], pc_calls = []\<rparr>"

theorem payment_sent_once_per_intent_witness:
  "map fst (pc_calls sample_sent) = [''pi1''] \<and> past_authorized (pc_store sample_sent) ''pi1''"
proof -
  let ?w = "\<lparr>pc_store = sample_store St_AUTHORIZED, pc_inflight = [], pc_calls = []\<rparr>"
  have "fst (mark_submitting sample_sender 5 (sample_store St_AUTHORIZED)) = None" by code_simp
  then have "mark_submitting sample_sender 5 (pc_store ?w) = (None, snd (mark_submitting sample_sender 5 (sample_store St_AUTHORIZED)))"
    by (simp add: prod_eq_iff)
  from ps_settle [OF this, of "sample_payload sample_sender"]
  have "payment_step ?w sample_sent" by (simp add: sample_sent_def)
  then have "payment_step\<^sup>*\<^sup>* ?w sample_sent" by blast
  from payment_sent_once_per_intent [OF this] show ?thesis
    by (simp add: sample_sent_def send_def sample_sender_def sample_intent_def)
qed

end
