(* ===== verification/X402Parser.thy ===== *)
theory X402Parser
  imports RequestPolicy
begin

text \<open>
  \<^verbatim>\<open>zeus-secretariat/src/core/x402-parser.ts\<close>: the payment challenge of a seller's 402 answer, from
  the standard header (base64 JSON), the legacy \<open>key=value\<close> header, or the body. Base64 decoding and
  JSON parsing are one argument, \<open>decode\<close>, with \<open>None\<close> for a throw. A challenge entry is JSON; its
  text fields are read as text, as every later use in the code reads them.
\<close>

section \<open>Entries\<close>

definition accept_of_json :: "json \<Rightarrow> X402Accept" where
  "accept_of_json v =
     \<lparr>ac_scheme = js_String (json_field v ''scheme''), ac_network = js_String (json_field v ''network''),
      ac_asset = js_String (json_field v ''asset''), ac_amount = js_String (json_field v ''amount''),
      ac_payTo = js_String (json_field v ''payTo''), ac_maxTimeoutSeconds = num_of (json_field v ''maxTimeoutSeconds'')\<rparr>"

definition accept_json :: "X402Accept \<Rightarrow> json" where
  "accept_json a = JObj ([(''scheme'', JStr (ac_scheme a)), (''network'', JStr (ac_network a)), (''asset'', JStr (ac_asset a)),
     (''amount'', JStr (ac_amount a)), (''payTo'', JStr (ac_payTo a))] @ opt_num ''maxTimeoutSeconds'' (ac_maxTimeoutSeconds a))"

lemma accept_json_roundtrip: "accept_of_json (accept_json a) = a"
  by (cases a; cases "ac_maxTimeoutSeconds a") (auto simp: accept_of_json_def accept_json_def json_field_def opt_num_def num_of_def)

text \<open>A value as a condition of the source reads it.\<close>

fun json_truthy :: "json \<Rightarrow> bool" where
  "json_truthy JUndefined = False"
| "json_truthy JNull = False"
| "json_truthy (JBool b) = b"
| "json_truthy (JNum n) = (n \<noteq> 0)"
| "json_truthy (JStr s) = (s \<noteq> [])"
| "json_truthy (JArr vs) = True"
| "json_truthy (JObj kvs) = True"

text \<open>An entry that is \<open>null\<close> makes the reading of its fields throw.\<close>

definition parseFromJSON :: "json \<Rightarrow> exn + json list" where
  "parseFromJSON body =
     (case json_field body ''accepts'' of
        JArr entries \<Rightarrow>
          (if \<exists>a \<in> set entries. nullish a then Inl ''TypeError: Cannot read properties of null''
           else Inr (filter (\<lambda>a. json_truthy (json_field a ''scheme'') \<and> json_truthy (json_field a ''network'') \<and>
             json_truthy (json_field a ''amount'') \<and> json_truthy (json_field a ''payTo'')) entries))
      | _ \<Rightarrow> Inr [])"

section \<open>The legacy header\<close>

fun split_on :: "char \<Rightarrow> string \<Rightarrow> string list" where
  "split_on c [] = [[]]"
| "split_on c (x # xs) =
     (if x = c then [] # split_on c xs
      else (case split_on c xs of [] \<Rightarrow> [[x]] | w # ws \<Rightarrow> (x # w) # ws))"

definition is_quote :: "char \<Rightarrow> bool" where
  "is_quote c = (c = CHR 0x22 \<or> c = CHR 0x27)"

definition strip_quotes :: "string \<Rightarrow> string" where
  "strip_quotes v = (if 2 \<le> length v \<and> is_quote (hd v) \<and> is_quote (last v) then butlast (tl v) else v)"

text \<open>One \<open>key=value\<close> pair; a pair without \<open>=\<close> or with an empty key is skipped.\<close>

definition legacy_pair :: "string \<Rightarrow> (string \<times> string) option" where
  "legacy_pair pair =
     (if CHR ''='' \<notin> set pair then None
      else let key = toLowerCase (trim (takeWhile (\<lambda>c. c \<noteq> CHR ''='') pair));
               v = strip_quotes (trim (tl (dropWhile (\<lambda>c. c \<noteq> CHR ''='') pair)))
           in if key = [] then None else Some (key, v))"

definition legacy_fields :: "string \<Rightarrow> (string, string) jsmap" where
  "legacy_fields raw = fold (\<lambda>(k, v) m. js_set k v m) (List.map_filter legacy_pair (split_on CHR '';'' raw)) []"

definition parseLegacyHeader :: "string \<Rightarrow> X402Accept option" where
  "parseLegacyHeader raw =
     (let fields = legacy_fields raw;
          network = js_get fields ''network''; asset = js_get fields ''asset'';
          amount = or_else (js_get fields ''amount'') (or_else (js_get fields ''maxamountrequired'') (js_get fields ''max-amount-required''));
          payTo = or_else (js_get fields ''payee'') (js_get fields ''payto'')
      in if truthy network \<and> truthy amount \<and> truthy payTo
         then Some \<lparr>ac_scheme = ''exact'', ac_network = the network, ac_asset = opt_default [] asset,
                ac_amount = the amount, ac_payTo = the payTo, ac_maxTimeoutSeconds = None\<rparr>
         else None)"

section \<open>The response\<close>

text \<open>
  Only the length of \<open>accepts\<close> is tested: a non-empty text is handed on by its characters. Objects with a
  \<open>length\<close> field of their own are not modelled.
\<close>

definition header_accepts :: "(string \<Rightarrow> json option) \<Rightarrow> string option \<Rightarrow> json list" where
  "header_accepts decode header =
     (if truthy header
      then (case decode (the header) of
              None \<Rightarrow> []
            | Some challenge \<Rightarrow> (case json_field challenge ''accepts'' of JArr entries \<Rightarrow> entries | JStr text \<Rightarrow> map (\<lambda>c. JStr [c]) text | _ \<Rightarrow> []))
      else [])"

definition parseResponse :: "(string \<Rightarrow> json option) \<Rightarrow> (string \<Rightarrow> string option) \<Rightarrow> exn + json \<Rightarrow> exn + json list" where
  "parseResponse decode headers body =
     (case header_accepts decode (headers ''PAYMENT-REQUIRED'') of
        a # as \<Rightarrow> Inr (a # as)
      | [] \<Rightarrow>
          (let legacyHeader = headers ''X-Payment-Required'';
               legacy = (if truthy legacyHeader then parseLegacyHeader (the legacyHeader) else None)
           in case legacy of
                Some a \<Rightarrow> Inr [accept_json a]
              | None \<Rightarrow>
                  (case (case body of Inl e \<Rightarrow> Inl e | Inr v \<Rightarrow> parseFromJSON v) of
                     Inl _ \<Rightarrow> Inl ''No valid x402 challenge found in headers or body''
                   | Inr entries \<Rightarrow> Inr entries)))"

lemma legacy_header_example:
  "parseLegacyHeader ''amount=\"0.5\"; asset=MOCK; Network = mock-network; payee=seller123'' =
     Some \<lparr>ac_scheme = ''exact'', ac_network = ''mock-network'', ac_asset = ''MOCK'', ac_amount = ''0.5'',
       ac_payTo = ''seller123'', ac_maxTimeoutSeconds = None\<rparr>"
  by code_simp

end
