(* ===== verification/Secretariat.thy ===== *)
theory Secretariat
  imports X402Parser ExecStore StandardTransport
begin

text \<open>
  The driver of \<^verbatim>\<open>zeus-secretariat/src/core/state-machine.ts\<close>, stage A: from a request to an
  operation that waits for an external signature. The class works on one mutable operation and on
  its stores; a method is an action on both, which may throw, and a thrown error keeps the changes
  made so far. The configured collaborators are functions in \<open>SecretariatConfig\<close>; \<open>now()\<close> is the
  argument \<open>t\<close> of one public call, random ids are arguments. A thrown error is its message, and a
  unique violation of the database is the message \<open>23505\<close>.
\<close>

section \<open>Configuration\<close>

record sec =
  sec_store :: mem_store
  sec_exec :: exec_store
  sec_cursors :: cursors

record DiscoveryResponse =
  dr_status :: int
  dr_statusText :: string
  dr_headers :: "string \<Rightarrow> string option"
  dr_entries :: "(string \<times> string) list"
  dr_body :: "exn + json"

record SigningContext =
  sx_operationId :: string
  sx_requirement :: PaymentRequirement
  sx_nonce :: string

record PaymentAuthorization =
  au_signature :: string
  au_scheme :: string
  au_timestamp :: int
  au_nonce :: string
  au_authorizer :: "string option"
  au_payTo :: "string option"
  au_value :: "string option"
  au_validAfter :: "int option"
  au_validBefore :: "int option"

record PaymentAuthorizationRequest =
  ar_operationId :: string
  ar_network :: string
  ar_asset :: string
  ar_payer :: string
  ar_payTo :: string
  ar_amount :: string
  ar_nonce :: string
  ar_validAfter :: int
  ar_validBefore :: int

record PaymentSignatureResult =
  sg_operationId :: string
  sg_payer :: string
  sg_nonce :: string
  sg_signature :: string
  sg_signedAt :: "int option"

record PaymentSigner =
  ps_getAddress :: "string option"
  ps_signPayment :: "PaymentAuthorizationRequest \<Rightarrow> exn + PaymentSignatureResult"

type_synonym adapter = "PaymentRequirement \<Rightarrow> PaymentSigner \<Rightarrow> SigningContext \<Rightarrow> exn + PaymentAuthorization"

record SecretariatConfig =
  cf_append :: "mem_store append_op"
  cf_save :: "Operation \<Rightarrow> mem_store \<Rightarrow> (exn + unit) \<times> mem_store"
  cf_findByClient :: "(string \<Rightarrow> string \<Rightarrow> mem_store \<Rightarrow> Operation option) option"
  cf_probe :: "string \<Rightarrow> string \<Rightarrow> string option \<Rightarrow> exn + DiscoveryResponse"
  cf_decode :: "string \<Rightarrow> json option"
  cf_parse :: "string \<Rightarrow> json option"
  cf_bundle :: "SettlementEvidence option \<Rightarrow> json"
  cf_keccak :: "string \<Rightarrow> string"
  cf_capabilitySources :: "(string \<Rightarrow> SellerCapabilities option) list"
  cf_signer :: "PaymentSigner option"
  cf_adapters :: "string \<Rightarrow> adapter option"
  cf_settlementAdapter :: "(DurablePaymentIntent \<Rightarrow> PaymentPayload \<Rightarrow> mem_store \<Rightarrow> (exn + SubmitResult) \<times> mem_store) option"
  cf_standardTransport :: "(DurablePaymentIntent \<Rightarrow> PaymentPayload \<Rightarrow> StandardTransportTarget \<Rightarrow> mem_store \<Rightarrow>
      (exn + SubmitResult) \<times> mem_store) option"
  cf_reconciliationEngine :: "(string \<Rightarrow> mem_store \<Rightarrow> (exn + ReconciliationOutcome) \<times> mem_store) option"
  cf_handoff :: "string \<Rightarrow> string \<Rightarrow> json \<Rightarrow> RecoveryJob \<Rightarrow> ExecutionAttempt \<Rightarrow> mem_store \<times> exec_store \<Rightarrow>
      (exn + bool) \<times> mem_store \<times> exec_store"
  cf_defaultPaymentTransport :: "PaymentTransport option"
  cf_evidencePersistenceRetries :: "int option"
  cf_maxExecutionAttempts :: "nat option"

section \<open>Actions on an operation\<close>

record sm =
  sm_op :: Operation
  sm_sec :: sec

type_synonym 'a act = "sm \<Rightarrow> (exn + 'a) \<times> sm"

definition ret :: "'a \<Rightarrow> 'a act" where "ret x s = (Inr x, s)"
definition throw :: "exn \<Rightarrow> 'a act" where "throw e s = (Inl e, s)"

definition bind_act :: "'a act \<Rightarrow> ('a \<Rightarrow> 'b act) \<Rightarrow> 'b act" where
  "bind_act m f s = (case m s of (Inl e, s') \<Rightarrow> (Inl e, s') | (Inr x, s') \<Rightarrow> f x s')"

definition catch_act :: "'a act \<Rightarrow> (exn \<Rightarrow> 'a act) \<Rightarrow> 'a act" where
  "catch_act m h s = (case m s of (Inl e, s') \<Rightarrow> h e s' | (Inr x, s') \<Rightarrow> (Inr x, s'))"

text \<open>One statement after the other.\<close>

fun steps :: "unit act list \<Rightarrow> unit act" where
  "steps [] s = (Inr (), s)"
| "steps (m # ms) s = (case m s of (Inl e, s') \<Rightarrow> (Inl e, s') | (Inr _, s') \<Rightarrow> steps ms s')"

definition upd :: "(Operation \<Rightarrow> Operation) \<Rightarrow> unit act" where
  "upd f s = (Inr (), s\<lparr>sm_op := f (sm_op s)\<rparr>)"

definition reading :: "(sm \<Rightarrow> 'a act) \<Rightarrow> 'a act" where
  "reading f s = f s s"

definition on_store :: "(mem_store \<Rightarrow> (exn + 'a) \<times> mem_store) \<Rightarrow> 'a act" where
  "on_store f s = (case f (sec_store (sm_sec s)) of (x, st') \<Rightarrow> (x, s\<lparr>sm_sec := (sm_sec s)\<lparr>sec_store := st'\<rparr>\<rparr>))"

definition record_ev :: "EvidencePhase \<Rightarrow> string \<Rightarrow> (string \<times> json) list \<Rightarrow> int \<Rightarrow> unit act" where
  "record_ev phase event payload t = upd (recordEvidence phase event (JObj payload) t)"

definition transition :: "OperationStatus \<Rightarrow> int \<Rightarrow> unit act" where
  "transition newState t s = (case transitionState newState t (sm_op s) of
     Inl e \<Rightarrow> (Inl e, s) | Inr opn \<Rightarrow> (Inr (), s\<lparr>sm_op := opn\<rparr>))"

text \<open>A computation on cursors and store, as an action.\<close>

definition on_cursors :: "(cursors \<Rightarrow> mem_store \<Rightarrow> (exn + 'a) \<times> cursors \<times> mem_store) \<Rightarrow> 'a act" where
  "on_cursors f s = (case f (sec_cursors (sm_sec s)) (sec_store (sm_sec s)) of
     (x, cs', st') \<Rightarrow> (x, s\<lparr>sm_sec := (sm_sec s)\<lparr>sec_store := st', sec_cursors := cs'\<rparr>\<rparr>))"

definition flush_attempts :: "SecretariatConfig \<Rightarrow> nat" where
  "flush_attempts cfg = evidenceFlushAttempts (cf_evidencePersistenceRetries cfg)"

definition flush :: "SecretariatConfig \<Rightarrow> unit act" where
  "flush cfg s = on_cursors (flushPendingEvidence (cf_append cfg) (flush_attempts cfg) (sm_op s)) s"

definition persist :: "SecretariatConfig \<Rightarrow> unit act" where
  "persist cfg s = on_cursors (persistOperation (cf_append cfg) (cf_save cfg) (flush_attempts cfg) (sm_op s)) s"

definition save_op :: "SecretariatConfig \<Rightarrow> unit act" where
  "save_op cfg s = on_store (cf_save cfg (sm_op s)) s"

section \<open>Results\<close>

datatype ExecutionResultStatus = Res_SUCCESS | Res_FAILED | Res_RECOVERED | Res_UNRESOLVABLE | Res_PENDING

record PersistenceError =
  pe_message :: string
  pe_pendingEvidenceCount :: nat
  pe_attempts :: nat

record ExecutionResult =
  res_operationId :: string
  res_status :: ExecutionResultStatus
  res_paymentStatus :: PaymentStatus
  res_executionStatus :: ExecutionStatus
  res_data :: json
  res_settlementProof :: "SettlementProof option"
  res_executionEvidence :: "ExecutionEvidence option"
  res_evidence :: "EvidenceRecord list"
  res_error :: "string option"
  res_persistenceError :: "PersistenceError option"

definition mapToFinalStatus :: "OperationStatus \<Rightarrow> ExecutionResultStatus" where
  "mapToFinalStatus state =
     (if state \<in> {Op_SUCCESS, Op_DELIVERED, Op_EXECUTION_CONFIRMED} then Res_SUCCESS
      else if state = Op_RECOVERED then Res_RECOVERED
      else if state = Op_UNRESOLVABLE then Res_UNRESOLVABLE
      else if state \<in> {Op_FAILED, Op_POLICY_REJECTED, Op_SETTLEMENT_FAILED} then Res_FAILED
      else Res_PENDING)"

definition buildResult :: "Operation \<Rightarrow> ExecutionResult" where
  "buildResult opn =
     \<lparr>res_operationId = op_operationId opn, res_status = mapToFinalStatus (op_currentState opn),
      res_paymentStatus = op_paymentState opn, res_executionStatus = op_executionState opn,
      res_data = op_resultData opn, res_settlementProof = op_settlementProof opn,
      res_executionEvidence = op_executionEvidence opn, res_evidence = op_evidence opn,
      res_error = op_error opn, res_persistenceError = None\<rparr>"

definition op_stamp :: "(OpTimestamps \<Rightarrow> OpTimestamps) \<Rightarrow> Operation \<Rightarrow> Operation" where
  "op_stamp f opn = opn\<lparr>op_timestamps := f (op_timestamps opn)\<rparr>"

text \<open>
  The failure result is built before the snapshot and the flush; a failing snapshot is ignored, a
  failing flush is added to the result beside the original error.
\<close>

definition failOperation :: "SecretariatConfig \<Rightarrow> OperationStatus \<Rightarrow> string \<Rightarrow> int \<Rightarrow> sm \<Rightarrow> ExecutionResult \<times> sm" where
  "failOperation cfg status err t s =
     (let opn = recordEvidence FINAL ''OPERATION_FAILED'' (JObj [(''status'', JStr (op_name status)), (''error'', JStr err)]) t
                 (op_stamp (\<lambda>ts. ts\<lparr>ts_failedAt := Some t, ts_updatedAt := t\<rparr>)
                    ((sm_op s)\<lparr>op_currentState := status, op_error := Some err\<rparr>));
          s1 = snd (save_op cfg (s\<lparr>sm_op := opn\<rparr>))
      in case flush cfg s1 of
           (Inr _, s2) \<Rightarrow> (buildResult opn, s2)
         | (Inl e, s2) \<Rightarrow>
             ((buildResult opn)\<lparr>res_persistenceError := Some
                \<lparr>pe_message = e,
                 pe_pendingEvidenceCount = length (op_evidence opn) - opt_default 0 (js_get (sec_cursors (sm_sec s2)) (op_operationId opn)),
                 pe_attempts = flush_attempts cfg\<rparr>\<rparr>, s2))"

section \<open>JSON text\<close>

text \<open>\<open>JSON.stringify\<close>: fields that are \<open>undefined\<close> are left out, such array entries read \<open>null\<close>.\<close>

fun drop_undefined :: "json \<Rightarrow> json" where
  "drop_undefined (JArr vs) = JArr (map (\<lambda>v. if v = JUndefined then JNull else drop_undefined v) vs)"
| "drop_undefined (JObj kvs) = JObj (map (\<lambda>(k, v). (k, drop_undefined v)) (filter (\<lambda>(k, v). v \<noteq> JUndefined) kvs))"
| "drop_undefined v = v"

definition JSON_stringify :: "json \<Rightarrow> string" where
  "JSON_stringify v = plain_text (drop_undefined v)"

section \<open>Discovery\<close>

definition createOperation :: "string \<Rightarrow> string \<Rightarrow> ExecuteRequest \<Rightarrow> int \<Rightarrow> Operation" where
  "createOperation operationId requestId r t =
     recordEvidence FINAL ''OPERATION_CREATED''
       (JObj [(''requestId'', JStr requestId), (''target'', JStr (xr_target r)), (''method'', JStr (xr_method r))]) t
     \<lparr>op_operationId = operationId, op_requestId = requestId, op_clientId = xr_clientId r,
      op_target = xr_target r, op_method = xr_method r, op_requestPayload = xr_payload r,
      op_paymentPolicy = xr_policy r, op_sellerCapability = None, op_paymentState = Pay_NOT_STARTED,
      op_executionState = Ex_NOT_STARTED, op_deliveryState = Del_NOT_STARTED, op_currentState = Op_CREATED,
      op_timestamps = \<lparr>ts_createdAt = t, ts_updatedAt = t, ts_discoveryStartedAt = None, ts_paymentRequiredAt = None,
        ts_authorizedAt = None, ts_paymentSubmittedAt = None, ts_settledAt = None, ts_executionConfirmedAt = None,
        ts_deliveredAt = None, ts_completedAt = None, ts_failedAt = None\<rparr>,
      op_evidence = [], op_resultData = JUndefined, op_settlementProof = None, op_executionEvidence = None, op_error = None\<rparr>"

fun cap_name :: "RecoveryCapability \<Rightarrow> string" where
  "cap_name Cap_NONE = ''NONE''"
| "cap_name Cap_EXECUTION_IDEMPOTENT = ''EXECUTION_IDEMPOTENT''"
| "cap_name Cap_RESULT_RETRIEVAL = ''RESULT_RETRIEVAL''"
| "cap_name Cap_SIGNED_RECEIPT = ''SIGNED_RECEIPT''"

definition capability_json :: "SellerCapabilities option \<Rightarrow> json" where
  "capability_json c = (case c of None \<Rightarrow> JUndefined
     | Some x \<Rightarrow> JObj [(''recoveryCapability'', JStr (cap_name (sc_recoveryCapability x))),
         (''resultRetrievalEndpoint'', opt_str (sc_resultRetrievalEndpoint x)),
         (''idempotencyHeader'', opt_str (sc_idempotencyHeader x))])"

definition handlePaymentRequired :: "SecretariatConfig \<Rightarrow> DiscoveryResponse \<Rightarrow> int \<Rightarrow> unit act" where
  "handlePaymentRequired cfg resp t = steps
     [transition Op_PAYMENT_REQUIRED t,
      upd (op_stamp (\<lambda>ts. ts\<lparr>ts_paymentRequiredAt := Some t\<rparr>)),
      (case parseResponse (cf_decode cfg) (dr_headers resp) (dr_body resp) of
         Inl e \<Rightarrow> throw e
       | Inr [] \<Rightarrow> throw ''No valid x402 accepts found''
       | Inr (a # as) \<Rightarrow>
           (if nullish a then throw ''TypeError: Cannot read properties of null''
            else steps
              [record_ev DISCOVERY ''PAYMENT_REQUIREMENT_RECEIVED''
                 [(''requirement'', requirement_json (acceptToRequirement (accept_of_json a) t))] t,
               upd (resolveAndSnapshot (cf_capabilitySources cfg) (Some (dr_headers resp))),
               reading (\<lambda>s. record_ev DISCOVERY ''SELLER_CAPABILITIES_DISCOVERED''
                 [(''capabilities'', capability_json (op_sellerCapability (sm_op s)))] t)]))]"

definition handleDirectSuccess :: "DiscoveryResponse \<Rightarrow> int \<Rightarrow> unit act" where
  "handleDirectSuccess resp t =
     (let body = (case dr_body resp of Inl _ \<Rightarrow> JNull | Inr v \<Rightarrow> v) in steps
     [upd (\<lambda>opn. opn\<lparr>op_resultData := body, op_executionState := Ex_CONFIRMED, op_deliveryState := Del_DELIVERED,
        op_executionEvidence := Some \<lparr>ee_statusCode = dr_status resp, ee_headers = Some (dr_entries resp), ee_body = body,
          ee_timestamp = t, ee_source = HTTP_RESPONSE, ee_rawData = JUndefined\<rparr>\<rparr>),
      transition Op_SUCCESS t,
      upd (op_stamp (\<lambda>ts. ts\<lparr>ts_completedAt := Some t\<rparr>)),
      record_ev FINAL ''DIRECT_SUCCESS'' [(''statusCode'', JNum (dr_status resp))] t])"

definition discoveryPhase :: "SecretariatConfig \<Rightarrow> int \<Rightarrow> unit act" where
  "discoveryPhase cfg t = steps
     [transition Op_DISCOVERING t,
      reading (\<lambda>s. record_ev DISCOVERY ''DISCOVERY_STARTED'' [(''target'', JStr (op_target (sm_op s)))] t),
      catch_act
        (reading (\<lambda>s.
           let opn = sm_op s;
               body = (if \<not> bodyless (toUpperCase (op_method opn)) \<and> json_truthy (op_requestPayload opn)
                       then Some (JSON_stringify (op_requestPayload opn)) else None)
           in case cf_probe cfg (op_target opn) (op_method opn) body of
                Inl e \<Rightarrow> throw e
              | Inr resp \<Rightarrow>
                  (if dr_status resp = 402 then handlePaymentRequired cfg resp t
                   else if 200 \<le> dr_status resp \<and> dr_status resp \<le> 299 then handleDirectSuccess resp t
                   else throw (''HTTP '' @ string_of_int (dr_status resp) @ '': '' @ dr_statusText resp))))
        (\<lambda>e. steps [record_ev DISCOVERY ''DISCOVERY_ERROR'' [(''error'', JStr e)] t, throw e])]"

definition validatePolicy_act :: "int \<Rightarrow> bool act" where
  "validatePolicy_act t s = (case validatePolicy t (sm_op s) of (x, opn) \<Rightarrow> (x, s\<lparr>sm_op := opn\<rparr>))"

section \<open>The pending payment intent\<close>

definition pending_payload :: "string \<Rightarrow> Operation \<Rightarrow> string \<Rightarrow> PaymentRequirement \<Rightarrow> string \<Rightarrow> int \<Rightarrow> int \<Rightarrow> string" where
  "pending_payload status opn authorizer req nonce validAfter validBefore = JSON_stringify (JObj
     [(''status'', JStr status), (''operationId'', JStr (op_operationId opn)), (''authorizer'', JStr authorizer),
      (''payTo'', JStr (req_payee req)), (''value'', JStr (req_amount req)), (''asset'', JStr (req_asset req)),
      (''network'', JStr (req_network req)), (''nonce'', JStr nonce), (''validAfter'', JNum validAfter), (''validBefore'', JNum validBefore)])"

definition new_intent :: "(string \<Rightarrow> string) \<Rightarrow> string \<Rightarrow> Operation \<Rightarrow> string \<Rightarrow> PaymentRequirement \<Rightarrow> string \<Rightarrow> int \<Rightarrow> int \<Rightarrow>
    string \<Rightarrow> SettlementState \<Rightarrow> int \<Rightarrow> DurablePaymentIntent" where
  "new_intent keccak paymentIntentId opn authorizer req nonce validAfter validBefore payload state t =
     \<lparr>pi_paymentIntentId = paymentIntentId, pi_operationId = op_operationId opn, pi_requestId = Some (op_requestId opn),
      pi_clientId = op_clientId opn, pi_authorizer = authorizer, pi_payer = None, pi_payTo = req_payee req,
      pi_value = req_amount req, pi_asset = req_asset req, pi_network = req_network req, pi_nonce = nonce,
      pi_validAfter = validAfter, pi_validBefore = validBefore, pi_paymentPayload = payload,
      pi_paymentPayloadHash = keccak payload, pi_settlementState = state, pi_txHash = None,
      pi_facilitatorHttpStatus = None, pi_facilitatorResponseBody = JUndefined, pi_errorReason = None,
      pi_submitAttemptAt = None, pi_settledAt = None, pi_notSettledAt = None, pi_reconciliationObservations = [],
      pi_settledEvidenceBundle = None, pi_notSettledEvidenceBundle = None, pi_probeCount = None, pi_nextProbeAt = None,
      pi_createdAt = t, pi_updatedAt = t\<rparr>"

definition createPendingPaymentIntent ::
    "SecretariatConfig \<Rightarrow> ExecuteRequest \<Rightarrow> PaymentRequirement \<Rightarrow> string \<Rightarrow> string \<Rightarrow> int \<Rightarrow> DurablePaymentIntent act" where
  "createPendingPaymentIntent cfg r req intentUuid nonce t =
     (case requireNonEmpty (xr_authorizer r) ''authorizer'' of
        Inl e \<Rightarrow> throw e
      | Inr authorizer \<Rightarrow>
          (let validAfter = t div 1000; validBefore = toEpochSeconds (req_deadline req) t
           in if validBefore \<le> validAfter
              then throw ''Invalid payment authorization: validBefore must be after validAfter''
              else reading (\<lambda>s.
                let intent = new_intent (cf_keccak cfg) (generatePaymentIntentId t intentUuid) (sm_op s) authorizer req nonce
                      validAfter validBefore (pending_payload ''PENDING_SIGNATURE'' (sm_op s) authorizer req nonce validAfter validBefore)
                      St_PENDING_SIGNATURE t
                in bind_act (steps
                     [on_store (createIntentWithNonce intent authorizer t),
                      transition Op_AWAITING_SIGNATURE t,
                      upd (op_stamp (\<lambda>ts. ts\<lparr>ts_paymentRequiredAt := Some (opt_default t (ts_paymentRequiredAt ts))\<rparr>)),
                      persist cfg])
                   (\<lambda>_. ret intent))))"

section \<open>Stage A\<close>

datatype StageAPreparation =
    SA_AWAITING_SIGNATURE Operation PaymentRequirement DurablePaymentIntent
  | SA_PAYMENT_REQUIRED Operation PaymentRequirement
  | SA_COMPLETED Operation ExecutionResult
  | SA_REJECTED Operation ExecutionResult
  | SA_EXISTING Operation ExecutionResult

definition seed_cursor :: "Operation \<Rightarrow> sec \<Rightarrow> sec" where
  "seed_cursor opn c = c\<lparr>sec_cursors := seedEvidenceCursor getEvidence (op_operationId opn) (sec_cursors c) (sec_store c)\<rparr>"

definition findExistingOperation :: "SecretariatConfig \<Rightarrow> string option \<Rightarrow> string \<Rightarrow> sec \<Rightarrow> Operation option \<times> sec" where
  "findExistingOperation cfg clientId requestId c =
     (let byClient = (case (truthy clientId, cf_findByClient cfg) of
            (True, Some look) \<Rightarrow> look (the clientId) requestId (sec_store c) | _ \<Rightarrow> None)
      in case or_else byClient (getOperationByRequestId (sec_store c) requestId None) of
           None \<Rightarrow> (None, c)
         | Some opn \<Rightarrow> (Some opn, seed_cursor opn c))"

definition existing_operation :: "Operation \<Rightarrow> sec \<Rightarrow> StageAPreparation" where
  "existing_operation existing c =
     (let dpi = getPaymentIntentByOperationId (sec_store c) (op_operationId existing);
          requirement = or_else (getPaymentRequirementFromEvidence existing) (map_option requirementFromIntent dpi)
      in case (op_currentState existing = Op_AWAITING_SIGNATURE, dpi, requirement) of
           (True, Some i, Some req) \<Rightarrow> SA_AWAITING_SIGNATURE existing req i
         | _ \<Rightarrow> SA_EXISTING existing (buildResult existing))"

record fresh_ids =
  fi_operation :: string
  fi_request :: string
  fi_intent :: string
  fi_nonce :: string
  fi_probe :: string
  fi_job :: string
  fi_attempt :: string

text \<open>After the operation exists: discovery, policy, pending intent.\<close>

definition stage_a_body :: "SecretariatConfig \<Rightarrow> ExecuteRequest \<Rightarrow> bool \<Rightarrow> fresh_ids \<Rightarrow> int \<Rightarrow> StageAPreparation act" where
  "stage_a_body cfg r persistPendingIntent ids t =
     bind_act (discoveryPhase cfg t) (\<lambda>_. reading (\<lambda>s.
       if op_currentState (sm_op s) \<noteq> Op_PAYMENT_REQUIRED
       then bind_act (persist cfg) (\<lambda>_. reading (\<lambda>s. ret (SA_COMPLETED (sm_op s) (buildResult (sm_op s)))))
       else bind_act (validatePolicy_act t) (\<lambda>policyValid.
         if \<not> policyValid
         then (\<lambda>s. case failOperation cfg Op_POLICY_REJECTED ''Payment policy validation failed'' t s of
                 (res, s') \<Rightarrow> (Inr (SA_REJECTED (sm_op s') res), s'))
         else reading (\<lambda>s. case getPaymentRequirementFromEvidence (sm_op s) of
             None \<Rightarrow> throw ''No payment requirement found after discovery''
           | Some req \<Rightarrow>
               (if \<not> persistPendingIntent then ret (SA_PAYMENT_REQUIRED (sm_op s) req)
                else bind_act (createPendingPaymentIntent cfg r req (fi_intent ids) (fi_nonce ids) t)
                       (\<lambda>intent. reading (\<lambda>s. ret (SA_AWAITING_SIGNATURE (sm_op s) req intent))))))))"

text \<open>The first snapshot may lose the race for a logical request; then the winner is resolved.\<close>

definition first_persist :: "SecretariatConfig \<Rightarrow> ExecuteRequest \<Rightarrow> bool \<Rightarrow> string \<Rightarrow> StageAPreparation option act" where
  "first_persist cfg r derived requestId = catch_act (bind_act (persist cfg) (\<lambda>_. ret None))
     (\<lambda>e s. if e = ''23505'' \<and> truthy (xr_clientId r)
       then (case findExistingOperation cfg (xr_clientId r) requestId (sm_sec s) of
               (None, c) \<Rightarrow> (Inl e, s\<lparr>sm_sec := c\<rparr>)
             | (Some resolved, c) \<Rightarrow>
                 (case assertNoLogicalRequestCollision derived r resolved requestId of
                    Inl e' \<Rightarrow> (Inl e', s\<lparr>sm_sec := c\<rparr>)
                  | Inr _ \<Rightarrow> (Inr (Some (SA_EXISTING resolved (buildResult resolved))), s\<lparr>sm_sec := c\<rparr>)))
       else (Inl e, s))"

definition prepareStageA :: "SecretariatConfig \<Rightarrow> ExecuteRequest \<Rightarrow> bool \<Rightarrow> fresh_ids \<Rightarrow> int \<Rightarrow> sec \<Rightarrow> (exn + StageAPreparation) \<times> sec" where
  "prepareStageA cfg r persistPendingIntent ids t c0 =
     (let requestId = resolveLogicalRequestId r t (fi_request ids);
          derived = (\<not> truthy (xr_requestId r) \<and> truthy (xr_clientId r))
      in case findExistingOperation cfg (xr_clientId r) requestId c0 of
           (Some existing, c) \<Rightarrow>
             (case assertNoLogicalRequestCollision derived r existing requestId of
                Inl e \<Rightarrow> (Inl e, c)
              | Inr _ \<Rightarrow> (Inr (existing_operation existing c), c))
         | (None, c) \<Rightarrow>
             (let opn = createOperation (generateOperationId t (fi_operation ids)) requestId r t;
                  s0 = \<lparr>sm_op = opn, sm_sec = c\<lparr>sec_cursors := js_set (op_operationId opn) 0 (sec_cursors c)\<rparr>\<rparr>
              in case bind_act (first_persist cfg r derived requestId)
                        (\<lambda>won. case won of Some p \<Rightarrow> ret p | None \<Rightarrow> stage_a_body cfg r persistPendingIntent ids t) s0 of
                   (Inr p, s) \<Rightarrow> (Inr p, sm_sec s)
                 | (Inl e, s) \<Rightarrow>
                     (case failOperation cfg Op_FAILED e t s of (res, s') \<Rightarrow> (Inr (SA_REJECTED (sm_op s') res), sm_sec s'))))"

text \<open>The answer carries the whole intent here; the code picks ten of its fields.\<close>

record AwaitingSignature =
  aw_requestId :: string
  aw_operationId :: string
  aw_paymentRequired :: PaymentRequirement
  aw_paymentIntent :: DurablePaymentIntent

datatype CreateRequestResult =
    CR_AWAITING_PAYMENT_SIGNATURE AwaitingSignature
  | CR_COMPLETED ExecutionResult
  | CR_REJECTED ExecutionResult

definition buildAwaitingSignatureResult :: "Operation \<Rightarrow> DurablePaymentIntent \<Rightarrow> PaymentRequirement \<Rightarrow> CreateRequestResult" where
  "buildAwaitingSignatureResult opn intent req = CR_AWAITING_PAYMENT_SIGNATURE
     \<lparr>aw_requestId = op_requestId opn, aw_operationId = op_operationId opn, aw_paymentRequired = req, aw_paymentIntent = intent\<rparr>"

definition createRequest :: "SecretariatConfig \<Rightarrow> ExecuteRequest \<Rightarrow> fresh_ids \<Rightarrow> int \<Rightarrow> sec \<Rightarrow> (exn + CreateRequestResult) \<times> sec" where
  "createRequest cfg r ids t c =
     (case prepareStageA cfg r True ids t c of
        (Inl e, c') \<Rightarrow> (Inl e, c')
      | (Inr (SA_AWAITING_SIGNATURE opn req intent), c') \<Rightarrow> (Inr (buildAwaitingSignatureResult opn intent req), c')
      | (Inr (SA_REJECTED opn res), c') \<Rightarrow> (Inr (CR_REJECTED res), c')
      | (Inr (SA_PAYMENT_REQUIRED opn req), c') \<Rightarrow> (Inr (CR_COMPLETED (buildResult opn)), c')
      | (Inr (SA_COMPLETED opn res), c') \<Rightarrow> (Inr (CR_COMPLETED res), c')
      | (Inr (SA_EXISTING opn res), c') \<Rightarrow> (Inr (CR_COMPLETED res), c'))"

end
