(* ===== verification/StageB.thy ===== *)
theory StageB
  imports Secretariat
begin

text \<open>
  The rest of the driver of \<^verbatim>\<open>zeus-secretariat/src/core/state-machine.ts\<close>: stage B takes an externally
  signed payload, binds it to the durable intent, submits it and observes the settlement; and the
  hand-over to execution.
\<close>

section \<open>Numbers in text\<close>

definition octal_value :: "char \<Rightarrow> int option" where
  "octal_value c = (case digit_value c of Some d \<Rightarrow> if d < 8 then Some d else None | None \<Rightarrow> None)"

definition binary_value :: "char \<Rightarrow> int option" where
  "binary_value c = (case digit_value c of Some d \<Rightarrow> if d < 2 then Some d else None | None \<Rightarrow> None)"

definition prefixed :: "(char \<Rightarrow> int option) \<Rightarrow> int \<Rightarrow> string \<Rightarrow> int option" where
  "prefixed val b ds = (if ds = [] then None else read_digits val b 0 ds)"

text \<open>The exponent part: none, or \<open>e\<close> with an optional sign and digits.\<close>

definition exponent :: "string \<Rightarrow> int option" where
  "exponent r =
     (case r of [] \<Rightarrow> Some 0
      | c # ds \<Rightarrow>
          (if c \<noteq> CHR ''e'' \<and> c \<noteq> CHR ''E'' then None
           else (case ds of
                   [] \<Rightarrow> None
                 | d # ds' \<Rightarrow> if d = CHR ''-'' then map_option uminus (prefixed digit_value 10 ds')
                              else if d = CHR ''+'' then prefixed digit_value 10 ds' else prefixed digit_value 10 ds)))"

definition unsigned_decimal :: "string \<Rightarrow> jsnum" where
  "unsigned_decimal u =
     (let a = takeWhile digit_char u; r = dropWhile digit_char u;
          dot = (r \<noteq> [] \<and> hd r = CHR ''.'');
          f = (if dot then takeWhile digit_char (tl r) else []);
          r' = (if dot then dropWhile digit_char (tl r) else r)
      in if a @ f = [] then None
         else (case exponent r' of
                 None \<Rightarrow> None
               | Some e \<Rightarrow>
                   (let m = digits_num (a @ f); k = e - int (length f)
                    in if 0 \<le> k then Some (m * 10 ^ nat k)
                       else if m mod 10 ^ nat (- k) = 0 then Some (m div 10 ^ nat (- k)) else None)))"

text \<open>
  \<open>Number(text)\<close> as it is compared with an integer: the exact value when it is one, \<open>None\<close> for
  \<open>NaN\<close>, infinities and non-integers, none of which equals an integer. Precision is not limited to
  53 bits.
\<close>

definition Number_text :: "string \<Rightarrow> jsnum" where
  "Number_text s0 =
     (let s = trim s0; p = map to_lower_char (take 2 s) in
      if s = [] then Some 0
      else if p = ''0x'' then prefixed hex_value 16 (drop 2 s)
      else if p = ''0o'' then prefixed octal_value 8 (drop 2 s)
      else if p = ''0b'' then prefixed binary_value 2 (drop 2 s)
      else if hd s = CHR ''-'' then map_option uminus (unsigned_decimal (tl s))
      else if hd s = CHR ''+'' then unsigned_decimal (tl s)
      else unsigned_decimal s)"

fun js_Number :: "json \<Rightarrow> jsnum" where
  "js_Number JUndefined = None"
| "js_Number JNull = Some 0"
| "js_Number (JBool b) = Some (if b then 1 else 0)"
| "js_Number (JNum n) = Some n"
| "js_Number (JStr s) = Number_text s"
| "js_Number (JArr vs) = Number_text (js_String (JArr vs))"
| "js_Number (JObj kvs) = None"

section \<open>The check of an external payload\<close>

definition same_text :: "json \<Rightarrow> string \<Rightarrow> bool" where
  "same_text left right = (toLowerCase (js_String left) = toLowerCase right)"

definition payload_matches :: "json \<Rightarrow> DurablePaymentIntent \<Rightarrow> PaymentRequirement \<Rightarrow> bool" where
  "payload_matches p i req =
     (let accepted = json_field p ''accepted'';
          authorization = json_field (json_field p ''payload'') ''authorization''
      in same_text (json_field accepted ''network'') (pi_network i) \<and> same_text (json_field accepted ''asset'') (pi_asset i) \<and>
         same_text (json_field accepted ''amount'') (pi_value i) \<and> same_text (json_field accepted ''payTo'') (pi_payTo i) \<and>
         same_text (json_field authorization ''from'') (pi_authorizer i) \<and> same_text (json_field authorization ''to'') (pi_payTo i) \<and>
         same_text (json_field authorization ''value'') (pi_value i) \<and> same_text (json_field authorization ''nonce'') (pi_nonce i) \<and>
         js_Number (json_field authorization ''validAfter'') = Some (pi_validAfter i) \<and>
         js_Number (json_field authorization ''validBefore'') = Some (pi_validBefore i) \<and>
         same_text (JStr (req_network req)) (pi_network i) \<and> same_text (JStr (req_asset req)) (pi_asset i) \<and>
         same_text (JStr (req_amount req)) (pi_value i) \<and> same_text (JStr (req_payee req)) (pi_payTo i))"

definition validateExternalPaymentPayload :: "json \<Rightarrow> DurablePaymentIntent \<Rightarrow> PaymentRequirement \<Rightarrow> exn + unit" where
  "validateExternalPaymentPayload p i req =
     (let authorization = json_field (json_field p ''payload'') ''authorization'' in
      if json_field p ''x402Version'' \<noteq> JNum 2 \<or> \<not> json_truthy authorization \<or>
         \<not> json_truthy (json_field (json_field p ''payload'') ''signature'')
      then Inl ''INVALID_PAYMENT_PAYLOAD''
      else if nullish (json_field p ''accepted'') then Inl ''TypeError: Cannot read properties of undefined''
      else if \<not> payload_matches p i req then Inl ''PAYMENT_PAYLOAD_BINDING_MISMATCH''
      else Inr ())"

section \<open>What is read back from the evidence\<close>

definition first_payload :: "EvidencePhase \<Rightarrow> string \<Rightarrow> Operation \<Rightarrow> json option" where
  "first_payload phase event opn =
     (case find (\<lambda>e. ev_phase e = phase \<and> ev_event e = event) (op_evidence opn) of
        None \<Rightarrow> None
      | Some e \<Rightarrow> (case ev_payload e of JObj kvs \<Rightarrow> Some (JObj kvs) | _ \<Rightarrow> None))"

text \<open>Signature and scheme of an authorization.\<close>

definition getAuthorizationFromEvidence :: "Operation \<Rightarrow> (string \<times> string) option" where
  "getAuthorizationFromEvidence opn =
     (case first_payload PAYMENT ''PAYMENT_AUTHORIZED'' opn of
        None \<Rightarrow> None
      | Some p \<Rightarrow>
          (let a = json_field (json_field p ''intent'') ''authorization''
           in if nullish a then None
              else Some (js_String (json_field a ''signature''), first_field a [''scheme''] [])))"

definition authorizationFromDurableIntent :: "(string \<Rightarrow> json option) \<Rightarrow> DurablePaymentIntent \<Rightarrow> (string \<times> string) option" where
  "authorizationFromDurableIntent parse i =
     (if pi_paymentPayload i = [] then None
      else (case parse (pi_paymentPayload i) of
              None \<Rightarrow> None
            | Some v \<Rightarrow>
                (let signature = json_field (json_field v ''payload'') ''signature'';
                     scheme = json_field (json_field v ''accepted'') ''scheme''
                 in if json_truthy signature
                    then Some (js_String signature, if json_truthy scheme then js_String scheme else ''exact'') else None)))"

definition authorization_json :: "PaymentAuthorization \<Rightarrow> PaymentRequirement \<Rightarrow> string \<Rightarrow> json" where
  "authorization_json a req opId = JObj
     ([(''signature'', JStr (au_signature a)), (''scheme'', JStr (au_scheme a)), (''timestamp'', JNum (au_timestamp a)),
       (''context'', JObj [(''operationId'', JStr opId), (''requirement'', requirement_json req), (''nonce'', JStr (au_nonce a))]),
       (''authorizer'', opt_str (au_authorizer a)), (''payTo'', opt_str (au_payTo a)), (''value'', opt_str (au_value a))] @
      opt_num ''validAfter'' (au_validAfter a) @ opt_num ''validBefore'' (au_validBefore a))"

definition payment_intent_json :: "Operation \<Rightarrow> PaymentRequirement \<Rightarrow> string \<Rightarrow> string \<Rightarrow> string \<Rightarrow> PaymentAuthorization \<Rightarrow> int \<Rightarrow> json" where
  "payment_intent_json opn req amount asset network a createdAt = JObj
     [(''operationId'', JStr (op_operationId opn)), (''requirement'', requirement_json req), (''amount'', JStr amount),
      (''asset'', JStr asset), (''network'', JStr network), (''authorization'', authorization_json a req (op_operationId opn)),
      (''createdAt'', JNum createdAt), (''status'', JStr ''AUTHORIZED'')]"

section \<open>Submission\<close>

definition resolvePaymentTransport :: "SecretariatConfig \<Rightarrow> Operation \<Rightarrow> PaymentTransport" where
  "resolvePaymentTransport cfg opn =
     opt_default (opt_default Zeus (cf_defaultPaymentTransport cfg)) (pol_transport (op_paymentPolicy opn))"

definition v2_payload :: "DurablePaymentIntent \<Rightarrow> string \<times> string \<Rightarrow> PaymentPayload" where
  "v2_payload i auth =
     \<lparr>pp_x402Version = 2, pp_resource = None,
      pp_accepted = \<lparr>pa_scheme = (if snd auth = [] then ''exact'' else snd auth), pa_network = pi_network i, pa_amount = pi_value i,
        pa_asset = pi_asset i, pa_payTo = pi_payTo i,
        pa_maxTimeoutSeconds = (if 0 < pi_validBefore i \<and> 0 \<le> pi_validAfter i then pi_validBefore i - pi_validAfter i else 300),
        pa_extra = None\<rparr>,
      pp_signature = fst auth,
      pp_authorization = \<lparr>ta_from = pi_authorizer i, ta_to = pi_payTo i, ta_value = pi_value i,
        ta_validAfter = string_of_int (pi_validAfter i), ta_validBefore = string_of_int (pi_validBefore i), ta_nonce = pi_nonce i\<rparr>,
      pp_extensions = None\<rparr>"

definition standard_payload :: "Operation \<Rightarrow> PaymentPayload \<Rightarrow> PaymentPayload" where
  "standard_payload opn p = p\<lparr>pp_resource := Some \<lparr>rs_url = op_target opn, rs_description = None, rs_mimeType = None\<rparr>,
     pp_accepted := (pp_accepted p)\<lparr>pa_maxTimeoutSeconds := opt_default (pa_maxTimeoutSeconds (pp_accepted p))
       (Option.bind (getPaymentRequirementFromEvidence opn) req_maxTimeoutSeconds)\<rparr>\<rparr>"

definition standard_target :: "Operation \<Rightarrow> StandardTransportTarget" where
  "standard_target opn = \<lparr>tt_url = op_target opn, tt_method = op_method opn,
     tt_body = (if \<not> bodyless (toUpperCase (op_method opn)) \<and> op_requestPayload opn \<noteq> JUndefined
                then Some (JSON_stringify (op_requestPayload opn)) else None)\<rparr>"

text \<open>The record of the paid call is kept as execution evidence.\<close>

definition keep_paid_answer :: "SubmitResult \<Rightarrow> Operation \<Rightarrow> Operation" where
  "keep_paid_answer result opn =
     (case result of
        Sub_SUBMITTED tx marker \<Rightarrow>
          (if isStandardPaidCallRecord marker
           then opn\<lparr>op_resultData := (if nullish (json_field marker ''sellerBody'') then JUndefined else json_field marker ''sellerBody''),
                    op_executionEvidence := Some \<lparr>ee_statusCode = num_field marker ''sellerHttpStatus'', ee_headers = None,
                      ee_body = json_field marker ''sellerBody'', ee_timestamp = num_field marker ''capturedAt'',
                      ee_source = STANDARD_TRANSPORT, ee_rawData = JUndefined\<rparr>\<rparr>
           else opn)
      | _ \<Rightarrow> opn)"

definition paid_call_note :: "SubmitResult \<Rightarrow> (string \<times> json) list" where
  "paid_call_note result =
     (let status = (\<lambda>m. if isStandardPaidCallRecord m then json_field m ''sellerHttpStatus'' else JUndefined) in
      case result of
        Sub_SUBMITTED tx m \<Rightarrow> [(''verdict'', JStr ''SUBMITTED''), (''sellerHttpStatus'', status m), (''transactionHash'', JStr tx)]
      | Sub_REJECTED reason m \<Rightarrow> [(''verdict'', JStr ''REJECTED''), (''sellerHttpStatus'', status m), (''reason'', JStr reason)]
      | Sub_UNKNOWN e \<Rightarrow> [(''verdict'', JStr ''UNKNOWN''), (''sellerHttpStatus'', JUndefined), (''error'', JStr e)])"

definition send_payment :: "SecretariatConfig \<Rightarrow> DurablePaymentIntent \<Rightarrow> PaymentPayload \<Rightarrow> int \<Rightarrow> SubmitResult act" where
  "send_payment cfg dpi p t = reading (\<lambda>s.
     (case resolvePaymentTransport cfg (sm_op s) of
        Standard \<Rightarrow>
          (case cf_standardTransport cfg of
             None \<Rightarrow> throw ''Standard x402 transport requested (policy.transport=\"standard\") but no standardTransport is configured''
           | Some transport \<Rightarrow>
               bind_act (on_store (transport dpi (standard_payload (sm_op s) p) (standard_target (sm_op s))))
                 (\<lambda>result. bind_act (steps [upd (keep_paid_answer result), record_ev PAYMENT ''STANDARD_PAID_CALL'' (paid_call_note result) t])
                    (\<lambda>_. ret result)))
      | Zeus \<Rightarrow>
          (case cf_settlementAdapter cfg of
             None \<Rightarrow> throw (''No settlementAdapter configured '' @ mdash @ '' required for V2 payment submission'')
           | Some submitter \<Rightarrow> on_store (submitter dpi p))))"

definition submitPayment :: "SecretariatConfig \<Rightarrow> int \<Rightarrow> unit act" where
  "submitPayment cfg t = steps
     [transition Op_PAYMENT_SUBMITTED t,
      upd (op_stamp (\<lambda>ts. ts\<lparr>ts_paymentSubmittedAt := Some t\<rparr>)),
      reading (\<lambda>s.
        case getPaymentIntentByOperationId (sec_store (sm_sec s)) (op_operationId (sm_op s)) of
          None \<Rightarrow> throw (''No DurablePaymentIntent found for submission '' @ mdash @ '' B.1 persistence required'')
        | Some dpi \<Rightarrow>
            (case or_else (getAuthorizationFromEvidence (sm_op s)) (authorizationFromDurableIntent (cf_parse cfg) dpi) of
               None \<Rightarrow> throw ''No payment authorization found for submission''
             | Some auth \<Rightarrow>
                 bind_act (send_payment cfg dpi (v2_payload dpi auth) t) (\<lambda>result.
                   case result of
                     Sub_REJECTED reason raw \<Rightarrow>
                       steps [record_ev PAYMENT ''PAYMENT_SUBMISSION_FAILED'' [(''error'', JStr reason)] t, throw reason]
                   | Sub_UNKNOWN e \<Rightarrow>
                       steps [record_ev PAYMENT ''PAYMENT_SUBMISSION_UNKNOWN'' [(''error'', JStr e)] t,
                              upd (\<lambda>opn. opn\<lparr>op_paymentState := Pay_SUBMITTED\<rparr>)]
                   | Sub_SUBMITTED tx raw \<Rightarrow>
                       steps [record_ev PAYMENT ''PAYMENT_SUBMITTED'' [(''transactionHash'', JStr tx), (''rawData'', raw)] t,
                              upd (\<lambda>opn. opn\<lparr>op_paymentState := Pay_SUBMITTED\<rparr>)])))]"

section \<open>Observation\<close>

text \<open>
  Scheduling the next probe; the store's \<open>createReconciliationJob\<close> is the in-memory one. The text of
  a date is not modelled; the event keeps the epoch milliseconds.
\<close>

definition schedule_probe :: "DurablePaymentIntent \<Rightarrow> ReconciliationOutcome \<Rightarrow> string \<Rightarrow> int \<Rightarrow> unit act" where
  "schedule_probe dpi outcome fresh t =
     (let nextProbeMs = opt_default 10000 (ro_nextProbeMs outcome); nextProbeAt = t + nextProbeMs in
      bind_act (on_store (\<lambda>st. case createReconciliationJob fresh (pi_paymentIntentId dpi) nextProbeAt t st of (j, st') \<Rightarrow> (Inr j, st')))
        (\<lambda>jobId. record_ev SETTLEMENT ''RECONCILIATION_JOB_CREATED''
           [(''paymentIntentId'', JStr (pi_paymentIntentId dpi)), (''jobId'', JStr jobId), (''nextProbeAt'', JNum nextProbeAt),
            (''nextProbeMs'', JNum nextProbeMs), (''reason'', opt_str (ro_reason outcome))] t))"

definition settlement_note :: "SecretariatConfig \<Rightarrow> DurablePaymentIntent \<Rightarrow> ReconciliationOutcome \<Rightarrow> (string \<times> json) list" where
  "settlement_note cfg dpi outcome = (''paymentIntentId'', JStr (pi_paymentIntentId dpi)) #
     (if ro_status outcome \<in> {RS_SETTLED, RS_NOT_SETTLED} then [(''evidenceBundle'', cf_bundle cfg (ro_evidence outcome))]
      else [(''reason'', opt_str (ro_reason outcome))])"

definition apply_outcome :: "SecretariatConfig \<Rightarrow> DurablePaymentIntent \<Rightarrow> ReconciliationOutcome \<Rightarrow> string \<Rightarrow> int \<Rightarrow> unit act" where
  "apply_outcome cfg dpi outcome fresh t =
     (let remark = settlement_note cfg dpi outcome; pay = (\<lambda>p. upd (\<lambda>opn. opn\<lparr>op_paymentState := p\<rparr>)) in
      case ro_status outcome of
        RS_SETTLED \<Rightarrow> steps [transition Op_SETTLED t, upd (op_stamp (\<lambda>ts. ts\<lparr>ts_settledAt := Some t\<rparr>)), pay Pay_SETTLED,
          record_ev SETTLEMENT ''SETTLEMENT_CONFIRMED'' remark t]
      | RS_NOT_SETTLED \<Rightarrow> steps [transition Op_SETTLEMENT_FAILED t, pay Pay_FAILED,
          record_ev SETTLEMENT ''SETTLEMENT_NOT_CONFIRMED'' remark t]
      | RS_RECONCILING \<Rightarrow> steps [transition Op_SETTLEMENT_PENDING t, pay Pay_UNKNOWN, schedule_probe dpi outcome fresh t]
      | RS_UNRESOLVED_MANUAL \<Rightarrow> steps [transition Op_UNRESOLVABLE t, pay Pay_FAILED,
          record_ev SETTLEMENT ''RECONCILIATION_UNRESOLVED'' remark t]
      | RS_INCIDENT \<Rightarrow> steps [transition Op_UNRESOLVABLE t, pay Pay_FAILED,
          record_ev SETTLEMENT ''RECONCILIATION_INCIDENT'' remark t])"

definition observeSettlement :: "SecretariatConfig \<Rightarrow> string \<Rightarrow> int \<Rightarrow> unit act" where
  "observeSettlement cfg fresh t = reading (\<lambda>s.
     case getPaymentIntentByOperationId (sec_store (sm_sec s)) (op_operationId (sm_op s)) of
       None \<Rightarrow> throw ''No DurablePaymentIntent found for reconciliation''
     | Some dpi \<Rightarrow>
         (case cf_reconciliationEngine cfg of
            None \<Rightarrow> record_ev SETTLEMENT ''RECONCILIATION_SKIPPED'' [(''reason'', JStr ''No reconciliationEngine configured'')] t
          | Some reconciler \<Rightarrow>
              bind_act (steps [record_ev SETTLEMENT ''RECONCILIATION_STARTED'' [(''paymentIntentId'', JStr (pi_paymentIntentId dpi))] t])
                (\<lambda>_. bind_act (on_store (reconciler (pi_paymentIntentId dpi)))
                  (\<lambda>outcome. apply_outcome cfg dpi outcome fresh t))))"

section \<open>The hand-over to execution\<close>

definition obligation_job :: "SecretariatConfig \<Rightarrow> Operation \<Rightarrow> string \<Rightarrow> int \<Rightarrow> RecoveryJob" where
  "obligation_job cfg opn jobId t =
     (let cap = op_sellerCapability opn in
      \<lparr>xj_jobId = jobId, xj_operationId = op_operationId opn, xj_jobType = Jt_EXECUTION, xj_status = Jb_PENDING, xj_priority = 0,
       xj_maxAttempts = opt_default 3 (cf_maxExecutionAttempts cfg), xj_currentAttempt = 0, xj_lockedBy = None, xj_lockedUntil = None,
       xj_lastError = None,
       xj_metadata = Some
         \<lparr>md_capability = Some (case cap of None \<Rightarrow> XC_NONE
            | Some c \<Rightarrow> (case sc_recoveryCapability c of Cap_NONE \<Rightarrow> XC_NONE | Cap_EXECUTION_IDEMPOTENT \<Rightarrow> XC_EXECUTION_IDEMPOTENT
                | Cap_RESULT_RETRIEVAL \<Rightarrow> XC_RESULT_RETRIEVAL | Cap_SIGNED_RECEIPT \<Rightarrow> XC_other ''SIGNED_RECEIPT'')),
          md_requestBody = op_requestPayload opn, md_originalJobId = None,
          md_resultRetrievalEndpoint = nonempty (Option.bind cap sc_resultRetrievalEndpoint), md_linkedAttempt = None\<rparr>,
       xj_createdAt = t, xj_updatedAt = t\<rparr>)"

definition obligation_attempt :: "Operation \<Rightarrow> string \<Rightarrow> int \<Rightarrow> ExecutionAttempt" where
  "obligation_attempt opn attemptId t =
     \<lparr>xa_attemptId = attemptId, xa_operationId = op_operationId opn, xa_executionId = op_operationId opn, xa_attemptNumber = 1,
      xa_status = Ob_PENDING, xa_requestUrl = Some (op_target opn), xa_requestMethod = Some (op_method opn),
      xa_requestBody = op_requestPayload opn, xa_responseStatusCode = None, xa_responseBody = JUndefined,
      xa_responseHeaders = None, xa_errorReason = None, xa_idempotencyKey = Some (op_operationId opn), xa_startedAt = None,
      xa_completedAt = None, xa_createdAt = t\<rparr>"

definition on_stores :: "(mem_store \<times> exec_store \<Rightarrow> (exn + 'a) \<times> mem_store \<times> exec_store) \<Rightarrow> 'a act" where
  "on_stores f s = (case f (sec_store (sm_sec s), sec_exec (sm_sec s)) of
     (x, st', xs') \<Rightarrow> (x, s\<lparr>sm_sec := (sm_sec s)\<lparr>sec_store := st', sec_exec := xs'\<rparr>\<rparr>))"

definition default_proof :: "int \<Rightarrow> json" where
  "default_proof t = JObj [(''observedAt'', JNum t), (''source'', JStr ''StateMachine.observeSettlement'')]"

definition proof_json :: "SettlementProof \<Rightarrow> json" where
  "proof_json p = JObj ([(''transactionHash'', opt_str (sp_transactionHash p))] @ opt_num ''blockNumber'' (sp_blockNumber p) @
     [(''timestamp'', JNum (sp_timestamp p)), (''amount'', JStr (sp_amount p)), (''asset'', JStr (sp_asset p)),
      (''source'', JStr (sp_source p)), (''rawData'', sp_rawData p)])"

definition persistSettlementAndExecutionObligation :: "SecretariatConfig \<Rightarrow> fresh_ids \<Rightarrow> int \<Rightarrow> unit act" where
  "persistSettlementAndExecutionObligation cfg ids t = reading (\<lambda>s.
     let opn = sm_op s;
         jobId = ''rj-'' @ string_of_int t @ ''-'' @ fi_job ids;
         attemptId = ''att-'' @ string_of_int t @ ''-'' @ fi_attempt ids;
         settledEvidence = (case op_settlementProof opn of None \<Rightarrow> default_proof t | Some p \<Rightarrow> proof_json p)
     in case getPaymentIntentByOperationId (sec_store (sm_sec s)) (op_operationId opn) of
          None \<Rightarrow> throw (''Cannot create execution obligation: no DurablePaymentIntent found for operationId='' @ op_operationId opn @
            ''. Settlement'' @ rightarrow @ ''execution handoff requires authoritative paymentIntentId from DPI.'')
        | Some dpi \<Rightarrow>
            bind_act (on_stores (cf_handoff cfg (pi_paymentIntentId dpi) (op_operationId opn) settledEvidence
                        (obligation_job cfg opn jobId t) (obligation_attempt opn attemptId t)))
              (\<lambda>success. if success
                 then record_ev EXECUTION ''DURABLE_EXECUTION_OBLIGATION_CREATED''
                   [(''jobId'', JStr jobId), (''attemptId'', JStr attemptId), (''executionId'', JStr (op_operationId opn)),
                    (''paymentIntentId'', JStr (pi_paymentIntentId dpi))] t
                 else record_ev EXECUTION ''SETTLEMENT_ALREADY_PERSISTED''
                   [(''note'', JStr (''CAS failed '' @ mdash @ '' settlement already persisted by another worker'')),
                    (''paymentIntentId'', JStr (pi_paymentIntentId dpi))] t))"

definition settleToExecution :: "SecretariatConfig \<Rightarrow> fresh_ids \<Rightarrow> int \<Rightarrow> unit act" where
  "settleToExecution cfg ids t = reading (\<lambda>s.
     case resolvePaymentTransport cfg (sm_op s) of
       Standard \<Rightarrow> steps
         [transition Op_EXECUTION_PENDING t, transition Op_EXECUTION_CONFIRMED t,
          upd (\<lambda>opn. op_stamp (\<lambda>ts. ts\<lparr>ts_executionConfirmedAt := Some t\<rparr>) (opn\<lparr>op_executionState := Ex_CONFIRMED\<rparr>)),
          record_ev EXECUTION ''EXECUTION_CONFIRMED'' [(''source'', JStr ''STANDARD_TRANSPORT''),
            (''note'', JStr (''execution discharged atomically by the paid x402 call '' @ mdash @ '' no post-settlement seller leg''))] t,
          persist cfg]
     | Zeus \<Rightarrow> persistSettlementAndExecutionObligation cfg ids t)"

definition deliver :: "int \<Rightarrow> unit act" where
  "deliver t = steps
     [upd (\<lambda>opn. op_stamp (\<lambda>ts. ts\<lparr>ts_deliveredAt := Some t\<rparr>) (opn\<lparr>op_deliveryState := Del_DELIVERED\<rparr>)),
      record_ev DELIVERY ''DELIVERY_COMPLETED'' [] t,
      transition Op_DELIVERED t, transition Op_SUCCESS t,
      upd (op_stamp (\<lambda>ts. ts\<lparr>ts_completedAt := Some t\<rparr>))]"

definition settle_if_settled :: "SecretariatConfig \<Rightarrow> fresh_ids \<Rightarrow> int \<Rightarrow> unit act" where
  "settle_if_settled cfg ids t = reading (\<lambda>s.
     if op_currentState (sm_op s) = Op_SETTLED \<or> op_currentState (sm_op s) = Op_EXECUTION_PENDING
     then settleToExecution cfg ids t else ret ())"

section \<open>Stage B\<close>

text \<open>Submission, observation, hand-over, snapshot: the pipeline both ways into it share.\<close>

definition submission_pipeline :: "SecretariatConfig \<Rightarrow> fresh_ids \<Rightarrow> int \<Rightarrow> ExecutionResult act" where
  "submission_pipeline cfg ids t = bind_act (steps
     [persist cfg, submitPayment cfg t, observeSettlement cfg (fi_probe ids) t, settle_if_settled cfg ids t, persist cfg])
     (\<lambda>_. reading (\<lambda>s. ret (buildResult (sm_op s))))"

definition resumeAuthorizedSubmission :: "SecretariatConfig \<Rightarrow> DurablePaymentIntent \<Rightarrow> fresh_ids \<Rightarrow> int \<Rightarrow> ExecutionResult act" where
  "resumeAuthorizedSubmission cfg dpi ids t = bind_act (steps
     [record_ev PAYMENT ''PAYMENT_SUBMISSION_RESUMED''
        [(''paymentIntentId'', JStr (pi_paymentIntentId dpi)), (''settlementState'', JStr (st_name (pi_settlementState dpi))),
         (''reason'', JStr (''AUTHORIZED without durably completed submission '' @ mdash @ '' resuming Stage B''))] t,
      upd (\<lambda>opn. opn\<lparr>op_paymentState := Pay_AUTHORIZED, op_currentState := Op_AUTHORIZED\<rparr>)])
     (\<lambda>_. submission_pipeline cfg ids t)"

text \<open>Records the store has and the operation at hand lacks are added, compared by event, time and payload.\<close>

definition evidence_key :: "EvidenceRecord \<Rightarrow> string" where
  "evidence_key e = ev_event e @ ''|'' @ string_of_int (ev_timestamp e) @ ''|'' @ JSON_stringify (ev_payload e)"

fun merge_evidence :: "EvidenceRecord list \<Rightarrow> EvidenceRecord list \<Rightarrow> EvidenceRecord list" where
  "merge_evidence mine [] = mine"
| "merge_evidence mine (e # es) =
     (if evidence_key e \<in> set (map evidence_key mine) then merge_evidence mine es else merge_evidence (mine @ [e]) es)"

definition reconcile_evidence :: "Operation \<Rightarrow> sec \<Rightarrow> sm" where
  "reconcile_evidence opn c =
     (let durable = getEvidence (sec_store c) (op_operationId opn) in
      \<lparr>sm_op = opn\<lparr>op_evidence := merge_evidence (op_evidence opn) durable\<rparr>,
       sm_sec = c\<lparr>sec_cursors := js_set (op_operationId opn) (length durable) (sec_cursors c)\<rparr>\<rparr>)"

definition external_authorization :: "json \<Rightarrow> DurablePaymentIntent \<Rightarrow> int \<Rightarrow> PaymentAuthorization" where
  "external_authorization p dpi t =
     \<lparr>au_signature = js_String (json_field (json_field p ''payload'') ''signature''),
      au_scheme = js_String (json_field (json_field p ''accepted'') ''scheme''), au_timestamp = t, au_nonce = pi_nonce dpi,
      au_authorizer = Some (pi_authorizer dpi), au_payTo = Some (pi_payTo dpi), au_value = Some (pi_value dpi),
      au_validAfter = Some (pi_validAfter dpi), au_validBefore = Some (pi_validBefore dpi)\<rparr>"

text \<open>The payload is bound: the operation is authorized and the pipeline runs.\<close>

definition authorized_continuation ::
    "SecretariatConfig \<Rightarrow> json \<Rightarrow> DurablePaymentIntent \<Rightarrow> PaymentRequirement \<Rightarrow> fresh_ids \<Rightarrow> int \<Rightarrow> ExecutionResult act" where
  "authorized_continuation cfg p dpi req ids t = bind_act (steps
     [on_store (\<lambda>st. (Inr (), markNonceSigned (pi_nonce dpi) t st)),
      transition Op_AUTHORIZED t,
      upd (\<lambda>opn. opn\<lparr>op_paymentState := Pay_AUTHORIZED\<rparr>),
      reading (\<lambda>s. record_ev PAYMENT ''PAYMENT_AUTHORIZED''
        [(''intent'', payment_intent_json (sm_op s) req (pi_value dpi) (pi_asset dpi) (pi_network dpi) (external_authorization p dpi t) (pi_createdAt dpi)),
         (''source'', JStr ''EXTERNAL_SIGNED_PAYMENT_PAYLOAD'')] t)])
     (\<lambda>_. submission_pipeline cfg ids t)"

definition bind_and_submit :: "SecretariatConfig \<Rightarrow> json \<Rightarrow> DurablePaymentIntent \<Rightarrow> fresh_ids \<Rightarrow> int \<Rightarrow> ExecutionResult act" where
  "bind_and_submit cfg p dpi ids t = reading (\<lambda>s.
     let text = JSON_stringify p; req = opt_default (requirementFromIntent dpi) (getPaymentRequirementFromEvidence (sm_op s)) in
     if op_currentState (sm_op s) \<noteq> Op_AWAITING_SIGNATURE
     then throw (''REQUEST_NOT_AWAITING_SIGNATURE: '' @ op_name (op_currentState (sm_op s)))
     else case validateExternalPaymentPayload p dpi req of
            Inl e \<Rightarrow> throw e
          | Inr _ \<Rightarrow>
              bind_act (on_store (authorizePaymentIntent (pi_paymentIntentId dpi) text (cf_keccak cfg text) St_PENDING_SIGNATURE t))
                (\<lambda>won. if won then authorized_continuation cfg p dpi req ids t
                   else reading (\<lambda>s. ret (buildResult (opt_default (sm_op s) (getOperation (sec_store (sm_sec s)) (op_operationId (sm_op s))))))))"

definition submit_on_operation :: "SecretariatConfig \<Rightarrow> json \<Rightarrow> fresh_ids \<Rightarrow> int \<Rightarrow> ExecutionResult act" where
  "submit_on_operation cfg p ids t = reading (\<lambda>s.
     case getPaymentIntentByOperationId (sec_store (sm_sec s)) (op_operationId (sm_op s)) of
       None \<Rightarrow> throw ''PAYMENT_INTENT_NOT_PENDING_SIGNATURE''
     | Some dpi \<Rightarrow>
         (if pi_settlementState dpi \<noteq> St_PENDING_SIGNATURE
          then (if pi_paymentPayloadHash dpi = cf_keccak cfg (JSON_stringify p)
                then (if pi_settlementState dpi = St_AUTHORIZED then resumeAuthorizedSubmission cfg dpi ids t
                      else ret (buildResult (sm_op s)))
                else throw (''PAYMENT_PAYLOAD_RETRY_MISMATCH: '' @ op_name (op_currentState (sm_op s))))
          else bind_and_submit cfg p dpi ids t))"

definition submitSignedPayment ::
    "SecretariatConfig \<Rightarrow> string \<Rightarrow> json \<Rightarrow> fresh_ids \<Rightarrow> int \<Rightarrow> sec \<Rightarrow> (exn + ExecutionResult) \<times> sec" where
  "submitSignedPayment cfg requestId p ids t c0 =
     (case findExistingOperation cfg None requestId c0 of
        (None, c) \<Rightarrow> (Inl (''REQUEST_NOT_FOUND: '' @ requestId), c)
      | (Some opn, c) \<Rightarrow>
          (case submit_on_operation cfg p ids t (reconcile_evidence opn c) of (x, s) \<Rightarrow> (x, sm_sec s)))"

end
