(* ===== verification/SignerFlow.thy ===== *)
theory SignerFlow
  imports StageB
begin

text \<open>
  The signer-based continuation of \<^verbatim>\<open>zeus-secretariat/src/core/state-machine.ts\<close>: \<open>authorizePayment\<close>
  signs with a configured signer or adapter instead of waiting for an external payload, and
  \<open>execute\<close> runs the whole pipeline and turns a thrown error into a failed operation.
\<close>

section \<open>The terms of the signature\<close>

record SigningTerms =
  tm_requirement :: PaymentRequirement
  tm_adapter :: "adapter option"
  tm_existing :: "DurablePaymentIntent option"
  tm_authorizer :: "string option"
  tm_payTo :: string
  tm_validAfter :: int
  tm_validBefore :: int
  tm_nonce :: string

definition binding_mismatch :: "Operation \<Rightarrow> exn" where
  "binding_mismatch opn = ''Payment intent binding mismatch for operation '' @ op_operationId opn"

definition canonical_v2 :: "SecretariatConfig \<Rightarrow> bool" where
  "canonical_v2 cfg = (cf_settlementAdapter cfg \<noteq> None)"

definition no_adapter :: "string \<Rightarrow> exn" where
  "no_adapter network = ''No payment adapter found for network: '' @ network"

definition signing_terms :: "SecretariatConfig \<Rightarrow> PaymentSigner \<Rightarrow> string \<Rightarrow> int \<Rightarrow> Operation \<Rightarrow> mem_store \<Rightarrow> exn + SigningTerms" where
  "signing_terms cfg signer freshNonce t opn st =
     (case getPaymentRequirementFromEvidence opn of
        None \<Rightarrow> Inl ''No payment requirement found for authorization''
      | Some req \<Rightarrow>
     (let v2 = canonical_v2 cfg; adapter = cf_adapters cfg (req_network req) in
      if \<not> v2 \<and> adapter = None then Inl (no_adapter (req_network req))
      else
     (let existing = (if v2 then getPaymentIntentByOperationId st (op_operationId opn) else None);
          signerAddress = ps_getAddress signer
      in case (if v2 then map_sum id Some (requireNonEmpty signerAddress ''authorizer'') else Inr signerAddress) of
        Inl e \<Rightarrow> Inl e
      | Inr authorizer \<Rightarrow>
     (case requireNonEmpty (Some (req_payee req)) ''payTo'' of
        Inl e \<Rightarrow> Inl e
      | Inr payTo \<Rightarrow>
          (if (case existing of None \<Rightarrow> False | Some i \<Rightarrow> Some (pi_authorizer i) \<noteq> authorizer) then Inl (binding_mismatch opn)
           else let validAfter = (case existing of None \<Rightarrow> t div 1000 | Some i \<Rightarrow> pi_validAfter i);
                    validBefore = (case existing of None \<Rightarrow> toEpochSeconds (req_deadline req) t | Some i \<Rightarrow> pi_validBefore i)
                in if validBefore \<le> validAfter
                   then Inl ''Invalid payment authorization: validBefore must be after validAfter''
                   else Inr \<lparr>tm_requirement = req, tm_adapter = adapter, tm_existing = existing, tm_authorizer = authorizer,
                          tm_payTo = payTo, tm_validAfter = validAfter, tm_validBefore = validBefore,
                          tm_nonce = (case existing of None \<Rightarrow> freshNonce | Some i \<Rightarrow> pi_nonce i)\<rparr>)))))"

section \<open>The intent before the signature\<close>

definition pre_created_intent :: "SecretariatConfig \<Rightarrow> SigningTerms \<Rightarrow> string \<Rightarrow> int \<Rightarrow> DurablePaymentIntent act" where
  "pre_created_intent cfg tm intentUuid t = reading (\<lambda>s.
     let opn = sm_op s; req = tm_requirement tm in
     case (requireNonEmpty (tm_authorizer tm) ''authorizer'', requireNonEmpty (Some (tm_nonce tm)) ''nonce'') of
       (Inl e, _) \<Rightarrow> throw e
     | (Inr _, Inl e) \<Rightarrow> throw e
     | (Inr authorizer, Inr nonce) \<Rightarrow>
         (case tm_existing tm of
            Some i \<Rightarrow>
              (if pi_authorizer i \<noteq> authorizer \<or> pi_payTo i \<noteq> tm_payTo tm \<or> pi_nonce i \<noteq> nonce \<or> pi_value i \<noteq> req_amount req
               then throw (binding_mismatch opn) else ret i)
          | None \<Rightarrow>
              (let intent = new_intent (cf_keccak cfg) (generatePaymentIntentId t intentUuid) opn authorizer req nonce
                     (tm_validAfter tm) (tm_validBefore tm)
                     (pending_payload ''SIGNING'' opn authorizer req nonce (tm_validAfter tm) (tm_validBefore tm)) St_PENDING_SIGNATURE t
               in bind_act (on_store (createIntentWithNonce intent authorizer t)) (\<lambda>_. ret intent))))"

section \<open>The signature\<close>

definition strict_signature :: "PaymentSigner \<Rightarrow> SigningTerms \<Rightarrow> int \<Rightarrow> Operation \<Rightarrow> exn + PaymentAuthorization" where
  "strict_signature signer tm t opn =
     (case requireNonEmpty (tm_authorizer tm) ''authorizer'' of
        Inl e \<Rightarrow> Inl e
      | Inr payer \<Rightarrow>
     (case ps_signPayment signer
             \<lparr>ar_operationId = op_operationId opn, ar_network = req_network (tm_requirement tm), ar_asset = req_asset (tm_requirement tm),
              ar_payer = payer, ar_payTo = tm_payTo tm, ar_amount = req_amount (tm_requirement tm), ar_nonce = tm_nonce tm,
              ar_validAfter = tm_validAfter tm, ar_validBefore = tm_validBefore tm\<rparr> of
        Inl e \<Rightarrow> Inl e
      | Inr signed \<Rightarrow>
          (if sg_operationId signed \<noteq> op_operationId opn \<or> sg_payer signed \<noteq> payer \<or> sg_nonce signed \<noteq> tm_nonce tm
           then Inl (''Payment signer binding mismatch for operation '' @ op_operationId opn)
           else (case requireNonEmpty (Some (sg_signature signed)) ''signature'' of
                   Inl e \<Rightarrow> Inl e
                 | Inr signature \<Rightarrow> Inr
                     \<lparr>au_signature = signature, au_scheme = ''exact'', au_timestamp = opt_default t (sg_signedAt signed),
                      au_nonce = tm_nonce tm, au_authorizer = Some (sg_payer signed), au_payTo = Some (tm_payTo tm),
                      au_value = Some (req_amount (tm_requirement tm)), au_validAfter = Some (tm_validAfter tm),
                      au_validBefore = Some (tm_validBefore tm)\<rparr>))))"

definition obtain_authorization :: "SecretariatConfig \<Rightarrow> PaymentSigner \<Rightarrow> SigningTerms \<Rightarrow> int \<Rightarrow> Operation \<Rightarrow> exn + PaymentAuthorization" where
  "obtain_authorization cfg signer tm t opn =
     (case (case tm_adapter tm of
              Some createAuthorization \<Rightarrow> createAuthorization (tm_requirement tm) signer
                \<lparr>sx_operationId = op_operationId opn, sx_requirement = tm_requirement tm, sx_nonce = tm_nonce tm\<rparr>
            | None \<Rightarrow> if canonical_v2 cfg then strict_signature signer tm t opn
                      else Inl (no_adapter (req_network (tm_requirement tm)))) of
        Inl e \<Rightarrow> Inl e
      | Inr a \<Rightarrow> (case requireNonEmpty (Some (au_signature a)) ''signature'' of Inl e \<Rightarrow> Inl e | Inr _ \<Rightarrow> Inr a))"

section \<open>Binding it\<close>

definition signed_payload_json :: "SigningTerms \<Rightarrow> PaymentAuthorization \<Rightarrow> string \<Rightarrow> json" where
  "signed_payload_json tm a authorizer =
     (let req = tm_requirement tm in JObj
      [(''x402Version'', JNum 2),
       (''accepted'', JObj [(''scheme'', JStr (if au_scheme a = [] then ''exact'' else au_scheme a)), (''network'', JStr (req_network req)),
          (''amount'', JStr (req_amount req)), (''asset'', JStr (req_asset req)), (''payTo'', JStr (tm_payTo tm)),
          (''maxTimeoutSeconds'', JNum (tm_validBefore tm - tm_validAfter tm))]),
       (''payload'', JObj [(''signature'', JStr (au_signature a)),
          (''authorization'', JObj [(''from'', JStr authorizer), (''to'', JStr (tm_payTo tm)), (''value'', JStr (req_amount req)),
             (''validAfter'', JStr (string_of_int (tm_validAfter tm))), (''validBefore'', JStr (string_of_int (tm_validBefore tm))),
             (''nonce'', JStr (tm_nonce tm))])])])"

definition bind_signed :: "SecretariatConfig \<Rightarrow> SigningTerms \<Rightarrow> DurablePaymentIntent \<Rightarrow> PaymentAuthorization \<Rightarrow> int \<Rightarrow> unit act" where
  "bind_signed cfg tm intent a t = reading (\<lambda>s.
     case requireNonEmpty (or_else (au_authorizer a) (tm_authorizer tm)) ''authorizer'' of
       Inl e \<Rightarrow> throw e
     | Inr authorizer \<Rightarrow>
         (if Some authorizer \<noteq> tm_authorizer tm
          then throw (''Payment authorization authorizer mismatch for operation '' @ op_operationId (sm_op s))
          else if au_payTo a \<noteq> None \<and> au_payTo a \<noteq> Some (tm_payTo tm)
          then throw (''Payment authorization payTo mismatch for operation '' @ op_operationId (sm_op s))
          else if au_nonce a \<noteq> tm_nonce tm
          then throw (''Payment authorization nonce mismatch for operation '' @ op_operationId (sm_op s))
          else let text = JSON_stringify (signed_payload_json tm a authorizer) in
            bind_act
              (catch_act (on_store (authorizePaymentIntent (pi_paymentIntentId intent) text (cf_keccak cfg text) St_PENDING_SIGNATURE t))
                 (\<lambda>e. if starts_with ''PAYMENT_INTENT_AUTHORIZATION_CONFLICT'' e then ret False else throw e))
              (\<lambda>won. if won then ret ()
                 else record_ev PAYMENT ''PAYMENT_AUTHORIZATION_CAS_LOSS''
                   [(''paymentIntentId'', JStr (pi_paymentIntentId intent)),
                    (''reason'', JStr (''concurrent signing attempt bound its payload first '' @ mdash @ '' durable payload kept''))] t)))"

definition legacy_intent :: "SecretariatConfig \<Rightarrow> SigningTerms \<Rightarrow> PaymentAuthorization \<Rightarrow> string \<Rightarrow> int \<Rightarrow> unit act" where
  "legacy_intent cfg tm a intentUuid t = reading (\<lambda>s.
     case requireNonEmpty (or_else (au_authorizer a) (tm_authorizer tm)) ''authorizer'' of
       Inl e \<Rightarrow> throw e
     | Inr authorizer \<Rightarrow>
         on_store (createPaymentIntent (new_intent (cf_keccak cfg) (generatePaymentIntentId t intentUuid) (sm_op s) authorizer
           (tm_requirement tm) (tm_nonce tm) (tm_validAfter tm) (tm_validBefore tm) (au_signature a) St_AUTHORIZED t)))"

definition authorizePayment :: "SecretariatConfig \<Rightarrow> fresh_ids \<Rightarrow> int \<Rightarrow> unit act" where
  "authorizePayment cfg ids t = steps
     [transition Op_AUTHORIZED t,
      upd (op_stamp (\<lambda>ts. ts\<lparr>ts_authorizedAt := Some t\<rparr>)),
      (case cf_signer cfg of
         None \<Rightarrow> throw ''NON_CUSTODIAL_SIGNATURE_REQUIRED: use submitSignedPayment()''
       | Some signer \<Rightarrow> reading (\<lambda>s.
           case signing_terms cfg signer (fi_nonce ids) t (sm_op s) (sec_store (sm_sec s)) of
             Inl e \<Rightarrow> throw e
           | Inr tm \<Rightarrow>
               bind_act (if canonical_v2 cfg then bind_act (pre_created_intent cfg tm (fi_intent ids) t) (\<lambda>i. ret (Some i)) else ret None)
                 (\<lambda>intent. reading (\<lambda>s. case obtain_authorization cfg signer tm t (sm_op s) of
                     Inl e \<Rightarrow> throw e
                   | Inr a \<Rightarrow> steps
                       [(case intent of Some i \<Rightarrow> bind_signed cfg tm i a t | None \<Rightarrow> legacy_intent cfg tm a (fi_intent ids) t),
                        reading (\<lambda>s. let req = tm_requirement tm in record_ev PAYMENT ''PAYMENT_AUTHORIZED''
                          [(''intent'', payment_intent_json (sm_op s) req (req_amount req) (req_asset req) (req_network req) a t)] t),
                        upd (\<lambda>opn. opn\<lparr>op_paymentState := Pay_AUTHORIZED\<rparr>)]))))]"

section \<open>The whole pipeline\<close>

definition execute_continuation :: "SecretariatConfig \<Rightarrow> fresh_ids \<Rightarrow> int \<Rightarrow> ExecutionResult act" where
  "execute_continuation cfg ids t = bind_act (steps
     [authorizePayment cfg ids t, persist cfg, submitPayment cfg t, observeSettlement cfg (fi_probe ids) t,
      settle_if_settled cfg ids t,
      reading (\<lambda>s. if op_currentState (sm_op s) = Op_EXECUTION_CONFIRMED then deliver t else ret ()),
      reading (\<lambda>s. if resolvePaymentTransport cfg (sm_op s) = Standard then persist cfg else ret ())])
     (\<lambda>_. reading (\<lambda>s. ret (buildResult (sm_op s))))"

definition execute_operation :: "SecretariatConfig \<Rightarrow> fresh_ids \<Rightarrow> int \<Rightarrow> Operation \<Rightarrow> sec \<Rightarrow> ExecutionResult \<times> sec" where
  "execute_operation cfg ids t opn c =
     (case execute_continuation cfg ids t \<lparr>sm_op = opn, sm_sec = c\<rparr> of
        (Inr res, s) \<Rightarrow> (res, sm_sec s)
      | (Inl e, s) \<Rightarrow> (case failOperation cfg Op_FAILED e t s of (res, s') \<Rightarrow> (res, sm_sec s')))"

definition execute :: "SecretariatConfig \<Rightarrow> ExecuteRequest \<Rightarrow> fresh_ids \<Rightarrow> int \<Rightarrow> sec \<Rightarrow> (exn + ExecutionResult) \<times> sec" where
  "execute cfg r ids t c =
     (let r' = (if canonical_v2 cfg \<and> \<not> truthy (xr_authorizer r) \<and> cf_signer cfg \<noteq> None \<and> ps_getAddress (the (cf_signer cfg)) \<noteq> None
                then r\<lparr>xr_authorizer := ps_getAddress (the (cf_signer cfg))\<rparr> else r)
      in case prepareStageA cfg r' (canonical_v2 cfg) ids t c of
           (Inl e, c') \<Rightarrow> (Inl e, c')
         | (Inr (SA_COMPLETED opn res), c') \<Rightarrow> (Inr res, c')
         | (Inr (SA_REJECTED opn res), c') \<Rightarrow> (Inr res, c')
         | (Inr (SA_EXISTING opn res), c') \<Rightarrow> (Inr res, c')
         | (Inr (SA_AWAITING_SIGNATURE opn req i), c') \<Rightarrow> (case execute_operation cfg ids t opn c' of (res, c'') \<Rightarrow> (Inr res, c''))
         | (Inr (SA_PAYMENT_REQUIRED opn req), c') \<Rightarrow> (case execute_operation cfg ids t opn c' of (res, c'') \<Rightarrow> (Inr res, c'')))"

end
