(* ===== verification/StageFrames.thy ===== *)
theory StageFrames
  imports SignerFlow
begin

text \<open>
  What the actions of the driver leave alone. \<open>keeps R m\<close>: action \<open>m\<close> relates its states by
  \<open>R\<close> whether it returns or throws; for a reflexive and transitive \<open>R\<close> it composes along the
  statements of a method (locale \<open>act_frame\<close>). The store's side is the locale \<open>operation_log\<close>.
\<close>

section \<open>Frames of actions\<close>

definition keeps :: "(sm \<Rightarrow> sm \<Rightarrow> bool) \<Rightarrow> 'a act \<Rightarrow> bool" where
  "keeps R m = (\<forall>s. R s (snd (m s)))"

lemma keepsD: "keeps R m \<Longrightarrow> m s = (x, s') \<Longrightarrow> R s s'"
  by (metis keeps_def snd_conv)

locale act_frame =
  fixes R :: "sm \<Rightarrow> sm \<Rightarrow> bool"
  assumes frame_refl: "R s s" and frame_trans: "R s s1 \<Longrightarrow> R s1 s2 \<Longrightarrow> R s s2"
begin

lemma keeps_ret: "keeps R (ret x)"
  by (simp add: keeps_def ret_def frame_refl)

lemma keeps_throw: "keeps R (throw e)"
  by (simp add: keeps_def throw_def frame_refl)

lemma keeps_bind: "keeps R m \<Longrightarrow> (\<And>x. keeps R (f x)) \<Longrightarrow> keeps R (bind_act m f)"
  unfolding keeps_def bind_act_def by (auto split: prod.split sum.split) (metis frame_trans snd_conv)+

lemma keeps_catch: "keeps R m \<Longrightarrow> (\<And>e. keeps R (h e)) \<Longrightarrow> keeps R (catch_act m h)"
  unfolding keeps_def catch_act_def by (auto split: prod.split sum.split) (metis frame_trans snd_conv)+

lemma keeps_reading: "(\<And>s. keeps R (f s)) \<Longrightarrow> keeps R (reading f)"
  by (simp add: keeps_def reading_def)

lemma keeps_steps: "\<forall>m \<in> set ms. keeps R m \<Longrightarrow> keeps R (steps ms)"
proof (induction ms)
  case (Cons m ms)
  then have m: "keeps R m" and ms: "keeps R (steps ms)" by auto
  show ?case
    unfolding keeps_def
  proof
    fix s
    show "R s (snd (steps (m # ms) s))"
      using keepsD [OF m, of s] ms by (auto simp: keeps_def split: prod.split sum.split) (metis frame_trans)+
  qed
qed (simp add: keeps_def frame_refl)

end

section \<open>The evidence store's contract\<close>

text \<open>
  Appending evidence and saving an operation, whether they succeed or fail, leave payment intents,
  nonces and reconciliation jobs alone; an append leaves the operations alone, and a save that
  succeeds stores the operation under its id.
\<close>

definition same_pay :: "mem_store \<Rightarrow> mem_store \<Rightarrow> bool" where
  "same_pay st st' = (ms_intents st' = ms_intents st \<and> ms_nonces st' = ms_nonces st \<and> ms_reconJobs st' = ms_reconJobs st)"

lemma same_pay_refl [simp]: "same_pay st st"
  by (simp add: same_pay_def)

lemma same_pay_trans: "same_pay st st1 \<Longrightarrow> same_pay st1 st2 \<Longrightarrow> same_pay st st2"
  by (simp add: same_pay_def)

locale operation_log =
  fixes app :: "mem_store append_op"
    and save :: "Operation \<Rightarrow> mem_store \<Rightarrow> (exn + unit) \<times> mem_store"
  assumes append_frame: "app r st = (x, st') \<Longrightarrow> same_pay st st' \<and> ms_operations st' = ms_operations st"
    and save_frame: "save opn st = (x, st') \<Longrightarrow> same_pay st st'"
    and save_done: "save opn st = (Inr u, st') \<Longrightarrow> ms_operations st' = js_set (op_operationId opn) opn (ms_operations st)"
begin

lemma flush_batch_frame:
  "flush_batch app k rs cs st = (x, cs', st') \<Longrightarrow> same_pay st st' \<and> ms_operations st' = ms_operations st"
proof (induction rs arbitrary: cs st)
  case (Cons e rs)
  obtain r key where e: "e = (r, key)" by fastforce
  obtain y st1 where a: "app r st = (y, st1)" by fastforce
  show ?case
  proof (cases "key < opt_default 0 (js_get cs k)")
    case True
    with Cons.prems e show ?thesis using Cons.IH [of cs st] by simp
  next
    case False
    with Cons.prems e a append_frame [OF a] Cons.IH [of "js_set k (Suc key) cs" st1] show ?thesis
      by (cases y) (auto intro: same_pay_trans)
  qed
qed simp

lemma flush_passes_frame:
  "flush_passes app k rs n err cs st = (x, cs', st') \<Longrightarrow> same_pay st st' \<and> ms_operations st' = ms_operations st"
proof (induction n arbitrary: err cs st)
  case (Suc n)
  obtain y cs1 st1 where b: "flush_batch app k rs cs st = (y, cs1, st1)" by (metis prod_cases3)
  with Suc flush_batch_frame [OF b] show ?case
    by (cases y) (auto intro: same_pay_trans)
qed simp

lemma flushPendingEvidence_frame:
  assumes "flushPendingEvidence app n opn cs st = (x, cs', st')"
  shows "same_pay st st' \<and> ms_operations st' = ms_operations st"
proof -
  obtain y cs1 st1 where b: "flush_passes app (op_operationId opn) (ordered_evidence opn) n ''unknown'' cs st = (y, cs1, st1)"
    by (metis prod_cases3)
  with assms have "st' = st1" by (cases y) (auto simp: flushPendingEvidence_def)
  with flush_passes_frame [OF b] show ?thesis by simp
qed

lemma persistOperation_frame:
  assumes "persistOperation app save n opn cs st = (x, cs', st')"
  shows "same_pay st st' \<and> (\<forall>u. x = Inr u \<longrightarrow> ms_operations st' = js_set (op_operationId opn) opn (ms_operations st))"
proof -
  obtain y cs1 st1 where b: "flushPendingEvidence app n opn cs st = (y, cs1, st1)" by (metis prod_cases3)
  obtain z st2 where v: "save opn st1 = (z, st2)" by fastforce
  from assms b v flushPendingEvidence_frame [OF b] save_frame [OF v] save_done [of opn st1 _ st2] show ?thesis
    by (cases y) (auto simp: persistOperation_def intro: same_pay_trans)
qed

end

text \<open>The in-memory store's methods, which never throw.\<close>

definition mem_append :: "mem_store append_op" where
  "mem_append r st = (Inr (), append_evidence r st)"

definition mem_save :: "Operation \<Rightarrow> mem_store \<Rightarrow> (exn + unit) \<times> mem_store" where
  "mem_save opn st = (Inr (), saveOperation opn st)"

lemma mem_operation_log: "operation_log mem_append mem_save"
  by unfold_locales (auto simp: mem_append_def mem_save_def same_pay_def append_evidence_def saveOperation_def)

interpretation mem_log: operation_log mem_append mem_save
  by (rule mem_operation_log)

section \<open>The driver's own writes\<close>

text \<open>Nothing but the operation object, its evidence and the operation's row.\<close>

definition quiet :: "sm \<Rightarrow> sm \<Rightarrow> bool" where
  "quiet s s' = (same_pay (sec_store (sm_sec s)) (sec_store (sm_sec s')) \<and> sec_exec (sm_sec s') = sec_exec (sm_sec s) \<and>
     op_operationId (sm_op s') = op_operationId (sm_op s))"

interpretation quiet: act_frame quiet
  by unfold_locales (auto simp: quiet_def intro: same_pay_trans)

lemma quiet_record_ev: "keeps quiet (record_ev ph ev p t)"
  by (simp add: keeps_def quiet_def record_ev_def upd_def recordEvidence_def)

lemma quiet_transition: "keeps quiet (transition n t)"
  by (auto simp: keeps_def quiet_def transition_def transitionState_def recordEvidence_def split: sum.split)

lemma quiet_upd: "(\<And>opn. op_operationId (f opn) = op_operationId opn) \<Longrightarrow> keeps quiet (upd f)"
  by (simp add: keeps_def quiet_def upd_def)

lemma quiet_flush:
  assumes "operation_log (cf_append cfg) (cf_save cfg)"
  shows "keeps quiet (flush cfg)"
proof -
  show ?thesis
    using operation_log.flushPendingEvidence_frame [OF assms]
    by (auto simp: keeps_def quiet_def flush_def on_cursors_def split: prod.split)
qed

lemma quiet_persist:
  assumes "operation_log (cf_append cfg) (cf_save cfg)"
  shows "keeps quiet (persist cfg)"
  using operation_log.persistOperation_frame [OF assms]
  by (auto simp: keeps_def quiet_def persist_def on_cursors_def split: prod.split)

lemma quiet_save:
  assumes "operation_log (cf_append cfg) (cf_save cfg)"
  shows "keeps quiet (save_op cfg)"
  using operation_log.save_frame [OF assms]
  by (auto simp: keeps_def quiet_def save_op_def on_store_def split: prod.split)

lemmas quiet_rules = quiet.keeps_ret quiet.keeps_throw quiet.keeps_bind quiet.keeps_catch quiet.keeps_reading quiet.keeps_steps
  quiet_record_ev quiet_transition quiet_upd quiet_flush quiet_persist quiet_save

end
