(* ===== verification/StageA.thy ===== *)
theory StageA
  imports StageFrames
begin

text \<open>
  Stage A of the driver: what a request that is answered with an awaited signature has left behind,
  and that asking again changes nothing.
\<close>

section \<open>Steps that stay on the operation\<close>

definition same_request :: "Operation \<Rightarrow> Operation \<Rightarrow> bool" where
  "same_request o1 o2 = (op_operationId o2 = op_operationId o1 \<and> op_requestId o2 = op_requestId o1 \<and> op_clientId o2 = op_clientId o1 \<and>
     op_target o2 = op_target o1 \<and> op_method o2 = op_method o1 \<and> op_requestPayload o2 = op_requestPayload o1 \<and>
     op_paymentPolicy o2 = op_paymentPolicy o1)"

definition requirement_kept :: "Operation \<Rightarrow> Operation \<Rightarrow> bool" where
  "requirement_kept o1 o2 = (\<forall>req. getPaymentRequirementFromEvidence o1 = Some req \<longrightarrow> getPaymentRequirementFromEvidence o2 = Some req)"

definition op_only :: "sm \<Rightarrow> sm \<Rightarrow> bool" where
  "op_only s s' = (sm_sec s' = sm_sec s \<and> same_request (sm_op s) (sm_op s') \<and> requirement_kept (sm_op s) (sm_op s'))"

interpretation op_only: act_frame op_only
  by unfold_locales (auto simp: op_only_def same_request_def requirement_kept_def)

lemma requirement_kept_record: "requirement_kept opn (recordEvidence ph ev p t opn)"
  by (simp add: requirement_kept_def getRequirement_record)

lemma same_request_record: "same_request opn (recordEvidence ph ev p t opn)"
  by (simp add: same_request_def recordEvidence_def)

lemma op_only_record_ev: "keeps op_only (record_ev ph ev p t)"
  by (simp add: keeps_def op_only_def record_ev_def upd_def requirement_kept_record same_request_record)

lemma op_only_transition: "keeps op_only (transition n t)"
proof -
  have "requirement_kept opn (recordEvidence ph ev p t (opn\<lparr>op_currentState := n, op_timestamps := ts\<rparr>))" for opn ph ev p ts
    unfolding requirement_kept_def using getRequirement_record [of "opn\<lparr>op_currentState := n, op_timestamps := ts\<rparr>"]
    by (simp add: getPaymentRequirementFromEvidence_def)
  then show ?thesis
    by (auto simp: keeps_def op_only_def transition_def transitionState_def same_request_def recordEvidence_def requirement_kept_def
        split: sum.split)
qed

lemma op_only_upd:
  "(\<And>opn. same_request opn (f opn) \<and> op_evidence (f opn) = op_evidence opn) \<Longrightarrow> keeps op_only (upd f)"
  by (simp add: keeps_def op_only_def upd_def requirement_kept_def getPaymentRequirementFromEvidence_def)

lemmas op_only_rules = op_only.keeps_ret op_only.keeps_throw op_only.keeps_bind op_only.keeps_catch op_only.keeps_reading
  op_only.keeps_steps op_only_record_ev op_only_transition op_only_upd

lemma op_only_handlePaymentRequired: "keeps op_only (handlePaymentRequired cfg resp t)"
  unfolding handlePaymentRequired_def
  by (intro op_only.keeps_steps)
    (auto intro!: op_only_rules split: sum.split list.split simp: same_request_def op_stamp_def resolveAndSnapshot_def)

lemma op_only_handleDirectSuccess: "keeps op_only (handleDirectSuccess resp t)"
  unfolding handleDirectSuccess_def Let_def
  by (intro op_only.keeps_steps) (auto intro!: op_only_rules simp: same_request_def op_stamp_def)

lemma op_only_discovery: "keeps op_only (discoveryPhase cfg t)"
  unfolding discoveryPhase_def
  by (intro op_only.keeps_steps)
    (auto intro!: op_only_rules op_only_handlePaymentRequired op_only_handleDirectSuccess split: sum.split simp: Let_def)

definition grown :: "Operation \<Rightarrow> Operation \<Rightarrow> bool" where
  "grown o1 o2 = (same_request o1 o2 \<and> requirement_kept o1 o2)"

lemma grown_record: "grown o1 o2 \<Longrightarrow> grown o1 (recordEvidence ph ev p t o2)"
  using requirement_kept_record [of o2] same_request_record [of o2]
  by (auto simp: grown_def same_request_def requirement_kept_def)

lemma grown_refl: "grown opn opn"
  by (simp add: grown_def same_request_def requirement_kept_def)

lemma validatePolicy_grown: "grown opn (snd (validatePolicy t opn))"
  by (simp add: validatePolicy_def Let_def policy_rejected_def grown_record grown_refl
      split: option.split price_check.split)

lemma op_only_validatePolicy: "keeps op_only (validatePolicy_act t)"
  unfolding keeps_def
proof
  fix s
  show "op_only s (snd (validatePolicy_act t s))"
    using validatePolicy_grown [of "sm_op s" t]
    by (cases "validatePolicy t (sm_op s)") (simp add: op_only_def validatePolicy_act_def grown_def)
qed

section \<open>Reading a successful run backwards\<close>

lemma bind_act_Inr:
  "bind_act m f s = (Inr y, s') \<longleftrightarrow> (\<exists>x s1. m s = (Inr x, s1) \<and> f x s1 = (Inr y, s'))"
  by (auto simp: bind_act_def split: prod.splits sum.splits)

lemma steps_Inr:
  "steps (m # ms) s = (Inr u, s') \<longleftrightarrow> (\<exists>s1. m s = (Inr (), s1) \<and> steps ms s1 = (Inr u, s'))"
  by (auto simp: steps.simps split: prod.splits sum.splits)

lemma steps_Nil: "steps [] s = (Inr u, s') \<longleftrightarrow> s' = s"
  by (auto simp: steps.simps)

lemma reading_eq: "reading f s = f s s"
  by (simp add: reading_def)

lemma ret_Inr: "ret x s = (Inr y, s') \<longleftrightarrow> y = x \<and> s' = s"
  by (auto simp: ret_def)

lemma throw_Inr: "throw e s = (Inr y, s') \<longleftrightarrow> False"
  by (simp add: throw_def)

lemma upd_Inr: "upd f s = (Inr u, s') \<longleftrightarrow> s' = s\<lparr>sm_op := f (sm_op s)\<rparr>"
  by (auto simp: upd_def)

lemma on_store_Inr:
  "on_store f s = (Inr x, s') \<longleftrightarrow> (\<exists>st'. f (sec_store (sm_sec s)) = (Inr x, st') \<and> s' = s\<lparr>sm_sec := (sm_sec s)\<lparr>sec_store := st'\<rparr>\<rparr>)"
  by (auto simp: on_store_def split: prod.splits)

declare steps.simps [simp del]

lemmas run_simps = bind_act_Inr steps_Inr steps_Nil reading_eq ret_Inr throw_Inr upd_Inr on_store_Inr

text \<open>A policy that admits the requirement.\<close>

definition within_policy :: "PaymentPolicy \<Rightarrow> PaymentRequirement \<Rightarrow> bool" where
  "within_policy pol req = (compare_price (trim (req_amount req)) (trim (pol_maxPrice pol)) = Some Within \<and>
     listed (req_network req) (pol_allowedNetworks pol) \<and> listed (req_asset req) (pol_allowedAssets pol) \<and>
     (case pol_allowedSellers pol of None \<Rightarrow> True | Some sellers \<Rightarrow> listed (req_payee req) sellers))"

lemma validatePolicy_admits:
  assumes "validatePolicy t opn = (Inr True, opn')"
  shows "\<exists>req. getPaymentRequirementFromEvidence opn' = Some req \<and> within_policy (op_paymentPolicy opn) req"
proof -
  let ?o = "recordEvidence POLICY ''POLICY_VALIDATION_STARTED'' (JObj []) t opn"
  have pol: "op_paymentPolicy ?o = op_paymentPolicy opn" by (simp add: recordEvidence_def)
  from assms obtain req where r: "getPaymentRequirementFromEvidence ?o = Some req"
    by (auto simp: validatePolicy_def Let_def split: option.splits)
  from assms r pol have "within_policy (op_paymentPolicy opn) req" "\<exists>p. opn' = recordEvidence POLICY ''POLICY_VALIDATION_PASSED'' p t ?o"
    by (auto simp: validatePolicy_def Let_def policy_rejected_def within_policy_def split: option.splits price_check.splits if_splits)
  with r show ?thesis by (auto intro: getRequirement_record)
qed

section \<open>The pending intent\<close>

lemma persist_Inr:
  assumes "operation_log (cf_append cfg) (cf_save cfg)" "persist cfg s = (Inr u, s')"
  shows "sm_op s' = sm_op s \<and> sec_exec (sm_sec s') = sec_exec (sm_sec s) \<and> same_pay (sec_store (sm_sec s)) (sec_store (sm_sec s')) \<and>
    ms_operations (sec_store (sm_sec s')) = js_set (op_operationId (sm_op s)) (sm_op s) (ms_operations (sec_store (sm_sec s)))"
proof -
  obtain x cs' st' where p: "persistOperation (cf_append cfg) (cf_save cfg) (flush_attempts cfg) (sm_op s)
      (sec_cursors (sm_sec s)) (sec_store (sm_sec s)) = (x, cs', st')" by (metis prod_cases3)
  from operation_log.persistOperation_frame [OF assms(1) p] assms(2) p show ?thesis
    by (auto simp: persist_def on_cursors_def)
qed

lemma transition_Inr:
  assumes "transition n t s = (Inr u, s')"
  shows "sm_sec s' = sm_sec s \<and> op_currentState (sm_op s') = n \<and> isValidTransition (op_currentState (sm_op s)) n"
  using assms by (auto simp: transition_def transitionState_def recordEvidence_def split: sum.splits if_splits)

definition binds :: "DurablePaymentIntent \<Rightarrow> ExecuteRequest \<Rightarrow> PaymentRequirement \<Rightarrow> bool" where
  "binds i r req = (xr_authorizer r = Some (pi_authorizer i) \<and> pi_payTo i = req_payee req \<and> pi_value i = req_amount req \<and>
     pi_asset i = req_asset req \<and> pi_network i = req_network req \<and> pi_validAfter i < pi_validBefore i)"

lemma op_only_grown: "op_only s s' \<Longrightarrow> sm_sec s' = sm_sec s \<and> grown (sm_op s) (sm_op s')"
  by (simp add: op_only_def grown_def)

lemma grown_trans: "grown o1 o2 \<Longrightarrow> grown o2 o3 \<Longrightarrow> grown o1 o3"
  by (auto simp: grown_def same_request_def requirement_kept_def)

lemma grown_id: "grown o1 o2 \<Longrightarrow> op_operationId o2 = op_operationId o1"
  by (simp add: grown_def same_request_def)

lemma requireNonEmpty_Inr: "requireNonEmpty v f = Inr a \<Longrightarrow> v = Some a"
  by (cases v) (auto simp: requireNonEmpty_def truthy_def split: if_splits)

lemma new_intent_simps [simp]:
  "pi_operationId (new_intent h k opn a req n va vb p st t) = op_operationId opn"
  "pi_settlementState (new_intent h k opn a req n va vb p st t) = st"
  "pi_nonce (new_intent h k opn a req n va vb p st t) = n"
  "pi_authorizer (new_intent h k opn a req n va vb p st t) = a"
  "pi_payTo (new_intent h k opn a req n va vb p st t) = req_payee req"
  "pi_value (new_intent h k opn a req n va vb p st t) = req_amount req"
  "pi_asset (new_intent h k opn a req n va vb p st t) = req_asset req"
  "pi_network (new_intent h k opn a req n va vb p st t) = req_network req"
  "pi_validAfter (new_intent h k opn a req n va vb p st t) = va"
  "pi_validBefore (new_intent h k opn a req n va vb p st t) = vb"
  by (simp_all add: new_intent_def)

text \<open>What the store and the operation are after the intent was created.\<close>

definition pending_created :: "ExecuteRequest \<Rightarrow> PaymentRequirement \<Rightarrow> sm \<Rightarrow> DurablePaymentIntent \<Rightarrow> sm \<Rightarrow> bool" where
  "pending_created r req s i s' =
     (mem_intent (sec_store (sm_sec s)) (pi_paymentIntentId i) = None \<and>
      mem_intent (sec_store (sm_sec s')) = (mem_intent (sec_store (sm_sec s)))(pi_paymentIntentId i \<mapsto> i) \<and>
      pi_settlementState i = St_PENDING_SIGNATURE \<and> pi_operationId i = op_operationId (sm_op s) \<and> binds i r req \<and>
      op_currentState (sm_op s') = Op_AWAITING_SIGNATURE \<and> grown (sm_op s) (sm_op s') \<and>
      ms_operations (sec_store (sm_sec s')) = js_set (op_operationId (sm_op s')) (sm_op s') (ms_operations (sec_store (sm_sec s))) \<and>
      (intents_wf (sec_store (sm_sec s)) \<longrightarrow> intents_wf (sec_store (sm_sec s'))))"

lemma createPendingPaymentIntent_Inr:
  assumes log: "operation_log (cf_append cfg) (cf_save cfg)"
    and c: "createPendingPaymentIntent cfg r req uuid nonce t s = (Inr i, s')"
  shows "pending_created r req s i s'"
proof -
  obtain a where a: "requireNonEmpty (xr_authorizer r) ''authorizer'' = Inr a"
    using c by (cases "requireNonEmpty (xr_authorizer r) ''authorizer''") (auto simp: createPendingPaymentIntent_def throw_def)
  let ?va = "t div 1000" let ?vb = "toEpochSeconds (req_deadline req) t"
  have v: "?va < ?vb" using c a by (auto simp: createPendingPaymentIntent_def Let_def throw_def not_le [symmetric])
  define i0 where "i0 = new_intent (cf_keccak cfg) (generatePaymentIntentId t uuid) (sm_op s) a req nonce ?va ?vb
    (pending_payload ''PENDING_SIGNATURE'' (sm_op s) a req nonce ?va ?vb) St_PENDING_SIGNATURE t"
  from c a v obtain st1 s2 s3 where i: "i = i0" and n: "createIntentWithNonce i0 a t (sec_store (sm_sec s)) = (Inr (), st1)"
    and tr: "transition Op_AWAITING_SIGNATURE t (s\<lparr>sm_sec := (sm_sec s)\<lparr>sec_store := st1\<rparr>\<rparr>) = (Inr (), s2)"
    and s3: "s3 = s2\<lparr>sm_op := op_stamp (\<lambda>ts. ts\<lparr>ts_paymentRequiredAt := Some (opt_default t (ts_paymentRequiredAt ts))\<rparr>) (sm_op s2)\<rparr>"
    and p: "persist cfg s3 = (Inr (), s')"
    by (auto simp: createPendingPaymentIntent_def Let_def i0_def run_simps)
  note N = createIntentWithNonce_ok [OF n]
  note T = transition_Inr [OF tr] op_only_grown [OF keepsD [OF op_only_transition tr]]
  note P = persist_Inr [OF log p]
  have st: "sec_store (sm_sec s3) = st1" "op_currentState (sm_op s3) = Op_AWAITING_SIGNATURE"
    using T by (simp_all add: s3 op_stamp_def)
  have g: "grown (sm_op s) (sm_op s3)"
    using T by (simp add: s3 op_stamp_def grown_def same_request_def requirement_kept_def getPaymentRequirementFromEvidence_def)
  have "ms_operations st1 = ms_operations (sec_store (sm_sec s))"
    using n by (auto simp: createIntentWithNonce_def reserveNonce_def createPaymentIntent_def split: if_splits sum.splits prod.splits option.splits)
  moreover have "intents_wf (sec_store (sm_sec s)) \<longrightarrow> intents_wf st1"
    using store_step_wf [OF step_create_nonce [OF n]] by blast
  moreover have "intents_wf (sec_store (sm_sec s')) = intents_wf st1"
    using P st by (intro intents_wf_ms_intents) (simp add: same_pay_def)
  moreover have "mem_intent (sec_store (sm_sec s')) = mem_intent st1"
    using P st by (simp add: same_pay_def mem_intent_def fun_eq_iff)
  ultimately show ?thesis
    using N P st g a v i unfolding pending_created_def
    by (simp add: i0_def binds_def requireNonEmpty_Inr)
qed

section \<open>A fresh request\<close>

lemma first_persist_None:
  assumes "first_persist cfg r derived k s = (Inr None, s')"
  shows "persist cfg s = (Inr (), s')"
  using assms
  by (auto simp: first_persist_def catch_act_def bind_act_def ret_def split: prod.splits sum.splits if_splits option.splits)

lemma first_persist_Some:
  "first_persist cfg r derived k s = (Inr (Some p), s') \<Longrightarrow> \<exists>opn res. p = SA_EXISTING opn res"
  by (auto simp: first_persist_def catch_act_def bind_act_def ret_def split: prod.splits sum.splits if_splits option.splits)

lemma validatePolicy_act_Inr:
  assumes "validatePolicy_act t s = (Inr True, s')"
  shows "sm_sec s' = sm_sec s \<and> grown (sm_op s) (sm_op s') \<and>
    (\<exists>req. getPaymentRequirementFromEvidence (sm_op s') = Some req \<and> within_policy (op_paymentPolicy (sm_op s)) req)"
proof -
  from assms obtain opn where v: "validatePolicy t (sm_op s) = (Inr True, opn)" "s' = s\<lparr>sm_op := opn\<rparr>"
    by (auto simp: validatePolicy_act_def split: prod.splits)
  with validatePolicy_admits [OF v(1)] validatePolicy_grown [of "sm_op s" t] show ?thesis by simp
qed

lemma stage_a_body_awaiting:
  assumes log: "operation_log (cf_append cfg) (cf_save cfg)"
    and b: "stage_a_body cfg r True ids t s = (Inr (SA_AWAITING_SIGNATURE opn req i), s')"
  shows "\<exists>s2. sm_sec s2 = sm_sec s \<and> grown (sm_op s) (sm_op s2) \<and> getPaymentRequirementFromEvidence (sm_op s2) = Some req \<and>
    within_policy (op_paymentPolicy (sm_op s)) req \<and> pending_created r req s2 i s' \<and> opn = sm_op s'"
proof -
  from b obtain s1 s2 where d: "discoveryPhase cfg t s = (Inr (), s1)" and p: "op_currentState (sm_op s1) = Op_PAYMENT_REQUIRED"
    and v: "validatePolicy_act t s1 = (Inr True, s2)" and q: "getPaymentRequirementFromEvidence (sm_op s2) = Some req"
    and c: "createPendingPaymentIntent cfg r req (fi_intent ids) (fi_nonce ids) t s2 = (Inr i, s')" and o: "opn = sm_op s'"
    by (auto simp: stage_a_body_def run_simps split: if_splits prod.splits option.splits)
  note D = op_only_grown [OF keepsD [OF op_only_discovery d]]
  note V = validatePolicy_act_Inr [OF v]
  from D have "op_paymentPolicy (sm_op s1) = op_paymentPolicy (sm_op s)" by (simp add: grown_def same_request_def)
  with D V q createPendingPaymentIntent_Inr [OF log c] o show ?thesis
    by (intro exI [of _ s2]) (auto intro: grown_trans)
qed

lemma fresh_run:
  assumes log: "operation_log (cf_append cfg) (cf_save cfg)"
    and f: "findExistingOperation cfg (xr_clientId r) k c = (None, c1)" and k: "k = resolveLogicalRequestId r t (fi_request ids)"
    and a: "createRequest cfg r ids t c = (Inr (CR_AWAITING_PAYMENT_SIGNATURE aw), c')"
  shows "\<exists>s0 s opn0. opn0 = createOperation (generateOperationId t (fi_operation ids)) k r t \<and> grown opn0 (sm_op s0) \<and>
     same_pay (sec_store c) (sec_store (sm_sec s0)) \<and>
     ms_operations (sec_store (sm_sec s0)) = js_set (op_operationId opn0) opn0 (ms_operations (sec_store c)) \<and>
     pending_created r (aw_paymentRequired aw) s0 (aw_paymentIntent aw) s \<and> sm_sec s = c' \<and>
     getPaymentRequirementFromEvidence (sm_op s0) = Some (aw_paymentRequired aw) \<and> within_policy (xr_policy r) (aw_paymentRequired aw) \<and>
     aw_operationId aw = op_operationId opn0 \<and> aw_requestId aw = k"
proof -
  define opn0 where "opn0 = createOperation (generateOperationId t (fi_operation ids)) k r t"
  define derived where "derived = (\<not> truthy (xr_requestId r) \<and> truthy (xr_clientId r))"
  have c1: "c1 = c" using f by (auto simp: findExistingOperation_def Let_def split: option.splits)
  let ?s = "\<lparr>sm_op = opn0, sm_sec = c\<lparr>sec_cursors := js_set (op_operationId opn0) 0 (sec_cursors c)\<rparr>\<rparr>"
  let ?run = "bind_act (first_persist cfg r derived k) (\<lambda>won. case won of Some p \<Rightarrow> ret p | None \<Rightarrow> stage_a_body cfg r True ids t) ?s"
  have "prepareStageA cfg r True ids t c = (case ?run of (Inr p, s) \<Rightarrow> (Inr p, sm_sec s)
      | (Inl e, s) \<Rightarrow> (case failOperation cfg Op_FAILED e t s of (res, s') \<Rightarrow> (Inr (SA_REJECTED (sm_op s') res), sm_sec s')))"
    using f c1 by (simp add: prepareStageA_def k [symmetric] derived_def opn0_def Let_def)
  with a obtain opn req i s where run: "?run = (Inr (SA_AWAITING_SIGNATURE opn req i), s)" and s: "sm_sec s = c'"
    and aw: "aw = \<lparr>aw_requestId = op_requestId opn, aw_operationId = op_operationId opn, aw_paymentRequired = req, aw_paymentIntent = i\<rparr>"
    by (auto simp: createRequest_def buildAwaitingSignatureResult_def split: prod.splits sum.splits StageAPreparation.splits)
  from run obtain won s1 where w: "first_persist cfg r derived k ?s = (Inr won, s1)"
    and b: "(case won of Some p \<Rightarrow> ret p | None \<Rightarrow> stage_a_body cfg r True ids t) s1 = (Inr (SA_AWAITING_SIGNATURE opn req i), s)"
    by (auto simp: bind_act_Inr)
  have "won = None" using w b first_persist_Some [of cfg r derived k ?s _ s1] by (cases won) (auto simp: ret_Inr)
  with w b have p: "persist cfg ?s = (Inr (), s1)" and b: "stage_a_body cfg r True ids t s1 = (Inr (SA_AWAITING_SIGNATURE opn req i), s)"
    by (auto dest: first_persist_None)
  note P = persist_Inr [OF log p]
  from stage_a_body_awaiting [OF log b] obtain s2 where s2: "sm_sec s2 = sm_sec s1" "grown (sm_op s1) (sm_op s2)"
    "getPaymentRequirementFromEvidence (sm_op s2) = Some req" "within_policy (op_paymentPolicy (sm_op s1)) req"
    "pending_created r req s2 i s" "opn = sm_op s" by blast
  have o: "op_paymentPolicy opn0 = xr_policy r" "op_requestId opn0 = k"
    by (simp_all add: opn0_def createOperation_def recordEvidence_def)
  have g: "grown opn0 (sm_op s)" using s2 P by (auto simp: pending_created_def intro: grown_trans)
  then have "op_operationId opn = op_operationId opn0" "op_requestId opn = k"
    using s2(6) o by (simp_all add: grown_def same_request_def)
  with s2 P s aw o show ?thesis
    by (intro exI [of _ s2] exI [of _ s] exI [of _ opn0]) (auto simp: opn0_def [symmetric])
qed

section \<open>The same request again\<close>

lemma js_set_twice: "js_set k v (js_set k w m) = js_set k v m"
  unfolding js_set_def by (induction m) auto

lemma find_js_set_new:
  "\<forall>x \<in> set (js_values m). \<not> P x \<Longrightarrow> P v \<Longrightarrow> find P (js_values (js_set k v m)) = Some v"
  unfolding js_set_def js_values_def by (induction m) auto

lemma no_collision_with_itself:
  assumes "grown (createOperation opId k r t) opn"
  shows "assertNoLogicalRequestCollision derived r opn k' = Inr ()"
proof -
  have "op_target opn = xr_target r" "op_method opn = xr_method r" "op_requestPayload opn = xr_payload r"
    using assms by (simp_all add: grown_def same_request_def createOperation_def recordEvidence_def)
  then show ?thesis by (simp add: assertNoLogicalRequestCollision_def Let_def)
qed

lemma intent_by_operation:
  assumes "intents_wf st" "mem_intent st k = Some i"
  shows "getPaymentIntentByOperationId st (pi_operationId i) = Some (i\<lparr>pi_payer := Some (pi_authorizer i)\<rparr>)"
proof -
  from assms(2) obtain rec where "js_get (ms_intents st) k = Some rec" "ir_intent rec = i" by (auto simp: mem_intent_def)
  then have "findIntentByOperationId st (pi_operationId i) = Some rec"
    using findIntentByOperationId_Some [OF assms(1)] by blast
  with \<open>ir_intent rec = i\<close> show ?thesis by (simp add: getPaymentIntentByOperationId_def with_payer_def)
qed

section \<open>Progress\<close>

text \<open>A store whose calls do not fail.\<close>

definition reliable :: "SecretariatConfig \<Rightarrow> bool" where
  "reliable cfg = (operation_log (cf_append cfg) (cf_save cfg) \<and> (\<forall>r st. fst (cf_append cfg r st) = Inr ()) \<and>
     (\<forall>opn st. fst (cf_save cfg opn st) = Inr ()))"

lemma flush_batch_reliable:
  "\<forall>r st. fst (app r st) = Inr () \<Longrightarrow> fst (flush_batch app k rs cs st) = None"
proof (induction rs arbitrary: cs st)
  case (Cons e rs)
  then obtain r key where e: "e = (r, key)" by fastforce
  obtain x st1 where a: "app r st = (x, st1)" by fastforce
  with Cons.prems have "x = Inr ()" by (metis fst_conv)
  with Cons a e show ?case by simp
qed simp

lemma persist_reliable:
  assumes "reliable cfg"
  shows "\<exists>c. persist cfg s = (Inr (), s\<lparr>sm_sec := c\<rparr>)"
proof -
  obtain n where n: "flush_attempts cfg = Suc n"
    using not0_implies_Suc [of "flush_attempts cfg"] by (auto simp: flush_attempts_def evidenceFlushAttempts_def)
  let ?cs = "sec_cursors (sm_sec s)" let ?st = "sec_store (sm_sec s)"
  obtain cs1 st1 where b: "flush_batch (cf_append cfg) (op_operationId (sm_op s)) (ordered_evidence (sm_op s)) ?cs ?st = (None, cs1, st1)"
    using flush_batch_reliable [of "cf_append cfg"] assms by (metis reliable_def prod.collapse)
  obtain st2 where "cf_save cfg (sm_op s) st1 = (Inr (), st2)"
    using assms by (metis reliable_def prod.collapse)
  with b n show ?thesis
    by (intro exI [of _ "(sm_sec s)\<lparr>sec_store := st2, sec_cursors := cs1\<rparr>"])
      (simp add: persist_def on_cursors_def persistOperation_def flushPendingEvidence_def)
qed

lemma validatePolicy_ok:
  assumes "getPaymentRequirementFromEvidence opn = Some req" "isDecimal (trim (pol_maxPrice (op_paymentPolicy opn)))"
    "within_policy (op_paymentPolicy opn) req"
  shows "\<exists>o2. validatePolicy t opn = (Inr True, o2) \<and> op_currentState o2 = op_currentState opn"
proof -
  let ?o = "recordEvidence POLICY ''POLICY_VALIDATION_STARTED'' (JObj []) t opn"
  have "getPaymentRequirementFromEvidence ?o = Some req" "op_paymentPolicy ?o = op_paymentPolicy opn"
    using getRequirement_record [OF assms(1)] by (simp_all add: recordEvidence_def)
  with assms(2,3) show ?thesis
    by (simp add: validatePolicy_def Let_def within_policy_def recordEvidence_def split: option.splits)
qed

text \<open>What the seller has to answer.\<close>

definition discovery_body :: "Operation \<Rightarrow> string option" where
  "discovery_body opn = (if \<not> bodyless (toUpperCase (op_method opn)) \<and> json_truthy (op_requestPayload opn)
     then Some (JSON_stringify (op_requestPayload opn)) else None)"

definition challenges :: "SecretariatConfig \<Rightarrow> Operation \<Rightarrow> int \<Rightarrow> PaymentRequirement \<Rightarrow> bool" where
  "challenges cfg opn t req = (\<exists>resp a as. cf_probe cfg (op_target opn) (op_method opn) (discovery_body opn) = Inr resp \<and>
     dr_status resp = 402 \<and> parseResponse (cf_decode cfg) (dr_headers resp) (dr_body resp) = Inr (a # as) \<and> \<not> nullish a \<and>
     req = acceptToRequirement (accept_of_json a) t)"

lemma run_steps: "steps (m # ms) s = (case m s of (Inl e, s') \<Rightarrow> (Inl e, s') | (Inr _, s') \<Rightarrow> steps ms s')" "steps [] s = (Inr (), s)"
  by (simp_all add: steps.simps)

definition moved :: "OperationStatus \<Rightarrow> int \<Rightarrow> Operation \<Rightarrow> Operation" where
  "moved n t opn = recordEvidence FINAL ''STATE_TRANSITION''
     (JObj [(''from'', JStr (op_name (op_currentState opn))), (''to'', JStr (op_name n))]) t
     (opn\<lparr>op_currentState := n, op_timestamps := (op_timestamps opn)\<lparr>ts_updatedAt := t\<rparr>\<rparr>)"

lemma transition_ok:
  "isValidTransition (op_currentState (sm_op s)) n \<Longrightarrow> transition n t s = (Inr (), s\<lparr>sm_op := moved n t (sm_op s)\<rparr>)"
  by (simp add: transition_def transitionState_def moved_def)

lemma record_ev_eq: "record_ev ph ev p t s = (Inr (), s\<lparr>sm_op := recordEvidence ph ev (JObj p) t (sm_op s)\<rparr>)"
  by (simp add: record_ev_def upd_def)

lemma upd_eq: "upd f s = (Inr (), s\<lparr>sm_op := f (sm_op s)\<rparr>)"
  by (simp add: upd_def)

lemmas forward_simps = run_steps record_ev_eq upd_eq reading_eq

lemma op_fields [simp]:
  "op_currentState (recordEvidence ph ev p t opn) = op_currentState opn"
  "op_target (recordEvidence ph ev p t opn) = op_target opn"
  "op_method (recordEvidence ph ev p t opn) = op_method opn"
  "op_requestPayload (recordEvidence ph ev p t opn) = op_requestPayload opn"
  "op_currentState (moved n t opn) = n" "op_target (moved n t opn) = op_target opn"
  "op_method (moved n t opn) = op_method opn" "op_requestPayload (moved n t opn) = op_requestPayload opn"
  "op_currentState (op_stamp f opn) = op_currentState opn"
  "op_currentState (resolveAndSnapshot sources h opn) = op_currentState opn"
  by (simp_all add: recordEvidence_def moved_def op_stamp_def resolveAndSnapshot_def)

text \<open>No requirement recorded yet.\<close>

definition undiscovered :: "Operation \<Rightarrow> bool" where
  "undiscovered opn = (\<forall>e \<in> set (op_evidence opn). ev_event e \<noteq> ''PAYMENT_REQUIREMENT_RECEIVED'')"

lemma undiscovered_steps:
  "undiscovered opn \<Longrightarrow> ev \<noteq> ''PAYMENT_REQUIREMENT_RECEIVED'' \<Longrightarrow> undiscovered (recordEvidence ph ev p t opn)"
  "undiscovered opn \<Longrightarrow> undiscovered (moved n t opn)" "undiscovered opn \<Longrightarrow> undiscovered (op_stamp f opn)"
  by (auto simp: undiscovered_def recordEvidence_def moved_def op_stamp_def)

lemma requirement_recorded:
  assumes "undiscovered opn"
  shows "getPaymentRequirementFromEvidence
    (recordEvidence DISCOVERY ''PAYMENT_REQUIREMENT_RECEIVED'' (JObj [(''requirement'', requirement_json r)]) t opn) = Some r"
proof -
  have "find (\<lambda>e. ev_phase e = DISCOVERY \<and> ev_event e = ''PAYMENT_REQUIREMENT_RECEIVED'') (op_evidence opn) = None"
    using assms by (auto simp: find_None_iff undiscovered_def)
  then show ?thesis
    by (simp add: getPaymentRequirementFromEvidence_def recordEvidence_def find_append requirement_json_roundtrip
        json_field_def [of "JObj [(''requirement'', requirement_json r)]"])
qed

lemma requirement_snapshot:
  "getPaymentRequirementFromEvidence (resolveAndSnapshot sources h opn) = getPaymentRequirementFromEvidence opn"
  by (simp add: getPaymentRequirementFromEvidence_def resolveAndSnapshot_def)

lemma handlePaymentRequired_ok:
  assumes "op_currentState (sm_op s) = Op_DISCOVERING" "undiscovered (sm_op s)"
    and "parseResponse (cf_decode cfg) (dr_headers resp) (dr_body resp) = Inr (a # as)" "\<not> nullish a"
  shows "\<exists>o2. handlePaymentRequired cfg resp t s = (Inr (), s\<lparr>sm_op := o2\<rparr>) \<and> op_currentState o2 = Op_PAYMENT_REQUIRED \<and>
    getPaymentRequirementFromEvidence o2 = Some (acceptToRequirement (accept_of_json a) t)"
proof -
  have v: "isValidTransition Op_DISCOVERING Op_PAYMENT_REQUIRED" by code_simp
  define o1 where "o1 = op_stamp (\<lambda>ts. ts\<lparr>ts_paymentRequiredAt := Some t\<rparr>) (moved Op_PAYMENT_REQUIRED t (sm_op s))"
  define o2 where "o2 = resolveAndSnapshot (cf_capabilitySources cfg) (Some (dr_headers resp))
    (recordEvidence DISCOVERY ''PAYMENT_REQUIREMENT_RECEIVED'' (JObj [(''requirement'', requirement_json (acceptToRequirement (accept_of_json a) t))]) t o1)"
  have "undiscovered o1" using assms(2) by (simp add: o1_def undiscovered_steps)
  then have "getPaymentRequirementFromEvidence o2 = Some (acceptToRequirement (accept_of_json a) t)"
    by (simp add: o2_def requirement_snapshot requirement_recorded)
  moreover have "op_currentState o2 = Op_PAYMENT_REQUIRED" by (simp add: o2_def o1_def)
  moreover have "handlePaymentRequired cfg resp t s = (Inr (), s\<lparr>sm_op :=
      recordEvidence DISCOVERY ''SELLER_CAPABILITIES_DISCOVERED'' (JObj [(''capabilities'', capability_json (op_sellerCapability o2))]) t o2\<rparr>)"
    using v assms by (simp add: handlePaymentRequired_def forward_simps transition_ok o1_def [symmetric] o2_def [symmetric])
  ultimately show ?thesis by (auto intro: getRequirement_record)
qed

lemma discovery_ok:
  assumes "op_currentState (sm_op s) = Op_CREATED" "undiscovered (sm_op s)" "challenges cfg (sm_op s) t req"
  shows "\<exists>o2. discoveryPhase cfg t s = (Inr (), s\<lparr>sm_op := o2\<rparr>) \<and> op_currentState o2 = Op_PAYMENT_REQUIRED \<and>
    getPaymentRequirementFromEvidence o2 = Some req"
proof -
  have v: "isValidTransition Op_CREATED Op_DISCOVERING" by code_simp
  define o1 where "o1 = recordEvidence DISCOVERY ''DISCOVERY_STARTED'' (JObj [(''target'', JStr (op_target (sm_op s)))]) t (moved Op_DISCOVERING t (sm_op s))"
  have d: "discovery_body o1 = discovery_body (sm_op s)" "op_target o1 = op_target (sm_op s)" "op_method o1 = op_method (sm_op s)"
    "op_requestPayload o1 = op_requestPayload (sm_op s)" "op_currentState o1 = Op_DISCOVERING" "undiscovered o1"
    using assms(2) by (simp_all add: o1_def discovery_body_def undiscovered_steps)
  obtain resp a as where q: "cf_probe cfg (op_target o1) (op_method o1) (discovery_body o1) = Inr resp" "dr_status resp = 402"
    "parseResponse (cf_decode cfg) (dr_headers resp) (dr_body resp) = Inr (a # as)" "\<not> nullish a"
    "req = acceptToRequirement (accept_of_json a) t"
    using assms(3) d by (auto simp: challenges_def)
  obtain o2 where h: "handlePaymentRequired cfg resp t (s\<lparr>sm_op := o1\<rparr>) = (Inr (), s\<lparr>sm_op := o2\<rparr>)"
    "op_currentState o2 = Op_PAYMENT_REQUIRED" "getPaymentRequirementFromEvidence o2 = Some req"
    using handlePaymentRequired_ok [of "s\<lparr>sm_op := o1\<rparr>" cfg resp a as t] d q by auto
  have "discoveryPhase cfg t s = (Inr (), s\<lparr>sm_op := o2\<rparr>)"
    using v assms(1) q(1,2) h(1) d(2,3)
    by (simp add: discoveryPhase_def forward_simps transition_ok catch_act_def o1_def [symmetric] discovery_body_def [symmetric] Let_def)
  with h show ?thesis by blast
qed

text \<open>Nothing in the store stands in the way of the new intent.\<close>

definition intent_unused :: "fresh_ids \<Rightarrow> int \<Rightarrow> mem_store \<Rightarrow> bool" where
  "intent_unused ids t st = (\<not> js_has (ms_nonces st) (fi_nonce ids) \<and>
     \<not> js_has (ms_intents st) (generatePaymentIntentId t (fi_intent ids)) \<and>
     (\<forall>rec \<in> set (js_values (ms_intents st)). pi_operationId (ir_intent rec) \<noteq> generateOperationId t (fi_operation ids)))"

lemma intent_unused_same_pay: "same_pay st st' \<Longrightarrow> intent_unused ids t st \<Longrightarrow> intent_unused ids t st'"
  by (simp add: same_pay_def intent_unused_def)

lemma createIntentWithNonce_done:
  assumes "\<not> js_has (ms_nonces st) (pi_nonce i)" "\<not> js_has (ms_intents st) (pi_paymentIntentId i)"
    and "\<forall>rec \<in> set (js_values (ms_intents st)). pi_operationId (ir_intent rec) \<noteq> pi_operationId i"
  shows "\<exists>st'. createIntentWithNonce i payer t st = (Inr (), st')"
  using assms by (auto simp: createIntentWithNonce_def reserveNonce_def createPaymentIntent_def)

lemma createPendingPaymentIntent_done:
  assumes "reliable cfg" "requireNonEmpty (xr_authorizer r) ''authorizer'' = Inr a" "t div 1000 < toEpochSeconds (req_deadline req) t"
    and "intent_unused ids t (sec_store (sm_sec s))" "op_operationId (sm_op s) = generateOperationId t (fi_operation ids)"
    and "op_currentState (sm_op s) = Op_PAYMENT_REQUIRED"
  shows "\<exists>i s'. createPendingPaymentIntent cfg r req (fi_intent ids) (fi_nonce ids) t s = (Inr i, s')"
proof -
  have v: "isValidTransition Op_PAYMENT_REQUIRED Op_AWAITING_SIGNATURE" by code_simp
  define i0 where "i0 = new_intent (cf_keccak cfg) (generatePaymentIntentId t (fi_intent ids)) (sm_op s) a req (fi_nonce ids) (t div 1000)
    (toEpochSeconds (req_deadline req) t)
    (pending_payload ''PENDING_SIGNATURE'' (sm_op s) a req (fi_nonce ids) (t div 1000) (toEpochSeconds (req_deadline req) t)) St_PENDING_SIGNATURE t"
  have "pi_nonce i0 = fi_nonce ids" "pi_operationId i0 = generateOperationId t (fi_operation ids)"
    "pi_paymentIntentId i0 = generatePaymentIntentId t (fi_intent ids)" using assms(5) by (simp_all add: i0_def new_intent_def)
  then obtain st1 where n: "createIntentWithNonce i0 a t (sec_store (sm_sec s)) = (Inr (), st1)"
    using createIntentWithNonce_done [of "sec_store (sm_sec s)" i0 a t] assms(4) by (auto simp: intent_unused_def)
  define s1 where "s1 = s\<lparr>sm_sec := (sm_sec s)\<lparr>sec_store := st1\<rparr>\<rparr>"
  define s2 where "s2 = s1\<lparr>sm_op := op_stamp (\<lambda>ts. ts\<lparr>ts_paymentRequiredAt := Some (opt_default t (ts_paymentRequiredAt ts))\<rparr>)
    (moved Op_AWAITING_SIGNATURE t (sm_op s1))\<rparr>"
  obtain c where "persist cfg s2 = (Inr (), s2\<lparr>sm_sec := c\<rparr>)" using persist_reliable [OF assms(1)] by blast
  with assms(2,3) n v assms(6) show ?thesis
    by (simp add: createPendingPaymentIntent_def Let_def forward_simps bind_act_def i0_def [symmetric] on_store_def s1_def [symmetric] transition_ok
        s2_def [symmetric] ret_def) (simp add: s1_def transition_ok s2_def ret_def forward_simps)
qed

lemma stage_a_body_done:
  assumes "reliable cfg" "op_currentState (sm_op s) = Op_CREATED" "undiscovered (sm_op s)" "challenges cfg (sm_op s) t req"
    and "isDecimal (trim (pol_maxPrice (op_paymentPolicy (sm_op s))))" "within_policy (op_paymentPolicy (sm_op s)) req"
    and "requireNonEmpty (xr_authorizer r) ''authorizer'' = Inr a" "t div 1000 < toEpochSeconds (req_deadline req) t"
    and "intent_unused ids t (sec_store (sm_sec s))" "op_operationId (sm_op s) = generateOperationId t (fi_operation ids)"
  shows "\<exists>opn i s'. stage_a_body cfg r True ids t s = (Inr (SA_AWAITING_SIGNATURE opn req i), s')"
proof -
  obtain o2 where d: "discoveryPhase cfg t s = (Inr (), s\<lparr>sm_op := o2\<rparr>)" "op_currentState o2 = Op_PAYMENT_REQUIRED"
    "getPaymentRequirementFromEvidence o2 = Some req" using discovery_ok [OF assms(2-4)] by blast
  have "grown (sm_op s) o2" using op_only_grown [OF keepsD [OF op_only_discovery d(1)]] by simp
  then have same: "op_paymentPolicy o2 = op_paymentPolicy (sm_op s)" "op_operationId o2 = op_operationId (sm_op s)"
    by (simp_all add: grown_def same_request_def)
  obtain o3 where v: "validatePolicy t o2 = (Inr True, o3)" "op_currentState o3 = Op_PAYMENT_REQUIRED"
    using validatePolicy_ok [OF d(3), of t] assms(5,6) same d(2) by auto
  have g: "grown o2 o3" using validatePolicy_grown [of o2 t] v(1) by simp
  then have "getPaymentRequirementFromEvidence o3 = Some req" "op_operationId o3 = op_operationId (sm_op s)"
    using d(3) same by (simp_all add: grown_def same_request_def requirement_kept_def)
  moreover from this(2) obtain i s' where "createPendingPaymentIntent cfg r req (fi_intent ids) (fi_nonce ids) t (s\<lparr>sm_op := o3\<rparr>) = (Inr i, s')"
    using createPendingPaymentIntent_done [OF assms(1,7,8), of ids "s\<lparr>sm_op := o3\<rparr>"] assms(9,10) v(2) by auto
  ultimately show ?thesis
    using d v by (auto simp: stage_a_body_def bind_act_def reading_eq validatePolicy_act_def ret_def)
qed

section \<open>Progress of a request\<close>

lemma prepareStageA_awaits:
  assumes "reliable cfg"
    and "findExistingOperation cfg (xr_clientId r) k c = (None, c1)" "k = resolveLogicalRequestId r t (fi_request ids)"
    and "challenges cfg (createOperation (generateOperationId t (fi_operation ids)) k r t) t req"
    and "isDecimal (trim (pol_maxPrice (xr_policy r)))" "within_policy (xr_policy r) req"
    and "requireNonEmpty (xr_authorizer r) ''authorizer'' = Inr a" "t div 1000 < toEpochSeconds (req_deadline req) t"
    and "intent_unused ids t (sec_store c)"
  shows "\<exists>opn i c'. prepareStageA cfg r True ids t c = (Inr (SA_AWAITING_SIGNATURE opn req i), c') \<and>
    op_operationId opn = generateOperationId t (fi_operation ids)"
proof -
  define opn0 where "opn0 = createOperation (generateOperationId t (fi_operation ids)) k r t"
  define derived where "derived = (\<not> truthy (xr_requestId r) \<and> truthy (xr_clientId r))"
  have c1: "c1 = c" using assms(2) by (auto simp: findExistingOperation_def Let_def split: option.splits)
  have o: "op_currentState opn0 = Op_CREATED" "undiscovered opn0" "op_paymentPolicy opn0 = xr_policy r"
    "op_operationId opn0 = generateOperationId t (fi_operation ids)"
    by (simp_all add: opn0_def createOperation_def undiscovered_def recordEvidence_def)
  let ?s = "\<lparr>sm_op = opn0, sm_sec = c\<lparr>sec_cursors := js_set (op_operationId opn0) 0 (sec_cursors c)\<rparr>\<rparr>"
  obtain c2 where p: "persist cfg ?s = (Inr (), ?s\<lparr>sm_sec := c2\<rparr>)" using persist_reliable [OF assms(1)] by blast
  have "same_pay (sec_store c) (sec_store c2)"
    using quiet_persist [of cfg] keepsD [where R = quiet and m = "persist cfg", OF _ p] assms(1) by (simp add: quiet_def reliable_def)
  then have u: "intent_unused ids t (sec_store c2)" using assms(9) by (rule intent_unused_same_pay)
  obtain opn i s' where b: "stage_a_body cfg r True ids t (?s\<lparr>sm_sec := c2\<rparr>) = (Inr (SA_AWAITING_SIGNATURE opn req i), s')"
    using stage_a_body_done [OF assms(1), of "?s\<lparr>sm_sec := c2\<rparr>" t req r a ids] assms(4) [folded opn0_def] assms(5-8) o u by auto
  have "first_persist cfg r derived k ?s = (Inr None, ?s\<lparr>sm_sec := c2\<rparr>)"
    using p by (simp add: first_persist_def catch_act_def bind_act_def ret_def)
  with b assms(2) c1 have "prepareStageA cfg r True ids t c = (Inr (SA_AWAITING_SIGNATURE opn req i), sm_sec s')"
    by (simp add: prepareStageA_def assms(3) [symmetric] Let_def opn0_def [symmetric] derived_def [symmetric] bind_act_def)
  moreover have "operation_log (cf_append cfg) (cf_save cfg)" using assms(1) by (simp add: reliable_def)
  then obtain s2 where s2: "grown opn0 (sm_op s2)" "pending_created r req s2 i s'" "opn = sm_op s'"
    using stage_a_body_awaiting [OF _ b] by auto
  then have "op_operationId opn = op_operationId opn0" by (auto simp: pending_created_def grown_id)
  ultimately show ?thesis using o(4) by simp
qed

section \<open>A concrete seller\<close>

definition sample_accept :: json where
  "sample_accept = JObj [(''scheme'', JStr ''exact''), (''network'', JStr ''base''), (''asset'', JStr ''usdc''),
     (''amount'', JStr ''500''), (''payTo'', JStr ''0xBB''), (''maxTimeoutSeconds'', JNum 1)]"

definition sample_probe :: "string \<Rightarrow> string \<Rightarrow> string option \<Rightarrow> exn + DiscoveryResponse" where
  "sample_probe url method body = Inr \<lparr>dr_status = 402, dr_statusText = ''Payment Required'', dr_headers = (\<lambda>h. None),
     dr_entries = [], dr_body = Inr (JObj [(''accepts'', JArr [sample_accept])])\<rparr>"

definition sample_config :: SecretariatConfig where
  "sample_config = \<lparr>cf_append = mem_append, cf_save = mem_save, cf_findByClient = None, cf_probe = sample_probe,
     cf_decode = (\<lambda>_. None), cf_parse = (\<lambda>_. None), cf_bundle = (\<lambda>_. JNull), cf_keccak = (\<lambda>s. ''#'' @ s), cf_capabilitySources = [],
     cf_signer = None, cf_adapters = (\<lambda>_. None), cf_settlementAdapter = None, cf_standardTransport = None,
     cf_reconciliationEngine = None, cf_handoff = (\<lambda>_ _ _ _ _ st. (Inr True, st)), cf_defaultPaymentTransport = None,
     cf_evidencePersistenceRetries = None, cf_maxExecutionAttempts = None\<rparr>"

definition sample_policy :: PaymentPolicy where
  "sample_policy = \<lparr>pol_maxPrice = ''1000'', pol_allowedNetworks = [''base''], pol_allowedAssets = [''USDC''],
     pol_allowedSellers = None, pol_authorizationMode = Explicit, pol_transport = None\<rparr>"

definition sample_request :: ExecuteRequest where
  "sample_request = \<lparr>xr_requestId = Some ''r1'', xr_clientId = None, xr_target = ''https://seller/x'', xr_method = ''POST'',
     xr_payload = JObj [(''q'', JNum 1)], xr_policy = sample_policy, xr_authorizer = Some ''0xAA''\<rparr>"

definition sample_ids :: fresh_ids where
  "sample_ids = \<lparr>fi_operation = ''u1'', fi_request = ''u2'', fi_intent = ''u3'', fi_nonce = ''0x01'', fi_probe = ''u4'',
     fi_job = ''u5'', fi_attempt = ''u6''\<rparr>"

definition sample_sec :: sec where
  "sample_sec = \<lparr>sec_store = empty_store, sec_exec = empty_exec, sec_cursors = []\<rparr>"

definition sample_created :: "(exn + CreateRequestResult) \<times> sec" where
  "sample_created = createRequest sample_config sample_request sample_ids 5 sample_sec"

definition awaited :: "(exn + CreateRequestResult) \<times> sec \<Rightarrow> AwaitingSignature option" where
  "awaited x = (case fst x of Inr (CR_AWAITING_PAYMENT_SIGNATURE aw) \<Rightarrow> Some aw | _ \<Rightarrow> None)"

lemma awaited_Some: "awaited x = Some aw \<Longrightarrow> x = (Inr (CR_AWAITING_PAYMENT_SIGNATURE aw), snd x)"
  by (cases x) (auto simp: awaited_def split: sum.splits CreateRequestResult.splits)

definition sample_challenge :: PaymentRequirement where
  "sample_challenge = acceptToRequirement (accept_of_json sample_accept) 5"

lemma sample_reliable: "reliable sample_config"
  by (simp add: reliable_def sample_config_def mem_operation_log) (simp add: mem_append_def mem_save_def)

lemma sample_unknown:
  "findExistingOperation sample_config (xr_clientId sample_request) (resolveLogicalRequestId sample_request 5 (fi_request sample_ids)) sample_sec =
     (None, sample_sec)"
  by code_simp

lemma sample_challenges: "challenges sample_config (createOperation i k sample_request 5) 5 sample_challenge"
proof -
  have "parseResponse (\<lambda>_. None) (\<lambda>h. None) (Inr (JObj [(''accepts'', JArr [sample_accept])])) = Inr [sample_accept]" by code_simp
  then show ?thesis
    by (auto simp: challenges_def sample_config_def sample_probe_def sample_challenge_def sample_accept_def nullish_def)
qed

lemma sample_admitted: "isDecimal (trim (pol_maxPrice (xr_policy sample_request)))" "within_policy (xr_policy sample_request) sample_challenge"
  "requireNonEmpty (xr_authorizer sample_request) ''authorizer'' = Inr ''0xAA''"
  "5 div 1000 < toEpochSeconds (req_deadline sample_challenge) 5" "intent_unused sample_ids 5 (sec_store sample_sec)"
  "req_amount sample_challenge = ''500''" "generateOperationId 5 (fi_operation sample_ids) = ''op_5_u1''"
  by code_simp+

lemma sample_awaited:
  "\<exists>aw. awaited sample_created = Some aw \<and> aw_paymentRequired aw = sample_challenge \<and> aw_operationId aw = ''op_5_u1''"
proof -
  from prepareStageA_awaits [OF sample_reliable sample_unknown refl sample_challenges sample_admitted(1-5)] obtain opn i c' where
    "prepareStageA sample_config sample_request True sample_ids 5 sample_sec = (Inr (SA_AWAITING_SIGNATURE opn sample_challenge i), c')"
    "op_operationId opn = ''op_5_u1''" using sample_admitted(7) by auto
  then show ?thesis by (simp add: sample_created_def createRequest_def buildAwaitingSignatureResult_def awaited_def)
qed

section \<open>Properties\<close>

text \<open>
  Property C31. Stage A stops at a durable, fully bound intent: when a new request is answered with an
  awaited signature, the store has gained exactly that intent, in state PENDING_SIGNATURE, with
  payee, amount, asset and network of the discovered requirement, the authorizer the request names
  and a non-empty validity window; the requirement is within the request's policy; and the
  operation is stored under its id, awaiting the signature, with that requirement in its evidence.
\<close>

theorem stage_a_awaits_a_bound_intent:
  assumes "operation_log (cf_append cfg) (cf_save cfg)"
    and "findExistingOperation cfg (xr_clientId r) (resolveLogicalRequestId r t (fi_request ids)) c = (None, c1)"
    and "createRequest cfg r ids t c = (Inr (CR_AWAITING_PAYMENT_SIGNATURE aw), c')"
    and "i = aw_paymentIntent aw" "req = aw_paymentRequired aw"
  shows "mem_intent (sec_store c) (pi_paymentIntentId i) = None \<and>
    mem_intent (sec_store c') = (mem_intent (sec_store c))(pi_paymentIntentId i \<mapsto> i) \<and>
    pi_settlementState i = St_PENDING_SIGNATURE \<and> pi_operationId i = aw_operationId aw \<and> binds i r req \<and> within_policy (xr_policy r) req \<and>
    (\<exists>opn. getOperation (sec_store c') (aw_operationId aw) = Some opn \<and> op_currentState opn = Op_AWAITING_SIGNATURE \<and>
       getPaymentRequirementFromEvidence opn = Some req)"
proof -
  from fresh_run [OF assms(1,2) refl assms(3)] assms(4,5) obtain s0 s opn0 where
    A: "grown opn0 (sm_op s0)" "same_pay (sec_store c) (sec_store (sm_sec s0))" "pending_created r req s0 i s" "sm_sec s = c'"
      "getPaymentRequirementFromEvidence (sm_op s0) = Some req" "within_policy (xr_policy r) req" "aw_operationId aw = op_operationId opn0" by blast
  have m: "mem_intent (sec_store (sm_sec s0)) = mem_intent (sec_store c)"
    using A(2) by (simp add: same_pay_def mem_intent_def fun_eq_iff)
  have "grown (sm_op s0) (sm_op s)" using A(3) by (simp add: pending_created_def)
  then have "getPaymentRequirementFromEvidence (sm_op s) = Some req" "op_operationId (sm_op s) = op_operationId opn0"
    using A(1,5) by (auto simp: grown_def requirement_kept_def same_request_def)
  with A m show ?thesis by (auto simp: pending_created_def getOperation_def grown_id)
qed

theorem stage_a_awaits_a_bound_intent_witness:
  "\<exists>aw opn. awaited sample_created = Some aw \<and> pi_value (aw_paymentIntent aw) = ''500'' \<and>
    pi_settlementState (aw_paymentIntent aw) = St_PENDING_SIGNATURE \<and>
    getOperation (sec_store (snd sample_created)) ''op_5_u1'' = Some opn \<and> op_currentState opn = Op_AWAITING_SIGNATURE"
proof -
  obtain aw where aw: "awaited sample_created = Some aw" "aw_paymentRequired aw = sample_challenge" "aw_operationId aw = ''op_5_u1''"
    using sample_awaited by blast
  have l: "operation_log (cf_append sample_config) (cf_save sample_config)" by (simp add: sample_config_def mem_operation_log)
  from stage_a_awaits_a_bound_intent [OF l sample_unknown awaited_Some [OF aw(1), unfolded sample_created_def] refl refl] aw sample_admitted(6)
  show ?thesis by (auto simp: sample_created_def binds_def)
qed

text \<open>
  A repeated request changes nothing: when a request with an id of its own or a client
  was answered with an awaited signature, the same request at any later time is answered with the
  same operation, requirement and intent, and payment store and execution store stay as they are.
\<close>

theorem repeated_request_changes_nothing:
  assumes "operation_log (cf_append cfg) (cf_save cfg)" "cf_findByClient cfg = None" "intents_wf (sec_store c)"
    and "truthy (xr_requestId r) \<or> truthy (xr_clientId r)"
    and "findExistingOperation cfg (xr_clientId r) (resolveLogicalRequestId r t (fi_request ids)) c = (None, c1)"
    and "createRequest cfg r ids t c = (Inr (CR_AWAITING_PAYMENT_SIGNATURE aw), c')"
    and "i = aw_paymentIntent aw" "createRequest cfg r ids' t' c' = (x, c'')"
  shows "x = Inr (CR_AWAITING_PAYMENT_SIGNATURE (aw\<lparr>aw_paymentIntent := i\<lparr>pi_payer := Some (pi_authorizer i)\<rparr>\<rparr>)) \<and>
    sec_store c'' = sec_store c' \<and> sec_exec c'' = sec_exec c'"
proof -
  define k where "k = resolveLogicalRequestId r t (fi_request ids)"
  have k': "resolveLogicalRequestId r t' (fi_request ids') = k"
    using assms(4) by (auto simp: k_def resolveLogicalRequestId_def)
  obtain s0 s opn0 where A: "opn0 = createOperation (generateOperationId t (fi_operation ids)) k r t" "grown opn0 (sm_op s0)"
      "same_pay (sec_store c) (sec_store (sm_sec s0))"
      "ms_operations (sec_store (sm_sec s0)) = js_set (op_operationId opn0) opn0 (ms_operations (sec_store c))"
      "pending_created r (aw_paymentRequired aw) s0 i s" "sm_sec s = c'"
      "getPaymentRequirementFromEvidence (sm_op s0) = Some (aw_paymentRequired aw)"
      "aw_operationId aw = op_operationId opn0" "aw_requestId aw = k"
    using fresh_run [OF assms(1) assms(5)[folded k_def] k_def assms(6)] assms(7) by blast
  let ?opn = "sm_op s"
  have g: "grown (sm_op s0) ?opn" "grown opn0 ?opn" using A(2,5) by (auto simp: pending_created_def intro: grown_trans)
  have id: "op_operationId ?opn = op_operationId opn0" "op_requestId ?opn = k"
    using g(2) by (simp_all add: grown_def same_request_def A(1) createOperation_def recordEvidence_def)
  have ops: "ms_operations (sec_store c') = js_set (op_operationId opn0) ?opn (ms_operations (sec_store c))"
    using A(4,5,6) id by (auto simp: pending_created_def js_set_twice)
  have none: "\<forall>opn \<in> set (js_values (ms_operations (sec_store c))). op_requestId opn \<noteq> k"
    using assms(2,5) by (auto simp: findExistingOperation_def k_def [symmetric] getOperationByRequestId_def find_None_iff Let_def
        split: option.splits bool.splits)
  have look: "getOperationByRequestId (sec_store c') k None = Some ?opn"
    unfolding getOperationByRequestId_def ops by (rule find_js_set_new) (use none id in auto)
  have wf: "intents_wf (sec_store c')" "mem_intent (sec_store c') (pi_paymentIntentId i) = Some i"
    using A(3,5,6) assms(3) intents_wf_ms_intents [of "sec_store (sm_sec s0)" "sec_store c"]
    by (auto simp: pending_created_def same_pay_def)
  have op: "pi_operationId i = op_operationId ?opn" "op_currentState ?opn = Op_AWAITING_SIGNATURE"
    "getPaymentRequirementFromEvidence ?opn = Some (aw_paymentRequired aw)"
    using A(5,7) g(1) by (auto simp: pending_created_def grown_def requirement_kept_def same_request_def)
  from intent_by_operation [OF wf] have dpi: "getPaymentIntentByOperationId (sec_store c') (op_operationId ?opn) =
      Some (i\<lparr>pi_payer := Some (pi_authorizer i)\<rparr>)" by (simp add: op(1))
  have f: "findExistingOperation cfg (xr_clientId r) k c' = (Some ?opn, seed_cursor ?opn c')"
    using assms(2) look by (simp add: findExistingOperation_def Let_def split: bool.splits)
  have "existing_operation ?opn (seed_cursor ?opn c') = SA_AWAITING_SIGNATURE ?opn (aw_paymentRequired aw) (i\<lparr>pi_payer := Some (pi_authorizer i)\<rparr>)"
    using op dpi by (simp add: existing_operation_def seed_cursor_def)
  with f no_collision_with_itself [OF g(2)[unfolded A(1)]] assms(8) id A(8,9) show ?thesis
    by (cases aw) (auto simp: createRequest_def prepareStageA_def k' Let_def buildAwaitingSignatureResult_def seed_cursor_def)
qed

theorem repeated_request_changes_nothing_witness:
  "\<exists>aw aw' c''. awaited sample_created = Some aw \<and>
     createRequest sample_config sample_request (sample_ids\<lparr>fi_operation := ''w1''\<rparr>) 9 (snd sample_created) =
       (Inr (CR_AWAITING_PAYMENT_SIGNATURE aw'), c'') \<and>
     aw_operationId aw' = aw_operationId aw \<and> sec_store c'' = sec_store (snd sample_created)"
proof -
  obtain aw where aw: "awaited sample_created = Some aw" using sample_awaited by auto
  obtain x c'' where x: "createRequest sample_config sample_request (sample_ids\<lparr>fi_operation := ''w1''\<rparr>) 9 (snd sample_created) = (x, c'')"
    by fastforce
  have l: "operation_log (cf_append sample_config) (cf_save sample_config)" "cf_findByClient sample_config = None"
    "intents_wf (sec_store sample_sec)" "truthy (xr_requestId sample_request) \<or> truthy (xr_clientId sample_request)"
    by (simp_all add: sample_config_def mem_operation_log sample_sec_def intents_wf_empty sample_request_def truthy_def)
  from repeated_request_changes_nothing [OF l sample_unknown awaited_Some [OF aw, unfolded sample_created_def] refl x [unfolded sample_created_def]] aw x
  show ?thesis by (auto simp: sample_created_def)
qed

text \<open>
  Property C32. Stage A makes progress: over a store whose calls do not fail, a new request whose seller
  answers the probe with a 402 challenge within the request's policy, whose deadline is in the
  future, which names an authorizer and whose fresh nonce and intent id are unused, is answered
  with an awaited signature for exactly the challenged requirement.
\<close>

theorem stage_a_reaches_signature:
  assumes "reliable cfg"
    and "findExistingOperation cfg (xr_clientId r) k c = (None, c1)" "k = resolveLogicalRequestId r t (fi_request ids)"
    and "challenges cfg (createOperation (generateOperationId t (fi_operation ids)) k r t) t req"
    and "isDecimal (trim (pol_maxPrice (xr_policy r)))" "within_policy (xr_policy r) req"
    and "requireNonEmpty (xr_authorizer r) ''authorizer'' = Inr a" "t div 1000 < toEpochSeconds (req_deadline req) t"
    and "intent_unused ids t (sec_store c)"
  shows "\<exists>aw c'. createRequest cfg r ids t c = (Inr (CR_AWAITING_PAYMENT_SIGNATURE aw), c') \<and> aw_paymentRequired aw = req \<and>
    aw_operationId aw = generateOperationId t (fi_operation ids)"
proof -
  from prepareStageA_awaits [OF assms] obtain opn i c' where
    "prepareStageA cfg r True ids t c = (Inr (SA_AWAITING_SIGNATURE opn req i), c')" "op_operationId opn = generateOperationId t (fi_operation ids)"
    by blast
  then show ?thesis by (simp add: createRequest_def buildAwaitingSignatureResult_def)
qed

theorem stage_a_reaches_signature_witness:
  "\<exists>aw c'. createRequest sample_config sample_request sample_ids 5 sample_sec = (Inr (CR_AWAITING_PAYMENT_SIGNATURE aw), c') \<and>
     aw_paymentRequired aw = sample_challenge \<and> aw_operationId aw = ''op_5_u1''"
  using stage_a_reaches_signature [OF sample_reliable sample_unknown refl sample_challenges sample_admitted(1-5)] sample_admitted(7) by simp

end
