(* ===== verification/StageBind.thy ===== *)
theory StageBind
  imports StageA
begin

text \<open>
  Stage B of the driver: a payload that does not fit the durable intent is refused without a
  change, and nothing reaches a payment transport but what the durable intent binds.
\<close>

section \<open>A guard in front of the transports\<close>

type_synonym submit_call = "DurablePaymentIntent \<Rightarrow> PaymentPayload \<Rightarrow> mem_store \<Rightarrow> (exn + SubmitResult) \<times> mem_store"

definition guarded :: "(DurablePaymentIntent \<Rightarrow> PaymentPayload \<Rightarrow> mem_store \<Rightarrow> bool) \<Rightarrow> submit_call \<Rightarrow> submit_call" where
  "guarded ok call dpi q st = (if ok dpi q st then call dpi q st else (Inl ''unbound payment'', st))"

text \<open>The configuration whose transports refuse every call that is not \<open>ok\<close>.\<close>

definition guard_transports :: "(DurablePaymentIntent \<Rightarrow> PaymentPayload \<Rightarrow> mem_store \<Rightarrow> bool) \<Rightarrow> SecretariatConfig \<Rightarrow> SecretariatConfig" where
  "guard_transports ok cfg = cfg\<lparr>
     cf_settlementAdapter := map_option (guarded ok) (cf_settlementAdapter cfg),
     cf_standardTransport := map_option (\<lambda>call dpi q target. guarded ok (\<lambda>d p. call d p target) dpi q) (cf_standardTransport cfg)\<rparr>"

text \<open>The payload on the wire carries the intent's terms.\<close>

definition carries :: "DurablePaymentIntent \<Rightarrow> PaymentPayload \<Rightarrow> bool" where
  "carries dpi q = (pp_x402Version q = 2 \<and> pp_authorization q =
       \<lparr>ta_from = pi_authorizer dpi, ta_to = pi_payTo dpi, ta_value = pi_value dpi, ta_validAfter = string_of_int (pi_validAfter dpi),
        ta_validBefore = string_of_int (pi_validBefore dpi), ta_nonce = pi_nonce dpi\<rparr> \<and>
     pa_network (pp_accepted q) = pi_network dpi \<and> pa_amount (pp_accepted q) = pi_value dpi \<and>
     pa_asset (pp_accepted q) = pi_asset dpi \<and> pa_payTo (pp_accepted q) = pi_payTo dpi)"

text \<open>The intent as the store has it: authorized, bound to \<open>p\<close>, and \<open>p\<close> fits its terms.\<close>

definition bound_intent :: "(string \<Rightarrow> string) \<Rightarrow> bool \<Rightarrow> json \<Rightarrow> DurablePaymentIntent \<Rightarrow> bool" where
  "bound_intent keccak fresh p dpi = (pi_settlementState dpi = St_AUTHORIZED \<and> pi_paymentPayloadHash dpi = keccak (JSON_stringify p) \<and>
     (fresh \<longrightarrow> payload_matches p dpi (requirementFromIntent dpi)))"

definition bound_call :: "(string \<Rightarrow> string) \<Rightarrow> bool \<Rightarrow> json \<Rightarrow> DurablePaymentIntent \<Rightarrow> PaymentPayload \<Rightarrow> mem_store \<Rightarrow> bool" where
  "bound_call keccak fresh p dpi q st =
     (getPaymentIntentByOperationId st (pi_operationId dpi) = Some dpi \<and> bound_intent keccak fresh p dpi \<and> carries dpi q)"

text \<open>Whether the request still awaited its signature.\<close>

definition intent_of_request :: "SecretariatConfig \<Rightarrow> string \<Rightarrow> sec \<Rightarrow> DurablePaymentIntent option" where
  "intent_of_request cfg k c = Option.bind (fst (findExistingOperation cfg None k c))
     (\<lambda>opn. getPaymentIntentByOperationId (sec_store c) (op_operationId opn))"

definition awaits_signature :: "SecretariatConfig \<Rightarrow> string \<Rightarrow> sec \<Rightarrow> bool" where
  "awaits_signature cfg k c = (map_option pi_settlementState (intent_of_request cfg k c) = Some St_PENDING_SIGNATURE)"

section \<open>The guard is never hit\<close>

lemma guard_fields [simp]:
  "cf_append (guard_transports ok cfg) = cf_append cfg" "cf_save (guard_transports ok cfg) = cf_save cfg"
  "cf_keccak (guard_transports ok cfg) = cf_keccak cfg" "cf_parse (guard_transports ok cfg) = cf_parse cfg"
  "cf_bundle (guard_transports ok cfg) = cf_bundle cfg" "cf_findByClient (guard_transports ok cfg) = cf_findByClient cfg"
  "cf_reconciliationEngine (guard_transports ok cfg) = cf_reconciliationEngine cfg" "cf_handoff (guard_transports ok cfg) = cf_handoff cfg"
  "cf_defaultPaymentTransport (guard_transports ok cfg) = cf_defaultPaymentTransport cfg"
  "cf_evidencePersistenceRetries (guard_transports ok cfg) = cf_evidencePersistenceRetries cfg"
  "cf_maxExecutionAttempts (guard_transports ok cfg) = cf_maxExecutionAttempts cfg"
  by (simp_all add: guard_transports_def)

lemma guard_transport_fields:
  "cf_settlementAdapter (guard_transports ok cfg) = map_option (guarded ok) (cf_settlementAdapter cfg)"
  "cf_standardTransport (guard_transports ok cfg) =
     map_option (\<lambda>call dpi q target. guarded ok (\<lambda>d p. call d p target) dpi q) (cf_standardTransport cfg)"
  by (simp_all add: guard_transports_def)

lemma flush_attempts_guard: "flush_attempts (guard_transports ok cfg) = flush_attempts cfg"
  by (simp add: flush_attempts_def)

lemma persist_guard: "persist (guard_transports ok cfg) = persist cfg"
  by (simp add: persist_def fun_eq_iff flush_attempts_guard)

lemma resolve_guard: "resolvePaymentTransport (guard_transports ok cfg) opn = resolvePaymentTransport cfg opn"
  by (simp add: resolvePaymentTransport_def)

lemma observe_guard: "observeSettlement (guard_transports ok cfg) fresh t = observeSettlement cfg fresh t"
proof -
  have "settlement_note (guard_transports ok cfg) = settlement_note cfg" by (simp add: settlement_note_def fun_eq_iff)
  then have out: "apply_outcome (guard_transports ok cfg) = apply_outcome cfg" by (simp add: apply_outcome_def fun_eq_iff)
  show ?thesis unfolding observeSettlement_def guard_fields out ..
qed

lemma settle_guard: "settle_if_settled (guard_transports ok cfg) ids t = settle_if_settled cfg ids t"
proof -
  have ob: "obligation_job (guard_transports ok cfg) = obligation_job cfg" by (simp add: obligation_job_def fun_eq_iff)
  have job: "persistSettlementAndExecutionObligation (guard_transports ok cfg) ids t = persistSettlementAndExecutionObligation cfg ids t"
    unfolding persistSettlementAndExecutionObligation_def guard_fields ob ..
  show ?thesis unfolding settle_if_settled_def settleToExecution_def persist_guard resolve_guard job ..
qed

lemma find_guard: "findExistingOperation (guard_transports ok cfg) cl k c = findExistingOperation cfg cl k c"
  by (simp add: findExistingOperation_def)

lemma v2_carries: "carries dpi (v2_payload dpi auth)" "carries dpi (standard_payload opn (v2_payload dpi auth))"
  by (simp_all add: carries_def v2_payload_def standard_payload_def)

definition ready :: "(string \<Rightarrow> string) \<Rightarrow> bool \<Rightarrow> json \<Rightarrow> sm \<Rightarrow> bool" where
  "ready keccak fresh p s = (\<exists>dpi. getPaymentIntentByOperationId (sec_store (sm_sec s)) (op_operationId (sm_op s)) = Some dpi \<and>
     bound_intent keccak fresh p dpi)"

lemma intent_by_operation_id:
  "getPaymentIntentByOperationId st k = Some dpi \<Longrightarrow> pi_operationId dpi = k"
  by (auto simp: getPaymentIntentByOperationId_def findIntentByOperationId_def find_Some_iff with_payer_def)

lemma intent_lookup_same_pay:
  "same_pay st st' \<Longrightarrow> getPaymentIntentByOperationId st' k = getPaymentIntentByOperationId st k"
  by (simp add: same_pay_def getPaymentIntentByOperationId_def findIntentByOperationId_def)

lemma ready_quiet: "quiet s s' \<Longrightarrow> ready keccak fresh p s \<Longrightarrow> ready keccak fresh p s'"
  unfolding ready_def quiet_def using intent_lookup_same_pay [of "sec_store (sm_sec s)" "sec_store (sm_sec s')"] by auto

lemma send_payment_guard:
  assumes "getPaymentIntentByOperationId (sec_store (sm_sec s)) (op_operationId (sm_op s)) = Some dpi" "bound_intent keccak fresh p dpi"
  shows "send_payment (guard_transports (bound_call keccak fresh p) cfg) dpi (v2_payload dpi auth) t s = send_payment cfg dpi (v2_payload dpi auth) t s"
proof -
  have "bound_call keccak fresh p dpi (v2_payload dpi auth) (sec_store (sm_sec s))"
    "bound_call keccak fresh p dpi (standard_payload (sm_op s) (v2_payload dpi auth)) (sec_store (sm_sec s))"
    using assms intent_by_operation_id [OF assms(1)] by (simp_all add: bound_call_def v2_carries)
  then show ?thesis
    by (simp add: send_payment_def reading_eq resolve_guard guard_transport_fields bind_act_def on_store_def guarded_def
        split: PaymentTransport.split option.split)
qed

lemma op_stamp_id: "op_operationId (op_stamp f opn) = op_operationId opn"
  by (simp add: op_stamp_def)

lemma submitPayment_guard:
  assumes "ready keccak fresh p s"
  shows "submitPayment (guard_transports (bound_call keccak fresh p) cfg) t s = submitPayment cfg t s"
proof (cases "transition Op_PAYMENT_SUBMITTED t s")
  case (Pair x s1)
  define s2 where "s2 = s1\<lparr>sm_op := op_stamp (\<lambda>ts. ts\<lparr>ts_paymentSubmittedAt := Some t\<rparr>) (sm_op s1)\<rparr>"
  have "quiet s s1" using keepsD [OF quiet_transition Pair] .
  then have "quiet s s2" by (simp add: quiet_def s2_def op_stamp_def)
  with assms obtain dpi where
    d: "getPaymentIntentByOperationId (sec_store (sm_sec s2)) (op_operationId (sm_op s2)) = Some dpi" "bound_intent keccak fresh p dpi"
    using ready_quiet unfolding ready_def by blast
  then have d1: "getPaymentIntentByOperationId (sec_store (sm_sec s1)) (op_operationId (sm_op s1)) = Some dpi"
    by (simp add: s2_def op_stamp_def)
  note G = send_payment_guard [OF d, of cfg]
  show ?thesis
    using Pair
    by (cases x) (simp_all add: submitPayment_def run_steps upd_eq reading_eq s2_def [symmetric] d1 op_stamp_id bind_act_def G split: option.split)
qed

lemma submission_pipeline_guard:
  assumes "operation_log (cf_append cfg) (cf_save cfg)" "ready keccak fresh p s"
  shows "submission_pipeline (guard_transports (bound_call keccak fresh p) cfg) ids t s = submission_pipeline cfg ids t s"
proof (cases "persist cfg s")
  case (Pair x s1)
  have "ready keccak fresh p s1" using ready_quiet [OF keepsD [OF quiet_persist [OF assms(1)] Pair] assms(2)] .
  with Pair show ?thesis
    by (cases x) (simp_all add: submission_pipeline_def bind_act_def run_steps persist_guard submitPayment_guard observe_guard settle_guard)
qed

lemma resume_guard:
  assumes "operation_log (cf_append cfg) (cf_save cfg)" "ready keccak fresh p s"
  shows "resumeAuthorizedSubmission (guard_transports (bound_call keccak fresh p) cfg) dpi ids t s = resumeAuthorizedSubmission cfg dpi ids t s"
proof -
  have "ready keccak fresh p (s\<lparr>sm_op := (recordEvidence ph ev q t (sm_op s))\<lparr>op_paymentState := a, op_currentState := b\<rparr>\<rparr>)" for ph ev q a b
    using assms(2) by (simp add: ready_def recordEvidence_def)
  then show ?thesis
    by (simp add: resumeAuthorizedSubmission_def bind_act_def forward_simps submission_pipeline_guard assms(1))
qed

text \<open>Marking the nonce leaves the intents alone.\<close>

lemma ready_markNonce: "ready keccak fresh p s \<Longrightarrow>
    ready keccak fresh p (s\<lparr>sm_sec := (sm_sec s)\<lparr>sec_store := markNonceSigned n t (sec_store (sm_sec s))\<rparr>\<rparr>)"
  by (simp add: ready_def getPaymentIntentByOperationId_def findIntentByOperationId_def markNonceSigned_def mark_nonce_def split: option.split)

lemma continuation_guard:
  assumes "operation_log (cf_append cfg) (cf_save cfg)" "ready keccak fresh p s"
  shows "authorized_continuation (guard_transports (bound_call keccak fresh p) cfg) pay dpi req ids t s = authorized_continuation cfg pay dpi req ids t s"
proof -
  define s1 where "s1 = s\<lparr>sm_sec := (sm_sec s)\<lparr>sec_store := markNonceSigned (pi_nonce dpi) t (sec_store (sm_sec s))\<rparr>\<rparr>"
  have r: "ready keccak fresh p s1" using ready_markNonce [OF assms(2)] by (simp add: s1_def)
  show ?thesis
  proof (cases "transition Op_AUTHORIZED t s1")
    case (Pair x s2)
    have "ready keccak fresh p s2" using ready_quiet [OF keepsD [OF quiet_transition Pair] r] .
    then have "ready keccak fresh p (s2\<lparr>sm_op := recordEvidence ph ev q t' ((sm_op s2)\<lparr>op_paymentState := st\<rparr>)\<rparr>)" for ph ev q t' st
      by (simp add: ready_def recordEvidence_def)
    with Pair show ?thesis
      by (cases x) (simp_all add: authorized_continuation_def bind_act_def on_store_def run_steps reading_eq upd_eq record_ev_eq
          s1_def [symmetric] submission_pipeline_guard assms(1))
  qed
qed

text \<open>The bound intent is found where the pending one was.\<close>

lemma intent_after_binding:
  assumes "intents_wf st" "getPaymentIntentByOperationId st opId = Some dpi"
    and "authorizePaymentIntent (pi_paymentIntentId dpi) text h e t st = (Inr True, st')"
  shows "\<exists>i. getPaymentIntentByOperationId st' opId = Some ((bind_payload text h t i)\<lparr>pi_payer := Some (pi_authorizer i)\<rparr>) \<and>
    dpi = i\<lparr>pi_payer := Some (pi_authorizer i)\<rparr>"
proof -
  from assms(2) obtain rec where r: "findIntentByOperationId st opId = Some rec" "dpi = with_payer rec"
    by (auto simp: getPaymentIntentByOperationId_def)
  then obtain k where k: "js_get (ms_intents st) k = Some rec" "pi_operationId (ir_intent rec) = opId"
    using findIntentByOperationId_Some [OF assms(1)] by blast
  have "mem_intent st k = Some (ir_intent rec)" using k by (simp add: mem_intent_def)
  then have key: "pi_paymentIntentId dpi = k" using intents_wf_key [OF assms(1)] r(2) by (simp add: with_payer_def)
  from authorizePaymentIntent_win [OF assms(3)] key \<open>mem_intent st k = _\<close>
  have "mem_intent st' k = Some (bind_payload text h t (ir_intent rec))" by auto
  moreover have "intents_wf st'" using store_step_wf [OF step_authorize [OF assms(3)] assms(1)] .
  ultimately show ?thesis
    using intent_by_operation [of st' k "bind_payload text h t (ir_intent rec)"] k(2) r(2)
    by (intro exI [of _ "ir_intent rec"]) (simp add: bind_payload_def with_payer_def)
qed

lemma payload_matches_terms:
  assumes "payload_matches p dpi req" "dpi = i\<lparr>pi_payer := x\<rparr>"
  shows "payload_matches p ((bind_payload text h t i)\<lparr>pi_payer := y\<rparr>) (requirementFromIntent ((bind_payload text h t i)\<lparr>pi_payer := y\<rparr>))"
  using assms by (simp add: payload_matches_def bind_payload_def requirementFromIntent_def Let_def same_text_def)

lemma bind_guard:
  assumes "operation_log (cf_append cfg) (cf_save cfg)" "intents_wf (sec_store (sm_sec s))"
    and "getPaymentIntentByOperationId (sec_store (sm_sec s)) (op_operationId (sm_op s)) = Some dpi"
  shows "bind_and_submit (guard_transports (bound_call (cf_keccak cfg) fresh p) cfg) p dpi ids t s = bind_and_submit cfg p dpi ids t s"
proof -
  let ?req = "opt_default (requirementFromIntent dpi) (getPaymentRequirementFromEvidence (sm_op s))"
  let ?text = "JSON_stringify p"
  have "authorized_continuation (guard_transports (bound_call (cf_keccak cfg) fresh p) cfg) p dpi ?req ids t s1 =
      authorized_continuation cfg p dpi ?req ids t s1"
    if v: "validateExternalPaymentPayload p dpi ?req = Inr u"
      and a: "on_store (authorizePaymentIntent (pi_paymentIntentId dpi) ?text (cf_keccak cfg ?text) St_PENDING_SIGNATURE t) s = (Inr True, s1)" for s1 u
  proof -
    from a obtain st' where st': "authorizePaymentIntent (pi_paymentIntentId dpi) ?text (cf_keccak cfg ?text) St_PENDING_SIGNATURE t (sec_store (sm_sec s)) = (Inr True, st')"
      "s1 = s\<lparr>sm_sec := (sm_sec s)\<lparr>sec_store := st'\<rparr>\<rparr>" by (auto simp: on_store_Inr)
    have "payload_matches p dpi ?req" using v by (auto simp: validateExternalPaymentPayload_def Let_def split: if_splits)
    with intent_after_binding [OF assms(2,3) st'(1)] st'(2) have "ready (cf_keccak cfg) fresh p s1"
      using payload_matches_terms [of p dpi ?req] by (auto simp: ready_def bound_intent_def bind_payload_def)
    then show ?thesis using continuation_guard [OF assms(1)] by blast
  qed
  then show ?thesis
    by (simp add: bind_and_submit_def reading_eq Let_def bind_act_def split: sum.split prod.split)
qed

lemma submit_on_operation_guard:
  assumes "operation_log (cf_append cfg) (cf_save cfg)" "intents_wf (sec_store (sm_sec s))"
    and "fresh = (map_option pi_settlementState (getPaymentIntentByOperationId (sec_store (sm_sec s)) (op_operationId (sm_op s))) = Some St_PENDING_SIGNATURE)"
  shows "submit_on_operation (guard_transports (bound_call (cf_keccak cfg) fresh p) cfg) p ids t s = submit_on_operation cfg p ids t s"
proof (cases "getPaymentIntentByOperationId (sec_store (sm_sec s)) (op_operationId (sm_op s))")
  case None
  then show ?thesis by (simp add: submit_on_operation_def reading_eq)
next
  case (Some dpi)
  have "resumeAuthorizedSubmission (guard_transports (bound_call (cf_keccak cfg) fresh p) cfg) dpi ids t s = resumeAuthorizedSubmission cfg dpi ids t s"
    if "pi_settlementState dpi = St_AUTHORIZED" "pi_paymentPayloadHash dpi = cf_keccak cfg (JSON_stringify p)"
    using that Some assms(3) by (intro resume_guard assms(1)) (simp add: ready_def bound_intent_def)
  with Some bind_guard [OF assms(1,2) Some] show ?thesis
    by (simp add: submit_on_operation_def reading_eq)
qed

section \<open>A fitting payload is submitted\<close>

text \<open>The condition under which stage B goes on.\<close>

definition awaited_payload :: "Operation \<Rightarrow> DurablePaymentIntent \<Rightarrow> json \<Rightarrow> bool" where
  "awaited_payload opn dpi p = (op_currentState opn = Op_AWAITING_SIGNATURE \<and> pi_settlementState dpi = St_PENDING_SIGNATURE \<and>
     validateExternalPaymentPayload p dpi (opt_default (requirementFromIntent dpi) (getPaymentRequirementFromEvidence opn)) = Inr () \<and>
     (\<forall>e \<in> set (op_evidence opn). ev_event e \<noteq> ''PAYMENT_AUTHORIZED''))"

definition signature_of :: "json \<Rightarrow> string" where
  "signature_of p = js_String (json_field (json_field p ''payload'') ''signature'')"

definition accepts_payment :: "submit_call \<Rightarrow> (DurablePaymentIntent \<Rightarrow> PaymentPayload \<Rightarrow> mem_store \<Rightarrow> bool) \<Rightarrow> bool" where
  "accepts_payment call ok = (\<forall>dpi q st. ok dpi q st \<longrightarrow>
     (\<exists>tx raw st'. call dpi q st = (Inr (Sub_SUBMITTED tx raw), st') \<and> getPaymentIntentByOperationId st' (pi_operationId dpi) \<noteq> None))"

definition signed_by :: "Operation \<Rightarrow> string \<Rightarrow> bool" where
  "signed_by opn sig = (\<exists>scheme. getAuthorizationFromEvidence opn = Some (sig, scheme))"

lemma signed_by_record: "signed_by opn sig \<Longrightarrow> signed_by (recordEvidence ph ev q t opn) sig"
  by (auto simp: signed_by_def getAuthorizationFromEvidence_def first_payload_def recordEvidence_def find_append split: option.splits)

lemma signed_by_evidence: "op_evidence o2 = op_evidence opn \<Longrightarrow> signed_by o2 sig = signed_by opn sig"
  by (simp add: signed_by_def getAuthorizationFromEvidence_def first_payload_def)

lemma signed_by_authorized:
  assumes "\<forall>e \<in> set (op_evidence opn). ev_event e \<noteq> ''PAYMENT_AUTHORIZED''"
  shows "signed_by (recordEvidence PAYMENT ''PAYMENT_AUTHORIZED''
     (JObj [(''intent'', payment_intent_json o1 req am as nw a cr), (''source'', src)]) t opn) (au_signature a)"
proof -
  have "find (\<lambda>e. ev_phase e = PAYMENT \<and> ev_event e = ''PAYMENT_AUTHORIZED'') (op_evidence opn) = None"
    using assms by (auto simp: find_None_iff)
  then show ?thesis
    by (simp add: signed_by_def getAuthorizationFromEvidence_def first_payload_def recordEvidence_def find_append json_field_def
        payment_intent_json_def authorization_json_def nullish_def)
qed

text \<open>A pending intent takes the payload.\<close>

lemma pending_intent_bound:
  assumes "intents_wf st" "getPaymentIntentByOperationId st opId = Some dpi" "pi_settlementState dpi = St_PENDING_SIGNATURE"
  shows "\<exists>st'. authorizePaymentIntent (pi_paymentIntentId dpi) text h St_PENDING_SIGNATURE t st = (Inr True, st')"
proof -
  from assms(2) obtain rec where r: "findIntentByOperationId st opId = Some rec" "dpi = with_payer rec"
    by (auto simp: getPaymentIntentByOperationId_def)
  then obtain k where k: "js_get (ms_intents st) k = Some rec" using findIntentByOperationId_Some [OF assms(1)] by blast
  then have "mem_intent st k = Some (ir_intent rec)" by (simp add: mem_intent_def)
  then have "pi_paymentIntentId dpi = k" using intents_wf_key [OF assms(1)] r(2) by (simp add: with_payer_def)
  with k r(2) assms(3) show ?thesis by (simp add: authorizePaymentIntent_def with_payer_def)
qed

text \<open>Ready for submission: bound intent in the store, signature in the evidence, operation authorized.\<close>

definition poised :: "SecretariatConfig \<Rightarrow> json \<Rightarrow> sm \<Rightarrow> bool" where
  "poised cfg p s = (ready (cf_keccak cfg) True p s \<and> signed_by (sm_op s) (signature_of p) \<and> op_currentState (sm_op s) = Op_AUTHORIZED \<and>
     resolvePaymentTransport cfg (sm_op s) = Zeus)"

definition submitted :: "sm \<Rightarrow> bool" where
  "submitted s = (op_currentState (sm_op s) = Op_PAYMENT_SUBMITTED \<and> op_paymentState (sm_op s) = Pay_SUBMITTED \<and>
     getPaymentIntentByOperationId (sec_store (sm_sec s)) (op_operationId (sm_op s)) \<noteq> None)"

definition signed_call :: "(string \<Rightarrow> string) \<Rightarrow> json \<Rightarrow> DurablePaymentIntent \<Rightarrow> PaymentPayload \<Rightarrow> mem_store \<Rightarrow> bool" where
  "signed_call keccak p dpi q st = (bound_call keccak True p dpi q st \<and> pp_signature q = signature_of p)"

lemma submit_ids [simp]:
  "op_operationId (recordEvidence ph ev q t opn) = op_operationId opn" "op_operationId (moved n t opn) = op_operationId opn"
  "op_paymentState (recordEvidence ph ev q t opn) = op_paymentState opn"
  "op_paymentPolicy (recordEvidence ph ev q t opn) = op_paymentPolicy opn" "op_paymentPolicy (moved n t opn) = op_paymentPolicy opn"
  "op_paymentPolicy (op_stamp f opn) = op_paymentPolicy opn" "op_operationId (op_stamp f opn) = op_operationId opn"
  by (simp_all add: recordEvidence_def moved_def op_stamp_def)

lemma signed_by_moved: "signed_by opn sig \<Longrightarrow> signed_by (moved n t opn) sig"
  unfolding moved_def
  using signed_by_evidence [of "opn\<lparr>op_currentState := n, op_timestamps := (op_timestamps opn)\<lparr>ts_updatedAt := t\<rparr>\<rparr>" opn sig]
  by (auto intro: signed_by_record)

lemma submitPayment_done:
  assumes "poised cfg p s" "cf_settlementAdapter cfg = Some call" "accepts_payment call (signed_call (cf_keccak cfg) p)"
  shows "\<exists>s'. submitPayment cfg t s = (Inr (), s') \<and> submitted s'"
proof -
  have v: "isValidTransition Op_AUTHORIZED Op_PAYMENT_SUBMITTED" by code_simp
  define o1 where "o1 = op_stamp (\<lambda>ts. ts\<lparr>ts_paymentSubmittedAt := Some t\<rparr>) (moved Op_PAYMENT_SUBMITTED t (sm_op s))"
  from assms(1) obtain dpi scheme where d: "getPaymentIntentByOperationId (sec_store (sm_sec s)) (op_operationId (sm_op s)) = Some dpi"
      "bound_intent (cf_keccak cfg) True p dpi" and "signed_by (sm_op s) (signature_of p)" and st: "op_currentState (sm_op s) = Op_AUTHORIZED"
    by (auto simp: poised_def ready_def)
  then have "signed_by o1 (signature_of p)"
    using signed_by_moved signed_by_evidence [of o1 "moved Op_PAYMENT_SUBMITTED t (sm_op s)"] by (simp add: o1_def op_stamp_def)
  then obtain scheme where a: "getAuthorizationFromEvidence o1 = Some (signature_of p, scheme)" by (auto simp: signed_by_def)
  have o: "op_operationId o1 = op_operationId (sm_op s)" "op_currentState o1 = Op_PAYMENT_SUBMITTED" "resolvePaymentTransport cfg o1 = Zeus"
    using assms(1) by (simp_all add: o1_def poised_def resolvePaymentTransport_def)
  let ?q = "v2_payload dpi (signature_of p, scheme)"
  have id: "pi_operationId dpi = op_operationId (sm_op s)" using intent_by_operation_id [OF d(1)] .
  have "signed_call (cf_keccak cfg) p dpi ?q (sec_store (sm_sec s))"
    using d id v2_carries(1) [of dpi] by (simp add: signed_call_def bound_call_def) (simp add: v2_payload_def)
  then obtain tx raw st' where c: "call dpi ?q (sec_store (sm_sec s)) = (Inr (Sub_SUBMITTED tx raw), st')"
    "getPaymentIntentByOperationId st' (op_operationId (sm_op s)) \<noteq> None"
    using assms(3) id by (fastforce simp: accepts_payment_def)
  have "send_payment cfg dpi ?q t (s\<lparr>sm_op := o1\<rparr>) = (Inr (Sub_SUBMITTED tx raw), s\<lparr>sm_op := o1, sm_sec := (sm_sec s)\<lparr>sec_store := st'\<rparr>\<rparr>)"
    using assms(2) c o by (simp add: send_payment_def reading_eq on_store_def)
  then show ?thesis
    using v st d(1) o a c(2)
    by (simp add: submitPayment_def forward_simps transition_ok o1_def [symmetric] or_else_def bind_act_def submitted_def)
qed

lemma submission_pipeline_done:
  assumes "reliable cfg" "cf_reconciliationEngine cfg = None" "poised cfg p s" "cf_settlementAdapter cfg = Some call"
    and "accepts_payment call (signed_call (cf_keccak cfg) p)"
  shows "\<exists>res s'. submission_pipeline cfg ids t s = (Inr res, s') \<and> res_paymentStatus res = Pay_SUBMITTED \<and> res_status res = Res_PENDING"
proof -
  obtain c where p1: "persist cfg s = (Inr (), s\<lparr>sm_sec := c\<rparr>)" using persist_reliable [OF assms(1)] by blast
  have "quiet s (s\<lparr>sm_sec := c\<rparr>)" using keepsD [OF quiet_persist p1] assms(1) by (simp add: reliable_def)
  with assms(3) have "poised cfg p (s\<lparr>sm_sec := c\<rparr>)" using ready_quiet by (auto simp: poised_def)
  from submitPayment_done [OF this assms(4,5)] obtain s1 where s1: "submitPayment cfg t (s\<lparr>sm_sec := c\<rparr>) = (Inr (), s1)" "submitted s1" by blast
  define s2 where "s2 = s1\<lparr>sm_op := recordEvidence SETTLEMENT ''RECONCILIATION_SKIPPED'' (JObj [(''reason'', JStr ''No reconciliationEngine configured'')]) t (sm_op s1)\<rparr>"
  have o: "observeSettlement cfg (fi_probe ids) t s1 = (Inr (), s2)" "settle_if_settled cfg ids t s2 = (Inr (), s2)"
    using s1(2) assms(2) by (auto simp: observeSettlement_def reading_eq record_ev_eq s2_def submitted_def settle_if_settled_def ret_def)
  obtain c2 where p2: "persist cfg s2 = (Inr (), s2\<lparr>sm_sec := c2\<rparr>)" using persist_reliable [OF assms(1)] by blast
  have "op_currentState (sm_op s2) = Op_PAYMENT_SUBMITTED" "op_paymentState (sm_op s2) = Pay_SUBMITTED"
    using s1(2) by (simp_all add: s2_def submitted_def)
  with p1 s1 o p2 show ?thesis
    by (simp add: submission_pipeline_def bind_act_def run_steps reading_eq ret_def buildResult_def mapToFinalStatus_def)
qed

lemma bind_and_submit_done:
  assumes "reliable cfg" "cf_reconciliationEngine cfg = None" "intents_wf (sec_store (sm_sec s))"
    and "getPaymentIntentByOperationId (sec_store (sm_sec s)) (op_operationId (sm_op s)) = Some dpi" "awaited_payload (sm_op s) dpi p"
    and "resolvePaymentTransport cfg (sm_op s) = Zeus" "cf_settlementAdapter cfg = Some call"
    and "accepts_payment call (signed_call (cf_keccak cfg) p)"
  shows "\<exists>res s'. bind_and_submit cfg p dpi ids t s = (Inr res, s') \<and> res_paymentStatus res = Pay_SUBMITTED \<and> res_status res = Res_PENDING"
proof -
  have v: "isValidTransition Op_AWAITING_SIGNATURE Op_AUTHORIZED" by code_simp
  define req where "req = opt_default (requirementFromIntent dpi) (getPaymentRequirementFromEvidence (sm_op s))"
  let ?text = "JSON_stringify p"
  have A: "op_currentState (sm_op s) = Op_AWAITING_SIGNATURE" "pi_settlementState dpi = St_PENDING_SIGNATURE"
    "validateExternalPaymentPayload p dpi req = Inr ()" "\<forall>e \<in> set (op_evidence (sm_op s)). ev_event e \<noteq> ''PAYMENT_AUTHORIZED''"
    using assms(5) by (simp_all add: awaited_payload_def req_def)
  obtain st' where w: "authorizePaymentIntent (pi_paymentIntentId dpi) ?text (cf_keccak cfg ?text) St_PENDING_SIGNATURE t (sec_store (sm_sec s)) = (Inr True, st')"
    using pending_intent_bound [OF assms(3,4) A(2)] by blast
  define s1 where "s1 = s\<lparr>sm_sec := (sm_sec s)\<lparr>sec_store := st'\<rparr>\<rparr>"
  have "payload_matches p dpi req" using A(3) by (auto simp: validateExternalPaymentPayload_def Let_def split: if_splits)
  with intent_after_binding [OF assms(3,4) w] have "ready (cf_keccak cfg) True p s1"
    using payload_matches_terms [of p dpi req] by (auto simp: ready_def bound_intent_def bind_payload_def s1_def)
  note R = ready_markNonce [OF this, of "pi_nonce dpi" t]
  define s2 where "s2 = s1\<lparr>sm_sec := (sm_sec s1)\<lparr>sec_store := markNonceSigned (pi_nonce dpi) t (sec_store (sm_sec s1))\<rparr>\<rparr>"
  define o2 where "o2 = (moved Op_AUTHORIZED t (sm_op s2))\<lparr>op_paymentState := Pay_AUTHORIZED\<rparr>"
  define o3 where "o3 = recordEvidence PAYMENT ''PAYMENT_AUTHORIZED''
    (JObj [(''intent'', payment_intent_json o2 req (pi_value dpi) (pi_asset dpi) (pi_network dpi) (external_authorization p dpi t) (pi_createdAt dpi)),
     (''source'', JStr ''EXTERNAL_SIGNED_PAYMENT_PAYLOAD'')]) t o2"
  have o2: "\<forall>e \<in> set (op_evidence o2). ev_event e \<noteq> ''PAYMENT_AUTHORIZED''"
    using A(4) by (auto simp: o2_def s2_def s1_def moved_def recordEvidence_def)
  have "signed_by o3 (signature_of p)"
    unfolding o3_def using signed_by_authorized [OF o2, of _ _ _ _ _ "external_authorization p dpi t"]
    by (simp add: external_authorization_def [of p dpi t] signature_of_def)
  moreover have "op_currentState o3 = Op_AUTHORIZED" "op_operationId o3 = op_operationId (sm_op s)" "resolvePaymentTransport cfg o3 = Zeus"
    using assms(6) by (simp_all add: o3_def o2_def s2_def s1_def resolvePaymentTransport_def)
  ultimately have "poised cfg p (s2\<lparr>sm_op := o3\<rparr>)"
    using R by (simp add: poised_def ready_def s2_def s1_def)
  from submission_pipeline_done [OF assms(1,2) this assms(7,8)] obtain res s' where
    done': "submission_pipeline cfg ids t (s2\<lparr>sm_op := o3\<rparr>) = (Inr res, s')" "res_paymentStatus res = Pay_SUBMITTED" "res_status res = Res_PENDING"
    by blast
  have st: "op_currentState (sm_op s2) = Op_AWAITING_SIGNATURE" using A(1) by (simp add: s2_def s1_def)
  have "authorized_continuation cfg p dpi req ids t s1 = (Inr res, s')"
    using v st done' by (simp add: authorized_continuation_def bind_act_def on_store_def run_steps reading_eq upd_eq record_ev_eq s2_def [symmetric]
        transition_ok o2_def [symmetric] o3_def [symmetric])
  with A w done' show ?thesis
    by (simp add: bind_and_submit_def reading_eq Let_def req_def [symmetric] bind_act_def on_store_def s1_def [symmetric])
qed

section \<open>A pending request\<close>

definition pending_operation :: Operation where
  "pending_operation = (createOperation ''op_1'' ''r1'' sample_request 5)\<lparr>op_currentState := Op_AWAITING_SIGNATURE\<rparr>"

definition pending_intent :: DurablePaymentIntent where
  "pending_intent = new_intent (\<lambda>s. ''#'' @ s) ''pi_1'' pending_operation ''0xAA'' sample_challenge ''0x01'' 0 9 ''-'' St_PENDING_SIGNATURE 5"

definition pending_sec :: sec where
  "pending_sec = \<lparr>sec_store = saveOperation pending_operation (snd (createIntentWithNonce pending_intent ''0xAA'' 5 empty_store)),
     sec_exec = empty_exec, sec_cursors = []\<rparr>"

definition signed_payload :: "string \<Rightarrow> json" where
  "signed_payload amount = JObj [(''x402Version'', JNum 2),
     (''accepted'', JObj [(''scheme'', JStr ''exact''), (''network'', JStr ''Base''), (''asset'', JStr ''usdc''), (''amount'', JStr ''500''),
        (''payTo'', JStr ''0xbb'')]),
     (''payload'', JObj [(''signature'', JStr ''0x5160''),
        (''authorization'', JObj [(''from'', JStr ''0xaa''), (''to'', JStr ''0xBB''), (''value'', JStr amount), (''validAfter'', JStr ''0''),
           (''validBefore'', JStr ''9''), (''nonce'', JStr ''0x01'')])])]"

definition accepting_config :: SecretariatConfig where
  "accepting_config = sample_config\<lparr>cf_settlementAdapter := Some (\<lambda>dpi q st. (Inr (Sub_SUBMITTED ''0xfeed'' JNull), st))\<rparr>"

lemma pending_facts:
  "fst (findExistingOperation accepting_config None ''r1'' pending_sec) = Some pending_operation"
  "getPaymentIntentByOperationId (sec_store pending_sec) ''op_1'' = Some (pending_intent\<lparr>pi_payer := Some ''0xAA''\<rparr>)"
  "op_operationId pending_operation = ''op_1''" "getEvidence (sec_store pending_sec) ''op_1'' = []"
  "resolvePaymentTransport accepting_config pending_operation = Zeus"
  "payload_matches (signed_payload ''501'') (pending_intent\<lparr>pi_payer := Some ''0xAA''\<rparr>) (requirementFromIntent (pending_intent\<lparr>pi_payer := Some ''0xAA''\<rparr>)) = False"
  "awaited_payload pending_operation (pending_intent\<lparr>pi_payer := Some ''0xAA''\<rparr>) (signed_payload ''500'')"
  by code_simp+

lemma pending_wf: "intents_wf (sec_store pending_sec)"
proof -
  obtain r st where c: "createIntentWithNonce pending_intent ''0xAA'' 5 empty_store = (r, st)" by fastforce
  have "intents_wf st" using store_step_wf [OF step_create_nonce [OF c] intents_wf_empty] .
  then have "intents_wf (saveOperation pending_operation st)"
    using store_step_wf [OF step_save] by blast
  then show ?thesis by (simp add: pending_sec_def c)
qed

lemma accepting_reliable: "reliable accepting_config"
  using sample_reliable by (simp add: reliable_def accepting_config_def)

lemma find_pending: "findExistingOperation accepting_config None ''r1'' pending_sec = (Some pending_operation, seed_cursor pending_operation pending_sec)"
  using pending_facts(1) by (auto simp: findExistingOperation_def Let_def split: option.splits)

section \<open>Properties\<close>

text \<open>
  Property C39. Stage B refuses a payload that does not fit: when the request's intent still awaits
  its signature and the operation does not, or a network, asset, amount, payee, payer, nonce or
  validity bound of the payload differs from the intent's, or when the intent is past that state
  and was bound to another payload, the call fails and neither store changes.
\<close>

theorem stage_b_refuses_unbound_payload:
  assumes "findExistingOperation cfg None k c = (Some opn, c1)"
    and "getPaymentIntentByOperationId (sec_store c) (op_operationId opn) = Some dpi"
    and "if pi_settlementState dpi = St_PENDING_SIGNATURE
         then op_currentState opn \<noteq> Op_AWAITING_SIGNATURE \<or> \<not> payload_matches p dpi (requirementFromIntent dpi)
         else pi_paymentPayloadHash dpi \<noteq> cf_keccak cfg (JSON_stringify p)"
    and "submitSignedPayment cfg k p ids t c = (x, c')"
  shows "\<exists>e. x = Inl e \<and> sec_store c' = sec_store c \<and> sec_exec c' = sec_exec c"
proof -
  define s where "s = reconcile_evidence opn c1"
  have c1: "c1 = seed_cursor opn c" using assms(1) by (auto simp: findExistingOperation_def Let_def split: option.splits)
  have s: "sec_store (sm_sec s) = sec_store c" "sec_exec (sm_sec s) = sec_exec c" "op_operationId (sm_op s) = op_operationId opn"
    "op_currentState (sm_op s) = op_currentState opn" by (simp_all add: s_def c1 reconcile_evidence_def seed_cursor_def Let_def)
  have "\<not> payload_matches p dpi req" if "\<not> payload_matches p dpi (requirementFromIntent dpi)" for req
    using that by (auto simp: payload_matches_def Let_def requirementFromIntent_def same_text_def)
  then have "\<exists>e. validateExternalPaymentPayload p dpi req = Inl e" if "\<not> payload_matches p dpi (requirementFromIntent dpi)" for req
    using that by (auto simp: validateExternalPaymentPayload_def Let_def)
  with assms(2,3) s have "\<exists>e. submit_on_operation cfg p ids t s = (Inl e, s)"
    by (auto simp: submit_on_operation_def bind_and_submit_def reading_eq throw_def Let_def split: if_splits sum.split) (metis sum.distinct(1))
  with assms(1,4) s show ?thesis by (auto simp: submitSignedPayment_def s_def)
qed

theorem stage_b_refuses_unbound_payload_witness:
  "\<exists>e c'. submitSignedPayment accepting_config ''r1'' (signed_payload ''501'') sample_ids 6 pending_sec = (Inl e, c') \<and>
     sec_store c' = sec_store pending_sec"
proof -
  obtain x c' where r: "submitSignedPayment accepting_config ''r1'' (signed_payload ''501'') sample_ids 6 pending_sec = (x, c')" by fastforce
  show ?thesis
    using stage_b_refuses_unbound_payload [OF find_pending _ _ r, of "pending_intent\<lparr>pi_payer := Some ''0xAA''\<rparr>"] pending_facts r
    by (auto simp: pending_intent_def)
qed

text \<open>
  Property C6. Stage B submits only what was bound: in front of both payment transports a guard
  that refuses every call would change nothing, unless the call hands over the intent exactly as
  the store has it, in state AUTHORIZED and bound to the hash of the payload at hand, with a wire
  payload that carries this intent's payer, payee, amount, asset, network, nonce and validity
  window; and, when the request still awaited its signature, the payload fits all these terms.
\<close>

theorem stage_b_submits_only_what_was_bound:
  assumes "operation_log (cf_append cfg) (cf_save cfg)" "intents_wf (sec_store c)"
  shows "submitSignedPayment (guard_transports (bound_call (cf_keccak cfg) (awaits_signature cfg k c) p) cfg) k p ids t c =
    submitSignedPayment cfg k p ids t c"
proof (cases "findExistingOperation cfg None k c")
  case (Pair found c1)
  show ?thesis
  proof (cases found)
    case (Some opn)
    have c1: "c1 = seed_cursor opn c" using Pair Some by (auto simp: findExistingOperation_def Let_def split: option.splits)
    let ?s = "reconcile_evidence opn c1"
    have s: "sec_store (sm_sec ?s) = sec_store c" "op_operationId (sm_op ?s) = op_operationId opn"
      by (simp_all add: c1 reconcile_evidence_def seed_cursor_def Let_def)
    then have "submit_on_operation (guard_transports (bound_call (cf_keccak cfg) (awaits_signature cfg k c) p) cfg) p ids t ?s =
        submit_on_operation cfg p ids t ?s"
      using Pair Some assms by (intro submit_on_operation_guard) (simp_all add: awaits_signature_def intent_of_request_def)
    with Pair Some show ?thesis by (simp add: submitSignedPayment_def find_guard)
  qed (simp add: submitSignedPayment_def find_guard Pair)
qed

theorem stage_b_submits_only_what_was_bound_witness:
  "awaits_signature accepting_config ''r1'' pending_sec \<and>
   submitSignedPayment (guard_transports (bound_call (cf_keccak accepting_config) True (signed_payload ''500'')) accepting_config) ''r1''
       (signed_payload ''500'') sample_ids 6 pending_sec =
     submitSignedPayment accepting_config ''r1'' (signed_payload ''500'') sample_ids 6 pending_sec"
proof -
  have a: "awaits_signature accepting_config ''r1'' pending_sec"
    by (simp add: awaits_signature_def intent_of_request_def find_pending pending_facts) (simp add: pending_intent_def)
  have "operation_log (cf_append accepting_config) (cf_save accepting_config)" using accepting_reliable by (simp add: reliable_def)
  from stage_b_submits_only_what_was_bound [OF this pending_wf, of "''r1''" "signed_payload ''500''" sample_ids 6] a show ?thesis by simp
qed

text \<open>
  A fitting payload is submitted: over a store whose calls do not fail and without a
  reconciler, when the request awaits its signature and the payload passes the checks, a
  settlement adapter that accepts properly bound and signed calls is reached, with the payload's
  own signature, and the call ends with the payment submitted and the operation pending.
\<close>

theorem fitting_payload_is_submitted:
  assumes "reliable cfg" "cf_reconciliationEngine cfg = None" "intents_wf (sec_store c)"
    and "findExistingOperation cfg None k c = (Some opn, c1)"
    and "getPaymentIntentByOperationId (sec_store c) (op_operationId opn) = Some dpi"
    and "awaited_payload (sm_op (reconcile_evidence opn c1)) dpi p" "resolvePaymentTransport cfg opn = Zeus"
    and "cf_settlementAdapter cfg = Some call" "accepts_payment call (signed_call (cf_keccak cfg) p)"
  shows "\<exists>res c'. submitSignedPayment cfg k p ids t c = (Inr res, c') \<and> res_paymentStatus res = Pay_SUBMITTED \<and> res_status res = Res_PENDING"
proof -
  have c1: "c1 = seed_cursor opn c" using assms(4) by (auto simp: findExistingOperation_def Let_def split: option.splits)
  let ?s = "reconcile_evidence opn c1"
  have s: "sec_store (sm_sec ?s) = sec_store c" "op_operationId (sm_op ?s) = op_operationId opn" "resolvePaymentTransport cfg (sm_op ?s) = Zeus"
    using assms(7) by (simp_all add: c1 reconcile_evidence_def seed_cursor_def Let_def resolvePaymentTransport_def)
  obtain res s' where "bind_and_submit cfg p dpi ids t ?s = (Inr res, s')" "res_paymentStatus res = Pay_SUBMITTED" "res_status res = Res_PENDING"
    using bind_and_submit_done [OF assms(1,2), of ?s dpi p call ids t] assms(3,5,6,8,9) s by auto
  with assms(4-6) s show ?thesis
    by (simp add: submitSignedPayment_def submit_on_operation_def reading_eq awaited_payload_def)
qed

theorem fitting_payload_is_submitted_witness:
  "\<exists>res c'. submitSignedPayment accepting_config ''r1'' (signed_payload ''500'') sample_ids 6 pending_sec = (Inr res, c') \<and>
     res_paymentStatus res = Pay_SUBMITTED"
proof -
  have ok: "sm_op (reconcile_evidence pending_operation (seed_cursor pending_operation pending_sec)) = pending_operation"
    using pending_facts(3,4) by (simp add: reconcile_evidence_def seed_cursor_def Let_def)
  have "accepts_payment (\<lambda>dpi q st. (Inr (Sub_SUBMITTED ''0xfeed'' JNull), st)) (signed_call (cf_keccak accepting_config) p)" for p
    by (simp add: accepts_payment_def signed_call_def bound_call_def)
  from fitting_payload_is_submitted [OF accepting_reliable _ pending_wf find_pending _ _ pending_facts(5) _ this,
      of "pending_intent\<lparr>pi_payer := Some ''0xAA''\<rparr>" "signed_payload ''500''" sample_ids 6]
  show ?thesis using pending_facts(2,3,7) ok by (auto simp: accepting_config_def sample_config_def)
qed

end
