(* ===== verification/ExecutePath.thy ===== *)
theory ExecutePath
  imports StageBind
begin

text \<open>
  The pipeline \<open>execute\<close> runs with a configured signer: what its catch-all makes of a thrown error.
\<close>

section \<open>The catch-all\<close>

lemma flush_reliable:
  assumes "reliable cfg"
  shows "\<exists>c. flush cfg s = (Inr (), s\<lparr>sm_sec := c\<rparr>) \<and> same_pay (sec_store (sm_sec s)) (sec_store c) \<and>
    ms_operations (sec_store c) = ms_operations (sec_store (sm_sec s)) \<and> sec_exec c = sec_exec (sm_sec s)"
proof -
  have log: "operation_log (cf_append cfg) (cf_save cfg)" using assms by (simp add: reliable_def)
  obtain n where n: "flush_attempts cfg = Suc n"
    using not0_implies_Suc [of "flush_attempts cfg"] by (auto simp: flush_attempts_def evidenceFlushAttempts_def)
  let ?cs = "sec_cursors (sm_sec s)" let ?st = "sec_store (sm_sec s)"
  obtain cs1 st1 where b: "flush_batch (cf_append cfg) (op_operationId (sm_op s)) (ordered_evidence (sm_op s)) ?cs ?st = (None, cs1, st1)"
    using flush_batch_reliable [of "cf_append cfg"] assms by (metis reliable_def prod.collapse)
  then have f: "flushPendingEvidence (cf_append cfg) (flush_attempts cfg) (sm_op s) ?cs ?st = (Inr (), cs1, st1)"
    using n by (simp add: flushPendingEvidence_def)
  from f operation_log.flushPendingEvidence_frame [OF log f] show ?thesis
    by (intro exI [of _ "(sm_sec s)\<lparr>sec_store := st1, sec_cursors := cs1\<rparr>"]) (simp add: flush_def on_cursors_def)
qed

lemma failOperation_done:
  assumes "reliable cfg" "failOperation cfg status err t s = (res, s')"
  shows "res_error res = Some err \<and> res_status res = mapToFinalStatus status \<and> res_persistenceError res = None \<and>
    ms_intents (sec_store (sm_sec s')) = ms_intents (sec_store (sm_sec s)) \<and> sec_exec (sm_sec s') = sec_exec (sm_sec s) \<and>
    (\<exists>opn. getOperation (sec_store (sm_sec s')) (op_operationId (sm_op s)) = Some opn \<and> op_currentState opn = status)"
proof -
  define opn where "opn = recordEvidence FINAL ''OPERATION_FAILED'' (JObj [(''status'', JStr (op_name status)), (''error'', JStr err)]) t
    (op_stamp (\<lambda>ts. ts\<lparr>ts_failedAt := Some t, ts_updatedAt := t\<rparr>) ((sm_op s)\<lparr>op_currentState := status, op_error := Some err\<rparr>))"
  have o: "op_operationId opn = op_operationId (sm_op s)" "op_currentState opn = status" "op_error opn = Some err"
    by (simp_all add: opn_def) (simp add: recordEvidence_def op_stamp_def)+
  obtain st1 where v: "cf_save cfg opn (sec_store (sm_sec s)) = (Inr (), st1)" using assms(1) by (metis reliable_def prod.collapse)
  define s1 where "s1 = s\<lparr>sm_op := opn, sm_sec := (sm_sec s)\<lparr>sec_store := st1\<rparr>\<rparr>"
  have log: "operation_log (cf_append cfg) (cf_save cfg)" using assms(1) by (simp add: reliable_def)
  have st1: "ms_operations st1 = js_set (op_operationId opn) opn (ms_operations (sec_store (sm_sec s)))" "same_pay (sec_store (sm_sec s)) st1"
    using operation_log.save_done [OF log v] operation_log.save_frame [OF log v] by auto
  obtain c where f: "flush cfg s1 = (Inr (), s1\<lparr>sm_sec := c\<rparr>)" "same_pay st1 (sec_store c)" "ms_operations (sec_store c) = ms_operations st1"
    "sec_exec c = sec_exec (sm_sec s)" using flush_reliable [OF assms(1), of s1] by (auto simp: s1_def)
  have "res = buildResult opn" "s' = s1\<lparr>sm_sec := c\<rparr>"
    using assms(2) v f(1) by (simp_all add: failOperation_def Let_def opn_def [symmetric] save_op_def on_store_def s1_def [symmetric])
  with o st1 f(2-4) show ?thesis
    by (simp add: buildResult_def getOperation_def same_pay_def)
qed

section \<open>Properties\<close>

text \<open>
  A thrown error fails the operation whatever became of the payment: when any step of the
  signer-based pipeline throws, the caller gets status FAILED with the error's message and the
  operation is stored as FAILED, while the payment intents stay exactly as the failing step left
  them, be one of them still under reconciliation.
\<close>

theorem thrown_error_fails_operation:
  assumes "reliable cfg" "execute_continuation cfg ids t \<lparr>sm_op = opn, sm_sec = c\<rparr> = (Inl e, s)"
    and "execute_operation cfg ids t opn c = (res, c')"
  shows "res_status res = Res_FAILED \<and> res_error res = Some e \<and> mem_intent (sec_store c') = mem_intent (sec_store (sm_sec s)) \<and>
    (\<exists>o'. getOperation (sec_store c') (op_operationId (sm_op s)) = Some o' \<and> op_currentState o' = Op_FAILED)"
proof -
  obtain s' where f: "failOperation cfg Op_FAILED e t s = (res, s')" "c' = sm_sec s'"
    using assms(2,3) by (auto simp: execute_operation_def split: prod.splits)
  from failOperation_done [OF assms(1) f(1)] f(2) show ?thesis
    by (auto simp: mapToFinalStatus_def mem_intent_def fun_eq_iff)
qed

theorem thrown_error_fails_operation_witness:
  "\<exists>res c'. execute_operation sample_config sample_ids 6 pending_operation
      (pending_sec\<lparr>sec_store := snd (compareAndSetState ''pi_1'' St_PENDING_SIGNATURE St_RECONCILING 5 (sec_store pending_sec))\<rparr>) = (res, c') \<and>
     res_status res = Res_FAILED \<and> map_option pi_settlementState (mem_intent (sec_store c') ''pi_1'') = Some St_RECONCILING"
proof -
  define c where "c = pending_sec\<lparr>sec_store := snd (compareAndSetState ''pi_1'' St_PENDING_SIGNATURE St_RECONCILING 5 (sec_store pending_sec))\<rparr>"
  have i: "map_option pi_settlementState (mem_intent (sec_store c) ''pi_1'') = Some St_RECONCILING" unfolding c_def by code_simp
  have v: "isValidTransition Op_AWAITING_SIGNATURE Op_AUTHORIZED" by code_simp
  have "op_currentState pending_operation = Op_AWAITING_SIGNATURE" by (simp add: pending_operation_def)
  then obtain e s where x: "execute_continuation sample_config sample_ids 6 \<lparr>sm_op = pending_operation, sm_sec = c\<rparr> = (Inl e, s)" "sm_sec s = c"
    using v by (simp add: execute_continuation_def bind_act_def run_steps authorizePayment_def transition_ok upd_eq sample_config_def throw_def)
  obtain res c' where r: "execute_operation sample_config sample_ids 6 pending_operation c = (res, c')" by fastforce
  from thrown_error_fails_operation [OF sample_reliable x(1) r] x(2) i r show ?thesis by (auto simp: c_def)
qed

end
