(* ===== verification/TextHelpers.thy ===== *)
theory TextHelpers
  imports Prelude
begin

text \<open>String operations of JavaScript that configuration and address parsing use.\<close>

text \<open>\<open>s.split(c)\<close> at a single character.\<close>

fun split_char :: "char \<Rightarrow> string \<Rightarrow> string list" where
  "split_char c [] = [[]]"
| "split_char c (x # xs) =
     (if x = c then [] # split_char c xs else (case split_char c xs of [] \<Rightarrow> [[x]] | p # ps \<Rightarrow> (x # p) # ps))"

lemma split_char_nonempty [simp]: "split_char c s \<noteq> []"
  by (induction s) (auto split: list.split)

lemma split_char_no: "c \<notin> set s \<Longrightarrow> split_char c s = [s]"
  by (induction s) auto

lemma split_char_append: "c \<notin> set s \<Longrightarrow> split_char c (s @ c # t) = s # split_char c t"
  by (induction s) auto

text \<open>Splitting undoes joining, and joining undoes splitting.\<close>

lemma split_join: "xs \<noteq> [] \<Longrightarrow> \<forall>x \<in> set xs. c \<notin> set x \<Longrightarrow> split_char c (join_with [c] xs) = xs"
  by (induction "[c]" xs rule: join_with.induct) (auto simp: split_char_no split_char_append)

lemma join_cons: "ys \<noteq> [] \<Longrightarrow> join_with sep (y # ys) = y @ sep @ join_with sep ys"
  by (cases ys) auto

lemma join_push: "join_with sep ((x # p) # ps) = x # join_with sep (p # ps)"
  by (cases ps) auto

lemma join_split: "join_with [c] (split_char c s) = s"
  by (induction s) (auto simp: join_push join_cons split: list.split)

lemma split_char_parts: "x \<in> set (split_char c s) \<Longrightarrow> c \<notin> set x"
  by (induction s arbitrary: x) (fastforce split: if_splits list.splits)+

text \<open>\<open>Number.parseInt(s, 10)\<close>: blanks, a sign, then the longest run of digits; \<open>None\<close> is \<open>NaN\<close>.\<close>

definition is_digit :: "char \<Rightarrow> bool" where
  "is_digit c = (digit_value c \<noteq> None)"

definition parse_dec_digits :: "string \<Rightarrow> jsnum" where
  "parse_dec_digits s0 = (let s = takeWhile is_digit s0 in if s = [] then None else read_digits digit_value 10 0 s)"

definition parseInt10 :: "string \<Rightarrow> jsnum" where
  "parseInt10 s0 = (let s = dropWhile is_blank s0 in
     (case s of [] \<Rightarrow> None
      | c # cs \<Rightarrow> if c = CHR ''-'' then map_option uminus (parse_dec_digits cs)
                 else if c = CHR ''+'' then parse_dec_digits cs else parse_dec_digits s))"

text \<open>An environment variable with its default, trimmed.\<close>

type_synonym env = "string \<Rightarrow> string option"

definition env_or :: "env \<Rightarrow> string \<Rightarrow> string \<Rightarrow> string" where
  "env_or e key d = opt_default d (e key)"

definition ends_with :: "string \<Rightarrow> string \<Rightarrow> bool" where
  "ends_with p s = (length p \<le> length s \<and> drop (length s - length p) s = p)"

end
