(* ===== verification/FacilitatorVerify.thy ===== *)
theory FacilitatorVerify
  imports Prelude
begin

text \<open>
  \<^verbatim>\<open>zeus-facilitator/src/config.ts\<close> (the network registry) and \<^verbatim>\<open>zeus-facilitator/src/verify.ts\<close>: what the
  facilitator checks before it settles a payment. A request is the parsed JSON body. Recovering the
  signer, function selectors and \<open>eth_call\<close> are viem's and the chain's, arguments here. Property
  names inherited from \<open>Object.prototype\<close> are not modelled.
\<close>

section \<open>Networks\<close>

record FacilitatorNetwork =
  fn_id :: string
  fn_chainId :: int
  fn_usdc :: string
  fn_domain_name :: string
  fn_domain_version :: string
  fn_testnet :: bool
  fn_gasSymbol :: string

definition x_layer :: FacilitatorNetwork where
  "x_layer = \<lparr>fn_id = ''eip155:196'', fn_chainId = 196, fn_usdc = ''0x74b7F16337b8972027F6196A17a631aC6dE26d22'',
     fn_domain_name = ''USD Coin'', fn_domain_version = ''2'', fn_testnet = False, fn_gasSymbol = ''OKB''\<rparr>"

definition base_sepolia :: FacilitatorNetwork where
  "base_sepolia = \<lparr>fn_id = ''eip155:84532'', fn_chainId = 84532, fn_usdc = ''0x036CbD53842c5426634e7929541eC2318f3dCF7e'',
     fn_domain_name = ''USDC'', fn_domain_version = ''2'', fn_testnet = True, fn_gasSymbol = ''ETH''\<rparr>"

definition FACILITATOR_NETWORKS :: "(string, FacilitatorNetwork) jsmap" where
  "FACILITATOR_NETWORKS = [(''eip155:196'', x_layer), (''eip155:84532'', base_sepolia)]"

section \<open>Verdicts\<close>

datatype VerifyFailureReason =
    malformed_request | unsupported_scheme | network_mismatch | unsupported_network | asset_mismatch | pay_to_mismatch
  | amount_mismatch | x402_version_mismatch | domain_binding_missing | domain_mismatch | authorization_mismatch
  | authorization_window | invalid_signature | authorization_already_used | insufficient_payer_balance

fun reason_name :: "VerifyFailureReason \<Rightarrow> string" where
  "reason_name malformed_request = ''malformed_request''"
| "reason_name unsupported_scheme = ''unsupported_scheme''"
| "reason_name network_mismatch = ''network_mismatch''"
| "reason_name unsupported_network = ''unsupported_network''"
| "reason_name asset_mismatch = ''asset_mismatch''"
| "reason_name pay_to_mismatch = ''pay_to_mismatch''"
| "reason_name amount_mismatch = ''amount_mismatch''"
| "reason_name x402_version_mismatch = ''x402_version_mismatch''"
| "reason_name domain_binding_missing = ''domain_binding_missing''"
| "reason_name domain_mismatch = ''domain_mismatch''"
| "reason_name authorization_mismatch = ''authorization_mismatch''"
| "reason_name authorization_window = ''authorization_window''"
| "reason_name invalid_signature = ''invalid_signature''"
| "reason_name authorization_already_used = ''authorization_already_used''"
| "reason_name insufficient_payer_balance = ''insufficient_payer_balance''"

text \<open>What is thrown: the error the facilitator tells apart by its name, another \<open>Error\<close> with its message, or another value.\<close>

datatype thrown = RpcUnavailableError string | OtherError string | NotAnError

text \<open>A check passes with a value, refuses with a reason, or throws.\<close>

datatype 'a verdict = Passes 'a | Refuses VerifyFailureReason string | Throws thrown

fun then_check :: "'a verdict \<Rightarrow> ('a \<Rightarrow> 'b verdict) \<Rightarrow> 'b verdict" where
  "then_check (Passes x) f = f x"
| "then_check (Refuses r d) f = Refuses r d"
| "then_check (Throws e) f = Throws e"

definition unless :: "bool \<Rightarrow> VerifyFailureReason \<Rightarrow> string \<Rightarrow> unit verdict" where
  "unless ok reason detail = (if ok then Passes () else Refuses reason detail)"

record VerifiedAuthorization =
  va_from :: string
  va_to :: string
  va_value :: int
  va_validAfter :: int
  va_validBefore :: int
  va_nonce :: string

section \<open>Formats\<close>

definition asNonNegativeInt :: "json \<Rightarrow> int option" where
  "asNonNegativeInt raw =
     (case raw of JStr s \<Rightarrow> if s \<noteq> [] \<and> list_all (\<lambda>c. digit_value c \<noteq> None) s then BigInt s else None | _ \<Rightarrow> None)"

definition hex_text :: "nat \<Rightarrow> string \<Rightarrow> bool" where
  "hex_text n s = (take 2 s = ''0x'' \<and> length s = n + 2 \<and> list_all is_hex (drop 2 s))"

fun isAddress :: "json \<Rightarrow> bool" where
  "isAddress (JStr s) = hex_text 40 s"
| "isAddress _ = False"

fun isBytes32 :: "json \<Rightarrow> bool" where
  "isBytes32 (JStr s) = hex_text 64 s"
| "isBytes32 _ = False"

fun str_of :: "json \<Rightarrow> string" where
  "str_of (JStr s) = s"
| "str_of _ = []"

fun is_str :: "json \<Rightarrow> bool" where
  "is_str (JStr s) = True"
| "is_str _ = False"

fun typeof_object :: "json \<Rightarrow> bool" where
  "typeof_object JNull = True"
| "typeof_object (JArr vs) = True"
| "typeof_object (JObj kvs) = True"
| "typeof_object _ = False"

fun is_num :: "json \<Rightarrow> bool" where
  "is_num (JNum n) = True"
| "is_num _ = False"

section \<open>Version 1 requests\<close>

definition V1_NETWORK_ALIASES :: "(string, string) jsmap" where
  "V1_NETWORK_ALIASES = [(''base-sepolia'', ''eip155:84532''), (''x-layer'', ''eip155:196'')]"

definition aliasV1Network :: "json \<Rightarrow> string option" where
  "aliasV1Network v =
     (case v of
        JStr s \<Rightarrow>
          (case js_get V1_NETWORK_ALIASES s of
             Some n \<Rightarrow> Some n
           | None \<Rightarrow> if take 7 s = ''eip155:'' \<and> drop 7 s \<noteq> [] \<and> list_all (\<lambda>c. digit_value c \<noteq> None) (drop 7 s) then Some s else None)
      | _ \<Rightarrow> None)"

text \<open>The object part that may be null or undefined: reading a field of it throws.\<close>

definition no_object :: thrown where
  "no_object = OtherError ''Cannot read properties of null or undefined''"

definition v1_shape :: "json \<Rightarrow> json \<Rightarrow> bool" where
  "v1_shape payload requirements =
     (let inner = json_field payload ''payload'' in
      typeof_object inner \<and> inner \<noteq> JNull \<and> is_str (json_field inner ''signature'') \<and>
      typeof_object (json_field inner ''authorization'') \<and> json_field inner ''authorization'' \<noteq> JNull)"

definition normalized_v1 :: "json \<Rightarrow> json \<Rightarrow> string \<Rightarrow> string \<Rightarrow> json \<times> json" where
  "normalized_v1 payload requirements networkId amount =
     (let extraRaw = json_field requirements ''extra'';
          extra = (if typeof_object extraRaw \<and> extraRaw \<noteq> JNull then extraRaw else JUndefined);
          timeout = (if is_num (json_field requirements ''maxTimeoutSeconds'') then json_field requirements ''maxTimeoutSeconds'' else JNum 60);
          terms = [(''scheme'', JStr ''exact''), (''network'', JStr networkId), (''amount'', JStr amount),
                   (''asset'', json_field requirements ''asset''), (''payTo'', json_field requirements ''payTo''),
                   (''maxTimeoutSeconds'', timeout), (''extra'', extra)]
      in (JObj [(''x402Version'', JNum 1), (''accepted'', JObj terms), (''payload'', json_field payload ''payload'')], JObj terms))"

definition normalizeV1Request :: "json \<Rightarrow> thrown + (json \<times> json) option" where
  "normalizeV1Request request =
     (let payload = json_field request ''paymentPayload''; requirements = json_field request ''paymentRequirements'' in
      if json_field request ''x402Version'' \<noteq> JNum 1 then Inr None
      else if payload = JNull then Inl no_object
      else if json_field payload ''x402Version'' \<noteq> JNum 1 \<or> json_field payload ''scheme'' \<noteq> JStr ''exact'' then Inr None
      else if requirements = JNull then Inl no_object
      else if json_field requirements ''scheme'' \<noteq> JStr ''exact'' \<or> \<not> v1_shape payload requirements then Inr None
      else
        (let networkId = or_else (aliasV1Network (json_field requirements ''network'')) (aliasV1Network (json_field payload ''network''));
             amountRaw = (if nullish (json_field requirements ''maxAmountRequired'') then json_field requirements ''amount''
                          else json_field requirements ''maxAmountRequired'')
         in case networkId of
              None \<Rightarrow> Inr None
            | Some n \<Rightarrow>
                (if str_of amountRaw = [] \<or> \<not> isAddress (json_field requirements ''asset'') \<or> \<not> isAddress (json_field requirements ''payTo'')
                 then Inr None else Inr (Some (normalized_v1 payload requirements n (str_of amountRaw))))))"

section \<open>The checks without the chain\<close>

definition check_envelope :: "json \<Rightarrow> (json \<times> json) verdict" where
  "check_envelope request =
     (if \<not> typeof_object request \<or> request = JNull \<or> \<not> is_num (json_field request ''x402Version'') \<or>
         \<not> typeof_object (json_field request ''paymentPayload'') \<or> \<not> typeof_object (json_field request ''paymentRequirements'')
      then Refuses malformed_request ''request must be {x402Version, paymentPayload, paymentRequirements}''
      else
        (let payload = json_field request ''paymentPayload''; requirements = json_field request ''paymentRequirements'';
             version = json_field request ''x402Version''
         in if version \<noteq> JNum 1 \<and> version \<noteq> JNum 2
            then Refuses x402_version_mismatch ''facilitator serves x402Version 1 and 2 only''
            else if version = JNum 1
            then (case normalizeV1Request request of
                    Inl e \<Rightarrow> Throws e
                  | Inr None \<Rightarrow> Refuses x402_version_mismatch ''v1 envelope is malformed or names an unsupported network''
                  | Inr (Some n) \<Rightarrow> Passes n)
            else if payload = JNull then Throws no_object
            else if json_field payload ''x402Version'' \<noteq> JNum 2
            then Refuses x402_version_mismatch ''paymentPayload.x402Version != request.x402Version (=2)''
            else Passes (payload, requirements)))"

definition check_scheme :: "FacilitatorNetwork \<Rightarrow> json \<Rightarrow> json \<Rightarrow> unit verdict" where
  "check_scheme net payload requirements =
     (let accepted = json_field payload ''accepted'' in
      if requirements = JNull then Throws no_object
      else if json_field requirements ''scheme'' \<noteq> JStr ''exact''
      then Refuses unsupported_scheme ''only the exact scheme is supported (EIP-3009)''
      else if nullish accepted then Throws no_object
      else if json_field accepted ''scheme'' \<noteq> JStr ''exact''
      then Refuses unsupported_scheme ''only the exact scheme is supported (EIP-3009)''
      else unless (json_field requirements ''network'' = JStr (fn_id net) \<and> json_field accepted ''network'' = JStr (fn_id net))
             network_mismatch
             (''requirements.network='' @ js_String (json_field requirements ''network'') @ '' payload.accepted.network='' @
              js_String (json_field accepted ''network'') @ '' facilitator serves '' @ fn_id net))"

definition names_usdc :: "FacilitatorNetwork \<Rightarrow> json \<Rightarrow> bool" where
  "names_usdc net asset = (isAddress asset \<and> toLowerCase (str_of asset) = toLowerCase (fn_usdc net))"

definition check_asset :: "FacilitatorNetwork \<Rightarrow> json \<Rightarrow> json \<Rightarrow> unit verdict" where
  "check_asset net accepted requirements =
     then_check
       (unless (names_usdc net (json_field requirements ''asset'')) asset_mismatch
         (''asset '' @ js_String (json_field requirements ''asset'') @ '' != network USDC '' @ fn_usdc net))
       (\<lambda>_. unless (names_usdc net (json_field accepted ''asset'')) asset_mismatch
         (''payload asset '' @ js_String (json_field accepted ''asset'') @ '' != network USDC '' @ fn_usdc net))"

definition check_domain :: "FacilitatorNetwork \<Rightarrow> json \<Rightarrow> json \<Rightarrow> unit verdict" where
  "check_domain net accepted requirements =
     (let name = json_field (json_field requirements ''extra'') ''name''; version = json_field (json_field requirements ''extra'') ''version'';
          pname = json_field (json_field accepted ''extra'') ''name''; pversion = json_field (json_field accepted ''extra'') ''version''
      in then_check (unless (str_of name \<noteq> [] \<and> str_of version \<noteq> []) domain_binding_missing
                       ''paymentRequirements.extra.name/.version are required for EVM'')
         (\<lambda>_. then_check (unless (name = JStr (fn_domain_name net) \<and> version = JStr (fn_domain_version net)) domain_mismatch
                       (''extra domain ('' @ str_of name @ ''/'' @ str_of version @ '') != pinned ('' @ fn_domain_name net @ ''/'' @
                        fn_domain_version net @ '')''))
         (\<lambda>_. unless ((pname = JUndefined \<or> pname = JStr (fn_domain_name net)) \<and>
                         (pversion = JUndefined \<or> pversion = JStr (fn_domain_version net))) domain_mismatch
                       ''payload.accepted.extra domain disagrees with the pinned domain'')))"

text \<open>The amount asked for, once payee and amount are consistent.\<close>

definition check_terms :: "json \<Rightarrow> json \<Rightarrow> int verdict" where
  "check_terms accepted requirements =
     (let payTo = json_field requirements ''payTo''; theirs = json_field accepted ''payTo'' in
      case asNonNegativeInt (json_field requirements ''amount'') of
        None \<Rightarrow> Refuses amount_mismatch (''amount '' @ js_String (json_field requirements ''amount'') @ '' must be a positive integer string'')
      | Some amount \<Rightarrow>
          (if amount \<le> 0
           then Refuses amount_mismatch (''amount '' @ js_String (json_field requirements ''amount'') @ '' must be a positive integer string'')
           else if \<not> isAddress payTo then Refuses pay_to_mismatch ''requirements.payTo must be an address''
           else if \<not> nullish theirs \<and> \<not> is_str theirs then Throws (OtherError ''toLowerCase is not a function'')
           else if nullish theirs \<or> toLowerCase (str_of payTo) \<noteq> toLowerCase (str_of theirs)
           then Refuses pay_to_mismatch ''requirements.payTo != payload.accepted.payTo''
           else Passes amount))"

definition check_authorization :: "json \<Rightarrow> json \<Rightarrow> int \<Rightarrow> VerifiedAuthorization verdict" where
  "check_authorization payload requirements amount =
     (let auth = json_field (json_field payload ''payload'') ''authorization'' in
      if \<not> isAddress (json_field auth ''from'') \<or> \<not> isAddress (json_field auth ''to'') \<or> \<not> isBytes32 (json_field auth ''nonce'') \<or>
         \<not> is_str (json_field auth ''value'') \<or> \<not> is_str (json_field auth ''validAfter'') \<or> \<not> is_str (json_field auth ''validBefore'')
      then Refuses malformed_request ''payload.payload.authorization is incomplete or malformed''
      else case (asNonNegativeInt (json_field auth ''value''), asNonNegativeInt (json_field auth ''validAfter''),
                 asNonNegativeInt (json_field auth ''validBefore'')) of
        (Some v, Some a, Some b) \<Rightarrow>
          (if v \<noteq> amount then Refuses amount_mismatch ''authorization.value != requirements.amount''
           else if toLowerCase (str_of (json_field auth ''to'')) \<noteq> toLowerCase (str_of (json_field requirements ''payTo''))
           then Refuses authorization_mismatch ''authorization.to != payTo''
           else Passes \<lparr>va_from = str_of (json_field auth ''from''), va_to = str_of (json_field auth ''to''), va_value = v,
                  va_validAfter = a, va_validBefore = b, va_nonce = str_of (json_field auth ''nonce'')\<rparr>)
      | _ \<Rightarrow> Refuses malformed_request ''authorization value/validAfter/validBefore must be integer strings'')"

definition check_window :: "int \<Rightarrow> VerifiedAuthorization \<Rightarrow> unit verdict" where
  "check_window nowMs auth =
     then_check (unless (nowMs div 1000 < va_validBefore auth) authorization_window ''authorization already expired (validBefore <= now)'')
       (\<lambda>_. unless (va_validAfter auth \<le> nowMs div 1000) authorization_window ''authorization not yet valid (validAfter > now)'')"

text \<open>The EIP-712 data the payer signed. Recovering the signer from it and a signature is viem's.\<close>

definition EIP3009_TRANSFER_WITH_AUTHORIZATION_TYPES :: "(string \<times> string) list" where
  "EIP3009_TRANSFER_WITH_AUTHORIZATION_TYPES =
     [(''from'', ''address''), (''to'', ''address''), (''value'', ''uint256''), (''validAfter'', ''uint256''), (''validBefore'', ''uint256''),
      (''nonce'', ''bytes32'')]"

record TypedData =
  td_name :: string
  td_version :: string
  td_chainId :: int
  td_verifyingContract :: string
  td_types :: "(string \<times> string) list"
  td_primaryType :: string
  td_message :: VerifiedAuthorization

definition transfer_typed_data :: "FacilitatorNetwork \<Rightarrow> VerifiedAuthorization \<Rightarrow> TypedData" where
  "transfer_typed_data net auth =
     \<lparr>td_name = fn_domain_name net, td_version = fn_domain_version net, td_chainId = fn_chainId net, td_verifyingContract = fn_usdc net,
      td_types = EIP3009_TRANSFER_WITH_AUTHORIZATION_TYPES, td_primaryType = ''TransferWithAuthorization'', td_message = auth\<rparr>"

type_synonym recoverer = "TypedData \<Rightarrow> string \<Rightarrow> exn + string"

definition check_signature :: "recoverer \<Rightarrow> FacilitatorNetwork \<Rightarrow> json \<Rightarrow> VerifiedAuthorization \<Rightarrow> string verdict" where
  "check_signature recover net payload auth =
     (let signature = json_field (json_field payload ''payload'') ''signature'' in
      if \<not> is_str signature \<or> \<not> hex_text 130 (str_of signature)
      then Refuses invalid_signature ''signature must be a 65-byte 0x-hex string''
      else case recover (transfer_typed_data net auth) (str_of signature) of
        Inl e \<Rightarrow> Refuses invalid_signature (''recovery failed: '' @ e)
      | Inr recovered \<Rightarrow>
          (if toLowerCase recovered \<noteq> toLowerCase (va_from auth)
           then Refuses invalid_signature (''recovered '' @ recovered @ '' != authorization.from '' @ va_from auth)
           else Passes recovered))"

definition verifyOffChain :: "recoverer \<Rightarrow> json \<Rightarrow> FacilitatorNetwork \<Rightarrow> int \<Rightarrow> (string \<times> VerifiedAuthorization) verdict" where
  "verifyOffChain recover request net nowMs =
     then_check (check_envelope request) (\<lambda>(payload, requirements).
     then_check (check_scheme net payload requirements) (\<lambda>_.
     then_check (check_asset net (json_field payload ''accepted'') requirements) (\<lambda>_.
     then_check (check_domain net (json_field payload ''accepted'') requirements) (\<lambda>_.
     then_check (check_terms (json_field payload ''accepted'') requirements) (\<lambda>amount.
     then_check (check_authorization payload requirements amount) (\<lambda>auth.
     then_check (check_window nowMs auth) (\<lambda>_.
     then_check (check_signature recover net payload auth) (\<lambda>payer. Passes (payer, auth)))))))))"

section \<open>The checks on the chain\<close>

text \<open>\<open>eth_call\<close>: contract and call data to the returned hex text.\<close>

type_synonym eth_call = "string \<Rightarrow> string \<Rightarrow> exn + string"

definition encodeAddress :: "string \<Rightarrow> string" where
  "encodeAddress a = ''0x'' @ padStart (drop 2 (toLowerCase a)) 64 CHR ''0''"

definition read_call :: "eth_call \<Rightarrow> string \<Rightarrow> string \<Rightarrow> exn + int" where
  "read_call call to data =
     (case call to data of
        Inl e \<Rightarrow> Inl e
      | Inr raw \<Rightarrow> (case BigInt raw of None \<Rightarrow> Inl (''Cannot convert '' @ raw @ '' to a BigInt'') | Some n \<Rightarrow> Inr n))"

definition isAuthorizationUsed :: "(string \<Rightarrow> string) \<Rightarrow> eth_call \<Rightarrow> string \<Rightarrow> string \<Rightarrow> string \<Rightarrow> exn + bool" where
  "isAuthorizationUsed selector call usdc authorizer nonce =
     map_sum id (\<lambda>n. n \<noteq> 0)
       (read_call call usdc (selector ''authorizationState(address,bytes32)'' @ drop 2 (encodeAddress authorizer) @ drop 2 nonce))"

definition getBalance :: "(string \<Rightarrow> string) \<Rightarrow> eth_call \<Rightarrow> string \<Rightarrow> string \<Rightarrow> exn + int" where
  "getBalance selector call usdc payer = read_call call usdc (selector ''balanceOf(address)'' @ drop 2 (encodeAddress payer))"

definition check_chain :: "(string \<Rightarrow> string) \<Rightarrow> eth_call \<Rightarrow> FacilitatorNetwork \<Rightarrow> bool \<Rightarrow> VerifiedAuthorization \<Rightarrow> unit verdict" where
  "check_chain selector call net checkPayerBalance auth =
     (let unavailable = (\<lambda>e. Throws (RpcUnavailableError (''on-chain verification unavailable: '' @ e))) in
      case isAuthorizationUsed selector call (fn_usdc net) (va_from auth) (va_nonce auth) of
        Inl e \<Rightarrow> unavailable e
      | Inr True \<Rightarrow> Refuses authorization_already_used (''nonce '' @ va_nonce auth @ '' is spent on-chain'')
      | Inr False \<Rightarrow>
          (if \<not> checkPayerBalance then Passes ()
           else case getBalance selector call (fn_usdc net) (va_from auth) of
                  Inl e \<Rightarrow> unavailable e
                | Inr balance \<Rightarrow> unless (va_value auth \<le> balance) insufficient_payer_balance
                    (''balance '' @ string_of_int balance @ '' < value '' @ string_of_int (va_value auth))))"

definition verifyRequest ::
    "recoverer \<Rightarrow> (string \<Rightarrow> string) \<Rightarrow> eth_call \<Rightarrow> json \<Rightarrow> FacilitatorNetwork \<Rightarrow> bool \<Rightarrow> int \<Rightarrow> (string \<times> VerifiedAuthorization) verdict" where
  "verifyRequest recover selector call request net checkPayerBalance nowMs =
     then_check (verifyOffChain recover request net nowMs)
       (\<lambda>(payer, auth). then_check (check_chain selector call net checkPayerBalance auth) (\<lambda>_. Passes (payer, auth)))"

section \<open>What a passing request guarantees\<close>

lemma then_check_Passes [simp]: "then_check x f = Passes y \<longleftrightarrow> (\<exists>a. x = Passes a \<and> f a = Passes y)"
  by (cases x) auto

lemma unless_Passes [simp]: "unless ok r d = Passes u \<longleftrightarrow> ok"
  by (simp add: unless_def)

lemma check_scheme_Passes:
  "check_scheme net payload req = Passes u \<Longrightarrow>
   json_field req ''scheme'' = JStr ''exact'' \<and> json_field (json_field payload ''accepted'') ''scheme'' = JStr ''exact'' \<and>
   json_field req ''network'' = JStr (fn_id net) \<and> json_field (json_field payload ''accepted'') ''network'' = JStr (fn_id net)"
  by (auto simp: check_scheme_def Let_def split: if_splits)

lemma check_asset_Passes: "check_asset net acc req = Passes u \<longleftrightarrow> names_usdc net (json_field req ''asset'') \<and> names_usdc net (json_field acc ''asset'')"
  by (simp add: check_asset_def)

lemma check_domain_Passes:
  "check_domain net acc req = Passes u \<Longrightarrow>
   json_field (json_field req ''extra'') ''name'' = JStr (fn_domain_name net) \<and>
   json_field (json_field req ''extra'') ''version'' = JStr (fn_domain_version net)"
  by (simp add: check_domain_def Let_def)

lemma check_terms_Passes:
  "check_terms acc req = Passes amount \<Longrightarrow>
   asNonNegativeInt (json_field req ''amount'') = Some amount \<and> 0 < amount \<and> isAddress (json_field req ''payTo'') \<and>
   toLowerCase (str_of (json_field req ''payTo'')) = toLowerCase (str_of (json_field acc ''payTo''))"
  by (auto simp: check_terms_def Let_def split: option.splits if_splits)

lemma check_authorization_Passes:
  "check_authorization payload req amount = Passes auth \<Longrightarrow>
   va_value auth = amount \<and> toLowerCase (va_to auth) = toLowerCase (str_of (json_field req ''payTo'')) \<and>
   hex_text 64 (va_nonce auth) \<and> hex_text 40 (va_from auth)"
  by (auto simp: check_authorization_def Let_def split: option.splits if_splits elim!: isAddress.elims isBytes32.elims)

lemma check_window_Passes: "check_window now auth = Passes u \<longleftrightarrow> va_validAfter auth \<le> now div 1000 \<and> now div 1000 < va_validBefore auth"
  by (auto simp: check_window_def)

lemma check_signature_Passes:
  "check_signature recover net payload auth = Passes payer \<Longrightarrow>
   hex_text 130 (str_of (json_field (json_field payload ''payload'') ''signature'')) \<and>
   recover (transfer_typed_data net auth) (str_of (json_field (json_field payload ''payload'') ''signature'')) = Inr payer \<and>
   toLowerCase payer = toLowerCase (va_from auth)"
  by (auto simp: check_signature_def Let_def split: sum.splits if_splits)

lemma check_chain_Passes:
  "check_chain selector call net chk auth = Passes u \<Longrightarrow>
   isAuthorizationUsed selector call (fn_usdc net) (va_from auth) (va_nonce auth) = Inr False \<and>
   (chk \<longrightarrow> (\<exists>b. getBalance selector call (fn_usdc net) (va_from auth) = Inr b \<and> va_value auth \<le> b))"
  by (auto simp: check_chain_def Let_def split: sum.splits bool.splits if_splits)


text \<open>A request that passes.\<close>

definition hexes :: "nat \<Rightarrow> char \<Rightarrow> string" where
  "hexes n c = ''0x'' @ replicate n c"

definition demo_terms :: "string \<Rightarrow> json" where
  "demo_terms asset = JObj
     [(''scheme'', JStr ''exact''), (''network'', JStr ''eip155:84532''), (''asset'', JStr asset), (''amount'', JStr ''25''),
      (''payTo'', JStr (hexes 40 CHR ''b'')), (''maxTimeoutSeconds'', JNum 60),
      (''extra'', JObj [(''name'', JStr ''USDC''), (''version'', JStr ''2'')])]"

definition demo_request :: json where
  "demo_request = JObj
     [(''x402Version'', JNum 2),
      (''paymentPayload'', JObj
         [(''x402Version'', JNum 2), (''accepted'', demo_terms ''0x036cbd53842c5426634e7929541ec2318f3dcf7e''),
          (''payload'', JObj [(''signature'', JStr (hexes 130 CHR ''1'')),
             (''authorization'', JObj [(''from'', JStr (hexes 40 CHR ''a'')), (''to'', JStr (hexes 40 CHR ''B'')), (''value'', JStr ''25''),
                (''validAfter'', JStr ''0''), (''validBefore'', JStr ''100''), (''nonce'', JStr (hexes 64 CHR ''7''))])])]),
      (''paymentRequirements'', demo_terms (fn_usdc base_sepolia))]"

definition demo_node :: eth_call where
  "demo_node to data = Inr (if starts_with ''bal'' data then ''0x64'' else ''0x0'')"

definition demo_selector :: "string \<Rightarrow> string" where
  "demo_selector s = take 3 s"

definition demo_verdict :: "(string \<times> VerifiedAuthorization) verdict" where
  "demo_verdict = verifyRequest (\<lambda>d sig. Inr (va_from (td_message d))) demo_selector demo_node demo_request base_sepolia True 50000"

definition demo_payment :: VerifiedAuthorization where
  "demo_payment = \<lparr>va_from = hexes 40 CHR ''a'', va_to = hexes 40 CHR ''B'', va_value = 25, va_validAfter = 0, va_validBefore = 100,
     va_nonce = hexes 64 CHR ''7''\<rparr>"

lemma demo_passes: "demo_verdict = Passes (hexes 40 CHR ''a'', demo_payment)"
  by code_simp


end
