(* ===== verification/FacilitatorSettle.thy ===== *)
theory FacilitatorSettle
  imports FacilitatorVerify
begin

text \<open>
  \<^verbatim>\<open>zeus-facilitator/src/settle.ts\<close> and \<^verbatim>\<open>rpc.ts\<close>: the nonce guard, one \<open>settle\<close> call cut at its awaits, and
  all interleavings of the calls of one process. The ABI encoding, the signature parser, the signing
  account and the node are arguments.
\<close>

section \<open>The nonce guard\<close>

datatype NonceEntry = Inflight | Done "string option"

type_synonym guard = "(string, NonceEntry) jsmap"

text \<open>\<open>None\<close>: the nonce was free and is claimed now.\<close>

definition claim :: "string \<Rightarrow> guard \<Rightarrow> NonceEntry option \<times> guard" where
  "claim nonce g = (case js_get g nonce of Some e \<Rightarrow> (Some e, g) | None \<Rightarrow> (None, js_set nonce Inflight g))"

definition markDone :: "string \<Rightarrow> string option \<Rightarrow> guard \<Rightarrow> guard" where
  "markDone nonce txHash g = js_set nonce (Done txHash) g"

definition release :: "string \<Rightarrow> guard \<Rightarrow> guard" where
  "release nonce g = (if js_get g nonce = Some Inflight then js_delete nonce g else g)"

section \<open>The parts of one settlement\<close>

datatype receipt_status = Receipt_success | Receipt_reverted

record Fees =
  maxFeePerGas :: int
  maxPriorityFeePerGas :: int

record SettleTx =
  st_to :: string
  st_data :: string
  st_nonce :: nat
  st_gas :: int
  st_fees :: Fees
  st_chainId :: int

text \<open>The answers of the node, one per call of the settlement.\<close>

record ChainRpc =
  getTransactionCount :: "string \<Rightarrow> thrown + nat"
  estimateGas :: "string \<Rightarrow> string \<Rightarrow> string \<Rightarrow> thrown + int"
  suggestFees :: "thrown + Fees"
  sendRawTransaction :: "string \<Rightarrow> thrown + string"
  waitForReceipt :: "string \<Rightarrow> int \<Rightarrow> thrown + receipt_status"

record SplitSignature =
  sg_v :: int
  sg_r :: string
  sg_s :: string

text \<open>The contract call as handed to the ABI encoder.\<close>

definition TRANSFER_WITH_AUTHORIZATION_ABI :: "(string \<times> string) list" where
  "TRANSFER_WITH_AUTHORIZATION_ABI =
     [(''from'', ''address''), (''to'', ''address''), (''value'', ''uint256''), (''validAfter'', ''uint256''), (''validBefore'', ''uint256''),
      (''nonce'', ''bytes32''), (''v'', ''uint8''), (''r'', ''bytes32''), (''s'', ''bytes32'')]"

datatype abi_arg = Text_arg string | Number_arg int

record FunctionCall =
  fn_abi :: "(string \<times> string) list"
  fn_functionName :: string
  fn_args :: "abi_arg list"

definition settle_call :: "VerifiedAuthorization \<Rightarrow> SplitSignature \<Rightarrow> FunctionCall" where
  "settle_call auth sg =
     \<lparr>fn_abi = TRANSFER_WITH_AUTHORIZATION_ABI, fn_functionName = ''transferWithAuthorization'',
      fn_args = [Text_arg (va_from auth), Text_arg (va_to auth), Number_arg (va_value auth), Number_arg (va_validAfter auth),
        Number_arg (va_validBefore auth), Text_arg (va_nonce auth), Number_arg (sg_v sg), Text_arg (sg_r sg), Text_arg (sg_s sg)]\<rparr>"

text \<open>What the executor is built from, and the two encoders of the library it calls.\<close>

record Executor =
  ex_account :: string
  ex_sign :: "SettleTx \<Rightarrow> thrown + string"
  ex_network :: FacilitatorNetwork
  ex_receiptTimeoutMs :: int
  ex_encodeFunctionData :: "FunctionCall \<Rightarrow> string"
  ex_parseSignature :: "string \<Rightarrow> thrown + (int option \<times> string option \<times> string option)"

definition splitSignature :: "Executor \<Rightarrow> string \<Rightarrow> thrown + SplitSignature" where
  "splitSignature ex signature =
     (case ex_parseSignature ex signature of
        Inl e \<Rightarrow> Inl e
      | Inr (Some v, Some r, Some s) \<Rightarrow> Inr \<lparr>sg_v = v, sg_r = r, sg_s = s\<rparr>
      | Inr _ \<Rightarrow> Inl (OtherError ''signature is missing r/s/v components''))"

definition signSettleTx :: "Executor \<Rightarrow> nat \<Rightarrow> int \<Rightarrow> Fees \<Rightarrow> string \<Rightarrow> thrown + string" where
  "signSettleTx ex nonce gas fees data =
     ex_sign ex \<lparr>st_to = fn_usdc (ex_network ex), st_data = data, st_nonce = nonce, st_gas = gas, st_fees = fees,
                 st_chainId = fn_chainId (ex_network ex)\<rparr>"

definition bind_thrown :: "thrown + 'a \<Rightarrow> ('a \<Rightarrow> thrown + 'b) \<Rightarrow> thrown + 'b" where
  "bind_thrown x f = (case x of Inl e \<Rightarrow> Inl e | Inr a \<Rightarrow> f a)"

definition encodeSettleCalldata :: "Executor \<Rightarrow> VerifiedAuthorization \<Rightarrow> SplitSignature \<Rightarrow> string" where
  "encodeSettleCalldata ex auth sg = ex_encodeFunctionData ex (settle_call auth sg)"

text \<open>The try block up to the broadcast, in the two halves on either side of reading the account's transaction count.\<close>

definition settle_calldata :: "Executor \<Rightarrow> VerifiedAuthorization \<Rightarrow> string \<Rightarrow> thrown + string" where
  "settle_calldata ex auth signature = map_sum id (encodeSettleCalldata ex auth) (splitSignature ex signature)"

definition prepare :: "Executor \<Rightarrow> ChainRpc \<Rightarrow> VerifiedAuthorization \<Rightarrow> string \<Rightarrow> thrown + string \<times> nat" where
  "prepare ex rpc auth signature =
     bind_thrown (settle_calldata ex auth signature) (\<lambda>data.
     map_sum id (Pair data) (getTransactionCount rpc (ex_account ex)))"

definition estimate_gas :: "Executor \<Rightarrow> ChainRpc \<Rightarrow> string \<times> nat \<Rightarrow> thrown + int" where
  "estimate_gas ex rpc prepared = estimateGas rpc (ex_account ex) (fn_usdc (ex_network ex)) (fst prepared)"

definition price_and_sign :: "Executor \<Rightarrow> ChainRpc \<Rightarrow> string \<times> nat \<Rightarrow> int \<Rightarrow> thrown + string" where
  "price_and_sign ex rpc prepared gas =
     bind_thrown (suggestFees rpc) (\<lambda>fees. signSettleTx ex (snd prepared) gas fees (fst prepared))"

definition sign_tx :: "Executor \<Rightarrow> ChainRpc \<Rightarrow> string \<times> nat \<Rightarrow> thrown + string" where
  "sign_tx ex rpc prepared = bind_thrown (estimate_gas ex rpc prepared) (price_and_sign ex rpc prepared)"

definition send_tx :: "Executor \<Rightarrow> ChainRpc \<Rightarrow> string \<times> nat \<Rightarrow> thrown + string" where
  "send_tx ex rpc prepared = bind_thrown (sign_tx ex rpc prepared) (sendRawTransaction rpc)"

section \<open>Answers\<close>

datatype settle_body =
    SettleSuccess (sb_transaction: string) (sb_network: string) (sb_payer: string)
  | SettleFailure (sb_errorReason: string) (sb_network: string) (sb_transaction: string)

record SettleOutcome =
  so_httpStatus :: nat
  so_body :: settle_body

definition duplicate_reason :: "NonceEntry \<Rightarrow> string" where
  "duplicate_reason e =
     (case e of
        Inflight \<Rightarrow> ''duplicate_settle_inflight''
      | Done h \<Rightarrow> ''duplicate_settle_already_broadcast'' @ (case h of Some x \<Rightarrow> if x = [] then [] else '':'' @ x | None \<Rightarrow> []))"

fun entry_hash :: "NonceEntry \<Rightarrow> string" where
  "entry_hash (Done (Some h)) = h"
| "entry_hash _ = []"

definition duplicate_answer :: "Executor \<Rightarrow> NonceEntry \<Rightarrow> SettleOutcome" where
  "duplicate_answer ex e =
     \<lparr>so_httpStatus = 409, so_body = SettleFailure (duplicate_reason e) (fn_id (ex_network ex)) (entry_hash e)\<rparr>"

fun error_detail :: "thrown \<Rightarrow> string" where
  "error_detail (RpcUnavailableError m) = m"
| "error_detail (OtherError m) = m"
| "error_detail NotAnError = ''unknown''"

fun is_rpc_unavailable :: "thrown \<Rightarrow> bool" where
  "is_rpc_unavailable (RpcUnavailableError m) = True"
| "is_rpc_unavailable _ = False"

definition broadcast_failed :: "Executor \<Rightarrow> thrown \<Rightarrow> SettleOutcome" where
  "broadcast_failed ex err =
     (if is_rpc_unavailable err
      then \<lparr>so_httpStatus = 503, so_body = SettleFailure (''broadcast_unavailable:'' @ error_detail err) (fn_id (ex_network ex)) []\<rparr>
      else \<lparr>so_httpStatus = 200, so_body = SettleFailure (''broadcast_rejected:'' @ error_detail err) (fn_id (ex_network ex)) []\<rparr>)"

definition receipt_answer :: "Executor \<Rightarrow> string \<Rightarrow> string \<Rightarrow> thrown + receipt_status \<Rightarrow> SettleOutcome" where
  "receipt_answer ex payer txHash receipt =
     (case receipt of
        Inr Receipt_success \<Rightarrow> \<lparr>so_httpStatus = 200, so_body = SettleSuccess txHash (fn_id (ex_network ex)) payer\<rparr>
      | Inr Receipt_reverted \<Rightarrow> \<lparr>so_httpStatus = 200, so_body = SettleFailure ''settle_reverted'' (fn_id (ex_network ex)) txHash\<rparr>
      | Inl e \<Rightarrow> \<lparr>so_httpStatus = 504, so_body = SettleFailure ''receipt_timeout'' (fn_id (ex_network ex)) txHash\<rparr>)"

text \<open>\<open>settle\<close> run without interruption.\<close>

definition settle_claimed :: "Executor \<Rightarrow> ChainRpc \<Rightarrow> string \<Rightarrow> VerifiedAuthorization \<Rightarrow> string \<Rightarrow> guard \<Rightarrow> SettleOutcome \<times> guard" where
  "settle_claimed ex rpc payer auth signature g =
     (case bind_thrown (prepare ex rpc auth signature) (send_tx ex rpc) of
        Inl err \<Rightarrow> (broadcast_failed ex err, release (va_nonce auth) g)
      | Inr txHash \<Rightarrow>
          (receipt_answer ex payer txHash (waitForReceipt rpc txHash (ex_receiptTimeoutMs ex)),
           markDone (va_nonce auth) (Some txHash) g))"

definition settle :: "Executor \<Rightarrow> ChainRpc \<Rightarrow> string \<Rightarrow> VerifiedAuthorization \<Rightarrow> string \<Rightarrow> guard \<Rightarrow> SettleOutcome \<times> guard" where
  "settle ex rpc payer auth signature g =
     (case claim (va_nonce auth) g of
        (Some e, g') \<Rightarrow> (duplicate_answer ex e, g')
      | (None, g') \<Rightarrow> settle_claimed ex rpc payer auth signature g')"

section \<open>The adapter to the node\<close>

text \<open>The values \<open>createViemRpc\<close> derives from the answers of the library: call data, fees and the receipt status.\<close>

definition viem_call :: "exn + string option \<Rightarrow> exn + string" where
  "viem_call result =
     (case result of
        Inl e \<Rightarrow> Inl e
      | Inr None \<Rightarrow> Inl ''eth_call returned no data''
      | Inr (Some d) \<Rightarrow> if d = [] then Inl ''eth_call returned no data'' else Inr d)"

definition viem_fees :: "int option \<Rightarrow> int option \<Rightarrow> Fees" where
  "viem_fees baseFeePerGas priority =
     (let p = opt_default 100000000 priority; b = opt_default 50000000 baseFeePerGas
      in \<lparr>maxFeePerGas = b * 2 + p, maxPriorityFeePerGas = p\<rparr>)"

definition viem_receipt_status :: "string \<Rightarrow> receipt_status" where
  "viem_receipt_status status = (if status = ''success'' then Receipt_success else Receipt_reverted)"

section \<open>Concurrent settlements\<close>

text \<open>
  A process runs many \<open>settle\<close> calls at once and switches between them at every \<open>await\<close>; a call is in one of the
  phases below. The node may answer differently in every step. \<open>gs_sent\<close> logs the broadcasts it acknowledged.
  It may also take a transaction whose answer is then lost; the code cannot tell such a send from one that
  failed. \<open>gs_accepted\<close> logs every transaction the node took, in the order of the sends, without a hash when the
  answer was lost.
\<close>

datatype call_phase =
    Idle
  | Claimed string VerifiedAuthorization string
  | Prepared string VerifiedAuthorization "string \<times> nat"
  | Gassed string VerifiedAuthorization "string \<times> nat" int
  | Signed string VerifiedAuthorization string
  | Waiting string VerifiedAuthorization string
  | Answered string SettleOutcome

record settle_state =
  gs_guard :: guard
  gs_calls :: "nat \<Rightarrow> call_phase"
  gs_sent :: "(string \<times> string) list"
  gs_accepted :: "(string \<times> string option) list"

definition set_phase :: "nat \<Rightarrow> call_phase \<Rightarrow> settle_state \<Rightarrow> settle_state" where
  "set_phase i ph s = s\<lparr>gs_calls := (gs_calls s)(i := ph)\<rparr>"

definition step_claim :: "Executor \<Rightarrow> nat \<Rightarrow> string \<Rightarrow> VerifiedAuthorization \<Rightarrow> string \<Rightarrow> settle_state \<Rightarrow> settle_state" where
  "step_claim ex i payer auth signature s =
     (case claim (va_nonce auth) (gs_guard s) of
        (Some e, g) \<Rightarrow> set_phase i (Answered (va_nonce auth) (duplicate_answer ex e)) (s\<lparr>gs_guard := g\<rparr>)
      | (None, g) \<Rightarrow> set_phase i (Claimed payer auth signature) (s\<lparr>gs_guard := g\<rparr>))"

definition give_up :: "Executor \<Rightarrow> nat \<Rightarrow> VerifiedAuthorization \<Rightarrow> thrown \<Rightarrow> settle_state \<Rightarrow> settle_state" where
  "give_up ex i auth err s =
     set_phase i (Answered (va_nonce auth) (broadcast_failed ex err)) (s\<lparr>gs_guard := release (va_nonce auth) (gs_guard s)\<rparr>)"

definition step_prepare :: "Executor \<Rightarrow> ChainRpc \<Rightarrow> nat \<Rightarrow> string \<Rightarrow> VerifiedAuthorization \<Rightarrow> string \<Rightarrow> settle_state \<Rightarrow> settle_state" where
  "step_prepare ex rpc i payer auth signature s =
     (case prepare ex rpc auth signature of
        Inl err \<Rightarrow> give_up ex i auth err s
      | Inr prepared \<Rightarrow> set_phase i (Prepared payer auth prepared) s)"

definition step_gas :: "Executor \<Rightarrow> ChainRpc \<Rightarrow> nat \<Rightarrow> string \<Rightarrow> VerifiedAuthorization \<Rightarrow> string \<times> nat \<Rightarrow> settle_state \<Rightarrow> settle_state" where
  "step_gas ex rpc i payer auth prepared s =
     (case estimate_gas ex rpc prepared of
        Inl err \<Rightarrow> give_up ex i auth err s
      | Inr gas \<Rightarrow> set_phase i (Gassed payer auth prepared gas) s)"

text \<open>The signature is made offline, from values that no other call changes.\<close>

definition step_sign ::
    "Executor \<Rightarrow> ChainRpc \<Rightarrow> nat \<Rightarrow> string \<Rightarrow> VerifiedAuthorization \<Rightarrow> string \<times> nat \<Rightarrow> int \<Rightarrow> settle_state \<Rightarrow> settle_state" where
  "step_sign ex rpc i payer auth prepared gas s =
     (case price_and_sign ex rpc prepared gas of
        Inl err \<Rightarrow> give_up ex i auth err s
      | Inr raw \<Rightarrow> set_phase i (Signed payer auth raw) s)"

text \<open>\<open>taken\<close>: the node has the transaction although the send throws.\<close>

definition step_send ::
    "Executor \<Rightarrow> ChainRpc \<Rightarrow> bool \<Rightarrow> nat \<Rightarrow> string \<Rightarrow> VerifiedAuthorization \<Rightarrow> string \<Rightarrow> settle_state \<Rightarrow> settle_state" where
  "step_send ex rpc taken i payer auth raw s =
     (case sendRawTransaction rpc raw of
        Inl err \<Rightarrow> give_up ex i auth err (if taken then s\<lparr>gs_accepted := gs_accepted s @ [(va_nonce auth, None)]\<rparr> else s)
      | Inr txHash \<Rightarrow> set_phase i (Waiting payer auth txHash)
          (s\<lparr>gs_guard := markDone (va_nonce auth) (Some txHash) (gs_guard s), gs_sent := gs_sent s @ [(va_nonce auth, txHash)],
             gs_accepted := gs_accepted s @ [(va_nonce auth, Some txHash)]\<rparr>))"

definition step_receipt :: "Executor \<Rightarrow> ChainRpc \<Rightarrow> nat \<Rightarrow> string \<Rightarrow> VerifiedAuthorization \<Rightarrow> string \<Rightarrow> settle_state \<Rightarrow> settle_state" where
  "step_receipt ex rpc i payer auth txHash s =
     set_phase i (Answered (va_nonce auth) (receipt_answer ex payer txHash (waitForReceipt rpc txHash (ex_receiptTimeoutMs ex)))) s"

definition settle_start :: settle_state where
  "settle_start = \<lparr>gs_guard = [], gs_calls = (\<lambda>_. Idle), gs_sent = [], gs_accepted = []\<rparr>"

inductive settle_run :: "Executor \<Rightarrow> settle_state \<Rightarrow> bool" for ex where
  start: "settle_run ex settle_start"
| claims: "settle_run ex s \<Longrightarrow> gs_calls s i = Idle \<Longrightarrow> settle_run ex (step_claim ex i payer auth signature s)"
| prepares: "settle_run ex s \<Longrightarrow> gs_calls s i = Claimed payer auth signature \<Longrightarrow>
             settle_run ex (step_prepare ex rpc i payer auth signature s)"
| estimates: "settle_run ex s \<Longrightarrow> gs_calls s i = Prepared payer auth prepared \<Longrightarrow>
             settle_run ex (step_gas ex rpc i payer auth prepared s)"
| signs: "settle_run ex s \<Longrightarrow> gs_calls s i = Gassed payer auth prepared gas \<Longrightarrow>
          settle_run ex (step_sign ex rpc i payer auth prepared gas s)"
| sends: "settle_run ex s \<Longrightarrow> gs_calls s i = Signed payer auth raw \<Longrightarrow>
          settle_run ex (step_send ex rpc taken i payer auth raw s)"
| waits: "settle_run ex s \<Longrightarrow> gs_calls s i = Waiting payer auth txHash \<Longrightarrow>
          settle_run ex (step_receipt ex rpc i payer auth txHash s)"

lemmas settle_step_defs = step_claim_def step_prepare_def step_gas_def step_sign_def step_send_def step_receipt_def give_up_def set_phase_def

subsection \<open>The guard admits one holder per nonce\<close>

text \<open>The contract a keyed claim register gives its users: a claim succeeds exactly on a free key.\<close>

locale claim_register =
  fixes entry :: "'g \<Rightarrow> 'k \<Rightarrow> 'e option"
    and take :: "'k \<Rightarrow> 'g \<Rightarrow> 'e option \<times> 'g"
    and finish :: "'k \<Rightarrow> 'e \<Rightarrow> 'g \<Rightarrow> 'g"
    and drop :: "'k \<Rightarrow> 'g \<Rightarrow> 'g"
    and held :: 'e
  assumes take_entry: "entry (snd (take k g)) k' = (if k' = k \<and> entry g k = None then Some held else entry g k')"
    and take_result: "fst (take k g) = entry g k"
    and finish_entry: "entry (finish k e g) k' = (if k' = k then Some e else entry g k')"
    and drop_entry: "entry (drop k g) k' = (if k' = k \<and> entry g k = Some held then None else entry g k')"
begin

lemma second_take_fails: "fst (take k (snd (take k g))) \<noteq> None"
  by (simp add: take_result take_entry)

lemma finished_is_kept: "e \<noteq> held \<Longrightarrow> entry (drop k (finish k' e g)) k' = Some e"
  by (simp add: drop_entry finish_entry)

lemma others_unmoved:
  assumes "k' \<noteq> k"
  shows "entry (snd (take k g)) k' = entry g k'" "entry (finish k e g) k' = entry g k'" "entry (drop k g) k' = entry g k'"
  using assms by (simp_all add: take_entry finish_entry drop_entry)

end

interpretation ng: claim_register js_get claim "\<lambda>k e. js_set k e" release Inflight
  by unfold_locales (auto simp: claim_def release_def split: option.splits)

lemma markDone_set: "markDone k h = js_set k (Done h)"
  by (rule ext) (simp add: markDone_def)

lemma markDone_entry [simp]: "js_get (markDone k h g) k' = (if k' = k then Some (Done h) else js_get g k')"
  by (simp add: markDone_def)

text \<open>The nonce a call holds between its claim and its broadcast.\<close>

fun holds :: "call_phase \<Rightarrow> string option" where
  "holds (Claimed payer auth signature) = Some (va_nonce auth)"
| "holds (Prepared payer auth prepared) = Some (va_nonce auth)"
| "holds (Gassed payer auth prepared gas) = Some (va_nonce auth)"
| "holds (Signed payer auth raw) = Some (va_nonce auth)"
| "holds _ = None"

text \<open>The broadcast a phase speaks of, when it speaks of one.\<close>

fun names_broadcast :: "call_phase \<Rightarrow> (string \<times> string) option" where
  "names_broadcast (Waiting payer auth h) = Some (va_nonce auth, h)"
| "names_broadcast (Answered nonce o') = (case so_body o' of
     SettleSuccess h n p \<Rightarrow> Some (nonce, h)
   | SettleFailure r n h \<Rightarrow> if h = [] then None else Some (nonce, h))"
| "names_broadcast _ = None"

definition guard_inv :: "settle_state \<Rightarrow> bool" where
  "guard_inv s \<longleftrightarrow>
     (\<forall>i nonce. holds (gs_calls s i) = Some nonce \<longrightarrow> js_get (gs_guard s) nonce = Some Inflight) \<and>
     (\<forall>i j nonce. holds (gs_calls s i) = Some nonce \<longrightarrow> holds (gs_calls s j) = Some nonce \<longrightarrow> i = j) \<and>
     (\<forall>nonce h. (nonce, h) \<in> set (gs_sent s) \<longleftrightarrow> js_get (gs_guard s) nonce = Some (Done (Some h))) \<and>
     (\<forall>nonce. js_get (gs_guard s) nonce = Some Inflight \<longrightarrow> (\<exists>i. holds (gs_calls s i) = Some nonce)) \<and>
     (\<forall>nonce. js_get (gs_guard s) nonce \<noteq> Some (Done None)) \<and>
     distinct (map fst (gs_sent s)) \<and>
     (\<forall>i b. names_broadcast (gs_calls s i) = Some b \<longrightarrow> b \<in> set (gs_sent s))"

lemma guard_invI:
  assumes "\<And>i nonce. holds (gs_calls s i) = Some nonce \<Longrightarrow> js_get (gs_guard s) nonce = Some Inflight"
    and "\<And>i j nonce. holds (gs_calls s i) = Some nonce \<Longrightarrow> holds (gs_calls s j) = Some nonce \<Longrightarrow> i = j"
    and "\<And>nonce h. (nonce, h) \<in> set (gs_sent s) \<longleftrightarrow> js_get (gs_guard s) nonce = Some (Done (Some h))"
    and "\<And>nonce. js_get (gs_guard s) nonce = Some Inflight \<Longrightarrow> \<exists>i. holds (gs_calls s i) = Some nonce"
    and "\<And>nonce. js_get (gs_guard s) nonce \<noteq> Some (Done None)"
    and "distinct (map fst (gs_sent s))"
    and "\<And>i b. names_broadcast (gs_calls s i) = Some b \<Longrightarrow> b \<in> set (gs_sent s)"
  shows "guard_inv s"
  unfolding guard_inv_def using assms by (intro conjI allI impI)

lemma guard_invD:
  assumes "guard_inv s"
  shows guard_inv_held: "holds (gs_calls s i) = Some nonce \<Longrightarrow> js_get (gs_guard s) nonce = Some Inflight"
    and guard_inv_single: "holds (gs_calls s i) = Some nonce \<Longrightarrow> holds (gs_calls s j) = Some nonce \<Longrightarrow> i = j"
    and guard_inv_sent: "(nonce, h) \<in> set (gs_sent s) \<longleftrightarrow> js_get (gs_guard s) nonce = Some (Done (Some h))"
    and guard_inv_holder: "js_get (gs_guard s) nonce = Some Inflight \<Longrightarrow> \<exists>i. holds (gs_calls s i) = Some nonce"
    and guard_inv_done: "js_get (gs_guard s) nonce \<noteq> Some (Done None)"
    and guard_inv_distinct: "distinct (map fst (gs_sent s))"
    and guard_inv_named: "names_broadcast (gs_calls s i) = Some b \<Longrightarrow> b \<in> set (gs_sent s)"
  using assms unfolding guard_inv_def by blast+

lemma guard_inv_phase:
  assumes inv: "guard_inv s" and h: "holds ph = holds (gs_calls s i)"
    and n: "\<And>b. names_broadcast ph = Some b \<Longrightarrow> b \<in> set (gs_sent s)"
  shows "guard_inv (set_phase i ph s)"
proof -
  have same: "holds (gs_calls (set_phase i ph s) j) = holds (gs_calls s j)" for j
    by (simp add: set_phase_def h)
  show ?thesis
    by (rule guard_invI; (unfold same)?; (simp add: set_phase_def)?)
       (auto intro: guard_inv_held [OF inv] guard_inv_single [OF inv] guard_inv_holder [OF inv] guard_inv_distinct [OF inv] n
             simp: guard_inv_sent [OF inv] guard_inv_done [OF inv] dest: guard_inv_named [OF inv] split: if_splits)
qed

lemma guard_inv_take:
  assumes inv: "guard_inv s" and free: "js_get (gs_guard s) nonce = None" and idle: "holds (gs_calls s i) = None"
    and h: "holds ph = Some nonce" "names_broadcast ph = None"
  shows "guard_inv (set_phase i ph (s\<lparr>gs_guard := js_set nonce Inflight (gs_guard s)\<rparr>))" (is "guard_inv ?s")
proof (rule guard_invI)
  have calls: "holds (gs_calls ?s j) = (if j = i then Some nonce else holds (gs_calls s j))" for j
    by (simp add: set_phase_def h)
  have others: "holds (gs_calls s j) \<noteq> Some nonce" for j
    using guard_inv_held [OF inv, of j nonce] free by auto
  show "holds (gs_calls ?s j) = Some n \<Longrightarrow> js_get (gs_guard ?s) n = Some Inflight" for j n
    unfolding calls using guard_inv_held [OF inv, of j n] by (auto simp: set_phase_def split: if_splits)
  show "holds (gs_calls ?s j) = Some n \<Longrightarrow> holds (gs_calls ?s k) = Some n \<Longrightarrow> j = k" for j k n
    unfolding calls using guard_inv_single [OF inv, of j n k] others [of j] others [of k] by (auto split: if_splits)
  show "(n, x) \<in> set (gs_sent ?s) \<longleftrightarrow> js_get (gs_guard ?s) n = Some (Done (Some x))" for n x
    using guard_inv_sent [OF inv, of n x] free by (auto simp: set_phase_def)
  show "js_get (gs_guard ?s) n = Some Inflight \<Longrightarrow> \<exists>j. holds (gs_calls ?s j) = Some n" for n
    unfolding calls using guard_inv_holder [OF inv, of n] idle by (force simp: set_phase_def split: if_splits)
  show "js_get (gs_guard ?s) n \<noteq> Some (Done None)" for n
    using guard_inv_done [OF inv, of n] by (simp add: set_phase_def)
  show "distinct (map fst (gs_sent ?s))"
    using guard_inv_distinct [OF inv] by (simp add: set_phase_def)
  show "names_broadcast (gs_calls ?s j) = Some b \<Longrightarrow> b \<in> set (gs_sent ?s)" for j b
    using guard_inv_named [OF inv, of j b] h by (auto simp: set_phase_def split: if_splits)
qed

text \<open>The holder of a nonce leaves it, either free again or done with an accepted broadcast.\<close>

lemma guard_inv_leave:
  assumes inv: "guard_inv s" and h: "holds (gs_calls s i) = Some nonce" "holds ph = None"
    and get: "\<And>n. js_get g n = (if n = nonce then map_option (\<lambda>x. Done (Some x)) hash else js_get (gs_guard s) n)"
    and n: "\<And>b. names_broadcast ph = Some b \<Longrightarrow> hash = Some (snd b) \<and> fst b = nonce"
  shows "guard_inv (set_phase i ph (s\<lparr>gs_guard := g, gs_sent := gs_sent s @ (case hash of None \<Rightarrow> [] | Some x \<Rightarrow> [(nonce, x)])\<rparr>))"
    (is "guard_inv ?s")
proof (rule guard_invI)
  have held: "js_get (gs_guard s) nonce = Some Inflight" by (rule guard_inv_held [OF inv h(1)])
  have calls: "holds (gs_calls ?s j) = (if j = i then None else holds (gs_calls s j))" for j
    by (simp add: set_phase_def h)
  have others: "j \<noteq> i \<Longrightarrow> holds (gs_calls s j) \<noteq> Some nonce" for j
    using guard_inv_single [OF inv h(1), of j] by auto
  show "holds (gs_calls ?s j) = Some n \<Longrightarrow> js_get (gs_guard ?s) n = Some Inflight" for j n
    unfolding calls using guard_inv_held [OF inv, of j n] others [of j] by (auto simp: set_phase_def get split: if_splits)
  show "holds (gs_calls ?s j) = Some n \<Longrightarrow> holds (gs_calls ?s k) = Some n \<Longrightarrow> j = k" for j k n
    unfolding calls using guard_inv_single [OF inv, of j n k] by (auto split: if_splits)
  have new: "(nonce, x) \<notin> set (gs_sent s)" for x
    using guard_inv_sent [OF inv, of nonce x] held by auto
  show "(n, x) \<in> set (gs_sent ?s) \<longleftrightarrow> js_get (gs_guard ?s) n = Some (Done (Some x))" for n x
    using guard_inv_sent [OF inv, of n x] new by (auto simp: set_phase_def get split: option.splits if_splits)
  show "js_get (gs_guard ?s) n = Some Inflight \<Longrightarrow> \<exists>j. holds (gs_calls ?s j) = Some n" for n
    unfolding calls using guard_inv_holder [OF inv, of n] h(1)
    by (auto simp: set_phase_def get split: if_splits option.splits) (metis option.inject)
  show "js_get (gs_guard ?s) n \<noteq> Some (Done None)" for n
    using guard_inv_done [OF inv, of n] by (auto simp: set_phase_def get)
  show "distinct (map fst (gs_sent ?s))"
    using guard_inv_distinct [OF inv] new by (force simp: set_phase_def split: option.splits)
  show "names_broadcast (gs_calls ?s j) = Some b \<Longrightarrow> b \<in> set (gs_sent ?s)" for j b
    using guard_inv_named [OF inv, of j b] n [of b]
    by (cases "j = i") (auto simp: set_phase_def simp del: surjective_pairing simp flip: surjective_pairing)
qed

lemma broadcast_failed_names [simp]: "names_broadcast (Answered nonce (broadcast_failed ex err)) = None"
  by (simp add: broadcast_failed_def)

lemma receipt_answer_names: "names_broadcast (Answered nonce (receipt_answer ex payer h r)) = Some b \<Longrightarrow> b = (nonce, h)"
  by (cases r) (auto simp: receipt_answer_def split: receipt_status.splits if_splits)

lemma guard_inv_give_up:
  assumes inv: "guard_inv s" and h: "holds (gs_calls s i) = Some (va_nonce auth)"
  shows "guard_inv (give_up ex i auth err s)"
proof -
  have "js_get (release (va_nonce auth) (gs_guard s)) n =
      (if n = va_nonce auth then map_option (\<lambda>x. Done (Some x)) None else js_get (gs_guard s) n)" for n
    using guard_inv_held [OF inv h] by (simp add: release_def)
  from guard_inv_leave [OF inv h _ this, of "Answered (va_nonce auth) (broadcast_failed ex err)"] show ?thesis
    by (simp add: give_up_def del: names_broadcast.simps)
qed

text \<open>The invariant does not look at the log of what the node took.\<close>

lemma guard_inv_frame:
  assumes "gs_guard s' = gs_guard s" "gs_calls s' = gs_calls s" "gs_sent s' = gs_sent s"
  shows "guard_inv s' = guard_inv s"
  by (simp only: guard_inv_def assms)

lemma guard_inv_accepted [simp]: "guard_inv (s\<lparr>gs_accepted := l\<rparr>) \<longleftrightarrow> guard_inv s"
  by (rule guard_inv_frame) simp_all

lemma settle_run_guard_inv: "settle_run ex s \<Longrightarrow> guard_inv s"
proof (induction rule: settle_run.induct)
  case start
  show ?case by (rule guard_invI) (simp_all add: settle_start_def)
next
  case (claims s i payer auth signature)
  show ?case
  proof (cases "js_get (gs_guard s) (va_nonce auth)")
    case None
    with claims show ?thesis by (simp add: step_claim_def claim_def guard_inv_take)
  next
    case (Some e)
    have "guard_inv (set_phase i (Answered (va_nonce auth) (duplicate_answer ex e)) s)"
    proof (rule guard_inv_phase [OF claims.IH])
      show "names_broadcast (Answered (va_nonce auth) (duplicate_answer ex e)) = Some b \<Longrightarrow> b \<in> set (gs_sent s)" for b
        using guard_inv_sent [OF claims.IH, of "va_nonce auth"] Some
        by (cases e rule: entry_hash.cases) (auto simp: duplicate_answer_def split: if_splits)
    qed (simp add: claims)
    with Some show ?thesis by (simp add: step_claim_def claim_def)
  qed
next
  case (prepares s i payer auth signature rpc)
  then show ?case
    by (auto simp: step_prepare_def intro: guard_inv_give_up guard_inv_phase split: sum.split)
next
  case (estimates s i payer auth prepared rpc)
  then show ?case
    by (auto simp: step_gas_def intro: guard_inv_give_up guard_inv_phase split: sum.split)
next
  case (signs s i payer auth prepared gas rpc)
  then show ?case
    by (auto simp: step_sign_def intro: guard_inv_give_up guard_inv_phase split: sum.split)
next
  case (sends s i payer auth raw rpc taken)
  have h: "holds (gs_calls s i) = Some (va_nonce auth)" by (simp add: sends)
  show ?case
  proof (cases "sendRawTransaction rpc raw")
    case (Inl e)
    have "guard_inv (give_up ex i auth e (s\<lparr>gs_accepted := l\<rparr>))" for l
      using sends.IH h by (intro guard_inv_give_up) simp_all
    with guard_inv_give_up [OF sends.IH h] Inl show ?thesis by (simp add: step_send_def)
  next
    case (Inr txHash)
    have "guard_inv (set_phase i (Waiting payer auth txHash) (s\<lparr>gs_guard := markDone (va_nonce auth) (Some txHash) (gs_guard s),
        gs_sent := gs_sent s @ (case Some txHash of None \<Rightarrow> [] | Some x \<Rightarrow> [(va_nonce auth, x)])\<rparr>))"
      by (rule guard_inv_leave [OF sends.IH h]) auto
    then have "guard_inv (set_phase i (Waiting payer auth txHash) (s\<lparr>gs_guard := markDone (va_nonce auth) (Some txHash) (gs_guard s),
        gs_sent := gs_sent s @ [(va_nonce auth, txHash)]\<rparr>))" by (simp only: option.case)
    then show ?thesis
      by (rule iffD2 [OF guard_inv_frame, rotated 3]) (simp_all add: step_send_def Inr set_phase_def)
  qed
next
  case (waits s i payer auth txHash rpc)
  have sent: "(va_nonce auth, txHash) \<in> set (gs_sent s)"
    by (rule guard_inv_named [OF waits.IH, of i]) (simp add: waits)
  have at: "gs_calls s i = Waiting payer auth txHash" by (rule waits)
  have named: "b \<in> set (gs_sent s)"
    if "names_broadcast (Answered (va_nonce auth) (receipt_answer ex payer txHash r)) = Some b" for b r
    using receipt_answer_names [OF that] sent by simp
  show ?case unfolding step_receipt_def
    by (rule guard_inv_phase [OF waits.IH _ named]) (simp_all only: at holds.simps)
qed

text \<open>
  What the node took, in order: the acknowledged part is \<open>gs_sent\<close>, and nothing of a nonce follows its
  acknowledged broadcast.
\<close>

fun nothing_after_ack :: "(string \<times> string option) list \<Rightarrow> bool" where
  "nothing_after_ack [] = True"
| "nothing_after_ack ((n, h) # bs) = ((h \<noteq> None \<longrightarrow> n \<notin> fst ` set bs) \<and> nothing_after_ack bs)"

lemma nothing_after_ack_snoc:
  "nothing_after_ack (bs @ [(n, h)]) \<longleftrightarrow> nothing_after_ack bs \<and> (\<forall>x. (n, Some x) \<notin> set bs)"
  by (induction bs rule: nothing_after_ack.induct) auto

lemma nothing_after_ack_split: "nothing_after_ack (pre @ (n, Some h) # post) \<Longrightarrow> n \<notin> fst ` set post"
  by (induction pre rule: nothing_after_ack.induct) auto

lemma taken_count:
  "nothing_after_ack bs \<Longrightarrow> length (filter (\<lambda>b. fst b = n) bs) \<le> Suc (length (filter (\<lambda>b. b = (n, None)) bs))"
proof (induction bs rule: nothing_after_ack.induct)
  case (2 m h bs)
  show ?case
  proof (cases "m = n \<and> h \<noteq> None")
    case True
    with 2 have "filter (\<lambda>b. fst b = n) bs = []" by (force simp: filter_empty_conv)
    with True show ?thesis by simp
  qed (use 2 in auto)
qed simp

definition taken_inv :: "settle_state \<Rightarrow> bool" where
  "taken_inv s \<longleftrightarrow> nothing_after_ack (gs_accepted s) \<and> (\<forall>n h. (n, Some h) \<in> set (gs_accepted s) \<longleftrightarrow> (n, h) \<in> set (gs_sent s))"

lemma taken_inv_frame: "gs_accepted s' = gs_accepted s \<Longrightarrow> gs_sent s' = gs_sent s \<Longrightarrow> taken_inv s' = taken_inv s"
  by (simp add: taken_inv_def)

lemma give_up_logs [simp]: "gs_accepted (give_up ex i auth err s) = gs_accepted s" "gs_sent (give_up ex i auth err s) = gs_sent s"
  by (simp_all add: give_up_def set_phase_def)

lemma set_phase_logs [simp]: "gs_accepted (set_phase i ph s) = gs_accepted s" "gs_sent (set_phase i ph s) = gs_sent s"
  by (simp_all add: set_phase_def)

lemma quiet_logs [simp]:
  "gs_accepted (step_claim ex i payer auth sig s) = gs_accepted s" "gs_sent (step_claim ex i payer auth sig s) = gs_sent s"
  "gs_accepted (step_prepare ex rpc i payer auth sig s) = gs_accepted s" "gs_sent (step_prepare ex rpc i payer auth sig s) = gs_sent s"
  "gs_accepted (step_gas ex rpc i payer auth p s) = gs_accepted s" "gs_sent (step_gas ex rpc i payer auth p s) = gs_sent s"
  "gs_accepted (step_sign ex rpc i payer auth p gas s) = gs_accepted s" "gs_sent (step_sign ex rpc i payer auth p gas s) = gs_sent s"
  "gs_accepted (step_receipt ex rpc i payer auth h s) = gs_accepted s" "gs_sent (step_receipt ex rpc i payer auth h s) = gs_sent s"
  by (simp_all add: step_claim_def step_prepare_def step_gas_def step_sign_def step_receipt_def split: prod.split option.split sum.split)

lemma settle_run_taken_inv: "settle_run ex s \<Longrightarrow> taken_inv s"
proof (induction rule: settle_run.induct)
  case start
  show ?case by (simp add: taken_inv_def settle_start_def)
next
  case (sends s i payer auth raw rpc taken)
  have "js_get (gs_guard s) (va_nonce auth) = Some Inflight"
    using guard_inv_held [OF settle_run_guard_inv [OF sends.hyps(1)], of i] sends.hyps(2) by simp
  then have "(va_nonce auth, h) \<notin> set (gs_sent s)" for h
    using guard_inv_sent [OF settle_run_guard_inv [OF sends.hyps(1)], of "va_nonce auth" h] by simp
  with sends.IH show ?case
    by (auto simp: taken_inv_def step_send_def nothing_after_ack_snoc split: sum.split)
qed (rule iffD2 [OF taken_inv_frame]; simp)+


text \<open>A run with one settlement, and a second call that finds its nonce broadcast.\<close>

definition demo_executor :: Executor where
  "demo_executor = \<lparr>ex_account = ''0xgas'', ex_sign = (\<lambda>tx. Inr ''signed''), ex_network = base_sepolia, ex_receiptTimeoutMs = 45000,
     ex_encodeFunctionData = (\<lambda>c. ''data''), ex_parseSignature = (\<lambda>s. Inr (Some 27, Some ''r'', Some ''s''))\<rparr>"

definition demo_rpc :: ChainRpc where
  "demo_rpc = \<lparr>getTransactionCount = (\<lambda>a. Inr 7), estimateGas = (\<lambda>a b c. Inr 90000),
     suggestFees = Inr \<lparr>maxFeePerGas = 3, maxPriorityFeePerGas = 1\<rparr>, sendRawTransaction = (\<lambda>t. Inr ''0xhash''),
     waitForReceipt = (\<lambda>h t. Inr Receipt_success)\<rparr>"

definition demo_auth :: VerifiedAuthorization where
  "demo_auth = \<lparr>va_from = ''0xa'', va_to = ''0xb'', va_value = 5, va_validAfter = 0, va_validBefore = 9, va_nonce = ''0x01''\<rparr>"

lemma demo_prepare [simp]: "prepare demo_executor demo_rpc auth sig = Inr (''data'', 7)"
  by (simp add: prepare_def settle_calldata_def encodeSettleCalldata_def splitSignature_def demo_executor_def demo_rpc_def bind_thrown_def)

lemma demo_sign [simp]:
  "estimate_gas demo_executor demo_rpc prepared = Inr 90000" "price_and_sign demo_executor demo_rpc prepared gas = Inr ''signed''"
  "sendRawTransaction demo_rpc raw = Inr ''0xhash''"
  by (simp_all add: estimate_gas_def price_and_sign_def signSettleTx_def demo_executor_def demo_rpc_def bind_thrown_def)

lemma demo_send [simp]: "send_tx demo_executor demo_rpc prepared = Inr ''0xhash''"
  by (simp add: send_tx_def sign_tx_def bind_thrown_def)

definition demo_signed :: settle_state where
  "demo_signed = step_sign demo_executor demo_rpc 0 ''0xa'' demo_auth (''data'', 7) 90000
     (step_gas demo_executor demo_rpc 0 ''0xa'' demo_auth (''data'', 7)
        (step_prepare demo_executor demo_rpc 0 ''0xa'' demo_auth ''sig'' (step_claim demo_executor 0 ''0xa'' demo_auth ''sig'' settle_start)))"

definition demo_sent :: settle_state where
  "demo_sent = step_send demo_executor demo_rpc True 0 ''0xa'' demo_auth ''signed'' demo_signed"

lemma demo_signed_run: "settle_run demo_executor demo_signed"
  unfolding demo_signed_def
  by (intro settle_run.signs settle_run.estimates settle_run.prepares settle_run.claims settle_run.start)
     (simp_all add: step_claim_def step_prepare_def step_gas_def claim_def settle_start_def set_phase_def)

lemma demo_signed_state:
  "gs_calls demo_signed 0 = Signed ''0xa'' demo_auth ''signed''" "gs_sent demo_signed = []" "gs_accepted demo_signed = []"
  "gs_guard demo_signed = [(''0x01'', Inflight)]" "\<forall>i > 0. gs_calls demo_signed i = Idle"
  by (simp_all add: demo_signed_def step_claim_def step_prepare_def step_gas_def step_sign_def claim_def settle_start_def set_phase_def
      demo_auth_def js_set_def)

lemma demo_run: "settle_run demo_executor demo_sent"
  unfolding demo_sent_def using settle_run.sends [OF demo_signed_run demo_signed_state(1)] .


subsection \<open>What the guard does not cover\<close>

text \<open>Two settlements may read the same transaction count and sign with it: the executor does not serialise them.\<close>

lemma account_nonce_race:
  assumes two: "va_nonce a \<noteq> va_nonce b"
    and a: "prepare ex rpc a sa = Inr (da, n)" and b: "prepare ex rpc b sb = Inr (db, n)"
  shows "\<exists>s. settle_run ex s \<and> gs_sent s = [] \<and> gs_calls s 0 = Prepared pa a (da, n) \<and> gs_calls s 1 = Prepared pb b (db, n)"
proof -
  define s2 where "s2 = step_claim ex 1 pb b sb (step_claim ex 0 pa a sa settle_start)"
  define s4 where "s4 = step_prepare ex rpc 1 pb b sb (step_prepare ex rpc 0 pa a sa s2)"
  have s2: "gs_calls s2 = (\<lambda>_. Idle)(0 := Claimed pa a sa, 1 := Claimed pb b sb)" "gs_sent s2 = []"
    using two by (simp_all add: s2_def step_claim_def claim_def settle_start_def set_phase_def)
  have "settle_run ex s2" unfolding s2_def
    by (intro settle_run.claims settle_run.start) (simp_all add: step_claim_def claim_def settle_start_def set_phase_def)
  then have "settle_run ex s4" unfolding s4_def
    by (intro settle_run.prepares) (simp_all add: step_prepare_def a s2 set_phase_def)
  then show ?thesis
    by (intro exI [of _ s4]) (simp add: s4_def step_prepare_def a b s2 set_phase_def)
qed

text \<open>
  A send the node took but whose answer was lost frees the nonce: the next call sends a second transaction for the
  same authorization, and the node may take that too.
\<close>

lemma lost_answer_is_sent_again:
  fixes rpc :: ChainRpc
  assumes "sendRawTransaction rpc ''signed'' = Inl err"
  shows "\<exists>s. settle_run demo_executor s \<and> gs_accepted s = [(''0x01'', None), (''0x01'', Some ''0xhash'')]"
proof -
  define s1 where "s1 = step_send demo_executor rpc True 0 ''0xa'' demo_auth ''signed'' demo_signed"
  have r1: "settle_run demo_executor s1"
    unfolding s1_def using settle_run.sends [OF demo_signed_run demo_signed_state(1)] .
  have s1: "gs_accepted s1 = [(''0x01'', None)]" "js_get (gs_guard s1) ''0x01'' = None" "gs_calls s1 1 = Idle"
    using assms by (simp_all add: s1_def step_send_def demo_signed_state give_up_def set_phase_def release_def)
      (simp_all add: demo_auth_def demo_signed_state js_get_def js_delete_def)
  define s2 where "s2 = step_claim demo_executor 1 ''0xa'' demo_auth ''sig'' s1"
  define s3 where "s3 = step_prepare demo_executor demo_rpc 1 ''0xa'' demo_auth ''sig'' s2"
  define s4 where "s4 = step_gas demo_executor demo_rpc 1 ''0xa'' demo_auth (''data'', 7) s3"
  define s5 where "s5 = step_sign demo_executor demo_rpc 1 ''0xa'' demo_auth (''data'', 7) 90000 s4"
  have n: "va_nonce demo_auth = ''0x01''" by (simp add: demo_auth_def)
  have p2: "gs_calls s2 1 = Claimed ''0xa'' demo_auth ''sig''" using s1 n by (simp add: s2_def step_claim_def claim_def set_phase_def)
  have p3: "gs_calls s3 1 = Prepared ''0xa'' demo_auth (''data'', 7)" by (simp add: s3_def step_prepare_def set_phase_def)
  have p4: "gs_calls s4 1 = Gassed ''0xa'' demo_auth (''data'', 7) 90000" by (simp add: s4_def step_gas_def set_phase_def)
  have p5: "gs_calls s5 1 = Signed ''0xa'' demo_auth ''signed''" by (simp add: s5_def step_sign_def set_phase_def)
  have r2: "settle_run demo_executor s2" unfolding s2_def using settle_run.claims [OF r1 s1(3)] .
  have r3: "settle_run demo_executor s3" unfolding s3_def using settle_run.prepares [OF r2 p2] .
  have r4: "settle_run demo_executor s4" unfolding s4_def using settle_run.estimates [OF r3 p3] .
  have r5: "settle_run demo_executor s5" unfolding s5_def using settle_run.signs [OF r4 p4] .
  have "gs_accepted s5 = [(''0x01'', None)]" by (simp add: s5_def s4_def s3_def s2_def s1)
  then have "gs_accepted (step_send demo_executor demo_rpc True 1 ''0xa'' demo_auth ''signed'' s5) = [(''0x01'', None), (''0x01'', Some ''0xhash'')]"
    by (simp add: step_send_def n)
  with settle_run.sends [OF r5 p5] show ?thesis by blast
qed

text \<open>Whatever made the broadcast throw, other than the named error, is answered as a definitive refusal and frees the nonce.\<close>

lemma failed_send_frees_nonce:
  assumes "js_get g (va_nonce auth) = None" "prepare ex rpc auth sig = Inr prepared" "send_tx ex rpc prepared = Inl (OtherError m)"
  shows "so_httpStatus (fst (settle ex rpc payer auth sig g)) = 200 \<and>
         sb_errorReason (so_body (fst (settle ex rpc payer auth sig g))) = ''broadcast_rejected:'' @ m \<and>
         js_get (snd (settle ex rpc payer auth sig g)) (va_nonce auth) = None"
  using assms by (simp add: settle_def claim_def settle_claimed_def bind_thrown_def broadcast_failed_def release_def)

end
