(* ===== verification/FacilitatorServer.thy ===== *)
theory FacilitatorServer
  imports FacilitatorSettle TextHelpers
begin

text \<open>
  \<^verbatim>\<open>zeus-facilitator/src/config.ts\<close> (reading the configuration) and \<^verbatim>\<open>server.ts\<close> (the HTTP handler). The
  JSON parser, the clock and the chain are arguments; the handler's state is the nonce guard.
\<close>

section \<open>Configuration\<close>

record FacilitatorConfig =
  fc_network :: FacilitatorNetwork
  fc_rpcUrls :: "string list"
  fc_rpcHeaders :: "(string \<times> string) list option"
  fc_gasPrivateKey :: string
  fc_apiKey :: string
  fc_port :: int
  fc_nodeEnv :: string
  fc_receiptTimeoutMs :: int
  fc_checkPayerBalance :: bool

text \<open>\<open>Inl\<close>: a thrown \<open>ConfigError\<close> with its message.\<close>

definition requireEnv :: "env \<Rightarrow> string \<Rightarrow> string + string" where
  "requireEnv e key =
     (case map_option trim (e key) of
        None \<Rightarrow> Inl (key @ '' is required'')
      | Some v \<Rightarrow> if v = [] then Inl (key @ '' is required'') else Inr v)"

definition bind_config :: "string + 'a \<Rightarrow> ('a \<Rightarrow> string + 'b) \<Rightarrow> string + 'b" where
  "bind_config x f = (case x of Inl e \<Rightarrow> Inl e | Inr a \<Rightarrow> f a)"

definition config_network :: "env \<Rightarrow> string + FacilitatorNetwork" where
  "config_network e =
     (let networkId = trim (env_or e ''ZEUS_FACILITATOR_NETWORK'' ''eip155:196'');
          nodeEnv = trim (env_or e ''NODE_ENV'' ''development'')
      in case js_get FACILITATOR_NETWORKS networkId of
           None \<Rightarrow> Inl (''ZEUS_FACILITATOR_NETWORK '' @ [CHR 0x27] @ networkId @ [CHR 0x27] @ '' is not in the registry: '' @ join_with '', '' (map fst FACILITATOR_NETWORKS))
         | Some network \<Rightarrow>
             (if nodeEnv = ''production'' \<and> fn_testnet network
              then Inl (''refusing testnet network '' @ networkId @ '' with NODE_ENV=production (custodial_test lesson F-113/C-4)'')
              else Inr network))"

definition config_rpcUrls :: "env \<Rightarrow> string + string list" where
  "config_rpcUrls e =
     bind_config (requireEnv e ''ZEUS_FACILITATOR_RPC_URLS'') (\<lambda>raw.
       let urls = filter (\<lambda>u. u \<noteq> []) (map trim (split_char CHR '','' raw))
       in if urls = [] then Inl ''ZEUS_FACILITATOR_RPC_URLS is required'' else Inr urls)"

definition headers_error :: string where
  "headers_error = ''ZEUS_FACILITATOR_RPC_HEADERS must be a JSON object of string->string''"

definition config_rpcHeaders :: "(string \<Rightarrow> json option) \<Rightarrow> env \<Rightarrow> string + (string \<times> string) list option" where
  "config_rpcHeaders JSON_parse e =
     (let raw = trim (env_or e ''ZEUS_FACILITATOR_RPC_HEADERS'' []) in
      if raw = [] then Inr None
      else case JSON_parse raw of
             Some (JObj kvs) \<Rightarrow>
               (if list_ex (\<lambda>(k, v). \<not> is_str v) kvs then Inl headers_error
                else Inr (Some (map (\<lambda>(k, v). (k, str_of v)) kvs)))
           | _ \<Rightarrow> Inl headers_error)"

definition config_gasPrivateKey :: "env \<Rightarrow> string + string" where
  "config_gasPrivateKey e =
     bind_config (requireEnv e ''ZEUS_FACILITATOR_GAS_PRIVATE_KEY'') (\<lambda>key.
       if hex_text 64 key then Inr key else Inl ''ZEUS_FACILITATOR_GAS_PRIVATE_KEY must be a 0x-prefixed 32-byte hex key'')"

definition config_port :: "env \<Rightarrow> string + int" where
  "config_port e =
     (case parseInt10 (env_or e ''PORT'' ''3001'') of
        Some p \<Rightarrow> if p \<le> 0 \<or> 65535 < p then Inl ''PORT must be an integer in (0, 65535]'' else Inr p
      | None \<Rightarrow> Inl ''PORT must be an integer in (0, 65535]'')"

definition config_receiptTimeout :: "env \<Rightarrow> string + int" where
  "config_receiptTimeout e =
     (case parseInt10 (env_or e ''ZEUS_FACILITATOR_RECEIPT_TIMEOUT_MS'' ''45000'') of
        Some t \<Rightarrow> if t \<le> 0 then Inl ''ZEUS_FACILITATOR_RECEIPT_TIMEOUT_MS must be a positive integer'' else Inr t
      | None \<Rightarrow> Inl ''ZEUS_FACILITATOR_RECEIPT_TIMEOUT_MS must be a positive integer'')"

definition loadConfigFromEnv :: "(string \<Rightarrow> json option) \<Rightarrow> env \<Rightarrow> string + FacilitatorConfig" where
  "loadConfigFromEnv JSON_parse e =
     bind_config (config_network e) (\<lambda>network.
     bind_config (config_rpcUrls e) (\<lambda>rpcUrls.
     bind_config (config_rpcHeaders JSON_parse e) (\<lambda>rpcHeaders.
     bind_config (config_gasPrivateKey e) (\<lambda>gasPrivateKey.
     bind_config (config_port e) (\<lambda>port.
     bind_config (config_receiptTimeout e) (\<lambda>receiptTimeoutMs.
       Inr \<lparr>fc_network = network, fc_rpcUrls = rpcUrls, fc_rpcHeaders = rpcHeaders, fc_gasPrivateKey = gasPrivateKey,
            fc_apiKey = trim (env_or e ''ZEUS_FACILITATOR_API_KEY'' []), fc_port = port,
            fc_nodeEnv = trim (env_or e ''NODE_ENV'' ''development''), fc_receiptTimeoutMs = receiptTimeoutMs,
            fc_checkPayerBalance = (trim (env_or e ''ZEUS_FACILITATOR_CHECK_PAYER_BALANCE'' ''true'') \<noteq> ''false'')\<rparr>))))))"

section \<open>Requests\<close>

datatype header_value = No_header | One_header string | Many_headers "string list"

text \<open>\<open>hr_chunks\<close> is the body as it arrives; \<open>hr_broken\<close>: the connection fails before its end.\<close>

record HttpRequest =
  hr_method :: string
  hr_url :: "string option"
  hr_authorization :: "string option"
  hr_xApiKey :: header_value
  hr_chunks :: "string list"
  hr_broken :: bool

record FacilitatorDeps =
  fd_config :: FacilitatorConfig
  fd_executor :: Executor
  fd_recover :: recoverer
  fd_selector :: "string \<Rightarrow> string"
  fd_JSON_parse :: "string \<Rightarrow> json option"

text \<open>The node during one request: reads, and the calls of a settlement.\<close>

record Node =
  nd_call :: eth_call
  nd_rpc :: ChainRpc

fun x_api_key :: "header_value \<Rightarrow> string" where
  "x_api_key (One_header s) = s"
| "x_api_key (Many_headers (s # ss)) = s"
| "x_api_key _ = []"

definition authorized :: "FacilitatorDeps \<Rightarrow> HttpRequest \<Rightarrow> bool" where
  "authorized d req =
     (let apiKey = fc_apiKey (fd_config d);
          auth = opt_default [] (hr_authorization req);
          bearer = (if starts_with ''Bearer '' auth then trim (drop 7 auth) else [])
      in apiKey = [] \<or> bearer = apiKey \<or> x_api_key (hr_xApiKey req) = apiKey)"

definition MAX_BODY_BYTES :: nat where
  "MAX_BODY_BYTES = 1000000"

datatype body_read = Body string | BodyTooLargeError | BodyBroken

fun readBody_from :: "nat \<Rightarrow> string \<Rightarrow> string list \<Rightarrow> bool \<Rightarrow> body_read" where
  "readBody_from sz acc [] broken = (if broken then BodyBroken else Body acc)"
| "readBody_from sz acc (c # cs) broken =
     (if MAX_BODY_BYTES < sz + length c then BodyTooLargeError else readBody_from (sz + length c) (acc @ c) cs broken)"

definition readBody :: "HttpRequest \<Rightarrow> body_read" where
  "readBody req = readBody_from 0 [] (hr_chunks req) (hr_broken req)"

text \<open>The parsed body, \<open>None\<close> when reading or parsing it throws.\<close>

definition request_body :: "FacilitatorDeps \<Rightarrow> HttpRequest \<Rightarrow> json option" where
  "request_body d req = (case readBody req of Body text \<Rightarrow> fd_JSON_parse d text | _ \<Rightarrow> None)"

section \<open>The handler\<close>

type_synonym answer = "nat \<times> json"

definition error_answer :: "thrown \<Rightarrow> answer" where
  "error_answer err =
     (if is_rpc_unavailable err then (503, JObj [(''error'', JStr ''rpc_unavailable''), (''detail'', JStr (error_detail err))])
      else (500, JObj [(''error'', JStr ''internal''), (''detail'', JStr (error_detail err))]))"

definition verify_now :: "FacilitatorDeps \<Rightarrow> Node \<Rightarrow> int \<Rightarrow> json \<Rightarrow> (string \<times> VerifiedAuthorization) verdict" where
  "verify_now d node nowMs request =
     verifyRequest (fd_recover d) (fd_selector d) (nd_call node) request (fc_network (fd_config d))
       (fc_checkPayerBalance (fd_config d)) nowMs"

definition handleVerify :: "FacilitatorDeps \<Rightarrow> Node \<Rightarrow> int \<Rightarrow> HttpRequest \<Rightarrow> answer" where
  "handleVerify d node nowMs req =
     (if \<not> authorized d req then (401, JObj [(''error'', JStr ''unauthorized'')])
      else case request_body d req of
        None \<Rightarrow> (400, JObj [(''error'', JStr ''invalid_json'')])
      | Some request \<Rightarrow>
          (case verify_now d node nowMs request of
             Passes (payer, auth) \<Rightarrow> (200, JObj [(''isValid'', JBool True), (''payer'', JStr payer)])
           | Refuses r detail \<Rightarrow> (200, JObj [(''isValid'', JBool False), (''invalidReason'', JStr (reason_name r @ '': '' @ detail))])
           | Throws err \<Rightarrow> error_answer err))"

fun settle_json :: "settle_body \<Rightarrow> json" where
  "settle_json (SettleSuccess h n p) =
     JObj [(''success'', JBool True), (''transaction'', JStr h), (''transactionHash'', JStr h), (''network'', JStr n), (''payer'', JStr p)]"
| "settle_json (SettleFailure r n h) =
     JObj [(''success'', JBool False), (''errorReason'', JStr r), (''network'', JStr n), (''transaction'', JStr h)]"

definition settle_answer :: "SettleOutcome \<Rightarrow> answer" where
  "settle_answer out = (so_httpStatus out, settle_json (so_body out))"

definition refused_answer :: "FacilitatorDeps \<Rightarrow> VerifyFailureReason \<Rightarrow> string \<Rightarrow> answer" where
  "refused_answer d r detail =
     (200, settle_json (SettleFailure (reason_name r @ '': '' @ detail) (fn_id (fc_network (fd_config d))) []))"

definition handleSettle :: "FacilitatorDeps \<Rightarrow> Node \<Rightarrow> int \<Rightarrow> HttpRequest \<Rightarrow> guard \<Rightarrow> answer \<times> guard" where
  "handleSettle d node nowMs req g =
     (if \<not> authorized d req then ((401, JObj [(''error'', JStr ''unauthorized'')]), g)
      else case request_body d req of
        None \<Rightarrow> ((400, JObj [(''error'', JStr ''invalid_json'')]), g)
      | Some request \<Rightarrow>
          (case verify_now d node nowMs request of
             Passes (payer, auth) \<Rightarrow>
               map_prod settle_answer id
                 (settle (fd_executor d) (nd_rpc node) payer auth
                    (str_of (json_field (json_field (json_field request ''paymentPayload'') ''payload'') ''signature'')) g)
           | Refuses r detail \<Rightarrow> (refused_answer d r detail, g)
           | Throws err \<Rightarrow> (error_answer err, g)))"

definition health :: "FacilitatorDeps \<Rightarrow> answer" where
  "health d = (200, JObj [(''ok'', JBool True), (''network'', JStr (fn_id (fc_network (fd_config d)))),
     (''testnet'', JBool (fn_testnet (fc_network (fd_config d)))), (''payer'', JStr (ex_account (fd_executor d)))])"

definition supported :: "FacilitatorDeps \<Rightarrow> answer" where
  "supported d = (200, JObj
     [(''kinds'', JArr [JObj [(''x402Version'', JNum 2), (''scheme'', JStr ''exact''),
                              (''network'', JStr (fn_id (fc_network (fd_config d)))), (''extra'', JObj [])]]),
      (''extensions'', JArr []), (''signers'', JObj [])])"

definition handler :: "FacilitatorDeps \<Rightarrow> Node \<Rightarrow> int \<Rightarrow> HttpRequest \<Rightarrow> guard \<Rightarrow> answer \<times> guard" where
  "handler d node nowMs req g =
     (let url = takeWhile (\<lambda>c. c \<noteq> CHR ''?'') (opt_default ''/'' (hr_url req)) in
      if hr_method req = ''GET'' \<and> (url = ''/health'' \<or> url = ''/'') then (health d, g)
      else if hr_method req = ''GET'' \<and> url = ''/supported'' then (supported d, g)
      else if hr_method req = ''POST'' \<and> url = ''/verify'' then (handleVerify d node nowMs req, g)
      else if hr_method req = ''POST'' \<and> url = ''/settle'' then handleSettle d node nowMs req g
      else ((404, JObj [(''error'', JStr ''not_found'')]), g))"

section \<open>Configuration that is accepted\<close>

lemma bind_config_Inr [simp]: "bind_config x f = Inr y \<longleftrightarrow> (\<exists>a. x = Inr a \<and> f a = Inr y)"
  by (cases x) (auto simp: bind_config_def)

lemma config_network_Inr:
  "config_network e = Inr net \<Longrightarrow>
   js_get FACILITATOR_NETWORKS (trim (env_or e ''ZEUS_FACILITATOR_NETWORK'' ''eip155:196'')) = Some net \<and>
   \<not> (trim (env_or e ''NODE_ENV'' ''development'') = ''production'' \<and> fn_testnet net)"
  by (auto simp: config_network_def Let_def split: option.splits if_splits)

lemma config_rpcUrls_Inr: "config_rpcUrls e = Inr urls \<Longrightarrow> urls \<noteq> [] \<and> [] \<notin> set urls"
  by (auto simp: config_rpcUrls_def Let_def split: if_splits)

lemma config_port_Inr: "config_port e = Inr p \<Longrightarrow> 0 < p \<and> p \<le> 65535"
  by (auto simp: config_port_def split: option.splits if_splits)

lemma config_receiptTimeout_Inr: "config_receiptTimeout e = Inr t \<Longrightarrow> 0 < t"
  by (auto simp: config_receiptTimeout_def split: option.splits if_splits)

lemma config_gasPrivateKey_Inr: "config_gasPrivateKey e = Inr k \<Longrightarrow> hex_text 64 k"
  by (auto simp: config_gasPrivateKey_def split: if_splits)

text \<open>
  A configuration the facilitator starts with names a network of the registry, no testnet in
  production, at least one node, a 32-byte key, a port in range and a positive receipt timeout.
\<close>
theorem accepted_config_is_sound:
  assumes "loadConfigFromEnv JSON_parse e = Inr c"
  shows "fc_network c \<in> set (js_values FACILITATOR_NETWORKS) \<and> \<not> (fc_nodeEnv c = ''production'' \<and> fn_testnet (fc_network c)) \<and>
         fc_rpcUrls c \<noteq> [] \<and> [] \<notin> set (fc_rpcUrls c) \<and> hex_text 64 (fc_gasPrivateKey c) \<and>
         0 < fc_port c \<and> fc_port c \<le> 65535 \<and> 0 < fc_receiptTimeoutMs c"
proof -
  from assms obtain net urls headers key port t where parts:
    "config_network e = Inr net" "config_rpcUrls e = Inr urls" "config_gasPrivateKey e = Inr key" "config_port e = Inr port"
    "config_receiptTimeout e = Inr t" "fc_network c = net" "fc_rpcUrls c = urls" "fc_gasPrivateKey c = key" "fc_port c = port"
    "fc_receiptTimeoutMs c = t" "fc_nodeEnv c = trim (env_or e ''NODE_ENV'' ''development'')"
    by (auto simp: loadConfigFromEnv_def)
  from config_network_Inr [OF parts(1)] have "net \<in> set (js_values FACILITATOR_NETWORKS)"
    by (force simp: js_get_def js_values_def dest: map_of_SomeD)
  with parts config_network_Inr [OF parts(1)] config_rpcUrls_Inr [OF parts(2)] config_gasPrivateKey_Inr [OF parts(3)]
    config_port_Inr [OF parts(4)] config_receiptTimeout_Inr [OF parts(5)]
  show ?thesis by simp
qed

definition demo_env :: env where
  "demo_env = map_of [(''ZEUS_FACILITATOR_NETWORK'', ''eip155:84532''), (''ZEUS_FACILITATOR_RPC_URLS'', '' http://a , ,http://b''),
     (''ZEUS_FACILITATOR_GAS_PRIVATE_KEY'', ''0x'' @ replicate 64 CHR ''1''), (''PORT'', ''8080'')]"

lemma accepted_config_is_sound_witness:
  "\<exists>c. loadConfigFromEnv (\<lambda>s. None) demo_env = Inr c \<and> fc_rpcUrls c = [''http://a'', ''http://b''] \<and> 0 < fc_port c"
proof -
  have t: "trim ''eip155:84532'' = ''eip155:84532''" "trim ''development'' = ''development''"
    "trim '' http://a , ,http://b'' = ''http://a , ,http://b''" "trim [] = []"
    "trim (''0x'' @ replicate 64 CHR ''1'') = ''0x'' @ replicate 64 CHR ''1''" by code_simp+
  have u: "map trim (split_char CHR '','' ''http://a , ,http://b'') = [''http://a'', [], ''http://b'']" by code_simp
  have k: "hex_text 64 (''0x'' @ replicate 64 CHR ''1'')" by code_simp
  have p: "parseInt10 ''8080'' = Some 8080" "parseInt10 ''45000'' = Some 45000" by code_simp+
  have "config_network demo_env = Inr base_sepolia"
    using t by (simp add: config_network_def env_or_def demo_env_def FACILITATOR_NETWORKS_def js_get_def)
  moreover have "config_rpcUrls demo_env = Inr [''http://a'', ''http://b'']"
    using t u by (simp add: config_rpcUrls_def requireEnv_def demo_env_def bind_config_def del: split_char.simps)
  moreover have "config_rpcHeaders (\<lambda>s. None) demo_env = Inr None"
    using t by (simp add: config_rpcHeaders_def env_or_def demo_env_def)
  moreover have "config_gasPrivateKey demo_env = Inr (''0x'' @ replicate 64 CHR ''1'')"
    using t(5) k by (simp add: config_gasPrivateKey_def requireEnv_def demo_env_def bind_config_def)
  moreover have "config_port demo_env = Inr 8080"
    using p by (simp add: config_port_def env_or_def demo_env_def)
  moreover have "config_receiptTimeout demo_env = Inr 45000"
    using p by (simp add: config_receiptTimeout_def env_or_def demo_env_def)
  ultimately have "\<exists>c. loadConfigFromEnv (\<lambda>s. None) demo_env = Inr c \<and> fc_rpcUrls c = [''http://a'', ''http://b'']"
    by (simp add: loadConfigFromEnv_def)
  then obtain c where "loadConfigFromEnv (\<lambda>s. None) demo_env = Inr c" "fc_rpcUrls c = [''http://a'', ''http://b'']" by blast
  with accepted_config_is_sound [OF this(1)] show ?thesis by blast
qed

section \<open>What reaches the chain\<close>

lemma readBody_from_Body:
  "readBody_from sz acc cs broken = Body t \<Longrightarrow> sz \<le> MAX_BODY_BYTES \<Longrightarrow>
   t = acc @ concat cs \<and> sz + length (concat cs) \<le> MAX_BODY_BYTES \<and> \<not> broken"
proof (induction cs arbitrary: sz acc)
  case (Cons c cs)
  then show ?case using Cons.IH [of "sz + length c" "acc @ c"] by (simp add: not_less add.assoc split: if_splits)
qed (simp split: if_splits)

lemma readBody_Body: "readBody req = Body t \<Longrightarrow> t = concat (hr_chunks req) \<and> length t \<le> MAX_BODY_BYTES \<and> \<not> hr_broken req"
  using readBody_from_Body [of 0 "[]" "hr_chunks req" "hr_broken req" t] by (simp add: readBody_def)

text \<open>An oversized body is answered as unreadable JSON; the handler's own answer for it is never given.\<close>

lemma readBody_from_too_large:
  "MAX_BODY_BYTES < sz + length (concat cs) \<Longrightarrow> sz \<le> MAX_BODY_BYTES \<Longrightarrow> readBody_from sz acc cs broken = BodyTooLargeError"
  by (induction cs arbitrary: sz acc) auto

lemma oversized_body_is_bad_request:
  assumes "MAX_BODY_BYTES < length (concat (hr_chunks req))" "authorized d req"
  shows "handleVerify d node nowMs req = (400, JObj [(''error'', JStr ''invalid_json'')])"
    and "handleSettle d node nowMs req g = ((400, JObj [(''error'', JStr ''invalid_json'')]), g)"
  using assms readBody_from_too_large [of 0]
  by (simp_all add: handleVerify_def handleSettle_def request_body_def readBody_def)

lemma settle_done_changes:
  "js_get (snd (settle ex rpc payer auth sig g)) n \<noteq> js_get g n \<Longrightarrow>
   n = va_nonce auth \<and> js_get g n = None \<and>
   (\<exists>prepared h. prepare ex rpc auth sig = Inr prepared \<and> send_tx ex rpc prepared = Inr h \<and>
      js_get (snd (settle ex rpc payer auth sig g)) n = Some (Done (Some h)))"
  by (cases "js_get g (va_nonce auth)")
     (auto simp: settle_def claim_def settle_claimed_def release_def bind_thrown_def split: sum.splits if_splits)

lemma settle_node_matters:
  "settle ex rpc payer auth sig g \<noteq> settle ex rpc' payer auth sig g \<Longrightarrow> js_get g (va_nonce auth) = None"
  by (cases "js_get g (va_nonce auth)") (simp_all add: settle_def claim_def)

text \<open>Where the calls of a settlement make a difference.\<close>

lemma handler_node_matters:
  assumes "handler d (node\<lparr>nd_rpc := rpc\<rparr>) nowMs req g \<noteq> handler d node nowMs req g"
  shows "authorized d req \<and> hr_method req = ''POST'' \<and> takeWhile (\<lambda>c. c \<noteq> CHR ''?'') (opt_default ''/'' (hr_url req)) = ''/settle'' \<and>
    (\<exists>request payer auth. request_body d req = Some request \<and> verify_now d node nowMs request = Passes (payer, auth) \<and>
       js_get g (va_nonce auth) = None)"
proof -
  have v: "verify_now d (node\<lparr>nd_rpc := rpc\<rparr>) nowMs request = verify_now d node nowMs request" for request
    by (simp add: verify_now_def)
  then have same: "handleVerify d (node\<lparr>nd_rpc := rpc\<rparr>) nowMs req = handleVerify d node nowMs req"
    by (simp only: handleVerify_def v)
  with assms have route: "hr_method req = ''POST''" "takeWhile (\<lambda>c. c \<noteq> CHR ''?'') (opt_default ''/'' (hr_url req)) = ''/settle''"
    and s: "handleSettle d (node\<lparr>nd_rpc := rpc\<rparr>) nowMs req g \<noteq> handleSettle d node nowMs req g"
    by (auto simp: handler_def Let_def split: if_splits)
  from s obtain request payer auth where r: "authorized d req" "request_body d req = Some request"
    "verify_now d node nowMs request = Passes (payer, auth)"
    unfolding handleSettle_def v by (auto split: if_splits option.splits verdict.splits)
  have "js_get g (va_nonce auth) = None"
    by (rule settle_node_matters [of "fd_executor d" rpc payer auth
          "str_of (json_field (json_field (json_field request ''paymentPayload'') ''payload'') ''signature'')" g "nd_rpc node"])
      (use s r in \<open>auto simp: handleSettle_def v\<close>)
  with r route show ?thesis by blast
qed

text \<open>A call that reaches \<open>settle\<close>: the route, the key, and a body that passes verification.\<close>

lemma handler_settles:
  assumes "P (handler d node nowMs req g)" "\<And>a. \<not> P (a, g)"
  shows "authorized d req \<and> hr_method req = ''POST'' \<and> takeWhile (\<lambda>c. c \<noteq> CHR ''?'') (opt_default ''/'' (hr_url req)) = ''/settle'' \<and>
    (\<exists>request payer auth. request_body d req = Some request \<and> verify_now d node nowMs request = Passes (payer, auth) \<and>
       handler d node nowMs req g = map_prod settle_answer id (settle (fd_executor d) (nd_rpc node) payer auth
         (str_of (json_field (json_field (json_field request ''paymentPayload'') ''payload'') ''signature'')) g))"
proof -
  from assms have h: "handler d node nowMs req g = handleSettle d node nowMs req g" and post: "hr_method req = ''POST''"
    and url: "takeWhile (\<lambda>c. c \<noteq> CHR ''?'') (opt_default ''/'' (hr_url req)) = ''/settle''"
    by (auto simp: handler_def Let_def split: if_splits)
  from assms obtain request payer auth where r: "authorized d req" "request_body d req = Some request"
    "verify_now d node nowMs request = Passes (payer, auth)"
    unfolding h by (auto simp: handleSettle_def split: if_splits option.splits verdict.splits prod.splits)
  then have "handler d node nowMs req g = map_prod settle_answer id (settle (fd_executor d) (nd_rpc node) payer auth
      (str_of (json_field (json_field (json_field request ''paymentPayload'') ''payload'') ''signature'')) g)"
    unfolding h by (simp add: handleSettle_def)
  with r post url show ?thesis by blast
qed

text \<open>
  Property C15. A request changes the nonce guard only as an authorised POST of \<open>/settle\<close> whose body passes
  verification, and then only by recording the acknowledged broadcast of the verified authorization under its own,
  until then unused, nonce. The calls of a settlement, the broadcast among them, can have an effect on the answer or the
  guard only in such a request, so nothing depends on them without the API key when one is configured.
\<close>
theorem only_verified_payments_broadcast:
  "(js_get (snd (handler d node nowMs req g)) n \<noteq> js_get g n \<longrightarrow>
      authorized d req \<and> hr_method req = ''POST'' \<and> takeWhile (\<lambda>c. c \<noteq> CHR ''?'') (opt_default ''/'' (hr_url req)) = ''/settle'' \<and>
      (\<exists>request payer auth prepared h. request_body d req = Some request \<and> verify_now d node nowMs request = Passes (payer, auth) \<and>
         n = va_nonce auth \<and> js_get g n = None \<and>
         prepare (fd_executor d) (nd_rpc node) auth
           (str_of (json_field (json_field (json_field request ''paymentPayload'') ''payload'') ''signature'')) = Inr prepared \<and>
         send_tx (fd_executor d) (nd_rpc node) prepared = Inr h \<and>
         js_get (snd (handler d node nowMs req g)) n = Some (Done (Some h)))) \<and>
   (\<forall>rpc. handler d (node\<lparr>nd_rpc := rpc\<rparr>) nowMs req g \<noteq> handler d node nowMs req g \<longrightarrow>
      authorized d req \<and> hr_method req = ''POST'' \<and> takeWhile (\<lambda>c. c \<noteq> CHR ''?'') (opt_default ''/'' (hr_url req)) = ''/settle'' \<and>
      (\<exists>request payer auth. request_body d req = Some request \<and> verify_now d node nowMs request = Passes (payer, auth) \<and>
         js_get g (va_nonce auth) = None))"
proof (intro conjI allI impI)
  assume changed: "js_get (snd (handler d node nowMs req g)) n \<noteq> js_get g n"
  from handler_settles [of "\<lambda>x. js_get (snd x) n \<noteq> js_get g n", OF changed] obtain request payer auth where
    r: "request_body d req = Some request" "verify_now d node nowMs request = Passes (payer, auth)"
    and h: "handler d node nowMs req g = map_prod settle_answer id (settle (fd_executor d) (nd_rpc node) payer auth
      (str_of (json_field (json_field (json_field request ''paymentPayload'') ''payload'') ''signature'')) g)" by auto
  have s: "snd (handler d node nowMs req g) = snd (settle (fd_executor d) (nd_rpc node) payer auth
      (str_of (json_field (json_field (json_field request ''paymentPayload'') ''payload'') ''signature'')) g)"
    unfolding h by simp
  from settle_done_changes [OF changed [unfolded s]] r
  show "\<exists>request payer auth prepared h. request_body d req = Some request \<and> verify_now d node nowMs request = Passes (payer, auth) \<and>
       n = va_nonce auth \<and> js_get g n = None \<and>
       prepare (fd_executor d) (nd_rpc node) auth
         (str_of (json_field (json_field (json_field request ''paymentPayload'') ''payload'') ''signature'')) = Inr prepared \<and>
       send_tx (fd_executor d) (nd_rpc node) prepared = Inr h \<and>
       js_get (snd (handler d node nowMs req g)) n = Some (Done (Some h))" unfolding s by blast
qed (use handler_settles [of "\<lambda>x. js_get (snd x) n \<noteq> js_get g n" d node nowMs req g]
      handler_node_matters [of d _ node nowMs req g] in auto)

text \<open>A settlement over HTTP that succeeds, the body arriving in two chunks.\<close>

definition demo_config :: FacilitatorConfig where
  "demo_config = \<lparr>fc_network = base_sepolia, fc_rpcUrls = [''http://a''], fc_rpcHeaders = None, fc_gasPrivateKey = [],
     fc_apiKey = ''secret'', fc_port = 3001, fc_nodeEnv = ''development'', fc_receiptTimeoutMs = 45000, fc_checkPayerBalance = True\<rparr>"

definition demo_deps :: FacilitatorDeps where
  "demo_deps = \<lparr>fd_config = demo_config, fd_executor = demo_executor, fd_recover = (\<lambda>d sig. Inr (va_from (td_message d))),
     fd_selector = demo_selector, fd_JSON_parse = (\<lambda>t. if t = ''{body}'' then Some demo_request else None)\<rparr>"

definition demo_http :: HttpRequest where
  "demo_http = \<lparr>hr_method = ''POST'', hr_url = Some ''/settle?x=1'', hr_authorization = Some ''Bearer secret'', hr_xApiKey = No_header,
     hr_chunks = [''{bo'', ''dy}''], hr_broken = False\<rparr>"

definition demo_chain :: Node where
  "demo_chain = \<lparr>nd_call = demo_node, nd_rpc = demo_rpc\<rparr>"

lemma demo_authorized: "authorized demo_deps demo_http"
proof -
  have "trim ''secret'' = ''secret''" by code_simp
  then show ?thesis by (simp add: authorized_def demo_deps_def demo_config_def demo_http_def starts_with_def)
qed

lemma demo_body: "request_body demo_deps demo_http = Some demo_request"
  by (simp add: request_body_def readBody_def demo_http_def demo_deps_def MAX_BODY_BYTES_def)

lemma demo_verified: "verify_now demo_deps demo_chain 50000 demo_request = Passes (hexes 40 CHR ''a'', demo_payment)"
  using demo_passes by (simp add: verify_now_def demo_deps_def demo_chain_def demo_config_def demo_verdict_def)

lemma demo_settles:
  "handler demo_deps demo_chain 50000 demo_http [] =
     ((200, settle_json (SettleSuccess ''0xhash'' ''eip155:84532'' (hexes 40 CHR ''a''))), [(hexes 64 CHR ''7'', Done (Some ''0xhash''))])"
proof -
  have "settle demo_executor demo_rpc p demo_payment sig [] =
      (\<lparr>so_httpStatus = 200, so_body = SettleSuccess ''0xhash'' ''eip155:84532'' p\<rparr>, [(hexes 64 CHR ''7'', Done (Some ''0xhash''))])" for p sig
    by (simp add: settle_def claim_def settle_claimed_def bind_thrown_def receipt_answer_def markDone_def js_set_def demo_payment_def
        demo_rpc_def [THEN arg_cong, of waitForReceipt] demo_executor_def [THEN arg_cong, of ex_network] base_sepolia_def)
  then have "handleSettle demo_deps demo_chain 50000 demo_http [] =
      ((200, settle_json (SettleSuccess ''0xhash'' ''eip155:84532'' (hexes 40 CHR ''a''))), [(hexes 64 CHR ''7'', Done (Some ''0xhash''))])"
    by (simp add: handleSettle_def demo_authorized demo_body demo_verified settle_answer_def)
       (simp add: demo_deps_def demo_chain_def settle_answer_def)
  then show ?thesis by (simp add: handler_def demo_http_def)
qed

lemma only_verified_payments_broadcast_witness:
  "\<exists>request payer auth. authorized demo_deps demo_http \<and> request_body demo_deps demo_http = Some request \<and>
     verify_now demo_deps demo_chain 50000 request = Passes (payer, auth) \<and> va_nonce auth = hexes 64 CHR ''7''"
proof -
  have "js_get (snd (handler demo_deps demo_chain 50000 demo_http [])) (hexes 64 CHR ''7'') \<noteq> js_get [] (hexes 64 CHR ''7'')"
    by (simp add: demo_settles js_get_def)
  with only_verified_payments_broadcast [of demo_deps demo_chain 50000 demo_http "[]" "hexes 64 CHR ''7''"] show ?thesis by auto
qed

end
