(* ===== verification/FacilitatorLink.thy ===== *)
theory FacilitatorLink
  imports FacilitatorServer StageB
begin

text \<open>
  The Secretariat's client (\<^verbatim>\<open>adapters/x402-facilitator-client.ts\<close>) talking to the Zeus facilitator
  (\<^verbatim>\<open>zeus-facilitator/src/server.ts\<close>): the settle request as JSON, the answer as the client reads it, and
  what the payloads of Stage B meet there.
\<close>

section \<open>The request on the wire\<close>

text \<open>Fields the client leaves undefined do not appear.\<close>

definition opt_field :: "string \<Rightarrow> ('a \<Rightarrow> json) \<Rightarrow> 'a option \<Rightarrow> (string \<times> json) list" where
  "opt_field k f a = (case a of None \<Rightarrow> [] | Some x \<Rightarrow> [(k, f x)])"

definition resource_json :: "PaymentResource \<Rightarrow> json" where
  "resource_json r = JObj ([(''url'', JStr (rs_url r))] @ opt_field ''description'' JStr (rs_description r) @
     opt_field ''mimeType'' JStr (rs_mimeType r))"

definition accepted_json :: "PaymentAccepted \<Rightarrow> json" where
  "accepted_json a = JObj
     ([(''scheme'', JStr (pa_scheme a)), (''network'', JStr (pa_network a)), (''amount'', JStr (pa_amount a)), (''asset'', JStr (pa_asset a)),
       (''payTo'', JStr (pa_payTo a)), (''maxTimeoutSeconds'', JNum (pa_maxTimeoutSeconds a))] @ opt_field ''extra'' id (pa_extra a))"

definition transfer_json :: "TransferAuthorization \<Rightarrow> json" where
  "transfer_json a = JObj
     [(''from'', JStr (ta_from a)), (''to'', JStr (ta_to a)), (''value'', JStr (ta_value a)), (''validAfter'', JStr (ta_validAfter a)),
      (''validBefore'', JStr (ta_validBefore a)), (''nonce'', JStr (ta_nonce a))]"

definition payload_json :: "PaymentPayload \<Rightarrow> json" where
  "payload_json p = JObj
     ([(''x402Version'', JNum (pp_x402Version p))] @ opt_field ''resource'' resource_json (pp_resource p) @
      [(''accepted'', accepted_json (pp_accepted p)),
       (''payload'', JObj [(''signature'', JStr (pp_signature p)), (''authorization'', transfer_json (pp_authorization p))])] @
      opt_field ''extensions'' id (pp_extensions p))"

definition requirements_json :: "SettleRequirements \<Rightarrow> json" where
  "requirements_json r = JObj
     ([(''scheme'', JStr (sr_scheme r)), (''network'', JStr (sr_network r)), (''asset'', JStr (sr_asset r)), (''amount'', JStr (sr_amount r)),
       (''payTo'', JStr (sr_payTo r)), (''maxTimeoutSeconds'', JNum (sr_maxTimeoutSeconds r))] @
      opt_field ''resource'' resource_json (sr_resource r) @ opt_field ''extra'' id (sr_extra r))"

definition request_json :: "FacilitatorSettleRequest \<Rightarrow> json" where
  "request_json r = JObj
     [(''x402Version'', JNum (fr_x402Version r)), (''paymentPayload'', payload_json (fr_paymentPayload r)),
      (''paymentRequirements'', requirements_json (fr_paymentRequirements r))]"

definition settle_http :: "string \<Rightarrow> FacilitatorSettleRequest \<Rightarrow> HttpRequest" where
  "settle_http apiKey r =
     \<lparr>hr_method = ''POST'', hr_url = Some ''/settle'', hr_authorization = (if apiKey = [] then None else Some (''Bearer '' @ apiKey)),
      hr_xApiKey = No_header, hr_chunks = [JSON_stringify (request_json r)], hr_broken = False\<rparr>"

text \<open>The facilitator as the client meets it: one HTTP exchange, the nonce guard being the server's state.\<close>

definition reply_of :: "answer \<Rightarrow> FacilitatorReply" where
  "reply_of a = Reply (int (fst a)) (snd a)"

definition zeus_facilitator ::
    "FacilitatorDeps \<Rightarrow> Node \<Rightarrow> int \<Rightarrow> string \<Rightarrow> guard \<Rightarrow> FacilitatorSettleRequest \<Rightarrow> FacilitatorReply \<times> guard" where
  "zeus_facilitator d node nowMs apiKey g r = map_prod reply_of id (handler d node nowMs (settle_http apiKey r) g)"

section \<open>How the client reads the answers\<close>

text \<open>What \<open>submit\<close> returns for a reply.\<close>

fun client_reads :: "FacilitatorReply \<Rightarrow> exn + SubmitResult" where
  "client_reads (Network_error m) = Inr (Sub_UNKNOWN (''NETWORK_ERROR: '' @ m))"
| "client_reads (Reply status body) =
     (if body = JNull then Inl ''TypeError: Cannot read properties of null''
      else if 200 \<le> status \<and> status \<le> 299 \<and> json_field body ''success'' = JBool True
      then Inr (Sub_SUBMITTED (first_field body [''transaction'', ''transactionHash'', ''txHash'', ''transaction_hash''] []) body)
      else Inr (fst (if 200 \<le> status \<and> status \<le> 299 then unsuccessful_2xx body else not_2xx status body)))"

lemma record_reply_reads: "fst (record_reply db intent reply t st) = client_reads reply"
  by (cases reply) (simp_all add: record_reply_def Let_def split: prod.split)

lemma field_simps [simp]:
  "json_field (JObj ((k, v) # kvs)) k' = (if k' = k then v else json_field (JObj kvs) k')" "json_field (JObj []) k' = JUndefined"
  by (simp_all add: json_field_def)

lemma nullish_simps [simp]:
  "\<not> nullish (JStr s)" "\<not> nullish (JBool b)" "\<not> nullish (JNum n)" "nullish JUndefined" "nullish JNull" "\<not> nullish (JObj kvs)"
  by (simp_all add: nullish_def)

text \<open>The three readings: submitted with a hash, definitively refused, or left to the reconciler.\<close>

lemma reads_success: "client_reads (Reply 200 (settle_json (SettleSuccess h n p))) = Inr (Sub_SUBMITTED h (settle_json (SettleSuccess h n p)))"
  by simp

lemma reads_failure: "client_reads (Reply 200 (settle_json (SettleFailure r n h))) = Inr (Sub_REJECTED r (settle_json (SettleFailure r n h)))"
  by (simp add: unsuccessful_2xx_def)

lemma reads_trouble:
  "status \<in> {409, 500, 503, 504} \<Longrightarrow> body \<noteq> JNull \<Longrightarrow> \<exists>e. client_reads (Reply status body) = Inr (Sub_UNKNOWN e)"
  by (auto simp: not_2xx_def Let_def)

lemma reads_error_answer: "\<exists>e. client_reads (reply_of (error_answer err)) = Inr (Sub_UNKNOWN e)"
  by (auto simp: reply_of_def error_answer_def intro!: reads_trouble simp del: client_reads.simps)

lemma reads_refused_request:
  "\<not> replayish_reason e \<Longrightarrow> status \<in> {400, 401} \<Longrightarrow>
   client_reads (Reply status (JObj [(''error'', JStr e)])) = Inr (Sub_REJECTED e (JObj [(''error'', JStr e)]))"
  by (auto simp: not_2xx_def)

lemma plain_reasons: "\<not> replayish_reason ''unauthorized''" "\<not> replayish_reason ''invalid_json''"
  by code_simp+

text \<open>Where the try block of a settlement threw: before the broadcast, or in it.\<close>

lemma settle_throws:
  "bind_thrown (prepare ex rpc auth sig) (send_tx ex rpc) = Inl err \<Longrightarrow>
   bind_thrown (prepare ex rpc auth sig) (sign_tx ex rpc) = Inl err \<or>
   (\<exists>prepared raw. prepare ex rpc auth sig = Inr prepared \<and> sign_tx ex rpc prepared = Inr raw \<and> sendRawTransaction rpc raw = Inl err)"
  by (auto simp: bind_thrown_def send_tx_def split: sum.splits)

lemma settle_readings:
  assumes "a = settle_answer (fst (settle ex rpc payer auth sig g))" "g' = snd (settle ex rpc payer auth sig g)"
  shows "(\<exists>tx body prepared. client_reads (reply_of a) = Inr (Sub_SUBMITTED tx body) \<and>
            prepare ex rpc auth sig = Inr prepared \<and> send_tx ex rpc prepared = Inr tx \<and>
            js_get g' (va_nonce auth) = Some (Done (Some tx)) \<and> waitForReceipt rpc tx (ex_receiptTimeoutMs ex) = Inr Receipt_success) \<or>
         (\<exists>reason body. client_reads (reply_of a) = Inr (Sub_REJECTED reason body) \<and> js_get g (va_nonce auth) = None \<and>
            ((\<exists>err. bind_thrown (prepare ex rpc auth sig) (sign_tx ex rpc) = Inl err \<and> (\<forall>n. js_get g' n = js_get g n)) \<or>
             (\<exists>prepared raw err. prepare ex rpc auth sig = Inr prepared \<and> sign_tx ex rpc prepared = Inr raw \<and>
                sendRawTransaction rpc raw = Inl err \<and> \<not> is_rpc_unavailable err \<and>
                reason = ''broadcast_rejected:'' @ error_detail err \<and> (\<forall>n. js_get g' n = js_get g n)) \<or>
             (\<exists>prepared h. prepare ex rpc auth sig = Inr prepared \<and> send_tx ex rpc prepared = Inr h \<and>
                js_get g' (va_nonce auth) = Some (Done (Some h)) \<and>
                waitForReceipt rpc h (ex_receiptTimeoutMs ex) = Inr Receipt_reverted))) \<or>
         (\<exists>e. client_reads (reply_of a) = Inr (Sub_UNKNOWN e))"
proof (cases "js_get g (va_nonce auth)")
  case (Some e)
  with assms have "reply_of a = Reply 409 (settle_json (so_body (duplicate_answer ex e)))"
    by (simp add: settle_def claim_def settle_answer_def reply_of_def duplicate_answer_def)
  with reads_trouble [of 409 "settle_json (so_body (duplicate_answer ex e))"] show ?thesis
    by (simp add: duplicate_answer_def del: client_reads.simps)
next
  case free: None
  show ?thesis
  proof (cases "bind_thrown (prepare ex rpc auth sig) (send_tx ex rpc)")
    case (Inl err)
    with free assms have r: "reply_of a = reply_of (settle_answer (broadcast_failed ex err))" "\<forall>n. js_get g' n = js_get g n"
      by (auto simp: settle_def claim_def settle_claimed_def release_def)
    show ?thesis
    proof (cases "is_rpc_unavailable err")
      case True
      then show ?thesis using r(1) reads_trouble [of 503]
        by (fastforce simp: broadcast_failed_def settle_answer_def reply_of_def simp del: client_reads.simps)
    next
      case False
      then have "\<exists>body. client_reads (reply_of a) = Inr (Sub_REJECTED (''broadcast_rejected:'' @ error_detail err) body)"
        using r(1) reads_failure by (simp add: broadcast_failed_def settle_answer_def reply_of_def del: client_reads.simps settle_json.simps)
      with settle_throws [OF Inl] r(2) False free show ?thesis by blast
    qed
  next
    case (Inr tx)
    then obtain prepared where sent: "prepare ex rpc auth sig = Inr prepared" "send_tx ex rpc prepared = Inr tx"
      by (auto simp: bind_thrown_def split: sum.splits)
    from Inr free assms have a: "a = settle_answer (receipt_answer ex payer tx (waitForReceipt rpc tx (ex_receiptTimeoutMs ex)))"
      and g': "js_get g' (va_nonce auth) = Some (Done (Some tx))"
      by (auto simp: settle_def claim_def settle_claimed_def)
    show ?thesis
    proof (cases "waitForReceipt rpc tx (ex_receiptTimeoutMs ex)")
      case (Inl e)
      then show ?thesis using reads_trouble [of 504]
        by (fastforce simp: a receipt_answer_def settle_answer_def reply_of_def simp del: client_reads.simps)
    next
      case (Inr status)
      then show ?thesis
      proof (cases status)
        case Receipt_success
        with Inr have "client_reads (reply_of a) = Inr (Sub_SUBMITTED tx (settle_json (SettleSuccess tx (fn_id (ex_network ex)) payer)))"
          using reads_success by (simp add: a receipt_answer_def settle_answer_def reply_of_def del: client_reads.simps settle_json.simps)
        with Inr Receipt_success sent g' show ?thesis by blast
      next
        case Receipt_reverted
        with Inr have "\<exists>b. client_reads (reply_of a) = Inr (Sub_REJECTED ''settle_reverted'' b)"
          using reads_failure by (simp add: a receipt_answer_def settle_answer_def reply_of_def del: client_reads.simps settle_json.simps)
        with Inr Receipt_reverted sent g' free show ?thesis by blast
      qed
    qed
  qed
qed



section \<open>The payloads of Stage B\<close>

lemma map_of_opt_field [simp]: "map_of (opt_field k f a) k' = (if k' = k then map_option f a else None)"
  by (auto simp: opt_field_def split: option.splits)

abbreviation stage_b_request :: "DurablePaymentIntent \<Rightarrow> string \<times> string \<Rightarrow> FacilitatorSettleRequest" where
  "stage_b_request i auth \<equiv> buildFacilitatorRequest (v2_payload i auth)"

lemma stage_b_fields [simp]:
  "json_field (request_json (stage_b_request i auth)) ''x402Version'' = JNum 2"
  "json_field (request_json (stage_b_request i auth)) ''paymentPayload'' = payload_json (v2_payload i auth)"
  "json_field (request_json (stage_b_request i auth)) ''paymentRequirements'' =
     requirements_json (fr_paymentRequirements (stage_b_request i auth))"
  "typeof_object (request_json r)" "typeof_object (payload_json p)" "typeof_object (requirements_json q)"
  "request_json r \<noteq> JNull" "payload_json p \<noteq> JNull" "requirements_json q \<noteq> JNull"
  "json_field (payload_json (v2_payload i auth)) ''x402Version'' = JNum 2"
  "json_field (payload_json p) ''accepted'' = accepted_json (pp_accepted p)"
  "json_field (accepted_json (pp_accepted (v2_payload i auth))) ''extra'' = JUndefined" "accepted_json acc \<noteq> JNull" "accepted_json acc \<noteq> JUndefined"
  "json_field (requirements_json (fr_paymentRequirements (stage_b_request i auth))) ''extra'' = JUndefined"
  by (simp_all add: request_json_def payload_json_def requirements_json_def accepted_json_def buildFacilitatorRequest_def v2_payload_def
      json_field_def map_add_def)

lemma no_field: "json_field JUndefined k = JUndefined"
  by (simp add: json_field_def)

lemma stage_b_domain: "check_domain net acc (requirements_json (fr_paymentRequirements (stage_b_request i auth))) =
    Refuses domain_binding_missing ''paymentRequirements.extra.name/.version are required for EVM''"
  by (simp add: check_domain_def unless_def Let_def no_field)

lemma stage_b_envelope: "check_envelope (request_json (stage_b_request i auth)) =
    Passes (payload_json (v2_payload i auth), requirements_json (fr_paymentRequirements (stage_b_request i auth)))"
  by (simp add: check_envelope_def Let_def)

lemma stage_b_terms_verdict:
  "\<exists>r detail. check_scheme net (payload_json (v2_payload i auth)) (requirements_json (fr_paymentRequirements (stage_b_request i auth))) =
      Refuses r detail \<or>
    check_scheme net (payload_json (v2_payload i auth)) (requirements_json (fr_paymentRequirements (stage_b_request i auth))) = Passes ()"
  by (auto simp: check_scheme_def unless_def Let_def nullish_def)

lemma check_asset_verdict: "check_asset net acc req = Passes () \<or> (\<exists>r detail. check_asset net acc req = Refuses r detail)"
  by (auto simp: check_asset_def unless_def)

lemma submit_guard_rejects: "submit_guard i st = Some r \<Longrightarrow> \<exists>reason body. r = Sub_REJECTED reason body"
  by (auto simp: submit_guard_def Let_def split: option.splits if_splits)

lemma mark_submitting_rejects: "mark_submitting i t st = (Some r, st') \<Longrightarrow> \<exists>reason body. r = Sub_REJECTED reason body"
  using submit_guard_rejects by (fastforce simp: mark_submitting_def split: option.splits prod.splits bool.splits)

lemma stage_b_is_refused: "\<exists>r detail. verifyRequest recover selector call (request_json (stage_b_request i auth)) net chk nowMs = Refuses r detail"
  using stage_b_terms_verdict [of net i auth]
    check_asset_verdict [of net "accepted_json (pp_accepted (v2_payload i auth))" "requirements_json (fr_paymentRequirements (stage_b_request i auth))"]
  by (auto simp: verifyRequest_def verifyOffChain_def stage_b_envelope stage_b_domain)

text \<open>
  Property C35. A payment that Stage B submits over the default transport is refused by the Zeus facilitator
  whatever the intent, the signature, the chain and the clock: the payload carries no signing domain in
  \<open>extra\<close>. The client reports it as rejected and nothing is recorded as broadcast. (The JSON text is
  parsed back to the value it was made from.)
\<close>
theorem zeus_facilitator_refuses_stage_b:
  assumes "fd_JSON_parse d (JSON_stringify (request_json (stage_b_request i auth))) = Some (request_json (stage_b_request i auth))"
  shows "\<exists>reason body. fst (submit (\<lambda>r. fst (zeus_facilitator d node nowMs apiKey g r)) db i (v2_payload i auth) t st) =
           Inr (Sub_REJECTED reason body) \<and>
         snd (zeus_facilitator d node nowMs apiKey g (stage_b_request i auth)) = g"
proof -
  let ?req = "settle_http apiKey (stage_b_request i auth)"
  obtain r detail where v: "verify_now d node nowMs (request_json (stage_b_request i auth)) = Refuses r detail"
    using stage_b_is_refused unfolding verify_now_def by blast
  have h: "handler d node nowMs ?req g = handleSettle d node nowMs ?req g"
    by (simp add: handler_def settle_http_def)
  have b: "request_body d ?req = None \<or> request_body d ?req = Some (request_json (stage_b_request i auth))"
    using assms by (auto simp: request_body_def readBody_def settle_http_def split: body_read.split)
  then have "\<exists>reason body. client_reads (reply_of (fst (handleSettle d node nowMs ?req g))) = Inr (Sub_REJECTED reason body) \<and>
      snd (handleSettle d node nowMs ?req g) = g"
    using v reads_refused_request [OF plain_reasons(1), of 401] reads_refused_request [OF plain_reasons(2), of 400] reads_failure
    by (auto simp: handleSettle_def reply_of_def refused_answer_def simp del: client_reads.simps settle_json.simps)
  then obtain reason body where c: "client_reads (fst (zeus_facilitator d node nowMs apiKey g (stage_b_request i auth))) = Inr (Sub_REJECTED reason body)"
    "snd (zeus_facilitator d node nowMs apiKey g (stage_b_request i auth)) = g"
    by (auto simp: zeus_facilitator_def h simp del: client_reads.simps)
  obtain early st' where m: "mark_submitting i t st = (early, st')" by fastforce
  then show ?thesis
    using c
    by (cases early) (auto simp: submit_def record_reply_reads simp del: client_reads.simps dest: mark_submitting_rejects)
qed

definition parsing_deps :: "json \<Rightarrow> FacilitatorDeps" where
  "parsing_deps v = demo_deps\<lparr>fd_JSON_parse := (\<lambda>t. if t = JSON_stringify v then Some v else None)\<rparr>"

lemma zeus_facilitator_refuses_stage_b_witness:
  "\<exists>reason body. fst (submit (\<lambda>r. fst (zeus_facilitator (parsing_deps (request_json (stage_b_request sample_sender (''0x12'', ''exact''))))
        demo_chain 50000 ''secret'' [] r)) no_faults sample_sender (v2_payload sample_sender (''0x12'', ''exact'')) 5 (sample_store St_AUTHORIZED)) =
      Inr (Sub_REJECTED reason body)"
  using zeus_facilitator_refuses_stage_b [of "parsing_deps (request_json (stage_b_request sample_sender (''0x12'', ''exact'')))"
      sample_sender "(''0x12'', ''exact'')" demo_chain 50000 "''secret''" "[]" no_faults 5 "sample_store St_AUTHORIZED"]
  by (simp add: parsing_deps_def)

end
