(* ===== verification/EgressGuard.thy ===== *)
theory EgressGuard
  imports Fingerprint TextHelpers "HOL-Library.Word"
begin

text \<open>
  \<^verbatim>\<open>zeus-secretariat/src/core/egress-guard.ts\<close>: which addresses the Secretariat may contact. Numbers under a
  bit operator are 32-bit words, as the language has them. Splitting a URL, resolving a name and the request
  itself are arguments.
\<close>

unbundle bit_operations_syntax

section \<open>Policy\<close>

datatype EgressPolicy = Block_private | Allow_all

definition egressPolicy :: "env \<Rightarrow> EgressPolicy" where
  "egressPolicy e = (if toLowerCase (trim (env_or e ''ZEUS_EGRESS_POLICY'' ''block-private'')) = ''allow-all'' then Allow_all else Block_private)"

definition egressAllowedHosts :: "env \<Rightarrow> string list" where
  "egressAllowedHosts e =
     filter (\<lambda>h. h \<noteq> []) (map (\<lambda>h. toLowerCase (trim h)) (split_char CHR '','' (env_or e ''ZEUS_EGRESS_ALLOWED_HOSTS'' [])))"

section \<open>Addresses of version 4\<close>

text \<open>\<open>Number(s)\<close> on decimal and hexadecimal text; an operand that is \<open>NaN\<close> counts as 0 under a bit operator.\<close>

definition js_Number :: "string \<Rightarrow> jsnum" where
  "js_Number s = BigInt s"

definition to_word :: "jsnum \<Rightarrow> 32 word" where
  "to_word a = (case a of None \<Rightarrow> 0 | Some i \<Rightarrow> word_of_int i)"

definition toInt :: "string \<Rightarrow> 32 word" where
  "toInt a = foldl (\<lambda>acc oct. push_bit 8 acc OR (to_word (js_Number oct) AND 0xff)) 0 (split_char CHR ''.'' a)"

definition cidr_mask :: "nat \<Rightarrow> 32 word" where
  "cidr_mask bits = (if bits = 0 then 0 else push_bit (32 - bits) 0xffffffff)"

definition ipv4InCidr :: "string \<Rightarrow> string \<times> nat \<Rightarrow> bool" where
  "ipv4InCidr ip cidr = (toInt ip AND cidr_mask (snd cidr) = toInt (fst cidr) AND cidr_mask (snd cidr))"

definition v4Blocked :: "(string \<times> nat) list" where
  "v4Blocked =
     [(''0.0.0.0'', 8), (''10.0.0.0'', 8), (''100.64.0.0'', 10), (''127.0.0.0'', 8), (''169.254.0.0'', 16), (''172.16.0.0'', 12),
      (''192.0.0.0'', 24), (''192.0.2.0'', 24), (''192.168.0.0'', 16), (''198.18.0.0'', 15), (''198.51.100.0'', 24),
      (''203.0.113.0'', 24), (''224.0.0.0'', 4), (''240.0.0.0'', 4)]"

definition isBlockedV4 :: "string \<Rightarrow> bool" where
  "isBlockedV4 ip = list_ex (ipv4InCidr ip) v4Blocked"

section \<open>Addresses of version 6\<close>

definition isV6 :: "string \<Rightarrow> bool" where
  "isV6 ip = (CHR '':'' \<in> set ip)"

text \<open>Without enclosing brackets and without a zone id.\<close>

definition strip_brackets :: "string \<Rightarrow> string" where
  "strip_brackets s0 =
     (let s = (if s0 \<noteq> [] \<and> hd s0 = CHR ''['' then tl s0 else s0)
      in if s \<noteq> [] \<and> last s = CHR '']'' then butlast s else s)"

definition clean_address :: "string \<Rightarrow> string" where
  "clean_address a = hd (split_char CHR 0x25 (strip_brackets a))"

text \<open>An embedded dotted quad: everything up to the last colon, and four groups of one to three digits.\<close>

definition short_digits :: "string \<Rightarrow> bool" where
  "short_digits s = (s \<noteq> [] \<and> length s \<le> 3 \<and> list_all is_digit s)"

definition embeddedV4 :: "string \<Rightarrow> (string \<times> string list) option" where
  "embeddedV4 s =
     (let q = rev (takeWhile (\<lambda>c. c \<noteq> CHR '':'') (rev s)); parts = split_char CHR ''.'' q
      in if isV6 s \<and> length parts = 4 \<and> list_all short_digits parts then Some (take (length s - length q) s, parts) else None)"

text \<open>\<open>n.toString(16)\<close> of a number that may be \<open>NaN\<close>.\<close>

definition hex_string :: "jsnum \<Rightarrow> string" where
  "hex_string a = (case a of None \<Rightarrow> ''NaN'' | Some i \<Rightarrow> if i < 0 then ''-'' @ hex_of_nat (nat (- i)) else hex_of_nat (nat i))"

definition two_octets :: "jsnum \<Rightarrow> jsnum \<Rightarrow> string" where
  "two_octets a b = hex_of_nat (unat (push_bit 8 (to_word a) OR to_word b))"

definition octet_ok :: "jsnum \<Rightarrow> bool" where
  "octet_ok n = (case n of None \<Rightarrow> False | Some i \<Rightarrow> 0 \<le> i \<and> i \<le> 255)"

definition rewrite_quad :: "string \<Rightarrow> string option" where
  "rewrite_quad s =
     (case embeddedV4 s of
        None \<Rightarrow> Some s
      | Some (before, parts) \<Rightarrow>
          (let q = map js_Number parts
           in if list_all octet_ok q then Some (before @ two_octets (q ! 0) (q ! 1) @ '':'' @ two_octets (q ! 2) (q ! 3)) else None))"

text \<open>The text before the first \<open>::\<close> and the text after it, up to the next \<open>::\<close>.\<close>

fun split_dcolon :: "string \<Rightarrow> (string \<times> string) option" where
  "split_dcolon (a # b # s) =
     (if a = CHR '':'' \<and> b = CHR '':'' then Some ([], s) else map_option (\<lambda>(l, r). (a # l, r)) (split_dcolon (b # s)))"
| "split_dcolon _ = None"

definition before_dcolon :: "string \<Rightarrow> string" where
  "before_dcolon s = (case split_dcolon s of None \<Rightarrow> s | Some (l, r) \<Rightarrow> l)"

definition groups_of :: "string \<Rightarrow> string list" where
  "groups_of s = (if s = [] then [] else split_char CHR '':'' s)"

definition expandV6 :: "string \<Rightarrow> string list option" where
  "expandV6 ipRaw =
     Option.bind (rewrite_quad (clean_address ipRaw)) (\<lambda>cleaned.
       let (head, tail) = (case split_dcolon cleaned of
             Some (l, r) \<Rightarrow> (groups_of l, groups_of (before_dcolon r))
           | None \<Rightarrow> (split_char CHR '':'' cleaned, []))
       in if 8 < length head + length tail then None
          else Some (map (\<lambda>g. hex_string (parseInt16 g)) (head @ replicate (8 - length head - length tail) ''0'' @ tail)))"

definition rem_mask :: "nat \<Rightarrow> 32 word" where
  "rem_mask remBits = push_bit (16 - remBits) 0xffff AND 0xffff"

definition v6InCidr :: "string \<Rightarrow> string \<times> nat \<Rightarrow> bool" where
  "v6InCidr ip cidr =
     (case (expandV6 ip, expandV6 (fst cidr)) of
        (Some expanded, Some prefixGroups) \<Rightarrow>
          (let fullGroups = snd cidr div 16; remBits = snd cidr mod 16
           in take fullGroups expanded = take fullGroups prefixGroups \<and>
              (remBits = 0 \<or>
               to_word (parseInt16 (expanded ! fullGroups)) AND rem_mask remBits =
               to_word (parseInt16 (prefixGroups ! fullGroups)) AND rem_mask remBits))
      | _ \<Rightarrow> False)"

definition v6Blocked :: "(string \<times> nat) list" where
  "v6Blocked =
     [(''::1'', 128), (''::'', 128), (''::ffff:0:0'', 96), (''fe80::'', 10), (''fc00::'', 7), (''ff00::'', 8), (''64:ff9b::'', 96), (''2002::'', 16)]"

section \<open>Blocked addresses\<close>

text \<open>The dotted quad of the last two groups of an IPv4-mapped address; it is checked like one that came in as text.\<close>

definition low_octets :: "jsnum \<Rightarrow> string" where
  "low_octets n = string_of_nat (unat (drop_bit 8 (to_word n) AND 0xff)) @ ''.'' @ string_of_nat (unat (to_word n AND 0xff))"

definition embedded_quad :: "string list \<Rightarrow> string" where
  "embedded_quad expanded = low_octets (parseInt16 (expanded ! 6)) @ ''.'' @ low_octets (parseInt16 (expanded ! 7))"

definition isBlockedV6 :: "string \<Rightarrow> bool" where
  "isBlockedV6 ip =
     (list_ex (v6InCidr ip) v6Blocked \<or>
      (case expandV6 ip of
         None \<Rightarrow> False
       | Some expanded \<Rightarrow> list_all (\<lambda>g. g = ''0'') (take 5 expanded) \<and> expanded ! 5 = ''ffff'' \<and> isBlockedV4 (embedded_quad expanded)))"

definition isPrivateOrReservedAddress :: "string \<Rightarrow> bool" where
  "isPrivateOrReservedAddress address =
     (let ip = clean_address address in if isV6 ip then isBlockedV6 ip else isBlockedV4 ip)"

section \<open>The guard\<close>

record ParsedUrl =
  url_protocol :: string
  url_hostname :: string

text \<open>\<open>Inl\<close>: an \<open>EgressBlockedError\<close> with its message.\<close>

definition assertEgressAllowed ::
    "(string \<Rightarrow> ParsedUrl option) \<Rightarrow> (string \<Rightarrow> exn + string list) \<Rightarrow> env \<Rightarrow> string \<Rightarrow> exn + unit" where
  "assertEgressAllowed parseUrl lookup e rawUrl =
     (if egressPolicy e = Allow_all then Inr ()
      else case parseUrl rawUrl of
        None \<Rightarrow> Inl (''EGRESS_BLOCKED: target is not a valid URL: '' @ rawUrl)
      | Some parsed \<Rightarrow>
          (if url_protocol parsed \<noteq> ''http:'' \<and> url_protocol parsed \<noteq> ''https:''
           then Inl (''EGRESS_BLOCKED: only http/https targets are allowed, got '' @ url_protocol parsed)
           else
             (let host = strip_brackets (toLowerCase (url_hostname parsed)) in
              if host \<in> set (egressAllowedHosts e) then Inr ()
              else case lookup host of
                Inl err \<Rightarrow> Inl (''EGRESS_BLOCKED: DNS resolution failed for '' @ host @ '' ('' @ err @ '')'')
              | Inr addresses \<Rightarrow>
                  (if addresses = [] then Inl (''EGRESS_BLOCKED: no addresses resolved for '' @ host)
                   else case find isPrivateOrReservedAddress addresses of
                     Some a \<Rightarrow> Inl (''EGRESS_BLOCKED: '' @ host @ '' resolves to a private/reserved address ('' @ a @ '') '' @ mdash @
                                    '' add it to ZEUS_EGRESS_ALLOWED_HOSTS if this destination is an approved exception'')
                   | None \<Rightarrow> Inr ()))))"

definition DEFAULT_EGRESS_TIMEOUT_MS :: int where
  "DEFAULT_EGRESS_TIMEOUT_MS = 15000"

text \<open>What is handed to \<open>fetch\<close>: the caller's options, the abort signals it ends on, and the redirect mode.\<close>

datatype abort_signal = Caller_signal string | Timeout_signal int

record 'i FetchCall =
  fe_url :: string
  fe_init :: 'i
  fe_signals :: "abort_signal list"
  fe_redirect :: string

definition egressFetch ::
    "(string \<Rightarrow> ParsedUrl option) \<Rightarrow> (string \<Rightarrow> exn + string list) \<Rightarrow> ('i FetchCall \<Rightarrow> exn + 'r) \<Rightarrow> env \<Rightarrow> string \<Rightarrow> 'i \<Rightarrow>
     string option \<Rightarrow> exn + 'r" where
  "egressFetch parseUrl lookup fetch e url init callerSignal =
     (case assertEgressAllowed parseUrl lookup e url of
        Inl err \<Rightarrow> Inl err
      | Inr _ \<Rightarrow> fetch \<lparr>fe_url = url, fe_init = init,
          fe_signals = (case callerSignal of None \<Rightarrow> [] | Some s \<Rightarrow> [Caller_signal s]) @ [Timeout_signal DEFAULT_EGRESS_TIMEOUT_MS],
          fe_redirect = ''error''\<rparr>)"

section \<open>Version 4 in numbers\<close>

text \<open>Equality under a prefix mask is equality of the leading bits.\<close>

lemma masked_eq: "x AND cidr_mask bits = y AND cidr_mask bits \<longleftrightarrow> unat x div 2 ^ (32 - bits) = unat y div 2 ^ (32 - bits)"
  if "0 < bits" "bits \<le> 32"
proof -
  let ?k = "32 - bits"
  have ones: "(0xffffffff :: 32 word) = - 1" by simp
  have m: "cidr_mask bits = push_bit ?k (- 1)" using that unfolding cidr_mask_def ones by simp
  have "x AND cidr_mask bits = y AND cidr_mask bits \<longleftrightarrow> drop_bit ?k x = drop_bit ?k y"
  proof -
    have a: "z AND push_bit ?k (- 1) = push_bit ?k (drop_bit ?k z)" for z :: "32 word"
      by (rule bit_eqI) (auto simp: bit_simps)
    have b: "drop_bit ?k (push_bit ?k (drop_bit ?k z)) = drop_bit ?k z" for z :: "32 word"
      by (rule bit_eqI) (auto simp: bit_simps dest: bit_imp_le_length)
    show ?thesis unfolding m a using b by metis
  qed
  also have "\<dots> \<longleftrightarrow> unat (drop_bit ?k x) = unat (drop_bit ?k y)" by (rule word_unat_eq_iff)
  finally show ?thesis unfolding unat_drop_bit_eq unfolding drop_bit_eq_div .
qed

lemma shift_in:
  assumes "unat acc < 2 ^ 24" "n < 256"
  shows "unat (push_bit 8 acc OR (to_word (Some (int n)) AND 0xff)) = unat acc * 256 + n"
proof -
  have ff: "(0xff :: 32 word) = mask 8" by (simp add: mask_numeral)
  have n: "to_word (Some (int n)) AND 0xff = word_of_nat n"
    using assms(2) by (simp add: to_word_def ff flip: take_bit_eq_mask) (simp add: take_bit_nat_eq_self flip: of_nat_take_bit)
  have "push_bit 8 acc OR (word_of_nat n :: 32 word) = push_bit 8 acc + word_of_nat n"
  proof (rule disjunctive_add [symmetric])
    fix i
    show "\<not> bit (push_bit 8 acc) i \<or> \<not> bit (word_of_nat n :: 32 word) i"
      using assms(2) bit_take_bit_iff [of 8 n i] take_bit_nat_eq_self [of n 8] by (auto simp: bit_simps)
  qed
  moreover have "unat (push_bit 8 acc) = unat acc * 256"
    using assms(1) by (simp only: unsigned_push_bit_eq) (simp add: push_bit_eq_mult take_bit_nat_eq_self)
  moreover have "unat (word_of_nat n :: 32 word) = n"
    using assms(2) by (simp add: unat_of_nat)
  ultimately show ?thesis
    unfolding n using assms by (simp add: unat_word_ariths)
qed

definition quad :: "nat \<Rightarrow> nat \<Rightarrow> nat \<Rightarrow> nat \<Rightarrow> string" where
  "quad a b c d = join_with ''.'' (map string_of_nat [a, b, c, d])"

definition quad_value :: "nat \<Rightarrow> nat \<Rightarrow> nat \<Rightarrow> nat \<Rightarrow> nat" where
  "quad_value a b c d = ((a * 256 + b) * 256 + c) * 256 + d"

lemma nat_text_plain: "CHR ''.'' \<notin> set (string_of_nat n)" "CHR '':'' \<notin> set (string_of_nat n)"
  using string_of_nat_digits [of _ n] by (force simp: digit_char_def digit_value_def char_code_def)+

lemma BigInt_nat_text [simp]: "BigInt (string_of_nat n) = Some (int n)"
proof -
  have d: "digit_char c" if "c \<in> set (string_of_nat n)" for c using that by (rule string_of_nat_digits)
  then have nb: "\<not> is_blank c" if "c \<in> set (string_of_nat n)" for c
    using that by (force simp: digit_char_def digit_value_def is_blank_def Let_def split: if_splits)
  have "dropWhile is_blank (string_of_nat n) = string_of_nat n" "dropWhile is_blank (rev (string_of_nat n)) = rev (string_of_nat n)"
    unfolding dropWhile_eq_self_iff using nb [of "hd (string_of_nat n)"] nb [of "last (string_of_nat n)"] by (simp_all add: hd_rev)
  then have t: "trim (string_of_nat n) = string_of_nat n" by (simp add: trim_def)
  have x: "CHR ''x'' \<notin> set (string_of_nat n)" "CHR ''X'' \<notin> set (string_of_nat n)"
    using d by (force simp: digit_char_def digit_value_def char_code_def)+
  have h: "hd (string_of_nat n) \<notin> {CHR ''-'', CHR ''+''}"
    using d [of "hd (string_of_nat n)"] by (auto simp: digit_char_def digit_value_def char_code_def)
  have p: "\<not> starts_with [c, c'] (string_of_nat n)" if "c' \<notin> set (string_of_nat n)" for c c'
    using that in_set_takeD [of c' 2 "string_of_nat n"] by (auto simp: starts_with_def numeral_2_eq_2)
  show ?thesis using h p [OF x(1)] p [OF x(2)] by (simp add: BigInt_def t read_string_of_nat)
qed

lemma toInt_quad:
  assumes "a < 256" "b < 256" "c < 256" "d < 256"
  shows "unat (toInt (quad a b c d)) = quad_value a b c d"
proof -
  have s: "split_char CHR ''.'' (quad a b c d) = map string_of_nat [a, b, c, d]"
    unfolding quad_def by (rule split_join) (auto simp: nat_text_plain)
  have step: "unat (push_bit 8 acc OR (to_word (js_Number (string_of_nat n)) AND 0xff)) = unat acc * 256 + n"
    if "unat acc < 2 ^ 24" "n < 256" for acc n
    using shift_in [OF that] by (simp add: js_Number_def)
  have 1: "unat (push_bit 8 0 OR (to_word (js_Number (string_of_nat a)) AND 0xff)) = a"
    using step [of 0 a] assms(1) by simp
  have 2: "unat (push_bit 8 x OR (to_word (js_Number (string_of_nat b)) AND 0xff)) = a * 256 + b" if "unat x = a" for x
    using step [of x b] that assms by simp
  have 3: "unat (push_bit 8 x OR (to_word (js_Number (string_of_nat c)) AND 0xff)) = (a * 256 + b) * 256 + c"
    if "unat x = a * 256 + b" for x
    using step [of x c] that assms by simp
  have 4: "unat (push_bit 8 x OR (to_word (js_Number (string_of_nat d)) AND 0xff)) = quad_value a b c d"
    if "unat x = (a * 256 + b) * 256 + c" for x
    using step [of x d] that assms by (simp add: quad_value_def)
  show ?thesis
    unfolding toInt_def s list.map foldl.simps by (rule 4, rule 3, rule 2, rule 1)
qed

lemma clean_quad [simp]: "clean_address (quad a b c d) = quad a b c d" "isV6 (quad a b c d) = False"
proof -
  have d: "digit_char x \<or> x = CHR ''.''" if "x \<in> set (quad a b c d)" for x
    using that string_of_nat_digits by (fastforce simp: quad_def)
  have c: "CHR ''['' \<notin> set (quad a b c d)" "CHR '']'' \<notin> set (quad a b c d)" "CHR 0x25 \<notin> set (quad a b c d)" "CHR '':'' \<notin> set (quad a b c d)"
    using d by (force simp: digit_char_def digit_value_def char_code_def)+
  have "hd (quad a b c d) \<noteq> CHR ''[''" "last (quad a b c d) \<noteq> CHR '']''" if "quad a b c d \<noteq> []"
    using c(1,2) hd_in_set [OF that] last_in_set [OF that] by metis+
  then have "strip_brackets (quad a b c d) = quad a b c d" by (auto simp: strip_brackets_def Let_def)
  with c(3) show "clean_address (quad a b c d) = quad a b c d" by (simp add: clean_address_def split_char_no)
  from c(4) show "isV6 (quad a b c d) = False" by (simp add: isV6_def)
qed

lemma in_cidr:
  assumes "a < 256" "b < 256" "c < 256" "d < 256" "a' < 256" "b' < 256" "c' < 256" "d' < 256" "0 < bits" "bits \<le> 32"
  shows "ipv4InCidr (quad a b c d) (quad a' b' c' d', bits) \<longleftrightarrow> quad_value a b c d div 2 ^ (32 - bits) = quad_value a' b' c' d' div 2 ^ (32 - bits)"
  using assms by (simp add: ipv4InCidr_def masked_eq toInt_quad)

lemma quad_value_parts:
  assumes "a < 256" "b < 256" "c < 256" "d < 256"
  shows "quad_value a b c d div 16777216 = a" "quad_value a b c d div 65536 = a * 256 + b" "quad_value a b c d div 256 = (a * 256 + b) * 256 + c"
    "quad_value a b c d div 4194304 = (a * 256 + b) div 64" "quad_value a b c d div 1048576 = (a * 256 + b) div 16"
    "quad_value a b c d div 131072 = (a * 256 + b) div 2" "quad_value a b c d div 268435456 = a div 16"
proof -
  have d: "quad_value a b c d div 256 = (a * 256 + b) * 256 + c" using assms by (simp add: quad_value_def)
  have c: "quad_value a b c d div 65536 = a * 256 + b"
    using assms div_mult2_eq [of "quad_value a b c d" 256 256] by (simp add: d)
  have b: "quad_value a b c d div 16777216 = a"
    using assms div_mult2_eq [of "quad_value a b c d" 65536 256] by (simp add: c)
  show "quad_value a b c d div 16777216 = a" "quad_value a b c d div 65536 = a * 256 + b" "quad_value a b c d div 256 = (a * 256 + b) * 256 + c"
    by (rule b, rule c, rule d)
  show "quad_value a b c d div 4194304 = (a * 256 + b) div 64" using div_mult2_eq [of "quad_value a b c d" 65536 64] by (simp add: c)
  show "quad_value a b c d div 1048576 = (a * 256 + b) div 16" using div_mult2_eq [of "quad_value a b c d" 65536 16] by (simp add: c)
  show "quad_value a b c d div 131072 = (a * 256 + b) div 2" using div_mult2_eq [of "quad_value a b c d" 65536 2] by (simp add: c)
  show "quad_value a b c d div 268435456 = a div 16" using div_mult2_eq [of "quad_value a b c d" 16777216 16] by (simp add: b)
qed

lemma blocked_list_quads:
  "v4Blocked = [(quad 0 0 0 0, 8), (quad 10 0 0 0, 8), (quad 100 64 0 0, 10), (quad 127 0 0 0, 8), (quad 169 254 0 0, 16), (quad 172 16 0 0, 12),
     (quad 192 0 0 0, 24), (quad 192 0 2 0, 24), (quad 192 168 0 0, 16), (quad 198 18 0 0, 15), (quad 198 51 100 0, 24),
     (quad 203 0 113 0, 24), (quad 224 0 0 0, 4), (quad 240 0 0 0, 4)]"
  by code_simp

lemma base_256: "b < 256 \<Longrightarrow> b' < 256 \<Longrightarrow> a * 256 + b = a' * 256 + b' \<longleftrightarrow> a = a' \<and> b = b'" for a b a' b' :: nat
proof -
  assume b: "b < 256" "b' < 256"
  have "a = a'" if "a * 256 + b = a' * 256 + b'"
  proof -
    from that have "(a * 256 + b) div 256 = (a' * 256 + b') div 256" by (rule arg_cong)
    with b show ?thesis by simp
  qed
  then show ?thesis by auto
qed

lemma div_eq_range: "0 < m \<Longrightarrow> n div m = q \<longleftrightarrow> q * m \<le> n \<and> n < Suc q * m" for n m q :: nat
  using less_eq_div_iff_mult_less_eq [of m q n] div_less_iff_less_mult [of m n "Suc q"] by linarith

lemma leading_octet:
  assumes "b < 256" "lo < 256" "hi \<le> 256" "x * 256 + lo = l" "x * 256 + hi = h"
  shows "l \<le> a * 256 + b \<and> a * 256 + b < h \<longleftrightarrow> a = x \<and> lo \<le> b \<and> b < (hi :: nat)"
proof -
  consider "a < x" | "a = x" | "x < a" by linarith
  then show ?thesis
  proof cases
    case 1
    then have "Suc a * 256 \<le> x * 256" by simp
    with 1 assms show ?thesis by simp
  next
    case 3
    then have "Suc x * 256 \<le> a * 256" by simp
    with 3 assms show ?thesis by simp
  qed (use assms in auto)
qed

lemma prefix_10: "b < 256 \<Longrightarrow> (a * 256 + b) div 64 = 401 \<longleftrightarrow> a = 100 \<and> 64 \<le> b \<and> b < 128" for a b :: nat
  using leading_octet [of b 64 128 100 25664 25728 a] by (simp add: div_eq_range)

lemma prefix_12: "b < 256 \<Longrightarrow> (a * 256 + b) div 16 = 2753 \<longleftrightarrow> a = 172 \<and> 16 \<le> b \<and> b < 32" for a b :: nat
  using leading_octet [of b 16 32 172 44048 44064 a] by (simp add: div_eq_range)

lemma prefix_15: "b < 256 \<Longrightarrow> (a * 256 + b) div 2 = 25353 \<longleftrightarrow> a = 198 \<and> 18 \<le> b \<and> b < 20" for a b :: nat
  using leading_octet [of b 18 20 198 50706 50708 a] by (simp add: div_eq_range)

lemma prefix_4: "a < 256 \<Longrightarrow> a div 16 = 14 \<or> a div 16 = 15 \<longleftrightarrow> 224 \<le> a" for a :: nat
  by (simp add: div_eq_range) linarith

lemma cidr_octets:
  assumes "a < 256" "b < 256" "c < 256" "d < 256" "x < 256" "y < 256" "z < 256"
  shows "ipv4InCidr (quad a b c d) (quad x 0 0 0, 8) \<longleftrightarrow> a = x"
    and "ipv4InCidr (quad a b c d) (quad x y 0 0, 16) \<longleftrightarrow> a = x \<and> b = y"
    and "ipv4InCidr (quad a b c d) (quad x y z 0, 24) \<longleftrightarrow> a = x \<and> b = y \<and> c = z"
proof -
  show "ipv4InCidr (quad a b c d) (quad x 0 0 0, 8) \<longleftrightarrow> a = x" "ipv4InCidr (quad a b c d) (quad x y 0 0, 16) \<longleftrightarrow> a = x \<and> b = y"
    using assms by (simp_all add: in_cidr quad_value_parts base_256)
  have "ipv4InCidr (quad a b c d) (quad x y z 0, 24) \<longleftrightarrow> (a * 256 + b) * 256 + c = (x * 256 + y) * 256 + z"
    using assms by (simp add: in_cidr quad_value_parts)
  also have "\<dots> \<longleftrightarrow> a = x \<and> b = y \<and> c = z"
    using assms base_256 [of c z "a * 256 + b" "x * 256 + y"] base_256 [of b y a x] by blast
  finally show "ipv4InCidr (quad a b c d) (quad x y z 0, 24) \<longleftrightarrow> a = x \<and> b = y \<and> c = z" .
qed

lemma cidr_bits:
  assumes "a < 256" "b < 256" "c < 256" "d < 256"
  shows "ipv4InCidr (quad a b c d) (quad 100 64 0 0, 10) \<longleftrightarrow> a = 100 \<and> 64 \<le> b \<and> b < 128"
    and "ipv4InCidr (quad a b c d) (quad 172 16 0 0, 12) \<longleftrightarrow> a = 172 \<and> 16 \<le> b \<and> b < 32"
    and "ipv4InCidr (quad a b c d) (quad 198 18 0 0, 15) \<longleftrightarrow> a = 198 \<and> 18 \<le> b \<and> b < 20"
    and "ipv4InCidr (quad a b c d) (quad 224 0 0 0, 4) \<longleftrightarrow> a div 16 = 14"
    and "ipv4InCidr (quad a b c d) (quad 240 0 0 0, 4) \<longleftrightarrow> a div 16 = 15"
  using assms by (simp_all add: in_cidr quad_value_parts prefix_10 prefix_12 prefix_15)

text \<open>
  Property C37. Of all 2^32 addresses in dotted notation exactly those of the documented private and reserved
  ranges are blocked, octet by octet; the 32-bit mask arithmetic agrees with the ranges as numbers.
\<close>
theorem blocked_v4_addresses:
  assumes "a < 256" "b < 256" "c < 256" "d < 256"
  shows "isPrivateOrReservedAddress (quad a b c d) \<longleftrightarrow>
    a = 0 \<or> a = 10 \<or> a = 100 \<and> 64 \<le> b \<and> b < 128 \<or> a = 127 \<or> a = 169 \<and> b = 254 \<or> a = 172 \<and> 16 \<le> b \<and> b < 32 \<or>
    a = 192 \<and> b = 0 \<and> (c = 0 \<or> c = 2) \<or> a = 192 \<and> b = 168 \<or> a = 198 \<and> (b = 18 \<or> b = 19) \<or> a = 198 \<and> b = 51 \<and> c = 100 \<or>
    a = 203 \<and> b = 0 \<and> c = 113 \<or> 224 \<le> a"
proof -
  have m: "isBlockedV4 (quad a b c d) \<longleftrightarrow>
      a = 0 \<or> a = 10 \<or> a = 100 \<and> 64 \<le> b \<and> b < 128 \<or> a = 127 \<or> a = 169 \<and> b = 254 \<or> a = 172 \<and> 16 \<le> b \<and> b < 32 \<or>
      a = 192 \<and> b = 0 \<and> c = 0 \<or> a = 192 \<and> b = 0 \<and> c = 2 \<or> a = 192 \<and> b = 168 \<or> a = 198 \<and> 18 \<le> b \<and> b < 20 \<or>
      a = 198 \<and> b = 51 \<and> c = 100 \<or> a = 203 \<and> b = 0 \<and> c = 113 \<or> a div 16 = 14 \<or> a div 16 = 15"
    unfolding isBlockedV4_def blocked_list_quads using assms
    by (simp add: cidr_octets cidr_bits)
  have n: "18 \<le> b \<and> b < 20 \<longleftrightarrow> b = 18 \<or> b = 19" by linarith
  have e: "isPrivateOrReservedAddress (quad a b c d) = isBlockedV4 (quad a b c d)" by (simp add: isPrivateOrReservedAddress_def)
  show ?thesis unfolding e m n prefix_4 [OF assms(1)] by (simp only: conj_disj_distribL disj_assoc)
qed

lemma blocked_v4_addresses_witness:
  "isPrivateOrReservedAddress (quad 172 31 0 9) \<and> \<not> isPrivateOrReservedAddress (quad 172 32 0 9)"
  using blocked_v4_addresses [of 172 31 0 9] blocked_v4_addresses [of 172 32 0 9] by simp

section \<open>Version 6 in numbers\<close>

text \<open>Eight groups as text: in full, or with a run of zero groups left out.\<close>

definition colon_text :: "nat list \<Rightarrow> string" where
  "colon_text gs = join_with '':'' (map hex_of_nat gs)"

definition v6_text :: "nat list \<Rightarrow> string \<Rightarrow> bool" where
  "v6_text gs t \<longleftrightarrow> length gs = 8 \<and> (\<forall>g \<in> set gs. g < 65536) \<and>
     (t = colon_text gs \<or> (\<exists>l n r. gs = l @ replicate n 0 @ r \<and> t = colon_text l @ ''::'' @ colon_text r))"

lemma hex_text_char: "c \<in> set (hex_of_nat n) \<Longrightarrow> is_hex c \<and> c \<notin> {CHR '':'', CHR ''.'', CHR ''['', CHR '']'', CHR 0x25}"
  using hex_of_nat_hex [of c n] by (auto simp: is_hex_def hex_value_def char_code_def)

lemma colon_text_char: "c \<in> set (colon_text gs) \<Longrightarrow> is_hex c \<or> c = CHR '':''"
  unfolding colon_text_def
  by (induction gs rule: induct_list012) (auto dest: hex_text_char)

lemma parse_hex_text [simp]: "parseInt16 (hex_of_nat n) = Some (int n)"
proof -
  have tw: "takeWhile is_hex (hex_of_nat n) = hex_of_nat n"
    unfolding takeWhile_eq_all_conv using hex_of_nat_hex by blast
  obtain c cs where h: "hex_of_nat n = c # cs" using hex_of_nat_nonempty [of n] by (cases "hex_of_nat n") auto
  then have c: "is_hex c" using hex_of_nat_hex [of c n] by simp
  have x: "\<not> starts_with [a, b] (c # cs)" if "b \<in> {CHR ''x'', CHR ''X''}" for a b
    using that hex_of_nat_hex [of b n] h by (cases cs) (auto simp: starts_with_def is_hex_def hex_value_def char_code_def)
  have "\<not> is_blank c" "c \<noteq> CHR ''-''" "c \<noteq> CHR ''+''"
    using c by (auto simp: is_hex_def hex_value_def is_blank_def char_code_def Let_def split: if_splits)
  then show ?thesis
    using tw x read_hex_of_nat [of n] by (simp add: parseInt16_def parse_hex_digits_def h Let_def)
qed

lemma hex_of_nat_inj [simp]: "hex_of_nat a = hex_of_nat b \<longleftrightarrow> a = b"
  using parse_hex_text by (metis of_nat_eq_iff option.inject)

lemma hex_string_nat [simp]: "hex_string (Some (int n)) = hex_of_nat n"
  by (simp add: hex_string_def)

text \<open>The groups are read back from either text.\<close>

lemma split_colon_text: "gs \<noteq> [] \<Longrightarrow> split_char CHR '':'' (colon_text gs) = map hex_of_nat gs"
  unfolding colon_text_def by (rule split_join) (auto dest: hex_text_char)

lemma colon_text_Nil [simp]: "colon_text [] = []"
  by (simp add: colon_text_def)

lemma colon_text_Cons: "colon_text (g # gs) = hex_of_nat g @ (if gs = [] then [] else CHR '':'' # colon_text gs)"
  by (cases gs) (simp_all add: colon_text_def)

lemma colon_text_empty [simp]: "colon_text gs = [] \<longleftrightarrow> gs = []"
  by (cases gs) (simp_all add: colon_text_Cons)

lemma groups_colon_text [simp]: "groups_of (colon_text gs) = map hex_of_nat gs"
  by (cases "gs = []") (simp_all add: groups_of_def split_colon_text)

text \<open>No \<open>::\<close> inside the text of groups.\<close>

lemma split_dcolon_plain: "CHR '':'' \<notin> set x \<Longrightarrow> split_dcolon (x @ y) = map_option (\<lambda>(l, r). (x @ l, r)) (split_dcolon y)"
proof (induction x)
  case (Cons c x)
  then show ?case
    by (cases "x @ y") (auto simp: option.map_comp comp_def case_prod_unfold split: prod.split)
qed (simp add: case_prod_unfold option.map_ident)

lemma hex_text_head: "\<exists>c cs. hex_of_nat n = c # cs \<and> c \<noteq> CHR '':''"
  using hex_text_char [of "hd (hex_of_nat n)" n] by (cases "hex_of_nat n") auto

lemma hex_text_no_colon: "CHR '':'' \<notin> set (hex_of_nat n)"
  using hex_text_char [of "CHR '':''" n] by auto

lemma split_dcolon_colon: "gs \<noteq> [] \<Longrightarrow> split_dcolon (CHR '':'' # colon_text gs @ t) = map_option (\<lambda>(l, r). (CHR '':'' # l, r)) (split_dcolon (colon_text gs @ t))"
  using hex_text_head [of "hd gs"] by (cases gs) (auto simp: colon_text_Cons)

lemma split_dcolon_full [simp]: "split_dcolon (colon_text gs) = None"
proof (induction gs)
  case (Cons g gs)
  then show ?case using split_dcolon_colon [of gs "[]"]
    by (auto simp: colon_text_Cons split_dcolon_plain hex_text_no_colon)
qed simp

lemma split_dcolon_short [simp]: "split_dcolon (colon_text l @ CHR '':'' # CHR '':'' # t) = Some (colon_text l, t)"
proof (induction l)
  case (Cons g gs)
  then show ?case using split_dcolon_colon [of gs "CHR '':'' # CHR '':'' # t"]
    by (auto simp: colon_text_Cons split_dcolon_plain hex_text_no_colon)
qed simp

lemma v6_text_char: "v6_text gs t \<Longrightarrow> c \<in> set t \<Longrightarrow> is_hex c \<or> c = CHR '':''"
  by (auto simp: v6_text_def dest: colon_text_char)

lemma v6_text_clean: "v6_text gs t \<Longrightarrow> clean_address t = t"
proof -
  assume t: "v6_text gs t"
  have c: "CHR ''['' \<notin> set t" "CHR '']'' \<notin> set t" "CHR 0x25 \<notin> set t"
    using v6_text_char [OF t] by (force simp: is_hex_def hex_value_def char_code_def)+
  have "hd t \<noteq> CHR ''[''" "last t \<noteq> CHR '']''" if "t \<noteq> []"
    using c(1,2) hd_in_set [OF that] last_in_set [OF that] by metis+
  then have "strip_brackets t = t" by (auto simp: strip_brackets_def Let_def)
  with c(3) show ?thesis by (simp add: clean_address_def split_char_no)
qed

lemma v6_text_isV6: "v6_text gs t \<Longrightarrow> isV6 t"
proof -
  assume "v6_text gs t"
  moreover have "CHR '':'' \<in> set (colon_text gs)" if "length gs = 8"
    using that by (cases gs; cases "tl gs") (auto simp: colon_text_Cons)
  ultimately show ?thesis by (auto simp: v6_text_def isV6_def)
qed

lemma v6_text_no_quad: "v6_text gs t \<Longrightarrow> rewrite_quad t = Some t"
proof -
  assume t: "v6_text gs t"
  have "CHR ''.'' \<notin> set t" using v6_text_char [OF t] by (force simp: is_hex_def hex_value_def char_code_def)
  then have "CHR ''.'' \<notin> set (rev (takeWhile (\<lambda>c. c \<noteq> CHR '':'') (rev t)))" by (auto dest: set_takeWhileD)
  then have "embeddedV4 t = None" by (simp add: embeddedV4_def split_char_no)
  then show ?thesis by (simp add: rewrite_quad_def)
qed

lemma expand_v6_text: "v6_text gs t \<Longrightarrow> expandV6 t = Some (map hex_of_nat gs)"
proof -
  assume t: "v6_text gs t"
  have z: "hex_string (parseInt16 ''0'') = hex_of_nat 0" by code_simp
  from t consider "gs \<noteq> []" "length gs = 8" "t = colon_text gs"
    | l n r where "gs = l @ replicate n 0 @ r" "length gs = 8" "t = colon_text l @ ''::'' @ colon_text r"
    by (fastforce simp: v6_text_def)
  then show ?thesis
  proof cases
    case 1
    with t show ?thesis by (simp add: expandV6_def v6_text_clean v6_text_no_quad split_colon_text)
  next
    case 2
    then have "8 - length l - length r = n" "length l + length r \<le> 8" by auto
    with 2 t z show ?thesis
      by (simp add: expandV6_def v6_text_clean v6_text_no_quad before_dcolon_def)
  qed
qed

lemma rem_masked_eq:
  assumes "m < 65536" "n < 65536" "r \<le> 16"
  shows "to_word (Some (int m)) AND rem_mask r = to_word (Some (int n)) AND rem_mask r \<longleftrightarrow> m div 2 ^ (16 - r) = n div 2 ^ (16 - r)"
proof -
  let ?k = "16 - r"
  have ffff: "(0xffff :: 32 word) = mask 16" by (simp add: mask_numeral)
  have w: "to_word (Some (int x)) = word_of_nat x" for x by (simp add: to_word_def)
  have a: "word_of_nat x AND rem_mask r = push_bit ?k (drop_bit ?k (word_of_nat x :: 32 word))" if "x < 65536" for x
  proof (rule bit_eqI)
    fix i
    have "bit x i \<Longrightarrow> i < 16"
      using that bit_take_bit_iff [of 16 x i] take_bit_nat_eq_self [of x 16] by simp
    then show "bit (word_of_nat x AND rem_mask r) i \<longleftrightarrow> bit (push_bit ?k (drop_bit ?k (word_of_nat x :: 32 word))) i"
      unfolding rem_mask_def ffff by (auto simp: bit_simps)
  qed
  have b: "drop_bit ?k (push_bit ?k (drop_bit ?k z)) = drop_bit ?k z" for z :: "32 word"
    by (rule bit_eqI) (auto simp: bit_simps dest: bit_imp_le_length)
  have u: "unat (drop_bit ?k (word_of_nat x :: 32 word)) = x div 2 ^ ?k" if "x < 65536" for x
    using that unfolding unat_drop_bit_eq unfolding drop_bit_eq_div by (simp add: unat_of_nat)
  have "word_of_nat m AND rem_mask r = word_of_nat n AND rem_mask r \<longleftrightarrow> drop_bit ?k (word_of_nat m :: 32 word) = drop_bit ?k (word_of_nat n)"
    unfolding a [OF assms(1)] a [OF assms(2)] using b by metis
  also have "\<dots> \<longleftrightarrow> m div 2 ^ ?k = n div 2 ^ ?k"
    unfolding word_unat_eq_iff u [OF assms(1)] u [OF assms(2)] ..
  finally show ?thesis unfolding w .
qed

lemma v6InCidr_groups:
  assumes "v6_text gs t" "expandV6 p = Some (map hex_of_nat ps)" "\<forall>g \<in> set ps. g < 65536" "length ps = 8" "bits < 128 \<or> bits mod 16 = 0"
  shows "v6InCidr t (p, bits) \<longleftrightarrow> take (bits div 16) gs = take (bits div 16) ps \<and>
    (bits mod 16 = 0 \<or> gs ! (bits div 16) div 2 ^ (16 - bits mod 16) = ps ! (bits div 16) div 2 ^ (16 - bits mod 16))"
proof -
  have t: "length gs = 8" "\<forall>g \<in> set gs. g < 65536" using assms(1) by (auto simp: v6_text_def)
  have take: "take k (map hex_of_nat gs) = take k (map hex_of_nat ps) \<longleftrightarrow> take k gs = take k ps" for k
    using inj_map_eq_map [of hex_of_nat "take k gs" "take k ps"] by (simp add: take_map inj_def)
  show ?thesis
  proof (cases "bits mod 16 = 0")
    case False
    then have b: "bits div 16 < 8" using assms(5) by auto
    then have "gs ! (bits div 16) < 65536" "ps ! (bits div 16) < 65536"
      using t assms(3,4) nth_mem [of "bits div 16" gs] nth_mem [of "bits div 16" ps] by auto
    from rem_masked_eq [OF this, of "bits mod 16"] False b t(1) assms(4) show ?thesis
      by (simp add: v6InCidr_def expand_v6_text [OF assms(1)] assms(2) take Let_def less_imp_le)
  qed (simp add: v6InCidr_def expand_v6_text [OF assms(1)] assms(2) take Let_def)
qed

lemma hex_literals:
  "hex_of_nat 0 = ''0''" "hex_of_nat (Suc 0) = ''1''" "hex_of_nat 65535 = ''ffff''" "hex_of_nat 65152 = ''fe80''"
  "hex_of_nat 64512 = ''fc00''" "hex_of_nat 65280 = ''ff00''" "hex_of_nat 100 = ''64''" "hex_of_nat 65435 = ''ff9b''" "hex_of_nat 8194 = ''2002''"
proof -
  have c: "char_of (48 :: nat) = CHR ''0''" "char_of (49 :: nat) = CHR ''1''" "char_of (50 :: nat) = CHR ''2''" "char_of (52 :: nat) = CHR ''4''"
    "char_of (54 :: nat) = CHR ''6''" "char_of (56 :: nat) = CHR ''8''" "char_of (57 :: nat) = CHR ''9''" "char_of (98 :: nat) = CHR ''b''"
    "char_of (99 :: nat) = CHR ''c''" "char_of (101 :: nat) = CHR ''e''" "char_of (102 :: nat) = CHR ''f''" by code_simp+
  show "hex_of_nat 0 = ''0''" "hex_of_nat (Suc 0) = ''1''" "hex_of_nat 65535 = ''ffff''" "hex_of_nat 65152 = ''fe80''"
    "hex_of_nat 64512 = ''fc00''" "hex_of_nat 65280 = ''ff00''" "hex_of_nat 100 = ''64''" "hex_of_nat 65435 = ''ff9b''" "hex_of_nat 8194 = ''2002''"
    by (simp_all add: hex_of_nat.simps hex_char_def c)
qed

lemma blocked_prefix_groups:
  "expandV6 ''::1'' = Some (map hex_of_nat [0, 0, 0, 0, 0, 0, 0, 1])" "expandV6 ''::'' = Some (map hex_of_nat [0, 0, 0, 0, 0, 0, 0, 0])"
  "expandV6 ''::ffff:0:0'' = Some (map hex_of_nat [0, 0, 0, 0, 0, 65535, 0, 0])" "expandV6 ''fe80::'' = Some (map hex_of_nat [65152, 0, 0, 0, 0, 0, 0, 0])"
  "expandV6 ''fc00::'' = Some (map hex_of_nat [64512, 0, 0, 0, 0, 0, 0, 0])" "expandV6 ''ff00::'' = Some (map hex_of_nat [65280, 0, 0, 0, 0, 0, 0, 0])"
  "expandV6 ''64:ff9b::'' = Some (map hex_of_nat [100, 65435, 0, 0, 0, 0, 0, 0])" "expandV6 ''2002::'' = Some (map hex_of_nat [8194, 0, 0, 0, 0, 0, 0, 0])"
proof -
  have z: "replicate 5 x = [x, x, x, x, x]" "replicate 6 x = [x, x, x, x, x, x]" "replicate 7 x = [x, x, x, x, x, x, x]"
    "replicate 8 x = [x, x, x, x, x, x, x, x]" for x :: nat
    by (simp_all add: numeral_nat)
  have expand: "expandV6 (colon_text l @ ''::'' @ colon_text r) = Some (map hex_of_nat (l @ replicate n 0 @ r))"
    if "length l + n + length r = 8" "\<forall>g \<in> set (l @ r). g < 65536" for l n r
    using that by (intro expand_v6_text) (auto simp: v6_text_def)
  show "expandV6 ''::1'' = Some (map hex_of_nat [0, 0, 0, 0, 0, 0, 0, 1])" "expandV6 ''::'' = Some (map hex_of_nat [0, 0, 0, 0, 0, 0, 0, 0])"
    "expandV6 ''::ffff:0:0'' = Some (map hex_of_nat [0, 0, 0, 0, 0, 65535, 0, 0])" "expandV6 ''fe80::'' = Some (map hex_of_nat [65152, 0, 0, 0, 0, 0, 0, 0])"
    "expandV6 ''fc00::'' = Some (map hex_of_nat [64512, 0, 0, 0, 0, 0, 0, 0])" "expandV6 ''ff00::'' = Some (map hex_of_nat [65280, 0, 0, 0, 0, 0, 0, 0])"
    "expandV6 ''64:ff9b::'' = Some (map hex_of_nat [100, 65435, 0, 0, 0, 0, 0, 0])" "expandV6 ''2002::'' = Some (map hex_of_nat [8194, 0, 0, 0, 0, 0, 0, 0])"
    using expand [of "[]" 7 "[1]"] expand [of "[]" 8 "[]"] expand [of "[]" 5 "[65535, 0, 0]"] expand [of "[65152]" 7 "[]"]
      expand [of "[64512]" 7 "[]"] expand [of "[65280]" 7 "[]"] expand [of "[100, 65435]" 6 "[]"] expand [of "[8194]" 7 "[]"]
    unfolding z by (simp_all add: colon_text_def hex_literals)
qed

text \<open>
  Property C38. An address of version 6, in full or compressed text, is blocked exactly when it is the unspecified
  or the loopback address, IPv4-mapped, link-local (fe80 to febf), unique local (fc00 to fdff), multicast (ff00 and up),
  in the NAT64 prefix or a 6to4 address.
\<close>
theorem blocked_v6_addresses:
  assumes "v6_text [g0, g1, g2, g3, g4, g5, g6, g7] t"
  shows "isPrivateOrReservedAddress t \<longleftrightarrow>
    [g0, g1, g2, g3, g4, g5, g6] = [0, 0, 0, 0, 0, 0, 0] \<and> g7 \<le> 1 \<or> [g0, g1, g2, g3, g4, g5] = [0, 0, 0, 0, 0, 0xffff] \<or>
    0xfe80 \<le> g0 \<and> g0 \<le> 0xfebf \<or> 0xfc00 \<le> g0 \<and> g0 \<le> 0xfdff \<or> 0xff00 \<le> g0 \<or>
    [g0, g1, g2, g3, g4, g5] = [0x64, 0xff9b, 0, 0, 0, 0] \<or> g0 = 0x2002"
proof -
  let ?gs = "[g0, g1, g2, g3, g4, g5, g6, g7]"
  have g: "g0 < 65536" using assms by (simp add: v6_text_def)
  note inC = v6InCidr_groups [OF assms]
  have c: "v6InCidr t (''::1'', 128) \<longleftrightarrow> ?gs = [0, 0, 0, 0, 0, 0, 0, 1]" "v6InCidr t (''::'', 128) \<longleftrightarrow> ?gs = [0, 0, 0, 0, 0, 0, 0, 0]"
    "v6InCidr t (''::ffff:0:0'', 96) \<longleftrightarrow> [g0, g1, g2, g3, g4, g5] = [0, 0, 0, 0, 0, 0xffff]"
    "v6InCidr t (''fe80::'', 10) \<longleftrightarrow> 0xfe80 \<le> g0 \<and> g0 \<le> 0xfebf" "v6InCidr t (''fc00::'', 7) \<longleftrightarrow> 0xfc00 \<le> g0 \<and> g0 \<le> 0xfdff"
    "v6InCidr t (''ff00::'', 8) \<longleftrightarrow> 0xff00 \<le> g0"
    "v6InCidr t (''64:ff9b::'', 96) \<longleftrightarrow> [g0, g1, g2, g3, g4, g5] = [0x64, 0xff9b, 0, 0, 0, 0]" "v6InCidr t (''2002::'', 16) \<longleftrightarrow> g0 = 0x2002"
    using g by (simp_all add: inC [OF blocked_prefix_groups(1)] inC [OF blocked_prefix_groups(2)] inC [OF blocked_prefix_groups(3)]
        inC [OF blocked_prefix_groups(4)] inC [OF blocked_prefix_groups(5)] inC [OF blocked_prefix_groups(6)]
        inC [OF blocked_prefix_groups(7)] inC [OF blocked_prefix_groups(8)] div_eq_range) linarith+
  have "hex_of_nat x = ''0'' \<longleftrightarrow> x = 0" "hex_of_nat x = ''ffff'' \<longleftrightarrow> x = 65535" for x
    using hex_of_nat_inj [of x 0] hex_of_nat_inj [of x 65535] by (simp_all only: hex_literals)
  then have mapped: "list_all (\<lambda>h. h = ''0'') (take 5 (map hex_of_nat ?gs)) \<and> map hex_of_nat ?gs ! 5 = ''ffff'' \<longleftrightarrow>
      [g0, g1, g2, g3, g4, g5] = [0, 0, 0, 0, 0, 0xffff]" by simp
  have "isPrivateOrReservedAddress t = isBlockedV6 t"
    by (simp add: isPrivateOrReservedAddress_def v6_text_clean [OF assms] v6_text_isV6 [OF assms])
  also have "\<dots> = list_ex (v6InCidr t) v6Blocked"
    unfolding isBlockedV6_def expand_v6_text [OF assms] option.case conj_assoc [symmetric] mapped by (simp add: v6Blocked_def c(3)) blast
  also have "\<dots> \<longleftrightarrow> (?gs = [0, 0, 0, 0, 0, 0, 0, 1] \<or> ?gs = [0, 0, 0, 0, 0, 0, 0, 0]) \<or> [g0, g1, g2, g3, g4, g5] = [0, 0, 0, 0, 0, 0xffff] \<or>
      0xfe80 \<le> g0 \<and> g0 \<le> 0xfebf \<or> 0xfc00 \<le> g0 \<and> g0 \<le> 0xfdff \<or> 0xff00 \<le> g0 \<or>
      [g0, g1, g2, g3, g4, g5] = [0x64, 0xff9b, 0, 0, 0, 0] \<or> g0 = 0x2002"
    unfolding v6Blocked_def list_ex_Cons_iff list_ex_Nil_iff c by (simp only: disj_assoc simp_thms)
  also have "(?gs = [0, 0, 0, 0, 0, 0, 0, 1] \<or> ?gs = [0, 0, 0, 0, 0, 0, 0, 0]) \<longleftrightarrow> [g0, g1, g2, g3, g4, g5, g6] = [0, 0, 0, 0, 0, 0, 0] \<and> g7 \<le> 1"
    by auto
  finally show ?thesis .
qed

lemma blocked_v6_addresses_witness:
  "isPrivateOrReservedAddress ''fe80::1'' \<and> \<not> isPrivateOrReservedAddress (colon_text [0x2606, 0x4700, 0, 0, 0, 0, 0, 0x1111])"
proof -
  have "char_of (48 :: nat) = CHR ''0''" "char_of (49 :: nat) = CHR ''1''" "char_of (56 :: nat) = CHR ''8''" "char_of (101 :: nat) = CHR ''e''"
    "char_of (102 :: nat) = CHR ''f''" by code_simp+
  then have h: "colon_text [65152] @ ''::'' @ colon_text [1] = ''fe80::1''"
    by (simp add: colon_text_def hex_of_nat.simps hex_char_def)
  have "replicate 6 (0 :: nat) = [0, 0, 0, 0, 0, 0]" by (simp add: numeral_nat)
  then have "[65152, 0, 0, 0, 0, 0, 0, 1] = [65152] @ replicate 6 0 @ [1 :: nat]" by simp
  then have "v6_text [65152, 0, 0, 0, 0, 0, 0, 1] ''fe80::1''"
    using h unfolding v6_text_def by (intro conjI disjI2 exI [of _ "[65152]"] exI [of _ 6] exI [of _ "[1]"]) simp_all
  moreover have "v6_text [0x2606, 0x4700, 0, 0, 0, 0, 0, 0x1111] (colon_text [0x2606, 0x4700, 0, 0, 0, 0, 0, 0x1111])"
    by (simp add: v6_text_def)
  ultimately show ?thesis by (simp add: blocked_v6_addresses)
qed

section \<open>The guard\<close>

text \<open>A destination the policy admits.\<close>

definition destination_ok :: "(string \<Rightarrow> ParsedUrl option) \<Rightarrow> (string \<Rightarrow> exn + string list) \<Rightarrow> env \<Rightarrow> string \<Rightarrow> bool" where
  "destination_ok parseUrl lookup e url \<longleftrightarrow> egressPolicy e = Allow_all \<or>
     (\<exists>u. parseUrl url = Some u \<and> url_protocol u \<in> {''http:'', ''https:''} \<and>
        (strip_brackets (toLowerCase (url_hostname u)) \<in> set (egressAllowedHosts e) \<or>
         (\<exists>as. lookup (strip_brackets (toLowerCase (url_hostname u))) = Inr as \<and> as \<noteq> [] \<and> (\<forall>a \<in> set as. \<not> isPrivateOrReservedAddress a))))"

lemma assertEgressAllowed_iff: "assertEgressAllowed parseUrl lookup e url = Inr () \<longleftrightarrow> destination_ok parseUrl lookup e url"
proof -
  have "find isPrivateOrReservedAddress as = None \<longleftrightarrow> (\<forall>a \<in> set as. \<not> isPrivateOrReservedAddress a)" for as
    by (auto simp: find_None_iff)
  then show ?thesis
    by (auto simp: assertEgressAllowed_def destination_ok_def Let_def split: option.splits sum.splits if_splits)
       (metis option.distinct(1))+
qed

text \<open>
  The guarded fetch issues a request only to a destination the policy admits (any under
  allow-all; otherwise an http(s) URL whose host is listed, or resolves and only to public addresses), never
  following redirects and always under the default timeout; such a request is issued, and any other is refused.
\<close>
theorem egress_fetch_guarded:
  "if destination_ok parseUrl lookup e url
   then egressFetch parseUrl lookup fetch e url init callerSignal =
      fetch \<lparr>fe_url = url, fe_init = init,
        fe_signals = (case callerSignal of None \<Rightarrow> [] | Some s \<Rightarrow> [Caller_signal s]) @ [Timeout_signal 15000], fe_redirect = ''error''\<rparr>
   else \<exists>err. egressFetch parseUrl lookup fetch e url init callerSignal = Inl err"
proof (cases "assertEgressAllowed parseUrl lookup e url")
  case (Inl err)
  then have "\<not> destination_ok parseUrl lookup e url" by (simp flip: assertEgressAllowed_iff)
  with Inl show ?thesis by (simp add: egressFetch_def)
next
  case (Inr u)
  then have "destination_ok parseUrl lookup e url" by (simp flip: assertEgressAllowed_iff)
  with Inr show ?thesis by (simp add: egressFetch_def DEFAULT_EGRESS_TIMEOUT_MS_def)
qed

end
