(* ===== verification/ReconJobs.thy ===== *)
theory ReconJobs
  imports SettlementFeedback
begin

text \<open>
  The reconciliation jobs of \<^verbatim>\<open>lib/db/src/secretariat/postgres-store.ts\<close>: one definition per method, a
  guarded SQL update of a table whose first column is its key. The database's clock and the
  process's are separate arguments. How the driver hands back the rows of a raw query is an argument too: a
  plain array, or the result object of node-postgres, which \<^verbatim>\<open>lib/db/src/index.ts\<close> uses.
\<close>

section \<open>The table\<close>

datatype PgJobStatus = PJ_PENDING | PJ_RUNNING | PJ_COMPLETED | PJ_UNRESOLVABLE

record PgJob =
  pj_jobId :: string
  pj_paymentIntentId :: string
  pj_status :: PgJobStatus
  pj_probeCount :: nat
  pj_nextProbeAt :: int
  pj_lockedBy :: "string option"
  pj_lockedUntil :: "int option"
  pj_lastError :: "string option"

type_synonym job_table = "PgJob list"

definition job_row :: "job_table \<Rightarrow> string \<Rightarrow> PgJob option" where
  "job_row tbl k = find (\<lambda>j. pj_jobId j = k) tbl"

text \<open>\<open>UPDATE ... WHERE ... RETURNING job_id\<close>.\<close>

definition update_where :: "(PgJob \<Rightarrow> bool) \<Rightarrow> (PgJob \<Rightarrow> PgJob) \<Rightarrow> job_table \<Rightarrow> string list \<times> job_table" where
  "update_where p f tbl = (map pj_jobId (filter p tbl), map (\<lambda>j. if p j then f j else j) tbl)"

datatype Driver = Plain_array | Node_postgres
datatype 'r query_result = Rows_array "'r list" | Result_object "'r list"

fun query_answer :: "Driver \<Rightarrow> 'r list \<Rightarrow> 'r query_result" where
  "query_answer Plain_array rows = Rows_array rows"
| "query_answer Node_postgres rows = Result_object rows"

text \<open>\<open>Array.isArray(r) ? r : []\<close>, and the reading that knows both forms.\<close>

fun array_rows :: "'r query_result \<Rightarrow> 'r list" where
  "array_rows (Rows_array rows) = rows"
| "array_rows (Result_object rows) = []"

fun normalized_rows :: "'r query_result \<Rightarrow> 'r list" where
  "normalized_rows (Rows_array rows) = rows"
| "normalized_rows (Result_object rows) = rows"

definition returned :: "Driver \<Rightarrow> string list \<times> job_table \<Rightarrow> bool \<times> job_table" where
  "returned dr res = (array_rows (query_answer dr (fst res)) \<noteq> [], snd res)"

section \<open>The methods\<close>

definition lease_over :: "int \<Rightarrow> PgJob \<Rightarrow> bool" where
  "lease_over dbNow j = (pj_status j = PJ_RUNNING \<and> (case pj_lockedUntil j of None \<Rightarrow> False | Some u \<Rightarrow> u < dbNow))"

definition claimReconciliationJob :: "Driver \<Rightarrow> string \<Rightarrow> string \<Rightarrow> int \<Rightarrow> int \<Rightarrow> int \<Rightarrow> job_table \<Rightarrow> bool \<times> job_table" where
  "claimReconciliationJob dr jobId workerId lockDurationMs now dbNow tbl =
     returned dr (update_where (\<lambda>j. pj_jobId j = jobId \<and> (pj_status j = PJ_PENDING \<or> lease_over dbNow j))
       (\<lambda>j. j\<lparr>pj_status := PJ_RUNNING, pj_lockedBy := Some workerId, pj_lockedUntil := Some (now + lockDurationMs),
              pj_probeCount := Suc (pj_probeCount j)\<rparr>) tbl)"

definition active_for :: "string \<Rightarrow> PgJob \<Rightarrow> bool" where
  "active_for k j = (pj_paymentIntentId j = k \<and> pj_status j \<in> {PJ_PENDING, PJ_RUNNING})"

definition createReconciliationJobRow :: "Driver \<Rightarrow> string \<Rightarrow> string \<Rightarrow> int \<Rightarrow> job_table \<Rightarrow> (exn + string) \<times> job_table" where
  "createReconciliationJobRow dr fresh k nextProbeAt tbl =
     (if list_ex (active_for k) tbl
      then (case array_rows (query_answer dr (map pj_jobId (filter (active_for k) tbl))) of
              [] \<Rightarrow> (Inl ''duplicate key value violates unique constraint'', tbl)
            | jobId # _ \<Rightarrow> (Inr jobId, tbl))
      else (Inr fresh, tbl @ [\<lparr>pj_jobId = fresh, pj_paymentIntentId = k, pj_status = PJ_PENDING, pj_probeCount = 0,
              pj_nextProbeAt = nextProbeAt, pj_lockedBy = None, pj_lockedUntil = None, pj_lastError = None\<rparr>]))"

definition batch_limit :: "int option \<Rightarrow> nat" where
  "batch_limit limit = (case limit of None \<Rightarrow> 100 | Some n \<Rightarrow> if 0 < n then nat n else 100)"

definition due :: "int \<Rightarrow> PgJob \<Rightarrow> bool" where
  "due dbNow j = (pj_status j = PJ_PENDING \<and> pj_nextProbeAt j \<le> dbNow \<or> lease_over dbNow j)"

definition getDueReconciliationJobs :: "Driver \<Rightarrow> int option \<Rightarrow> int \<Rightarrow> job_table \<Rightarrow> PgJob list" where
  "getDueReconciliationJobs dr limit dbNow tbl =
     array_rows (query_answer dr (take (batch_limit limit) (sort_key pj_nextProbeAt (filter (due dbNow) tbl))))"

definition getReconciliationJobById :: "Driver \<Rightarrow> string \<Rightarrow> job_table \<Rightarrow> PgJob option" where
  "getReconciliationJobById dr jobId tbl =
     (case normalized_rows (query_answer dr (take 1 (filter (\<lambda>j. pj_jobId j = jobId) tbl))) of [] \<Rightarrow> None | j # _ \<Rightarrow> Some j)"

definition completePendingReconciliationJob ::
    "Driver \<Rightarrow> (string \<Rightarrow> SettlementState option) \<Rightarrow> int \<Rightarrow> string \<Rightarrow> job_table \<Rightarrow> bool \<times> job_table" where
  "completePendingReconciliationJob dr intentState dbNow jobId tbl =
     returned dr (update_where
       (\<lambda>j. pj_jobId j = jobId \<and> (pj_status j = PJ_PENDING \<or> lease_over dbNow j) \<and>
            intentState (pj_paymentIntentId j) = Some St_PENDING_SIGNATURE)
       (\<lambda>j. j\<lparr>pj_status := PJ_COMPLETED, pj_lockedBy := None, pj_lockedUntil := None\<rparr>) tbl)"

text \<open>The update without a guard: any field that is given, of the job with the id, whoever holds it.\<close>

definition updateReconciliationJob ::
    "string \<Rightarrow> PgJobStatus option \<Rightarrow> int option \<Rightarrow> string option \<Rightarrow> nat option \<Rightarrow> job_table \<Rightarrow> job_table" where
  "updateReconciliationJob jobId status nextProbeAt lastError probeCount tbl =
     snd (update_where (\<lambda>j. pj_jobId j = jobId)
       (\<lambda>j. j\<lparr>pj_status := opt_default (pj_status j) status, pj_nextProbeAt := opt_default (pj_nextProbeAt j) nextProbeAt,
              pj_lastError := or_else lastError (pj_lastError j), pj_probeCount := opt_default (pj_probeCount j) probeCount\<rparr>) tbl)"

definition owned :: "string \<Rightarrow> string \<Rightarrow> PgJob \<Rightarrow> bool" where
  "owned jobId workerId j = (pj_jobId j = jobId \<and> pj_status j = PJ_RUNNING \<and> pj_lockedBy j = Some workerId)"

definition completeReconciliationJob :: "Driver \<Rightarrow> string \<Rightarrow> string \<Rightarrow> job_table \<Rightarrow> bool \<times> job_table" where
  "completeReconciliationJob dr jobId workerId tbl =
     returned dr (update_where (owned jobId workerId)
       (\<lambda>j. j\<lparr>pj_status := PJ_COMPLETED, pj_lockedBy := None, pj_lockedUntil := None\<rparr>) tbl)"

definition rescheduleReconciliationJob :: "Driver \<Rightarrow> string \<Rightarrow> string \<Rightarrow> int \<Rightarrow> job_table \<Rightarrow> bool \<times> job_table" where
  "rescheduleReconciliationJob dr jobId workerId nextProbeAt tbl =
     returned dr (update_where (owned jobId workerId)
       (\<lambda>j. j\<lparr>pj_status := PJ_PENDING, pj_nextProbeAt := nextProbeAt, pj_lockedBy := None, pj_lockedUntil := None\<rparr>) tbl)"

definition failReconciliationJob :: "Driver \<Rightarrow> string \<Rightarrow> string \<Rightarrow> string \<Rightarrow> job_table \<Rightarrow> bool \<times> job_table" where
  "failReconciliationJob dr jobId workerId err tbl =
     returned dr (update_where (owned jobId workerId)
       (\<lambda>j. j\<lparr>pj_status := PJ_UNRESOLVABLE, pj_lastError := Some err, pj_lockedBy := None, pj_lockedUntil := None\<rparr>) tbl)"

text \<open>\<open>updatePaymentIntentProbeCount\<close>, on the intent's row.\<close>

definition updatePaymentIntentProbeCount :: "string \<Rightarrow> nat \<Rightarrow> int \<Rightarrow> mem_store \<Rightarrow> mem_store" where
  "updatePaymentIntentProbeCount k n t st =
     (case js_get (ms_intents st) k of
        None \<Rightarrow> st
      | Some rec \<Rightarrow> put_intent k rec ((ir_intent rec)\<lparr>pi_probeCount := Some n, pi_updatedAt := t\<rparr>) st)"

section \<open>Laws of a lease\<close>

text \<open>What the users of a leased job rely on, and what one guarded update gives.\<close>

lemma job_row_update [simp]:
  assumes "\<And>j. pj_jobId (f j) = pj_jobId j"
  shows "job_row (snd (update_where p f tbl)) k = map_option (\<lambda>j. if p j then f j else j) (job_row tbl k)"
  using assms by (induction tbl) (auto simp: job_row_def update_where_def)

definition keyed :: "job_table \<Rightarrow> bool" where
  "keyed tbl \<longleftrightarrow> distinct (map pj_jobId tbl)"

lemma keyed_update [simp]:
  assumes "\<And>j. pj_jobId (f j) = pj_jobId j"
  shows "keyed (snd (update_where p f tbl)) = keyed tbl"
proof -
  have "map pj_jobId (snd (update_where p f tbl)) = map pj_jobId tbl" using assms by (simp add: update_where_def)
  then show ?thesis by (simp add: keyed_def)
qed

lemma update_where_none: "(\<And>j. j \<in> set tbl \<Longrightarrow> \<not> p j) \<Longrightarrow> snd (update_where p f tbl) = tbl"
  by (simp add: update_where_def map_idI)

lemma job_row_mem: "keyed tbl \<Longrightarrow> job_row tbl k = Some j \<longleftrightarrow> j \<in> set tbl \<and> pj_jobId j = k"
  by (induction tbl) (auto simp: keyed_def job_row_def)

text \<open>An update of one job reports whether its row met the condition.\<close>

lemma returned_row:
  assumes "keyed tbl" "\<And>j. p j \<Longrightarrow> pj_jobId j = k"
  shows "fst (returned Plain_array (update_where p f tbl)) \<longleftrightarrow> (\<exists>j. job_row tbl k = Some j \<and> p j)"
  using assms(2) by (auto simp: returned_def update_where_def filter_empty_conv job_row_mem [OF assms(1)])

lemma snd_returned [simp]: "snd (returned dr res) = snd res"
  by (simp add: returned_def)

lemma node_postgres_false [simp]: "fst (returned Node_postgres res) = False"
  by (simp add: returned_def)

definition holder :: "job_table \<Rightarrow> string \<Rightarrow> string option" where
  "holder tbl k = (case job_row tbl k of Some j \<Rightarrow> if pj_status j = PJ_RUNNING then pj_lockedBy j else None | None \<Rightarrow> None)"

lemma job_row_id: "job_row tbl k = Some j \<Longrightarrow> pj_jobId j = k"
  by (induction tbl) (auto simp: job_row_def split: if_splits)

lemma owned_iff: "(\<exists>j. job_row tbl k = Some j \<and> owned k w j) \<longleftrightarrow> holder tbl k = Some w"
  by (auto simp: holder_def owned_def dest: job_row_id split: option.splits if_splits)

lemma not_owned: "keyed tbl \<Longrightarrow> holder tbl k \<noteq> Some w \<Longrightarrow> j \<in> set tbl \<Longrightarrow> \<not> owned k w j"
  using owned_iff [of tbl k w] job_row_mem [of tbl k j] by (auto simp: owned_def)

text \<open>The contract of giving a leased job back: only its holder can, and then nobody holds it.\<close>

locale lease_return =
  fixes ok :: "'t \<Rightarrow> bool" and held :: "'t \<Rightarrow> 'k \<Rightarrow> 'w option" and give_back :: "'w \<Rightarrow> 'k \<Rightarrow> 't \<Rightarrow> bool \<times> 't"
  assumes give_back_result: "ok t \<Longrightarrow> fst (give_back w k t) \<longleftrightarrow> held t k = Some w"
    and give_back_refused: "ok t \<Longrightarrow> held t k \<noteq> Some w \<Longrightarrow> snd (give_back w k t) = t"
    and give_back_free: "ok t \<Longrightarrow> held t k = Some w \<Longrightarrow> held (snd (give_back w k t)) k = None"
    and give_back_ok: "ok t \<Longrightarrow> ok (snd (give_back w k t))"
begin

lemma refused: "ok t \<Longrightarrow> held t k \<noteq> Some w \<Longrightarrow> give_back w k t = (False, t)"
  using give_back_result give_back_refused by (simp add: prod_eq_iff)

lemma not_twice: "ok t \<Longrightarrow> fst (give_back w k t) \<Longrightarrow> give_back w' k (snd (give_back w k t)) = (False, snd (give_back w k t))"
  by (rule refused) (simp_all add: give_back_ok give_back_result give_back_free)

end

lemma lease_return_update:
  assumes "\<And>j. pj_jobId (f j) = pj_jobId j" "\<And>j. pj_status (f j) \<noteq> PJ_RUNNING"
  shows "lease_return keyed holder (\<lambda>w k tbl. returned Plain_array (update_where (owned k w) f tbl))"
proof
  fix t w k
  assume ok: "keyed t"
  show "fst (returned Plain_array (update_where (owned k w) f t)) \<longleftrightarrow> holder t k = Some w"
    using returned_row [OF ok, of "owned k w" k f] owned_iff [of t k w] by (simp add: owned_def)
  show "snd (returned Plain_array (update_where (owned k w) f t)) = t" if "holder t k \<noteq> Some w"
    using not_owned [OF ok that] by (simp add: update_where_none)
  show "holder (snd (returned Plain_array (update_where (owned k w) f t))) k = None" if "holder t k = Some w"
    using that assms by (auto simp: holder_def owned_def split: option.splits if_splits dest: job_row_id)
  show "keyed (snd (returned Plain_array (update_where (owned k w) f t)))" using ok assms(1) by simp
qed

interpretation complete: lease_return keyed holder "\<lambda>w k. completeReconciliationJob Plain_array k w"
  unfolding completeReconciliationJob_def by (rule lease_return_update) simp_all

interpretation reschedule: lease_return keyed holder "\<lambda>w k. rescheduleReconciliationJob Plain_array k w nextProbeAt"
  unfolding rescheduleReconciliationJob_def by (rule lease_return_update) simp_all

interpretation give_up: lease_return keyed holder "\<lambda>w k. failReconciliationJob Plain_array k w err"
  unfolding failReconciliationJob_def by (rule lease_return_update) simp_all

section \<open>Claiming\<close>

lemma claim_row:
  "job_row (snd (claimReconciliationJob dr k w d now dbNow tbl)) k' =
     map_option (\<lambda>j. if pj_jobId j = k \<and> (pj_status j = PJ_PENDING \<or> lease_over dbNow j)
        then j\<lparr>pj_status := PJ_RUNNING, pj_lockedBy := Some w, pj_lockedUntil := Some (now + d), pj_probeCount := Suc (pj_probeCount j)\<rparr>
        else j) (job_row tbl k')"
  by (simp add: claimReconciliationJob_def)

lemma claim_keyed [simp]: "keyed (snd (claimReconciliationJob dr k w d now dbNow tbl)) = keyed tbl"
  by (simp add: claimReconciliationJob_def)

lemma claim_result:
  "keyed tbl \<Longrightarrow> fst (claimReconciliationJob Plain_array k w d now dbNow tbl) \<longleftrightarrow>
     (\<exists>j. job_row tbl k = Some j \<and> (pj_status j = PJ_PENDING \<or> lease_over dbNow j))"
  unfolding claimReconciliationJob_def by (subst returned_row) (auto simp: job_row_mem)

lemma claim_refused:
  assumes "keyed tbl" "\<not> fst (claimReconciliationJob Plain_array k w d now dbNow tbl)"
  shows "snd (claimReconciliationJob Plain_array k w d now dbNow tbl) = tbl"
  using assms(2) claim_result [OF assms(1), of k w d now dbNow]
  by (auto simp: claimReconciliationJob_def job_row_mem [OF assms(1)] intro!: update_where_none)

lemma claim_holds:
  assumes "keyed tbl" "fst (claimReconciliationJob Plain_array k w d now dbNow tbl)"
  shows "holder (snd (claimReconciliationJob Plain_array k w d now dbNow tbl)) k = Some w"
  using assms claim_result [OF assms(1), of k w d now dbNow] by (auto simp: holder_def claim_row dest: job_row_id)

text \<open>A guarded update whose condition the row does not meet does nothing, over either driver.\<close>

lemma returned_nothing:
  assumes "keyed tbl" "\<And>j. p j \<Longrightarrow> pj_jobId j = k" "\<And>j. job_row tbl k = Some j \<Longrightarrow> \<not> p j"
  shows "returned dr (update_where p f tbl) = (False, tbl)"
proof -
  have none: "\<not> p j" if "j \<in> set tbl" for j
    using assms(2,3) that job_row_mem [OF assms(1)] by blast
  then have "fst (update_where p f tbl) = []" by (simp add: update_where_def filter_empty_conv)
  then show ?thesis using none by (cases dr) (simp_all add: returned_def update_where_none)
qed

lemma not_holder_refused:
  assumes "keyed tbl" "holder tbl k \<noteq> Some u"
  shows "completeReconciliationJob dr k u tbl = (False, tbl)" "rescheduleReconciliationJob dr k u nextProbeAt tbl = (False, tbl)"
    "failReconciliationJob dr k u err tbl = (False, tbl)"
  using owned_iff [of tbl k u] assms(2)
  by (auto simp: completeReconciliationJob_def rescheduleReconciliationJob_def failReconciliationJob_def owned_def
      intro!: returned_nothing [OF assms(1), of _ k])

lemma claimed_row:
  assumes "job_row tbl k = Some j" "pj_status j = PJ_PENDING \<or> lease_over dbNow j"
  shows "job_row (snd (claimReconciliationJob dr k w d now dbNow tbl)) k = Some (j\<lparr>pj_status := PJ_RUNNING, pj_lockedBy := Some w,
      pj_lockedUntil := Some (now + d), pj_probeCount := Suc (pj_probeCount j)\<rparr>)"
  using assms job_row_id [OF assms(1)] by (simp add: claim_row)

lemma claimed_holder:
  assumes "keyed tbl" "job_row tbl k = Some j" "pj_status j = PJ_PENDING \<or> lease_over dbNow j"
  shows "holder (snd (claimReconciliationJob dr k w d now dbNow tbl)) k = Some w"
    and "fst (claimReconciliationJob dr k w d now dbNow tbl) \<longleftrightarrow> dr = Plain_array"
proof -
  show "holder (snd (claimReconciliationJob dr k w d now dbNow tbl)) k = Some w"
    using claimed_row [OF assms(2,3)] by (simp add: holder_def)
  show "fst (claimReconciliationJob dr k w d now dbNow tbl) \<longleftrightarrow> dr = Plain_array"
    using claim_result [OF assms(1)] assms(2,3) by (cases dr) (auto simp: claimReconciliationJob_def)
qed


text \<open>The unguarded update closes a job in another worker's hands.\<close>

lemma unguarded_update_ignores_lease:
  assumes "job_row tbl k = Some j"
  shows "map_option pj_status (job_row (updateReconciliationJob k (Some PJ_COMPLETED) None None None tbl) k) = Some PJ_COMPLETED"
  using assms job_row_id [OF assms] by (simp add: updateReconciliationJob_def)

definition demo_job :: PgJob where
  "demo_job = \<lparr>pj_jobId = ''rj-1'', pj_paymentIntentId = ''pi1'', pj_status = PJ_PENDING, pj_probeCount = 0, pj_nextProbeAt = 10,
     pj_lockedBy = None, pj_lockedUntil = None, pj_lastError = None\<rparr>"


text \<open>Two workers under one identity are not told apart: the former holder can still close the job.\<close>

lemma shared_worker_id_breaks_lease:
  assumes "keyed tbl" "fst (claimReconciliationJob Plain_array k w d now dbNow tbl)"
  shows "fst (completeReconciliationJob Plain_array k w (snd (claimReconciliationJob Plain_array k w d now dbNow tbl)))"
  using assms claim_holds [OF assms] by (simp add: complete.give_back_result)

end
