(* ===== verification/ReconWorker.thy ===== *)
theory ReconWorker
  imports ReconJobs TextHelpers
begin

text \<open>
  \<^verbatim>\<open>zeus-secretariat/src/core/reconciliation-worker.ts\<close>: the polling worker over the reconciliation jobs. Its store
  is the Postgres store: the job table beside the durable intents and operations. The clocks, the
  engine and the flag that stops the loop are arguments; database calls do not fail here.
\<close>

section \<open>The worker\<close>

record Worker =
  wk_workerId :: string
  wk_leaseDurationMs :: int
  wk_errorBackoffMs :: int
  wk_batchSize :: int
  wk_driver :: Driver

record WorkerConfig =
  wc_leaseDurationMs :: "int option"
  wc_errorBackoffMs :: "int option"
  wc_batchSize :: "int option"
  wc_workerId :: "string option"

text \<open>The environment variables and process facts behind the default identity.\<close>

definition worker_default :: "env \<Rightarrow> int \<Rightarrow> int \<Rightarrow> string" where
  "worker_default e pid now =
     (case e ''WORKER_ID'' of
        Some v \<Rightarrow> if v \<noteq> [] then v else ''worker-'' @ env_or e ''HOSTNAME'' ''unknown'' @ ''-'' @ string_of_int pid @ ''-'' @ string_of_int now
      | None \<Rightarrow> ''worker-'' @ env_or e ''HOSTNAME'' ''unknown'' @ ''-'' @ string_of_int pid @ ''-'' @ string_of_int now)"

definition resolveWorkerId :: "string option \<Rightarrow> env \<Rightarrow> int \<Rightarrow> int \<Rightarrow> string" where
  "resolveWorkerId configured e pid now =
     (case configured of
        Some c \<Rightarrow> if c \<noteq> [] then c else worker_default e pid now
      | None \<Rightarrow> worker_default e pid now)"

definition newWorker :: "WorkerConfig \<Rightarrow> env \<Rightarrow> int \<Rightarrow> int \<Rightarrow> Driver \<Rightarrow> Worker" where
  "newWorker c e pid now dr = \<lparr>wk_workerId = resolveWorkerId (wc_workerId c) e pid now,
     wk_leaseDurationMs = opt_default 30000 (wc_leaseDurationMs c), wk_errorBackoffMs = opt_default 10000 (wc_errorBackoffMs c),
     wk_batchSize = opt_default 100 (wc_batchSize c), wk_driver = dr\<rparr>"

text \<open>The durable store as the worker uses it.\<close>

record durable =
  du_jobs :: job_table
  du_mem :: mem_store

text \<open>The process's clock and the database's at the claim, and the process's clock at the end.\<close>

record JobTimes =
  tm_now :: int
  tm_db :: int
  tm_end :: int

type_synonym engine = "string \<Rightarrow> mem_store \<Rightarrow> (exn + ReconciliationOutcome) \<times> mem_store"

definition on_jobs :: "(job_table \<Rightarrow> bool \<times> job_table) \<Rightarrow> durable \<Rightarrow> durable" where
  "on_jobs f d = d\<lparr>du_jobs := snd (f (du_jobs d))\<rparr>"

definition on_mem :: "(mem_store \<Rightarrow> mem_store) \<Rightarrow> durable \<Rightarrow> durable" where
  "on_mem f d = d\<lparr>du_mem := f (du_mem d)\<rparr>"

definition safeComplete :: "Worker \<Rightarrow> string \<Rightarrow> durable \<Rightarrow> durable" where
  "safeComplete w jobId = on_jobs (completeReconciliationJob (wk_driver w) jobId (wk_workerId w))"

definition safeReschedule :: "Worker \<Rightarrow> string \<Rightarrow> int \<Rightarrow> durable \<Rightarrow> durable" where
  "safeReschedule w jobId nextProbeAt = on_jobs (rescheduleReconciliationJob (wk_driver w) jobId (wk_workerId w) nextProbeAt)"

definition safeFail :: "Worker \<Rightarrow> string \<Rightarrow> string \<Rightarrow> durable \<Rightarrow> durable" where
  "safeFail w jobId err = on_jobs (failReconciliationJob (wk_driver w) jobId (wk_workerId w) err)"

definition safeCompletePendingSignatureJob :: "Worker \<Rightarrow> int \<Rightarrow> string \<Rightarrow> durable \<Rightarrow> durable" where
  "safeCompletePendingSignatureJob w dbNow jobId d =
     on_jobs (completePendingReconciliationJob (wk_driver w)
       (\<lambda>k. map_option pi_settlementState (getPaymentIntentById (du_mem d) k)) dbNow jobId) d"

section \<open>One job\<close>

definition feed_back :: "DurablePaymentIntent \<Rightarrow> ReconciliationOutcome \<Rightarrow> int \<Rightarrow> durable \<Rightarrow> durable" where
  "feed_back dpi outcome t d =
     (if pi_operationId dpi = [] then d
      else on_mem (\<lambda>st. snd (applyOutcome (Some (getPaymentIntentById st)) (pi_operationId dpi) outcome (Some (Some (pi_paymentIntentId dpi))) t st)) d)"

definition mapOutcome :: "Worker \<Rightarrow> string \<Rightarrow> ReconciliationOutcome \<Rightarrow> DurablePaymentIntent \<Rightarrow> int \<Rightarrow> durable \<Rightarrow> durable" where
  "mapOutcome w jobId outcome dpi t d0 =
     (let d = feed_back dpi outcome t d0 in
      case ro_status outcome of
        RS_SETTLED \<Rightarrow> safeComplete w jobId d
      | RS_NOT_SETTLED \<Rightarrow> safeComplete w jobId d
      | RS_RECONCILING \<Rightarrow> safeReschedule w jobId (t + opt_default (wk_errorBackoffMs w) (ro_nextProbeMs outcome)) d
      | RS_UNRESOLVED_MANUAL \<Rightarrow> safeFail w jobId (opt_default [] (ro_reason outcome)) d
      | RS_INCIDENT \<Rightarrow> safeFail w jobId (opt_default [] (ro_reason outcome)) d)"

definition syncProbeCount :: "Worker \<Rightarrow> string \<Rightarrow> string \<Rightarrow> int \<Rightarrow> durable \<Rightarrow> durable" where
  "syncProbeCount w jobId k t d =
     on_mem (updatePaymentIntentProbeCount k
       (case getReconciliationJobById (wk_driver w) jobId (du_jobs d) of None \<Rightarrow> 1 | Some j \<Rightarrow> pj_probeCount j) t) d"

definition TERMINAL_STATES :: "SettlementState list" where
  "TERMINAL_STATES = [St_SETTLED, St_NOT_SETTLED, St_UNRESOLVED_MANUAL]"

text \<open>What follows a successful claim.\<close>

definition process_claimed :: "Worker \<Rightarrow> engine \<Rightarrow> JobTimes \<Rightarrow> string \<Rightarrow> string \<Rightarrow> durable \<Rightarrow> durable" where
  "process_claimed w engine tm jobId k d =
     (case getPaymentIntentById (du_mem d) k of
        None \<Rightarrow> safeFail w jobId (''DPI not found for paymentIntentId='' @ k) d
      | Some dpi \<Rightarrow>
          (if pi_settlementState dpi \<in> set TERMINAL_STATES then safeComplete w jobId d
           else
             (let d1 = syncProbeCount w jobId k (tm_db tm) d in
              case engine k (du_mem d1) of
                (Inl e, st) \<Rightarrow> safeReschedule w jobId (tm_end tm + wk_errorBackoffMs w) (d1\<lparr>du_mem := st\<rparr>)
              | (Inr outcome, st) \<Rightarrow> mapOutcome w jobId outcome dpi (tm_end tm) (d1\<lparr>du_mem := st\<rparr>))))"

definition process_recon_job :: "Worker \<Rightarrow> engine \<Rightarrow> JobTimes \<Rightarrow> string \<Rightarrow> string \<Rightarrow> durable \<Rightarrow> durable" where
  "process_recon_job w engine tm jobId k d =
     (if map_option pi_settlementState (getPaymentIntentById (du_mem d) k) = Some St_PENDING_SIGNATURE
      then safeCompletePendingSignatureJob w (tm_db tm) jobId d
      else
        (case claimReconciliationJob (wk_driver w) jobId (wk_workerId w) (wk_leaseDurationMs w) (tm_now tm) (tm_db tm) (du_jobs d) of
           (False, tbl) \<Rightarrow> d\<lparr>du_jobs := tbl\<rparr>
         | (True, tbl) \<Rightarrow> process_claimed w engine tm jobId k (d\<lparr>du_jobs := tbl\<rparr>)))"

section \<open>One poll\<close>

fun process_due :: "Worker \<Rightarrow> engine \<Rightarrow> (nat \<Rightarrow> JobTimes) \<Rightarrow> (nat \<Rightarrow> bool) \<Rightarrow> nat \<Rightarrow> PgJob list \<Rightarrow> durable \<Rightarrow> durable" where
  "process_due w engine tms running n [] d = d"
| "process_due w engine tms running n (j # js) d =
     (if \<not> running n then d
      else process_due w engine tms running (Suc n) js (process_recon_job w engine (tms n) (pj_jobId j) (pj_paymentIntentId j) d))"

definition processBatch :: "Worker \<Rightarrow> engine \<Rightarrow> (nat \<Rightarrow> JobTimes) \<Rightarrow> (nat \<Rightarrow> bool) \<Rightarrow> int \<Rightarrow> durable \<Rightarrow> durable" where
  "processBatch w engine tms running dbNow d =
     process_due w engine tms running 0 (getDueReconciliationJobs (wk_driver w) (Some (wk_batchSize w)) dbNow (du_jobs d)) d"

section \<open>What a job becomes\<close>

lemma durable_frames [simp]:
  "du_mem (on_jobs f d) = du_mem d" "du_jobs (on_mem g d) = du_jobs d" "du_jobs (on_jobs f d) = snd (f (du_jobs d))"
  "du_mem (on_mem g d) = g (du_mem d)"
  by (simp_all add: on_jobs_def on_mem_def)

lemma feed_back_jobs [simp]: "du_jobs (feed_back dpi outcome t d) = du_jobs d"
  by (simp add: feed_back_def)

lemma sync_jobs [simp]: "du_jobs (syncProbeCount w jobId k t d) = du_jobs d"
  by (simp add: syncProbeCount_def)

text \<open>The row of a leased job once its holder has given it back.\<close>

definition unlocked :: "PgJobStatus \<Rightarrow> PgJob \<Rightarrow> PgJob" where
  "unlocked s j = j\<lparr>pj_status := s, pj_lockedBy := None, pj_lockedUntil := None\<rparr>"

definition given_back :: "Worker \<Rightarrow> SettlementState \<Rightarrow> exn + ReconciliationOutcome \<Rightarrow> int \<Rightarrow> PgJob \<Rightarrow> PgJob" where
  "given_back w s result t j =
     (if s \<in> set TERMINAL_STATES then unlocked PJ_COMPLETED j
      else case result of
        Inl e \<Rightarrow> (unlocked PJ_PENDING j)\<lparr>pj_nextProbeAt := t + wk_errorBackoffMs w\<rparr>
      | Inr out \<Rightarrow>
          (if ro_status out \<in> {RS_SETTLED, RS_NOT_SETTLED} then unlocked PJ_COMPLETED j
           else if ro_status out = RS_RECONCILING
           then (unlocked PJ_PENDING j)\<lparr>pj_nextProbeAt := t + opt_default (wk_errorBackoffMs w) (ro_nextProbeMs out)\<rparr>
           else (unlocked PJ_UNRESOLVABLE j)\<lparr>pj_lastError := Some (opt_default [] (ro_reason out))\<rparr>))"

lemma safe_rows:
  assumes "job_row (du_jobs d) jobId = Some j" "pj_status j = PJ_RUNNING" "pj_lockedBy j = Some (wk_workerId w)"
  shows "job_row (du_jobs (safeComplete w jobId d)) jobId = Some (unlocked PJ_COMPLETED j)"
    and "job_row (du_jobs (safeReschedule w jobId u d)) jobId = Some ((unlocked PJ_PENDING j)\<lparr>pj_nextProbeAt := u\<rparr>)"
    and "job_row (du_jobs (safeFail w jobId err d)) jobId = Some ((unlocked PJ_UNRESOLVABLE j)\<lparr>pj_lastError := Some err\<rparr>)"
  using assms job_row_id [OF assms(1)]
  by (simp_all add: safeComplete_def safeReschedule_def safeFail_def completeReconciliationJob_def rescheduleReconciliationJob_def
      failReconciliationJob_def owned_def unlocked_def)

lemma mapOutcome_row:
  assumes "job_row (du_jobs d) jobId = Some j" "pj_status j = PJ_RUNNING" "pj_lockedBy j = Some (wk_workerId w)" "s \<notin> set TERMINAL_STATES"
  shows "job_row (du_jobs (mapOutcome w jobId out dpi t d)) jobId = Some (given_back w s (Inr out) t j)"
  using assms safe_rows [of "feed_back dpi out t d" jobId j w]
  by (cases "ro_status out") (simp_all add: mapOutcome_def given_back_def Let_def)

lemma find_filter: "find P xs = Some x \<Longrightarrow> \<exists>ys. filter P xs = x # ys"
  by (induction xs) (auto split: if_splits)

lemma process_claimed_row:
  assumes row: "job_row (du_jobs d) jobId = Some j" "pj_status j = PJ_RUNNING" "pj_lockedBy j = Some (wk_workerId w)"
    and dpi: "getPaymentIntentById (du_mem d) k = Some dpi"
  shows "job_row (du_jobs (process_claimed w engine tm jobId k d)) jobId =
     Some (given_back w (pi_settlementState dpi) (fst (engine k (updatePaymentIntentProbeCount k (pj_probeCount j) (tm_db tm) (du_mem d)))) (tm_end tm) j)"
proof (cases "pi_settlementState dpi \<in> set TERMINAL_STATES")
  case True
  then show ?thesis using safe_rows(1) [OF row] dpi by (simp add: process_claimed_def given_back_def)
next
  case False
  have sync: "du_mem (syncProbeCount w jobId k t d) = updatePaymentIntentProbeCount k (pj_probeCount j) t (du_mem d)" for t
  proof -
    have "\<exists>js. filter (\<lambda>j. pj_jobId j = jobId) (du_jobs d) = j # js"
      using row(1) unfolding job_row_def by (rule find_filter)
    then have "getReconciliationJobById (wk_driver w) jobId (du_jobs d) = Some j"
      by (cases "wk_driver w") (auto simp: getReconciliationJobById_def)
    then show ?thesis by (simp add: syncProbeCount_def)
  qed
  show ?thesis
  proof (cases "engine k (updatePaymentIntentProbeCount k (pj_probeCount j) (tm_db tm) (du_mem d))")
    case (Pair r st)
    let ?d = "(syncProbeCount w jobId k (tm_db tm) d)\<lparr>du_mem := st\<rparr>"
    have rows: "job_row (du_jobs ?d) jobId = Some j" using row by simp
    show ?thesis
      using False dpi sync Pair safe_rows(2) [OF rows row(2,3)] mapOutcome_row [OF rows row(2,3) False]
      by (cases r) (simp_all add: process_claimed_def Let_def given_back_def)
  qed
qed

lemma due_job_row:
  assumes "wk_driver w = Plain_array" "keyed (du_jobs d)" "job_row (du_jobs d) jobId = Some j"
    and due: "pj_status j = PJ_PENDING \<or> lease_over (tm_db tm) j"
    and "getPaymentIntentById (du_mem d) k = Some dpi" "pi_settlementState dpi \<noteq> St_PENDING_SIGNATURE"
  shows "job_row (du_jobs (process_recon_job w engine tm jobId k d)) jobId =
    Some (given_back w (pi_settlementState dpi)
      (fst (engine k (updatePaymentIntentProbeCount k (Suc (pj_probeCount j)) (tm_db tm) (du_mem d)))) (tm_end tm)
      (j\<lparr>pj_probeCount := Suc (pj_probeCount j)\<rparr>))"
proof -
  let ?c = "claimReconciliationJob Plain_array jobId (wk_workerId w) (wk_leaseDurationMs w) (tm_now tm) (tm_db tm) (du_jobs d)"
  let ?j = "j\<lparr>pj_status := PJ_RUNNING, pj_lockedBy := Some (wk_workerId w), pj_lockedUntil := Some (tm_now tm + wk_leaseDurationMs w),
      pj_probeCount := Suc (pj_probeCount j)\<rparr>"
  have "fst ?c" unfolding claim_result [OF assms(2)] using due assms(3) by blast
  then have c: "?c = (True, snd ?c)" by (simp add: prod_eq_iff)
  have row: "job_row (du_jobs (d\<lparr>du_jobs := snd ?c\<rparr>)) jobId = Some ?j"
    using due assms(3) job_row_id [OF assms(3)] by (simp add: claim_row)
  have "process_recon_job w engine tm jobId k d = process_claimed w engine tm jobId k (d\<lparr>du_jobs := snd ?c\<rparr>)"
    using assms(1,5,6) by (subst process_recon_job_def) (simp, subst c, simp)
  then show ?thesis
    using process_claimed_row [OF row, of w k dpi engine tm] assms(5)
    by (simp add: given_back_def unlocked_def split: sum.splits)
qed

text \<open>
  A due job is worked off and given back unlocked: its probe count grows by one, and is on the intent
  before the engine runs; an intent that is terminal, or on which the engine reaches a verdict, completes the
  job; a reconciling one puts it back with the engine's delay; a manual or incident verdict closes it as
  unresolvable; an exception puts it back after the backoff. No outcome leaves it running.
\<close>
theorem due_job_is_given_back:
  assumes "wk_driver w = Plain_array" "keyed (du_jobs d)" "job_row (du_jobs d) jobId = Some j" "due (tm_db tm) j"
    and "getPaymentIntentById (du_mem d) k = Some dpi" "pi_settlementState dpi \<noteq> St_PENDING_SIGNATURE"
  shows "job_row (du_jobs (process_recon_job w engine tm jobId k d)) jobId =
    Some (given_back w (pi_settlementState dpi)
      (fst (engine k (updatePaymentIntentProbeCount k (Suc (pj_probeCount j)) (tm_db tm) (du_mem d)))) (tm_end tm)
      (j\<lparr>pj_probeCount := Suc (pj_probeCount j)\<rparr>))"
proof -
  from assms(4) have "pj_status j = PJ_PENDING \<or> lease_over (tm_db tm) j" by (auto simp: due_def)
  from due_job_row [OF assms(1-3) this assms(5,6)] show ?thesis .
qed

section \<open>Over the production driver\<close>

text \<open>
  Over node-postgres, the driver \<^verbatim>\<open>lib/db/src/index.ts\<close> sets up, the worker never does anything: the
  rows of its queries arrive in a result object that the store takes for no rows, so every poll finds no due job.
\<close>
theorem node_postgres_worker_is_idle:
  assumes "wk_driver w = Node_postgres"
  shows "((\<lambda>d. processBatch w engine tms running dbNow d) ^^ polls) d = d"
proof -
  have "processBatch w engine tms running dbNow d = d" for d
    using assms by (simp add: processBatch_def getDueReconciliationJobs_def)
  then show ?thesis by (induction polls) simp_all
qed

text \<open>A claim made over it takes the lease all the same and answers that it did not.\<close>

lemma node_postgres_claim_is_denied:
  "job_row tbl k = Some j \<Longrightarrow> pj_status j = PJ_PENDING \<Longrightarrow>
   fst (claimReconciliationJob Node_postgres k w d now dbNow tbl) = False \<and>
   holder (snd (claimReconciliationJob Node_postgres k w d now dbNow tbl)) k = Some w"
  by (auto simp: claim_row holder_def dest: job_row_id) (simp add: claimReconciliationJob_def)

section \<open>With the reconciliation engine\<close>

text \<open>A call that has not returned within the fuel counts as thrown.\<close>

definition engine_call :: "recon_env \<Rightarrow> nat \<Rightarrow> engine" where
  "engine_call env fuel k st =
     (case reconcile env fuel k st of (Some r, st') \<Rightarrow> (r, st') | (None, st') \<Rightarrow> (Inl ''no answer'', st'))"

lemma applyOutcome_intents [simp]: "mem_intent (snd (applyOutcome durable opId outcome extra t st)) = mem_intent st"
  by (auto simp: applyOutcome_def split: option.splits prod.splits)

lemma feed_back_intents [simp]: "mem_intent (du_mem (feed_back dpi outcome t d)) = mem_intent (du_mem d)"
  by (simp add: feed_back_def)

lemma st_of_intents: "mem_intent st = mem_intent st' \<Longrightarrow> st_of st = st_of st'"
  by (simp add: st_of_def fun_eq_iff)

lemma mapOutcome_intents [simp]: "mem_intent (du_mem (mapOutcome w jobId out dpi t d)) = mem_intent (du_mem d)"
  by (simp add: mapOutcome_def Let_def safeComplete_def safeReschedule_def safeFail_def split: ReconStatus.split)

lemma probe_count_intent:
  "mem_intent st k = Some i \<Longrightarrow>
   mem_intent (updatePaymentIntentProbeCount k n t st) k = Some (i\<lparr>pi_probeCount := Some n, pi_updatedAt := t\<rparr>)"
  by (auto simp: updatePaymentIntentProbeCount_def mem_intent_def put_intent_def)

lemma probe_count_wf:
  assumes "intents_wf st" "mem_intent st k = Some i"
  shows "intents_wf (updatePaymentIntentProbeCount k n t st)"
proof -
  obtain rec where r: "js_get (ms_intents st) k = Some rec" "ir_intent rec = i" using assms(2) by (auto simp: mem_intent_def)
  then show ?thesis
    using intents_wf_put [OF assms, of "i\<lparr>pi_probeCount := Some n, pi_updatedAt := t\<rparr>" rec] by (simp add: updatePaymentIntentProbeCount_def)
qed

lemma process_claimed_mem:
  assumes "getPaymentIntentById (du_mem d) k = Some dpi"
  shows "mem_intent (du_mem (process_claimed w engine tm jobId k d)) =
    (if pi_settlementState dpi \<in> set TERMINAL_STATES then mem_intent (du_mem d)
     else mem_intent (snd (engine k (du_mem (syncProbeCount w jobId k (tm_db tm) d)))))"
  using assms by (auto simp: process_claimed_def Let_def safeComplete_def safeReschedule_def split: prod.splits sum.splits)

lemma engine_call_verdict:
  assumes "intents_wf st" "mem_intent st k = Some i" "engine_call env fuel k st = (Inr out, st')" "ro_status out \<in> {RS_SETTLED, RS_NOT_SETTLED}"
  shows "st_of st' k \<in> {Some St_SETTLED, Some St_NOT_SETTLED}"
proof -
  from assms(3) have r: "reconcile env fuel k st = (Some (Inr out), st')"
    by (auto simp: engine_call_def split: prod.splits option.splits)
  from assms(4) obtain v where "ro_status out = status_of v" "v = St_SETTLED \<or> v = St_NOT_SETTLED" by force
  with reconcile_verdict_durable [OF assms(1,2) r] show ?thesis by blast
qed

lemma claimed_job_verdict:
  assumes "wk_driver w = Plain_array" "keyed (du_jobs d)" "job_row (du_jobs d) jobId = Some j"
    and due: "pj_status j = PJ_PENDING \<or> lease_over (tm_db tm) j"
    and "getPaymentIntentById (du_mem d) k = Some dpi" "pi_settlementState dpi \<noteq> St_PENDING_SIGNATURE" "intents_wf (du_mem d)"
    and "map_option pj_status (job_row (du_jobs (process_recon_job w (engine_call env fuel) tm jobId k d)) jobId) = Some PJ_COMPLETED"
  shows "st_of (du_mem (process_recon_job w (engine_call env fuel) tm jobId k d)) k \<in> {Some St_SETTLED, Some St_NOT_SETTLED, Some St_UNRESOLVED_MANUAL}"
proof -
  let ?c = "claimReconciliationJob Plain_array jobId (wk_workerId w) (wk_leaseDurationMs w) (tm_now tm) (tm_db tm) (du_jobs d)"
  let ?mem = "updatePaymentIntentProbeCount k (Suc (pj_probeCount j)) (tm_db tm) (du_mem d)"
  obtain i where i: "mem_intent (du_mem d) k = Some i" "pi_settlementState i = pi_settlementState dpi"
    using assms(5) by (auto simp: getPaymentIntentById_eq)
  have "fst ?c" unfolding claim_result [OF assms(2)] using due assms(3) by blast
  then have c: "?c = (True, snd ?c)" by (simp add: prod_eq_iff)
  have p: "process_recon_job w (engine_call env fuel) tm jobId k d = process_claimed w (engine_call env fuel) tm jobId k (d\<lparr>du_jobs := snd ?c\<rparr>)"
    using assms(1,5,6) by (subst process_recon_job_def) (simp, subst c, simp)
  have row: "job_row (snd ?c) jobId = Some (j\<lparr>pj_status := PJ_RUNNING, pj_lockedBy := Some (wk_workerId w),
      pj_lockedUntil := Some (tm_now tm + wk_leaseDurationMs w), pj_probeCount := Suc (pj_probeCount j)\<rparr>)"
    using due assms(3) job_row_id [OF assms(3)] by (simp add: claim_row)
  show ?thesis
  proof (cases "pi_settlementState dpi \<in> set TERMINAL_STATES")
    case True
    then show ?thesis using i assms(5) by (auto simp: p process_claimed_mem st_of_def TERMINAL_STATES_def)
  next
    case False
    obtain r st where e: "engine_call env fuel k ?mem = (r, st)" by fastforce
    with False assms(8) due_job_row [OF assms(1-6), of "engine_call env fuel"]
    obtain out where out: "r = Inr out" "ro_status out \<in> {RS_SETTLED, RS_NOT_SETTLED}"
      by (auto simp: given_back_def unlocked_def split: sum.splits if_splits)
    have sync: "du_mem (syncProbeCount w jobId k (tm_db tm) (d\<lparr>du_jobs := snd ?c\<rparr>)) = ?mem"
      using find_filter [OF row [unfolded job_row_def]] by (cases "wk_driver w") (auto simp: syncProbeCount_def getReconciliationJobById_def)
    have "st_of st k \<in> {Some St_SETTLED, Some St_NOT_SETTLED}"
      using engine_call_verdict [OF probe_count_wf [OF assms(7) i(1)] probe_count_intent [OF i(1)] e [unfolded out(1)] out(2)] .
    moreover have "st_of (du_mem (process_recon_job w (engine_call env fuel) tm jobId k d)) k = st_of st k"
      using False assms(5) sync e by (simp add: p process_claimed_mem st_of_def)
    ultimately show ?thesis by auto
  qed
qed

text \<open>The other ways a job leaves one pass of the worker.\<close>

lemma unclaimed_not_completed:
  assumes "job_row tbl k = Some j" "pj_status j \<noteq> PJ_COMPLETED"
  shows "map_option pj_status (job_row (snd (claimReconciliationJob dr k w d now dbNow tbl)) k) \<noteq> Some PJ_COMPLETED"
  using assms by (simp add: claim_row)

lemma lost_intent_fails_job:
  assumes "getPaymentIntentById (du_mem d) k = None" "job_row (du_jobs d) jobId = Some j" "pj_status j = PJ_RUNNING"
    "pj_lockedBy j = Some (wk_workerId w)"
  shows "map_option pj_status (job_row (du_jobs (process_claimed w engine tm jobId k d)) jobId) = Some PJ_UNRESOLVABLE"
  using assms safe_rows(3) [OF assms(2-4)] by (simp add: process_claimed_def unlocked_def)

lemma retired_job:
  assumes "job_row (du_jobs d) jobId = Some j" "pj_status j \<noteq> PJ_COMPLETED"
    and "map_option pj_status (job_row (du_jobs (safeCompletePendingSignatureJob w dbNow jobId d)) jobId) = Some PJ_COMPLETED"
  shows "(pj_status j = PJ_PENDING \<or> lease_over dbNow j) \<and> st_of (du_mem d) (pj_paymentIntentId j) = Some St_PENDING_SIGNATURE \<and>
    job_row (du_jobs (safeCompletePendingSignatureJob w dbNow jobId d)) jobId = Some (unlocked PJ_COMPLETED j)"
  using assms job_row_id [OF assms(1)]
  by (auto simp: safeCompletePendingSignatureJob_def completePendingReconciliationJob_def unlocked_def st_of_def getPaymentIntentById_eq
      option.map_comp comp_def split: if_splits)


section \<open>A run\<close>

definition demo_worker :: "Driver \<Rightarrow> Worker" where
  "demo_worker dr = newWorker \<lparr>wc_leaseDurationMs = None, wc_errorBackoffMs = None, wc_batchSize = None, wc_workerId = Some ''w1''\<rparr>
     (\<lambda>_. None) 7 0 dr"

definition demo_durable :: durable where
  "demo_durable = \<lparr>du_jobs = [demo_job], du_mem = submitted_store\<rparr>"

definition demo_times :: JobTimes where
  "demo_times = \<lparr>tm_now = 20, tm_db = 20, tm_end = 25\<rparr>"

definition demo_engine :: engine where
  "demo_engine = engine_call (sample_env [paid_provider ''0x20'', paid_provider ''0x30''] 5000) 3"

lemma demo_durable_facts:
  "keyed (du_jobs demo_durable)" "job_row (du_jobs demo_durable) ''rj-1'' = Some demo_job" "due (tm_db demo_times) demo_job"
  "intents_wf (du_mem demo_durable)" "wk_driver (demo_worker dr) = dr"
  "\<exists>dpi. getPaymentIntentById (du_mem demo_durable) ''pi1'' = Some dpi \<and> pi_settlementState dpi = St_SUBMITTED"
  by (simp_all add: demo_durable_def keyed_def job_row_def demo_job_def due_def demo_times_def submitted_store_wf demo_worker_def newWorker_def
      getPaymentIntentById_eq submitted_store_intent sample_intent_def)

lemma demo_engine_settles:
  "(case fst (demo_engine ''pi1'' (updatePaymentIntentProbeCount ''pi1'' (Suc 0) 20 submitted_store)) of
      Inr out \<Rightarrow> ro_status out = RS_SETTLED | Inl e \<Rightarrow> False)"
  by code_simp

lemma due_job_is_given_back_witness:
  "map_option pj_status (job_row (du_jobs (process_recon_job (demo_worker Plain_array) (\<lambda>k st. (Inl ''boom'', st)) demo_times ''rj-1'' ''pi1'' demo_durable)) ''rj-1'')
     = Some PJ_PENDING \<and>
   map_option pj_nextProbeAt (job_row (du_jobs (process_recon_job (demo_worker Plain_array) (\<lambda>k st. (Inl ''boom'', st)) demo_times ''rj-1'' ''pi1'' demo_durable)) ''rj-1'')
     = Some 10025"
proof -
  obtain dpi where d: "getPaymentIntentById (du_mem demo_durable) ''pi1'' = Some dpi" "pi_settlementState dpi = St_SUBMITTED"
    using demo_durable_facts(6) by blast
  from due_job_is_given_back [OF demo_durable_facts(5,1,2,3) d(1), of "\<lambda>k st. (Inl ''boom'', st)"] d(2) show ?thesis
    by (simp add: given_back_def TERMINAL_STATES_def unlocked_def demo_times_def demo_worker_def newWorker_def)
qed

lemma node_postgres_worker_is_idle_witness:
  "((\<lambda>d. processBatch (demo_worker Node_postgres) demo_engine (\<lambda>_. demo_times) (\<lambda>_. True) 20 d) ^^ 3) demo_durable = demo_durable"
  by (rule node_postgres_worker_is_idle) (simp add: demo_durable_facts)


end
