(* ===== verification/ExecutionWorker.thy ===== *)
theory ExecutionWorker
  imports SellerCalls
begin

text \<open>
  \<^verbatim>\<open>zeus-secretariat/src/core/execution-worker.ts\<close>: the polling worker over the execution jobs. A poll
  scans for settled payments without an obligation, then processes the pending jobs one after the
  other and feeds every final result back to the operation. What happens around a poll (a store
  that fails, the flag that stops the loop, the clock) is its environment, an argument.
\<close>

section \<open>The worker\<close>

record ExecutionWorker =
  ew_engine :: pse_config
  ew_feedback :: bool
  ew_pollIntervalMs :: int
  ew_batchSize :: int
  ew_startedByStart :: bool
  ew_scannerFailures :: nat

definition DEFAULT_POLL_INTERVAL_MS :: int where "DEFAULT_POLL_INTERVAL_MS = 5000"

definition DEFAULT_BATCH_SIZE :: int where "DEFAULT_BATCH_SIZE = 100"

definition SCANNER_FAILURE_ALERT_THRESHOLD :: nat where "SCANNER_FAILURE_ALERT_THRESHOLD = 3"

definition newExecutionWorker :: "pse_config \<Rightarrow> int option \<Rightarrow> int option \<Rightarrow> bool \<Rightarrow> ExecutionWorker" where
  "newExecutionWorker engine pollMs batch feedback =
     \<lparr>ew_engine = engine, ew_feedback = feedback, ew_pollIntervalMs = opt_default DEFAULT_POLL_INTERVAL_MS pollMs,
      ew_batchSize = opt_default DEFAULT_BATCH_SIZE batch, ew_startedByStart = False, ew_scannerFailures = 0\<rparr>"

text \<open>
  The environment of one poll: the error of the scan's or the fetch's query, whether the loop is
  still on before the n-th job, the time of the n-th job and the error of its feedback's store.
\<close>

record poll_env =
  pe_scan :: "exn option"
  pe_fetch :: "exn option"
  pe_now :: int
  pe_running :: "nat \<Rightarrow> bool"
  pe_clock :: "nat \<Rightarrow> int"
  pe_feedback :: "nat \<Rightarrow> exn option"

text \<open>\<open>xs.slice(0, n)\<close>: a negative bound counts from the end.\<close>

definition slice_to :: "int \<Rightarrow> 'a list \<Rightarrow> 'a list" where
  "slice_to n xs = (if 0 \<le> n then take (nat n) xs else take (length xs - nat (- n)) xs)"

section \<open>One job\<close>

definition result_extra :: "string \<Rightarrow> SellerExecutionResult option \<Rightarrow> FeedbackExtra" where
  "result_extra jobId r = \<lparr>fx_jobId = Some jobId,
     fx_statusCode = (case r of Some (SR_SUCCESS c b h d) \<Rightarrow> Some c | Some (SR_HTTP_FAILURE c b h d) \<Rightarrow> Some c | _ \<Rightarrow> None),
     fx_reason = (case r of Some (SR_DELIVERY_UNKNOWN why err d) \<Rightarrow> Some why | _ \<Rightarrow> None)\<rparr>"

definition feed_job :: "ExecutionWorker \<Rightarrow> exn option \<Rightarrow> RecoveryJob \<Rightarrow> JobOutcome \<Rightarrow> int \<Rightarrow> pse_world \<Rightarrow> pse_world" where
  "feed_job k fault job out t w =
     (if \<not> ew_feedback k \<or> fault \<noteq> None then w
      else w\<lparr>pw_pay := snd (applyResult (xj_operationId job) (jo_finalStatus out)
               (Some (result_extra (xj_jobId job) (jo_result out))) t (pw_pay w))\<rparr>)"

definition processOne ::
    "ExecutionWorker \<Rightarrow> seller \<Rightarrow> exn option \<Rightarrow> RecoveryJob \<Rightarrow> int \<Rightarrow> pse_world \<Rightarrow> (exn + JobOutcome) \<times> pse_world" where
  "processOne k seller fault job t w =
     (case processJob (ew_engine k) seller (xj_jobId job) t w of
        (Inl e, w1) \<Rightarrow> (Inl e, w1)
      | (Inr out, w1) \<Rightarrow> (Inr out, if jo_finalStatus out = F_RUNNING then w1 else feed_job k fault job out t w1))"

section \<open>One poll\<close>

fun run_jobs ::
    "ExecutionWorker \<Rightarrow> seller \<Rightarrow> poll_env \<Rightarrow> RecoveryJob list \<Rightarrow> nat \<Rightarrow> pse_world \<Rightarrow> (exn + nat) \<times> pse_world" where
  "run_jobs k seller env [] n w = (Inr n, w)"
| "run_jobs k seller env (job # jobs) n w =
     (if \<not> pe_running env n \<and> ew_startedByStart k then (Inr n, w)
      else (case processOne k seller (pe_feedback env n) job (pe_clock env n) w of
              (Inl e, w1) \<Rightarrow> (Inl e, w1)
            | (Inr out, w1) \<Rightarrow> run_jobs k seller env jobs (Suc n) w1))"

text \<open>What the scan's failure is logged as; the streak is what the alert counts.\<close>

datatype scan_log = Scan_ok | Scan_error nat | Scan_CRIT nat

definition scan_obligations :: "ExecutionWorker \<Rightarrow> poll_env \<Rightarrow> pse_world \<Rightarrow> scan_log \<times> ExecutionWorker \<times> pse_world" where
  "scan_obligations k env w =
     (case pe_scan env of
        None \<Rightarrow> (Scan_ok, k\<lparr>ew_scannerFailures := 0\<rparr>, snd (ensureExecutionObligations (ew_engine k) (pe_now env) w))
      | Some e \<Rightarrow>
          (let n = Suc (ew_scannerFailures k)
           in (if SCANNER_FAILURE_ALERT_THRESHOLD \<le> n then Scan_CRIT n else Scan_error n, k\<lparr>ew_scannerFailures := n\<rparr>, w)))"

definition runOnce :: "ExecutionWorker \<Rightarrow> seller \<Rightarrow> poll_env \<Rightarrow> pse_world \<Rightarrow>
    (exn + nat) \<times> scan_log \<times> ExecutionWorker \<times> pse_world" where
  "runOnce k seller env w =
     (case scan_obligations k env w of (log, k1, w1) \<Rightarrow>
     (case pe_fetch env of
        Some e \<Rightarrow> (Inl e, log, k1, w1)
      | None \<Rightarrow>
          (case run_jobs k1 seller env (slice_to (ew_batchSize k1) (getPendingJobs (pe_now env) (pw_exec w1))) 0 w1 of
             (r, w2) \<Rightarrow> (r, log, k1, w2))))"

definition poll_world :: "(exn + nat) \<times> scan_log \<times> ExecutionWorker \<times> pse_world \<Rightarrow> pse_world" where
  "poll_world p = snd (snd (snd p))"

section \<open>The loop and its switch\<close>

text \<open>
  \<open>start\<close> and \<open>stop\<close> flip the flag; every \<open>start\<close> of a stopped worker launches a loop. A live loop is
  polling or asleep, and looks at the flag only after the poll and when it wakes.
\<close>

datatype loop_phase = Polling | Sleeping

record lifecycle =
  lc_running :: bool
  lc_loops :: "loop_phase list"

definition stopped :: lifecycle where
  "stopped = \<lparr>lc_running = False, lc_loops = []\<rparr>"

definition start_worker :: "lifecycle \<Rightarrow> lifecycle" where
  "start_worker l = (if lc_running l then l else l\<lparr>lc_running := True, lc_loops := lc_loops l @ [Polling]\<rparr>)"

definition stop_worker :: "lifecycle \<Rightarrow> lifecycle" where
  "stop_worker l = l\<lparr>lc_running := False\<rparr>"

definition drop_at :: "nat \<Rightarrow> 'a list \<Rightarrow> 'a list" where
  "drop_at i xs = take i xs @ drop (Suc i) xs"

text \<open>The i-th loop reaches its next look at the flag: the end of a poll, or of a sleep.\<close>

definition loop_turn :: "nat \<Rightarrow> lifecycle \<Rightarrow> lifecycle" where
  "loop_turn i l =
     (if i < length (lc_loops l)
      then (if lc_running l
            then l\<lparr>lc_loops := (lc_loops l)[i := (case lc_loops l ! i of Polling \<Rightarrow> Sleeping | Sleeping \<Rightarrow> Polling)]\<rparr>
            else l\<lparr>lc_loops := drop_at i (lc_loops l)\<rparr>)
      else l)"

text \<open>The flag \<open>processing\<close> that \<open>stop\<close> waits for: no loop is inside a poll.\<close>

definition stop_may_return :: "lifecycle \<Rightarrow> bool" where
  "stop_may_return l = (Polling \<notin> set (lc_loops l))"

section \<open>The engine leaves the operations alone\<close>

abbreviation ops :: "pse_world \<Rightarrow> (string \<times> Operation) list" where
  "ops w \<equiv> ms_operations (pw_pay w)"

lemma appendEvidence_ops [simp]: "ops (appendEvidence i e p t w) = ops w"
  by (simp add: appendEvidence_def append_evidence_def)

lemma exec_do_ops: "exec_do f w = (b, w') \<Longrightarrow> ops w' = ops w"
  by (auto simp: exec_do_def split: prod.splits)

lemma exec_do_snd_ops [simp]: "ops (snd (exec_do f w)) = ops w"
  by (simp add: exec_do_def split: prod.splits)

lemma fresh_id_ops: "fresh_id cfg p t w = (i, w') \<Longrightarrow> ops w' = ops w"
  by (auto simp: fresh_id_def)

lemma call_seller_ops: "call_seller s tag r w = (x, w') \<Longrightarrow> ops w' = ops w"
  by (auto simp: call_seller_def)

lemma close_job_ops: "close_job k s g x t w = (b, w') \<Longrightarrow> ops w' = ops w"
  unfolding close_job_def by (rule exec_do_ops)

lemma close_job_snd_ops [simp]: "ops (snd (close_job k s g x t w)) = ops w"
  by (simp add: close_job_def)

lemmas ops_steps = exec_do_ops fresh_id_ops call_seller_ops close_job_ops

lemma try_retry_ops: "try_retry cfg job latest g e e' r t w = (out, w') \<Longrightarrow> ops w' = ops w"
  by (auto simp: try_retry_def split: prod.splits bool.splits dest!: ops_steps)

lemma recover_attempted_ops: "recover_attempted cfg job latest c g t w = (out, w') \<Longrightarrow> ops w' = ops w"
  by (auto simp: recover_attempted_def split: ExecutionCapability.splits prod.splits bool.splits if_splits
      dest!: ops_steps try_retry_ops)

lemma close_unknown_ops: "close_unknown job latest g t w = (out, w') \<Longrightarrow> ops w' = ops w"
  by (auto simp: close_unknown_def Let_def split: prod.splits bool.splits dest!: ops_steps)

lemma handle_result_ops: "handle_result cfg job latest c g t r w = (out, w') \<Longrightarrow> ops w' = ops w"
  by (cases r) (auto simp: Let_def split: prod.splits bool.splits if_splits dest!: ops_steps try_retry_ops)

lemma performRetrieval_ops: "performRetrieval cfg s job a g t w = (out, w') \<Longrightarrow> ops w' = ops w"
  by (auto simp: performRetrieval_def Let_def split: SellerExecutionResult.splits prod.splits bool.splits if_splits
      dest!: ops_steps)

lemma executeAttempt_ops: "executeAttempt cfg s i g k t w = (out, w') \<Longrightarrow> ops w' = ops w"
  by (erule executeAttempt_cases) (auto dest!: ops_steps split: if_splits)

lemma run_claimed_ops: "run_claimed cfg s job g t w = (out, w') \<Longrightarrow> ops w' = ops w"
  by (erule run_claimed_cases)
     (auto dest!: close_job_ops recover_attempted_ops close_unknown_ops performRetrieval_ops executeAttempt_ops handle_result_ops)

lemma processJob_ops: "processJob cfg s k t w = (out, w') \<Longrightarrow> ops w' = ops w"
  by (auto simp: processJob_def split: prod.splits option.splits dest!: run_claimed_ops)

lemma process_all_ops: "process_all cfg s ks t acc w = (out, w') \<Longrightarrow> ops w' = ops w"
  by (induction cfg s ks t acc w rule: process_all.induct)
     (auto split: prod.splits sum.splits dest!: processJob_ops)

lemma initiateExecution_ops: "initiateExecution cfg opId c b t w = (r, w') \<Longrightarrow> ops w' = ops w"
  by (auto simp: initiateExecution_def Let_def split: prod.splits option.splits if_splits dest!: ops_steps)

lemma ensure_one_ops: "ensure_one cfg t i (c, w) = (c', w') \<Longrightarrow> ops w' = ops w"
  by (auto simp: ensure_one_def Let_def split: prod.splits sum.splits if_splits
      dest!: initiateExecution_ops ops_steps)

lemma ensure_all_ops: "ops (snd (fold (ensure_one cfg t) is (c, w))) = ops w"
proof (induction "is" arbitrary: c w)
  case (Cons i "is")
  obtain c' w' where "ensure_one cfg t i (c, w) = (c', w')" by fastforce
  with Cons ensure_one_ops [OF this] show ?case by auto
qed simp

lemma ensure_ops: "ops (snd (ensureExecutionObligations cfg t w)) = ops w"
  by (simp add: ensureExecutionObligations_def ensure_all_ops)

section \<open>Polls are runs of the engine\<close>

lemma applyResult_step: "snd (applyResult opId f x t st) = st \<or> store_step st (snd (applyResult opId f x t st))"
  by (auto simp: applyResult_def intro: step_save split: option.splits prod.splits)

lemma feed_job_run: "engine_run uuid w \<Longrightarrow> engine_run uuid (feed_job k fault job out t w)"
  using applyResult_step [of "xj_operationId job" "jo_finalStatus out" "Some (result_extra (xj_jobId job) (jo_result out))" t "pw_pay w"]
  by (auto simp: feed_job_def intro: run_payment)

lemma processOne_run:
  "processOne k s fault job t w = (r, w') \<Longrightarrow> engine_run uuid w \<Longrightarrow> pc_uuid (ew_engine k) = uuid \<Longrightarrow> engine_run uuid w'"
  by (auto simp: processOne_def split: prod.splits sum.splits if_splits dest: run_process intro: feed_job_run)

lemma run_jobs_run:
  "run_jobs k s env jobs n w = (r, w') \<Longrightarrow> engine_run uuid w \<Longrightarrow> pc_uuid (ew_engine k) = uuid \<Longrightarrow> engine_run uuid w'"
  by (induction k s env jobs n w rule: run_jobs.induct)
     (auto split: prod.splits sum.splits if_splits dest: processOne_run)

lemma scan_run:
  assumes "scan_obligations k env w = (log, k', w')" "engine_run uuid w" "pc_uuid (ew_engine k) = uuid"
  shows "engine_run uuid w' \<and> pc_uuid (ew_engine k') = uuid"
  using assms run_ensure [OF assms(2,3) prod.collapse [symmetric]]
  by (auto simp: scan_obligations_def Let_def split: option.splits)

lemma poll_run:
  assumes "engine_run uuid w" "pc_uuid (ew_engine k) = uuid"
  shows "engine_run uuid (poll_world (runOnce k s env w))"
proof -
  obtain log k1 w1 where sc: "scan_obligations k env w = (log, k1, w1)" by (cases "scan_obligations k env w") auto
  from scan_run [OF sc assms] have 1: "engine_run uuid w1" "pc_uuid (ew_engine k1) = uuid" by auto
  obtain r w2 where jobs: "run_jobs k1 s env (slice_to (ew_batchSize k1) (getPendingJobs (pe_now env) (pw_exec w1))) 0 w1 = (r, w2)"
    by fastforce
  from run_jobs_run [OF jobs 1] 1 sc jobs show ?thesis by (simp add: runOnce_def poll_world_def split: option.splits)
qed

text \<open>A history of polls by several workers, each with its own seller answers and environment.\<close>

type_synonym poll = "ExecutionWorker \<times> seller \<times> poll_env"

definition poll_step :: "poll \<Rightarrow> pse_world \<Rightarrow> pse_world" where
  "poll_step p w = (case p of (k, s, env) \<Rightarrow> poll_world (runOnce k s env w))"

definition polled :: "poll list \<Rightarrow> pse_world \<Rightarrow> pse_world" where
  "polled = fold poll_step"

lemma polled_simps [simp]: "polled [] w = w" "polled (p # ps) w = polled ps (poll_step p w)"
  by (simp_all add: polled_def)

lemma polled_run:
  "engine_run uuid w \<Longrightarrow> \<forall>p \<in> set ps. pc_uuid (ew_engine (fst p)) = uuid \<Longrightarrow> engine_run uuid (polled ps w)"
  by (induction ps arbitrary: w) (auto simp: poll_step_def poll_run split: prod.splits)

section \<open>What a poll does to an operation\<close>

text \<open>Operations are stored under their own id, so a result only touches its own operation.\<close>

definition ops_keyed :: "mem_store \<Rightarrow> bool" where
  "ops_keyed st = (\<forall>k opn. getOperation st k = Some opn \<longrightarrow> op_operationId opn = k)"

lemma applyResult_moved:
  assumes "ops_keyed st" "fst (fst (applyResult opId f x t st))"
  shows "\<exists>opn'. op_operationId opn' = opId \<and>
    applyResult opId f x t st = ((True, Some (op_currentState opn')), saveOperation opn' st)"
proof -
  from assms(2) obtain opn where o1: "getOperation st opId = Some opn" by (auto simp: applyResult_def split: option.splits)
  from applyResult_applied [OF o1 assms(2)] obtain plan opn1 where
    d: "drive_plan (execution_adv f x t) (execution_skip f t) plan False opn = (True, opn1)"
    and r: "applyResult opId f x t st = ((True, Some (op_currentState opn1)), saveOperation opn1 st)" by blast
  from xf.drive_id [OF d] assms(1) o1 have "op_operationId opn1 = opId" by (simp add: ops_keyed_def)
  with r show ?thesis by blast
qed

lemma applyResult_saved:
  assumes "ops_keyed st"
  obtains (same) "snd (applyResult opId f x t st) = st"
  | (saved) opn' where "op_operationId opn' = opId" "snd (applyResult opId f x t st) = saveOperation opn' st"
  using applyResult_unapplied [of opId f x t st] applyResult_moved [OF assms, of opId f x t] by fastforce

lemma applyResult_other:
  assumes "ops_keyed st" "k \<noteq> opId"
  shows "getOperation (snd (applyResult opId f x t st)) k = getOperation st k"
  by (rule applyResult_saved [OF assms(1), of opId f x t])
     (use assms(2) in \<open>auto simp: getOperation_def saveOperation_def\<close>)

lemma saveOperation_keyed [simp]: "ops_keyed st \<Longrightarrow> ops_keyed (saveOperation opn st)"
  by (auto simp: ops_keyed_def getOperation_def saveOperation_def)

lemma applyResult_keyed: "ops_keyed st \<Longrightarrow> ops_keyed (snd (applyResult opId f x t st))"
  by (rule applyResult_saved [of st opId f x t]) auto

lemma applyResult_unknown:
  assumes "getOperation st opId = Some opn" "op_currentState opn = Op_EXECUTION_UNKNOWN"
  shows "snd (applyResult opId f x t st) = st"
  using assms by (cases f) (simp_all add: applyResult_def EXECUTION_TERMINAL_def isValidTransition_def)

text \<open>What the polls keep of an operation whose delivery is unknown.\<close>

definition op_stuck :: "string \<Rightarrow> Operation \<Rightarrow> pse_world \<Rightarrow> bool" where
  "op_stuck opId opn w = (ops_keyed (pw_pay w) \<and> getOperation (pw_pay w) opId = Some opn \<and>
     op_currentState opn = Op_EXECUTION_UNKNOWN)"

lemma op_stuck_ops: "ops w' = ops w \<Longrightarrow> op_stuck opId opn w' = op_stuck opId opn w"
  by (simp add: op_stuck_def ops_keyed_def getOperation_def)

lemma feed_job_stuck: "op_stuck opId opn w \<Longrightarrow> op_stuck opId opn (feed_job k fault job out t w)"
  using applyResult_other [of "pw_pay w" opId "xj_operationId job"] applyResult_unknown [of "pw_pay w" opId opn]
  by (cases "xj_operationId job = opId") (auto simp: op_stuck_def feed_job_def applyResult_keyed)

lemma processOne_stuck:
  assumes "processOne k s fault job t w = (r, w')" "op_stuck opId opn w"
  shows "op_stuck opId opn w'"
proof -
  obtain r1 w1 where p: "processJob (ew_engine k) s (xj_jobId job) t w = (r1, w1)" by fastforce
  with assms(2) have "op_stuck opId opn w1" by (simp add: op_stuck_ops [OF processJob_ops [OF p]])
  with assms(1) p show ?thesis by (auto simp: processOne_def intro: feed_job_stuck split: sum.splits)
qed

lemma run_jobs_stuck: "run_jobs k s env jobs n w = (r, w') \<Longrightarrow> op_stuck opId opn w \<Longrightarrow> op_stuck opId opn w'"
  by (induction k s env jobs n w rule: run_jobs.induct)
     (auto split: prod.splits sum.splits if_splits dest: processOne_stuck)

lemma scan_ops: "scan_obligations k env w = (log, k', w') \<Longrightarrow> ops w' = ops w"
  by (auto simp: scan_obligations_def Let_def ensure_ops split: option.splits)

lemma poll_stuck: "op_stuck opId opn w \<Longrightarrow> op_stuck opId opn (poll_step p w)"
  by (auto simp: poll_step_def runOnce_def poll_world_def op_stuck_ops [OF scan_ops]
      split: prod.splits option.splits dest: run_jobs_stuck)

lemma polled_stuck: "op_stuck opId opn w \<Longrightarrow> op_stuck opId opn (polled ps w)"
  by (induction ps arbitrary: w) (auto dest: poll_stuck)

text \<open>A success is reported with the final status SUCCESS.\<close>

lemma run_claimed_final:
  assumes "run_claimed cfg s job g t w = (Inr out, w')" "jo_success out"
  shows "jo_finalStatus out = F_SUCCESS"
  using assms(1)
proof (cases rule: run_claimed_cases)
  case (succeeded a b)
  with assms(2) show ?thesis by (auto simp: finish_def split: if_splits)
next
  case (retrieval a)
  with assms(2) show ?thesis
    by (auto simp: performRetrieval_def Let_def finish_def lost_def
        split: SellerExecutionResult.splits prod.splits bool.splits if_splits)
next
  case (answered a r w1)
  with assms(2) show ?thesis
    by (cases r) (auto simp: Let_def finish_def split: if_splits prod.splits bool.splits dest: try_retry_unsuccessful)
qed (use assms(2) recover_unsuccessful unknown_unsuccessful in blast)+

lemma processJob_final: "processJob cfg s k t w = (Inr out, w') \<Longrightarrow> jo_success out \<Longrightarrow> jo_finalStatus out = F_SUCCESS"
  by (auto simp: processJob_def split: prod.splits option.splits dest: run_claimed_final)

section \<open>Properties\<close>

text \<open>
  Property C8. Any number of execution workers may poll the same stores, in any order, over failing
  queries and whatever the sellers answer: a history of polls is a run of the engine, so no
  attempt is sent to the seller twice, and every request in the log is for a settled operation.
\<close>

theorem execution_polls_send_once:
  assumes "engine_run uuid w" "fresh_uuids uuid" "\<forall>p \<in> set ps. pc_uuid (ew_engine (fst p)) = uuid"
  shows "engine_run uuid (polled ps w) \<and> distinct (executed (pw_calls (polled ps w))) \<and>
    (\<forall>i r. ExecutionCall i r \<in> set (pw_calls (polled ps w)) \<longrightarrow> settled_op (pw_pay (polled ps w)) (rq_idempotencyKey r))"
proof -
  have run: "engine_run uuid (polled ps w)" using polled_run [OF assms(1,3)] .
  from engine_run_inv [OF this assms(2)] run show ?thesis
    by (auto simp: engine_inv_def calls_ok_def paid_ok_def) metis
qed

definition calm :: poll_env where
  "calm = \<lparr>pe_scan = None, pe_fetch = None, pe_now = 100, pe_running = (\<lambda>n. True), pe_clock = (\<lambda>n. 100),
     pe_feedback = (\<lambda>n. None)\<rparr>"

definition sample_worker :: ExecutionWorker where
  "sample_worker = newExecutionWorker sample_pse None None True"

definition settled_world :: pse_world where
  "settled_world = sample_initiated\<lparr>pw_pay := saveOperation (sample_operation Op_SETTLED) (pw_pay sample_initiated)\<rparr>"

lemma settled_world_run: "engine_run hex_of_nat settled_world"
  unfolding settled_world_def by (rule run_payment [OF sample_runs(1)]) (rule step_save)

theorem execution_polls_send_once_witness:
  "distinct (executed (pw_calls (polled [(sample_worker, sample_seller, calm), (sample_worker, silent_seller, calm)] settled_world))) \<and>
   executed (pw_calls (polled [(sample_worker, sample_seller, calm), (sample_worker, silent_seller, calm)] settled_world)) = [sample_attempt_id]"
proof
  show "distinct (executed (pw_calls (polled [(sample_worker, sample_seller, calm), (sample_worker, silent_seller, calm)] settled_world)))"
    using execution_polls_send_once [OF settled_world_run hex_uuids,
        of "[(sample_worker, sample_seller, calm), (sample_worker, silent_seller, calm)]"]
    by (simp add: sample_worker_def newExecutionWorker_def sample_uuid)
  show "executed (pw_calls (polled [(sample_worker, sample_seller, calm), (sample_worker, silent_seller, calm)] settled_world)) = [sample_attempt_id]"
    by code_simp
qed

text \<open>
  Property C28. Delivery is carried through to the operation: when a worker with a feedback service
  processes a job and the engine reports success, the job is COMPLETED, the operation has a
  recorded successful attempt, and an operation that was waiting for execution is now SUCCESS.
\<close>

theorem delivered_job_closes_operation:
  assumes "processOne k s None job t w = (Inr out, w')" "jo_success out" "ew_feedback k" "exec_ok (pw_exec w)"
    and "getOperation (pw_pay w) (xj_operationId job) = Some opn" "op_operationId opn = xj_operationId job"
    and "op_currentState opn = Op_SETTLED \<or> op_currentState opn = Op_EXECUTION_PENDING"
    and "getJob (pw_exec w) (xj_jobId job) = Some job"
  shows "job_status (pw_exec w') (xj_jobId job) = Some Jb_COMPLETED \<and>
    (\<exists>i a. getAttemptById (pw_exec w') i = Some a \<and> xa_operationId a = xj_operationId job \<and> xa_status a = Ob_SUCCESS) \<and>
    (\<exists>opn'. getOperation (pw_pay w') (xj_operationId job) = Some opn' \<and> op_currentState opn' = Op_SUCCESS)"
proof -
  from assms(1) obtain w1 where p: "processJob (ew_engine k) s (xj_jobId job) t w = (Inr out, w1)"
    and w': "w' = (if jo_finalStatus out = F_RUNNING then w1 else feed_job k None job out t w1)"
    by (auto simp: processOne_def split: prod.splits sum.splits)
  from processJob_final [OF p assms(2)] have fin: "jo_finalStatus out = F_SUCCESS" .
  have get: "getOperation (pw_pay w1) (xj_operationId job) = Some opn"
    using assms(5) processJob_ops [OF p] by (simp add: getOperation_def)
  let ?r = "applyResult (xj_operationId job) F_SUCCESS (Some (result_extra (xj_jobId job) (jo_result out))) t (pw_pay w1)"
  have lands: "fst ?r = (True, Some Op_SUCCESS)"
    using execution_result_lands_once [OF get assms(6,7), of F_SUCCESS] by simp
  from applyResult_applied [OF get] lands obtain plan opn1 where
    d: "drive_plan (execution_adv F_SUCCESS (Some (result_extra (xj_jobId job) (jo_result out))) t) (execution_skip F_SUCCESS t) plan False opn = (True, opn1)"
    and r: "?r = ((True, Some (op_currentState opn1)), saveOperation opn1 (pw_pay w1))" by (metis fst_conv)
  have "w' = w1\<lparr>pw_pay := saveOperation opn1 (pw_pay w1)\<rparr>" using w' fin assms(3) r by (simp add: feed_job_def)
  moreover have "op_currentState opn1 = Op_SUCCESS" using lands r by simp
  moreover have "getOperation (saveOperation opn1 (pw_pay w1)) (xj_operationId job) = Some opn1"
    using xf.drive_id [OF d] assms(6) by (simp add: getOperation_def saveOperation_def)
  ultimately show ?thesis using processJob_success [OF p assms(2,4)] assms(8) by auto
qed

definition settled_job :: RecoveryJob where
  "settled_job = (case getJob (pw_exec settled_world) sample_job_id of Some j \<Rightarrow> j)"

definition delivered :: "(exn + JobOutcome) \<times> pse_world" where
  "delivered = processOne sample_worker sample_seller None settled_job 100 settled_world"

theorem delivered_job_closes_operation_witness:
  "job_status (pw_exec (snd delivered)) sample_job_id = Some Jb_COMPLETED \<and>
   (\<exists>opn'. getOperation (pw_pay (snd delivered)) ''op1'' = Some opn' \<and> op_currentState opn' = Op_SUCCESS)"
proof -
  have ok: "case fst delivered of Inr out \<Rightarrow> jo_success out | Inl e \<Rightarrow> False" by code_simp
  then obtain out where out: "fst delivered = Inr out" "jo_success out" by (auto split: sum.splits)
  from out(1) have del: "delivered = (Inr out, snd delivered)" by (metis prod.collapse)
  have job: "getJob (pw_exec settled_world) sample_job_id = Some settled_job" by code_simp
  have ids: "xj_jobId settled_job = sample_job_id \<and> xj_operationId settled_job = ''op1''" by code_simp
  have opn: "getOperation (pw_pay settled_world) ''op1'' = Some (sample_operation Op_SETTLED)"
    by (simp add: settled_world_def getOperation_def saveOperation_def sample_operation_def)
  from engine_run_inv [OF settled_world_run hex_uuids] have "exec_ok (pw_exec settled_world)" by (simp add: engine_inv_def)
  from delivered_job_closes_operation [OF del [unfolded delivered_def] out(2) _ this, of "sample_operation Op_SETTLED"]
  show ?thesis using ids job opn by (simp add: delivered_def sample_worker_def newExecutionWorker_def sample_operation_def)
qed

text \<open>
  Property C30. A delivery that is unknown once stays unknown for the operation: after a job whose answer
  was an unknown delivery (also when the engine has created a retry) the operation is EXECUTION_UNKNOWN,
  and no further polls of any workers change it, even those in which the retry succeeds and the
  job is completed.
\<close>

theorem unknown_delivery_strands_operation:
  assumes "processOne k s None job t w = (Inr out, w1)" "ew_feedback k" "ops_keyed (pw_pay w)"
    and "jo_finalStatus out = F_DELIVERY_UNKNOWN \<or> jo_finalStatus out = F_UNRESOLVABLE"
    and "getOperation (pw_pay w) (xj_operationId job) = Some opn"
    and "op_currentState opn = Op_SETTLED \<or> op_currentState opn = Op_EXECUTION_PENDING"
  shows "\<exists>opn'. op_currentState opn' = Op_EXECUTION_UNKNOWN \<and> getOperation (pw_pay w1) (xj_operationId job) = Some opn' \<and>
    (\<forall>ps. getOperation (pw_pay (polled ps w1)) (xj_operationId job) = Some opn')"
proof -
  from assms(1) obtain w0 where p: "processJob (ew_engine k) s (xj_jobId job) t w = (Inr out, w0)"
    and w1: "w1 = (if jo_finalStatus out = F_RUNNING then w0 else feed_job k None job out t w0)"
    by (auto simp: processOne_def split: prod.splits sum.splits)
  have get: "getOperation (pw_pay w0) (xj_operationId job) = Some opn" and keyed: "ops_keyed (pw_pay w0)"
    using assms(3,5) processJob_ops [OF p] by (simp_all add: getOperation_def ops_keyed_def)
  have plan: "planExecutionTransitions (jo_finalStatus out) = Some [Op_EXECUTION_PENDING, Op_EXECUTION_UNKNOWN]"
    using assms(4) by auto
  have id: "op_operationId opn = xj_operationId job" using keyed get by (simp add: ops_keyed_def)
  let ?r = "applyResult (xj_operationId job) (jo_finalStatus out) (Some (result_extra (xj_jobId job) (jo_result out))) t (pw_pay w0)"
  have lands: "fst ?r = (True, Some Op_EXECUTION_UNKNOWN)"
    using execution_result_lands_once [OF get id assms(6) plan] assms(4) by auto
  then have "fst (fst ?r)" by simp
  from applyResult_moved [OF keyed this] obtain opn' where opn': "op_operationId opn' = xj_operationId job"
      "?r = ((True, Some (op_currentState opn')), saveOperation opn' (pw_pay w0))" by blast
  then have "op_stuck (xj_operationId job) opn' w1"
    using lands w1 assms(2,4) keyed by (auto simp: op_stuck_def feed_job_def)
  then show ?thesis using polled_stuck by (auto simp: op_stuck_def)
qed


definition busy_seller :: seller where "busy_seller log r = SR_HTTP_FAILURE 503 JNull [] 3"

definition busy_answer :: "(exn + JobOutcome) \<times> pse_world" where
  "busy_answer = processOne sample_worker busy_seller None settled_job 100 settled_world"

definition after_retry :: pse_world where
  "after_retry = polled [(sample_worker, sample_seller, calm\<lparr>pe_now := 200, pe_clock := (\<lambda>n. 200)\<rparr>)] (snd busy_answer)"

theorem unknown_delivery_strands_operation_witness:
  "job_status (pw_exec after_retry) sample_job_id = Some Jb_COMPLETED \<and> length (executed (pw_calls after_retry)) = 2 \<and>
   (\<exists>opn'. getOperation (pw_pay after_retry) ''op1'' = Some opn' \<and> op_currentState opn' = Op_EXECUTION_UNKNOWN)"
proof (intro conjI)
  show "job_status (pw_exec after_retry) sample_job_id = Some Jb_COMPLETED" by code_simp
  show "length (executed (pw_calls after_retry)) = 2" by code_simp
  have ok: "case fst busy_answer of Inr out \<Rightarrow> jo_finalStatus out = F_DELIVERY_UNKNOWN | Inl e \<Rightarrow> False" by code_simp
  then obtain out where out: "fst busy_answer = Inr out" "jo_finalStatus out = F_DELIVERY_UNKNOWN" by (auto split: sum.splits)
  from out(1) have ans: "busy_answer = (Inr out, snd busy_answer)" by (metis prod.collapse)
  have ids: "xj_operationId settled_job = ''op1''" by code_simp
  have ops: "ms_operations (pw_pay settled_world) = [(''op1'', sample_operation Op_SETTLED)]" by code_simp
  then have opn: "getOperation (pw_pay settled_world) ''op1'' = Some (sample_operation Op_SETTLED)"
    and keyed: "ops_keyed (pw_pay settled_world)"
    by (auto simp: getOperation_def ops_keyed_def js_get_def sample_operation_def)
  have feeds: "ew_feedback sample_worker" by (simp add: sample_worker_def newExecutionWorker_def)
  from unknown_delivery_strands_operation [OF ans [unfolded busy_answer_def] feeds keyed, of "sample_operation Op_SETTLED"]
    ids opn out(2) obtain opn' where "op_currentState opn' = Op_EXECUTION_UNKNOWN"
      "\<forall>ps. getOperation (pw_pay (polled ps (snd busy_answer))) ''op1'' = Some opn'"
    by (auto simp: sample_operation_def busy_answer_def)
  then show "\<exists>opn'. getOperation (pw_pay after_retry) ''op1'' = Some opn' \<and> op_currentState opn' = Op_EXECUTION_UNKNOWN"
    unfolding after_retry_def by blast
qed

text \<open>
  The recovery at startup processes the open jobs through the engine, without the worker: it closes
  jobs, but no result of it reaches an operation, and a closed job is not polled again.
\<close>

lemma recovery_feeds_nothing_back:
  "recoverPendingJobs cfg s t w = (r, w') \<Longrightarrow> getOperation (pw_pay w') opId = getOperation (pw_pay w) opId"
  by (auto simp: recoverPendingJobs_def getOperation_def dest: process_all_ops)

section \<open>The alert of the scanner\<close>

text \<open>The streak a history of polls has left, read off the errors of its scans.\<close>

fun streak :: "nat \<Rightarrow> exn option list \<Rightarrow> nat" where
  "streak n [] = n"
| "streak n (None # fs) = streak 0 fs"
| "streak n (Some e # fs) = streak (Suc n) fs"

fun scans :: "ExecutionWorker \<Rightarrow> (poll_env \<times> pse_world) list \<Rightarrow> ExecutionWorker" where
  "scans k [] = k"
| "scans k ((env, w) # ps) = scans (fst (snd (scan_obligations k env w))) ps"

lemma scans_streak: "ew_scannerFailures (scans k ps) = streak (ew_scannerFailures k) (map (pe_scan \<circ> fst) ps)"
proof (induction ps arbitrary: k)
  case (Cons p ps)
  obtain env w where "p = (env, w)" by fastforce
  with Cons show ?case by (cases "pe_scan env") (simp_all add: scan_obligations_def Let_def)
qed simp

lemma streak_append: "streak n (fs @ [f]) = (case f of None \<Rightarrow> 0 | Some e \<Rightarrow> Suc (streak n fs))"
  by (induction n fs rule: streak.induct) (auto split: option.splits)

lemma streak_trailing: "streak 0 fs = length (takeWhile (\<lambda>f. f \<noteq> None) (rev fs))"
proof (induction fs rule: rev_induct)
  case (snoc f fs)
  then show ?case by (cases f) (simp_all add: streak_append)
qed simp

text \<open>
  The scanner's alert counts exactly the failures since the last scan that worked: after any
  history of polls of a fresh worker, the next failing scan is logged as critical if and only if
  at least two scans directly before it failed as well.
\<close>

theorem scanner_alert_counts_streak:
  assumes "pe_scan env = Some e"
  shows "fst (scan_obligations (scans (newExecutionWorker cfg p b f) ps) env w) =
    (let n = Suc (length (takeWhile (\<lambda>f. f \<noteq> None) (rev (map (pe_scan \<circ> fst) ps))))
     in if 3 \<le> n then Scan_CRIT n else Scan_error n)"
  using assms scans_streak [of "newExecutionWorker cfg p b f" ps]
  by (simp add: scan_obligations_def Let_def SCANNER_FAILURE_ALERT_THRESHOLD_def newExecutionWorker_def streak_trailing)

theorem scanner_alert_counts_streak_witness:
  "fst (scan_obligations (scans sample_worker [(calm\<lparr>pe_scan := Some ''down''\<rparr>, settled_world), (calm, settled_world),
      (calm\<lparr>pe_scan := Some ''down''\<rparr>, settled_world), (calm\<lparr>pe_scan := Some ''down''\<rparr>, settled_world)])
      (calm\<lparr>pe_scan := Some ''down''\<rparr>) settled_world) = Scan_CRIT 3"
  using scanner_alert_counts_streak [of "calm\<lparr>pe_scan := Some ''down''\<rparr>" "''down''" sample_pse None None True
      "[(calm\<lparr>pe_scan := Some ''down''\<rparr>, settled_world), (calm, settled_world),
      (calm\<lparr>pe_scan := Some ''down''\<rparr>, settled_world), (calm\<lparr>pe_scan := Some ''down''\<rparr>, settled_world)]" settled_world]
  by (simp add: sample_worker_def calm_def)

section \<open>Start and stop\<close>

lemma start_twice: "start_worker (start_worker l) = start_worker l"
  by (simp add: start_worker_def)

text \<open>
  A worker that is stopped while its loop sleeps, and started again before the loop wakes, has two
  loops: the sleeping one finds the flag set and goes on.
\<close>

lemma restart_doubles_loop:
  "stop_may_return (stop_worker (loop_turn 0 (start_worker stopped))) \<and>
   lc_loops (loop_turn 0 (start_worker (stop_worker (loop_turn 0 (start_worker stopped))))) = [Polling, Polling]"
  by code_simp

end
