(* ===== verification/Eip3009Verifier.thy ===== *)
theory Eip3009Verifier
  imports FacilitatorVerify StageB
begin

text \<open>
  \<^verbatim>\<open>zeus-secretariat/src/core/eip3009-verifier.ts\<close>: the check of a signed payment payload against the
  durable intent of its request, before it is handed to the driver. Recovering a signer from typed
  data is viem's and a parameter. A payload is a JSON value whose objects have no \<open>toString\<close> of their own.
\<close>

section \<open>Verdicts\<close>

datatype VerificationErrorCode =
    PERSISTED_INTENT_LOOKUP_UNAVAILABLE | REQUEST_NOT_FOUND | MALFORMED_PAYLOAD | X402_VERSION_MISMATCH
  | NETWORK_MISMATCH | DOMAIN_MISMATCH | ASSET_MISMATCH | PAY_TO_MISMATCH | VALUE_MISMATCH | AUTHORIZER_MISMATCH
  | NONCE_MISMATCH | VALID_AFTER_MISMATCH | VALID_BEFORE_MISMATCH | INVALID_SIGNATURE

fun code_name :: "VerificationErrorCode \<Rightarrow> string" where
  "code_name PERSISTED_INTENT_LOOKUP_UNAVAILABLE = ''PERSISTED_INTENT_LOOKUP_UNAVAILABLE''"
| "code_name REQUEST_NOT_FOUND = ''REQUEST_NOT_FOUND''"
| "code_name MALFORMED_PAYLOAD = ''MALFORMED_PAYLOAD''"
| "code_name X402_VERSION_MISMATCH = ''X402_VERSION_MISMATCH''"
| "code_name NETWORK_MISMATCH = ''NETWORK_MISMATCH''"
| "code_name DOMAIN_MISMATCH = ''DOMAIN_MISMATCH''"
| "code_name ASSET_MISMATCH = ''ASSET_MISMATCH''"
| "code_name PAY_TO_MISMATCH = ''PAY_TO_MISMATCH''"
| "code_name VALUE_MISMATCH = ''VALUE_MISMATCH''"
| "code_name AUTHORIZER_MISMATCH = ''AUTHORIZER_MISMATCH''"
| "code_name NONCE_MISMATCH = ''NONCE_MISMATCH''"
| "code_name VALID_AFTER_MISMATCH = ''VALID_AFTER_MISMATCH''"
| "code_name VALID_BEFORE_MISMATCH = ''VALID_BEFORE_MISMATCH''"
| "code_name INVALID_SIGNATURE = ''INVALID_SIGNATURE''"

text \<open>The request id, then what the verdict names; the field is optional.\<close>

datatype Eip3009VerificationResult =
    Verified string string string
  | Invalid string VerificationErrorCode string "string option"

definition invalid :: "string \<Rightarrow> VerificationErrorCode \<Rightarrow> string \<Rightarrow> string option \<Rightarrow> Eip3009VerificationResult" where
  "invalid requestId code message field = Invalid requestId code message field"

section \<open>Comparisons\<close>

definition same :: "json \<Rightarrow> json \<Rightarrow> bool" where
  "same left right = (toLowerCase (js_String left) = toLowerCase (js_String right))"

fun isHex :: "json \<Rightarrow> bool" where
  "isHex (JStr s) = (take 2 s = ''0x'' \<and> list_all is_hex (drop 2 s))"
| "isHex _ = False"

definition sameOptionalDomainValue :: "json \<Rightarrow> json \<Rightarrow> bool" where
  "sameOptionalDomainValue payloadValue domainValue = (payloadValue = JUndefined \<or> same payloadValue domainValue)"

definition MAX_SAFE_INTEGER :: int where "MAX_SAFE_INTEGER = 2 ^ 53 - 1"

text \<open>\<open>Number.isSafeInteger(Number(text)) && Number(text) === n\<close>.\<close>

definition safe_number_is :: "string \<Rightarrow> int \<Rightarrow> bool" where
  "safe_number_is s n = (case Number_text s of None \<Rightarrow> False | Some m \<Rightarrow> \<bar>m\<bar> \<le> MAX_SAFE_INTEGER \<and> m = n)"

text \<open>\<open>BigInt(text)\<close> with the octal and binary literals an outside payload may hold.\<close>

definition BigInt_literal :: "string \<Rightarrow> int option" where
  "BigInt_literal s0 =
     (let s = trim s0; p = map to_lower_char (take 2 s) in
      if p = ''0o'' then prefixed octal_value 8 (drop 2 s)
      else if p = ''0b'' then prefixed binary_value 2 (drop 2 s)
      else BigInt s0)"

section \<open>The shape of a payload\<close>

definition authorization_of :: "json \<Rightarrow> json" where
  "authorization_of payload = json_field (json_field payload ''payload'') ''authorization''"

definition payloadShapeIsValid :: "json \<Rightarrow> bool" where
  "payloadShapeIsValid payload =
     (let accepted = json_field payload ''accepted''; body = json_field payload ''payload''; auth = authorization_of payload
      in json_truthy payload \<and> typeof_object payload \<and> json_field payload ''x402Version'' = JNum 2 \<and> json_truthy accepted \<and>
         is_str (json_field accepted ''network'') \<and> is_str (json_field accepted ''amount'') \<and>
         is_str (json_field accepted ''asset'') \<and> is_str (json_field accepted ''payTo'') \<and> json_truthy body \<and>
         is_str (json_field body ''signature'') \<and> json_truthy auth \<and> is_str (json_field auth ''from'') \<and>
         is_str (json_field auth ''to'') \<and> is_str (json_field auth ''value'') \<and> is_str (json_field auth ''validAfter'') \<and>
         is_str (json_field auth ''validBefore'') \<and> is_str (json_field auth ''nonce''))"

definition getDomainExtra :: "json \<Rightarrow> json option" where
  "getDomainExtra payload =
     (let extra = json_field (json_field payload ''accepted'') ''extra''
      in if json_truthy extra \<and> typeof_object extra then Some extra else None)"

definition EVM_ALIASES :: "string list" where
  "EVM_ALIASES = [''base'', ''base-sepolia'', ''base-mainnet'', ''x-layer'', ''xlayer'', ''bot-chain'', ''ethereum'', ''sepolia'',
     ''optimism'', ''arbitrum'', ''polygon'', ''avalanche'', ''abstract'', ''peaq'', ''story'', ''educhain'']"

definition isEvmNetwork :: "string \<Rightarrow> bool" where
  "isEvmNetwork network =
     (starts_with ''eip155:'' network \<and> drop 7 network \<noteq> [] \<and> list_all digit_char (drop 7 network) \<or>
      (\<exists>a \<in> set EVM_ALIASES. starts_with a (toLowerCase network)))"

section \<open>The binding to the intent\<close>

record Eip3009Domain =
  dm_name :: string
  dm_version :: string
  dm_chainId :: int
  dm_verifyingContract :: string

text \<open>The metadata a version 2 payload for an EVM network must carry, and must agree with.\<close>

definition nonempty_str :: "json \<Rightarrow> bool" where
  "nonempty_str v = (is_str v \<and> str_of v \<noteq> [])"

definition extra_field :: "json option \<Rightarrow> string \<Rightarrow> json" where
  "extra_field extra k = (case extra of None \<Rightarrow> JUndefined | Some x \<Rightarrow> json_field x k)"

definition domain_fits :: "json option \<Rightarrow> Eip3009Domain \<Rightarrow> bool" where
  "domain_fits extra domain =
     (case extra of None \<Rightarrow> True
      | Some x \<Rightarrow> sameOptionalDomainValue (json_field x ''name'') (JStr (dm_name domain)) \<and>
          sameOptionalDomainValue (json_field x ''version'') (JStr (dm_version domain)) \<and>
          sameOptionalDomainValue (json_field x ''chainId'') (JNum (dm_chainId domain)) \<and>
          sameOptionalDomainValue (json_field x ''verifyingContract'') (JStr (dm_verifyingContract domain)))"

definition checkBinding :: "string \<Rightarrow> json \<Rightarrow> DurablePaymentIntent \<Rightarrow> Eip3009Domain \<Rightarrow> Eip3009VerificationResult option" where
  "checkBinding requestId payload intent domain =
     (let auth = authorization_of payload; accepted = json_field payload ''accepted''; extra = getDomainExtra payload;
          bad = (\<lambda>code message field. Some (invalid requestId code message (Some field)))
      in
      if \<not> same (json_field accepted ''network'') (JStr (pi_network intent))
      then bad NETWORK_MISMATCH ''accepted.network is not bound to the persisted network'' ''network''
      else if \<not> same (json_field accepted ''asset'') (JStr (pi_asset intent))
      then bad ASSET_MISMATCH ''accepted.asset is not bound to the persisted token'' ''asset''
      else if \<not> same (JStr (dm_verifyingContract domain)) (JStr (pi_asset intent)) \<or>
              \<not> same (JStr (dm_verifyingContract domain)) (json_field accepted ''asset'')
      then bad DOMAIN_MISMATCH ''EIP-712 verifyingContract is not bound to the persisted token/domain'' ''domain.verifyingContract''
      else if \<not> same (json_field accepted ''payTo'') (JStr (pi_payTo intent))
      then bad PAY_TO_MISMATCH ''accepted.payTo is not bound to the persisted payTo'' ''payTo''
      else if \<not> same (json_field accepted ''amount'') (JStr (pi_value intent))
      then bad VALUE_MISMATCH ''accepted.amount is not bound to the persisted value'' ''value''
      else if \<not> same (json_field auth ''from'') (JStr (pi_authorizer intent))
      then bad AUTHORIZER_MISMATCH ''authorization.from is not bound to the persisted authorizer'' ''authorizer''
      else if \<not> same (json_field auth ''to'') (JStr (pi_payTo intent))
      then bad PAY_TO_MISMATCH ''authorization.to is not bound to the persisted payTo'' ''payTo''
      else if \<not> same (json_field auth ''value'') (JStr (pi_value intent))
      then bad VALUE_MISMATCH ''authorization.value is not bound to the persisted value'' ''value''
      else if \<not> same (json_field auth ''nonce'') (JStr (pi_nonce intent))
      then bad NONCE_MISMATCH ''authorization.nonce must equal the persisted nonce'' ''nonce''
      else if \<not> safe_number_is (str_of (json_field auth ''validAfter'')) (pi_validAfter intent)
      then bad VALID_AFTER_MISMATCH ''authorization.validAfter is not bound to the persisted validAfter'' ''validAfter''
      else if \<not> safe_number_is (str_of (json_field auth ''validBefore'')) (pi_validBefore intent)
      then bad VALID_BEFORE_MISMATCH ''authorization.validBefore is not bound to the persisted validBefore'' ''validBefore''
      else if json_field payload ''x402Version'' = JNum 2 \<and> isEvmNetwork (str_of (json_field accepted ''network'')) \<and>
              (\<not> nonempty_str (extra_field extra ''name'') \<or> \<not> nonempty_str (extra_field extra ''version''))
      then bad DOMAIN_MISMATCH
             ''v2 EVM payload must carry accepted.extra.name and accepted.extra.version (EIP-712 domain binding)'' ''domain.extra''
      else if \<not> domain_fits extra domain
      then bad DOMAIN_MISMATCH ''payload domain metadata does not match the persisted domain'' ''domain''
      else None)"

section \<open>The verifier\<close>

text \<open>
  Its store is the evidence store; \<open>vc_can_lookup\<close> tells whether that store has the lookup by request id,
  \<open>vc_can_append\<close> whether it takes observations. A fixed domain is a constant function.
\<close>

record VerifierConfig =
  vc_can_lookup :: bool
  vc_can_append :: bool
  vc_domain :: "DurablePaymentIntent \<Rightarrow> exn + Eip3009Domain"
  vc_verifyTypedData :: "string \<Rightarrow> TypedData \<Rightarrow> string \<Rightarrow> exn + bool"

definition signed_data :: "Eip3009Domain \<Rightarrow> VerifiedAuthorization \<Rightarrow> TypedData" where
  "signed_data domain auth =
     \<lparr>td_name = dm_name domain, td_version = dm_version domain, td_chainId = dm_chainId domain,
      td_verifyingContract = dm_verifyingContract domain, td_types = EIP3009_TRANSFER_WITH_AUTHORIZATION_TYPES,
      td_primaryType = ''TransferWithAuthorization'', td_message = auth\<rparr>"

definition signed_message :: "json \<Rightarrow> VerifiedAuthorization option" where
  "signed_message auth =
     (case (BigInt_literal (str_of (json_field auth ''value'')), BigInt_literal (str_of (json_field auth ''validAfter'')),
            BigInt_literal (str_of (json_field auth ''validBefore''))) of
        (Some v, Some a, Some b) \<Rightarrow>
          Some \<lparr>va_from = str_of (json_field auth ''from''), va_to = str_of (json_field auth ''to''), va_value = v,
                va_validAfter = a, va_validBefore = b, va_nonce = str_of (json_field auth ''nonce'')\<rparr>
      | _ \<Rightarrow> None)"

definition check_typed_data ::
    "VerifierConfig \<Rightarrow> string \<Rightarrow> json \<Rightarrow> DurablePaymentIntent \<Rightarrow> Eip3009Domain \<Rightarrow> Eip3009VerificationResult" where
  "check_typed_data c requestId payload intent domain =
     (let auth = authorization_of payload; signature = str_of (json_field (json_field payload ''payload'') ''signature'');
          unverifiable = invalid requestId INVALID_SIGNATURE ''The EIP-712 signature could not be verified'' (Some ''signature'')
      in case signed_message auth of
           None \<Rightarrow> unverifiable
         | Some m \<Rightarrow>
             (case vc_verifyTypedData c (va_from m) (signed_data domain m) signature of
                Inl e \<Rightarrow> unverifiable
              | Inr False \<Rightarrow> invalid requestId INVALID_SIGNATURE ''The EIP-712 signature is not valid'' (Some ''signature'')
              | Inr True \<Rightarrow> Verified requestId (pi_paymentIntentId intent) (pi_authorizer intent)))"

definition verification ::
    "VerifierConfig \<Rightarrow> mem_store \<Rightarrow> string \<Rightarrow> json \<Rightarrow> Eip3009VerificationResult \<times> DurablePaymentIntent option" where
  "verification c st requestId payload =
     (if \<not> vc_can_lookup c
      then (invalid requestId PERSISTED_INTENT_LOOKUP_UNAVAILABLE
              ''The configured store cannot load a payment intent by requestId'' None, None)
      else (case getPaymentIntentByRequestId st requestId of
        None \<Rightarrow> (invalid requestId REQUEST_NOT_FOUND ''No persisted payment intent exists for requestId'' None, None)
      | Some intent \<Rightarrow>
          (let malformed = invalid requestId MALFORMED_PAYLOAD ''The signed payment payload is not a canonical x402 V2 payload'' None
           in (if \<not> typeof_object payload \<or> payload = JNull then malformed
               else if json_field payload ''x402Version'' \<noteq> JNum 2
               then invalid requestId X402_VERSION_MISMATCH ''Only x402 V2 payment payloads are supported'' (Some ''x402Version'')
               else if \<not> payloadShapeIsValid payload then malformed
               else (case vc_domain c intent of
                  Inl e \<Rightarrow> invalid requestId DOMAIN_MISMATCH
                      ''The EIP-712 domain could not be resolved from persisted intent context'' (Some ''domain'')
                | Inr domain \<Rightarrow>
                    (case checkBinding requestId payload intent domain of
                       Some r \<Rightarrow> r
                     | None \<Rightarrow>
                         (let auth = authorization_of payload in
                          if \<not> isAddress (json_field auth ''from'') \<or> \<not> isAddress (json_field auth ''to'') \<or>
                             \<not> isAddress (JStr (dm_verifyingContract domain)) \<or> \<not> isHex (json_field auth ''nonce'') \<or>
                             \<not> isHex (json_field (json_field payload ''payload'') ''signature'')
                          then invalid requestId MALFORMED_PAYLOAD ''EIP-3009 address, nonce, or signature encoding is invalid'' None
                          else check_typed_data c requestId payload intent domain))), Some intent))))"

fun observation :: "string \<Rightarrow> Eip3009VerificationResult \<Rightarrow> DurablePaymentIntent option \<Rightarrow> int \<Rightarrow> EvidenceRecord" where
  "observation requestId (Verified r k a) intent t =
     \<lparr>ev_operationId = opt_default requestId (map_option pi_operationId intent), ev_phase = PAYMENT, ev_timestamp = t,
      ev_event = ''PAYMENT_VERIFIED'',
      ev_payload = JObj [(''requestId'', JStr requestId), (''paymentIntentId'', JStr k), (''authorizer'', JStr a),
                         (''source'', JStr ''eip3009-verifier'')], ev_sequence = None\<rparr>"
| "observation requestId (Invalid r code message field) intent t =
     \<lparr>ev_operationId = opt_default requestId (map_option pi_operationId intent), ev_phase = PAYMENT, ev_timestamp = t,
      ev_event = ''PAYMENT_VERIFICATION_REJECTED'',
      ev_payload = JObj [(''requestId'', JStr requestId), (''code'', JStr (code_name code)), (''field'', opt_str field),
                         (''message'', JStr message), (''source'', JStr ''eip3009-verifier'')], ev_sequence = None\<rparr>"

definition recordObservation ::
    "VerifierConfig \<Rightarrow> string \<Rightarrow> Eip3009VerificationResult \<Rightarrow> DurablePaymentIntent option \<Rightarrow> int \<Rightarrow> mem_store \<Rightarrow> mem_store" where
  "recordObservation c requestId result intent t st =
     (if vc_can_append c then append_evidence (observation requestId result intent t) st else st)"

definition verify :: "VerifierConfig \<Rightarrow> string \<Rightarrow> json \<Rightarrow> int \<Rightarrow> mem_store \<Rightarrow> Eip3009VerificationResult \<times> mem_store" where
  "verify c requestId payload t st =
     (case verification c st requestId payload of
        (result, intent) \<Rightarrow> (result, recordObservation c requestId result intent t st))"

section \<open>Numbers in either letter case\<close>

lemma lower_code: "char_code (to_lower_char c) = (if 65 \<le> char_code c \<and> char_code c \<le> 90 then char_code c + 32 else char_code c)"
  by (simp add: to_lower_char_def char_code_def)

lemma value_lower [simp]:
  "digit_value (to_lower_char c) = digit_value c" "hex_value (to_lower_char c) = hex_value c"
  "is_blank (to_lower_char c) = is_blank c"
  by (simp_all add: digit_value_def hex_value_def is_blank_def lower_code Let_def)

lemma value_lower' [simp]:
  "octal_value (to_lower_char c) = octal_value c" "binary_value (to_lower_char c) = binary_value c"
  "to_lower_char (to_lower_char c) = to_lower_char c"
  by (simp_all add: octal_value_def binary_value_def) (auto simp: to_lower_char_def [of "to_lower_char c"] lower_code)

lemma char_code_eq: "c = d \<longleftrightarrow> char_code c = char_code d"
  by (auto simp: char_code_def)

lemma lower_eq:
  "to_lower_char c = CHR ''-'' \<longleftrightarrow> c = CHR ''-''" "to_lower_char c = CHR ''+'' \<longleftrightarrow> c = CHR ''+''"
  "to_lower_char c = CHR ''0'' \<longleftrightarrow> c = CHR ''0''"
  "to_lower_char c = CHR ''x'' \<longleftrightarrow> c = CHR ''x'' \<or> c = CHR ''X''" "to_lower_char c = CHR ''X'' \<longleftrightarrow> False"
  by (auto simp: char_code_eq [of "to_lower_char c"] char_code_eq [of c] lower_code) (simp_all add: char_code_def)

lemma trim_lower: "trim (map to_lower_char s) = map to_lower_char (trim s)"
  by (simp add: trim_def dropWhile_map rev_map comp_def)

lemma read_digits_lower: "(\<And>c. val (to_lower_char c) = val c) \<Longrightarrow> read_digits val b acc (map to_lower_char s) = read_digits val b acc s"
  by (induction s arbitrary: acc) (auto split: option.splits)

lemma prefixed_lower: "(\<And>c. val (to_lower_char c) = val c) \<Longrightarrow> prefixed val b (map to_lower_char s) = prefixed val b s"
  by (simp add: prefixed_def read_digits_lower)

lemma starts_0x_lower:
  "starts_with ''0x'' (map to_lower_char s) \<or> starts_with ''0X'' (map to_lower_char s) \<longleftrightarrow> starts_with ''0x'' s \<or> starts_with ''0X'' s"
  by (cases s; cases "tl s") (auto simp: starts_with_def lower_eq)

lemma BigInt_lower: "BigInt (map to_lower_char s) = BigInt s"
  by (cases "trim s = []")
     (simp_all add: BigInt_def Let_def trim_lower drop_map read_digits_lower starts_0x_lower hd_map lower_eq map_tl [symmetric])

lemma BigInt_literal_lower: "BigInt_literal (toLowerCase s) = BigInt_literal s"
  by (simp add: BigInt_literal_def Let_def toLowerCase_def trim_lower take_map drop_map prefixed_lower BigInt_lower comp_def)

text \<open>What \<open>BigInt\<close> reads, \<open>Number\<close> reads as well.\<close>

lemma read_digits_digits: "read_digits digit_value b acc s = Some n \<Longrightarrow> list_all digit_char s"
  by (induction s arbitrary: acc) (auto simp: digit_char_def split: option.splits)

lemma unsigned_digits: "read_digits digit_value 10 0 s = Some n \<Longrightarrow> s \<noteq> [] \<Longrightarrow> unsigned_decimal s = Some n"
  using read_digits_digits [of 10 0 s n]
  by (simp add: unsigned_decimal_def Let_def list_all_iff digits_num_def exponent_def takeWhile_eq_all_conv [THEN iffD2]
      dropWhile_eq_Nil_conv [THEN iffD2])

lemma BigInt_Number:
  assumes "BigInt_literal s = Some n"
  shows "Number_text s = Some n"
proof -
  let ?s = "trim s" let ?p = "map to_lower_char (take 2 (trim s))"
  have p: "?p = ''0x'' \<longleftrightarrow> starts_with ''0x'' ?s \<or> starts_with ''0X'' ?s" if "?s \<noteq> []"
    using that by (cases ?s; cases "tl ?s") (auto simp: starts_with_def lower_eq)
  show ?thesis
    using assms p
    by (cases "?s = []"; cases "?p = ''0o''"; cases "?p = ''0b''")
       (auto simp: BigInt_literal_def Number_text_def BigInt_def Let_def prefixed_def unsigned_digits split: if_splits)
qed

section \<open>What a valid verdict is worth\<close>

lemma checkBinding_None:
  assumes "checkBinding requestId payload i domain = None"
  shows "let auth = authorization_of payload; accepted = json_field payload ''accepted''; extra = getDomainExtra payload in
     same (json_field accepted ''network'') (JStr (pi_network i)) \<and> same (json_field accepted ''asset'') (JStr (pi_asset i)) \<and>
     same (JStr (dm_verifyingContract domain)) (JStr (pi_asset i)) \<and>
     same (json_field accepted ''payTo'') (JStr (pi_payTo i)) \<and> same (json_field accepted ''amount'') (JStr (pi_value i)) \<and>
     same (json_field auth ''from'') (JStr (pi_authorizer i)) \<and> same (json_field auth ''to'') (JStr (pi_payTo i)) \<and>
     same (json_field auth ''value'') (JStr (pi_value i)) \<and> same (json_field auth ''nonce'') (JStr (pi_nonce i)) \<and>
     safe_number_is (str_of (json_field auth ''validAfter'')) (pi_validAfter i) \<and>
     safe_number_is (str_of (json_field auth ''validBefore'')) (pi_validBefore i) \<and>
     (json_field payload ''x402Version'' = JNum 2 \<and> isEvmNetwork (str_of (json_field accepted ''network'')) \<longrightarrow>
        nonempty_str (extra_field extra ''name'') \<and> nonempty_str (extra_field extra ''version'')) \<and> domain_fits extra domain"
  using assms unfolding checkBinding_def Let_def by (simp split: if_splits)

lemma typed_data_valid:
  assumes "check_typed_data c requestId payload i domain = Verified r k a"
  shows "r = requestId \<and> k = pi_paymentIntentId i \<and> a = pi_authorizer i \<and>
    (\<exists>m. signed_message (authorization_of payload) = Some m \<and>
       vc_verifyTypedData c (va_from m) (signed_data domain m) (str_of (json_field (json_field payload ''payload'') ''signature'')) = Inr True)"
  using assms by (auto simp: check_typed_data_def invalid_def Let_def split: option.splits sum.splits bool.splits)

lemma checkBinding_not_valid: "checkBinding requestId payload i domain \<noteq> Some (Verified r k a)"
  by (simp add: checkBinding_def invalid_def Let_def)

lemma verification_valid:
  assumes "verification c st requestId payload = (Verified r k a, oi)"
  obtains i domain where "getPaymentIntentByRequestId st requestId = Some i" "oi = Some i" "vc_domain c i = Inr domain"
    "payloadShapeIsValid payload" "checkBinding requestId payload i domain = None"
    "check_typed_data c requestId payload i domain = Verified r k a"
    "isHex (json_field (json_field payload ''payload'') ''signature'')"
  using assms checkBinding_not_valid
  by (auto simp: verification_def invalid_def Let_def split: if_splits option.splits sum.splits)

lemma same_str: "is_str v \<Longrightarrow> same v (JStr s) \<longleftrightarrow> toLowerCase (str_of v) = toLowerCase s"
  by (cases v) (auto simp: same_def)

lemma safe_bigint:
  assumes "safe_number_is s n" "BigInt_literal s = Some m"
  shows "m = n"
  using assms BigInt_Number [of s m] by (simp add: safe_number_is_def)

lemma same_bigint: "toLowerCase s = toLowerCase u \<Longrightarrow> BigInt_literal s = BigInt_literal u"
  by (metis BigInt_literal_lower)

lemma verdict_signed:
  assumes "fst (verify c requestId payload t st) = Verified r k a"
  shows "\<exists>i domain m. getPaymentIntentByRequestId st requestId = Some i \<and> vc_domain c i = Inr domain \<and>
    r = requestId \<and> k = pi_paymentIntentId i \<and> a = pi_authorizer i \<and>
    signed_message (authorization_of payload) = Some m \<and>
    vc_verifyTypedData c (va_from m) (signed_data domain m)
      (str_of (json_field (json_field payload ''payload'') ''signature'')) = Inr True \<and>
    toLowerCase (va_from m) = toLowerCase (pi_authorizer i) \<and> toLowerCase (va_to m) = toLowerCase (pi_payTo i) \<and>
    Some (va_value m) = BigInt_literal (pi_value i) \<and> toLowerCase (va_nonce m) = toLowerCase (pi_nonce i) \<and>
    va_validAfter m = pi_validAfter i \<and> va_validBefore m = pi_validBefore i \<and>
    toLowerCase (dm_verifyingContract domain) = toLowerCase (pi_asset i) \<and>
    (let accepted = json_field payload ''accepted'' in
      same (json_field accepted ''network'') (JStr (pi_network i)) \<and> same (json_field accepted ''asset'') (JStr (pi_asset i)) \<and>
      same (json_field accepted ''payTo'') (JStr (pi_payTo i)) \<and> same (json_field accepted ''amount'') (JStr (pi_value i))) \<and>
    (isEvmNetwork (str_of (json_field (json_field payload ''accepted'') ''network'')) \<longrightarrow>
       same (extra_field (getDomainExtra payload) ''name'') (JStr (dm_name domain)) \<and>
       same (extra_field (getDomainExtra payload) ''version'') (JStr (dm_version domain)))"
proof -
  obtain oi where v: "verification c st requestId payload = (Verified r k a, oi)"
    using assms by (cases "verification c st requestId payload") (simp add: verify_def)
  from v obtain i domain where i: "getPaymentIntentByRequestId st requestId = Some i" "vc_domain c i = Inr domain"
    and shape: "payloadShapeIsValid payload" and bind: "checkBinding requestId payload i domain = None"
    and td: "check_typed_data c requestId payload i domain = Verified r k a"
    by (rule verification_valid)
  let ?auth = "authorization_of payload"
  from typed_data_valid [OF td] obtain m where m: "signed_message ?auth = Some m"
    and sig: "vc_verifyTypedData c (va_from m) (signed_data domain m) (str_of (json_field (json_field payload ''payload'') ''signature'')) = Inr True"
    and ids: "r = requestId" "k = pi_paymentIntentId i" "a = pi_authorizer i" by blast
  from shape have strs: "is_str (json_field ?auth ''from'')" "is_str (json_field ?auth ''to'')" "is_str (json_field ?auth ''value'')"
    "is_str (json_field ?auth ''nonce'')" and two: "json_field payload ''x402Version'' = JNum 2"
    by (simp_all add: payloadShapeIsValid_def Let_def)
  note b = checkBinding_None [OF bind, unfolded Let_def]
  from m have fields: "va_from m = str_of (json_field ?auth ''from'')" "va_to m = str_of (json_field ?auth ''to'')"
    "va_nonce m = str_of (json_field ?auth ''nonce'')"
    "BigInt_literal (str_of (json_field ?auth ''value'')) = Some (va_value m)"
    "BigInt_literal (str_of (json_field ?auth ''validAfter'')) = Some (va_validAfter m)"
    "BigInt_literal (str_of (json_field ?auth ''validBefore'')) = Some (va_validBefore m)"
    by (auto simp: signed_message_def split: option.splits)
  have "Some (va_value m) = BigInt_literal (pi_value i)"
    using fields(4) b same_str [OF strs(3)] same_bigint by metis
  moreover have "va_validAfter m = pi_validAfter i" "va_validBefore m = pi_validBefore i"
    using safe_bigint [OF _ fields(5)] safe_bigint [OF _ fields(6)] b by blast+
  moreover have "toLowerCase (va_from m) = toLowerCase (pi_authorizer i)" "toLowerCase (va_to m) = toLowerCase (pi_payTo i)"
    "toLowerCase (va_nonce m) = toLowerCase (pi_nonce i)"
    using b fields(1-3) same_str [OF strs(1)] same_str [OF strs(2)] same_str [OF strs(4)] by auto
  moreover have "toLowerCase (dm_verifyingContract domain) = toLowerCase (pi_asset i)"
    using b by (simp add: same_def)
  moreover have "same (extra_field (getDomainExtra payload) ''name'') (JStr (dm_name domain)) \<and>
       same (extra_field (getDomainExtra payload) ''version'') (JStr (dm_version domain))"
    if "isEvmNetwork (str_of (json_field (json_field payload ''accepted'') ''network''))"
    using b two that by (auto simp: extra_field_def domain_fits_def sameOptionalDomainValue_def nonempty_str_def split: option.splits)
  moreover have "let accepted = json_field payload ''accepted'' in
      same (json_field accepted ''network'') (JStr (pi_network i)) \<and> same (json_field accepted ''asset'') (JStr (pi_asset i)) \<and>
      same (json_field accepted ''payTo'') (JStr (pi_payTo i)) \<and> same (json_field accepted ''amount'') (JStr (pi_value i))"
    using b by (simp add: Let_def)
  ultimately show ?thesis using i ids sig m by (intro exI [of _ i] exI [of _ domain] exI [of _ m] conjI) auto
qed

text \<open>
  Property C11. A valid verdict means that the signature in the payload is the intent's authorizer's over the message in
  the payload, and that this message pays the intent's value to its payee with its nonce and exactly its time
  window, in the domain resolved from the intent and on the intent's asset. The terms the payload accepts are
  the intent's network, asset, payee and amount; on an EVM network the payload itself names the domain.
\<close>

theorem valid_verdict_binds_signature:
  assumes "fst (verify c requestId payload t st) = Verified r k a"
  shows "\<exists>i domain m. getPaymentIntentByRequestId st requestId = Some i \<and> vc_domain c i = Inr domain \<and>
    r = requestId \<and> k = pi_paymentIntentId i \<and> a = pi_authorizer i \<and>
    signed_message (authorization_of payload) = Some m \<and>
    vc_verifyTypedData c (va_from m) (signed_data domain m)
      (str_of (json_field (json_field payload ''payload'') ''signature'')) = Inr True \<and>
    toLowerCase (va_from m) = toLowerCase (pi_authorizer i) \<and> toLowerCase (va_to m) = toLowerCase (pi_payTo i) \<and>
    Some (va_value m) = BigInt_literal (pi_value i) \<and> toLowerCase (va_nonce m) = toLowerCase (pi_nonce i) \<and>
    va_validAfter m = pi_validAfter i \<and> va_validBefore m = pi_validBefore i \<and>
    toLowerCase (dm_verifyingContract domain) = toLowerCase (pi_asset i) \<and>
    (let accepted = json_field payload ''accepted'' in
      same (json_field accepted ''network'') (JStr (pi_network i)) \<and> same (json_field accepted ''asset'') (JStr (pi_asset i)) \<and>
      same (json_field accepted ''payTo'') (JStr (pi_payTo i)) \<and> same (json_field accepted ''amount'') (JStr (pi_value i))) \<and>
    (isEvmNetwork (str_of (json_field (json_field payload ''accepted'') ''network'')) \<longrightarrow>
       same (extra_field (getDomainExtra payload) ''name'') (JStr (dm_name domain)) \<and>
       same (extra_field (getDomainExtra payload) ''version'') (JStr (dm_version domain)))"
  using assms by (rule verdict_signed)

definition payload_intent :: DurablePaymentIntent where
  "payload_intent = (sample_intent ''pi1'' ''op1'' St_PENDING_SIGNATURE)\<lparr>pi_requestId := Some ''r1'',
     pi_authorizer := hexes 40 CHR ''a'', pi_payTo := hexes 40 CHR ''b'', pi_value := ''25'',
     pi_asset := ''0x036cbd53842c5426634e7929541ec2318f3dcf7e'', pi_network := ''eip155:84532'',
     pi_nonce := ''0x07'', pi_validAfter := 0, pi_validBefore := 100\<rparr>"

definition payload_store :: mem_store where
  "payload_store = snd (createPaymentIntent payload_intent empty_store)"

definition demo_verifier :: VerifierConfig where
  "demo_verifier = \<lparr>vc_can_lookup = True, vc_can_append = True,
     vc_domain = (\<lambda>i. Inr \<lparr>dm_name = ''USDC'', dm_version = ''2'', dm_chainId = 84532, dm_verifyingContract = pi_asset i\<rparr>),
     vc_verifyTypedData = (\<lambda>addr d sig. Inr (addr = va_from (td_message d)))\<rparr>"

definition demo_payload :: json where
  "demo_payload = JObj
     [(''x402Version'', JNum 2), (''accepted'', demo_terms ''0x036cbd53842c5426634e7929541ec2318f3dcf7e''),
      (''payload'', JObj [(''signature'', JStr ''0x11''),
         (''authorization'', JObj [(''from'', JStr (hexes 40 CHR ''a'')), (''to'', JStr (hexes 40 CHR ''b'')), (''value'', JStr ''25''),
            (''validAfter'', JStr ''0''), (''validBefore'', JStr ''100''), (''nonce'', JStr ''0x07'')])])]"

lemma demo_valid: "fst (verify demo_verifier ''r1'' demo_payload 5 payload_store) = Verified ''r1'' ''pi1'' (hexes 40 CHR ''a'')"
  by code_simp

theorem valid_verdict_binds_signature_witness:
  "\<exists>i (m :: VerifiedAuthorization). getPaymentIntentByRequestId payload_store ''r1'' = Some i \<and>
     toLowerCase (va_to m) = toLowerCase (pi_payTo i) \<and> va_validBefore m = pi_validBefore i"
  using valid_verdict_binds_signature [OF demo_valid] by blast

lemma verification_append [simp]:
  "verification (c\<lparr>vc_can_append := b\<rparr>) st requestId payload = verification c st requestId payload"
  by (simp add: verification_def check_typed_data_def Let_def cong: option.case_cong sum.case_cong if_cong)

text \<open>
  Verification observes and never acts: it appends exactly one record, of the verdict, to the
  operation of the request's intent, leaves every other evidence, the intents and the operations as
  they are, and answers the same over a store that takes no observations.
\<close>

theorem verdict_is_recorded_once:
  assumes "vc_can_append c" "verify c requestId payload t st = (result, st')"
  shows "(\<exists>rec. ev_event rec = (case result of Verified r k a \<Rightarrow> ''PAYMENT_VERIFIED'' | _ \<Rightarrow> ''PAYMENT_VERIFICATION_REJECTED'') \<and>
      (\<forall>i. vc_can_lookup c \<and> getPaymentIntentByRequestId st requestId = Some i \<longrightarrow> ev_operationId rec = pi_operationId i) \<and>
      (\<forall>opId. getEvidence st' opId = getEvidence st opId @ (if opId = ev_operationId rec then [rec] else []))) \<and>
    ms_intents st' = ms_intents st \<and> ms_operations st' = ms_operations st \<and>
    verify (c\<lparr>vc_can_append := False\<rparr>) requestId payload t st = (result, st)"
proof -
  obtain oi where v: "verification c st requestId payload = (result, oi)"
    using assms(2) by (cases "verification c st requestId payload") (simp add: verify_def)
  let ?rec = "observation requestId result oi t"
  have st': "st' = append_evidence ?rec st" using assms v by (simp add: verify_def recordObservation_def)
  have op: "ev_operationId ?rec = pi_operationId i"
    if "vc_can_lookup c \<and> getPaymentIntentByRequestId st requestId = Some i" for i
    using v that by (cases result) (auto simp: verification_def Let_def)
  have "ev_event ?rec = (case result of Verified r k a \<Rightarrow> ''PAYMENT_VERIFIED'' | _ \<Rightarrow> ''PAYMENT_VERIFICATION_REJECTED'')"
    by (cases result) simp_all
  then show ?thesis
    using op v by (intro conjI exI [of _ ?rec])
      (auto simp: st' append_evidence_def getEvidence_def verify_def recordObservation_def)
qed

theorem verdict_is_recorded_once_witness:
  "\<exists>rec. ev_event rec = ''PAYMENT_VERIFICATION_REJECTED'' \<and>
     getEvidence (snd (verify demo_verifier ''r1'' JNull 5 payload_store)) ''op1'' = [rec]"
proof -
  have ev: "getEvidence payload_store k = []" for k by (simp add: getEvidence_def payload_store_def createPaymentIntent_def empty_store_def)
  have res: "verify demo_verifier ''r1'' JNull 5 payload_store = (invalid ''r1'' MALFORMED_PAYLOAD
      ''The signed payment payload is not a canonical x402 V2 payload'' None, snd (verify demo_verifier ''r1'' JNull 5 payload_store))"
    by (rule prod_eqI, code_simp) simp
  have look: "map_option pi_operationId (getPaymentIntentByRequestId payload_store ''r1'') = Some ''op1''" by code_simp
  from verdict_is_recorded_once [OF _ res] look ev show ?thesis
    by (auto simp: demo_verifier_def invalid_def)
qed

text \<open>
  The verifier and the driver agree: a payload that the verifier finds valid passes the driver's own
  check of an external payload against the same intent and the requirement the intent was made from.
\<close>

theorem valid_payload_passes_stage_b:
  assumes "fst (verify c requestId payload t st) = Verified r k a"
    and "getPaymentIntentByRequestId st requestId = Some i"
    and "same_text (JStr (req_network req)) (pi_network i)" "same_text (JStr (req_asset req)) (pi_asset i)"
    and "same_text (JStr (req_amount req)) (pi_value i)" "same_text (JStr (req_payee req)) (pi_payTo i)"
  shows "validateExternalPaymentPayload payload i req = Inr ()"
proof -
  obtain oi where v: "verification c st requestId payload = (Verified r k a, oi)"
    using assms(1) by (cases "verification c st requestId payload") (simp add: verify_def)
  from v obtain i' domain where i': "getPaymentIntentByRequestId st requestId = Some i'"
    and shape: "payloadShapeIsValid payload" and bind': "checkBinding requestId payload i' domain = None"
    and hex: "isHex (json_field (json_field payload ''payload'') ''signature'')"
    by (rule verification_valid)
  from i' assms(2) bind' have bind: "checkBinding requestId payload i domain = None" by simp
  note b = checkBinding_None [OF bind, unfolded Let_def] and s = shape [unfolded payloadShapeIsValid_def Let_def]
  have sig: "json_truthy (json_field (json_field payload ''payload'') ''signature'')"
    using hex by (cases "json_field (json_field payload ''payload'') ''signature''") auto
  have num: "js_Number v = Some n" if "is_str v" "safe_number_is (str_of v) n" for v n
    using that by (cases v) (auto simp: safe_number_is_def split: option.splits)
  have acc: "\<not> nullish (json_field payload ''accepted'')" using s by (cases "json_field payload ''accepted''") (auto simp: nullish_def)
  have texts: "same_text v u = same v (JStr u)" for v u by (simp add: same_text_def same_def)
  from s have strs: "is_str (json_field (authorization_of payload) ''validAfter'')" "is_str (json_field (authorization_of payload) ''validBefore'')"
    "json_field payload ''x402Version'' = JNum 2" "json_truthy (authorization_of payload)" by simp_all
  from b have "safe_number_is (str_of (json_field (authorization_of payload) ''validAfter'')) (pi_validAfter i)"
    "safe_number_is (str_of (json_field (authorization_of payload) ''validBefore'')) (pi_validBefore i)" by blast+
  with strs num have nums: "js_Number (json_field (authorization_of payload) ''validAfter'') = Some (pi_validAfter i)"
    "js_Number (json_field (authorization_of payload) ''validBefore'') = Some (pi_validBefore i)" by blast+
  have "payload_matches payload i req"
    unfolding payload_matches_def Let_def texts authorization_of_def [symmetric]
    by (intro conjI nums assms(3-6) [unfolded texts]) (use b in blast)+
  with strs sig acc show ?thesis
    by (simp add: validateExternalPaymentPayload_def authorization_of_def)
qed

definition payload_terms :: PaymentRequirement where
  "payload_terms = \<lparr>req_amount = ''25'', req_asset = ''0x036cbd53842c5426634e7929541ec2318f3dcf7e'', req_network = ''eip155:84532'',
     req_payee = hexes 40 CHR ''b'', req_deadline = None, req_maxTimeoutSeconds = None\<rparr>"

theorem valid_payload_passes_stage_b_witness:
  "\<exists>i. getPaymentIntentByRequestId payload_store ''r1'' = Some i \<and>
     validateExternalPaymentPayload demo_payload i payload_terms = Inr ()"
proof -
  have "case getPaymentIntentByRequestId payload_store ''r1'' of None \<Rightarrow> False
      | Some i \<Rightarrow> same_text (JStr (req_network payload_terms)) (pi_network i) \<and> same_text (JStr (req_asset payload_terms)) (pi_asset i) \<and>
          same_text (JStr (req_amount payload_terms)) (pi_value i) \<and> same_text (JStr (req_payee payload_terms)) (pi_payTo i)"
    by code_simp
  then obtain i where "getPaymentIntentByRequestId payload_store ''r1'' = Some i"
      "same_text (JStr (req_network payload_terms)) (pi_network i)" "same_text (JStr (req_asset payload_terms)) (pi_asset i)"
      "same_text (JStr (req_amount payload_terms)) (pi_value i)" "same_text (JStr (req_payee payload_terms)) (pi_payTo i)"
    by (auto split: option.splits)
  note i = this
  show ?thesis by (intro exI conjI, rule i(1), rule valid_payload_passes_stage_b [OF demo_valid i])
qed

end
