(* ===== verification/PgExecStore.thy ===== *)
theory PgExecStore
  imports MemStore ExecStore
begin

text \<open>
  \<^verbatim>\<open>lib/db/src/secretariat/postgres-execution-store.ts\<close> over the tables of \<^verbatim>\<open>lib/db/src/schema/execution-recovery.ts\<close>: the
  execution store the program runs with. A table is the list of its rows, a statement's \<open>WHERE\<close> a
  condition on a row, \<open>NULL\<close> is \<open>None\<close>, a unique violation the message 23505. A transaction is one step; \<open>t\<close> is
  the database's clock.
\<close>

section \<open>Rows\<close>

record AttemptRow =
  ar_attemptId :: string
  ar_operationId :: string
  ar_executionId :: string
  ar_attemptNumber :: nat
  ar_status :: ExecutionObligationStatus
  ar_requestUrl :: "string option"
  ar_requestMethod :: "string option"
  ar_requestBody :: "json option"
  ar_responseStatusCode :: "int option"
  ar_responseBody :: "json option"
  ar_responseHeaders :: "(string \<times> string) list option"
  ar_errorReason :: "string option"
  ar_idempotencyKey :: "string option"
  ar_startedAt :: "int option"
  ar_completedAt :: "int option"
  ar_createdAt :: int

record JobRow =
  jr_jobId :: string
  jr_operationId :: string
  jr_jobType :: RecoveryJobType
  jr_status :: RecoveryJobStatus
  jr_priority :: nat
  jr_maxAttempts :: nat
  jr_currentAttempt :: nat
  jr_lockedBy :: "string option"
  jr_lockedUntil :: "int option"
  jr_fenceGeneration :: nat
  jr_lastError :: "string option"
  jr_metadata :: "JobMetadata option"
  jr_createdAt :: int
  jr_updatedAt :: int

record pg_exec =
  tb_attempts :: "AttemptRow list"
  tb_jobs :: "JobRow list"

definition empty_pg :: pg_exec where "empty_pg = \<lparr>tb_attempts = [], tb_jobs = []\<rparr>"

text \<open>\<open>v ?? null\<close> of a JSON value, and \<open>x ? new Date(x) : null\<close> of a time.\<close>

definition sql_json :: "json \<Rightarrow> json option" where
  "sql_json v = (if nullish v then None else Some v)"

definition sql_date :: "int option \<Rightarrow> int option" where
  "sql_date x = (if x = Some 0 then None else x)"

definition attempt_values :: "ExecutionAttempt \<Rightarrow> int \<Rightarrow> AttemptRow" where
  "attempt_values a createdAt =
     \<lparr>ar_attemptId = xa_attemptId a, ar_operationId = xa_operationId a, ar_executionId = xa_executionId a,
      ar_attemptNumber = xa_attemptNumber a, ar_status = xa_status a, ar_requestUrl = xa_requestUrl a,
      ar_requestMethod = xa_requestMethod a, ar_requestBody = sql_json (xa_requestBody a),
      ar_responseStatusCode = xa_responseStatusCode a, ar_responseBody = sql_json (xa_responseBody a),
      ar_responseHeaders = xa_responseHeaders a, ar_errorReason = xa_errorReason a,
      ar_idempotencyKey = xa_idempotencyKey a, ar_startedAt = sql_date (xa_startedAt a),
      ar_completedAt = sql_date (xa_completedAt a), ar_createdAt = createdAt\<rparr>"

definition job_values :: "RecoveryJob \<Rightarrow> int \<Rightarrow> int \<Rightarrow> JobRow" where
  "job_values j createdAt updatedAt =
     \<lparr>jr_jobId = xj_jobId j, jr_operationId = xj_operationId j, jr_jobType = xj_jobType j, jr_status = xj_status j,
      jr_priority = xj_priority j, jr_maxAttempts = xj_maxAttempts j, jr_currentAttempt = xj_currentAttempt j,
      jr_lockedBy = xj_lockedBy j, jr_lockedUntil = sql_date (xj_lockedUntil j), jr_fenceGeneration = 0,
      jr_lastError = xj_lastError j, jr_metadata = xj_metadata j, jr_createdAt = createdAt, jr_updatedAt = updatedAt\<rparr>"

definition rowToAttempt :: "AttemptRow \<Rightarrow> ExecutionAttempt" where
  "rowToAttempt r =
     \<lparr>xa_attemptId = ar_attemptId r, xa_operationId = ar_operationId r, xa_executionId = ar_executionId r,
      xa_attemptNumber = ar_attemptNumber r, xa_status = ar_status r, xa_requestUrl = ar_requestUrl r,
      xa_requestMethod = ar_requestMethod r, xa_requestBody = opt_default JUndefined (Option.bind (ar_requestBody r) sql_json),
      xa_responseStatusCode = ar_responseStatusCode r,
      xa_responseBody = opt_default JUndefined (Option.bind (ar_responseBody r) sql_json),
      xa_responseHeaders = ar_responseHeaders r, xa_errorReason = ar_errorReason r,
      xa_idempotencyKey = ar_idempotencyKey r, xa_startedAt = ar_startedAt r, xa_completedAt = ar_completedAt r,
      xa_createdAt = ar_createdAt r\<rparr>"

definition rowToJob :: "JobRow \<Rightarrow> RecoveryJob" where
  "rowToJob r =
     \<lparr>xj_jobId = jr_jobId r, xj_operationId = jr_operationId r, xj_jobType = jr_jobType r, xj_status = jr_status r,
      xj_priority = jr_priority r, xj_maxAttempts = jr_maxAttempts r, xj_currentAttempt = jr_currentAttempt r,
      xj_lockedBy = jr_lockedBy r, xj_lockedUntil = jr_lockedUntil r, xj_lastError = jr_lastError r,
      xj_metadata = jr_metadata r, xj_createdAt = jr_createdAt r, xj_updatedAt = jr_updatedAt r\<rparr>"

section \<open>Inserts\<close>

text \<open>The primary keys and unique indexes of the two tables.\<close>

definition attempt_conflict :: "AttemptRow \<Rightarrow> pg_exec \<Rightarrow> bool" where
  "attempt_conflict r p = list_ex (\<lambda>a. ar_attemptId a = ar_attemptId r \<or>
     ar_executionId a = ar_executionId r \<and> ar_attemptNumber a = ar_attemptNumber r) (tb_attempts p)"

definition job_conflict :: "JobRow \<Rightarrow> pg_exec \<Rightarrow> bool" where
  "job_conflict r p = list_ex (\<lambda>j. jr_jobId j = jr_jobId r \<or>
     jr_jobType j = Jt_EXECUTION \<and> jr_jobType r = Jt_EXECUTION \<and> jr_operationId j = jr_operationId r) (tb_jobs p)"

definition unique_violation :: exn where "unique_violation = ''23505''"

definition insert_attempt :: "AttemptRow \<Rightarrow> pg_exec \<Rightarrow> exn + pg_exec" where
  "insert_attempt r p = (if attempt_conflict r p then Inl unique_violation else Inr (p\<lparr>tb_attempts := tb_attempts p @ [r]\<rparr>))"

definition insert_job :: "JobRow \<Rightarrow> pg_exec \<Rightarrow> exn + pg_exec" where
  "insert_job r p = (if job_conflict r p then Inl unique_violation else Inr (p\<lparr>tb_jobs := tb_jobs p @ [r]\<rparr>))"

text \<open>A transaction that throws leaves the tables as they were.\<close>

definition committed :: "pg_exec \<Rightarrow> exn + pg_exec \<Rightarrow> (exn + unit) \<times> pg_exec" where
  "committed p r = (case r of Inl e \<Rightarrow> (Inl e, p) | Inr p' \<Rightarrow> (Inr (), p'))"

definition pg_saveAttempt :: "ExecutionAttempt \<Rightarrow> int \<Rightarrow> pg_exec \<Rightarrow> (exn + unit) \<times> pg_exec" where
  "pg_saveAttempt a t p = committed p (insert_attempt (attempt_values a t) p)"

definition pg_saveJob :: "RecoveryJob \<Rightarrow> int \<Rightarrow> pg_exec \<Rightarrow> (exn + unit) \<times> pg_exec" where
  "pg_saveJob j t p = committed p (insert_job (job_values j t t) p)"

definition pg_saveAttemptWithJob :: "ExecutionAttempt \<Rightarrow> RecoveryJob \<Rightarrow> int \<Rightarrow> pg_exec \<Rightarrow> (exn + unit) \<times> pg_exec" where
  "pg_saveAttemptWithJob a j t p = committed p
     (case insert_job (job_values j t t) p of Inl e \<Rightarrow> Inl e | Inr p1 \<Rightarrow> insert_attempt (attempt_values a t) p1)"

section \<open>Reads\<close>

definition attempt_row :: "pg_exec \<Rightarrow> string \<Rightarrow> AttemptRow option" where
  "attempt_row p k = find (\<lambda>r. ar_attemptId r = k) (tb_attempts p)"

definition exec_job_row :: "pg_exec \<Rightarrow> string \<Rightarrow> JobRow option" where
  "exec_job_row p k = find (\<lambda>r. jr_jobId r = k) (tb_jobs p)"

definition pg_getAttemptById :: "pg_exec \<Rightarrow> string \<Rightarrow> ExecutionAttempt option" where
  "pg_getAttemptById p k = map_option rowToAttempt (attempt_row p k)"

definition operation_rows :: "pg_exec \<Rightarrow> string \<Rightarrow> AttemptRow list" where
  "operation_rows p opId = sort_key ar_attemptNumber (filter (\<lambda>r. ar_operationId r = opId) (tb_attempts p))"

definition pg_getAttemptsByOperation :: "pg_exec \<Rightarrow> string \<Rightarrow> ExecutionAttempt list" where
  "pg_getAttemptsByOperation p opId = map rowToAttempt (operation_rows p opId)"

definition pg_getJob :: "pg_exec \<Rightarrow> string \<Rightarrow> RecoveryJob option" where
  "pg_getJob p k = map_option rowToJob (exec_job_row p k)"

text \<open>A comparison with \<open>NULL\<close> does not hold.\<close>

definition stale_lock :: "int \<Rightarrow> JobRow \<Rightarrow> bool" where
  "stale_lock t r = (jr_status r = Jb_RUNNING \<and> (case jr_lockedUntil r of None \<Rightarrow> False | Some u \<Rightarrow> u < t))"

definition pg_getPendingJobs :: "int \<Rightarrow> pg_exec \<Rightarrow> RecoveryJob list" where
  "pg_getPendingJobs t p = map rowToJob (take 100
     (sort_key (\<lambda>r. - int (jr_priority r)) (sort_key jr_createdAt
        (filter (\<lambda>r. jr_status r = Jb_PENDING \<or> stale_lock t r) (tb_jobs p)))))"

section \<open>Claims and fenced updates\<close>

text \<open>\<open>UPDATE ... WHERE ...\<close>; what \<open>RETURNING\<close> tells is whether a row met the condition.\<close>

definition update_attempts :: "(AttemptRow \<Rightarrow> bool) \<Rightarrow> (AttemptRow \<Rightarrow> AttemptRow) \<Rightarrow> pg_exec \<Rightarrow> bool \<times> pg_exec" where
  "update_attempts c f p = (list_ex c (tb_attempts p), p\<lparr>tb_attempts := map (\<lambda>r. if c r then f r else r) (tb_attempts p)\<rparr>)"

definition update_jobs :: "(JobRow \<Rightarrow> bool) \<Rightarrow> (JobRow \<Rightarrow> JobRow) \<Rightarrow> pg_exec \<Rightarrow> bool \<times> pg_exec" where
  "update_jobs c f p = (list_ex c (tb_jobs p), p\<lparr>tb_jobs := map (\<lambda>r. if c r then f r else r) (tb_jobs p)\<rparr>)"

text \<open>The worker's clock sets the lease, the database's clock judges the old one.\<close>

definition pg_claimJob :: "string \<Rightarrow> string \<Rightarrow> int \<Rightarrow> int \<Rightarrow> int \<Rightarrow> pg_exec \<Rightarrow> nat option \<times> pg_exec" where
  "pg_claimJob jobId workerId lockDurationMs now t p =
     (case update_jobs (\<lambda>r. jr_jobId r = jobId \<and> (jr_status r = Jb_PENDING \<or> stale_lock t r))
        (\<lambda>r. r\<lparr>jr_status := Jb_RUNNING, jr_lockedBy := Some workerId, jr_lockedUntil := Some (now + lockDurationMs),
               jr_currentAttempt := Suc (jr_currentAttempt r), jr_fenceGeneration := Suc (jr_fenceGeneration r),
               jr_updatedAt := t\<rparr>) p of
        (False, p') \<Rightarrow> (None, p')
      | (True, p') \<Rightarrow> (map_option jr_fenceGeneration (exec_job_row p' jobId), p'))"

definition fence_row :: "pg_exec \<Rightarrow> string option \<Rightarrow> nat \<Rightarrow> AttemptRow \<Rightarrow> bool" where
  "fence_row p jobId g a = list_ex (\<lambda>j. jr_operationId j = ar_operationId a \<and> jr_fenceGeneration j = g \<and>
     (case jobId of None \<Rightarrow> True | Some k \<Rightarrow> k = [] \<or> jr_jobId j = k)) (tb_jobs p)"

text \<open>A response body that is undefined is not bound; any other is, \<open>null\<close> as the JSON value.\<close>

definition body_param :: "AttemptExtra \<Rightarrow> json option" where
  "body_param x = (if ax_responseBody x = Some JUndefined then None else ax_responseBody x)"

definition pg_updateAttemptStatus ::
    "string \<Rightarrow> ExecutionObligationStatus \<Rightarrow> nat \<Rightarrow> AttemptExtra \<Rightarrow> string option \<Rightarrow> pg_exec \<Rightarrow> bool \<times> pg_exec" where
  "pg_updateAttemptStatus attemptId status g x jobId p =
     update_attempts (\<lambda>a. ar_attemptId a = attemptId \<and> fence_row p jobId g a \<and> ar_status a \<notin> set TERMINAL_OBLIGATION)
       (\<lambda>a. a\<lparr>ar_status := status, ar_responseStatusCode := or_else (ax_responseStatusCode x) (ar_responseStatusCode a),
              ar_responseBody := or_else (body_param x) (ar_responseBody a),
              ar_responseHeaders := or_else (ax_responseHeaders x) (ar_responseHeaders a),
              ar_errorReason := or_else (ax_errorReason x) (ar_errorReason a),
              ar_completedAt := or_else (ax_completedAt x) (ar_completedAt a)\<rparr>) p"

definition pg_markAttemptInProgress :: "string \<Rightarrow> nat \<Rightarrow> string option \<Rightarrow> int \<Rightarrow> pg_exec \<Rightarrow> bool \<times> pg_exec" where
  "pg_markAttemptInProgress attemptId g jobId t p =
     update_attempts (\<lambda>a. ar_attemptId a = attemptId \<and> fence_row p jobId g a \<and> ar_status a = Ob_PENDING)
       (\<lambda>a. a\<lparr>ar_status := Ob_ATTEMPTED, ar_startedAt := Some t\<rparr>) p"

text \<open>The jobs' own closing updates all meet the same condition, the lock the transaction took.\<close>

definition held :: "string \<Rightarrow> nat \<Rightarrow> JobRow \<Rightarrow> bool" where
  "held jobId g r = (jr_jobId r = jobId \<and> jr_status r = Jb_RUNNING \<and> jr_fenceGeneration r = g)"

definition lock_job :: "string \<Rightarrow> nat \<Rightarrow> pg_exec \<Rightarrow> JobRow option" where
  "lock_job jobId g p = (case exec_job_row p jobId of None \<Rightarrow> None
     | Some j \<Rightarrow> if jr_status j \<noteq> Jb_RUNNING \<or> jr_fenceGeneration j \<noteq> g then None else Some j)"

definition pg_resolveRetrievalSuccessIfOwner ::
    "string \<Rightarrow> string \<Rightarrow> nat \<Rightarrow> AttemptExtra \<Rightarrow> int \<Rightarrow> pg_exec \<Rightarrow> bool \<times> pg_exec" where
  "pg_resolveRetrievalSuccessIfOwner jobId attemptId g x t p =
     (case lock_job jobId g p of
        None \<Rightarrow> (False, p)
      | Some job \<Rightarrow>
          (case update_attempts (\<lambda>a. ar_attemptId a = attemptId \<and> ar_operationId a = jr_operationId job \<and> ar_status a = Ob_DELIVERY_UNKNOWN)
             (\<lambda>a. a\<lparr>ar_status := Ob_SUCCESS, ar_responseStatusCode := or_else (ax_responseStatusCode x) (ar_responseStatusCode a),
                    ar_responseBody := or_else (body_param x) (ar_responseBody a),
                    ar_responseHeaders := or_else (ax_responseHeaders x) (ar_responseHeaders a),
                    ar_completedAt := or_else (ax_completedAt x) (ar_completedAt a)\<rparr>) p of
             (False, p1) \<Rightarrow> (False, p1)
           | (True, p1) \<Rightarrow>
               update_jobs (held jobId g)
                 (\<lambda>r. r\<lparr>jr_status := Jb_COMPLETED, jr_lockedBy := None, jr_lockedUntil := None, jr_updatedAt := t\<rparr>) p1))"

text \<open>The lock on the original attempt, and its demotion when it was under way.\<close>

definition lock_original :: "JobRow \<Rightarrow> string \<Rightarrow> pg_exec \<Rightarrow> AttemptRow option" where
  "lock_original job originalId p = (case attempt_row p originalId of None \<Rightarrow> None
     | Some a \<Rightarrow> if ar_operationId a \<noteq> jr_operationId job \<or> ar_status a \<noteq> Ob_ATTEMPTED \<and> ar_status a \<noteq> Ob_DELIVERY_UNKNOWN
                then None else Some a)"

definition demote_original :: "AttemptRow \<Rightarrow> string \<Rightarrow> string \<Rightarrow> int \<Rightarrow> pg_exec \<Rightarrow> pg_exec" where
  "demote_original a originalId reason t p =
     (if ar_status a = Ob_ATTEMPTED
      then snd (update_attempts (\<lambda>r. ar_attemptId r = originalId)
             (\<lambda>r. r\<lparr>ar_status := Ob_DELIVERY_UNKNOWN, ar_errorReason := Some reason, ar_completedAt := Some t\<rparr>) p)
      else p)"

definition pg_createRecoveryAttemptIfOwner ::
    "string \<Rightarrow> string \<Rightarrow> nat \<Rightarrow> ExecutionAttempt \<Rightarrow> string \<Rightarrow> int \<Rightarrow> pg_exec \<Rightarrow> (exn + bool) \<times> pg_exec" where
  "pg_createRecoveryAttemptIfOwner jobId originalId g retry reason t p =
     (case lock_job jobId g p of None \<Rightarrow> (Inr False, p) | Some job \<Rightarrow>
     (case lock_original job originalId p of None \<Rightarrow> (Inr False, p) | Some a \<Rightarrow>
     (case insert_attempt (attempt_values retry (xa_createdAt retry)) (demote_original a originalId reason t p) of
        Inl e \<Rightarrow> (Inl e, p)
      | Inr p1 \<Rightarrow> (Inr True, snd (update_jobs (held jobId g)
          (\<lambda>r. r\<lparr>jr_status := Jb_PENDING, jr_lockedBy := None, jr_lockedUntil := None, jr_lastError := Some reason,
                 jr_updatedAt := t\<rparr>) p1)))))"

definition pg_createRecoveryJobIfOwner ::
    "string \<Rightarrow> string \<Rightarrow> nat \<Rightarrow> RecoveryJob \<Rightarrow> string \<Rightarrow> int \<Rightarrow> pg_exec \<Rightarrow> (exn + bool) \<times> pg_exec" where
  "pg_createRecoveryJobIfOwner jobId originalId g retrievalJob reason t p =
     (case lock_job jobId g p of None \<Rightarrow> (Inr False, p) | Some job \<Rightarrow>
     (case lock_original job originalId p of None \<Rightarrow> (Inr False, p) | Some a \<Rightarrow>
     (case insert_job (job_values retrievalJob (xj_createdAt retrievalJob) (xj_updatedAt retrievalJob))
             (demote_original a originalId reason t p) of
        Inl e \<Rightarrow> (Inl e, p)
      | Inr p1 \<Rightarrow> (Inr True, snd (update_jobs (held jobId g)
          (\<lambda>r. r\<lparr>jr_status := Jb_COMPLETED, jr_lockedBy := None, jr_lockedUntil := None, jr_lastError := Some reason,
                 jr_updatedAt := t\<rparr>) p1)))))"

definition pg_resolveAttemptUnresolvableIfOwner ::
    "string \<Rightarrow> string \<Rightarrow> nat \<Rightarrow> string \<Rightarrow> string \<Rightarrow> int \<Rightarrow> pg_exec \<Rightarrow> bool \<times> pg_exec" where
  "pg_resolveAttemptUnresolvableIfOwner jobId attemptId g attemptErrorReason jobLastError t p =
     (case lock_job jobId g p of
        None \<Rightarrow> (False, p)
      | Some job \<Rightarrow>
          (case update_attempts (\<lambda>a. ar_attemptId a = attemptId \<and> ar_operationId a = jr_operationId job \<and>
                  ar_status a \<notin> set TERMINAL_OBLIGATION)
             (\<lambda>a. a\<lparr>ar_status := Ob_UNRESOLVABLE, ar_errorReason := Some attemptErrorReason\<rparr>) p of
             (False, p1) \<Rightarrow> (False, p1)
           | (True, p1) \<Rightarrow> (True, snd (update_jobs (held jobId g)
               (\<lambda>r. r\<lparr>jr_status := Jb_UNRESOLVABLE, jr_lastError := Some jobLastError, jr_updatedAt := t\<rparr>) p1))))"

text \<open>A lock passed as undefined is not cleared: \<open>COALESCE\<close> keeps the column.\<close>

definition pg_updateJobStatus ::
    "string \<Rightarrow> RecoveryJobStatus \<Rightarrow> nat \<Rightarrow> JobExtra \<Rightarrow> int \<Rightarrow> pg_exec \<Rightarrow> bool \<times> pg_exec" where
  "pg_updateJobStatus jobId status g x t p =
     update_jobs (\<lambda>r. jr_jobId r = jobId \<and> jr_fenceGeneration r = g \<and> jr_status r \<notin> set TERMINAL_JOB)
       (\<lambda>r. r\<lparr>jr_status := status, jr_updatedAt := t, jr_lastError := or_else (jx_lastError x) (jr_lastError r),
              jr_lockedBy := (if status \<in> set TERMINAL_JOB then None else jr_lockedBy r),
              jr_lockedUntil := (if status \<in> set TERMINAL_JOB then None else jr_lockedUntil r)\<rparr>) p"

section \<open>Rows by their key\<close>

lemma find_update:
  assumes "\<And>r. key (f r) = key r"
  shows "find (\<lambda>r. key r = k) (map (\<lambda>r. if c r then f r else r) rs) = map_option (\<lambda>r. if c r then f r else r) (find (\<lambda>r. key r = k) rs)"
  using assms by (induction rs) auto

lemma find_key: "find (\<lambda>r. key r = k) rs = Some r \<Longrightarrow> key r = k \<and> r \<in> set rs"
  by (induction rs) (auto split: if_splits)

lemma ex_key:
  assumes "distinct (map key rs)" "\<And>r. c r \<Longrightarrow> key r = k"
  shows "list_ex c rs \<longleftrightarrow> (case find (\<lambda>r. key r = k) rs of None \<Rightarrow> False | Some r \<Rightarrow> c r)"
  using assms
proof (induction rs)
  case (Cons r rs)
  show ?case
  proof (cases "key r = k")
    case True
    have "\<not> c s" if "s \<in> set rs" for s
    proof
      assume "c s"
      with Cons.prems(2) True have "key s = key r" by blast
      with that Cons.prems(1) show False by (metis distinct.simps(2) imageI list.set_map list.simps(9))
    qed
    then have "\<not> list_ex c rs" by (simp add: list_ex_iff)
    with True show ?thesis by simp
  next
    case False
    with Cons show ?thesis by auto
  qed
qed simp

lemma map_key_update: "(\<And>r. key (f r) = key r) \<Longrightarrow> map key (map (\<lambda>r. if c r then f r else r) rs) = map key rs"
  by simp

lemma insort_map: "(\<And>r. n (f r) = n r) \<Longrightarrow> insort_key n (f x) (map f xs) = map f (insort_key n x xs)"
  by (induction xs) auto

lemma sort_map: "(\<And>r. n (f r) = n r) \<Longrightarrow> sort_key n (map f xs) = map f (sort_key n xs)"
  by (induction xs) (auto simp: insort_map)

lemma insort_comm_last: "\<forall>y \<in> set xs. n y \<le> n z \<Longrightarrow> n x \<le> n z \<Longrightarrow> insort_key n x (xs @ [z]) = insort_key n x xs @ [z]"
  by (induction xs) auto

lemma sort_snoc: "\<forall>y \<in> set xs. n y \<le> n z \<Longrightarrow> sort_key n (xs @ [z]) = sort_key n xs @ [z]"
proof (induction xs)
  case (Cons x xs)
  then have "\<forall>y \<in> set (sort_key n xs). n y \<le> n z" "n x \<le> n z" by auto
  from insort_comm_last [of "sort_key n xs" n z x] this Cons show ?case by simp
qed simp

definition pg_keyed :: "pg_exec \<Rightarrow> bool" where
  "pg_keyed p = (distinct (map ar_attemptId (tb_attempts p)) \<and> distinct (map jr_jobId (tb_jobs p)))"

lemma update_rows [simp]:
  assumes "\<And>r. ar_attemptId (f r) = ar_attemptId r"
  shows "attempt_row (snd (update_attempts c f p)) k = map_option (\<lambda>r. if c r then f r else r) (attempt_row p k)"
    and "exec_job_row (snd (update_attempts c f p)) k' = exec_job_row p k'"
    and "pg_keyed (snd (update_attempts c f p)) = pg_keyed p"
  using assms by (simp_all add: update_attempts_def attempt_row_def exec_job_row_def find_update pg_keyed_def comp_def if_distrib
      cong: if_cong)

lemma update_job_rows [simp]:
  assumes "\<And>r. jr_jobId (f r) = jr_jobId r"
  shows "exec_job_row (snd (update_jobs c f p)) k = map_option (\<lambda>r. if c r then f r else r) (exec_job_row p k)"
    and "attempt_row (snd (update_jobs c f p)) k' = attempt_row p k'"
    and "pg_keyed (snd (update_jobs c f p)) = pg_keyed p"
    and "operation_rows (snd (update_jobs c f p)) opId = operation_rows p opId"
  using assms by (simp_all add: update_jobs_def attempt_row_def exec_job_row_def find_update pg_keyed_def operation_rows_def comp_def
      if_distrib cong: if_cong)

lemma update_operation_rows [simp]:
  assumes "\<And>r. ar_operationId (f r) = ar_operationId r" "\<And>r. ar_attemptNumber (f r) = ar_attemptNumber r"
  shows "operation_rows (snd (update_attempts c f p)) opId = map (\<lambda>r. if c r then f r else r) (operation_rows p opId)"
proof -
  let ?g = "\<lambda>r. if c r then f r else r"
  have "filter (\<lambda>r. ar_operationId r = opId) (map ?g (tb_attempts p)) = map ?g (filter (\<lambda>r. ar_operationId r = opId) (tb_attempts p))"
    using assms(1) by (induction "tb_attempts p" arbitrary: p) (auto simp: filter_map comp_def if_distrib cong: if_cong)
  moreover have "sort_key ar_attemptNumber (map ?g xs) = map ?g (sort_key ar_attemptNumber xs)" for xs
    using assms(2) by (intro sort_map) simp
  ultimately show ?thesis by (simp add: operation_rows_def update_attempts_def)
qed

lemma updated_attempt:
  assumes "pg_keyed p" "\<And>r. c r \<Longrightarrow> ar_attemptId r = k"
  shows "fst (update_attempts c f p) \<longleftrightarrow> (case attempt_row p k of None \<Rightarrow> False | Some r \<Rightarrow> c r)"
  using ex_key [where key = ar_attemptId and rs = "tb_attempts p" and c = c and k = k] assms
  by (simp add: update_attempts_def attempt_row_def pg_keyed_def)

lemma updated_job:
  assumes "pg_keyed p" "\<And>r. c r \<Longrightarrow> jr_jobId r = k"
  shows "fst (update_jobs c f p) \<longleftrightarrow> (case exec_job_row p k of None \<Rightarrow> False | Some r \<Rightarrow> c r)"
  using ex_key [where key = jr_jobId and rs = "tb_jobs p" and c = c and k = k] assms
  by (simp add: update_jobs_def exec_job_row_def pg_keyed_def)

lemma attempt_row_key: "attempt_row p k = Some r \<Longrightarrow> ar_attemptId r = k"
  unfolding attempt_row_def by (drule find_key) simp

lemma job_row_key: "exec_job_row p k = Some r \<Longrightarrow> jr_jobId r = k"
  unfolding exec_job_row_def by (drule find_key) simp

lemma fence_row_named:
  assumes "pg_keyed p" "k \<noteq> []"
  shows "fence_row p (Some k) g a \<longleftrightarrow>
    (case exec_job_row p k of None \<Rightarrow> False | Some j \<Rightarrow> jr_operationId j = ar_operationId a \<and> jr_fenceGeneration j = g)"
proof -
  let ?c = "\<lambda>j. jr_operationId j = ar_operationId a \<and> jr_fenceGeneration j = g \<and> jr_jobId j = k"
  have "fence_row p (Some k) g a = list_ex ?c (tb_jobs p)" using assms(2) by (simp add: fence_row_def)
  also have "\<dots> = (case exec_job_row p k of None \<Rightarrow> False | Some j \<Rightarrow> ?c j)"
    unfolding exec_job_row_def by (rule ex_key) (use assms(1) in \<open>auto simp: pg_keyed_def\<close>)
  finally show ?thesis using job_row_key [of p k] by (simp split: option.split)
qed

section \<open>The abstract store\<close>

text \<open>
  An attempt and its row: the bodies up to \<open>null\<close> and undefined, the times up to an absent 0. The time an
  unknown delivery ended is left open, the database alone writes one when it demotes an attempt.
\<close>

definition sql_body :: "json option \<Rightarrow> json option" where
  "sql_body b = Option.bind b sql_json"

definition attempt_agrees :: "ExecutionAttempt \<Rightarrow> AttemptRow \<Rightarrow> bool" where
  "attempt_agrees a r = (xa_attemptId a = ar_attemptId r \<and> xa_operationId a = ar_operationId r \<and>
     xa_executionId a = ar_executionId r \<and> xa_attemptNumber a = ar_attemptNumber r \<and> xa_status a = ar_status r \<and>
     xa_requestUrl a = ar_requestUrl r \<and> xa_requestMethod a = ar_requestMethod r \<and>
     sql_json (xa_requestBody a) = ar_requestBody r \<and> xa_responseStatusCode a = ar_responseStatusCode r \<and>
     sql_json (xa_responseBody a) = sql_body (ar_responseBody r) \<and> xa_responseHeaders a = ar_responseHeaders r \<and>
     xa_errorReason a = ar_errorReason r \<and> xa_idempotencyKey a = ar_idempotencyKey r \<and>
     sql_date (xa_startedAt a) = sql_date (ar_startedAt r) \<and>
     (ar_status r \<noteq> Ob_DELIVERY_UNKNOWN \<longrightarrow> sql_date (xa_completedAt a) = sql_date (ar_completedAt r)))"

text \<open>
  A job and its row: the lease while the job is running, the time of the last update once it has been claimed, and
  the last error except for the jobs in \<open>R\<close>, whose retries the database alone gives a reason.
\<close>

definition job_agrees :: "string set \<Rightarrow> RecoveryJob \<Rightarrow> JobRow \<Rightarrow> bool" where
  "job_agrees R j r = (xj_jobId j = jr_jobId r \<and> xj_operationId j = jr_operationId r \<and> xj_jobType j = jr_jobType r \<and>
     xj_status j = jr_status r \<and> xj_priority j = jr_priority r \<and> xj_maxAttempts j = jr_maxAttempts r \<and>
     xj_currentAttempt j = jr_currentAttempt r \<and> xj_currentAttempt j = jr_fenceGeneration r \<and> xj_metadata j = jr_metadata r \<and>
     (jr_status r = Jb_RUNNING \<longrightarrow> xj_lockedBy j = jr_lockedBy r \<and> xj_lockedUntil j = jr_lockedUntil r \<and> jr_lockedUntil r \<noteq> Some 0) \<and>
     (0 < jr_currentAttempt r \<longrightarrow> xj_updatedAt j = jr_updatedAt r) \<and>
     (jr_jobId r \<notin> R \<longrightarrow> xj_lastError j = jr_lastError r))"

fun opt_agrees :: "('a \<Rightarrow> 'b \<Rightarrow> bool) \<Rightarrow> 'a option \<Rightarrow> 'b option \<Rightarrow> bool" where
  "opt_agrees R (Some a) (Some b) = R a b"
| "opt_agrees R None None = True"
| "opt_agrees R _ _ = False"

lemma opt_agrees_right [simp]:
  "opt_agrees R x None \<longleftrightarrow> x = None" "opt_agrees R x (Some b) \<longleftrightarrow> (\<exists>a. x = Some a \<and> R a b)"
  by (cases x; simp)+

definition stores_agree :: "string set \<Rightarrow> exec_store \<Rightarrow> pg_exec \<Rightarrow> bool" where
  "stores_agree R xs p = (pg_keyed p \<and> (\<forall>k. opt_agrees attempt_agrees (getAttemptById xs k) (attempt_row p k)) \<and>
     (\<forall>k. opt_agrees (job_agrees R) (getJob xs k) (exec_job_row p k)) \<and>
     (\<forall>opId. opt_default [] (js_get (xs_attemptsByOp xs) opId) = map ar_attemptId (operation_rows p opId)))"

lemma agreeD:
  assumes "stores_agree R xs p"
  shows "pg_keyed p" "opt_agrees attempt_agrees (getAttemptById xs k) (attempt_row p k)"
    "opt_agrees (job_agrees R) (getJob xs k) (exec_job_row p k)"
    "opt_default [] (js_get (xs_attemptsByOp xs) opId) = map ar_attemptId (operation_rows p opId)"
  using assms by (simp_all add: stores_agree_def)

lemma agree_fence:
  assumes "stores_agree R xs p" "k \<noteq> []" "attempt_agrees a r"
  shows "fence_ok xs a (Some k) g = fence_row p (Some k) g r"
  using assms(2,3) agreeD(3) [OF assms(1), of k] fence_row_named [OF agreeD(1) [OF assms(1)] assms(2)]
  by (cases "exec_job_row p k") (auto simp: fence_ok_def fencing_job_def attempt_agrees_def job_agrees_def)

lemma agree_lease: "job_agrees R j r \<Longrightarrow> lease_expired t j = stale_lock t r"
  by (auto simp: job_agrees_def lease_expired_def stale_lock_def split: option.splits)

text \<open>One row of either table replaced by an agreeing one.\<close>

lemma opt_agrees_map:
  "opt_agrees R x y \<Longrightarrow> (\<And>b. y = Some b \<Longrightarrow> f b = b) \<Longrightarrow> opt_agrees R x (map_option f y)"
  by (cases y) auto

lemma set_attempt_agrees:
  assumes "stores_agree R xs p" "attempt_row p k = Some r" "attempt_agrees a' (f r)" "\<And>r. c r \<Longrightarrow> ar_attemptId r = k" "c r"
    and f: "\<And>r. ar_attemptId (f r) = ar_attemptId r" "\<And>r. ar_operationId (f r) = ar_operationId r"
      "\<And>r. ar_attemptNumber (f r) = ar_attemptNumber r"
  shows "stores_agree R (set_attempt k a' xs) (snd (update_attempts c f p))"
proof -
  have "opt_agrees attempt_agrees (getAttemptById (set_attempt k a' xs) k') (attempt_row (snd (update_attempts c f p)) k')" for k'
  proof (cases "k' = k")
    case True
    with assms(2,3,5) f(1) show ?thesis by simp
  next
    case False
    then have "\<not> c b" if "attempt_row p k' = Some b" for b using that assms(4) attempt_row_key by blast
    with False agreeD(2) [OF assms(1), of k'] f(1) show ?thesis by (auto intro: opt_agrees_map)
  qed
  with assms(1) f show ?thesis
    by (simp add: stores_agree_def set_attempt_def getJob_def comp_def if_distrib cong: if_cong)
qed

lemma set_job_agrees:
  assumes "stores_agree R xs p" "exec_job_row p k = Some r" "job_agrees R j' (f r)" "\<And>r. c r \<Longrightarrow> jr_jobId r = k" "c r"
    and f: "\<And>r. jr_jobId (f r) = jr_jobId r"
  shows "stores_agree R (set_job k j' xs) (snd (update_jobs c f p))"
proof -
  have "opt_agrees (job_agrees R) (getJob (set_job k j' xs) k') (exec_job_row (snd (update_jobs c f p)) k')" for k'
  proof (cases "k' = k")
    case True
    with assms(2,3,5) f(1) show ?thesis by simp
  next
    case False
    then have "\<not> c b" if "exec_job_row p k' = Some b" for b using that assms(4) job_row_key by blast
    with False agreeD(3) [OF assms(1), of k'] f(1) show ?thesis by (auto intro: opt_agrees_map)
  qed
  with assms(1) f show ?thesis
    by (simp add: stores_agree_def set_job_def getAttemptById_def)
qed

text \<open>A new row in either table.\<close>

lemma indexed:
  "opt_default [] (js_get (xs_attemptsByOp (index_attempt opId i xs)) o') =
     (let l = opt_default [] (js_get (xs_attemptsByOp xs) o') in if o' = opId \<and> i \<notin> set l then l @ [i] else l)"
  by (simp add: index_attempt_def Let_def)

lemma insert_attempt_agrees:
  assumes "stores_agree R xs p" "insert_attempt r p = Inr p'" "attempt_agrees a r"
    and "\<forall>b \<in> set (operation_rows p (ar_operationId r)). ar_attemptNumber b \<le> ar_attemptNumber r"
  shows "stores_agree R (index_attempt (xa_operationId a) (xa_attemptId a) (set_attempt (xa_attemptId a) a xs)) p'"
proof -
  from assms(2) have p': "p' = p\<lparr>tb_attempts := tb_attempts p @ [r]\<rparr>" and new: "\<forall>b \<in> set (tb_attempts p). ar_attemptId b \<noteq> ar_attemptId r"
    by (auto simp: insert_attempt_def attempt_conflict_def list_ex_iff split: if_splits)
  have ids: "xa_attemptId a = ar_attemptId r" "xa_operationId a = ar_operationId r" using assms(3) by (simp_all add: attempt_agrees_def)
  have none: "attempt_row p (ar_attemptId r) = None" using new by (simp add: attempt_row_def find_None_iff)
  have rows: "attempt_row p' k = (if k = ar_attemptId r then Some r else attempt_row p k)" for k
    using none by (auto simp: p' attempt_row_def find_append split: option.split)
  have ops: "operation_rows p' opId = (if opId = ar_operationId r then operation_rows p opId @ [r] else operation_rows p opId)" for opId
    using assms(4) by (auto simp: p' operation_rows_def intro: sort_snoc)
  have fresh: "ar_attemptId r \<notin> set (map ar_attemptId (operation_rows p opId))" for opId
    using new by (auto simp: operation_rows_def)
  have "pg_keyed p'" using agreeD(1) [OF assms(1)] new by (auto simp: pg_keyed_def p')
  moreover have "exec_job_row p' k = exec_job_row p k" for k by (simp add: p' exec_job_row_def)
  moreover have "opt_default [] (js_get (xs_attemptsByOp (index_attempt (xa_operationId a) (xa_attemptId a) (set_attempt (xa_attemptId a) a xs))) opId)
      = map ar_attemptId (operation_rows p' opId)" for opId
    using agreeD(4) [OF assms(1), of opId] fresh [of opId] by (simp add: indexed ids ops set_attempt_def Let_def)
  moreover have "opt_agrees attempt_agrees (getAttemptById (index_attempt (xa_operationId a) (xa_attemptId a) (set_attempt (xa_attemptId a) a xs)) k)
      (attempt_row p' k)" for k
    using agreeD(2) [OF assms(1), of k] assms(3) by (simp add: rows ids)
  ultimately show ?thesis using agreeD(3) [OF assms(1)] by (simp add: stores_agree_def)
qed

lemma insert_job_agrees:
  assumes "stores_agree R xs p" "insert_job r p = Inr p'" "job_agrees R j r"
  shows "stores_agree R (set_job (xj_jobId j) j xs) p'"
proof -
  from assms(2) have p': "p' = p\<lparr>tb_jobs := tb_jobs p @ [r]\<rparr>" and new: "\<forall>b \<in> set (tb_jobs p). jr_jobId b \<noteq> jr_jobId r"
    by (auto simp: insert_job_def job_conflict_def list_ex_iff split: if_splits)
  have id: "xj_jobId j = jr_jobId r" using assms(3) by (simp add: job_agrees_def)
  have none: "exec_job_row p (jr_jobId r) = None" using new by (simp add: exec_job_row_def find_None_iff)
  have rows: "exec_job_row p' k = (if k = jr_jobId r then Some r else exec_job_row p k)" for k
    using none by (auto simp: p' exec_job_row_def find_append split: option.split)
  have "pg_keyed p'" using agreeD(1) [OF assms(1)] new by (auto simp: pg_keyed_def p')
  moreover have "attempt_row p' k = attempt_row p k" "operation_rows p' opId = operation_rows p opId" for k opId
    by (simp_all add: p' attempt_row_def operation_rows_def)
  moreover have "opt_agrees (job_agrees R) (getJob (set_job (xj_jobId j) j xs) k) (exec_job_row p' k)" for k
    using agreeD(3) [OF assms(1), of k] assms(3) by (simp add: rows id)
  ultimately show ?thesis using agreeD(2,4) [OF assms(1)] by (simp add: stores_agree_def set_job_def getAttemptById_def)
qed

section \<open>Calls and answers\<close>

text \<open>The calls the engine makes, each fenced write under the job it names.\<close>

datatype exec_call = C_create ExecutionAttempt RecoveryJob | C_job RecoveryJob | C_claim string string int | C_write string nat exec_write

datatype exec_answer = A_done | A_claim "nat option" | A_write bool | A_threw exn

fun mem_call :: "exec_call \<Rightarrow> int \<Rightarrow> exec_store \<Rightarrow> exec_answer \<times> exec_store" where
  "mem_call (C_create a j) t xs = (A_done, saveAttemptWithJob a j xs)"
| "mem_call (C_job j) t xs = (A_done, saveJob j xs)"
| "mem_call (C_claim k w d) t xs = (case claimJob k w d t xs of (g, xs') \<Rightarrow> (A_claim g, xs'))"
| "mem_call (C_write k g w) t xs = (case fenced_write k g w t xs of (b, xs') \<Rightarrow> (A_write b, xs'))"

fun pg_write :: "string \<Rightarrow> nat \<Rightarrow> exec_write \<Rightarrow> int \<Rightarrow> pg_exec \<Rightarrow> (exn + bool) \<times> pg_exec" where
  "pg_write k g (W_attempt a s x) t p = map_prod Inr id (pg_updateAttemptStatus a s g x (Some k) p)"
| "pg_write k g (W_mark a) t p = map_prod Inr id (pg_markAttemptInProgress a g (Some k) t p)"
| "pg_write k g (W_resolve a x) t p = map_prod Inr id (pg_resolveRetrievalSuccessIfOwner k a g x t p)"
| "pg_write k g (W_retry a r e) t p = pg_createRecoveryAttemptIfOwner k a g r e t p"
| "pg_write k g (W_retrieve a r e) t p = pg_createRecoveryJobIfOwner k a g r e t p"
| "pg_write k g (W_unresolvable a e e') t p = map_prod Inr id (pg_resolveAttemptUnresolvableIfOwner k a g e e' t p)"
| "pg_write k g (W_job s x) t p = map_prod Inr id (pg_updateJobStatus k s g x t p)"

definition answer_unit :: "(exn + unit) \<times> pg_exec \<Rightarrow> exec_answer \<times> pg_exec" where
  "answer_unit r = (case r of (Inl e, p) \<Rightarrow> (A_threw e, p) | (Inr _, p) \<Rightarrow> (A_done, p))"

fun pg_call :: "exec_call \<Rightarrow> int \<Rightarrow> pg_exec \<Rightarrow> exec_answer \<times> pg_exec" where
  "pg_call (C_create a j) t p = answer_unit (pg_saveAttemptWithJob a j t p)"
| "pg_call (C_job j) t p = answer_unit (pg_saveJob j t p)"
| "pg_call (C_claim k w d) t p = (case pg_claimJob k w d t t p of (g, p') \<Rightarrow> (A_claim g, p'))"
| "pg_call (C_write k g w) t p = (case pg_write k g w t p of (Inl e, p') \<Rightarrow> (A_threw e, p') | (Inr b, p') \<Rightarrow> (A_write b, p'))"

text \<open>
  The calls on which the two stores may be compared: new rows meet no unique index, a new attempt has the highest
  number of its operation, a new job starts unclaimed, a lease does not end at the epoch, a status update does not
  make a job running, a response body given as undefined does not replace another, and the result of a retrieval
  comes with its time and without a reason. A write names its job.
\<close>

definition attempt_fits :: "ExecutionAttempt \<Rightarrow> pg_exec \<Rightarrow> bool" where
  "attempt_fits a p = (\<not> attempt_conflict (attempt_values a 0) p \<and>
     list_all (\<lambda>r. ar_operationId r = xa_operationId a \<longrightarrow> ar_attemptNumber r \<le> xa_attemptNumber a) (tb_attempts p))"

definition job_fits :: "RecoveryJob \<Rightarrow> pg_exec \<Rightarrow> bool" where
  "job_fits j p = (\<not> job_conflict (job_values j 0 0) p \<and> xj_currentAttempt j = 0 \<and> xj_status j \<noteq> Jb_RUNNING)"

definition body_fits :: "string \<Rightarrow> AttemptExtra \<Rightarrow> pg_exec \<Rightarrow> bool" where
  "body_fits a x p = (ax_responseBody x = Some JUndefined \<longrightarrow>
     (case attempt_row p a of None \<Rightarrow> True | Some r \<Rightarrow> sql_body (ar_responseBody r) = None))"

fun write_fits :: "string \<Rightarrow> exec_write \<Rightarrow> pg_exec \<Rightarrow> bool" where
  "write_fits k (W_retry a r e) p = attempt_fits r p"
| "write_fits k (W_attempt a s x) p = body_fits a x p"
| "write_fits k (W_resolve a x) p = (body_fits a x p \<and> ax_errorReason x = None \<and> ax_completedAt x \<noteq> None)"
| "write_fits k (W_retrieve a r e) p = (job_fits r p \<and> xj_jobId r \<noteq> k)"
| "write_fits k (W_job s x) p = (s \<noteq> Jb_RUNNING)"
| "write_fits k w p = True"

fun call_fits :: "exec_call \<Rightarrow> int \<Rightarrow> pg_exec \<Rightarrow> bool" where
  "call_fits (C_create a j) t p = (attempt_fits a p \<and> job_fits j p)"
| "call_fits (C_job j) t p = job_fits j p"
| "call_fits (C_claim k w d) t p = (t + d \<noteq> 0)"
| "call_fits (C_write k g w) t p = (k \<noteq> [] \<and> write_fits k w p)"

section \<open>Simulation\<close>

lemma update_attempts_none: "\<not> fst (update_attempts c f p) \<Longrightarrow> snd (update_attempts c f p) = p"
  by (auto simp: update_attempts_def list_ex_iff intro!: pg_exec.equality map_idI)

lemma update_jobs_none: "\<not> fst (update_jobs c f p) \<Longrightarrow> snd (update_jobs c f p) = p"
  by (auto simp: update_jobs_def list_ex_iff intro!: pg_exec.equality map_idI)

lemma sim_update_attempt:
  assumes "stores_agree R xs p" "\<And>r. c r \<Longrightarrow> ar_attemptId r = k"
    and f: "\<And>r. ar_attemptId (f r) = ar_attemptId r" "\<And>r. ar_operationId (f r) = ar_operationId r"
      "\<And>r. ar_attemptNumber (f r) = ar_attemptNumber r"
    and row: "\<And>a r. attempt_agrees a r \<Longrightarrow> attempt_row p k = Some r \<Longrightarrow> (c r \<longleftrightarrow> guard a) \<and> (c r \<longrightarrow> attempt_agrees (upd a) (f r))"
    and res: "res = (case getAttemptById xs k of None \<Rightarrow> (False, xs) | Some a \<Rightarrow> if guard a then (True, set_attempt k (upd a) xs) else (False, xs))"
  shows "fst (update_attempts c f p) = fst res \<and> stores_agree R (snd res) (snd (update_attempts c f p))"
proof (cases "attempt_row p k")
  case None
  with updated_attempt [where f = f, OF agreeD(1) [OF assms(1)] assms(2)] agreeD(2) [OF assms(1), of k] res
  have "\<not> fst (update_attempts c f p)" "res = (False, xs)" by simp_all
  with update_attempts_none assms(1) show ?thesis by simp
next
  case (Some r)
  with agreeD(2) [OF assms(1), of k] obtain a where a: "getAttemptById xs k = Some a" "attempt_agrees a r" by auto
  note row' = row [OF a(2) Some]
  have fst: "fst (update_attempts c f p) \<longleftrightarrow> guard a"
    using updated_attempt [where f = f, OF agreeD(1) [OF assms(1)] assms(2)] Some row' by simp
  show ?thesis
  proof (cases "guard a")
    case True
    with set_attempt_agrees [OF assms(1) Some _ assms(2) _ f, of "upd a"] row' fst res a show ?thesis by simp
  next
    case False
    with fst update_attempts_none assms(1) res a show ?thesis by simp
  qed
qed

lemma sim_update_job:
  assumes "stores_agree R xs p" "\<And>r. c r \<Longrightarrow> jr_jobId r = k"
    and f: "\<And>r. jr_jobId (f r) = jr_jobId r"
    and row: "\<And>j r. job_agrees R j r \<Longrightarrow> jr_jobId r = k \<Longrightarrow> (c r \<longleftrightarrow> guard j) \<and> (c r \<longrightarrow> job_agrees R (upd j) (f r))"
    and res: "res = (case getJob xs k of None \<Rightarrow> (False, xs) | Some j \<Rightarrow> if guard j then (True, set_job k (upd j) xs) else (False, xs))"
  shows "fst (update_jobs c f p) = fst res \<and> stores_agree R (snd res) (snd (update_jobs c f p))"
proof (cases "exec_job_row p k")
  case None
  with updated_job [where f = f, OF agreeD(1) [OF assms(1)] assms(2)] agreeD(3) [OF assms(1), of k] res
  have "\<not> fst (update_jobs c f p)" "res = (False, xs)" by simp_all
  with update_jobs_none assms(1) show ?thesis by simp
next
  case (Some r)
  with agreeD(3) [OF assms(1), of k] obtain j where j: "getJob xs k = Some j" "job_agrees R j r" by auto
  note row' = row [OF j(2) job_row_key [OF Some]]
  have fst: "fst (update_jobs c f p) \<longleftrightarrow> guard j"
    using updated_job [where f = f, OF agreeD(1) [OF assms(1)] assms(2)] Some row' by simp
  show ?thesis
  proof (cases "guard j")
    case True
    with set_job_agrees [OF assms(1) Some _ assms(2) _ f, of "upd j"] row' fst res j show ?thesis by simp
  next
    case False
    with fst update_jobs_none assms(1) res j show ?thesis by simp
  qed
qed

lemma body_agrees:
  assumes "sql_json (xa_responseBody b') = sql_body (ar_responseBody b)" "attempt_row p a = Some b" "body_fits a x p"
  shows "sql_json (opt_default (xa_responseBody b') (ax_responseBody x)) = sql_body (or_else (body_param x) (ar_responseBody b))"
proof (cases "ax_responseBody x")
  case None
  with assms(1) show ?thesis by (simp add: body_param_def or_else_def)
next
  case (Some v)
  with assms show ?thesis
    by (cases "v = JUndefined") (simp_all add: body_fits_def body_param_def or_else_def sql_body_def, simp add: sql_json_def nullish_def)
qed

lemma assigned_agrees:
  assumes "attempt_agrees b' b" "attempt_row p a = Some b" "body_fits a x p" "ar_status b \<noteq> Ob_DELIVERY_UNKNOWN"
  shows "attempt_agrees (assign_attempt x (b'\<lparr>xa_status := s\<rparr>))
    (b\<lparr>ar_status := s, ar_responseStatusCode := or_else (ax_responseStatusCode x) (ar_responseStatusCode b),
       ar_responseBody := or_else (body_param x) (ar_responseBody b),
       ar_responseHeaders := or_else (ax_responseHeaders x) (ar_responseHeaders b),
       ar_errorReason := or_else (ax_errorReason x) (ar_errorReason b),
       ar_completedAt := or_else (ax_completedAt x) (ar_completedAt b)\<rparr>)"
  using assms(1,4) body_agrees [OF _ assms(2,3), of b']
  by (simp add: attempt_agrees_def assign_attempt_def or_else_def split: option.split)

lemma resolved_agrees:
  assumes "attempt_agrees b' b" "attempt_row p a = Some b" "body_fits a x p" "ax_errorReason x = None" "ax_completedAt x \<noteq> None"
  shows "attempt_agrees (assign_attempt x (b'\<lparr>xa_status := Ob_SUCCESS\<rparr>))
    (b\<lparr>ar_status := Ob_SUCCESS, ar_responseStatusCode := or_else (ax_responseStatusCode x) (ar_responseStatusCode b),
       ar_responseBody := or_else (body_param x) (ar_responseBody b),
       ar_responseHeaders := or_else (ax_responseHeaders x) (ar_responseHeaders b),
       ar_completedAt := or_else (ax_completedAt x) (ar_completedAt b)\<rparr>)"
  using assms(1,4,5) body_agrees [OF _ assms(2,3), of b']
  by (auto simp: attempt_agrees_def assign_attempt_def or_else_def split: option.split)

lemma sim_updateAttemptStatus:
  assumes "stores_agree R xs p" "k \<noteq> []" "body_fits a x p"
  shows "fst (pg_updateAttemptStatus a s g x (Some k) p) = fst (updateAttemptStatus a s g x (Some k) xs) \<and>
    stores_agree R (snd (updateAttemptStatus a s g x (Some k) xs)) (snd (pg_updateAttemptStatus a s g x (Some k) p))"
proof -
  let ?guard = "\<lambda>b. fence_ok xs b (Some k) g \<and> xa_status b \<notin> set TERMINAL_OBLIGATION"
  let ?c = "\<lambda>r. ar_attemptId r = a \<and> fence_row p (Some k) g r \<and> ar_status r \<notin> set TERMINAL_OBLIGATION"
  have row: "?c r = ?guard b" "?c r \<Longrightarrow> ar_status r \<noteq> Ob_DELIVERY_UNKNOWN" if "attempt_agrees b r" "attempt_row p a = Some r" for b r
    using agree_fence [OF assms(1,2) that(1)] attempt_row_key [OF that(2)] that(1)
    by (simp_all add: attempt_agrees_def TERMINAL_OBLIGATION_def)
  have mem: "updateAttemptStatus a s g x (Some k) xs = (case getAttemptById xs a of None \<Rightarrow> (False, xs)
      | Some b \<Rightarrow> if ?guard b then (True, set_attempt a (assign_attempt x (b\<lparr>xa_status := s\<rparr>)) xs) else (False, xs))"
    by (simp add: updateAttemptStatus_def split: option.split)
  show ?thesis
    unfolding pg_updateAttemptStatus_def
  proof (rule sim_update_attempt [OF assms(1) _ _ _ _ _ mem])
    show "(?c r \<longleftrightarrow> ?guard b) \<and> (?c r \<longrightarrow> attempt_agrees (assign_attempt x (b\<lparr>xa_status := s\<rparr>))
        (r\<lparr>ar_status := s, ar_responseStatusCode := or_else (ax_responseStatusCode x) (ar_responseStatusCode r),
           ar_responseBody := or_else (body_param x) (ar_responseBody r),
           ar_responseHeaders := or_else (ax_responseHeaders x) (ar_responseHeaders r),
           ar_errorReason := or_else (ax_errorReason x) (ar_errorReason r),
           ar_completedAt := or_else (ax_completedAt x) (ar_completedAt r)\<rparr>))"
      if "attempt_agrees b r" "attempt_row p a = Some r" for b r
      using row [OF that] assigned_agrees [OF that assms(3)] by blast
  qed simp_all
qed

lemma sim_markAttemptInProgress:
  assumes "stores_agree R xs p" "k \<noteq> []"
  shows "fst (pg_markAttemptInProgress a g (Some k) t p) = fst (markAttemptInProgress a g (Some k) t xs) \<and>
    stores_agree R (snd (markAttemptInProgress a g (Some k) t xs)) (snd (pg_markAttemptInProgress a g (Some k) t p))"
  unfolding pg_markAttemptInProgress_def
  by (rule sim_update_attempt [OF assms(1), where guard = "\<lambda>b. xa_status b = Ob_PENDING \<and> fence_ok xs b (Some k) g"
        and upd = "\<lambda>b. b\<lparr>xa_status := Ob_ATTEMPTED, xa_startedAt := Some t\<rparr>"])
     (use agree_fence [OF assms] in \<open>auto simp: attempt_agrees_def markAttemptInProgress_def attempt_row_key split: option.split\<close>)

lemma sim_updateJobStatus:
  assumes "stores_agree R xs p" "s \<noteq> Jb_RUNNING"
  shows "fst (pg_updateJobStatus k s g x t p) = fst (updateJobStatus k s g x t xs) \<and>
    stores_agree R (snd (updateJobStatus k s g x t xs)) (snd (pg_updateJobStatus k s g x t p))"
  unfolding pg_updateJobStatus_def
  by (rule sim_update_job [OF assms(1), where guard = "\<lambda>j. xj_currentAttempt j = g \<and> xj_status j \<notin> set TERMINAL_JOB"
        and upd = "\<lambda>j. (assign_job x (j\<lparr>xj_status := s\<rparr>))\<lparr>xj_updatedAt := t\<rparr>"])
     (use assms(2) in \<open>auto simp: job_agrees_def assign_job_def updateJobStatus_def split: option.split\<close>)

lemma sim_claimJob:
  assumes "stores_agree R xs p" "t + d \<noteq> 0"
  shows "fst (pg_claimJob k w d t t p) = fst (claimJob k w d t xs) \<and>
    stores_agree R (snd (claimJob k w d t xs)) (snd (pg_claimJob k w d t t p))"
proof -
  let ?c = "\<lambda>r. jr_jobId r = k \<and> (jr_status r = Jb_PENDING \<or> stale_lock t r)"
  let ?f = "\<lambda>r. r\<lparr>jr_status := Jb_RUNNING, jr_lockedBy := Some w, jr_lockedUntil := Some (t + d),
     jr_currentAttempt := Suc (jr_currentAttempt r), jr_fenceGeneration := Suc (jr_fenceGeneration r), jr_updatedAt := t\<rparr>"
  let ?u = "\<lambda>j. j\<lparr>xj_status := Jb_RUNNING, xj_lockedBy := Some w, xj_lockedUntil := Some (t + d),
     xj_currentAttempt := Suc (xj_currentAttempt j), xj_updatedAt := t\<rparr>"
  let ?res = "case getJob xs k of None \<Rightarrow> (False, xs) | Some j \<Rightarrow>
     if xj_status j = Jb_PENDING \<or> lease_expired t j then (True, set_job k (?u j) xs) else (False, xs)"
  have sim: "fst (update_jobs ?c ?f p) = fst ?res \<and> stores_agree R (snd ?res) (snd (update_jobs ?c ?f p))"
  proof (rule sim_update_job [OF assms(1), where guard = "\<lambda>j. xj_status j = Jb_PENDING \<or> lease_expired t j" and upd = ?u])
    show "(?c r \<longleftrightarrow> xj_status j = Jb_PENDING \<or> lease_expired t j) \<and> (?c r \<longrightarrow> job_agrees R (?u j) (?f r))"
      if "job_agrees R j r" "jr_jobId r = k" for j r
    proof
      show "?c r \<longleftrightarrow> xj_status j = Jb_PENDING \<or> lease_expired t j"
        using agree_lease [OF that(1), of t] that by (simp add: job_agrees_def)
      show "?c r \<longrightarrow> job_agrees R (?u j) (?f r)" using assms(2) that by (simp add: job_agrees_def)
    qed
  qed simp_all
  have claim: "claimJob k w d t xs = (if fst ?res then map_option xj_currentAttempt (getJob (snd ?res) k) else None, snd ?res)"
    by (auto simp: claimJob_def set_job_def getJob_def Let_def split: option.split)
  obtain b p' where u: "update_jobs ?c ?f p = (b, p')" by fastforce
  with sim have b: "b = fst ?res" and agree: "stores_agree R (snd ?res) p'" by simp_all
  have pg: "pg_claimJob k w d t t p = (if b then map_option jr_fenceGeneration (exec_job_row p' k) else None, p')"
    using u by (auto simp: pg_claimJob_def split: bool.split)
  have "map_option jr_fenceGeneration (exec_job_row p' k) = map_option xj_currentAttempt (getJob (snd ?res) k)"
    using agreeD(3) [OF agree, of k] by (cases "exec_job_row p' k") (auto simp: job_agrees_def)
  with agree show ?thesis by (simp only: claim pg b fst_conv snd_conv simp_thms)
qed

text \<open>Ownership is the same in both stores.\<close>

lemma agree_owns:
  assumes "stores_agree R xs p"
  obtains (none) "owns xs k a g = None"
      "lock_job k g p = None \<or> (\<exists>job. lock_job k g p = Some job \<and>
         (attempt_row p a = None \<or> (\<exists>b. attempt_row p a = Some b \<and> ar_operationId b \<noteq> jr_operationId job)))"
  | (some) j x job b where "owns xs k a g = Some (j, x)" "lock_job k g p = Some job" "exec_job_row p k = Some job"
      "attempt_row p a = Some b" "ar_operationId b = jr_operationId job" "job_agrees R j job" "attempt_agrees x b"
      "held k g job" "getAttemptById xs a = Some x" "getJob xs k = Some j"
proof (cases "exec_job_row p k")
  case None
  with agreeD(3) [OF assms, of k] show ?thesis by (intro none) (simp_all add: owns_def lock_job_def)
next
  case (Some job)
  with agreeD(3) [OF assms, of k] obtain j where j: "getJob xs k = Some j" "job_agrees R j job" by auto
  show ?thesis
  proof (cases "attempt_row p a")
    case None
    with agreeD(2) [OF assms, of a] Some j show ?thesis by (intro none) (simp_all add: owns_def lock_job_def)
  next
    case (Some b)
    with agreeD(2) [OF assms, of a] obtain x where x: "getAttemptById xs a = Some x" "attempt_agrees x b" by auto
    show ?thesis
    proof (cases "held k g job \<and> ar_operationId b = jr_operationId job")
      case True
      with \<open>exec_job_row p k = Some job\<close> Some j x show ?thesis
        by (intro some [of j x job b]) (auto simp: owns_def lock_job_def held_def job_agrees_def attempt_agrees_def)
    next
      case False
      with \<open>exec_job_row p k = Some job\<close> Some j x job_row_key [of p k job] show ?thesis
        by (intro none) (auto simp: owns_def lock_job_def held_def job_agrees_def attempt_agrees_def)
    qed
  qed
qed

lemma not_updated:
  assumes "stores_agree R xs p" "\<And>r. c r \<Longrightarrow> ar_attemptId r = k" "\<And>r. attempt_row p k = Some r \<Longrightarrow> \<not> c r"
  shows "update_attempts c f p = (False, p)"
proof -
  have "\<not> fst (update_attempts c f p)"
    using updated_attempt [where f = f, OF agreeD(1) [OF assms(1)] assms(2)] assms(3) by (cases "attempt_row p k") auto
  with update_attempts_none show ?thesis by (metis prod.collapse)
qed

lemma skip_update:
  assumes "stores_agree R xs p" "attempt_row p k = None \<or> (\<exists>b. attempt_row p k = Some b \<and> \<not> d b)"
  shows "update_attempts (\<lambda>r. ar_attemptId r = k \<and> d r) f p = (False, p)"
  using assms(2) by (intro not_updated [OF assms(1)]) auto

lemma one_updated:
  assumes "stores_agree R xs p" "\<And>r. c r \<Longrightarrow> ar_attemptId r = k" "attempt_row p k = Some r" "c r"
  shows "update_attempts c f p = (True, snd (update_attempts c f p))"
  using updated_attempt [where f = f, OF agreeD(1) [OF assms(1)] assms(2)] assms(3,4) by (metis option.simps(5) prod.collapse)

text \<open>The two halves of a transaction: the locked attempt, then the closing update of the locked job.\<close>

lemma sim_attempt_part:
  assumes "stores_agree R xs p" "attempt_row p a = Some b" "\<And>r. c r \<Longrightarrow> ar_attemptId r = a" "c b" "attempt_agrees a' (f b)"
    and "\<And>r. ar_attemptId (f r) = ar_attemptId r" "\<And>r. ar_operationId (f r) = ar_operationId r"
      "\<And>r. ar_attemptNumber (f r) = ar_attemptNumber r"
  shows "\<exists>p1. update_attempts c f p = (True, p1) \<and> stores_agree R (set_attempt a a' xs) p1 \<and>
    (\<forall>k. exec_job_row p1 k = exec_job_row p k)"
  using one_updated [where c = c and f = f, OF assms(1) assms(3) assms(2) assms(4)]
    set_attempt_agrees [where c = c and f = f, OF assms(1,2,5,3,4,6,7,8)] assms(6)
  by (intro exI [of _ "snd (update_attempts c f p)"]) simp

lemma sim_job_part:
  assumes "stores_agree R xs p" "exec_job_row p k = Some job" "held k g job" "job_agrees R j' (d job)"
    and "\<And>r. jr_jobId (d r) = jr_jobId r"
  shows "\<exists>p2. update_jobs (held k g) d p = (True, p2) \<and> stores_agree R (set_job k j' xs) p2"
  using updated_job [where f = d and c = "held k g" and k = k, OF agreeD(1) [OF assms(1)]] assms(2,3)
    set_job_agrees [where c = "held k g" and f = d, OF assms(1,2,4) _ assms(3,5)]
  by (cases "update_jobs (held k g) d p") (simp add: held_def)

lemma sim_transaction:
  assumes "stores_agree R xs p" "attempt_row p a = Some b" "exec_job_row p k = Some job" "held k g job"
    and "\<And>r. c r \<Longrightarrow> ar_attemptId r = a" "c b" "attempt_agrees a' (f b)" "job_agrees R j' (d job)"
    and "\<And>r. ar_attemptId (f r) = ar_attemptId r" "\<And>r. ar_operationId (f r) = ar_operationId r"
      "\<And>r. ar_attemptNumber (f r) = ar_attemptNumber r" "\<And>r. jr_jobId (d r) = jr_jobId r"
  shows "\<exists>p1 p2. update_attempts c f p = (True, p1) \<and> update_jobs (held k g) d p1 = (True, p2) \<and>
    stores_agree R (set_job k j' (set_attempt a a' xs)) p2"
proof -
  from sim_attempt_part [where c = c and f = f, OF assms(1,2,5,6,7,9-11)] obtain p1
    where p1: "update_attempts c f p = (True, p1)" "stores_agree R (set_attempt a a' xs) p1" "exec_job_row p1 k = Some job"
    using assms(3) by auto
  from sim_job_part [where d = d, OF p1(2,3) assms(4,8,12)] p1(1) show ?thesis by blast
qed

lemma sim_resolve:
  assumes "stores_agree R xs p" "body_fits a x p" "ax_errorReason x = None" "ax_completedAt x \<noteq> None"
  shows "fst (pg_resolveRetrievalSuccessIfOwner k a g x t p) = fst (resolveRetrievalSuccessIfOwner k a g x t xs) \<and>
    stores_agree R (snd (resolveRetrievalSuccessIfOwner k a g x t xs)) (snd (pg_resolveRetrievalSuccessIfOwner k a g x t p))"
proof (rule agree_owns [OF assms(1), of k a g], goal_cases none some)
  case none
  then show ?case
    using assms skip_update [OF assms(1), of a]
    by (auto simp: pg_resolveRetrievalSuccessIfOwner_def resolveRetrievalSuccessIfOwner_def)
next
  case (some j b' job b)
  show ?case
  proof (cases "ar_status b = Ob_DELIVERY_UNKNOWN")
    case False
    with some skip_update [OF assms(1), of a] assms show ?thesis
      by (simp add: pg_resolveRetrievalSuccessIfOwner_def resolveRetrievalSuccessIfOwner_def attempt_agrees_def)
  next
    case True
    let ?c = "\<lambda>r. ar_attemptId r = a \<and> ar_operationId r = jr_operationId job \<and> ar_status r = Ob_DELIVERY_UNKNOWN"
    let ?f = "\<lambda>r. r\<lparr>ar_status := Ob_SUCCESS, ar_responseStatusCode := or_else (ax_responseStatusCode x) (ar_responseStatusCode r),
                    ar_responseBody := or_else (body_param x) (ar_responseBody r),
                    ar_responseHeaders := or_else (ax_responseHeaders x) (ar_responseHeaders r),
                    ar_completedAt := or_else (ax_completedAt x) (ar_completedAt r)\<rparr>"
    let ?d = "\<lambda>r. r\<lparr>jr_status := Jb_COMPLETED, jr_lockedBy := None, jr_lockedUntil := None, jr_updatedAt := t\<rparr>"
    have "\<exists>p1 p2. update_attempts ?c ?f p = (True, p1) \<and> update_jobs (held k g) ?d p1 = (True, p2) \<and>
      stores_agree R (set_job k (j\<lparr>xj_status := Jb_COMPLETED, xj_lockedBy := None, xj_lockedUntil := None, xj_updatedAt := t\<rparr>)
        (set_attempt a (assign_attempt x (b'\<lparr>xa_status := Ob_SUCCESS\<rparr>)) xs)) p2"
      using True some attempt_row_key assms(2-4) resolved_agrees [OF some(7,4) assms(2-4)]
      by (intro sim_transaction [where c = ?c and f = ?f and d = ?d, OF assms(1) some(4,3,8)])
         (simp_all add: job_agrees_def)
    moreover have "xa_status b' = Ob_DELIVERY_UNKNOWN" using True some(7) by (simp add: attempt_agrees_def)
    ultimately show ?thesis
      using some(1,2) by (auto simp: pg_resolveRetrievalSuccessIfOwner_def resolveRetrievalSuccessIfOwner_def)
  qed
qed

lemma sim_unresolvable:
  assumes "stores_agree R xs p"
  shows "fst (pg_resolveAttemptUnresolvableIfOwner k a g e e' t p) = fst (resolveAttemptUnresolvableIfOwner k a g e e' t xs) \<and>
    stores_agree R (snd (resolveAttemptUnresolvableIfOwner k a g e e' t xs)) (snd (pg_resolveAttemptUnresolvableIfOwner k a g e e' t p))"
proof (rule agree_owns [OF assms, of k a g], goal_cases none some)
  case none
  then show ?case
    using assms skip_update [OF assms, of a]
    by (auto simp: pg_resolveAttemptUnresolvableIfOwner_def resolveAttemptUnresolvableIfOwner_def)
next
  case (some j b' job b)
  show ?case
  proof (cases "ar_status b \<in> set TERMINAL_OBLIGATION")
    case True
    with some skip_update [OF assms, of a] assms show ?thesis
      by (simp add: pg_resolveAttemptUnresolvableIfOwner_def resolveAttemptUnresolvableIfOwner_def attempt_agrees_def)
  next
    case False
    let ?c = "\<lambda>r. ar_attemptId r = a \<and> ar_operationId r = jr_operationId job \<and> ar_status r \<notin> set TERMINAL_OBLIGATION"
    let ?f = "\<lambda>r. r\<lparr>ar_status := Ob_UNRESOLVABLE, ar_errorReason := Some e\<rparr>"
    let ?d = "\<lambda>r. r\<lparr>jr_status := Jb_UNRESOLVABLE, jr_lastError := Some e', jr_updatedAt := t\<rparr>"
    have "\<exists>p1 p2. update_attempts ?c ?f p = (True, p1) \<and> update_jobs (held k g) ?d p1 = (True, p2) \<and>
      stores_agree R (set_job k (j\<lparr>xj_status := Jb_UNRESOLVABLE, xj_lastError := Some e', xj_updatedAt := t\<rparr>)
        (set_attempt a (b'\<lparr>xa_status := Ob_UNRESOLVABLE, xa_errorReason := Some e\<rparr>) xs)) p2"
      using False some attempt_row_key
      by (intro sim_transaction [where c = ?c and f = ?f and d = ?d, OF assms some(4,3,8)])
         (simp_all add: attempt_agrees_def job_agrees_def TERMINAL_OBLIGATION_def)
    moreover have "xa_status b' \<notin> set TERMINAL_OBLIGATION" using False some(7) by (simp add: attempt_agrees_def)
    ultimately show ?thesis
      using some(1,2) by (auto simp: pg_resolveAttemptUnresolvableIfOwner_def resolveAttemptUnresolvableIfOwner_def)
  qed
qed

text \<open>The demotion of the original attempt changes no key, no owner and no number.\<close>

lemma same_attempt_agrees:
  assumes "stores_agree R xs p" "getAttemptById xs k = Some a"
  shows "stores_agree R (set_attempt k a xs) p"
proof -
  have "getAttemptById (set_attempt k a xs) k' = getAttemptById xs k'" for k' using assms(2) by simp
  with assms(1) show ?thesis by (simp add: stores_agree_def) (simp add: set_attempt_def)
qed

lemma list_update_same:
  assumes "\<And>r. P (f r) = P r"
  shows "list_ex P (map (\<lambda>r. if c r then f r else r) rs) = list_ex P rs" "list_all P (map (\<lambda>r. if c r then f r else r) rs) = list_all P rs"
  using assms by (induction rs) simp_all

lemma demoted:
  assumes "stores_agree R xs p" "attempt_row p a = Some b" "getAttemptById xs a = Some b'" "attempt_agrees b' b"
  shows "stores_agree R (set_attempt a (demote_attempted e b') xs) (demote_original b a e t p)"
    and "exec_job_row (demote_original b a e t p) k = exec_job_row p k"
    and "attempt_conflict r (demote_original b a e t p) = attempt_conflict r p"
    and "job_conflict j (demote_original b a e t p) = job_conflict j p"
    and "list_all (\<lambda>r. ar_operationId r = opId \<longrightarrow> ar_attemptNumber r \<le> n) (tb_attempts (demote_original b a e t p)) =
         list_all (\<lambda>r. ar_operationId r = opId \<longrightarrow> ar_attemptNumber r \<le> n) (tb_attempts p)"
proof -
  show "stores_agree R (set_attempt a (demote_attempted e b') xs) (demote_original b a e t p)"
  proof (cases "ar_status b = Ob_ATTEMPTED")
    case True
    with assms show ?thesis
      unfolding demote_original_def if_P [OF True]
      by (intro set_attempt_agrees [OF assms(1,2), where c = "\<lambda>r. ar_attemptId r = a"])
         (auto simp: attempt_agrees_def demote_attempted_def dest: attempt_row_key)
  next
    case False
    with assms same_attempt_agrees [OF assms(1,3)] show ?thesis
      by (simp add: demote_original_def demote_attempted_def attempt_agrees_def)
  qed
qed (simp_all add: demote_original_def attempt_conflict_def job_conflict_def update_attempts_def list_update_same exec_job_row_def)

lemma sql_date_idem [simp]: "sql_date (sql_date x) = sql_date x"
  by (simp add: sql_date_def)

lemma sql_body_json [simp]: "sql_body (sql_json v) = sql_json v"
  by (simp add: sql_body_def sql_json_def)

lemma values_agree: "attempt_agrees a (attempt_values a t)"
  by (simp add: attempt_agrees_def attempt_values_def)

lemma job_values_agree: "xj_currentAttempt j = 0 \<Longrightarrow> xj_status j \<noteq> Jb_RUNNING \<Longrightarrow> job_agrees R j (job_values j t t')"
  by (simp add: job_agrees_def job_values_def)

lemma conflict_times:
  "attempt_conflict (attempt_values a t) p = attempt_conflict (attempt_values a 0) p"
  "job_conflict (job_values j t t') p = job_conflict (job_values j 0 0) p"
  by (simp_all add: attempt_conflict_def job_conflict_def attempt_values_def job_values_def)

lemma insert_fitting_attempt:
  assumes "stores_agree R xs p" "attempt_fits a p"
  shows "\<exists>p'. insert_attempt (attempt_values a t) p = Inr p' \<and> (\<forall>k. exec_job_row p' k = exec_job_row p k) \<and>
    stores_agree R (index_attempt (xa_operationId a) (xa_attemptId a) (set_attempt (xa_attemptId a) a xs)) p'"
proof -
  let ?p = "p\<lparr>tb_attempts := tb_attempts p @ [attempt_values a t]\<rparr>"
  have ins: "insert_attempt (attempt_values a t) p = Inr ?p"
    using assms(2) conflict_times(1) [of a t p] by (simp add: insert_attempt_def attempt_fits_def)
  have "\<forall>b \<in> set (operation_rows p (ar_operationId (attempt_values a t))). ar_attemptNumber b \<le> ar_attemptNumber (attempt_values a t)"
    using assms(2) by (auto simp: attempt_fits_def operation_rows_def list_all_iff attempt_values_def)
  from insert_attempt_agrees [OF assms(1) ins values_agree this] ins show ?thesis by (simp add: exec_job_row_def)
qed

lemma insert_fitting_job:
  assumes "stores_agree R xs p" "job_fits j p"
  shows "\<exists>p'. insert_job (job_values j t t') p = Inr p' \<and> (\<forall>k. k \<noteq> xj_jobId j \<longrightarrow> exec_job_row p' k = exec_job_row p k) \<and>
    tb_attempts p' = tb_attempts p \<and> stores_agree R (set_job (xj_jobId j) j xs) p'"
proof -
  let ?p = "p\<lparr>tb_jobs := tb_jobs p @ [job_values j t t']\<rparr>"
  have ins: "insert_job (job_values j t t') p = Inr ?p"
    using assms(2) conflict_times(2) [of j t t' p] by (simp add: insert_job_def job_fits_def)
  have "job_agrees R j (job_values j t t')" using assms(2) by (intro job_values_agree) (simp_all add: job_fits_def)
  from insert_job_agrees [OF assms(1) ins this] ins show ?thesis
    by (simp add: exec_job_row_def find_append job_values_def split: option.split)
qed

lemma agree_original:
  assumes "job_agrees R j job" "attempt_agrees b' b" "ar_operationId b = jr_operationId job" "attempt_row p a = Some b"
  shows "lock_original job a p = (if xa_status b' \<noteq> Ob_ATTEMPTED \<and> xa_status b' \<noteq> Ob_DELIVERY_UNKNOWN then None else Some b)"
  using assms by (simp add: lock_original_def attempt_agrees_def)

lemma sim_retry:
  assumes "stores_agree R xs p" "attempt_fits r p" "k \<in> R"
  shows "fst (pg_createRecoveryAttemptIfOwner k a g r e t p) = Inr (fst (createRecoveryAttemptIfOwner k a g r e t xs)) \<and>
    stores_agree R (snd (createRecoveryAttemptIfOwner k a g r e t xs)) (snd (pg_createRecoveryAttemptIfOwner k a g r e t p))"
proof (rule agree_owns [OF assms(1), of k a g], goal_cases none some)
  case none
  then show ?case using assms(1)
    by (auto simp: pg_createRecoveryAttemptIfOwner_def createRecoveryAttemptIfOwner_def lock_original_def)
next
  case (some j b' job b)
  note orig = agree_original [OF some(6,7,5,4)]
  show ?case
  proof (cases "xa_status b' \<noteq> Ob_ATTEMPTED \<and> xa_status b' \<noteq> Ob_DELIVERY_UNKNOWN")
    case True
    with some(1,2) orig assms(1) show ?thesis
      by (simp add: pg_createRecoveryAttemptIfOwner_def createRecoveryAttemptIfOwner_def)
  next
    case False
    note d = demoted [where e = e and t = t, OF assms(1) some(4,9,7)]
    have fits: "attempt_fits r (demote_original b a e t p)" using assms(2) by (simp add: attempt_fits_def d)
    from insert_fitting_attempt [OF d(1) fits, of "xa_createdAt r"] obtain p1
      where p1: "insert_attempt (attempt_values r (xa_createdAt r)) (demote_original b a e t p) = Inr p1" "exec_job_row p1 k = Some job"
        "stores_agree R (index_attempt (xa_operationId r) (xa_attemptId r) (set_attempt (xa_attemptId r) r
          (set_attempt a (demote_attempted e b') xs))) p1"
      using d(2) some(3) by auto
    let ?d = "\<lambda>q. q\<lparr>jr_status := Jb_PENDING, jr_lockedBy := None, jr_lockedUntil := None, jr_lastError := Some e, jr_updatedAt := t\<rparr>"
    let ?j = "j\<lparr>xj_status := Jb_PENDING, xj_lockedBy := None, xj_lockedUntil := None, xj_updatedAt := t\<rparr>"
    from some(6) job_row_key [OF some(3)] assms(3) have "job_agrees R ?j (?d job)" by (simp add: job_agrees_def)
    from sim_job_part [where d = ?d, OF p1(3,2) some(8) this] obtain p2
      where p2: "update_jobs (held k g) ?d p1 = (True, p2)" and agree: "stores_agree R (set_job k ?j (index_attempt (xa_operationId r)
        (xa_attemptId r) (set_attempt (xa_attemptId r) r (set_attempt a (demote_attempted e b') xs)))) p2"
      by auto
    have "pg_createRecoveryAttemptIfOwner k a g r e t p = (Inr True, p2)"
      using False some(2) orig p1(1) p2 by (auto simp: pg_createRecoveryAttemptIfOwner_def)
    moreover have "createRecoveryAttemptIfOwner k a g r e t xs = (True, set_job k ?j (index_attempt (xa_operationId r)
        (xa_attemptId r) (set_attempt (xa_attemptId r) r (set_attempt a (demote_attempted e b') xs))))"
      using False some(1) by (auto simp: createRecoveryAttemptIfOwner_def)
    ultimately show ?thesis using agree by simp
  qed
qed

lemma sim_retrieve:
  assumes "stores_agree R xs p" "job_fits r p" "xj_jobId r \<noteq> k"
  shows "fst (pg_createRecoveryJobIfOwner k a g r e t p) = Inr (fst (createRecoveryJobIfOwner k a g r e t xs)) \<and>
    stores_agree R (snd (createRecoveryJobIfOwner k a g r e t xs)) (snd (pg_createRecoveryJobIfOwner k a g r e t p))"
proof (rule agree_owns [OF assms(1), of k a g], goal_cases none some)
  case none
  then show ?case using assms(1)
    by (auto simp: pg_createRecoveryJobIfOwner_def createRecoveryJobIfOwner_def lock_original_def)
next
  case (some j b' job b)
  note orig = agree_original [OF some(6,7,5,4)]
  show ?case
  proof (cases "xa_status b' \<noteq> Ob_ATTEMPTED \<and> xa_status b' \<noteq> Ob_DELIVERY_UNKNOWN")
    case True
    with some(1,2) orig assms(1) show ?thesis
      by (simp add: pg_createRecoveryJobIfOwner_def createRecoveryJobIfOwner_def)
  next
    case False
    note d = demoted [where e = e and t = t, OF assms(1) some(4,9,7)]
    have fits: "job_fits r (demote_original b a e t p)" using assms(2) by (simp add: job_fits_def d)
    from insert_fitting_job [OF d(1) fits, of "xj_createdAt r" "xj_updatedAt r"] obtain p1
      where p1: "insert_job (job_values r (xj_createdAt r) (xj_updatedAt r)) (demote_original b a e t p) = Inr p1"
        "exec_job_row p1 k = Some job" "stores_agree R (set_job (xj_jobId r) r (set_attempt a (demote_attempted e b') xs)) p1"
      using d(2) some(3) assms(3) by auto
    let ?d = "\<lambda>q. q\<lparr>jr_status := Jb_COMPLETED, jr_lockedBy := None, jr_lockedUntil := None, jr_lastError := Some e, jr_updatedAt := t\<rparr>"
    let ?j = "j\<lparr>xj_status := Jb_COMPLETED, xj_lastError := Some e, xj_lockedBy := None, xj_lockedUntil := None, xj_updatedAt := t\<rparr>"
    from some(6) have "job_agrees R ?j (?d job)" by (simp add: job_agrees_def)
    from sim_job_part [where d = ?d, OF p1(3,2) some(8) this] obtain p2
      where p2: "update_jobs (held k g) ?d p1 = (True, p2)"
        and agree: "stores_agree R (set_job k ?j (set_job (xj_jobId r) r (set_attempt a (demote_attempted e b') xs))) p2"
      by auto
    have "pg_createRecoveryJobIfOwner k a g r e t p = (Inr True, p2)"
      using False some(2) orig p1(1) p2 by (auto simp: pg_createRecoveryJobIfOwner_def)
    moreover have "createRecoveryJobIfOwner k a g r e t xs =
        (True, set_job k ?j (set_job (xj_jobId r) r (set_attempt a (demote_attempted e b') xs)))"
      using False some(1) by (auto simp: createRecoveryJobIfOwner_def)
    ultimately show ?thesis using agree by simp
  qed
qed


lemma sim_create:
  assumes "stores_agree R xs p" "attempt_fits a p" "job_fits j p"
  shows "fst (pg_saveAttemptWithJob a j t p) = Inr () \<and>
    stores_agree R (saveAttemptWithJob a j xs) (snd (pg_saveAttemptWithJob a j t p))"
proof -
  from insert_fitting_job [OF assms(1,3), of t t] obtain p1
    where p1: "insert_job (job_values j t t) p = Inr p1" "tb_attempts p1 = tb_attempts p" "stores_agree R (set_job (xj_jobId j) j xs) p1"
    by blast
  from assms(2) p1(2) have "attempt_fits a p1" by (simp add: attempt_fits_def attempt_conflict_def)
  from insert_fitting_attempt [OF p1(3) this, of t] obtain p2 where p2: "insert_attempt (attempt_values a t) p1 = Inr p2"
    "stores_agree R (index_attempt (xa_operationId a) (xa_attemptId a) (set_attempt (xa_attemptId a) a (set_job (xj_jobId j) j xs))) p2"
    by blast
  moreover have "index_attempt (xa_operationId a) (xa_attemptId a) (set_attempt (xa_attemptId a) a (set_job (xj_jobId j) j xs)) =
      saveAttemptWithJob a j xs"
    by (simp add: saveAttemptWithJob_def index_attempt_def set_attempt_def set_job_def put_job_def put_attempt_def Let_def)
  ultimately show ?thesis using p1(1) by (simp add: pg_saveAttemptWithJob_def committed_def)
qed

lemma sim_job:
  assumes "stores_agree R xs p" "job_fits j p"
  shows "fst (pg_saveJob j t p) = Inr () \<and> stores_agree R (saveJob j xs) (snd (pg_saveJob j t p))"
proof -
  from insert_fitting_job [OF assms, of t t] obtain p1
    where "insert_job (job_values j t t) p = Inr p1" "stores_agree R (set_job (xj_jobId j) j xs) p1" by blast
  then show ?thesis by (simp add: pg_saveJob_def committed_def saveJob_def put_job_def set_job_def)
qed

text \<open>The jobs that some call of a run retries.\<close>

definition retry_of :: "exec_call \<Rightarrow> string set" where
  "retry_of c = (case c of C_write k g (W_retry a r e) \<Rightarrow> {k} | _ \<Rightarrow> {})"

definition retried :: "(exec_call \<times> int) list \<Rightarrow> string set" where
  "retried cs = (\<Union>(c, t) \<in> set cs. retry_of c)"

lemma sim_write:
  assumes "stores_agree R xs p" "k \<noteq> []" "write_fits k w p" "retry_of (C_write k g w) \<subseteq> R"
  shows "fst (pg_write k g w t p) = Inr (fst (fenced_write k g w t xs)) \<and>
    stores_agree R (snd (fenced_write k g w t xs)) (snd (pg_write k g w t p))"
  using assms
  by (cases w) (simp_all add: sim_updateAttemptStatus sim_markAttemptInProgress sim_resolve sim_retry sim_retrieve
      sim_unresolvable sim_updateJobStatus retry_of_def)

lemma sim_call:
  assumes "stores_agree R xs p" "call_fits c t p" "retry_of c \<subseteq> R"
  shows "fst (pg_call c t p) = fst (mem_call c t xs) \<and> stores_agree R (snd (mem_call c t xs)) (snd (pg_call c t p))"
proof (cases c)
  case (C_create a j)
  with sim_create [OF assms(1), of a j t] assms(2) show ?thesis
    by (cases "pg_saveAttemptWithJob a j t p") (simp add: answer_unit_def)
next
  case (C_job j)
  with sim_job [OF assms(1), of j t] assms(2) show ?thesis by (cases "pg_saveJob j t p") (simp add: answer_unit_def)
next
  case (C_claim k w d)
  with sim_claimJob [OF assms(1), of t d k w] assms(2) show ?thesis
    by (cases "pg_claimJob k w d t t p"; cases "claimJob k w d t xs") simp
next
  case (C_write k g w)
  with sim_write [OF assms(1), of k w g t] assms(2,3) show ?thesis
    by (cases "pg_write k g w t p"; cases "fenced_write k g w t xs") simp
qed

section \<open>Runs\<close>

fun mem_run :: "(exec_call \<times> int) list \<Rightarrow> exec_store \<Rightarrow> exec_answer list \<times> exec_store" where
  "mem_run [] xs = ([], xs)"
| "mem_run ((c, t) # cs) xs = (case mem_call c t xs of (a, xs1) \<Rightarrow> (case mem_run cs xs1 of (as, xs2) \<Rightarrow> (a # as, xs2)))"

fun pg_run :: "(exec_call \<times> int) list \<Rightarrow> pg_exec \<Rightarrow> exec_answer list \<times> pg_exec" where
  "pg_run [] p = ([], p)"
| "pg_run ((c, t) # cs) p = (case pg_call c t p of (a, p1) \<Rightarrow> (case pg_run cs p1 of (as, p2) \<Rightarrow> (a # as, p2)))"

fun run_fits :: "(exec_call \<times> int) list \<Rightarrow> pg_exec \<Rightarrow> bool" where
  "run_fits [] p = True"
| "run_fits ((c, t) # cs) p = (call_fits c t p \<and> run_fits cs (snd (pg_call c t p)))"

lemma sim_run:
  assumes "stores_agree R xs p" "run_fits cs p" "retried cs \<subseteq> R"
  shows "fst (pg_run cs p) = fst (mem_run cs xs) \<and> stores_agree R (snd (mem_run cs xs)) (snd (pg_run cs p))"
  using assms
proof (induction cs arbitrary: xs p)
  case (Cons ct cs)
  obtain c t where ct: "ct = (c, t)" by fastforce
  with Cons.prems have fits: "call_fits c t p" "run_fits cs (snd (pg_call c t p))" by simp_all
  from ct Cons.prems(3) have R: "retry_of c \<subseteq> R" "retried cs \<subseteq> R" by (simp_all add: retried_def)
  from sim_call [OF Cons.prems(1) fits(1) R(1)] have 1: "fst (pg_call c t p) = fst (mem_call c t xs)"
    and 2: "stores_agree R (snd (mem_call c t xs)) (snd (pg_call c t p))" by simp_all
  from Cons.IH [OF 2 fits(2) R(2)] 1 show ?case by (simp add: ct split_def)
qed simp

text \<open>
  What is read of an attempt and of a job, in either store: everything but an attempt's time of creation and the
  end of an unknown delivery, and of a job its time of creation, its lease while it is not running, its last update
  before the first claim, and the last error of a retried job. An absent body is undefined, a time of 0 is absent.
\<close>

definition attempt_view :: "ExecutionAttempt \<Rightarrow> ExecutionAttempt" where
  "attempt_view a = a\<lparr>xa_requestBody := opt_default JUndefined (sql_json (xa_requestBody a)),
     xa_responseBody := opt_default JUndefined (sql_json (xa_responseBody a)), xa_startedAt := sql_date (xa_startedAt a),
     xa_completedAt := (if xa_status a = Ob_DELIVERY_UNKNOWN then None else sql_date (xa_completedAt a)), xa_createdAt := 0\<rparr>"

definition job_view :: "string set \<Rightarrow> RecoveryJob \<Rightarrow> RecoveryJob" where
  "job_view R j = j\<lparr>xj_lockedBy := (if xj_status j = Jb_RUNNING then xj_lockedBy j else None),
     xj_lockedUntil := (if xj_status j = Jb_RUNNING then xj_lockedUntil j else None),
     xj_lastError := (if xj_jobId j \<in> R then None else xj_lastError j),
     xj_updatedAt := (if 0 < xj_currentAttempt j then xj_updatedAt j else 0), xj_createdAt := 0\<rparr>"

lemma sql_json_default [simp]: "sql_json (opt_default JUndefined (sql_body b)) = sql_body b"
  by (cases b) (auto simp: sql_json_def sql_body_def nullish_def)

lemma agree_attempt_view: "attempt_agrees a r \<Longrightarrow> attempt_view (rowToAttempt r) = attempt_view a"
  by (cases a; cases r) (auto simp: attempt_agrees_def attempt_view_def rowToAttempt_def sql_body_def [symmetric])

lemma agree_job_view: "job_agrees R j r \<Longrightarrow> job_view R (rowToJob r) = job_view R j"
  by (cases j; cases r) (auto simp: job_agrees_def job_view_def rowToJob_def)

lemma find_distinct: "distinct (map key rs) \<Longrightarrow> r \<in> set rs \<Longrightarrow> find (\<lambda>s. key s = key r) rs = Some r"
  by (induction rs) (auto simp: rev_image_eqI)

lemma agree_listing:
  assumes "stores_agree R xs p"
  shows "map attempt_view (getAttemptsByOperation xs opId) = map attempt_view (pg_getAttemptsByOperation p opId)"
proof -
  have one: "\<exists>a. js_get (xs_attempts xs) (ar_attemptId r) = Some a \<and> attempt_view (rowToAttempt r) = attempt_view a"
    if "r \<in> set (tb_attempts p)" for r
  proof -
    have "attempt_row p (ar_attemptId r) = Some r"
      using find_distinct [where key = ar_attemptId, OF _ that] agreeD(1) [OF assms] by (simp add: attempt_row_def pg_keyed_def)
    with agreeD(2) [OF assms, of "ar_attemptId r"] show ?thesis by (auto simp: getAttemptById_def agree_attempt_view)
  qed
  have "map attempt_view (List.map_filter (js_get (xs_attempts xs)) (map ar_attemptId rs)) = map attempt_view (map rowToAttempt rs)"
    if "set rs \<subseteq> set (tb_attempts p)" for rs
    using that one by (induction rs) (fastforce simp: List.map_filter_simps)+
  moreover have "set (operation_rows p opId) \<subseteq> set (tb_attempts p)" by (auto simp: operation_rows_def)
  ultimately show ?thesis
    using agreeD(4) [OF assms, of opId] by (simp add: getAttemptsByOperation_def pg_getAttemptsByOperation_def)
qed

lemma agree_empty: "stores_agree R empty_exec empty_pg"
  by (simp add: stores_agree_def empty_exec_def empty_pg_def pg_keyed_def getAttemptById_def getJob_def attempt_row_def
      exec_job_row_def operation_rows_def)


section \<open>Steps of the tables\<close>

definition pg_fence :: "pg_exec \<Rightarrow> string \<Rightarrow> nat option" where
  "pg_fence p k = map_option jr_fenceGeneration (exec_job_row p k)"

text \<open>Every statement of every worker, each process on its own clock.\<close>

inductive pg_step :: "pg_exec \<Rightarrow> pg_exec \<Rightarrow> bool" where
  pgs_call: "pg_call c t p = (a, p') \<Longrightarrow> pg_step p p'"
| pgs_claim: "pg_claimJob k w d now t p = (r, p') \<Longrightarrow> pg_step p p'"
| pgs_save: "pg_saveAttempt a t p = (r, p') \<Longrightarrow> pg_step p p'"
| pgs_unbound: "pg_updateAttemptStatus a s g x j p = (b, p') \<Longrightarrow> pg_step p p'"

definition grows :: "pg_exec \<Rightarrow> pg_exec \<Rightarrow> bool" where
  "grows p p' = ((pg_keyed p \<longrightarrow> pg_keyed p') \<and>
     (\<forall>k g. pg_fence p k = Some g \<longrightarrow> (\<exists>g'. pg_fence p' k = Some g' \<and> g \<le> g')))"

lemma grows_refl [simp]: "grows p p"
  by (simp add: grows_def)

lemma grows_trans [trans]: "grows p q \<Longrightarrow> grows q r \<Longrightarrow> grows p r"
  unfolding grows_def by (meson le_trans)

lemma grows_attempts:
  assumes "\<And>r. ar_attemptId (f r) = ar_attemptId r"
  shows "grows p (snd (update_attempts c f p))"
  using assms by (auto simp: grows_def pg_fence_def)

lemma grows_jobs:
  assumes "\<And>r. jr_jobId (f r) = jr_jobId r" "\<And>r. jr_fenceGeneration r \<le> jr_fenceGeneration (f r)"
  shows "grows p (snd (update_jobs c f p))"
proof -
  have "\<exists>g'. map_option jr_fenceGeneration (map_option (\<lambda>r. if c r then f r else r) x) = Some g' \<and> g \<le> g'"
    if "map_option jr_fenceGeneration x = Some g" for x g
    using that assms(2) by (cases x) auto
  with assms(1) show ?thesis by (simp add: grows_def pg_fence_def)
qed

lemma grows_insert_attempt: "insert_attempt a p = Inr p' \<Longrightarrow> grows p p'"
  by (fastforce simp: grows_def pg_fence_def insert_attempt_def attempt_conflict_def pg_keyed_def exec_job_row_def list_ex_iff
      split: if_splits)

lemma grows_insert_job: "insert_job j p = Inr p' \<Longrightarrow> grows p p'"
  by (fastforce simp: grows_def pg_fence_def insert_job_def job_conflict_def pg_keyed_def exec_job_row_def find_append list_ex_iff
      split: if_splits)

lemma grows_demote: "grows p (demote_original a k e t p)"
  unfolding demote_original_def by (cases "ar_status a = Ob_ATTEMPTED") (simp_all add: grows_attempts)

lemma grows_retry: "grows p (snd (pg_createRecoveryAttemptIfOwner k a g r e t p))"
proof -
  have "grows p (snd (update_jobs (held k g) f q))"
    if "insert_attempt row (demote_original b a e t p) = Inr q"
      "\<And>r. jr_jobId (f r) = jr_jobId r" "\<And>r. jr_fenceGeneration r \<le> jr_fenceGeneration (f r)" for b row q f
    using grows_trans [OF grows_trans [OF grows_demote grows_insert_attempt [OF that(1)]] grows_jobs [OF that(2,3)]] .
  then show ?thesis by (simp add: pg_createRecoveryAttemptIfOwner_def split: option.split sum.split)
qed

lemma grows_retrieve: "grows p (snd (pg_createRecoveryJobIfOwner k a g j e t p))"
proof -
  have "grows p (snd (update_jobs (held k g) f q))"
    if "insert_job row (demote_original b a e t p) = Inr q"
      "\<And>r. jr_jobId (f r) = jr_jobId r" "\<And>r. jr_fenceGeneration r \<le> jr_fenceGeneration (f r)" for b row q f
    using grows_trans [OF grows_trans [OF grows_demote grows_insert_job [OF that(1)]] grows_jobs [OF that(2,3)]] .
  then show ?thesis by (simp add: pg_createRecoveryJobIfOwner_def split: option.split sum.split)
qed

lemma grows_transaction:
  assumes "\<And>r. ar_attemptId (f r) = ar_attemptId r" "\<And>r. jr_jobId (d r) = jr_jobId r"
    "\<And>r. jr_fenceGeneration r \<le> jr_fenceGeneration (d r)"
  shows "grows p (snd (update_jobs h d (snd (update_attempts c f p))))"
  using grows_trans [OF grows_attempts [of f, OF assms(1)] grows_jobs [of d, OF assms(2,3)]] .

lemma case_answer: "(case q of (False, p) \<Rightarrow> no p | (True, p) \<Rightarrow> yes p) = (if fst q then yes (snd q) else no (snd q))"
  by (cases q) (simp split: bool.split)

lemma grows_write: "grows p (snd (pg_write k g w t p))"
  by (cases w) (simp_all add: grows_retry grows_retrieve grows_attempts grows_jobs grows_transaction pg_updateAttemptStatus_def
      pg_markAttemptInProgress_def pg_updateJobStatus_def pg_resolveRetrievalSuccessIfOwner_def
      pg_resolveAttemptUnresolvableIfOwner_def case_answer split: option.split)

lemma grows_claim: "grows p (snd (pg_claimJob k w d now t p))"
  by (simp add: pg_claimJob_def case_answer grows_jobs)

lemma grows_save:
  "grows p (snd (pg_saveAttempt a t p))" "grows p (snd (pg_saveJob j t p))" "grows p (snd (pg_saveAttemptWithJob a j t p))"
  using grows_trans [OF grows_insert_job grows_insert_attempt]
  by (auto simp: pg_saveAttempt_def pg_saveJob_def pg_saveAttemptWithJob_def committed_def
      intro: grows_insert_attempt grows_insert_job split: sum.split)

lemma grows_call: "grows p (snd (pg_call c t p))"
proof (cases c)
  case (C_write k g w)
  with grows_write [of p k g w t] show ?thesis by (cases "pg_write k g w t p"; cases "fst (pg_write k g w t p)") simp_all
qed (use grows_claim grows_save in \<open>simp_all add: answer_unit_def split_def split: sum.split\<close>)

lemma pg_step_grows: "pg_step p p' \<Longrightarrow> grows p p'"
proof (induction rule: pg_step.induct)
  case (pgs_unbound a s g x j p b p')
  then have "p' = snd (pg_updateAttemptStatus a s g x j p)" by simp
  then show ?case by (simp add: pg_updateAttemptStatus_def grows_attempts)
qed (use grows_call grows_claim grows_save(1) in \<open>metis snd_conv\<close>)+

text \<open>The two contracts of \<open>job_fence\<close> that need the keys to be unique.\<close>

lemma pg_claim_next:
  assumes "pg_keyed p" "pg_claimJob k w d now t p = (Some g, p')"
  shows "\<exists>g0. pg_fence p k = Some g0 \<and> g = Suc g0 \<and> pg_fence p' k = Some g"
proof -
  let ?c = "\<lambda>r. jr_jobId r = k \<and> (jr_status r = Jb_PENDING \<or> stale_lock t r)"
  let ?f = "\<lambda>r. r\<lparr>jr_status := Jb_RUNNING, jr_lockedBy := Some w, jr_lockedUntil := Some (now + d),
     jr_currentAttempt := Suc (jr_currentAttempt r), jr_fenceGeneration := Suc (jr_fenceGeneration r), jr_updatedAt := t\<rparr>"
  from assms(2) have won: "fst (update_jobs ?c ?f p)" "p' = snd (update_jobs ?c ?f p)" "pg_fence p' k = Some g"
    by (auto simp: pg_claimJob_def case_answer pg_fence_def split: if_splits)
  with updated_job [where f = ?f, OF assms(1), of ?c k] obtain r where "exec_job_row p k = Some r" "?c r" by (auto split: option.splits)
  with won(2,3) show ?thesis by (auto simp: pg_fence_def)
qed

lemma pg_stale_write:
  assumes "pg_keyed p" "pg_fence p k \<noteq> Some g" "k \<noteq> []"
  shows "pg_write k g w t p = (Inr False, p)"
proof -
  have f: "\<not> fence_row p (Some k) g a" for a
    using assms(2) fence_row_named [OF assms(1,3)] by (auto simp: pg_fence_def split: option.splits)
  have l: "lock_job k g p = None" using assms(2) by (auto simp: lock_job_def pg_fence_def split: option.split)
  have none: "update_attempts (\<lambda>r. False) h p = (False, p)" for h
    by (rule prod_eqI) (simp_all add: update_attempts_def list_ex_iff)
  show ?thesis
  proof (cases w)
    case (W_job s x)
    let ?c = "\<lambda>r. jr_jobId r = k \<and> jr_fenceGeneration r = g \<and> jr_status r \<notin> set TERMINAL_JOB"
    have n: "\<not> fst (update_jobs ?c h p)" for h
      using updated_job [where f = h, OF assms(1), of ?c k] assms(2) by (auto simp: pg_fence_def split: option.splits)
    have "update_jobs ?c h p = (False, p)" for h
      using update_jobs_none [OF n [of h]] n [of h] by (cases "update_jobs ?c h p") simp
    with W_job show ?thesis by (simp add: pg_updateJobStatus_def)
  qed (simp_all add: f l none pg_updateAttemptStatus_def pg_markAttemptInProgress_def pg_resolveRetrievalSuccessIfOwner_def
      pg_createRecoveryAttemptIfOwner_def pg_createRecoveryJobIfOwner_def pg_resolveAttemptUnresolvableIfOwner_def)
qed

lemma pg_step_keyed: "pg_step p p' \<Longrightarrow> pg_keyed p \<Longrightarrow> pg_keyed p'"
  using pg_step_grows by (simp add: grows_def)

lemma pg_step_fence: "pg_step p p' \<Longrightarrow> pg_fence p k = Some g \<Longrightarrow> \<exists>g'. pg_fence p' k = Some g' \<and> g \<le> g'"
  using pg_step_grows by (simp add: grows_def)

interpretation pg_fenced: job_fence pg_keyed pg_fence "\<lambda>k w d t. pg_claimJob k w d t t" pg_step pg_write "Inr False"
  by unfold_locales (rule pg_step_keyed pgs_claim pg_claim_next pg_step_fence pg_stale_write; assumption)+

section \<open>Properties\<close>


text \<open>A whole life of an obligation: created, claimed, sent, unknown, and retried by another claim.\<close>

definition sample_calls :: "(exec_call \<times> int) list" where
  "sample_calls =
     [(C_create (sample_attempt Ob_PENDING) (sample_job XC_EXECUTION_IDEMPOTENT), 1),
      (C_claim ''j1'' ''A'' 100, 2),
      (C_claim ''j1'' ''B'' 100, 3),
      (C_write ''j1'' 1 (W_mark ''a1''), 4),
      (C_write ''j1'' 1 (W_retry ''a1'' ((sample_attempt Ob_PENDING)\<lparr>xa_attemptId := ''a2'', xa_attemptNumber := 2\<rparr>) ''timeout''), 5),
      (C_claim ''j1'' ''B'' 100, 6),
      (C_write ''j1'' 1 (W_mark ''a2''), 7),
      (C_write ''j1'' 2 (W_attempt ''a2'' Ob_SUCCESS no_extra), 8),
      (C_write ''j1'' 2 (W_job Jb_COMPLETED plain), 9)]"


text \<open>A write to an attempt that names no job is let through by any job of the operation with the generation.\<close>

lemma unbound_write:
  assumes "fst (pg_updateAttemptStatus a s g x None p)"
  shows "\<exists>b \<in> set (tb_attempts p). ar_attemptId b = a \<and> (\<exists>j \<in> set (tb_jobs p). jr_operationId j = ar_operationId b \<and> jr_fenceGeneration j = g)"
  using assms by (auto simp: pg_updateAttemptStatus_def update_attempts_def fence_row_def list_ex_iff)

lemma other_job:
  assumes "pg_keyed p" "pg_fence p k \<noteq> Some g" "j \<in> set (tb_jobs p)" "jr_fenceGeneration j = g"
  shows "jr_jobId j \<noteq> k"
proof
  assume "jr_jobId j = k"
  with find_distinct [where key = jr_jobId, OF _ assms(3)] assms(1) have "exec_job_row p k = Some j"
    by (simp add: exec_job_row_def pg_keyed_def)
  with assms(2,4) show False by (simp add: pg_fence_def)
qed

lemma lost_fence:
  assumes "pg_keyed p0" "pg_claimJob k w d t t p0 = (Some g, p1)" "pg_step\<^sup>*\<^sup>* p1 p2" "pg_claimJob k w' d' t' t' p2 = (Some g', p3)"
    and "pg_step\<^sup>*\<^sup>* p3 p4"
  shows "pg_keyed p4 \<and> pg_fence p4 k \<noteq> Some g"
proof -
  have v1: "pg_keyed p1" using pg_step_keyed [OF pgs_claim [OF assms(2)] assms(1)] .
  have v2: "pg_keyed p2" using pg_fenced.steps_valid [OF assms(3) v1] .
  have v3: "pg_keyed p3" using pg_step_keyed [OF pgs_claim [OF assms(4)] v2] .
  have "pg_fence p1 k = Some g" using pg_claim_next [OF assms(1,2)] by blast
  from pg_fenced.steps_mono [OF assms(3) v1 this] pg_claim_next [OF v2 assms(4)] have "g < g'" "pg_fence p3 k = Some g'" by auto
  with pg_fenced.steps_mono [OF assms(5) v3 this(2)] pg_fenced.steps_valid [OF assms(5) v3] show ?thesis by auto
qed


definition sample_pg :: pg_exec where
  "sample_pg = snd (pg_run [(C_create (sample_attempt Ob_PENDING) (sample_job XC_NONE), 1)] empty_pg)"


end
