(* ===== verification/PgIntents.thy ===== *)
theory PgIntents
  imports FacilitatorClient PgExecStore
begin

text \<open>
  \<^verbatim>\<open>lib/db/src/secretariat/postgres-store.ts\<close> over the tables \<^verbatim>\<open>payment_intents\<close> and \<^verbatim>\<open>nonce_registry\<close> of
  \<^verbatim>\<open>lib/db/src/schema/payment-intents.ts\<close>: payment intents, nonces and the guarded writes of the store the
  program runs with. A table is the map from its primary key to its rows. The database's own rendering of a
  \<open>numeric(38,6)\<close> column is an argument. A statement that fails throws an error with a chain of
  causes; \<open>names\<close> tells whether the driver hands on the name of the violated constraint.
\<close>

section \<open>Rows\<close>

record PaymentIntentRow =
  pr_paymentIntentId :: string
  pr_operationId :: string
  pr_requestId :: "string option"
  pr_clientId :: "string option"
  pr_target :: "string option"
  pr_method :: "string option"
  pr_paymentPolicy :: "PaymentPolicy option"
  pr_authorizer :: string
  pr_payTo :: string
  pr_value :: string
  pr_asset :: string
  pr_network :: string
  pr_nonce :: string
  pr_validAfter :: int
  pr_validBefore :: int
  pr_paymentPayload :: string
  pr_paymentPayloadHash :: string
  pr_settlementState :: SettlementState
  pr_txHash :: "string option"
  pr_facilitatorHttpStatus :: "int option"
  pr_facilitatorResponseBody :: "json option"
  pr_errorReason :: "string option"
  pr_submitAttemptAt :: "int option"
  pr_settledAt :: "int option"
  pr_notSettledAt :: "int option"
  pr_extraFields :: "(string \<times> json) list option"
  pr_settledEvidenceBundle :: "json option"
  pr_notSettledEvidenceBundle :: "json option"
  pr_evidence :: "EvidenceRecord list option"
  pr_probeCount :: nat
  pr_version :: nat
  pr_createdAt :: int
  pr_updatedAt :: int

text \<open>A row of \<^verbatim>\<open>reconciliation_observations\<close>: a view of a provider, or a record of the evidence log.\<close>

record ObservationRow =
  ob_paymentIntentId :: "string option"
  ob_attemptId :: string
  ob_rpcProviderId :: string
  ob_observedAt :: int
  ob_blockNumber :: jsnum
  ob_authorizationState :: "bool option"
  ob_validBefore :: int
  ob_result :: string
  ob_error :: "string option"

record pg_store =
  ps_intents :: "(string, PaymentIntentRow) jsmap"
  ps_nonces :: "(string, NonceRecord) jsmap"
  ps_observations :: "(string, ObservationRow) jsmap"
  ps_exec :: pg_exec

definition empty_pg_store :: pg_store where
  "empty_pg_store = \<lparr>ps_intents = [], ps_nonces = [], ps_observations = [], ps_exec = empty_pg\<rparr>"

definition intent_row :: "pg_store \<Rightarrow> string \<Rightarrow> PaymentIntentRow option" where
  "intent_row p k = js_get (ps_intents p) k"

definition put_row :: "string \<Rightarrow> PaymentIntentRow \<Rightarrow> pg_store \<Rightarrow> pg_store" where
  "put_row k r p = p\<lparr>ps_intents := js_set k r (ps_intents p)\<rparr>"

text \<open>\<open>UPDATE payment_intents SET ... WHERE payment_intent_id = k AND ...\<close>; the answer tells whether a row met the condition.\<close>

definition update_intent ::
    "string \<Rightarrow> (PaymentIntentRow \<Rightarrow> bool) \<Rightarrow> (PaymentIntentRow \<Rightarrow> PaymentIntentRow) \<Rightarrow> pg_store \<Rightarrow> bool \<times> pg_store" where
  "update_intent k c f p = (case intent_row p k of None \<Rightarrow> (False, p)
     | Some r \<Rightarrow> if c r then (True, put_row k (f r) p) else (False, p))"

section \<open>Reading a row\<close>

text \<open>\<open>raw.replace(/0+$/, "")\<close>.\<close>

definition strip_zeros :: "string \<Rightarrow> string" where
  "strip_zeros s = rev (dropWhile (\<lambda>c. c = CHR ''0'') (rev s))"

definition normalizeNumericText :: "string \<Rightarrow> string" where
  "normalizeNumericText raw =
     (if raw = [] then raw
      else if CHR ''.'' \<notin> set raw then raw
      else (let trimmed = strip_zeros raw;
                trimmed = (if trimmed \<noteq> [] \<and> last trimmed = CHR ''.'' then butlast trimmed else trimmed)
            in if trimmed = [] \<or> trimmed = ''-'' then ''0'' else trimmed))"

text \<open>
  The intent a row stands for. The columns that hold JSON of another shape than the declared type
  are cast by the source; here they are fields of their own and the declared ones stay empty.
\<close>

record StoredIntent = DurablePaymentIntent +
  si_extras :: "(string \<times> json) list"
  si_settledEvidenceBundle :: "json option"
  si_notSettledEvidenceBundle :: "json option"
  si_evidence :: "EvidenceRecord list option"

definition rowToIntent :: "PaymentIntentRow \<Rightarrow> StoredIntent" where
  "rowToIntent r =
     \<lparr>pi_paymentIntentId = pr_paymentIntentId r, pi_operationId = pr_operationId r, pi_requestId = pr_requestId r,
      pi_clientId = pr_clientId r, pi_authorizer = pr_authorizer r, pi_payer = Some (pr_authorizer r), pi_payTo = pr_payTo r,
      pi_value = normalizeNumericText (pr_value r), pi_asset = pr_asset r, pi_network = pr_network r, pi_nonce = pr_nonce r,
      pi_validAfter = pr_validAfter r, pi_validBefore = pr_validBefore r, pi_paymentPayload = pr_paymentPayload r,
      pi_paymentPayloadHash = pr_paymentPayloadHash r, pi_settlementState = pr_settlementState r, pi_txHash = pr_txHash r,
      pi_facilitatorHttpStatus = pr_facilitatorHttpStatus r,
      pi_facilitatorResponseBody = opt_default JUndefined (Option.bind (pr_facilitatorResponseBody r) sql_json),
      pi_errorReason = pr_errorReason r, pi_submitAttemptAt = pr_submitAttemptAt r, pi_settledAt = pr_settledAt r,
      pi_notSettledAt = pr_notSettledAt r, pi_reconciliationObservations = [], pi_settledEvidenceBundle = None,
      pi_notSettledEvidenceBundle = None, pi_probeCount = Some (pr_probeCount r), pi_nextProbeAt = None,
      pi_createdAt = pr_createdAt r, pi_updatedAt = pr_updatedAt r,
      si_extras = opt_default [] (pr_extraFields r), si_settledEvidenceBundle = pr_settledEvidenceBundle r,
      si_notSettledEvidenceBundle = pr_notSettledEvidenceBundle r, si_evidence = pr_evidence r\<rparr>"

definition first_row :: "(PaymentIntentRow \<Rightarrow> bool) \<Rightarrow> pg_store \<Rightarrow> StoredIntent option" where
  "first_row c p = map_option rowToIntent (find c (js_values (ps_intents p)))"

definition pg_getPaymentIntentById :: "pg_store \<Rightarrow> string \<Rightarrow> StoredIntent option" where
  "pg_getPaymentIntentById p k = map_option rowToIntent (intent_row p k)"

definition pg_getPaymentIntentByOperationId :: "pg_store \<Rightarrow> string \<Rightarrow> StoredIntent option" where
  "pg_getPaymentIntentByOperationId p opId = first_row (\<lambda>r. pr_operationId r = opId) p"

definition pg_getPaymentIntentByRequestId :: "pg_store \<Rightarrow> string \<Rightarrow> StoredIntent option" where
  "pg_getPaymentIntentByRequestId p requestId = first_row (\<lambda>r. pr_requestId r = Some requestId) p"

definition pg_canCreateNewPayment :: "pg_store \<Rightarrow> string \<Rightarrow> bool" where
  "pg_canCreateNewPayment p opId =
     (case find (\<lambda>r. pr_operationId r = opId) (js_values (ps_intents p)) of
        None \<Rightarrow> True | Some r \<Rightarrow> allowNewPayment (pr_settlementState r))"

definition pg_getNonTerminalIntents :: "pg_store \<Rightarrow> StoredIntent list" where
  "pg_getNonTerminalIntents p = map rowToIntent
     (filter (\<lambda>r. pr_settlementState r \<in> {St_SUBMITTING, St_SUBMITTED, St_SETTLEMENT_PENDING, St_RECONCILING})
       (js_values (ps_intents p)))"

text \<open>Settled intents whose operation has no execution job, the longest untouched first.\<close>

definition pg_getSettledIntentsWithoutObligation :: "nat \<Rightarrow> pg_store \<Rightarrow> StoredIntent list" where
  "pg_getSettledIntentsWithoutObligation limit p = map rowToIntent (take limit (sort_key pr_updatedAt
     (filter (\<lambda>r. pr_settlementState r = St_SETTLED \<and>
          \<not> list_ex (\<lambda>j. jr_operationId j = pr_operationId r \<and> jr_jobType j = Jt_EXECUTION) (tb_jobs (ps_exec p)))
       (js_values (ps_intents p)))))"

section \<open>Database errors\<close>

text \<open>An error and its causes, outermost first: the code and the constraint each of them carries.\<close>

type_synonym db_error = "(string option \<times> string option) list"

definition first_some :: "('a \<Rightarrow> 'b option) \<Rightarrow> 'a list \<Rightarrow> 'b option" where
  "first_some f xs = (case find (\<lambda>x. f x \<noteq> None) xs of None \<Rightarrow> None | Some x \<Rightarrow> f x)"

definition findPgErrorCode :: "db_error \<Rightarrow> string option" where
  "findPgErrorCode err = first_some fst (take 6 err)"

definition findPgConstraintName :: "db_error \<Rightarrow> string option" where
  "findPgConstraintName err = first_some snd (take 6 err)"

text \<open>The query error of the driver around the error of the database.\<close>

definition violates :: "bool \<Rightarrow> string \<Rightarrow> db_error" where
  "violates names constraint = [(None, None), (Some ''23505'', if names then Some constraint else None)]"

section \<open>Inserts\<close>

text \<open>The first unique index the new intent meets.\<close>

definition intent_conflict :: "PaymentIntentRow \<Rightarrow> pg_store \<Rightarrow> string option" where
  "intent_conflict r p =
     (if js_has (ps_intents p) (pr_paymentIntentId r) then Some ''payment_intents_pkey''
      else if list_ex (\<lambda>q. pr_operationId q = pr_operationId r) (js_values (ps_intents p)) then Some ''pi_operation_id_unique''
      else if pr_clientId r \<noteq> None \<and> pr_requestId r \<noteq> None \<and>
              list_ex (\<lambda>q. pr_clientId q = pr_clientId r \<and> pr_requestId q = pr_requestId r) (js_values (ps_intents p))
           then Some ''pi_client_request_unique''
      else None)"

definition intent_values :: "DurablePaymentIntent \<Rightarrow> string \<Rightarrow> int \<Rightarrow> PaymentIntentRow" where
  "intent_values i value t =
     \<lparr>pr_paymentIntentId = pi_paymentIntentId i, pr_operationId = pi_operationId i, pr_requestId = pi_requestId i,
      pr_clientId = pi_clientId i, pr_target = None, pr_method = None, pr_paymentPolicy = None, pr_authorizer = pi_authorizer i,
      pr_payTo = pi_payTo i, pr_value = value, pr_asset = pi_asset i, pr_network = pi_network i, pr_nonce = pi_nonce i,
      pr_validAfter = pi_validAfter i, pr_validBefore = pi_validBefore i, pr_paymentPayload = pi_paymentPayload i,
      pr_paymentPayloadHash = pi_paymentPayloadHash i, pr_settlementState = pi_settlementState i, pr_txHash = pi_txHash i,
      pr_facilitatorHttpStatus = None, pr_facilitatorResponseBody = None, pr_errorReason = None,
      pr_submitAttemptAt = sql_date (pi_submitAttemptAt i), pr_settledAt = None, pr_notSettledAt = None, pr_extraFields = None,
      pr_settledEvidenceBundle = None, pr_notSettledEvidenceBundle = None, pr_evidence = None,
      pr_probeCount = opt_default 0 (pi_probeCount i), pr_version = 0, pr_createdAt = t, pr_updatedAt = t\<rparr>"

text \<open>\<open>numeric\<close> is what the column makes of a text: its rendering with six decimals, or an error of the database.\<close>

type_synonym numeric_column = "string \<Rightarrow> db_error + string"

definition insert_intent ::
    "numeric_column \<Rightarrow> bool \<Rightarrow> DurablePaymentIntent \<Rightarrow> int \<Rightarrow> pg_store \<Rightarrow> db_error + pg_store" where
  "insert_intent numeric names i t p =
     (case numeric (pi_value i) of
        Inl e \<Rightarrow> Inl e
      | Inr value \<Rightarrow>
          (case intent_conflict (intent_values i value t) p of
             Some c \<Rightarrow> Inl (violates names c)
           | None \<Rightarrow> Inr (put_row (pi_paymentIntentId i) (intent_values i value t) p)))"

definition insert_nonce :: "bool \<Rightarrow> string \<Rightarrow> string \<Rightarrow> string \<Rightarrow> int \<Rightarrow> pg_store \<Rightarrow> db_error + pg_store" where
  "insert_nonce names nonce operationId payer t p =
     (if js_has (ps_nonces p) nonce then Inl (violates names ''nonce_registry_pkey'')
      else Inr (p\<lparr>ps_nonces := js_set nonce
        \<lparr>nr_operationId = operationId, nr_status = N_RESERVED, nr_payer = payer, nr_createdAt = t, nr_updatedAt = t\<rparr> (ps_nonces p)\<rparr>))"

text \<open>An error the store does not translate is passed on as it is: \<open>Inl (Inl e)\<close>.\<close>

type_synonym pg_exn = "db_error + exn"

definition pg_createPaymentIntent ::
    "numeric_column \<Rightarrow> bool \<Rightarrow> DurablePaymentIntent \<Rightarrow> int \<Rightarrow> pg_store \<Rightarrow> (pg_exn + unit) \<times> pg_store" where
  "pg_createPaymentIntent numeric names i t p =
     (case insert_intent numeric names i t p of
        Inr p' \<Rightarrow> (Inr (), p')
      | Inl err \<Rightarrow> (Inl (if findPgErrorCode err = Some ''23505''
          then Inr (''DUPLICATE_OPERATION_ID: '' @ pi_operationId i) else Inl err), p))"

definition pg_reserveNonce :: "bool \<Rightarrow> string \<Rightarrow> string \<Rightarrow> string \<Rightarrow> int \<Rightarrow> pg_store \<Rightarrow> (pg_exn + unit) \<times> pg_store" where
  "pg_reserveNonce names nonce operationId payer t p =
     (case insert_nonce names nonce operationId payer t p of
        Inr p' \<Rightarrow> (Inr (), p')
      | Inl err \<Rightarrow> (Inl (if findPgErrorCode err = Some ''23505''
          then Inr (''NONCE_ALREADY_RESERVED: '' @ nonce) else Inl err), p))"

definition pg_getNonce :: "pg_store \<Rightarrow> string \<Rightarrow> NonceRecord option" where
  "pg_getNonce p nonce = js_get (ps_nonces p) nonce"

definition pg_mark_nonce :: "NonceStatus \<Rightarrow> string \<Rightarrow> int \<Rightarrow> pg_store \<Rightarrow> pg_store" where
  "pg_mark_nonce status nonce t p =
     (case js_get (ps_nonces p) nonce of None \<Rightarrow> p
      | Some n \<Rightarrow> p\<lparr>ps_nonces := js_set nonce (n\<lparr>nr_status := status, nr_updatedAt := t\<rparr>) (ps_nonces p)\<rparr>)"

text \<open>
  Both rows in one transaction. The error names what stood in the way: by the constraint when
  the driver tells it, else by looking the nonce up.
\<close>

definition pg_createIntentWithNonce ::
    "numeric_column \<Rightarrow> bool \<Rightarrow> DurablePaymentIntent \<Rightarrow> string \<Rightarrow> int \<Rightarrow> pg_store \<Rightarrow> (pg_exn + unit) \<times> pg_store" where
  "pg_createIntentWithNonce numeric names i payer t p =
     (case (case (if pi_nonce i = [] then Inr p else insert_nonce names (pi_nonce i) (pi_operationId i) payer t p) of
              Inl err \<Rightarrow> Inl err
            | Inr p1 \<Rightarrow> insert_intent numeric names i t p1) of
        Inr p' \<Rightarrow> (Inr (), p')
      | Inl err \<Rightarrow>
          (let reserved = ''NONCE_ALREADY_RESERVED: '' @ pi_nonce i; duplicate = ''DUPLICATE_OPERATION_ID: '' @ pi_operationId i
           in if findPgErrorCode err \<noteq> Some ''23505'' then (Inl (Inl err), p)
              else (case findPgConstraintName err of
                 Some c \<Rightarrow>
                   if c = ''nonce_registry_pkey'' then (Inl (Inr reserved), p)
                   else if c \<noteq> [] then (Inl (Inr duplicate), p)
                   else if pi_nonce i \<noteq> [] \<and> pg_getNonce p (pi_nonce i) \<noteq> None then (Inl (Inr reserved), p)
                   else (Inl (Inr duplicate), p)
               | None \<Rightarrow>
                   if pi_nonce i \<noteq> [] \<and> pg_getNonce p (pi_nonce i) \<noteq> None then (Inl (Inr reserved), p)
                   else (Inl (Inr duplicate), p))))"

section \<open>Guarded writes\<close>

definition pg_set_state :: "SettlementState \<Rightarrow> IntentExtra \<Rightarrow> int \<Rightarrow> PaymentIntentRow \<Rightarrow> PaymentIntentRow" where
  "pg_set_state newState x t r = r\<lparr>pr_settlementState := newState, pr_version := Suc (pr_version r), pr_updatedAt := t,
     pr_txHash := or_else (ix_txHash x) (pr_txHash r),
     pr_facilitatorHttpStatus := or_else (ix_facilitatorHttpStatus x) (pr_facilitatorHttpStatus r),
     pr_facilitatorResponseBody := (if ix_facilitatorResponseBody x = JUndefined then pr_facilitatorResponseBody r
                                    else sql_json (ix_facilitatorResponseBody x)),
     pr_errorReason := or_else (ix_errorReason x) (pr_errorReason r),
     pr_submitAttemptAt := or_else (ix_submitAttemptAt x) (pr_submitAttemptAt r),
     pr_settledAt := (if newState = St_SETTLED then Some t else pr_settledAt r),
     pr_notSettledAt := (if newState = St_NOT_SETTLED then Some t else pr_notSettledAt r)\<rparr>"

definition pg_compareAndSetState ::
    "string \<Rightarrow> SettlementState \<Rightarrow> SettlementState \<Rightarrow> IntentExtra \<Rightarrow> int \<Rightarrow> pg_store \<Rightarrow> bool \<times> pg_store" where
  "pg_compareAndSetState k expectedState newState x t p =
     (if isTerminalSettlementState expectedState then (False, p)
      else update_intent k (\<lambda>r. pr_settlementState r = expectedState) (pg_set_state newState x t) p)"

definition pg_authorizePaymentIntent ::
    "string \<Rightarrow> string \<Rightarrow> string \<Rightarrow> SettlementState \<Rightarrow> int \<Rightarrow> pg_store \<Rightarrow> (exn + bool) \<times> pg_store" where
  "pg_authorizePaymentIntent k payload payloadHash expectedState t p =
     (case update_intent k (\<lambda>r. pr_settlementState r = expectedState)
             (\<lambda>r. r\<lparr>pr_paymentPayload := payload, pr_paymentPayloadHash := payloadHash, pr_settlementState := St_AUTHORIZED,
                    pr_version := Suc (pr_version r), pr_updatedAt := t\<rparr>) p of
        (True, p') \<Rightarrow> (Inr True, p')
      | (False, p') \<Rightarrow>
          (case intent_row p' k of
             None \<Rightarrow> (Inl (''INTENT_NOT_FOUND: '' @ k), p')
           | Some r \<Rightarrow>
               if pr_paymentPayloadHash r = payloadHash then (Inr False, p')
               else (Inl (''PAYMENT_INTENT_AUTHORIZATION_CONFLICT: intent is '' @ st_name (pr_settlementState r) @
                          '' with a different payload''), p')))"

definition pg_updatePaymentIntentAuthorization :: "string \<Rightarrow> string \<Rightarrow> string \<Rightarrow> int \<Rightarrow> pg_store \<Rightarrow> pg_store" where
  "pg_updatePaymentIntentAuthorization k payload payloadHash t p =
     snd (update_intent k (\<lambda>r. True)
       (\<lambda>r. r\<lparr>pr_paymentPayload := payload, pr_paymentPayloadHash := payloadHash, pr_updatedAt := t\<rparr>) p)"

text \<open>\<open>a || b\<close> of JSON objects: the fields of the right one replace those of the left one.\<close>

definition json_merge :: "(string \<times> json) list \<Rightarrow> (string \<times> json) list \<Rightarrow> (string \<times> json) list" where
  "json_merge a b = foldl (\<lambda>m (k, v). js_set k v m) a b"

text \<open>
  The unguarded update. \<open>others\<close> are the fields of \<open>extra\<close> without a column; they are merged into
  \<open>extra_fields\<close>.
\<close>

definition pg_updatePaymentIntentStatus ::
    "string \<Rightarrow> SettlementState \<Rightarrow> IntentExtra \<Rightarrow> (string \<times> json) list \<Rightarrow> int \<Rightarrow> pg_store \<Rightarrow> pg_store" where
  "pg_updatePaymentIntentStatus k status x others t p =
     snd (update_intent k (\<lambda>r. True)
       (\<lambda>r. r\<lparr>pr_settlementState := status, pr_version := Suc (pr_version r), pr_updatedAt := t,
          pr_txHash := or_else (ix_txHash x) (pr_txHash r),
          pr_facilitatorHttpStatus := or_else (ix_facilitatorHttpStatus x) (pr_facilitatorHttpStatus r),
          pr_facilitatorResponseBody := (if ix_facilitatorResponseBody x = JUndefined then pr_facilitatorResponseBody r
                                         else sql_json (ix_facilitatorResponseBody x)),
          pr_errorReason := or_else (ix_errorReason x) (pr_errorReason r),
          pr_extraFields := (if others = [] then pr_extraFields r
                             else Some (json_merge (opt_default [] (pr_extraFields r)) others))\<rparr>) p)"

definition pg_saveSettledEvidenceBundle :: "string \<Rightarrow> json \<Rightarrow> int \<Rightarrow> pg_store \<Rightarrow> pg_store" where
  "pg_saveSettledEvidenceBundle k b t p =
     snd (update_intent k (\<lambda>r. True) (\<lambda>r. r\<lparr>pr_settledEvidenceBundle := Some b, pr_updatedAt := t\<rparr>) p)"

definition pg_saveNotSettledEvidenceBundle :: "string \<Rightarrow> json \<Rightarrow> int \<Rightarrow> pg_store \<Rightarrow> pg_store" where
  "pg_saveNotSettledEvidenceBundle k b t p =
     snd (update_intent k (\<lambda>r. True) (\<lambda>r. r\<lparr>pr_notSettledEvidenceBundle := Some b, pr_updatedAt := t\<rparr>) p)"

definition pg_updatePaymentIntentProbeCount :: "string \<Rightarrow> nat \<Rightarrow> int \<Rightarrow> pg_store \<Rightarrow> pg_store" where
  "pg_updatePaymentIntentProbeCount k n t p =
     snd (update_intent k (\<lambda>r. True) (\<lambda>r. r\<lparr>pr_probeCount := n, pr_updatedAt := t\<rparr>) p)"

section \<open>Lookups after each statement\<close>

lemma intent_row_put [simp, store_simps]: "intent_row (put_row k r p) k' = (if k' = k then Some r else intent_row p k')"
  by (simp add: intent_row_def put_row_def)

lemma put_row_frame [simp, store_simps]: "ps_nonces (put_row k r p) = ps_nonces p" "ps_exec (put_row k r p) = ps_exec p"
  by (simp_all add: put_row_def)

lemma update_intent_row:
  "intent_row (snd (update_intent k c f p)) k' =
     (if k' = k then map_option (\<lambda>r. if c r then f r else r) (intent_row p k) else intent_row p k')"
  by (auto simp: update_intent_def split: option.split)

lemma update_intent_frame [simp]:
  "ps_nonces (snd (update_intent k c f p)) = ps_nonces p" "ps_exec (snd (update_intent k c f p)) = ps_exec p"
  by (auto simp: update_intent_def split: option.split)

lemma update_intent_won: "fst (update_intent k c f p) \<longleftrightarrow> (\<exists>r. intent_row p k = Some r \<and> c r)"
  by (auto simp: update_intent_def split: option.split)

lemma update_intent_lost: "\<not> fst (update_intent k c f p) \<Longrightarrow> snd (update_intent k c f p) = p"
  by (auto simp: update_intent_def split: option.split)

definition pg_intent :: "pg_store \<Rightarrow> string \<Rightarrow> DurablePaymentIntent option" where
  "pg_intent p k = map_option (\<lambda>r. DurablePaymentIntent.truncate (rowToIntent r)) (intent_row p k)"

lemma truncate_row:
  "pi_settlementState (DurablePaymentIntent.truncate (rowToIntent r)) = pr_settlementState r"
  "pi_paymentPayloadHash (DurablePaymentIntent.truncate (rowToIntent r)) = pr_paymentPayloadHash r"
  by (simp_all add: rowToIntent_def DurablePaymentIntent.truncate_def)

section \<open>The guarded writes keep the contracts of the store\<close>

text \<open>Besides the state a win writes the time of settlement or of its refutation.\<close>

definition pg_moved :: "SettlementState \<Rightarrow> int \<Rightarrow> DurablePaymentIntent \<Rightarrow> DurablePaymentIntent" where
  "pg_moved n t i = i\<lparr>pi_settlementState := n, pi_updatedAt := t,
     pi_settledAt := (if n = St_SETTLED then Some t else pi_settledAt i),
     pi_notSettledAt := (if n = St_NOT_SETTLED then Some t else pi_notSettledAt i)\<rparr>"

lemma pg_set_state_moved:
  "DurablePaymentIntent.truncate (rowToIntent (pg_set_state n no_row_extra t r)) =
     pg_moved n t (DurablePaymentIntent.truncate (rowToIntent r))"
  by (simp add: pg_set_state_def pg_moved_def rowToIntent_def DurablePaymentIntent.truncate_def no_row_extra_def)

lemma pg_cas_win:
  assumes "pg_compareAndSetState k e n no_row_extra t p = (True, p')"
  shows "\<exists>i. pg_intent p k = Some i \<and> pi_settlementState i = e \<and> \<not> isTerminalSettlementState e \<and>
    pg_intent p' = (pg_intent p)(k \<mapsto> pg_moved n t i)"
  using assms by (auto simp: pg_compareAndSetState_def update_intent_def pg_intent_def truncate_row pg_set_state_moved fun_eq_iff
      split: if_splits option.splits)

lemma pg_cas_lose: "pg_compareAndSetState k e n x t p = (False, p') \<Longrightarrow> p' = p"
  by (auto simp: pg_compareAndSetState_def update_intent_def split: if_splits option.splits)

lemma pg_cas_enabled:
  "pg_intent p k = Some i \<Longrightarrow> pi_settlementState i = e \<Longrightarrow> \<not> isTerminalSettlementState e \<Longrightarrow>
   fst (pg_compareAndSetState k e n x t p)"
  by (auto simp: pg_compareAndSetState_def update_intent_won pg_intent_def truncate_row)

lemma pg_moved_state: "pi_settlementState (pg_moved n t i) = n"
  by (simp add: pg_moved_def)

interpretation pg_cas: intent_cas pg_intent "\<lambda>k e n t. pg_compareAndSetState k e n no_row_extra t" pg_moved
  by unfold_locales (auto simp: pg_moved_state dest: pg_cas_win pg_cas_lose intro: pg_cas_enabled)

lemma bound_row:
  "DurablePaymentIntent.truncate (rowToIntent (r\<lparr>pr_paymentPayload := payload, pr_paymentPayloadHash := h,
     pr_settlementState := St_AUTHORIZED, pr_version := v, pr_updatedAt := t\<rparr>)) =
   bind_payload payload h t (DurablePaymentIntent.truncate (rowToIntent r))"
  by (simp add: bind_payload_def rowToIntent_def DurablePaymentIntent.truncate_def)

lemma pg_bind_win:
  assumes "pg_authorizePaymentIntent k payload h e t p = (Inr True, p')"
  shows "\<exists>i. pg_intent p k = Some i \<and> pi_settlementState i = e \<and> pg_intent p' = (pg_intent p)(k \<mapsto> bind_payload payload h t i)"
  using assms by (auto simp: pg_authorizePaymentIntent_def update_intent_def pg_intent_def truncate_row bound_row fun_eq_iff
      split: if_splits option.splits)

lemma pg_bind_replay:
  "pg_authorizePaymentIntent k payload h e t p = (Inr False, p') \<Longrightarrow>
     p' = p \<and> (\<exists>i. pg_intent p k = Some i \<and> pi_paymentPayloadHash i = h)"
  by (auto simp: pg_authorizePaymentIntent_def update_intent_def pg_intent_def truncate_row split: if_splits option.splits)

lemma pg_bind_conflict:
  "pg_authorizePaymentIntent k payload h e t p = (Inl m, p') \<Longrightarrow>
     p' = p \<and> (\<forall>i. pg_intent p k = Some i \<longrightarrow> pi_paymentPayloadHash i \<noteq> h \<and> pi_settlementState i \<noteq> e)"
  by (auto simp: pg_authorizePaymentIntent_def update_intent_def pg_intent_def truncate_row split: if_splits option.splits)

interpretation pg_bind: payload_binder pg_intent pg_authorizePaymentIntent
  by unfold_locales (blast dest: pg_bind_win pg_bind_replay pg_bind_conflict)+

section \<open>Numbers read back\<close>

lemma strip_six_zeros: "strip_zeros (d @ ''.000000'') = d @ ''.''"
  by (simp add: strip_zeros_def)

lemma normalize_integer:
  "d \<noteq> [] \<Longrightarrow> d \<noteq> ''-'' \<Longrightarrow> normalizeNumericText (d @ ''.000000'') = d"
  by (simp add: normalizeNumericText_def strip_six_zeros [unfolded append_assoc] Let_def)

section \<open>Creating an intent\<close>

lemma intent_values_simps [simp]:
  "pr_nonce (intent_values i v t) = pi_nonce i" "pr_operationId (intent_values i v t) = pi_operationId i"
  "pr_paymentIntentId (intent_values i v t) = pi_paymentIntentId i"
  by (simp_all add: intent_values_def)

lemma insert_intent_ok:
  "insert_intent numeric names i t p = Inr p' \<longleftrightarrow>
     (\<exists>v. numeric (pi_value i) = Inr v \<and> intent_conflict (intent_values i v t) p = None \<and>
          p' = put_row (pi_paymentIntentId i) (intent_values i v t) p)"
  by (auto simp: insert_intent_def split: sum.split option.split)

lemma insert_nonce_ok:
  "insert_nonce names n opId payer t p = Inr p' \<longleftrightarrow> js_get (ps_nonces p) n = None \<and>
     p' = p\<lparr>ps_nonces := js_set n \<lparr>nr_operationId = opId, nr_status = N_RESERVED, nr_payer = payer, nr_createdAt = t, nr_updatedAt = t\<rparr>
       (ps_nonces p)\<rparr>"
  by (auto simp: insert_nonce_def js_has_def)

lemma create_err: "pg_createIntentWithNonce numeric names i payer t p = (Inl e, p') \<Longrightarrow> p' = p"
  by (auto simp: pg_createIntentWithNonce_def Let_def split: sum.splits option.splits if_splits)

lemma conflict_frame [simp]: "intent_conflict r (p\<lparr>ps_nonces := ns\<rparr>) = intent_conflict r p"
  by (simp add: intent_conflict_def)

lemma create_ok:
  assumes "pg_createIntentWithNonce numeric names i payer t p = (Inr u, p')"
  obtains v where "numeric (pi_value i) = Inr v" "intent_conflict (intent_values i v t) p = None"
    "ps_intents p' = js_set (pi_paymentIntentId i) (intent_values i v t) (ps_intents p)"
    "pi_nonce i = [] \<and> ps_nonces p' = ps_nonces p \<or>
     pi_nonce i \<noteq> [] \<and> js_get (ps_nonces p) (pi_nonce i) = None \<and> ps_nonces p' = js_set (pi_nonce i)
       \<lparr>nr_operationId = pi_operationId i, nr_status = N_RESERVED, nr_payer = payer, nr_createdAt = t, nr_updatedAt = t\<rparr> (ps_nonces p)"
proof (cases "pi_nonce i = []")
  case True
  with assms have "insert_intent numeric names i t p = Inr p'"
    by (auto simp: pg_createIntentWithNonce_def Let_def split: sum.splits option.splits if_splits)
  with True that show ?thesis by (auto simp: insert_intent_ok put_row_def)
next
  case False
  with assms obtain p1 where "insert_nonce names (pi_nonce i) (pi_operationId i) payer t p = Inr p1"
    "insert_intent numeric names i t p1 = Inr p'"
    by (auto simp: pg_createIntentWithNonce_def Let_def split: sum.splits option.splits if_splits)
  with False that show ?thesis by (auto simp: insert_intent_ok insert_nonce_ok put_row_def)
qed

lemma conflict_none:
  "intent_conflict r p = None \<longleftrightarrow> js_get (ps_intents p) (pr_paymentIntentId r) = None \<and>
     (\<forall>q \<in> set (js_values (ps_intents p)). pr_operationId q \<noteq> pr_operationId r \<and>
        \<not> (pr_clientId r \<noteq> None \<and> pr_requestId r \<noteq> None \<and> pr_clientId q = pr_clientId r \<and> pr_requestId q = pr_requestId r))"
  by (auto simp: intent_conflict_def js_has_def list_ex_iff)

section \<open>One nonce, one intent\<close>

text \<open>
  The statements on the two tables, by any process: an intent with its nonce, a nonce of its own, a
  status of a nonce, the guarded writes, updates of one row or of many that leave identity and nonce alone (those of
  \<open>saveOperation\<close>, the evidence log and the handoff are such, as their theories prove), and anything on the other tables. An intent inserted directly,
  without a row in the registry, is a statement of runs with \<open>direct\<close> only: the program does so for payments
  that are not of version 2.
\<close>

inductive pg_intent_step :: "bool \<Rightarrow> pg_store \<Rightarrow> pg_store \<Rightarrow> bool" for direct where
  pis_create: "pg_createIntentWithNonce numeric names i payer t p = (r, p') \<Longrightarrow> pg_intent_step direct p p'"
| pis_direct: "direct \<Longrightarrow> pg_createPaymentIntent numeric names i t p = (r, p') \<Longrightarrow> pg_intent_step direct p p'"
| pis_reserve: "pg_reserveNonce names n opId payer t p = (r, p') \<Longrightarrow> pg_intent_step direct p p'"
| pis_mark: "pg_intent_step direct p (pg_mark_nonce status n t p)"
| pis_cas: "pg_compareAndSetState k e n x t p = (b, p') \<Longrightarrow> pg_intent_step direct p p'"
| pis_authorize: "pg_authorizePaymentIntent k payload h e t p = (r, p') \<Longrightarrow> pg_intent_step direct p p'"
| pis_payload: "pg_intent_step direct p (pg_updatePaymentIntentAuthorization k payload h t p)"
| pis_status: "pg_intent_step direct p (pg_updatePaymentIntentStatus k s x others t p)"
| pis_settled: "pg_intent_step direct p (pg_saveSettledEvidenceBundle k b t p)"
| pis_refuted: "pg_intent_step direct p (pg_saveNotSettledEvidenceBundle k b t p)"
| pis_probe: "pg_intent_step direct p (pg_updatePaymentIntentProbeCount k m t p)"
| pis_row: "(\<And>r. pr_nonce (f r) = pr_nonce r) \<Longrightarrow> (\<And>r. pr_operationId (f r) = pr_operationId r) \<Longrightarrow>
            pg_intent_step direct p (snd (update_intent k c f p))"
| pis_rows: "(\<And>r. pr_nonce (f r) = pr_nonce r) \<Longrightarrow> (\<And>r. pr_operationId (f r) = pr_operationId r) \<Longrightarrow>
            pg_intent_step direct p (p\<lparr>ps_intents := map (\<lambda>(k, r). (k, f r)) (ps_intents p)\<rparr>)"
| pis_observe: "pg_intent_step direct p (p\<lparr>ps_observations := os\<rparr>)"
| pis_exec: "pg_intent_step direct p (p\<lparr>ps_exec := x\<rparr>)"

definition nonce_of :: "pg_store \<Rightarrow> string \<Rightarrow> string option" where
  "nonce_of p k = map_option pr_nonce (intent_row p k)"

definition operation_of :: "pg_store \<Rightarrow> string \<Rightarrow> string option" where
  "operation_of p k = map_option pr_operationId (intent_row p k)"

definition nonce_holder :: "pg_store \<Rightarrow> string \<Rightarrow> string option" where
  "nonce_holder p n = map_option nr_operationId (js_get (ps_nonces p) n)"

definition nonces_wf :: "bool \<Rightarrow> pg_store \<Rightarrow> bool" where
  "nonces_wf direct p = (js_wf (ps_intents p) \<and>
     (\<forall>k k' opId. operation_of p k = Some opId \<longrightarrow> operation_of p k' = Some opId \<longrightarrow> k = k') \<and>
     (\<not> direct \<longrightarrow> (\<forall>k n. nonce_of p k = Some n \<longrightarrow> n \<noteq> [] \<longrightarrow> nonce_holder p n = operation_of p k)))"

lemma nonces_wf_empty: "nonces_wf direct empty_pg_store"
  by (simp add: nonces_wf_def empty_pg_store_def nonce_of_def operation_of_def intent_row_def js_wf_def)

lemma held_nonce:
  assumes "nonces_wf False p" "nonce_of p k = Some n" "n \<noteq> []"
  shows "js_get (ps_nonces p) n \<noteq> None"
proof -
  have "nonce_holder p n = operation_of p k" using assms by (simp add: nonces_wf_def)
  with assms(2) show ?thesis by (auto simp: nonce_holder_def operation_of_def nonce_of_def)
qed

text \<open>A statement that keeps identity, nonce and holder of everything keeps the invariant.\<close>

lemma nonces_wf_same:
  assumes "nonces_wf direct p" "js_wf (ps_intents p')" "nonce_of p' = nonce_of p" "operation_of p' = operation_of p"
    "nonce_holder p' = nonce_holder p"
  shows "nonces_wf direct p'"
  using assms by (simp add: nonces_wf_def)

lemma update_intent_wf:
  assumes "nonces_wf direct p" "\<And>r. pr_nonce (f r) = pr_nonce r" "\<And>r. pr_operationId (f r) = pr_operationId r"
  shows "nonces_wf direct (snd (update_intent k c f p))"
proof (rule nonces_wf_same [OF assms(1)])
  show "js_wf (ps_intents (snd (update_intent k c f p)))"
    using assms(1) by (auto simp: nonces_wf_def update_intent_def put_row_def split: option.split)
  show "nonce_of (snd (update_intent k c f p)) = nonce_of p" "operation_of (snd (update_intent k c f p)) = operation_of p"
    using assms(2,3) by (auto simp: fun_eq_iff nonce_of_def operation_of_def update_intent_row option.map_comp comp_def
        intro: option.map_cong0)
qed (simp add: fun_eq_iff nonce_holder_def)

lemma intent_rows_map [simp]: "intent_row (p\<lparr>ps_intents := map (\<lambda>(k, r). (k, f r)) (ps_intents p)\<rparr>) k = map_option f (intent_row p k)"
  by (simp add: intent_row_def js_get_def map_of_map)

lemma update_rows_wf:
  assumes "nonces_wf direct p" "\<And>r. pr_nonce (f r) = pr_nonce r" "\<And>r. pr_operationId (f r) = pr_operationId r"
  shows "nonces_wf direct (p\<lparr>ps_intents := map (\<lambda>(k, r). (k, f r)) (ps_intents p)\<rparr>)"
proof (rule nonces_wf_same [OF assms(1)])
  have "fst \<circ> (\<lambda>(k :: string, r). (k, f r)) = fst" by (simp add: fun_eq_iff)
  then show "js_wf (ps_intents (p\<lparr>ps_intents := map (\<lambda>(k, r). (k, f r)) (ps_intents p)\<rparr>))"
    using assms(1) by (simp add: nonces_wf_def js_wf_def)
  show "nonce_of (p\<lparr>ps_intents := map (\<lambda>(k, r). (k, f r)) (ps_intents p)\<rparr>) = nonce_of p"
    "operation_of (p\<lparr>ps_intents := map (\<lambda>(k, r). (k, f r)) (ps_intents p)\<rparr>) = operation_of p"
    using assms(2,3) by (simp_all add: fun_eq_iff nonce_of_def operation_of_def option.map_comp comp_def)
qed (simp add: fun_eq_iff nonce_holder_def)

lemma create_wf:
  assumes "nonces_wf direct p" "pg_createIntentWithNonce numeric names i payer t p = (Inr u, p')"
  shows "nonces_wf direct p'"
proof -
  obtain v where v: "intent_conflict (intent_values i v t) p = None"
    "ps_intents p' = js_set (pi_paymentIntentId i) (intent_values i v t) (ps_intents p)"
    and n: "pi_nonce i = [] \<and> ps_nonces p' = ps_nonces p \<or>
     pi_nonce i \<noteq> [] \<and> js_get (ps_nonces p) (pi_nonce i) = None \<and> ps_nonces p' = js_set (pi_nonce i)
       \<lparr>nr_operationId = pi_operationId i, nr_status = N_RESERVED, nr_payer = payer, nr_createdAt = t, nr_updatedAt = t\<rparr> (ps_nonces p)"
    using create_ok [OF assms(2)] by metis
  have wf: "js_wf (ps_intents p)" using assms(1) by (simp add: nonces_wf_def)
  have row: "intent_row p' k = (if k = pi_paymentIntentId i then Some (intent_values i v t) else intent_row p k)" for k
    by (simp add: intent_row_def v(2))
  have fresh: "operation_of p k \<noteq> Some (pi_operationId i)" for k
  proof
    assume "operation_of p k = Some (pi_operationId i)"
    then obtain r where "js_get (ps_intents p) k = Some r" "pr_operationId r = pi_operationId i"
      by (auto simp: operation_of_def intent_row_def)
    with v(1) js_values_mem [OF wf] show False by (auto simp: conflict_none intent_values_def)
  qed
  have holder: "nonce_holder p' m = (if m = pi_nonce i \<and> m \<noteq> [] then Some (pi_operationId i) else nonce_holder p m)" for m
    using n by (auto simp: nonce_holder_def)
  have unused: "nonce_of p k \<noteq> Some (pi_nonce i)" if "pi_nonce i \<noteq> []" "\<not> direct" for k
    using held_nonce [of p k "pi_nonce i"] assms(1) n that by auto
  show ?thesis
    unfolding nonces_wf_def
  proof (intro conjI allI impI)
    show "js_wf (ps_intents p')" using wf v(2) by simp
  next
    fix k k' opId
    assume "operation_of p' k = Some opId" "operation_of p' k' = Some opId"
    with fresh assms(1) show "k = k'"
      by (auto simp: operation_of_def row intent_values_def nonces_wf_def split: if_splits)
  next
    fix k m
    assume d: "\<not> direct" and m: "nonce_of p' k = Some m" "m \<noteq> []"
    show "nonce_holder p' m = operation_of p' k"
    proof (cases "k = pi_paymentIntentId i")
      case True
      with m show ?thesis by (simp add: nonce_of_def operation_of_def row holder intent_values_def)
    next
      case False
      with m have "nonce_of p k = Some m" by (simp add: nonce_of_def row)
      with unused m(2) assms(1) False d show ?thesis
        by (auto simp: holder operation_of_def row nonces_wf_def)
    qed
  qed
qed

lemma create_direct_wf:
  assumes "nonces_wf True p" "pg_createPaymentIntent numeric names i t p = (r, p')"
  shows "nonces_wf True p'"
proof -
  have "p' = p \<or> insert_intent numeric names i t p = Inr p'"
    using assms(2) by (cases "insert_intent numeric names i t p") (simp_all add: pg_createPaymentIntent_def)
  then show ?thesis
  proof
    assume "insert_intent numeric names i t p = Inr p'"
    then obtain v where 2: "intent_conflict (intent_values i v t) p = None" "p' = put_row (pi_paymentIntentId i) (intent_values i v t) p"
      unfolding insert_intent_ok by blast
    have wf: "js_wf (ps_intents p)" using assms(1) by (simp add: nonces_wf_def)
    have fresh: "operation_of p k \<noteq> Some (pi_operationId i)" for k
      using 2(1) js_values_mem [OF wf] by (auto simp: operation_of_def intent_row_def conflict_none intent_values_def)
    have "operation_of p' k = (if k = pi_paymentIntentId i then Some (pi_operationId i) else operation_of p k)" for k
      by (simp add: operation_of_def 2(2) intent_values_def)
    with assms(1) fresh 2(2) show ?thesis
      by (auto simp: nonces_wf_def put_row_def)
  qed (use assms in simp)
qed

lemma pg_intent_step_wf: "pg_intent_step direct p p' \<Longrightarrow> nonces_wf direct p \<Longrightarrow> nonces_wf direct p'"
proof (induction rule: pg_intent_step.induct)
  case (pis_create numeric names i payer t p r p')
  then show ?case by (cases r) (auto dest: create_wf create_err)
next
  case (pis_direct numeric names i t p r p')
  then show ?case using create_direct_wf [of p] by simp
next
  case (pis_row f p k c)
  then show ?case by (auto intro: update_intent_wf)
next
  case (pis_rows f p)
  then show ?case by (intro update_rows_wf)
next
  case (pis_observe p os)
  then show ?case by (auto simp: nonces_wf_def nonce_of_def operation_of_def intent_row_def nonce_holder_def)
next
  case (pis_reserve names n opId payer t p r p')
  have rows: "nonce_of p' = nonce_of p" "operation_of p' = operation_of p" "ps_intents p' = ps_intents p"
    using pis_reserve(1)
    by (auto simp: fun_eq_iff nonce_of_def operation_of_def intent_row_def pg_reserveNonce_def insert_nonce_def split: if_splits)
  have "nonce_holder p' m = nonce_holder p m" if "\<not> direct" "nonce_of p k = Some m" "m \<noteq> []" for k m
    using held_nonce [of p k m] that pis_reserve
    by (auto simp: nonce_holder_def pg_reserveNonce_def insert_nonce_def js_has_def split: if_splits)
  with pis_reserve(2) show ?case by (simp add: nonces_wf_def rows)
next
  case (pis_mark p status n t)
  show ?case
    by (rule nonces_wf_same [OF pis_mark])
       (use pis_mark in \<open>auto simp: pg_mark_nonce_def nonces_wf_def fun_eq_iff nonce_of_def operation_of_def intent_row_def
          nonce_holder_def split: option.splits\<close>)
next
  case (pis_exec p x)
  then show ?case by (auto simp: nonces_wf_def nonce_of_def operation_of_def intent_row_def nonce_holder_def)
next
  case (pis_cas k e n x t p b p')
  then have "p' = p \<or> p' = snd (update_intent k (\<lambda>r. pr_settlementState r = e) (pg_set_state n x t) p)"
    by (auto simp: pg_compareAndSetState_def split: if_splits)
  with pis_cas(2) show ?case by (auto intro!: update_intent_wf simp: pg_set_state_def)
next
  case (pis_authorize k payload h e t p r p')
  then have "p' = snd (update_intent k (\<lambda>r. pr_settlementState r = e)
      (\<lambda>r. r\<lparr>pr_paymentPayload := payload, pr_paymentPayloadHash := h, pr_settlementState := St_AUTHORIZED,
             pr_version := Suc (pr_version r), pr_updatedAt := t\<rparr>) p)"
    by (auto simp: pg_authorizePaymentIntent_def split: prod.splits bool.splits option.splits if_splits)
  with pis_authorize(2) show ?case by (auto intro: update_intent_wf)
qed (auto simp: pg_updatePaymentIntentAuthorization_def pg_updatePaymentIntentStatus_def pg_saveSettledEvidenceBundle_def
    pg_saveNotSettledEvidenceBundle_def pg_updatePaymentIntentProbeCount_def intro!: update_intent_wf)

lemma pg_intent_steps_wf: "(pg_intent_step direct)\<^sup>*\<^sup>* p p' \<Longrightarrow> nonces_wf direct p \<Longrightarrow> nonces_wf direct p'"
  by (induction rule: rtranclp_induct) (auto intro: pg_intent_step_wf)

text \<open>A row of the nonce registry keeps its operation whatever is executed afterwards.\<close>

lemma nonce_holder_step: "pg_intent_step direct p p' \<Longrightarrow> nonce_holder p n = Some opId \<Longrightarrow> nonce_holder p' n = Some opId"
proof (induction rule: pg_intent_step.induct)
  case (pis_create numeric names i payer t p r p')
  then show ?case by (cases r) (auto dest: create_err elim!: create_ok simp: nonce_holder_def)
next
  case (pis_authorize k payload h e t p r p')
  then show ?case
    by (auto simp: pg_authorizePaymentIntent_def update_intent_def nonce_holder_def split: option.splits if_splits)
qed (auto simp: nonce_holder_def pg_createPaymentIntent_def insert_intent_def pg_reserveNonce_def insert_nonce_def js_has_def
    pg_mark_nonce_def pg_compareAndSetState_def update_intent_def pg_updatePaymentIntentAuthorization_def
    pg_updatePaymentIntentStatus_def pg_saveSettledEvidenceBundle_def pg_saveNotSettledEvidenceBundle_def
    pg_updatePaymentIntentProbeCount_def split: sum.splits option.splits if_splits)

lemma nonce_holder_steps: "(pg_intent_step direct)\<^sup>*\<^sup>* p p' \<Longrightarrow> nonce_holder p n = Some opId \<Longrightarrow> nonce_holder p' n = Some opId"
  by (induction rule: rtranclp_induct) (auto intro: nonce_holder_step)

lemma create_holder:
  assumes "pg_createIntentWithNonce numeric names i payer t p = (Inr u, p')" "pi_nonce i \<noteq> []"
  shows "nonce_holder p' (pi_nonce i) = Some (pi_operationId i)"
  using create_ok [OF assms(1)] assms(2) by (metis (no_types, lifting) NonceRecord.select_convs(1) js_get_set nonce_holder_def option.simps(9))

lemma held_nonce_refused:
  assumes "nonce_holder p (pi_nonce i) = Some opId" "pi_nonce i \<noteq> []"
  shows "fst (pg_createIntentWithNonce numeric names i payer t p) \<noteq> Inr u"
proof
  assume "fst (pg_createIntentWithNonce numeric names i payer t p) = Inr u"
  then obtain p' where "pg_createIntentWithNonce numeric names i payer t p = (Inr u, p')" by (metis prod.collapse)
  from create_ok [OF this] have "pi_nonce i = [] \<or> js_get (ps_nonces p) (pi_nonce i) = None" by metis
  with assms show False by (simp add: nonce_holder_def)
qed

section \<open>Properties\<close>


definition six_decimals :: numeric_column where "six_decimals v = Inr (v @ ''.000000'')"

definition db_intent :: "string \<Rightarrow> string \<Rightarrow> DurablePaymentIntent" where
  "db_intent k opId = sample_intent k opId St_PENDING_SIGNATURE"

lemma db_intent_simps [simp]:
  "pi_paymentIntentId (db_intent k opId) = k" "pi_operationId (db_intent k opId) = opId" "pi_nonce (db_intent k opId) = ''0x01''"
  "pi_value (db_intent k opId) = ''500''"
  by (simp_all add: db_intent_def sample_intent_def)

definition db_store :: pg_store where
  "db_store = snd (pg_createIntentWithNonce six_decimals True (db_intent ''pi1'' ''op1'') ''0xPayer'' 1 empty_pg_store)"

lemma db_store_created:
  "pg_createIntentWithNonce six_decimals True (db_intent ''pi1'' ''op1'') ''0xPayer'' 1 empty_pg_store = (Inr (), db_store)"
proof -
  have "fst (pg_createIntentWithNonce six_decimals True (db_intent ''pi1'' ''op1'') ''0xPayer'' 1 empty_pg_store) = Inr ()" by code_simp
  then show ?thesis unfolding db_store_def by (metis prod.collapse)
qed

lemma db_store_row: "intent_row db_store ''pi1'' = Some (intent_values (db_intent ''pi1'' ''op1'') ''500.000000'' 1)"
proof -
  obtain v where "six_decimals (pi_value (db_intent ''pi1'' ''op1'')) = Inr v"
    "ps_intents db_store = js_set (pi_paymentIntentId (db_intent ''pi1'' ''op1'')) (intent_values (db_intent ''pi1'' ''op1'') v 1)
       (ps_intents empty_pg_store)"
    using create_ok [OF db_store_created] by metis
  then show ?thesis by (simp add: intent_row_def six_decimals_def)
qed


text \<open>Direct insertions share nonces: two intents with one nonce, and no row of the registry.\<close>

lemma direct_intents_share_nonce:
  "\<exists>p. (pg_intent_step True)\<^sup>*\<^sup>* empty_pg_store p \<and> nonce_of p ''pi1'' = Some ''0x01'' \<and> nonce_of p ''pi2'' = Some ''0x01'' \<and>
     nonce_holder p ''0x01'' = None"
proof -
  define p1 where "p1 = snd (pg_createPaymentIntent six_decimals True (db_intent ''pi1'' ''op1'') 1 empty_pg_store)"
  define p2 where "p2 = snd (pg_createPaymentIntent six_decimals True (db_intent ''pi2'' ''op2'') 2 p1)"
  have "pg_intent_step True empty_pg_store p1" "pg_intent_step True p1 p2"
    unfolding p1_def p2_def by (rule pis_direct [OF _ prod.collapse [symmetric]], simp)+
  moreover have "nonce_of p2 ''pi1'' = Some ''0x01'' \<and> nonce_of p2 ''pi2'' = Some ''0x01'' \<and> nonce_holder p2 ''0x01'' = None"
    unfolding p2_def p1_def by code_simp
  ultimately show ?thesis by (meson converse_rtranclp_into_rtranclp r_into_rtranclp)
qed



text \<open>
  Over the database, too, the first binding of a signed payload is permanent: after one
  authorization has won, every later one from the awaited signature loses, and the intent keeps the payload.
\<close>

theorem pg_first_binding_is_permanent:
  assumes "pg_authorizePaymentIntent k payload h St_PENDING_SIGNATURE t p = (Inr True, p')"
  shows "\<exists>i. pg_intent (snd (authorize_all pg_authorizePaymentIntent k St_PENDING_SIGNATURE calls p')) k = Some (bind_payload payload h t i) \<and>
    Inr True \<notin> set (fst (authorize_all pg_authorizePaymentIntent k St_PENDING_SIGNATURE calls p'))"
  by (rule pg_bind.first_binding_wins [OF assms]) simp

theorem pg_first_binding_is_permanent_witness:
  "fst (authorize_all pg_authorizePaymentIntent ''pi1'' St_PENDING_SIGNATURE [(''x'', ''hx'', 3), (''y'', ''hy'', 4)]
     (snd (pg_authorizePaymentIntent ''pi1'' ''x'' ''hx'' St_PENDING_SIGNATURE 2 db_store))) =
   [Inr False, Inl ''PAYMENT_INTENT_AUTHORIZATION_CONFLICT: intent is AUTHORIZED with a different payload''] \<and>
   Inr True \<notin> set (fst (authorize_all pg_authorizePaymentIntent ''pi1'' St_PENDING_SIGNATURE [(''x'', ''hx'', 3), (''y'', ''hy'', 4)]
     (snd (pg_authorizePaymentIntent ''pi1'' ''x'' ''hx'' St_PENDING_SIGNATURE 2 db_store))))"
proof -
  have "fst (pg_authorizePaymentIntent ''pi1'' ''x'' ''hx'' St_PENDING_SIGNATURE 2 db_store) = Inr True" by code_simp
  then have "pg_authorizePaymentIntent ''pi1'' ''x'' ''hx'' St_PENDING_SIGNATURE 2 db_store =
    (Inr True, snd (pg_authorizePaymentIntent ''pi1'' ''x'' ''hx'' St_PENDING_SIGNATURE 2 db_store))" by (metis prod.collapse)
  note perm = pg_first_binding_is_permanent [OF this, of "[(''x'', ''hx'', 3), (''y'', ''hy'', 4)]"]
  have "fst (authorize_all pg_authorizePaymentIntent ''pi1'' St_PENDING_SIGNATURE [(''x'', ''hx'', 3), (''y'', ''hy'', 4)]
     (snd (pg_authorizePaymentIntent ''pi1'' ''x'' ''hx'' St_PENDING_SIGNATURE 2 db_store))) =
   [Inr False, Inl ''PAYMENT_INTENT_AUTHORIZATION_CONFLICT: intent is AUTHORIZED with a different payload'']" by code_simp
  with perm show ?thesis by blast
qed

end
