(* ===== verification/PgOperations.thy ===== *)
theory PgOperations
  imports PgIntents Outbox StageB "HOL-Library.Multiset"
begin

text \<open>
  The operations and the evidence of \<^verbatim>\<open>lib/db/src/secretariat/postgres-store.ts\<close>. There is no table of operations: what
  \<open>saveOperation\<close> can keep goes into the row of the payment intent, the rest is rebuilt by \<open>getOperation\<close>
  from that row, the evidence in it and the attempts. \<open>sha\<close> is SHA-256 in hexadecimal.
\<close>

section \<open>Evidence as JSON\<close>

fun phase_name :: "EvidencePhase \<Rightarrow> string" where
  "phase_name DISCOVERY = ''DISCOVERY''"
| "phase_name POLICY = ''POLICY''"
| "phase_name PAYMENT = ''PAYMENT''"
| "phase_name SETTLEMENT = ''SETTLEMENT''"
| "phase_name EXECUTION = ''EXECUTION''"
| "phase_name DELIVERY = ''DELIVERY''"
| "phase_name RECOVERY = ''RECOVERY''"
| "phase_name FINAL = ''FINAL''"

definition record_json :: "EvidenceRecord \<Rightarrow> json" where
  "record_json r = JObj ([(''operationId'', JStr (ev_operationId r)), (''phase'', JStr (phase_name (ev_phase r))),
     (''timestamp'', JNum (ev_timestamp r)), (''event'', JStr (ev_event r)), (''payload'', ev_payload r)] @
     (case ev_sequence r of None \<Rightarrow> [] | Some n \<Rightarrow> [(''sequence'', JNum (int n))]))"

fun canonicalEvidenceJson :: "json \<Rightarrow> string" where
  "canonicalEvidenceJson (JArr vs) = ''['' @ join_with '','' (map canonicalEvidenceJson vs) @ '']''"
| "canonicalEvidenceJson (JObj kvs) = ''{'' @ join_with '',''
     (map (\<lambda>(k, f). quote_string k @ '':'' @ f)
        (sort_key fst (map (\<lambda>(k, v). (k, canonicalEvidenceJson v)) (filter (\<lambda>(k, v). v \<noteq> JUndefined) kvs)))) @ ''}''"
| "canonicalEvidenceJson v = (if nullish v then ''null'' else JSON_stringify v)"

text \<open>
  What becomes of a value that \<open>JSON.stringify\<close> writes, the cast to jsonb stores and the driver reads back: fields that
  are undefined are gone, undefined elements are null, and the fields of an object are in the order in which jsonb keeps
  them, by length of the name and then by name.
\<close>

fun jsonb :: "json \<Rightarrow> json" where
  "jsonb (JArr vs) = JArr (map (\<lambda>v. if v = JUndefined then JNull else jsonb v) vs)"
| "jsonb (JObj kvs) = JObj (sort_key (\<lambda>(k, v). (size k, k))
     (map (\<lambda>(k, v). (k, jsonb v)) (filter (\<lambda>(k, v). v \<noteq> JUndefined) kvs)))"
| "jsonb v = v"

text \<open>A record as it is read back: of its fields only the payload holds values of any shape.\<close>

definition stored_record :: "EvidenceRecord \<Rightarrow> EvidenceRecord" where
  "stored_record r = r\<lparr>ev_payload := jsonb (ev_payload r)\<rparr>"

text \<open>The two tests of \<open>saveOperation\<close>: equal canonical texts, and equal values of type jsonb.\<close>

definition same_record :: "EvidenceRecord \<Rightarrow> EvidenceRecord \<Rightarrow> bool" where
  "same_record r s = (canonicalEvidenceJson (record_json r) = canonicalEvidenceJson (record_json s))"

definition same_jsonb :: "EvidenceRecord \<Rightarrow> EvidenceRecord \<Rightarrow> bool" where
  "same_jsonb r s = (jsonb (record_json r) = jsonb (record_json s))"

section \<open>Appending evidence\<close>

definition evidenceIdentity :: "(string \<Rightarrow> string) \<Rightarrow> EvidenceRecord \<Rightarrow> string" where
  "evidenceIdentity sha r =
     (let payloadHash = take 16 (sha (if nullish (ev_payload r) then ''null'' else JSON_stringify (ev_payload r)));
          seqPart = (case ev_sequence r of Some n \<Rightarrow> CHR ''s'' # string_of_nat n | None \<Rightarrow> CHR ''x'' # take 8 payloadHash)
      in join_with ''|'' [''evlog'', ev_operationId r, seqPart, phase_name (ev_phase r), ev_event r,
           string_of_int (ev_timestamp r), payloadHash])"

text \<open>
  The operator \<open>@>\<close> of an array: it contains the elements of another array and, as the one exception to
  equal structure, a scalar; it never contains an object.
\<close>

definition array_contains :: "json list \<Rightarrow> json \<Rightarrow> bool" where
  "array_contains xs v = (case v of JObj kvs \<Rightarrow> False | JArr ys \<Rightarrow> set ys \<subseteq> set xs | _ \<Rightarrow> v \<in> set xs)"

definition log_row :: "EvidenceRecord \<Rightarrow> ObservationRow" where
  "log_row r = \<lparr>ob_paymentIntentId = None, ob_attemptId = ev_operationId r, ob_rpcProviderId = ''evidence-log'',
     ob_observedAt = ev_timestamp r, ob_blockNumber = Some 0, ob_authorizationState = None, ob_validBefore = 0,
     ob_result = ev_event r, ob_error = None\<rparr>"

definition update_intents :: "(PaymentIntentRow \<Rightarrow> bool) \<Rightarrow> (PaymentIntentRow \<Rightarrow> PaymentIntentRow) \<Rightarrow> pg_store \<Rightarrow> pg_store" where
  "update_intents c f p = p\<lparr>ps_intents := map (\<lambda>(k, r). (k, if c r then f r else r)) (ps_intents p)\<rparr>"

definition evidence_of_row :: "PaymentIntentRow \<Rightarrow> EvidenceRecord list" where
  "evidence_of_row r = opt_default [] (pr_evidence r)"

definition pg_append :: "(string \<Rightarrow> string) \<Rightarrow> EvidenceRecord \<Rightarrow> int \<Rightarrow> pg_store \<Rightarrow> pg_store" where
  "pg_append sha r t p =
     (let p1 = (if js_has (ps_observations p) (evidenceIdentity sha r) then p
                else p\<lparr>ps_observations := js_set (evidenceIdentity sha r) (log_row r) (ps_observations p)\<rparr>)
      in update_intents (\<lambda>i. pr_operationId i = ev_operationId r \<and>
             \<not> array_contains (map record_json (evidence_of_row i)) (record_json r))
           (\<lambda>i. i\<lparr>pr_evidence := Some (evidence_of_row i @ [stored_record r]), pr_updatedAt := t\<rparr>) p1)"

section \<open>Reading evidence\<close>

definition legacyKey :: "EvidenceRecord \<Rightarrow> string" where
  "legacyKey r = phase_name (ev_phase r) @ ''|'' @ ev_event r @ ''|'' @ string_of_int (ev_timestamp r)"

text \<open>What a row of the log alone can tell.\<close>

definition stub :: "string \<Rightarrow> ObservationRow \<Rightarrow> EvidenceRecord" where
  "stub opId row = \<lparr>ev_operationId = opId, ev_phase = DISCOVERY, ev_timestamp = ob_observedAt row, ev_event = ob_result row,
     ev_payload = JNull, ev_sequence = None\<rparr>"

definition put_new :: "string \<Rightarrow> EvidenceRecord \<Rightarrow> (string, EvidenceRecord) jsmap \<Rightarrow> (string, EvidenceRecord) jsmap" where
  "put_new key r m = (if js_has m key then m else js_set key r m)"

definition log_rows :: "pg_store \<Rightarrow> string \<Rightarrow> ObservationRow list" where
  "log_rows p opId = filter (\<lambda>o1. ob_attemptId o1 = opId \<and> ob_rpcProviderId o1 = ''evidence-log'') (js_values (ps_observations p))"

definition stored_evidence :: "pg_store \<Rightarrow> string \<Rightarrow> EvidenceRecord list" where
  "stored_evidence p opId = (case pg_getPaymentIntentByOperationId p opId of None \<Rightarrow> [] | Some i \<Rightarrow> opt_default [] (si_evidence i))"

text \<open>Sequenced records first and by number, the others by time.\<close>

definition merge_key :: "EvidenceRecord \<Rightarrow> nat \<times> int \<times> int" where
  "merge_key r = (case ev_sequence r of Some n \<Rightarrow> (0, int n, ev_timestamp r) | None \<Rightarrow> (1, ev_timestamp r, 0))"

definition pg_getEvidence :: "(string \<Rightarrow> string) \<Rightarrow> pg_store \<Rightarrow> string \<Rightarrow> EvidenceRecord list" where
  "pg_getEvidence sha p opId =
     (let rich = stored_evidence p opId;
          m1 = foldl (\<lambda>m r. put_new (evidenceIdentity sha r) r m) [] rich;
          m2 = foldl (\<lambda>m row. let s = stub opId row in
                 if legacyKey s \<in> set (map legacyKey rich) then m else put_new (''stub|'' @ legacyKey s) s m) m1 (log_rows p opId)
      in sort_key merge_key (js_values m2))"

fun recon_result_name :: "ReconResult \<Rightarrow> string" where
  "recon_result_name STILL_UNKNOWN = ''STILL_UNKNOWN''"
| "recon_result_name SETTLED_FOUND = ''SETTLED_FOUND''"
| "recon_result_name NOT_SETTLED_CONFIRMED = ''NOT_SETTLED_CONFIRMED''"
| "recon_result_name RPC_ERROR = ''RPC_ERROR''"
| "recon_result_name STALE_HEAD = ''STALE_HEAD''"

text \<open>An observation of a provider: a plain insert, so a second one under the same id throws.\<close>

definition pg_appendReconciliationObservation :: "bool \<Rightarrow> ReconciliationObservation \<Rightarrow> pg_store \<Rightarrow> (db_error + unit) \<times> pg_store" where
  "pg_appendReconciliationObservation names o1 p =
     (let key = rob_attemptId o1 @ ''-'' @ rob_rpcProviderId o1 in
      if js_has (ps_observations p) key then (Inl (violates names ''reconciliation_observations_pkey''), p)
      else (Inr (), p\<lparr>ps_observations := js_set key
        \<lparr>ob_paymentIntentId = Some (rob_paymentIntentId o1), ob_attemptId = rob_attemptId o1, ob_rpcProviderId = rob_rpcProviderId o1,
         ob_observedAt = rob_timestamp o1, ob_blockNumber = rob_headBlock o1, ob_authorizationState = rob_authorizationState o1,
         ob_validBefore = rob_validBefore o1, ob_result = recon_result_name (rob_result o1), ob_error = rob_error o1\<rparr> (ps_observations p)\<rparr>))"

section \<open>The states of an operation, rebuilt\<close>

fun mapSettlementToPaymentState :: "SettlementState \<Rightarrow> PaymentStatus" where
  "mapSettlementToPaymentState St_AUTHORIZED = Pay_AUTHORIZED"
| "mapSettlementToPaymentState St_SUBMITTING = Pay_SUBMITTED"
| "mapSettlementToPaymentState St_SUBMITTED = Pay_SUBMITTED"
| "mapSettlementToPaymentState St_RECONCILING = Pay_SUBMITTED"
| "mapSettlementToPaymentState St_SETTLEMENT_PENDING = Pay_SUBMITTED"
| "mapSettlementToPaymentState St_SETTLED = Pay_SETTLED"
| "mapSettlementToPaymentState St_NOT_SETTLED = Pay_FAILED"
| "mapSettlementToPaymentState St_UNRESOLVED_MANUAL = Pay_FAILED"
| "mapSettlementToPaymentState St_PENDING_SIGNATURE = Pay_NOT_STARTED"

fun mapAttemptStatusToExecutionState :: "ExecutionObligationStatus option \<Rightarrow> ExecutionStatus" where
  "mapAttemptStatusToExecutionState (Some Ob_PENDING) = Ex_PENDING"
| "mapAttemptStatusToExecutionState (Some Ob_ATTEMPTED) = Ex_PENDING"
| "mapAttemptStatusToExecutionState (Some Ob_SUCCESS) = Ex_CONFIRMED"
| "mapAttemptStatusToExecutionState (Some Ob_HTTP_FAILURE) = Ex_FAILED"
| "mapAttemptStatusToExecutionState (Some Ob_DELIVERY_UNKNOWN) = Ex_UNKNOWN"
| "mapAttemptStatusToExecutionState (Some Ob_UNRESOLVABLE) = Ex_CONFIRMED"
| "mapAttemptStatusToExecutionState None = Ex_NOT_STARTED"

text \<open>The last transition with the greatest time stamp.\<close>

definition findLatestStateTransitionRecord :: "EvidenceRecord list \<Rightarrow> EvidenceRecord option" where
  "findLatestStateTransitionRecord evidence = foldl
     (\<lambda>last e. if ev_event e \<noteq> ''STATE_TRANSITION'' then last
               else (case last of None \<Rightarrow> Some e | Some l \<Rightarrow> if ev_timestamp l \<le> ev_timestamp e then Some e else last)) None evidence"

definition transition_target :: "EvidenceRecord list \<Rightarrow> json" where
  "transition_target evidence = (case findLatestStateTransitionRecord evidence of None \<Rightarrow> JUndefined
     | Some r \<Rightarrow> json_field (ev_payload r) ''to'')"

definition deriveDeliveryState :: "EvidenceRecord list \<Rightarrow> DeliveryStatus" where
  "deriveDeliveryState evidence =
     (let to = transition_target evidence in
      if to = JStr ''SUCCESS'' \<or> to = JStr ''DELIVERED'' then Del_DELIVERED
      else if to = JStr ''FAILED'' then Del_FAILED
      else if to = JStr ''EXECUTION_UNKNOWN'' \<or> to = JStr ''UNRESOLVABLE'' then Del_UNKNOWN
      else if to = JStr ''EXECUTION_PENDING'' \<or> to = JStr ''EXECUTION_CONFIRMED'' then Del_PENDING
      else Del_NOT_STARTED)"

text \<open>The state of the last transition, moved on by an attempt that is further; without one, the settlement state's word.\<close>

definition fast_forward :: "string \<Rightarrow> ExecutionObligationStatus option \<Rightarrow> string" where
  "fast_forward cur att =
     (if cur = ''EXECUTION_PENDING''
      then (if att = Some Ob_SUCCESS then ''EXECUTION_CONFIRMED'' else if att = Some Ob_HTTP_FAILURE then ''FAILED''
            else if att = Some Ob_DELIVERY_UNKNOWN then ''EXECUTION_UNKNOWN''
            else if att = Some Ob_UNRESOLVABLE then ''UNRESOLVABLE'' else cur)
      else if cur = ''EXECUTION_CONFIRMED''
      then (if att = Some Ob_HTTP_FAILURE then ''FAILED'' else if att = Some Ob_DELIVERY_UNKNOWN then ''EXECUTION_UNKNOWN''
            else if att = Some Ob_UNRESOLVABLE then ''UNRESOLVABLE'' else cur)
      else if cur = ''EXECUTION_UNKNOWN'' then (if att = Some Ob_UNRESOLVABLE then ''UNRESOLVABLE'' else cur)
      else cur)"

definition deriveCurrentState :: "EvidenceRecord list \<Rightarrow> SettlementState \<Rightarrow> ExecutionObligationStatus option \<Rightarrow> string" where
  "deriveCurrentState evidence settlementState att =
     fast_forward
       (let recorded = (case transition_target evidence of JStr w \<Rightarrow> w | _ \<Rightarrow> []) in
        if recorded \<noteq> [] then recorded
        else if settlementState = St_PENDING_SIGNATURE then ''AWAITING_SIGNATURE'' else st_name settlementState) att"

section \<open>Reading an operation\<close>

definition latest_attempt :: "pg_store \<Rightarrow> string \<Rightarrow> AttemptRow option" where
  "latest_attempt p opId = (case rev (operation_rows (ps_exec p) opId) of [] \<Rightarrow> None | r # _ \<Rightarrow> Some r)"

text \<open>The object literal \<open>getOperation\<close> builds: the words of its state, and no field it cannot fill.\<close>

record RestoredOperation =
  rs_operationId :: string
  rs_requestId :: string
  rs_clientId :: "string option"
  rs_target :: string
  rs_method :: string
  rs_paymentPolicy :: "PaymentPolicy option"
  rs_paymentState :: PaymentStatus
  rs_executionState :: ExecutionStatus
  rs_deliveryState :: DeliveryStatus
  rs_currentState :: string
  rs_createdAt :: int
  rs_updatedAt :: int
  rs_evidence :: "EvidenceRecord list"
  rs_resultData :: json
  rs_settlementProof :: "SettlementProof option"
  rs_executionEvidence :: "ExecutionEvidence option"
  rs_error :: "string option"

definition restored_result :: "PaymentIntentRow \<Rightarrow> AttemptRow option \<Rightarrow> json" where
  "restored_result r att =
     (let saved = (case pr_extraFields r of None \<Rightarrow> JUndefined | Some kvs \<Rightarrow> json_field (JObj kvs) ''resultData'')
      in if saved \<noteq> JUndefined then saved
         else (case att of None \<Rightarrow> JUndefined
               | Some a \<Rightarrow> if ar_status a = Ob_SUCCESS then opt_default JUndefined (Option.bind (ar_responseBody a) sql_json) else JUndefined))"

definition restored_proof :: "PaymentIntentRow \<Rightarrow> int \<Rightarrow> SettlementProof option" where
  "restored_proof r t =
     (case pr_settledEvidenceBundle r of
        None \<Rightarrow> None
      | Some b \<Rightarrow>
          (let used = json_field b ''authorizationUsed''; value = json_field (json_field b ''transfer'') ''value'' in
           case json_field used ''transactionHash'' of
             JStr h \<Rightarrow> if h = [] then None else Some
               \<lparr>sp_transactionHash = Some h,
                sp_blockNumber = (case json_field used ''blockNumber'' of JNum n \<Rightarrow> Some n | _ \<Rightarrow> None),
                sp_timestamp = opt_default t (pr_settledAt r), sp_amount = (if nullish value then [] else js_String value),
                sp_asset = pr_asset r, sp_source = ''ReconciliationEngine'', sp_rawData = b\<rparr>
           | _ \<Rightarrow> None))"

definition restored_execution :: "AttemptRow option \<Rightarrow> int \<Rightarrow> ExecutionEvidence option" where
  "restored_execution att t =
     (case att of None \<Rightarrow> None
      | Some a \<Rightarrow>
          (case (ar_status a, ar_responseStatusCode a) of
             (Ob_SUCCESS, Some code) \<Rightarrow> Some
               \<lparr>ee_statusCode = code, ee_headers = ar_responseHeaders a,
                ee_body = opt_default JUndefined (Option.bind (ar_responseBody a) sql_json),
                ee_timestamp = opt_default t (ar_completedAt a), ee_source = HTTP_RESPONSE, ee_rawData = JUndefined\<rparr>
           | _ \<Rightarrow> None))"

definition operation_row :: "pg_store \<Rightarrow> string \<Rightarrow> PaymentIntentRow option" where
  "operation_row p opId = find (\<lambda>r. pr_operationId r = opId) (js_values (ps_intents p))"

definition pg_getOperation :: "int \<Rightarrow> pg_store \<Rightarrow> string \<Rightarrow> RestoredOperation option" where
  "pg_getOperation t p opId = map_option (\<lambda>r.
     let att = latest_attempt p opId; status = map_option ar_status att; evidence = evidence_of_row r in
     \<lparr>rs_operationId = opId, rs_requestId = opt_default [] (pr_requestId r), rs_clientId = pr_clientId r,
      rs_target = opt_default [] (pr_target r), rs_method = opt_default [] (pr_method r), rs_paymentPolicy = pr_paymentPolicy r,
      rs_paymentState = mapSettlementToPaymentState (pr_settlementState r),
      rs_executionState = mapAttemptStatusToExecutionState status,
      rs_deliveryState = deriveDeliveryState evidence,
      rs_currentState = deriveCurrentState evidence (pr_settlementState r) status,
      rs_createdAt = pr_createdAt r, rs_updatedAt = pr_updatedAt r, rs_evidence = evidence,
      rs_resultData = restored_result r att, rs_settlementProof = restored_proof r t,
      rs_executionEvidence = restored_execution att t,
      rs_error = (if pr_errorReason r = Some [] then None else pr_errorReason r)\<rparr>) (operation_row p opId)"

text \<open>Lookups by the request find the row and rebuild its operation.\<close>

definition pg_getOperationByRequestId :: "int \<Rightarrow> pg_store \<Rightarrow> string \<Rightarrow> string option \<Rightarrow> RestoredOperation option" where
  "pg_getOperationByRequestId t p requestId clientId =
     Option.bind (find (\<lambda>r. pr_requestId r = Some requestId \<and>
        (clientId = None \<or> clientId = Some [] \<or> pr_clientId r = clientId)) (js_values (ps_intents p)))
       (\<lambda>r. pg_getOperation t p (pr_operationId r))"

definition pg_getOperationByClientAndRequestId :: "int \<Rightarrow> pg_store \<Rightarrow> string \<Rightarrow> string \<Rightarrow> RestoredOperation option" where
  "pg_getOperationByClientAndRequestId t p clientId requestId =
     Option.bind (find (\<lambda>r. pr_clientId r = Some clientId \<and> pr_requestId r = Some requestId) (js_values (ps_intents p)))
       (\<lambda>r. pg_getOperation t p (pr_operationId r))"

text \<open>What the cast to an operation amounts to, when the words are states of an operation.\<close>

definition status_of_word :: "string \<Rightarrow> OperationStatus option" where
  "status_of_word w = find (\<lambda>s. op_name s = w)
     [Op_CREATED, Op_DISCOVERING, Op_PAYMENT_REQUIRED, Op_AWAITING_SIGNATURE, Op_AUTHORIZED, Op_PAYMENT_SUBMITTED,
      Op_SETTLEMENT_PENDING, Op_SETTLEMENT_UNKNOWN, Op_SETTLED, Op_EXECUTION_PENDING, Op_EXECUTION_CONFIRMED, Op_DELIVERED,
      Op_SUCCESS, Op_FAILED, Op_POLICY_REJECTED, Op_SETTLEMENT_FAILED, Op_EXECUTION_UNKNOWN, Op_RECOVERY_PENDING,
      Op_RECOVERED, Op_UNRESOLVABLE]"

definition as_operation :: "RestoredOperation \<Rightarrow> Operation option" where
  "as_operation r =
     (case (status_of_word (rs_currentState r), rs_paymentPolicy r) of
        (Some s, Some pol) \<Rightarrow> Some
          \<lparr>op_operationId = rs_operationId r, op_requestId = rs_requestId r, op_clientId = rs_clientId r, op_target = rs_target r,
           op_method = rs_method r, op_requestPayload = JUndefined, op_paymentPolicy = pol, op_sellerCapability = None,
           op_paymentState = rs_paymentState r, op_executionState = rs_executionState r, op_deliveryState = rs_deliveryState r,
           op_currentState = s,
           op_timestamps = \<lparr>ts_createdAt = rs_createdAt r, ts_updatedAt = rs_updatedAt r, ts_discoveryStartedAt = None,
             ts_paymentRequiredAt = None, ts_authorizedAt = None, ts_paymentSubmittedAt = None, ts_settledAt = None,
             ts_executionConfirmedAt = None, ts_deliveredAt = None, ts_completedAt = None, ts_failedAt = None\<rparr>,
           op_evidence = rs_evidence r, op_resultData = rs_resultData r, op_settlementProof = rs_settlementProof r,
           op_executionEvidence = rs_executionEvidence r, op_error = rs_error r\<rparr>
      | _ \<Rightarrow> None)"

section \<open>Saving an operation\<close>

definition save_columns :: "Operation \<Rightarrow> int \<Rightarrow> PaymentIntentRow \<Rightarrow> PaymentIntentRow" where
  "save_columns opn t r = r\<lparr>pr_target := Some (op_target opn), pr_method := Some (op_method opn),
     pr_paymentPolicy := Some (op_paymentPolicy opn), pr_errorReason := or_else (op_error opn) (pr_errorReason r),
     pr_extraFields := (if op_resultData opn = JUndefined then pr_extraFields r
                        else Some (json_merge (opt_default [] (pr_extraFields r)) [(''resultData'', jsonb (op_resultData opn))])),
     pr_updatedAt := t\<rparr>"

text \<open>
  The records whose canonical text is not in the column yet, each tested once more, as jsonb, against the column and what
  has been appended so far.
\<close>

definition missing_records :: "EvidenceRecord list \<Rightarrow> EvidenceRecord list \<Rightarrow> EvidenceRecord list" where
  "missing_records existing evidence =
     foldl (\<lambda>added r. if list_ex (same_jsonb r) (existing @ added) then added else added @ [r]) []
       (filter (\<lambda>r. \<not> list_ex (same_record r) existing) evidence)"

definition pg_saveOperation :: "Operation \<Rightarrow> int \<Rightarrow> pg_store \<Rightarrow> pg_store" where
  "pg_saveOperation opn t p =
     (let p1 = update_intents (\<lambda>r. pr_operationId r = op_operationId opn) (save_columns opn t) p in
      case operation_row p1 (op_operationId opn) of
        None \<Rightarrow> p1
      | Some row \<Rightarrow>
          (case missing_records (evidence_of_row row) (op_evidence opn) of
             [] \<Rightarrow> p1
           | added \<Rightarrow> update_intents (\<lambda>r. pr_paymentIntentId r = pr_paymentIntentId row)
               (\<lambda>r. r\<lparr>pr_evidence := Some (evidence_of_row r @ map stored_record added), pr_updatedAt := t\<rparr>) p1))"

section \<open>Rows of an operation\<close>

lemma values_update [simp]: "js_values (map (\<lambda>(k, r). (k, g r)) m) = map g (js_values m)"
  by (simp add: js_values_def case_prod_unfold)

lemma operation_row_update [simp]:
  assumes "\<And>r. pr_operationId (f r) = pr_operationId r"
  shows "operation_row (update_intents c f p) opId = map_option (\<lambda>r. if c r then f r else r) (operation_row p opId)"
  using find_update [where key = pr_operationId and f = f and c = c and k = opId, OF assms]
  by (simp add: operation_row_def update_intents_def)

lemma update_intents_frame [simp]:
  "ps_observations (update_intents c f p) = ps_observations p" "ps_exec (update_intents c f p) = ps_exec p"
  by (simp_all add: update_intents_def)

lemma operation_row_key: "operation_row p opId = Some r \<Longrightarrow> pr_operationId r = opId"
  unfolding operation_row_def by (drule find_key) simp

lemma operation_row_other [simp]: "operation_row (p\<lparr>ps_observations := obs\<rparr>) opId = operation_row p opId"
  by (simp add: operation_row_def)

lemma evidence_of_row_simps [simp]:
  "evidence_of_row (r\<lparr>pr_evidence := Some es, pr_updatedAt := t\<rparr>) = es" "evidence_of_row (save_columns opn t r) = evidence_of_row r"
  by (simp_all add: evidence_of_row_def save_columns_def)

lemma save_row:
  assumes "operation_row p (op_operationId opn) = Some r"
  shows "\<exists>r'. operation_row (pg_saveOperation opn t p) (op_operationId opn) = Some r' \<and>
    evidence_of_row r' = evidence_of_row r @ map stored_record (missing_records (evidence_of_row r) (op_evidence opn)) \<and>
    r'\<lparr>pr_evidence := pr_evidence r\<rparr> = save_columns opn t r"
proof -
  let ?p1 = "update_intents (\<lambda>r. pr_operationId r = op_operationId opn) (save_columns opn t) p"
  have cols: "pr_operationId (save_columns opn t q) = pr_operationId q" for q by (simp add: save_columns_def)
  have 1: "operation_row ?p1 (op_operationId opn) = Some (save_columns opn t r)"
    using assms operation_row_key [OF assms] by (simp add: cols)
  show ?thesis
  proof (cases "missing_records (evidence_of_row r) (op_evidence opn)")
    case Nil
    with 1 have "pg_saveOperation opn t p = ?p1" by (simp add: pg_saveOperation_def Let_def)
    moreover have "(save_columns opn t r)\<lparr>pr_evidence := pr_evidence r\<rparr> = save_columns opn t r" by (simp add: save_columns_def)
    ultimately show ?thesis using 1 Nil by simp
  next
    case (Cons a as)
    let ?f = "\<lambda>q. q\<lparr>pr_evidence := Some (evidence_of_row q @ map stored_record (a # as)), pr_updatedAt := t\<rparr>"
    from 1 Cons have "pg_saveOperation opn t p = update_intents (\<lambda>q. pr_paymentIntentId q = pr_paymentIntentId (save_columns opn t r)) ?f ?p1"
      by (simp add: pg_saveOperation_def Let_def)
    with 1 have "operation_row (pg_saveOperation opn t p) (op_operationId opn) = Some (?f (save_columns opn t r))" by simp
    moreover have "(?f (save_columns opn t r))\<lparr>pr_evidence := pr_evidence r\<rparr> = save_columns opn t r" by (simp add: save_columns_def)
    moreover have "evidence_of_row (?f (save_columns opn t r)) = evidence_of_row r @ map stored_record (a # as)" by simp
    ultimately show ?thesis unfolding Cons by blast
  qed
qed

text \<open>The operations and their evidence are written by statements that leave the identity and the nonce of every intent alone.\<close>

lemma update_intents_step:
  assumes "\<And>r. pr_nonce (f r) = pr_nonce r" "\<And>r. pr_operationId (f r) = pr_operationId r"
  shows "pg_intent_step direct p (update_intents c f p)"
  unfolding update_intents_def by (rule pis_rows) (simp_all add: assms)

lemma saveOperation_steps: "(pg_intent_step direct)\<^sup>*\<^sup>* p (pg_saveOperation opn t p)"
proof -
  let ?p1 = "update_intents (\<lambda>r. pr_operationId r = op_operationId opn) (save_columns opn t) p"
  have first: "(pg_intent_step direct)\<^sup>*\<^sup>* p ?p1"
    by (rule r_into_rtranclp) (rule update_intents_step; simp add: save_columns_def)
  moreover have "(pg_intent_step direct)\<^sup>*\<^sup>* p (update_intents c (\<lambda>r. r\<lparr>pr_evidence := g r, pr_updatedAt := t\<rparr>) ?p1)" for c g
    using first by (rule rtranclp.rtrancl_into_rtrancl) (rule update_intents_step; simp)
  ultimately show ?thesis by (simp add: pg_saveOperation_def Let_def split: option.split list.split)
qed

lemma append_steps: "(pg_intent_step direct)\<^sup>*\<^sup>* p (pg_append sha r t p)"
proof -
  have "(pg_intent_step direct)\<^sup>*\<^sup>* p (update_intents c (\<lambda>i. i\<lparr>pr_evidence := g i, pr_updatedAt := t\<rparr>) (p\<lparr>ps_observations := os\<rparr>))" for c g os
  proof (rule rtranclp.rtrancl_into_rtrancl)
    show "(pg_intent_step direct)\<^sup>*\<^sup>* p (p\<lparr>ps_observations := os\<rparr>)" using pis_observe by (rule r_into_rtranclp)
  qed (rule update_intents_step; simp)
  from this [where os = "ps_observations p"] this show ?thesis by (simp add: pg_append_def Let_def)
qed

section \<open>Values as jsonb keeps them\<close>

text \<open>Sorting the fields by their names, in any way, leaves the first field of each name the first.\<close>

lemma sort_fields_filter:
  "filter (\<lambda>p. fst p = k) (sort_key (\<lambda>(k, v). (size k, k :: string)) xs) = filter (\<lambda>p. fst p = k) xs"
proof -
  let ?g = "\<lambda>(k, v). (size k, k :: string)"
  have eq: "(\<lambda>p. ?g p = (size k, k)) = (\<lambda>p. fst p = k)" by auto
  show ?thesis by (rule sort_key_stable [of ?g "(size k, k)" xs, unfolded eq])
qed

lemma map_of_first: "map_of xs k = (case filter (\<lambda>p. fst p = k) xs of [] \<Rightarrow> None | p # ps \<Rightarrow> Some (snd p))"
  by (induction xs) auto

lemma map_of_sort_fields [simp]: "map_of (sort_key (\<lambda>(k, v). (size k, k :: string)) xs) = map_of xs"
  by (simp add: fun_eq_iff map_of_first [of "sort_key _ xs"] map_of_first [of xs] sort_fields_filter)

lemma jsonb_undefined [simp]: "jsonb v = JUndefined \<longleftrightarrow> v = JUndefined"
  by (cases v) simp_all

lemma jsonb_field:
  assumes "json_field v k \<noteq> JUndefined"
  shows "json_field (jsonb v) k = jsonb (json_field v k)"
proof -
  have "map_of kvs k = Some x \<Longrightarrow> x \<noteq> JUndefined \<Longrightarrow>
      map_of (map (\<lambda>(k, v). (k, jsonb v)) (filter (\<lambda>(k, v). v \<noteq> JUndefined) kvs)) k = Some (jsonb x)" for kvs x
    by (induction kvs) (auto split: if_splits)
  with assms show ?thesis by (cases v) (auto simp: json_field_def split: option.splits)
qed

text \<open>The canonical text does not see what jsonb changes.\<close>

lemma sort_fields_again:
  assumes "\<And>p. fst (c p) = fst p"
  shows "sort_key fst (map c (sort_key (\<lambda>(k, v). (size k, k :: string)) xs)) = sort_key fst (map c xs)"
proof (rule properties_for_sort_key)
  let ?s = "sort_key (\<lambda>(k, v). (size k, k :: string)) xs"
  show "mset (sort_key fst (map c xs)) = mset (map c ?s)" by simp
  show "sorted (map fst (sort_key fst (map c xs)))" by simp
  fix p
  have "filter (\<lambda>q. fst q = fst p) (map c ?s) = filter (\<lambda>q. fst q = fst p) (map c xs)"
    by (simp add: filter_map comp_def assms sort_fields_filter)
  also have "\<dots> = filter (\<lambda>q. fst q = fst p) (sort_key fst (map c xs))" by (simp add: sort_key_stable)
  finally show "filter (\<lambda>q. fst p = fst q) (sort_key fst (map c xs)) = filter (\<lambda>q. fst p = fst q) (map c ?s)"
    by (simp add: eq_commute [of "fst p"])
qed

lemma canonical_jsonb: "canonicalEvidenceJson (jsonb v) = canonicalEvidenceJson v"
proof (induction v rule: jsonb.induct)
  case (1 vs)
  then have "map (canonicalEvidenceJson \<circ> (\<lambda>v. if v = JUndefined then JNull else jsonb v)) vs = map canonicalEvidenceJson vs" by (auto simp: nullish_def)
  then show ?case by (simp only: jsonb.simps canonicalEvidenceJson.simps map_map)
next
  case (2 kvs)
  let ?s = "sort_key (\<lambda>(k, v). (size k, k))" and ?c = "\<lambda>(k, v). (k, canonicalEvidenceJson v)"
  let ?d = "filter (\<lambda>(k, v). v \<noteq> JUndefined) kvs"
  have all: "filter (\<lambda>(k, v). v \<noteq> JUndefined) (?s (map (\<lambda>(k, v). (k, jsonb v)) ?d)) = ?s (map (\<lambda>(k, v). (k, jsonb v)) ?d)"
    by (rule filter_True) auto
  have "map ?c (map (\<lambda>(k, v). (k, jsonb v)) ?d) = map ?c ?d" using 2 by auto
  moreover have "sort_key fst (map ?c (?s (map (\<lambda>(k, v). (k, jsonb v)) ?d))) = sort_key fst (map ?c (map (\<lambda>(k, v). (k, jsonb v)) ?d))"
    by (rule sort_fields_again) auto
  ultimately have "sort_key fst (map ?c (?s (map (\<lambda>(k, v). (k, jsonb v)) ?d))) = sort_key fst (map ?c ?d)" by (simp only:)
  then show ?case by (simp only: jsonb.simps canonicalEvidenceJson.simps all)
qed simp_all

lemma canonical_stored [simp]: "canonicalEvidenceJson (record_json (stored_record r)) = canonicalEvidenceJson (record_json r)"
  by (simp add: stored_record_def record_json_def canonical_jsonb split: option.split)

lemma same_jsonb_canonical: "same_jsonb r s \<Longrightarrow> same_record r s"
  unfolding same_jsonb_def same_record_def by (metis canonical_jsonb)

lemma stored_record_simps [simp]:
  "ev_operationId (stored_record r) = ev_operationId r" "ev_phase (stored_record r) = ev_phase r"
  "ev_timestamp (stored_record r) = ev_timestamp r" "ev_event (stored_record r) = ev_event r"
  "ev_payload (stored_record r) = jsonb (ev_payload r)" "ev_sequence (stored_record r) = ev_sequence r"
  by (simp_all add: stored_record_def)

section \<open>Records already durable are not appended again\<close>

lemma missing_after_prefix:
  assumes "distinct (map (\<lambda>r. canonicalEvidenceJson (record_json r)) es)"
  shows "missing_records (map stored_record (take m es)) es = drop m es"
proof -
  let ?c = "\<lambda>r. canonicalEvidenceJson (record_json r)" and ?old = "map stored_record (take m es)"
  have split: "distinct (map ?c (take m es @ drop m es))" using assms by simp
  have old: "list_ex (same_record r) ?old \<longleftrightarrow> ?c r \<in> ?c ` set (take m es)" for r by (auto simp: list_ex_iff same_record_def)
  have "filter (\<lambda>r. \<not> list_ex (same_record r) ?old) es = filter (\<lambda>r. \<not> list_ex (same_record r) ?old) (take m es @ drop m es)" by simp
  also have "\<dots> = drop m es"
    unfolding filter_append old using split by (auto simp: filter_id_conv filter_empty_conv simp del: append_take_drop_id)
  finally have cand: "filter (\<lambda>r. \<not> list_ex (same_record r) ?old) es = drop m es" .
  have "foldl (\<lambda>added r. if list_ex (same_jsonb r) (?old @ added) then added else added @ [r]) acc rs = acc @ rs"
    if "distinct (map ?c (take m es @ acc @ rs))" for acc rs
    using that
  proof (induction rs arbitrary: acc)
    case (Cons r rs)
    have "\<not> list_ex (same_record r) (?old @ acc)" using Cons.prems by (auto simp: list_ex_iff same_record_def)
    then have "\<not> list_ex (same_jsonb r) (?old @ acc)" using same_jsonb_canonical by (auto simp: list_ex_iff)
    moreover have "foldl (\<lambda>added r. if list_ex (same_jsonb r) (?old @ added) then added else added @ [r]) (acc @ [r]) rs = (acc @ [r]) @ rs"
      using Cons.prems by (intro Cons.IH) simp
    ultimately show ?case by simp
  qed simp
  from this [of "[]" "drop m es"] split show ?thesis by (simp add: missing_records_def cand)
qed

section \<open>The latest transition\<close>

lemma latest_none:
  "\<forall>e \<in> set es. ev_event e \<noteq> ''STATE_TRANSITION'' \<Longrightarrow>
   foldl (\<lambda>last e. if ev_event e \<noteq> ''STATE_TRANSITION'' then last
      else (case last of None \<Rightarrow> Some e | Some l \<Rightarrow> if ev_timestamp l \<le> ev_timestamp e then Some e else last)) acc es = acc"
  by (induction es) auto

lemma latest_bound:
  assumes "\<forall>l. acc = Some l \<longrightarrow> ev_timestamp l \<le> t" "\<forall>e \<in> set es. ev_timestamp e \<le> t"
  shows "\<forall>l. foldl (\<lambda>last e. if ev_event e \<noteq> ''STATE_TRANSITION'' then last
      else (case last of None \<Rightarrow> Some e | Some l \<Rightarrow> if ev_timestamp l \<le> ev_timestamp e then Some e else last)) acc es = Some l \<longrightarrow> ev_timestamp l \<le> t"
  using assms by (induction es arbitrary: acc) (auto split: option.splits)

lemma latest_transition:
  assumes "sorted (map ev_timestamp (es @ e # rest))" "ev_event e = ''STATE_TRANSITION''"
    and "\<forall>r \<in> set rest. ev_event r \<noteq> ''STATE_TRANSITION''"
  shows "findLatestStateTransitionRecord (es @ e # rest) = Some e"
proof -
  have "\<forall>r \<in> set es. ev_timestamp r \<le> ev_timestamp e" using assms(1) by (simp add: sorted_append)
  from latest_bound [of None "ev_timestamp e" es, OF _ this] assms(2)
  show ?thesis unfolding findLatestStateTransitionRecord_def by (auto simp: latest_none [OF assms(3)] split: option.split)
qed

section \<open>Properties\<close>


definition restored_sample :: Operation where
  "restored_sample = \<lparr>op_operationId = ''op1'', op_requestId = ''r1'', op_clientId = None, op_target = ''https://s'', op_method = ''POST'',
     op_requestPayload = JObj [(''q'', JNum 1)],
     op_paymentPolicy = \<lparr>pol_maxPrice = ''1'', pol_allowedNetworks = [], pol_allowedAssets = [], pol_allowedSellers = None,
       pol_authorizationMode = Explicit, pol_transport = None\<rparr>,
     op_sellerCapability = None, op_paymentState = Pay_NOT_STARTED, op_executionState = Ex_NOT_STARTED,
     op_deliveryState = Del_NOT_STARTED, op_currentState = Op_AWAITING_SIGNATURE,
     op_timestamps = \<lparr>ts_createdAt = 1, ts_updatedAt = 1, ts_discoveryStartedAt = None, ts_paymentRequiredAt = None, ts_authorizedAt = None,
       ts_paymentSubmittedAt = None, ts_settledAt = None, ts_executionConfirmedAt = None, ts_deliveredAt = None, ts_completedAt = None, ts_failedAt = None\<rparr>,
     op_evidence =
       [\<lparr>ev_operationId = ''op1'', ev_phase = PAYMENT, ev_timestamp = 1, ev_event = ''X'', ev_payload = JUndefined, ev_sequence = Some 0\<rparr>,
        \<lparr>ev_operationId = ''op1'', ev_phase = FINAL, ev_timestamp = 2, ev_event = ''STATE_TRANSITION'',
          ev_payload = JObj [(''to'', JStr ''AWAITING_SIGNATURE'')], ev_sequence = Some 1\<rparr>],
     op_resultData = JUndefined, op_settlementProof = None, op_executionEvidence = None, op_error = None\<rparr>"

lemma db_store_operation: "operation_row db_store ''op1'' = Some (intent_values (db_intent ''pi1'' ''op1'') ''500.000000'' 1)"
proof -
  obtain v where "six_decimals (pi_value (db_intent ''pi1'' ''op1'')) = Inr v"
    "ps_intents db_store = js_set (pi_paymentIntentId (db_intent ''pi1'' ''op1'')) (intent_values (db_intent ''pi1'' ''op1'') v 1)
       (ps_intents empty_pg_store)"
    using create_ok [OF db_store_created] by metis
  then show ?thesis by (simp add: six_decimals_def empty_pg_store_def operation_row_def js_values_def js_set_def)
qed


text \<open>
  The state a restart rebuilds is one the machine could have reached: it is the state of the last recorded
  transition or one that follows it in the transition table - except after EXECUTION_CONFIRMED, where an
  attempt of unknown or unresolvable delivery moves it to a state the table does not lead to.
\<close>

theorem restored_state_follows_fsm:
  assumes "transition_target evidence = JStr (op_name s)"
  shows "\<exists>s'. deriveCurrentState evidence st att = op_name s' \<and>
    (s' = s \<or> (\<exists>ts. fsm_run s (ts @ [s'])) \<or>
     s = Op_EXECUTION_CONFIRMED \<and> att \<in> {Some Ob_DELIVERY_UNKNOWN, Some Ob_UNRESOLVABLE} \<and> s' \<in> {Op_EXECUTION_UNKNOWN, Op_UNRESOLVABLE})"
proof -
  have word: "op_name s \<noteq> []" by (cases s) simp_all
  then have d: "deriveCurrentState evidence st att = fast_forward (op_name s) att" by (simp add: deriveCurrentState_def assms)
  have runs: "fsm_run Op_EXECUTION_PENDING ([] @ [Op_EXECUTION_CONFIRMED])" "fsm_run Op_EXECUTION_PENDING ([] @ [Op_FAILED])"
    "fsm_run Op_EXECUTION_PENDING ([] @ [Op_EXECUTION_UNKNOWN])"
    "fsm_run Op_EXECUTION_PENDING ([Op_EXECUTION_UNKNOWN, Op_RECOVERY_PENDING] @ [Op_UNRESOLVABLE])"
    "fsm_run Op_EXECUTION_CONFIRMED ([] @ [Op_FAILED])" "fsm_run Op_EXECUTION_UNKNOWN ([Op_RECOVERY_PENDING] @ [Op_UNRESOLVABLE])"
    by (simp_all add: isValidTransition_def)
  consider (pending) "s = Op_EXECUTION_PENDING" | (confirmed) "s = Op_EXECUTION_CONFIRMED" | (unknown) "s = Op_EXECUTION_UNKNOWN"
    | (other) "fast_forward (op_name s) att = op_name s"
    by (cases s) (simp_all add: fast_forward_def)
  then show ?thesis
  proof cases
    case pending
    have "\<exists>s' \<in> {Op_EXECUTION_PENDING, Op_EXECUTION_CONFIRMED, Op_FAILED, Op_EXECUTION_UNKNOWN, Op_UNRESOLVABLE}. fast_forward (op_name s) att = op_name s'"
      by (simp add: pending fast_forward_def)
    then obtain s' where s': "s' \<in> {Op_EXECUTION_PENDING, Op_EXECUTION_CONFIRMED, Op_FAILED, Op_EXECUTION_UNKNOWN, Op_UNRESOLVABLE}"
      "fast_forward (op_name s) att = op_name s'" by blast
    from s'(1) have "s' = s \<or> (\<exists>ts. fsm_run s (ts @ [s']))"
      unfolding pending using runs(1-4) by (elim insertE emptyE) (simp, blast+)
    with s'(2) d show ?thesis by metis
  next
    case confirmed
    show ?thesis
    proof (cases "att = Some Ob_HTTP_FAILURE")
      case True
      then have "fast_forward (op_name s) att = op_name Op_FAILED" by (simp add: confirmed fast_forward_def)
      with d confirmed runs(5) show ?thesis by metis
    next
      case False
      with d confirmed show ?thesis
        by (cases "att = Some Ob_DELIVERY_UNKNOWN"; cases "att = Some Ob_UNRESOLVABLE")
          (auto simp: fast_forward_def intro: exI [of _ Op_EXECUTION_CONFIRMED] exI [of _ Op_EXECUTION_UNKNOWN] exI [of _ Op_UNRESOLVABLE])
    qed
  next
    case unknown
    have "\<exists>s' \<in> {Op_EXECUTION_UNKNOWN, Op_UNRESOLVABLE}. fast_forward (op_name s) att = op_name s'"
      by (simp add: unknown fast_forward_def)
    then obtain s' where s': "s' \<in> {Op_EXECUTION_UNKNOWN, Op_UNRESOLVABLE}" "fast_forward (op_name s) att = op_name s'" by blast
    from s'(1) have "s' = s \<or> (\<exists>ts. fsm_run s (ts @ [s']))"
      unfolding unknown using runs(6) by (elim insertE emptyE) (simp, blast+)
    with s'(2) d show ?thesis by metis
  next
    case other
    with d show ?thesis by (intro exI [of _ s]) simp
  qed
qed

theorem restored_state_follows_fsm_witness:
  "\<exists>s'. deriveCurrentState (op_evidence restored_sample) St_SETTLED (Some Ob_SUCCESS) = op_name s' \<and>
     (s' = Op_AWAITING_SIGNATURE \<or> (\<exists>ts. fsm_run Op_AWAITING_SIGNATURE (ts @ [s'])))"
proof -
  have "transition_target (op_evidence restored_sample) = JStr (op_name Op_AWAITING_SIGNATURE)" by code_simp
  from restored_state_follows_fsm [OF this, of St_SETTLED "Some Ob_SUCCESS"] show ?thesis by auto
qed

text \<open>
  Without a recorded transition the rebuilt state is the settlement state's word, and five of those are no state of
  an operation.
\<close>

theorem fallback_state_outside_machine:
  assumes "transition_target evidence = JUndefined"
  shows "status_of_word (deriveCurrentState evidence st att) = None \<longleftrightarrow>
    st \<in> {St_SUBMITTING, St_SUBMITTED, St_RECONCILING, St_NOT_SETTLED, St_UNRESOLVED_MANUAL}"
  using assms by (cases st) (simp_all add: deriveCurrentState_def fast_forward_def status_of_word_def)

text \<open>
  The paid call of a restored operation is not the call that was priced: rebuilt from the database, an
  operation has no request payload and no capabilities, so the paid request it makes and the obligation it leaves have
  no body, and the obligation no means of recovery, whatever the client asked for and the seller offered.
\<close>

theorem restored_operation_lost_request:
  assumes "pg_getOperation t p opId = Some r" "as_operation r = Some opn"
  shows "tt_body (standard_target opn) = None \<and> tt_url (standard_target opn) = rs_target r \<and>
    xa_requestBody (obligation_attempt opn attemptId t') = JUndefined \<and>
    (\<exists>m. xj_metadata (obligation_job cfg opn jobId t') = Some m \<and> md_capability m = Some XC_NONE \<and>
       md_requestBody m = JUndefined \<and> md_resultRetrievalEndpoint m = None)"
proof -
  have "op_requestPayload opn = JUndefined" "op_sellerCapability opn = None" "op_target opn = rs_target r"
    using assms(2) by (auto simp: as_operation_def split: option.splits)
  then show ?thesis
    by (simp add: standard_target_def obligation_attempt_def obligation_job_def Let_def nonempty_def)
qed

lemma restored_sample_read:
  "\<exists>r opn. pg_getOperation 9 (pg_saveOperation restored_sample 5 db_store) ''op1'' = Some r \<and> as_operation r = Some opn"
proof -
  have "(case pg_getOperation 9 (pg_saveOperation restored_sample 5 db_store) ''op1'' of None \<Rightarrow> False
    | Some r \<Rightarrow> (case as_operation r of None \<Rightarrow> False | Some opn \<Rightarrow> True))" by code_simp
  then show ?thesis by (auto split: option.splits)
qed

theorem restored_operation_lost_request_witness:
  "op_requestPayload restored_sample \<noteq> JUndefined \<and>
   (\<exists>r opn. pg_getOperation 9 (pg_saveOperation restored_sample 5 db_store) ''op1'' = Some r \<and> as_operation r = Some opn \<and>
      tt_body (standard_target opn) = None)"
proof -
  obtain r opn where r: "pg_getOperation 9 (pg_saveOperation restored_sample 5 db_store) ''op1'' = Some r" "as_operation r = Some opn"
    using restored_sample_read by blast
  from restored_operation_lost_request [OF r] have "tt_body (standard_target opn) = None" by blast
  moreover have "op_requestPayload restored_sample \<noteq> JUndefined" by (simp add: restored_sample_def)
  ultimately show ?thesis using r by blast
qed

section \<open>Appending twice\<close>

lemma append_row:
  assumes "operation_row p (ev_operationId r) = Some i"
  shows "\<exists>i'. operation_row (pg_append sha r t p) (ev_operationId r) = Some i' \<and> evidence_of_row i' = evidence_of_row i @ [stored_record r]"
proof -
  have "\<not> array_contains (map record_json es) (record_json r)" for es by (simp add: array_contains_def record_json_def)
  with assms operation_row_key [OF assms] show ?thesis
    by (simp add: pg_append_def Let_def)
qed

lemma append_log:
  "ps_observations (pg_append sha r t p) = (if js_has (ps_observations p) (evidenceIdentity sha r) then ps_observations p
     else js_set (evidenceIdentity sha r) (log_row r) (ps_observations p))"
  by (simp add: pg_append_def Let_def)

text \<open>
  An append that is repeated is not idempotent: the log table keeps one row, but the history in the row of the intent
  gets the record again, because an array does not contain an object.
\<close>

theorem repeated_append_duplicates:
  assumes "operation_row p (ev_operationId r) = Some i"
  shows "\<exists>i'. operation_row (pg_append sha r t' (pg_append sha r t p)) (ev_operationId r) = Some i' \<and>
    evidence_of_row i' = evidence_of_row i @ [stored_record r, stored_record r] \<and>
    ps_observations (pg_append sha r t' (pg_append sha r t p)) = ps_observations (pg_append sha r t p)"
proof -
  obtain i1 where i1: "operation_row (pg_append sha r t p) (ev_operationId r) = Some i1" "evidence_of_row i1 = evidence_of_row i @ [stored_record r]"
    using append_row [OF assms] by blast
  obtain i2 where "operation_row (pg_append sha r t' (pg_append sha r t p)) (ev_operationId r) = Some i2"
    "evidence_of_row i2 = evidence_of_row i1 @ [stored_record r]"
    using append_row [OF i1(1)] by blast
  moreover have "ps_observations (pg_append sha r t' (pg_append sha r t p)) = ps_observations (pg_append sha r t p)"
    unfolding append_log [of sha r t' "pg_append sha r t p"] by (simp add: append_log [of sha r t p] js_has_def)
  ultimately show ?thesis using i1(2) by auto
qed

section \<open>Reading back one record\<close>

lemma stored_evidence_row:
  "stored_evidence p opId = (case operation_row p opId of None \<Rightarrow> [] | Some r \<Rightarrow> evidence_of_row r)"
  by (simp add: stored_evidence_def pg_getPaymentIntentByOperationId_def first_row_def operation_row_def rowToIntent_def
      evidence_of_row_def split: option.split)

lemma stub_key_differs:
  "ev_phase r \<noteq> DISCOVERY \<Longrightarrow> legacyKey (stub opId (log_row s)) \<noteq> legacyKey r"
  by (cases "ev_phase r") (simp_all add: legacyKey_def stub_def)

lemma one_record_read_twice:
  assumes "operation_row p (ev_operationId r) = Some i" "evidence_of_row i = []" "log_rows p (ev_operationId r) = []"
    and "js_get (ps_observations p) (evidenceIdentity sha r) = None" "ev_phase r \<noteq> DISCOVERY"
  shows "set (pg_getEvidence sha (pg_append sha r t p) (ev_operationId r)) = {stored_record r, stub (ev_operationId r) (log_row r)} \<and>
    length (pg_getEvidence sha (pg_append sha r t p) (ev_operationId r)) = 2"
proof -
  let ?p = "pg_append sha r t p" and ?o = "ev_operationId r"
  obtain i' where "operation_row ?p ?o = Some i'" "evidence_of_row i' = [stored_record r]" using append_row [OF assms(1)] assms(2) by auto
  then have rich: "stored_evidence ?p ?o = [stored_record r]" by (simp add: stored_evidence_row)
  have "js_values (ps_observations ?p) = js_values (ps_observations p) @ [log_row r]"
    using assms(4) by (simp add: append_log js_has_def js_values_set_new)
  then have log: "log_rows ?p ?o = [log_row r]" using assms(3) by (simp add: log_rows_def log_row_def)
  let ?k = "''stub|'' @ legacyKey (stub ?o (log_row r))"
  let ?r = "stored_record r"
  have "evidenceIdentity sha ?r \<noteq> ?k" by (simp add: evidenceIdentity_def Let_def join_with.simps)
  from this this [symmetric] have "js_values (put_new ?k (stub ?o (log_row r)) (put_new (evidenceIdentity sha ?r) ?r []))
      = [?r, stub ?o (log_row r)]"
    by (simp add: put_new_def js_has_def js_values_def js_set_def js_get_def)
  then have "pg_getEvidence sha ?p ?o = sort_key merge_key [?r, stub ?o (log_row r)]"
    using stub_key_differs [of ?r ?o r] assms(5) by (simp add: pg_getEvidence_def Let_def rich log)
  then show ?thesis by (simp only: set_sort length_sort) simp
qed

text \<open>
  After a restart evidence is lost from the log: a record of any phase but discovery is read back twice, as itself and
  as the bare row of the log, so the flush cursor seeded from that reading lies one too far, and a flush
  of the next record appends nothing and reports success.
\<close>

theorem restart_skips_evidence:
  assumes "operation_row p (op_operationId opn) = Some i" "evidence_of_row i = []" "log_rows p (op_operationId opn) = []"
    and "js_get (ps_observations p) (evidenceIdentity sha r0) = None" "ev_phase r0 \<noteq> DISCOVERY"
    and "ev_operationId r0 = op_operationId opn" "op_evidence opn = [r0, r1]" "ev_sequence r0 = Some 0" "ev_sequence r1 = Some 1"
  shows "seedEvidenceCursor (pg_getEvidence sha) (op_operationId opn) [] (pg_append sha r0 t p) = [(op_operationId opn, 2)] \<and>
    flushPendingEvidence app (Suc n) opn [(op_operationId opn, 2)] (pg_append sha r0 t p) =
      (Inr (), [(op_operationId opn, 2)], pg_append sha r0 t p)"
proof -
  have "length (pg_getEvidence sha (pg_append sha r0 t p) (op_operationId opn)) = 2"
    using one_record_read_twice [of p r0 i sha t] assms(1-6) by simp
  then have "seedEvidenceCursor (pg_getEvidence sha) (op_operationId opn) [] (pg_append sha r0 t p) = [(op_operationId opn, 2)]"
    by (simp add: seedEvidenceCursor_def js_has_def js_set_def)
  moreover have "ordered_evidence opn = [(r0, 0), (r1, 1)]"
    using assms(7-9) by (simp add: ordered_evidence_def)
  ultimately show ?thesis by (simp add: flushPendingEvidence_def js_get_def)
qed

definition first_record :: EvidenceRecord where
  "first_record = \<lparr>ev_operationId = ''op1'', ev_phase = PAYMENT, ev_timestamp = 3, ev_event = ''A'', ev_payload = JNull, ev_sequence = Some 0\<rparr>"

theorem restart_skips_evidence_witness:
  "flushPendingEvidence (\<lambda>r st. (Inl ''called'', st)) 3
     (restored_sample\<lparr>op_evidence := [first_record, first_record\<lparr>ev_sequence := Some 1\<rparr>]\<rparr>) [(''op1'', 2)] (pg_append (\<lambda>s. s) first_record 4 db_store) =
   (Inr (), [(''op1'', 2)], pg_append (\<lambda>s. s) first_record 4 db_store)"
proof -
  let ?opn = "restored_sample\<lparr>op_evidence := [first_record, first_record\<lparr>ev_sequence := Some 1\<rparr>]\<rparr>"
  let ?r = "intent_values (db_intent ''pi1'' ''op1'') ''500.000000'' 1"
  have id: "op_operationId ?opn = ''op1''" by (simp add: restored_sample_def)
  have row: "operation_row db_store (op_operationId ?opn) = Some ?r" unfolding id by (rule db_store_operation)
  have obs: "ps_observations db_store = []" by code_simp
  have ev: "evidence_of_row ?r = []" by (simp add: evidence_of_row_def intent_values_def)
  have log: "log_rows db_store (op_operationId ?opn) = []" by (simp add: log_rows_def obs js_values_def)
  have free: "js_get (ps_observations db_store) (evidenceIdentity (\<lambda>s. s) first_record) = None" by (simp add: obs)
  have r0: "ev_phase first_record \<noteq> DISCOVERY" "ev_operationId first_record = op_operationId ?opn" "ev_sequence first_record = Some 0"
    by (simp_all add: first_record_def restored_sample_def)
  have two: "op_evidence ?opn = [first_record, first_record\<lparr>ev_sequence := Some 1\<rparr>]"
    "ev_sequence (first_record\<lparr>ev_sequence := Some 1\<rparr>) = Some 1" by simp_all
  note skipped = restart_skips_evidence [OF row ev log free r0(1,2) two(1) r0(3) two(2), of 4 "\<lambda>r st. (Inl ''called'', st)" 2]
  show ?thesis using conjunct2 [OF skipped] unfolding id by (simp only: eval_nat_numeral)
qed

end
