(* ===== verification/PgHandoff.thy ===== *)
theory PgHandoff
  imports PgOperations Reconciliation
begin

text \<open>
  The hand-over of a settled payment to execution, \<open>settleAndCreateExecutionObligation\<close> of
  \<^verbatim>\<open>lib/db/src/secretariat/postgres-execution-store.ts\<close>: one transaction over the payment intents and the execution tables,
  and what is left for it to do once the reconciliation has recorded the settlement itself.
\<close>

section \<open>The transaction\<close>

definition handoff_states :: "SettlementState set" where
  "handoff_states = {St_SETTLEMENT_PENDING, St_RECONCILING, St_SUBMITTED}"

definition settle_row :: "json \<Rightarrow> int \<Rightarrow> PaymentIntentRow \<Rightarrow> PaymentIntentRow" where
  "settle_row ev t r = r\<lparr>pr_settlementState := St_SETTLED, pr_settledEvidenceBundle := Some ev,
     pr_version := Suc (pr_version r), pr_settledAt := Some t, pr_updatedAt := t\<rparr>"

text \<open>The columns the two inserts leave out are null.\<close>

definition handoff_job :: "RecoveryJob \<Rightarrow> int \<Rightarrow> JobRow" where
  "handoff_job job t = job_values (job\<lparr>xj_lockedBy := None, xj_lockedUntil := None, xj_lastError := None\<rparr>) t t"

definition handoff_attempt :: "ExecutionAttempt \<Rightarrow> int \<Rightarrow> AttemptRow" where
  "handoff_attempt a t = attempt_values (a\<lparr>xa_responseStatusCode := None, xa_responseBody := JUndefined, xa_responseHeaders := None,
     xa_errorReason := None, xa_startedAt := None, xa_completedAt := None\<rparr>) t"

text \<open>The error of a unique violation; \<open>wrapped\<close> tells whether the query layer puts its own error around it.\<close>

definition duplicate_error :: "bool \<Rightarrow> db_error" where
  "duplicate_error wrapped = (if wrapped then [(None, None)] else []) @ [(Some ''23505'', None)]"

definition settleAndCreateExecutionObligation ::
    "bool \<Rightarrow> string \<Rightarrow> json \<Rightarrow> RecoveryJob \<Rightarrow> ExecutionAttempt \<Rightarrow> int \<Rightarrow> pg_store \<Rightarrow> (db_error + bool) \<times> pg_store" where
  "settleAndCreateExecutionObligation wrapped k ev job attempt t p =
     (case update_intent k (\<lambda>r. pr_settlementState r \<in> handoff_states) (settle_row ev t) p of
        (False, p1) \<Rightarrow> (Inr False, p1)
      | (True, p1) \<Rightarrow>
          (case (case insert_job (handoff_job job t) (ps_exec p1) of
                   Inl e \<Rightarrow> Inl e | Inr x1 \<Rightarrow> insert_attempt (handoff_attempt attempt t) x1) of
             Inr x2 \<Rightarrow> (Inr True, p1\<lparr>ps_exec := x2\<rparr>)
           | Inl e \<Rightarrow> (if fst (hd (duplicate_error wrapped)) = Some ''23505'' then Inr True else Inl (duplicate_error wrapped), p)))"

section \<open>What it does\<close>

lemma inserted:
  assumes "insert_job j x = Inr x1" "insert_attempt a x1 = Inr x2"
  shows "tb_jobs x2 = tb_jobs x @ [j]" "tb_attempts x2 = tb_attempts x @ [a]"
  using assms by (auto simp: insert_job_def insert_attempt_def split: if_splits)

lemma handoff_cases:
  obtains (refused) "settleAndCreateExecutionObligation wrapped k ev job attempt t p = (Inr False, p)"
      "\<forall>r. intent_row p k = Some r \<longrightarrow> pr_settlementState r \<notin> handoff_states"
    | (clash) r where "settleAndCreateExecutionObligation wrapped k ev job attempt t p =
        (if wrapped then Inl (duplicate_error wrapped) else Inr True, p)" "intent_row p k = Some r" "pr_settlementState r \<in> handoff_states"
        "job_conflict (handoff_job job t) (ps_exec p) \<or> attempt_conflict (handoff_attempt attempt t) (ps_exec p)"
    | (written) r where "intent_row p k = Some r" "pr_settlementState r \<in> handoff_states"
        "settleAndCreateExecutionObligation wrapped k ev job attempt t p =
          (Inr True, (put_row k (settle_row ev t r) p)\<lparr>ps_exec :=
             \<lparr>tb_attempts = tb_attempts (ps_exec p) @ [handoff_attempt attempt t], tb_jobs = tb_jobs (ps_exec p) @ [handoff_job job t]\<rparr>\<rparr>)"
        "\<not> job_conflict (handoff_job job t) (ps_exec p)"
proof -
  have put: "ps_exec (put_row k r p) = ps_exec p" for r by (simp add: put_row_def)
  show thesis
  proof (cases "intent_row p k")
    case None
    with refused show thesis by (simp add: settleAndCreateExecutionObligation_def update_intent_def)
  next
    case (Some r)
    show thesis
    proof (cases "pr_settlementState r \<in> handoff_states")
      case False
      with Some refused show thesis by (simp add: settleAndCreateExecutionObligation_def update_intent_def)
    next
      case True
      show thesis
      proof (cases "job_conflict (handoff_job job t) (ps_exec p) \<or> attempt_conflict (handoff_attempt attempt t) (ps_exec p)")
        case clashing: True
        have "settleAndCreateExecutionObligation wrapped k ev job attempt t p =
          (if wrapped then Inl (duplicate_error wrapped) else Inr True, p)"
          using Some True clashing
          by (auto simp: settleAndCreateExecutionObligation_def update_intent_def put insert_job_def insert_attempt_def
              attempt_conflict_def duplicate_error_def split: sum.split)
        with clash Some True clashing show thesis by blast
      next
        case False
        then have free: "\<not> job_conflict (handoff_job job t) (ps_exec p)"
          "\<not> attempt_conflict (handoff_attempt attempt t) (ps_exec p\<lparr>tb_jobs := js\<rparr>)" for js
          by (simp_all add: attempt_conflict_def)
        have "ps_exec p\<lparr>tb_jobs := tb_jobs (ps_exec p) @ [handoff_job job t], tb_attempts := tb_attempts (ps_exec p) @ [handoff_attempt attempt t]\<rparr> =
          \<lparr>tb_attempts = tb_attempts (ps_exec p) @ [handoff_attempt attempt t], tb_jobs = tb_jobs (ps_exec p) @ [handoff_job job t]\<rparr>"
          by (cases "ps_exec p") simp
        with Some True free written [of r] show thesis
          by (simp add: settleAndCreateExecutionObligation_def update_intent_def put insert_job_def insert_attempt_def)
      qed
    qed
  qed
qed

lemma put_row_row [simp]: "intent_row (put_row k r p) k' = (if k' = k then Some r else intent_row p k')"
  by (simp add: intent_row_def put_row_def)

lemma intent_row_exec [simp]: "intent_row (p\<lparr>ps_exec := x\<rparr>) k = intent_row p k"
  by (simp add: intent_row_def)

text \<open>The transaction, seen from the intents and nonces, is an update that leaves identity and nonce alone.\<close>

lemma handoff_steps: "(pg_intent_step direct)\<^sup>*\<^sup>* p (snd (settleAndCreateExecutionObligation wrapped k ev job attempt t p))"
proof (cases rule: handoff_cases [of wrapped k ev job attempt t p])
  case (written r)
  have "put_row k (settle_row ev t r) p = snd (update_intent k (\<lambda>r. True) (settle_row ev t) p)"
    using written(1) by (simp add: update_intent_def)
  moreover have "pg_intent_step direct p (snd (update_intent k (\<lambda>r. True) (settle_row ev t) p))"
    by (rule pis_row) (simp_all add: settle_row_def)
  ultimately have "(pg_intent_step direct)\<^sup>*\<^sup>* p ((put_row k (settle_row ev t r) p)\<lparr>ps_exec := x\<rparr>)" for x
    by (metis pis_exec r_into_rtranclp rtranclp.rtrancl_into_rtrancl)
  then show ?thesis using written(3) by simp
qed simp_all

text \<open>A duplicate obligation: the transaction is undone, and the answer depends on who wrapped the error.\<close>

lemma duplicate_handoff_writes_nothing:
  assumes "intent_row p k = Some r" "pr_settlementState r \<in> handoff_states" "job_conflict (handoff_job job t) (ps_exec p)"
  shows "settleAndCreateExecutionObligation wrapped k ev job attempt t p =
    (if wrapped then Inl (duplicate_error wrapped) else Inr True, p)"
  by (cases rule: handoff_cases [of wrapped k ev job attempt t p]) (use assms in simp_all)

section \<open>Payments the reconciliation has settled\<close>

definition same_states :: "mem_store \<Rightarrow> pg_store \<Rightarrow> bool" where
  "same_states st p = (\<forall>k. st_of st k = map_option pr_settlementState (intent_row p k))"

lemma single_rows_agree:
  assumes "map fst (ms_intents st) = [k]" "map fst (ps_intents p) = [k]" "st_of st k = Some s"
    and "map_option pr_settlementState (intent_row p k) = Some s"
  shows "same_states st p"
proof -
  have "js_get m k' = None" if "map fst m = [k]" "k' \<noteq> k" for m :: "(string, 'a) jsmap" and k'
    using that by (auto simp: js_get_def map_of_eq_None_iff)
  with assms(1,2) have "st_of st k' = None" "intent_row p k' = None" if "k' \<noteq> k" for k'
    using that by (simp_all add: st_of_def mem_intent_def intent_row_def)
  with assms(3,4) show ?thesis unfolding same_states_def by (metis option.map(1))
qed

lemma settled_row_refused:
  assumes "intent_row p k = Some r" "pr_settlementState r = St_SETTLED"
  shows "settleAndCreateExecutionObligation wrapped k ev job attempt t p = (Inr False, p)"
  by (cases rule: handoff_cases [of wrapped k ev job attempt t p]) (use assms in \<open>simp_all add: handoff_states_def\<close>)

section \<open>Properties\<close>

text \<open>
  Property C19. The hand-over is all or nothing: either the tables are as they were, or the intent was awaiting its
  settlement and is now SETTLED with its evidence, and the pending job and attempt are both there -
  after which the scanner for settled payments without an obligation no longer finds it.
\<close>

theorem handoff_is_atomic:
  assumes "settleAndCreateExecutionObligation wrapped k ev job attempt t p = (answer, p')"
  shows "p' = p \<or>
    (answer = Inr True \<and>
     (\<exists>r. intent_row p k = Some r \<and> pr_settlementState r \<in> handoff_states \<and> intent_row p' k = Some (settle_row ev t r) \<and>
        (xj_jobType job = Jt_EXECUTION \<and> xj_operationId job = pr_operationId r \<longrightarrow>
           rowToIntent (settle_row ev t r) \<notin> set (pg_getSettledIntentsWithoutObligation limit p'))) \<and>
     handoff_job job t \<in> set (tb_jobs (ps_exec p')) \<and> handoff_attempt attempt t \<in> set (tb_attempts (ps_exec p')) \<and>
     (\<forall>k'. k' \<noteq> k \<longrightarrow> intent_row p' k' = intent_row p k'))"
proof (cases rule: handoff_cases [of wrapped k ev job attempt t p])
  case (written r)
  with assms have answer: "answer = Inr True" and p': "p' = (put_row k (settle_row ev t r) p)\<lparr>ps_exec :=
      \<lparr>tb_attempts = tb_attempts (ps_exec p) @ [handoff_attempt attempt t], tb_jobs = tb_jobs (ps_exec p) @ [handoff_job job t]\<rparr>\<rparr>"
    by simp_all
  have scan: "rowToIntent (settle_row ev t r) \<notin> set (pg_getSettledIntentsWithoutObligation limit p')"
    if j: "xj_jobType job = Jt_EXECUTION" "xj_operationId job = pr_operationId r"
  proof
    assume "rowToIntent (settle_row ev t r) \<in> set (pg_getSettledIntentsWithoutObligation limit p')"
    then obtain q where q: "rowToIntent (settle_row ev t r) = rowToIntent q"
      "\<not> list_ex (\<lambda>j. jr_operationId j = pr_operationId q \<and> jr_jobType j = Jt_EXECUTION) (tb_jobs (ps_exec p'))"
      unfolding pg_getSettledIntentsWithoutObligation_def by (auto dest!: in_set_takeD)
    from arg_cong [OF q(1), of pi_operationId] have "pr_operationId q = pr_operationId r" by (simp add: rowToIntent_def settle_row_def)
    with q(2) j show False by (simp add: p' handoff_job_def job_values_def)
  qed
  show ?thesis using written(1,2) answer scan by (simp add: p')
qed (use assms in simp_all)

definition handoff_store :: pg_store where
  "handoff_store = snd (update_intent ''pi1'' (\<lambda>r. True) (\<lambda>r. r\<lparr>pr_settlementState := St_SUBMITTED\<rparr>) db_store)"

theorem handoff_is_atomic_witness:
  "\<exists>r. intent_row (snd (settleAndCreateExecutionObligation True ''pi1'' JNull (sample_job XC_NONE) (sample_attempt Ob_PENDING) 7 handoff_store)) ''pi1'' =
     Some r \<and> pr_settlementState r = St_SETTLED"
proof -
  let ?h = "settleAndCreateExecutionObligation True ''pi1'' JNull (sample_job XC_NONE) (sample_attempt Ob_PENDING) 7 handoff_store"
  have row: "intent_row handoff_store ''pi1'' = Some ((intent_values (db_intent ''pi1'' ''op1'') ''500.000000'' 1)\<lparr>pr_settlementState := St_SUBMITTED\<rparr>)"
    by (simp add: handoff_store_def update_intent_def db_store_row)
  have "map_option pr_settlementState (intent_row (snd ?h) ''pi1'') = Some St_SETTLED" by code_simp
  then have ne: "snd ?h \<noteq> handoff_store" using row by auto
  from handoff_is_atomic [OF surjective_pairing [of ?h], where limit = 5] ne obtain r where
    "intent_row (snd ?h) ''pi1'' = Some (settle_row JNull 7 r)" by blast
  then show ?thesis by (simp add: settle_row_def)
qed

text \<open>
  Property C21. A payment that the reconciliation has settled is never handed over: once \<open>reconcile\<close> has answered
  SETTLED it has recorded that state itself, so the transaction, which wants a state before it, answers
  that somebody else has done the work and writes nothing; the payment is left to the scanner.
\<close>

theorem settled_payment_gets_no_handoff:
  assumes "intents_wf st" "mem_intent st k = Some i" "reconcile env fuel k st = (Some (Inr out), st')" "ro_status out = RS_SETTLED"
    and "same_states st' p"
  shows "settleAndCreateExecutionObligation wrapped k ev job attempt t p = (Inr False, p) \<and>
    (\<exists>r. intent_row p k = Some r \<and> pr_settlementState r = St_SETTLED \<and>
      (\<not> list_ex (\<lambda>j. jr_operationId j = pr_operationId r \<and> jr_jobType j = Jt_EXECUTION) (tb_jobs (ps_exec p)) \<longrightarrow>
        rowToIntent r \<in> set (pg_getSettledIntentsWithoutObligation (length (ps_intents p)) p)))"
proof -
  have "st_of st' k = Some St_SETTLED"
    using reconcile_verdict_durable [OF assms(1-3), of St_SETTLED] assms(4) by simp
  with assms(5) obtain r where r: "intent_row p k = Some r" "pr_settlementState r = St_SETTLED" by (auto simp: same_states_def)
  have mem: "r \<in> set (js_values (ps_intents p))"
    using r(1) by (force simp: intent_row_def js_get_def js_values_def dest: map_of_SomeD)
  have "length (sort_key pr_updatedAt (filter c (js_values (ps_intents p)))) \<le> length (ps_intents p)" for c
    using length_filter_le [of c "js_values (ps_intents p)"] by (simp add: js_values_def)
  with mem r(2) have "\<not> list_ex (\<lambda>j. jr_operationId j = pr_operationId r \<and> jr_jobType j = Jt_EXECUTION) (tb_jobs (ps_exec p)) \<longrightarrow>
        rowToIntent r \<in> set (pg_getSettledIntentsWithoutObligation (length (ps_intents p)) p)"
    by (simp add: pg_getSettledIntentsWithoutObligation_def take_all)
  with settled_row_refused [OF r] r show ?thesis by blast
qed

definition settled_db :: pg_store where
  "settled_db = snd (update_intent ''pi1'' (\<lambda>r. True) (\<lambda>r. r\<lparr>pr_settlementState := St_SETTLED\<rparr>) db_store)"

theorem settled_payment_gets_no_handoff_witness:
  "settleAndCreateExecutionObligation True ''pi1'' JNull (sample_job XC_NONE) (sample_attempt Ob_PENDING) 7 settled_db = (Inr False, settled_db)"
proof -
  let ?run = "reconcile (sample_env [paid_provider ''0x20'', paid_provider ''0x30''] 5000) 3 ''pi1'' submitted_store"
  have "(case fst ?run of Some (Inr out) \<Rightarrow> ro_status out | _ \<Rightarrow> RS_INCIDENT) = RS_SETTLED" by code_simp
  then obtain out where out: "fst ?run = Some (Inr out)" "ro_status out = RS_SETTLED"
    by (auto split: option.splits sum.splits)
  then have run: "?run = (Some (Inr out), snd ?run)" by (metis prod.collapse)
  have only: "map fst (ms_intents (snd ?run)) = [''pi1'']" "map fst (ps_intents settled_db) = [''pi1'']" by code_simp+
  have one: "st_of (snd ?run) ''pi1'' = Some St_SETTLED" "map_option pr_settlementState (intent_row settled_db ''pi1'') = Some St_SETTLED"
    by code_simp+
  have agree: "same_states (snd ?run) settled_db" by (rule single_rows_agree [OF only one])
  from settled_payment_gets_no_handoff [OF submitted_store_wf _ run out(2) agree] show ?thesis
    by (simp add: submitted_store_intent)
qed

end
