(* ===== verification/RequestsApi.thy ===== *)
theory RequestsApi
  imports Eip3009Verifier StageBind
begin

text \<open>
  \<^verbatim>\<open>api-server/src/routes/requests.ts\<close>: the three HTTP routes through which clients reach the Secretariat, and the
  public view of an operation. A handler is a function from the request to the reply and the stores;
  a lookup that throws is an argument. \<open>isUrl\<close> is the URL parser's verdict.
\<close>

section \<open>The request body\<close>

definition asRecord :: "json \<Rightarrow> json option" where
  "asRecord v = (if typeof_object v \<and> v \<noteq> JNull then Some v else None)"

definition max_price_ok :: "string \<Rightarrow> bool" where
  "max_price_ok s = (let a = takeWhile digit_char s; r = dropWhile digit_char s
     in a \<noteq> [] \<and> (r = [] \<or> hd r = CHR ''.'' \<and> isInt (tl r) \<and> length (tl r) \<le> 18))"

fun string_array :: "json \<Rightarrow> string list option" where
  "string_array (JArr vs) = (if list_all is_str vs then Some (map str_of vs) else None)"
| "string_array _ = None"

text \<open>An optional field may be absent; a present one has to have its type.\<close>

definition optional_field :: "(json \<Rightarrow> 'a option) \<Rightarrow> json \<Rightarrow> 'a option option" where
  "optional_field f v = (if v = JUndefined then Some None else map_option Some (f v))"

definition min_string :: "json \<Rightarrow> string option" where
  "min_string v = (if is_str v \<and> str_of v \<noteq> [] then Some (str_of v) else None)"

definition parse_mode :: "json \<Rightarrow> AuthorizationMode option" where
  "parse_mode v = (if v = JStr ''explicit'' then Some Explicit else if v = JStr ''policy-bound'' then Some PolicyBound else None)"

definition parse_transport :: "json \<Rightarrow> PaymentTransport option" where
  "parse_transport v = (if v = JStr ''zeus'' then Some Zeus else if v = JStr ''standard'' then Some Standard else None)"

definition policy_fields :: "json \<Rightarrow> PaymentPolicy option" where
  "policy_fields v =
     (let maxPrice = json_field v ''maxPrice'' in
      if \<not> (is_str maxPrice \<and> max_price_ok (str_of maxPrice)) then None
      else case (string_array (json_field v ''allowedNetworks''), string_array (json_field v ''allowedAssets''),
                 optional_field string_array (json_field v ''allowedSellers''), parse_mode (json_field v ''authorizationMode''),
                 optional_field parse_transport (json_field v ''transport'')) of
           (Some networks, Some assets, Some sellers, Some mode, Some transport) \<Rightarrow> Some
             \<lparr>pol_maxPrice = str_of maxPrice, pol_allowedNetworks = networks, pol_allowedAssets = assets,
              pol_allowedSellers = sellers, pol_authorizationMode = mode, pol_transport = transport\<rparr>
         | _ \<Rightarrow> None)"

definition paymentPolicySchema :: "json \<Rightarrow> PaymentPolicy option" where
  "paymentPolicySchema v = (case v of JObj kvs \<Rightarrow> policy_fields v | _ \<Rightarrow> None)"

definition request_fields :: "(string \<Rightarrow> bool) \<Rightarrow> json \<Rightarrow> ExecuteRequest option" where
  "request_fields isUrl v =
     (let target = json_field v ''target'' in
      if \<not> (is_str target \<and> isUrl (str_of target)) then None
      else case (optional_field min_string (json_field v ''authorizer''), min_string (json_field v ''method''),
                 optional_field min_string (json_field v ''clientId''), optional_field min_string (json_field v ''requestId''),
                 paymentPolicySchema (json_field v ''policy'')) of
           (Some authorizer, Some m, Some clientId, Some requestId, Some policy) \<Rightarrow> Some
             \<lparr>xr_requestId = requestId, xr_clientId = clientId, xr_target = str_of target, xr_method = m,
              xr_payload = json_field v ''payload'', xr_policy = policy, xr_authorizer = authorizer\<rparr>
         | _ \<Rightarrow> None)"

definition createRequestSchema :: "(string \<Rightarrow> bool) \<Rightarrow> json \<Rightarrow> ExecuteRequest option" where
  "createRequestSchema isUrl v = (case v of JObj kvs \<Rightarrow> request_fields isUrl v | _ \<Rightarrow> None)"

section \<open>The public view of an operation\<close>

datatype PublicRequestStatus =
    PS_AWAITING_PAYMENT_SIGNATURE | PS_PROCESSING | PS_COMPLETED | PS_FAILED | PS_UNRESOLVABLE | PS_UNKNOWN

text \<open>The state is read as a word, since operations rebuilt by the database store have words of their own.\<close>

definition publicStatus :: "string \<Rightarrow> ExecutionStatus \<Rightarrow> DeliveryStatus \<Rightarrow> PublicRequestStatus" where
  "publicStatus state ex del =
     (if state \<in> {''AWAITING_SIGNATURE'', ''PENDING_SIGNATURE''} then PS_AWAITING_PAYMENT_SIGNATURE
      else if state \<in> {''SUCCESS'', ''DELIVERED'', ''EXECUTION_CONFIRMED'', ''RECOVERED''} then PS_COMPLETED
      else if state \<in> {''FAILED'', ''POLICY_REJECTED'', ''SETTLEMENT_FAILED'', ''NOT_SETTLED''} then PS_FAILED
      else if state \<in> {''UNRESOLVABLE'', ''UNRESOLVED_MANUAL'', ''INCIDENT''} then PS_UNRESOLVABLE
      else if state \<in> {''EXECUTION_UNKNOWN'', ''DELIVERY_UNKNOWN''} \<or> ex = Ex_UNKNOWN \<or> del = Del_UNKNOWN then PS_UNKNOWN
      else PS_PROCESSING)"

definition publicStatusForOperation :: "Operation \<Rightarrow> PublicRequestStatus" where
  "publicStatusForOperation opn = publicStatus (op_name (op_currentState opn)) (op_executionState opn) (op_deliveryState opn)"

definition first_evidence :: "EvidencePhase \<Rightarrow> string \<Rightarrow> Operation \<Rightarrow> json" where
  "first_evidence ph ev opn = (case find (\<lambda>e. ev_phase e = ph \<and> ev_event e = ev) (op_evidence opn) of
     None \<Rightarrow> JUndefined | Some e \<Rightarrow> ev_payload e)"

definition paymentRequirementFromOperation :: "Operation \<Rightarrow> json option" where
  "paymentRequirementFromOperation opn = asRecord (json_field (first_evidence DISCOVERY ''PAYMENT_REQUIREMENT_RECEIVED'' opn) ''requirement'')"

definition string_field :: "json \<Rightarrow> string \<Rightarrow> string option" where
  "string_field v f = (if is_str (json_field v f) then Some (str_of (json_field v f)) else None)"

definition settlementTxHashFromOperation :: "Operation \<Rightarrow> string option" where
  "settlementTxHashFromOperation opn =
     or_else (Option.bind (op_settlementProof opn) sp_transactionHash)
       (or_else (string_field (json_field (json_field (first_evidence SETTLEMENT ''SETTLEMENT_CONFIRMED'' opn) ''evidenceBundle'')
           ''authorizationUsed'') ''transactionHash'')
         (string_field (first_evidence PAYMENT ''PAYMENT_SUBMITTED'' opn) ''transactionHash''))"

record PublicRequestStatusResponse =
  ps_requestId :: string
  ps_status :: PublicRequestStatus
  ps_paymentRequired :: "json option"
  ps_settlementTxHash :: "string option"
  ps_outcome :: json
  ps_resolvedAt :: "int option"
  ps_evidenceCount :: nat

definition is_final :: "PublicRequestStatus \<Rightarrow> bool" where
  "is_final s = (s \<in> {PS_COMPLETED, PS_FAILED, PS_UNRESOLVABLE})"

definition toPublicRequestStatus :: "Operation \<Rightarrow> PublicRequestStatusResponse" where
  "toPublicRequestStatus opn =
     (let status = publicStatusForOperation opn in
      \<lparr>ps_requestId = op_requestId opn, ps_status = status, ps_paymentRequired = paymentRequirementFromOperation opn,
       ps_settlementTxHash = (if truthy (settlementTxHashFromOperation opn) then settlementTxHashFromOperation opn else None),
       ps_outcome = op_resultData opn,
       ps_resolvedAt = (if is_final status then or_else (ts_completedAt (op_timestamps opn)) (ts_failedAt (op_timestamps opn)) else None),
       ps_evidenceCount = length (op_evidence opn)\<rparr>)"

section \<open>The routes\<close>

datatype ReplyBody =
    ErrorBody string string "string option"
  | StatusBody PublicRequestStatusResponse
  | CreatedBody AwaitingSignature

type_synonym reply = "nat \<times> ReplyBody"

definition sendError :: "nat \<Rightarrow> string \<Rightarrow> string \<Rightarrow> reply" where
  "sendError status code message = (status, ErrorBody code message None)"

definition already_completed :: reply where
  "already_completed = sendError 409 ''REQUEST_ALREADY_COMPLETED'' ''The request has already completed without a payment signature''"

text \<open>\<open>replayFault\<close>: the lookup of the existing operation throws, which is logged and passed over.\<close>

definition post_requests ::
    "(string \<Rightarrow> bool) \<Rightarrow> SecretariatConfig \<Rightarrow> bool \<Rightarrow> json \<Rightarrow> fresh_ids \<Rightarrow> int \<Rightarrow> sec \<Rightarrow> reply \<times> sec" where
  "post_requests isUrl cfg replayFault body ids t c =
     (case createRequestSchema isUrl body of
        None \<Rightarrow> (sendError 400 ''INVALID_REQUEST'' ''Request body is invalid'', c)
      | Some r \<Rightarrow>
          (case createRequest cfg r ids t c of
             (Inl err, c') \<Rightarrow>
               (if starts_with ''REQUEST_COLLISION'' err then sendError 409 ''REQUEST_COLLISION'' err
                else sendError 500 ''SECRETARIAT_REQUEST_FAILED'' ''The request could not be created'', c')
           | (Inr (CR_AWAITING_PAYMENT_SIGNATURE aw), c') \<Rightarrow> ((201, CreatedBody aw), c')
           | (Inr (CR_REJECTED res), c') \<Rightarrow>
               (sendError 422 ''REQUEST_REJECTED'' ''The request was rejected by the payment policy'', c')
           | (Inr (CR_COMPLETED res), c') \<Rightarrow>
               (if res_operationId res = [] \<or> replayFault then already_completed
                else case getOperation (sec_store c') (res_operationId res) of
                       None \<Rightarrow> already_completed
                     | Some opn \<Rightarrow> if is_final (publicStatusForOperation opn) then (200, StatusBody (toPublicRequestStatus opn))
                                  else already_completed, c')))"

definition request_not_found :: reply where
  "request_not_found = sendError 404 ''REQUEST_NOT_FOUND'' ''The request was not found''"

definition get_request :: "bool \<Rightarrow> string \<Rightarrow> string option \<Rightarrow> sec \<Rightarrow> reply" where
  "get_request fault requestId header c =
     (let headerClientId = (case header of None \<Rightarrow> None | Some h \<Rightarrow> nonempty (Some (trim h))) in
      if fault then sendError 500 ''SECRETARIAT_STATUS_LOOKUP_FAILED'' ''The request status could not be loaded''
      else case getOperationByRequestId (sec_store c) requestId None of
             None \<Rightarrow> request_not_found
           | Some opn \<Rightarrow> if truthy (op_clientId opn) \<and> op_clientId opn \<noteq> headerClientId then request_not_found
                        else (200, StatusBody (toPublicRequestStatus opn)))"

text \<open>\<open>verifyFault\<close> and \<open>lookupFault\<close>: the verifier or the last lookup throws.\<close>

definition continuation_failed :: "exn \<Rightarrow> reply" where
  "continuation_failed err =
     (if starts_with ''PAYMENT_PAYLOAD_RETRY_MISMATCH'' err
      then sendError 409 ''PAYMENT_PAYLOAD_RETRY_MISMATCH'' ''The payment payload does not match the previously accepted payload''
      else sendError 409 ''PAYMENT_CONTINUATION_FAILED'' ''The verified payment could not continue'')"

definition post_payment ::
    "SecretariatConfig \<Rightarrow> VerifierConfig option \<Rightarrow> bool \<Rightarrow> bool \<Rightarrow> string \<Rightarrow> json \<Rightarrow> fresh_ids \<Rightarrow> int \<Rightarrow> sec \<Rightarrow> reply \<times> sec" where
  "post_payment cfg verifier verifyFault lookupFault requestId p ids t c =
     (case verifier of
        None \<Rightarrow> (sendError 503 ''PAYMENT_VERIFICATION_UNAVAILABLE'' ''Payment verification is not configured'', c)
      | Some v \<Rightarrow>
          (if verifyFault then (sendError 500 ''PAYMENT_VERIFICATION_FAILED'' ''The signed payment could not be verified'', c)
           else case verify v requestId p t (sec_store c) of
             (Invalid rid code message field, st) \<Rightarrow>
               (if code = REQUEST_NOT_FOUND then request_not_found
                else if code = PERSISTED_INTENT_LOOKUP_UNAVAILABLE
                then sendError 503 ''PAYMENT_VERIFICATION_UNAVAILABLE'' ''Payment verification is not configured correctly''
                else (422, ErrorBody (code_name code) message (nonempty field)), c\<lparr>sec_store := st\<rparr>)
           | (Verified rid k a, st) \<Rightarrow>
               (case submitSignedPayment cfg requestId p ids t (c\<lparr>sec_store := st\<rparr>) of
                  (Inl err, c') \<Rightarrow> (continuation_failed err, c')
                | (Inr res, c') \<Rightarrow>
                    (if lookupFault then sendError 500 ''SECRETARIAT_STATUS_LOOKUP_FAILED'' ''The payment status could not be loaded''
                     else case getOperationByRequestId (sec_store c') requestId None of
                            None \<Rightarrow> request_not_found
                          | Some opn \<Rightarrow> (200, StatusBody (toPublicRequestStatus opn)), c'))))"

section \<open>Frames and shapes\<close>

lemma verify_frame:
  assumes "verify v k p t st = (result, st')"
  shows "ms_intents st' = ms_intents st" "ms_operations st' = ms_operations st"
  using assms by (auto simp: verify_def recordObservation_def append_evidence_def split: prod.splits)

lemma max_price_decimal: "max_price_ok s \<Longrightarrow> isDecimal s"
  by (auto simp: max_price_ok_def isDecimal_def Let_def)

lemma trim_unblank: "(\<And>c. c \<in> set s \<Longrightarrow> \<not> is_blank c) \<Longrightarrow> trim s = s"
proof -
  assume "\<And>c. c \<in> set s \<Longrightarrow> \<not> is_blank c"
  then have "dropWhile is_blank xs = xs" if "set xs = set s" for xs
    using that by (cases xs) auto
  then show ?thesis by (simp add: trim_def)
qed

lemma max_price_trim:
  assumes "max_price_ok s"
  shows "trim s = s"
proof (rule trim_unblank)
  fix c assume "c \<in> set s"
  from assms have "isDecimal s" by (rule max_price_decimal)
  then show "\<not> is_blank c"
  proof (cases rule: isDecimal_cases)
    case int
    with \<open>c \<in> set s\<close> show ?thesis by (auto simp: isInt_def list_all_iff dest: digit_not_blank)
  next
    case (dotted a f)
    have "\<not> is_blank CHR ''.''" by (simp add: is_blank_def char_code_def)
    with dotted \<open>c \<in> set s\<close> show ?thesis by (auto simp: isInt_def list_all_iff dest: digit_not_blank)
  qed
qed

lemma policy_schema:
  assumes "paymentPolicySchema v = Some pol"
  shows "max_price_ok (pol_maxPrice pol)"
proof -
  from assms have "policy_fields v = Some pol" by (cases v) (simp_all add: paymentPolicySchema_def)
  then show ?thesis unfolding policy_fields_def Let_def by (simp split: if_splits option.splits) (drule sym, simp)
qed

lemma optional_min_string: "optional_field min_string v = Some x \<Longrightarrow> x \<noteq> Some []"
  by (auto simp: optional_field_def min_string_def split: if_splits)

section \<open>Final states\<close>

lemma final_step:
  assumes "isValidTransition s u" "is_final (publicStatus (op_name s) ex del)" "s \<noteq> Op_EXECUTION_CONFIRMED"
  shows "publicStatus (op_name u) ex' del' = publicStatus (op_name s) ex del \<and> u \<noteq> Op_EXECUTION_CONFIRMED"
  using assms by (cases s) (auto simp: publicStatus_def is_final_def isValidTransition_def split: if_splits)

lemma final_run:
  assumes "fsm_run s ts" "is_final (publicStatus (op_name s) ex del)" "s \<noteq> Op_EXECUTION_CONFIRMED"
  shows "\<forall>u \<in> set ts. publicStatus (op_name u) ex' del' = publicStatus (op_name s) ex del"
  using assms
proof (induction arbitrary: ex del rule: fsm_run.induct)
  case (run_cons s t ts)
  from final_step [OF run_cons(1,4,5), of ex' del'] run_cons.IH [of ex' del'] run_cons(4) show ?case by simp
qed simp

section \<open>Properties\<close>

text \<open>
  Property C12. The payment route acts on verified payments only: whatever is sent to it, if it changes an intent, an
  operation, an attempt or a job, then the change is the submission of the very payload that was sent, and that
  payload carries a valid typed-data signature of the payer over the payee, amount, nonce and validity window of the
  durable intent of that request, and names its network and asset.
\<close>

theorem payment_route_acts_on_verified_only:
  assumes "post_payment cfg verifier vf lf k p ids t c = (reply, c')"
    and "ms_intents (sec_store c') \<noteq> ms_intents (sec_store c) \<or> ms_operations (sec_store c') \<noteq> ms_operations (sec_store c) \<or>
      sec_exec c' \<noteq> sec_exec c"
  shows "\<exists>v i domain m. verifier = Some v \<and> getPaymentIntentByRequestId (sec_store c) k = Some i \<and> vc_domain v i = Inr domain \<and>
    c' = snd (submitSignedPayment cfg k p ids t (c\<lparr>sec_store := snd (verify v k p t (sec_store c))\<rparr>)) \<and>
    signed_message (authorization_of p) = Some m \<and>
    vc_verifyTypedData v (va_from m) (signed_data domain m) (str_of (json_field (json_field p ''payload'') ''signature'')) = Inr True \<and>
    toLowerCase (va_from m) = toLowerCase (pi_authorizer i) \<and> toLowerCase (va_to m) = toLowerCase (pi_payTo i) \<and>
    Some (va_value m) = BigInt_literal (pi_value i) \<and> toLowerCase (va_nonce m) = toLowerCase (pi_nonce i) \<and>
    va_validAfter m = pi_validAfter i \<and> va_validBefore m = pi_validBefore i \<and>
    toLowerCase (dm_verifyingContract domain) = toLowerCase (pi_asset i) \<and>
    same (json_field (json_field p ''accepted'') ''network'') (JStr (pi_network i)) \<and>
    same (json_field (json_field p ''accepted'') ''asset'') (JStr (pi_asset i))"
proof -
  obtain v where v: "verifier = Some v" using assms by (cases verifier) (auto simp: post_payment_def)
  obtain result st where ver: "verify v k p t (sec_store c) = (result, st)" by (cases "verify v k p t (sec_store c)")
  show ?thesis
  proof (cases result)
    case (Verified r i a)
    with ver have "fst (verify v k p t (sec_store c)) = Verified r i a" by simp
    note signed = verdict_signed [OF this, unfolded Let_def]
    have vf: "\<not> vf" using assms v by (auto simp: post_payment_def)
    have st: "snd (verify v k p t (sec_store c)) = st" by (simp add: ver)
    have "c' = snd (submitSignedPayment cfg k p ids t (c\<lparr>sec_store := st\<rparr>))"
      using assms(1) v vf ver Verified
      by (cases "submitSignedPayment cfg k p ids t (c\<lparr>sec_store := st\<rparr>)") (auto simp: post_payment_def split: sum.splits if_splits option.splits)
    then have "c' = snd (submitSignedPayment cfg k p ids t (c\<lparr>sec_store := snd (verify v k p t (sec_store c))\<rparr>))" unfolding st .
    with signed v show ?thesis by blast
  next
    case (Invalid rid code message field)
    with assms v ver verify_frame [OF ver] show ?thesis by (auto simp: post_payment_def split: if_splits)
  qed
qed

definition api_sec :: sec where
  "api_sec = \<lparr>sec_store = saveOperation (pending_operation\<lparr>op_operationId := ''op1''\<rparr>) payload_store, sec_exec = empty_exec, sec_cursors = []\<rparr>"

theorem payment_route_acts_on_verified_only_witness:
  "fst (fst (post_payment accepting_config (Some demo_verifier) False False ''r1'' demo_payload sample_ids 6 api_sec)) = 200 \<and>
   (\<exists>i (m :: VerifiedAuthorization). getPaymentIntentByRequestId (sec_store api_sec) ''r1'' = Some i \<and> Some (va_value m) = BigInt_literal (pi_value i) \<and>
      toLowerCase (va_to m) = toLowerCase (pi_payTo i))"
proof -
  let ?r = "post_payment accepting_config (Some demo_verifier) False False ''r1'' demo_payload sample_ids 6 api_sec"
  have run: "(case ?r of (reply, c) \<Rightarrow> fst reply = 200 \<and>
      map_option pi_settlementState (mem_intent (sec_store c) ''pi1'') = Some St_AUTHORIZED)" by code_simp
  then have ok: "fst (fst ?r) = 200" by (simp add: case_prod_beta)
  from run have "map_option pi_settlementState (mem_intent (sec_store (snd ?r)) ''pi1'') = Some St_AUTHORIZED" by (simp add: case_prod_beta)
  moreover have "map_option pi_settlementState (mem_intent (sec_store api_sec) ''pi1'') = Some St_PENDING_SIGNATURE" by code_simp
  ultimately have "ms_intents (sec_store (snd ?r)) \<noteq> ms_intents (sec_store api_sec)" by (auto simp: mem_intent_def)
  with payment_route_acts_on_verified_only [OF surjective_pairing [of ?r]] ok show ?thesis by blast
qed

text \<open>
  Property C20. The status of a client's request is told to that client only: with any other header, or none, the
  reply is the very reply to a request that does not exist.
\<close>

theorem status_only_to_its_client:
  assumes "getOperationByRequestId (sec_store c) k None = Some opn" "op_clientId opn = Some cid" "cid \<noteq> []"
    and "map_option trim header \<noteq> Some cid" "getOperationByRequestId (sec_store c2) k2 None = None"
  shows "get_request False k header c = get_request False k2 header c2 \<and> fst (get_request False k header c) = 404"
proof -
  have "Some cid \<noteq> (case header of None \<Rightarrow> None | Some h \<Rightarrow> nonempty (Some (trim h)))"
    using assms(4) by (cases header) (auto simp: nonempty_def)
  with assms(1-3) have "get_request False k header c = request_not_found" by (simp add: get_request_def truthy_def)
  moreover have "get_request False k2 header c2 = request_not_found" by (simp add: get_request_def assms(5))
  ultimately show ?thesis by (simp add: request_not_found_def sendError_def)
qed

theorem status_only_to_its_client_witness:
  "fst (get_request False ''r1'' (Some ''mallory'') (api_sec\<lparr>sec_store :=
     saveOperation (pending_operation\<lparr>op_clientId := Some ''alice''\<rparr>) empty_store\<rparr>)) = 404"
proof -
  let ?c = "api_sec\<lparr>sec_store := saveOperation (pending_operation\<lparr>op_clientId := Some ''alice''\<rparr>) empty_store\<rparr>"
  have "getOperationByRequestId (sec_store ?c) ''r1'' None = Some (pending_operation\<lparr>op_clientId := Some ''alice''\<rparr>)"
    "getOperationByRequestId (sec_store ?c) ''r2'' None = None" by code_simp+
  moreover have "op_clientId (pending_operation\<lparr>op_clientId := Some ''alice''\<rparr>) = Some ''alice''" "''alice'' \<noteq> []"
    "map_option trim (Some ''mallory'') \<noteq> Some ''alice''" by code_simp+
  ultimately show ?thesis using status_only_to_its_client [of ?c "''r1''" _ _ "Some ''mallory''"] by metis
qed

text \<open>
  What the public status says at the end stays true: along every run of the state machine a completed,
  failed or unresolvable request keeps that status - except that EXECUTION_CONFIRMED is already shown
  as completed and can still fail.
\<close>

theorem public_status_is_final:
  assumes "is_final (publicStatus (op_name s) ex del)" "fsm_run s (ts @ [s'])"
  shows "publicStatus (op_name s') ex' del' = publicStatus (op_name s) ex del \<or>
    s = Op_EXECUTION_CONFIRMED \<and> publicStatus (op_name s') ex' del' = PS_FAILED"
proof (cases "s = Op_EXECUTION_CONFIRMED")
  case False
  from final_run [OF assms(2,1) False] show ?thesis by simp
next
  case True
  have comp: "publicStatus (op_name s) ex del = PS_COMPLETED" by (simp add: True publicStatus_def)
  from assms(2) obtain u rest where u: "ts @ [s'] = u # rest" "isValidTransition s u" "fsm_run u rest" by (cases ts) auto
  from u(2) have "u = Op_DELIVERED \<or> u = Op_FAILED" by (simp add: True isValidTransition_def)
  then have fin: "is_final (publicStatus (op_name u) ex' del')" and ne: "u \<noteq> Op_EXECUTION_CONFIRMED"
    and st: "publicStatus (op_name u) ex' del' = PS_COMPLETED \<or> publicStatus (op_name u) ex' del' = PS_FAILED"
    by (auto simp: publicStatus_def is_final_def)
  have "s' \<in> set (u # rest)" unfolding u(1) [symmetric] by simp
  with final_run [OF u(3) fin ne, of ex' del'] have "publicStatus (op_name s') ex' del' = publicStatus (op_name u) ex' del'" by auto
  with st comp True show ?thesis by metis
qed

theorem public_status_is_final_witness:
  "publicStatus (op_name Op_SUCCESS) Ex_CONFIRMED Del_DELIVERED = publicStatus (op_name Op_DELIVERED) Ex_CONFIRMED Del_DELIVERED"
proof -
  have "is_final (publicStatus (op_name Op_DELIVERED) Ex_CONFIRMED Del_DELIVERED)" "fsm_run Op_DELIVERED ([] @ [Op_SUCCESS])"
    by (simp_all add: is_final_def publicStatus_def isValidTransition_def)
  from public_status_is_final [OF this, of Ex_CONFIRMED Del_DELIVERED] show ?thesis by simp
qed

text \<open>
  Property C33. A body the API accepts is a well-formed request: a valid target, a method, no empty identifier, and a
  maximum price that the policy check compares as a number.
\<close>

theorem accepted_body_is_well_formed:
  assumes "createRequestSchema isUrl body = Some r"
  shows "isUrl (xr_target r) \<and> xr_method r \<noteq> [] \<and> xr_clientId r \<noteq> Some [] \<and> xr_requestId r \<noteq> Some [] \<and>
    isDecimal (trim (pol_maxPrice (xr_policy r)))"
proof -
  from assms have "request_fields isUrl body = Some r" by (cases body) (simp_all add: createRequestSchema_def)
  then have p: "paymentPolicySchema (json_field body ''policy'') = Some (xr_policy r)"
    "min_string (json_field body ''method'') = Some (xr_method r)"
    "optional_field min_string (json_field body ''clientId'') = Some (xr_clientId r)"
    "optional_field min_string (json_field body ''requestId'') = Some (xr_requestId r)" "isUrl (xr_target r)"
    unfolding request_fields_def Let_def by (simp_all split: if_splits option.splits) (drule sym, simp)+
  note price = policy_schema [OF p(1)]
  from p(2) have "xr_method r \<noteq> []" by (auto simp: min_string_def split: if_splits)
  with p(5) optional_min_string [OF p(3)] optional_min_string [OF p(4)] max_price_decimal [OF price] max_price_trim [OF price]
  show ?thesis by simp
qed

definition sample_body :: json where
  "sample_body = JObj [(''target'', JStr ''https://s/x''), (''method'', JStr ''POST''), (''requestId'', JStr ''r1''),
     (''policy'', JObj [(''maxPrice'', JStr ''1.25''), (''allowedNetworks'', JArr [JStr ''base'']), (''allowedAssets'', JArr []),
        (''authorizationMode'', JStr ''explicit'')])]"

theorem accepted_body_is_well_formed_witness:
  "\<exists>r. createRequestSchema (starts_with ''https://'') sample_body = Some r \<and> isDecimal (trim (pol_maxPrice (xr_policy r)))"
proof -
  have "createRequestSchema (starts_with ''https://'') sample_body \<noteq> None" by code_simp
  then obtain r where r: "createRequestSchema (starts_with ''https://'') sample_body = Some r" by blast
  from accepted_body_is_well_formed [OF r] r show ?thesis by blast
qed

section \<open>Two clients, one request id\<close>

text \<open>
  Request ids are unique per client only, but the status is looked up by the request id alone: a client whose
  id another client used first never sees its own request.
\<close>

theorem other_clients_request_hidden:
  assumes "js_values (ms_operations (sec_store c)) = opn1 # rest" "op_requestId opn1 = k" "op_clientId opn1 = Some cid1" "cid1 \<noteq> []"
    and "opn2 \<in> set rest" "op_requestId opn2 = k" "op_clientId opn2 = Some cid2" "cid2 \<noteq> cid1" "trim h = cid2"
  shows "get_request False k (Some h) c = request_not_found \<and> (\<exists>opn. getOperationByRequestId (sec_store c) k (Some cid2) = Some opn)"
proof -
  have "getOperationByRequestId (sec_store c) k None = Some opn1" using assms by (simp add: getOperationByRequestId_def)
  moreover have "nonempty (Some (trim h)) \<noteq> Some cid1" using assms(8,9) by (simp add: nonempty_def)
  ultimately have "get_request False k (Some h) c = request_not_found"
    by (simp add: get_request_def truthy_def assms(3,4))
  moreover have "getOperationByRequestId (sec_store c) k (Some cid2) \<noteq> None"
    unfolding getOperationByRequestId_def assms(1) find_None_iff using assms(5-7) by auto
  ultimately show ?thesis by blast
qed

end
