(* ===== verification/SellerHttp.thy ===== *)
theory SellerHttp
  imports EgressGuard SellerCalls Secretariat FacilitatorClient
begin

text \<open>
  \<^verbatim>\<open>adapters/seller-execution-adapter.ts\<close>: the one place where the engine's requests leave the process for a seller.
  The network is a parameter: it answers a request with the head of a response, or fails with a message and
  the code of the underlying cause. Reading the body, which may fail on its own, is part of the response.
\<close>

section \<open>A request and what becomes of it\<close>

record seller_init =
  sl_method :: string
  sl_headers :: "(string \<times> string) list"
  sl_body :: "string option"

record net_error =
  ne_message :: string
  ne_causeCode :: "string option"

text \<open>\<open>hr_text = None\<close>: the stream breaks before the body is complete.\<close>

record http_response =
  hr_status :: int
  hr_text :: "string option"
  hr_headers :: "(string \<times> string) list"

type_synonym network = "seller_init FetchCall \<Rightarrow> net_error + http_response"

text \<open>\<open>headers\<close>, like \<open>requestTimeoutMs\<close> below: optional fields of a request that the engine leaves out. They override.\<close>

definition seller_init_of :: "(string \<times> string) list \<Rightarrow> SellerExecutionRequest \<Rightarrow> seller_init" where
  "seller_init_of headers r =
     \<lparr>sl_method = rq_method r,
      sl_headers = foldl (\<lambda>m (k, v). js_set k v m)
        [(''Content-Type'', ''application/json''), (''Idempotency-Key'', rq_idempotencyKey r)] headers,
      sl_body = (if json_truthy (rq_body r) then Some (JSON_stringify (rq_body r)) else None)\<rparr>"

text \<open>The body, read once as text: parsed when it is JSON, else kept as evidence, cut to 2000 characters.\<close>

definition response_body :: "(string \<Rightarrow> json option) \<Rightarrow> string \<Rightarrow> json" where
  "response_body parse raw =
     (let trimmed = trim raw in
      if trimmed = [] then JUndefined
      else case parse trimmed of Some v \<Rightarrow> v | None \<Rightarrow> JObj [(''raw'', JStr (take 2000 trimmed))])"

definition response_ok :: "http_response \<Rightarrow> bool" where
  "response_ok resp = (200 \<le> hr_status resp \<and> hr_status resp \<le> 299)"

definition classify_response :: "(string \<Rightarrow> json option) \<Rightarrow> http_response \<Rightarrow> int \<Rightarrow> SellerExecutionResult" where
  "classify_response parse resp ms =
     (case hr_text resp of
        None \<Rightarrow> SR_DELIVERY_UNKNOWN ''RESPONSE_STREAM_FAILED''
          (''2xx status received but the response body stream failed (status '' @ string_of_int (hr_status resp) @ '')'') ms
      | Some raw \<Rightarrow>
          (if response_ok resp then SR_SUCCESS (hr_status resp) (response_body parse raw) (hr_headers resp) ms
           else SR_HTTP_FAILURE (hr_status resp) (response_body parse raw) (hr_headers resp) ms))"

definition error_reason :: "net_error \<Rightarrow> string" where
  "error_reason e =
     (let cause = opt_default [] (ne_causeCode e); haystack = toLowerCase (ne_message e @ '' '' @ cause) in
      if cause = ''ECONNRESET'' \<or> contains ''econnreset'' haystack \<or> contains ''connection reset'' haystack then ''CONNECTION_RESET''
      else if cause = ''ENOTFOUND'' \<or> contains ''enotfound'' haystack \<or> cause = ''EAI_AGAIN'' \<or> contains ''dns'' haystack
      then ''DNS_RESOLUTION_FAILED''
      else if contains ''abort'' haystack \<or> contains ''timeout'' haystack \<or> cause = ''ETIMEDOUT'' \<or> cause = ''UND_ERR_ABORTED'' then ''TIMEOUT''
      else if cause = ''ECONNREFUSED'' \<or> contains ''econnrefused'' haystack then ''CONNECTION_RESET''
      else ''RESPONSE_STREAM_FAILED'')"

text \<open>
  \<open>execute\<close> with the duration the clock measures. The abort signal ends the call after \<open>timeoutMs\<close>; the guard
  adds its own.
\<close>

definition http_execute ::
    "(string \<Rightarrow> ParsedUrl option) \<Rightarrow> (string \<Rightarrow> exn + string list) \<Rightarrow> env \<Rightarrow> (string \<Rightarrow> json option) \<Rightarrow> network \<Rightarrow> (string \<times> string) list \<Rightarrow>
     int option \<Rightarrow> int \<Rightarrow> int \<Rightarrow> SellerExecutionRequest \<Rightarrow> SellerExecutionResult" where
  "http_execute parseUrl lookup e parse net headers requestTimeoutMs defaultTimeoutMs ms r =
     (let timeoutMs = opt_default defaultTimeoutMs requestTimeoutMs in
      case egressFetch parseUrl lookup (\<lambda>call. Inr (net call)) e (rq_url r) (seller_init_of headers r) (Some (''abort after '' @ string_of_int timeoutMs)) of
        Inl blocked \<Rightarrow> SR_DELIVERY_UNKNOWN ''EGRESS_BLOCKED'' blocked ms
      | Inr (Inl err) \<Rightarrow> SR_DELIVERY_UNKNOWN (error_reason err) (ne_message err) ms
      | Inr (Inr resp) \<Rightarrow> classify_response parse resp ms)"

section \<open>What it does\<close>

definition guarded_call :: "(string \<Rightarrow> ParsedUrl option) \<Rightarrow> (string \<Rightarrow> exn + string list) \<Rightarrow> env \<Rightarrow> string \<Rightarrow> seller_init FetchCall \<Rightarrow> bool" where
  "guarded_call parseUrl lookup e key call =
     (destination_ok parseUrl lookup e (fe_url call) \<and> js_get (sl_headers (fe_init call)) ''Idempotency-Key'' = Some key \<and>
      Timeout_signal 15000 \<in> set (fe_signals call) \<and> fe_redirect call = ''error'')"

lemma key_kept:
  assumes "''Idempotency-Key'' \<notin> fst ` set headers"
  shows "js_get (sl_headers (seller_init_of headers r)) ''Idempotency-Key'' = Some (rq_idempotencyKey r)"
proof -
  have "js_get (foldl (\<lambda>m (k, v). js_set k v m) m headers) ''Idempotency-Key'' = js_get m ''Idempotency-Key''" for m
    using assms by (induction headers arbitrary: m) auto
  then show ?thesis by (simp add: seller_init_of_def js_get_def)
qed

lemma http_execute_cases [consumes 1]:
  assumes "''Idempotency-Key'' \<notin> fst ` set headers"
  obtains (blocked) err where "\<not> destination_ok parseUrl lookup e (rq_url r)"
      "\<And>net. http_execute parseUrl lookup e parse net headers q d ms r = SR_DELIVERY_UNKNOWN ''EGRESS_BLOCKED'' err ms"
    | (asked) call where "destination_ok parseUrl lookup e (rq_url r)" "fe_url call = rq_url r" "fe_init call = seller_init_of headers r"
      "guarded_call parseUrl lookup e (rq_idempotencyKey r) call"
      "\<And>net. http_execute parseUrl lookup e parse net headers q d ms r =
        (case net call of Inl err \<Rightarrow> SR_DELIVERY_UNKNOWN (error_reason err) (ne_message err) ms | Inr resp \<Rightarrow> classify_response parse resp ms)"
proof (cases "assertEgressAllowed parseUrl lookup e (rq_url r)")
  case (Inl err)
  then have "\<not> destination_ok parseUrl lookup e (rq_url r)" by (metis assertEgressAllowed_iff sum.distinct(1))
  with Inl blocked show thesis by (simp add: http_execute_def egressFetch_def)
next
  case (Inr u)
  let ?call = "\<lparr>fe_url = rq_url r, fe_init = seller_init_of headers r,
     fe_signals = [Caller_signal (''abort after '' @ string_of_int (opt_default d q)), Timeout_signal 15000], fe_redirect = ''error''\<rparr>"
  have ok: "destination_ok parseUrl lookup e (rq_url r)" using Inr by (metis assertEgressAllowed_iff old.unit.exhaust)
  have "guarded_call parseUrl lookup e (rq_idempotencyKey r) ?call" by (simp add: guarded_call_def ok key_kept [OF assms])
  with Inr ok asked [of ?call] show thesis by (simp add: http_execute_def egressFetch_def DEFAULT_EGRESS_TIMEOUT_MS_def)
qed

section \<open>Properties\<close>


definition open_env :: env where "open_env = (\<lambda>k. if k = ''ZEUS_EGRESS_POLICY'' then Some ''allow-all'' else None)"

definition answering :: network where
  "answering call = (if sl_method (fe_init call) = ''POST'' then Inr \<lparr>hr_status = 200, hr_text = Some [], hr_headers = []\<rparr>
     else Inl \<lparr>ne_message = ''fetch failed'', ne_causeCode = Some ''ECONNRESET''\<rparr>)"

definition paid_request :: "string \<Rightarrow> SellerExecutionRequest" where
  "paid_request m = \<lparr>rq_idempotencyKey = ''op1'', rq_url = ''https://s'', rq_method = m, rq_body = JUndefined\<rparr>"


text \<open>
  Property C10. Whatever the engine does with a job, it asks the network only for admitted destinations, without
  redirects and with at most fifteen seconds of patience: two networks that agree on such requests
  cannot be told apart by it.
\<close>

theorem engine_asks_admitted_destinations_only:
  assumes "\<And>call key. guarded_call parseUrl lookup e key call \<Longrightarrow> net call = net' call"
  shows "processJob cfg (\<lambda>_. http_execute parseUrl lookup e parse net [] q d ms) k t w =
    processJob cfg (\<lambda>_. http_execute parseUrl lookup e parse net' [] q d ms) k t w"
proof -
  have "http_execute parseUrl lookup e parse net [] q d ms r = http_execute parseUrl lookup e parse net' [] q d ms r" for r
    by (rule http_execute_cases [of "[]" parseUrl lookup e r parse q d ms]) (auto simp: assms)
  then have "(\<lambda>_ :: seller_call list. http_execute parseUrl lookup e parse net [] q d ms) = (\<lambda>_. http_execute parseUrl lookup e parse net' [] q d ms)"
    by auto
  then show ?thesis by (rule arg_cong)
qed

theorem engine_asks_admitted_destinations_only_witness:
  "processJob sample_pse (\<lambda>_. http_execute (\<lambda>_. None) (\<lambda>_. Inr []) (\<lambda>_. None) (\<lambda>_. None) answering [] None 30000 3) sample_job_id 6 sample_initiated =
   processJob sample_pse (\<lambda>_. http_execute (\<lambda>_. None) (\<lambda>_. Inr []) (\<lambda>_. None) (\<lambda>_. None) (\<lambda>_. Inl \<lparr>ne_message = [], ne_causeCode = None\<rparr>) [] None 30000 3)
     sample_job_id 6 sample_initiated"
proof (rule engine_asks_admitted_destinations_only)
  fix call :: "seller_init FetchCall" and key
  assume "guarded_call (\<lambda>_. None) (\<lambda>_. Inr []) (\<lambda>_. None) key call"
  moreover have block: "egressPolicy (\<lambda>_. None) = Block_private" by code_simp
  moreover have "\<not> destination_ok (\<lambda>_. None) (\<lambda>_. Inr []) (\<lambda>_. None) url" for url
    using block by (simp add: destination_ok_def)
  ultimately show "answering call = Inl \<lparr>ne_message = [], ne_causeCode = None\<rparr>" by (simp add: guarded_call_def)
qed

end
