(* ===== verification/Signers.thy ===== *)
theory Signers
  imports PgIntents Eip3009Verifier SignerFlow TextHelpers "HOL-Library.Word"
begin

text \<open>
  Nonces and signing domains: \<^verbatim>\<open>core/nonce-generator.ts\<close>, the local signer of \<^verbatim>\<open>adapters/local-eoa-signer.ts\<close>, and the
  domain the API server resolves for the verifier in \<^verbatim>\<open>api-server/src/lib/secretariat-composition.ts\<close>. Random
  bytes, the account of a private key and the wallet's signature are parameters.
\<close>

section \<open>Nonces\<close>

definition hex_byte :: "8 word \<Rightarrow> string" where
  "hex_byte b = [hex_char (unat b div 16), hex_char (unat b mod 16)]"

definition generate :: "8 word list \<Rightarrow> string" where
  "generate bytes = ''0x'' @ concat (map hex_byte bytes)"

lemma byte_digits: "unat (b :: 8 word) div 16 < 16" "unat (b :: 8 word) mod 16 < 16"
  using unsigned_less [of b, where ?'a = nat] by (simp_all add: less_mult_imp_div_less)

lemma hex_char_inj: "hex_char m = hex_char n \<Longrightarrow> m < 16 \<Longrightarrow> n < 16 \<Longrightarrow> m = n"
  using hex_value_hex_char by (metis of_nat_eq_iff option.inject)

lemma hex_byte_inj: "hex_byte a = hex_byte b \<Longrightarrow> a = b"
proof -
  assume "hex_byte a = hex_byte b"
  then have "unat a div 16 = unat b div 16" "unat a mod 16 = unat b mod 16"
    using byte_digits [of a] byte_digits [of b] by (auto simp: hex_byte_def dest: hex_char_inj)
  then have "unat a = unat b" by (metis mult_div_mod_eq)
  then show ?thesis by (simp add: word_eq_iff_unsigned [where ?'a = nat])
qed

lemma concat_hex_inj: "length a = length b \<Longrightarrow> concat (map hex_byte a) = concat (map hex_byte b) \<Longrightarrow> a = b"
proof (induction a b rule: list_induct2)
  case (Cons x xs y ys)
  then have "hex_byte x = hex_byte y" "concat (map hex_byte xs) = concat (map hex_byte ys)"
    by (simp_all add: hex_byte_def)
  with Cons.IH hex_byte_inj show ?case by simp
qed simp

lemma concat_hex:
  "length (concat (map hex_byte bytes)) = 2 * length bytes" "list_all is_hex (concat (map hex_byte bytes))"
  by (induction bytes) (simp_all add: hex_byte_def is_hex_def byte_digits)

section \<open>The registry of nonces\<close>

text \<open>A run of reservations, each an operation id and a nonce.\<close>

fun reserve_all ::
    "(string \<Rightarrow> string \<Rightarrow> 'st \<Rightarrow> ('e + unit) \<times> 'st) \<Rightarrow> (string \<times> string) list \<Rightarrow> 'st \<Rightarrow> ('e + unit) list \<times> 'st" where
  "reserve_all reserve [] st = ([], st)"
| "reserve_all reserve ((opId, n) # calls) st =
     (case reserve opId n st of (r, st1) \<Rightarrow> (case reserve_all reserve calls st1 of (rs, st2) \<Rightarrow> (r # rs, st2)))"

definition winners :: "string \<Rightarrow> (string \<times> string) list \<Rightarrow> ('e + unit) list \<Rightarrow> string list" where
  "winners n calls rs = map (fst \<circ> fst) (filter (\<lambda>((opId, m), r). m = n \<and> r = Inr ()) (zip calls rs))"

text \<open>What every provider of reservations promises: the first one wins, and nothing changes on a refusal.\<close>

locale nonce_register =
  fixes holder :: "'st \<Rightarrow> string \<Rightarrow> string option"
    and reserve :: "string \<Rightarrow> string \<Rightarrow> 'st \<Rightarrow> ('e + unit) \<times> 'st"
  assumes reserve_free: "holder st n = None \<Longrightarrow> reserve opId n st = (r, st') \<Longrightarrow> r = Inr () \<and> holder st' = (holder st)(n \<mapsto> opId)"
    and reserve_held: "holder st n = Some h \<Longrightarrow> \<exists>e. reserve opId n st = (Inl e, st)"
begin

lemma reserve_keeps: "holder st n = Some h \<Longrightarrow> holder (snd (reserve opId m st)) n = Some h"
proof (cases "holder st m")
  case None
  assume h: "holder st n = Some h"
  obtain r st' where r: "reserve opId m st = (r, st')" by fastforce
  from reserve_free [OF None r] h None show ?thesis by (auto simp: r)
next
  case (Some h')
  assume "holder st n = Some h"
  with reserve_held [OF Some, of opId] show ?thesis by auto
qed

lemma held_stays:
  assumes "holder st n = Some h"
  shows "holder (snd (reserve_all reserve calls st)) n = Some h \<and>
    (\<forall>((opId, m), r) \<in> set (zip calls (fst (reserve_all reserve calls st))). m = n \<longrightarrow> r \<noteq> Inr ())"
  using assms
proof (induction calls arbitrary: st)
  case (Cons c calls)
  obtain opId m where c: "c = (opId, m)" by fastforce
  obtain r st1 where r: "reserve opId m st = (r, st1)" by fastforce
  obtain rs st2 where rs: "reserve_all reserve calls st1 = (rs, st2)" by fastforce
  have "holder st1 n = Some h" using reserve_keeps [OF Cons.prems, of opId m] by (simp add: r)
  with Cons.IH [of st1] have rest: "holder st2 n = Some h" "\<forall>((opId, m), r) \<in> set (zip calls rs). m = n \<longrightarrow> r \<noteq> Inr ()"
    by (simp_all add: rs)
  have "r \<noteq> Inr ()" if "m = n" using reserve_held [OF Cons.prems, of opId] r that by auto
  with rest show ?case by (simp add: c r rs)
qed simp

lemma one_reservation:
  "length (winners n calls (fst (reserve_all reserve calls st))) \<le> 1"
  unfolding winners_def
proof (induction calls arbitrary: st)
  case (Cons c calls)
  obtain opId m where c: "c = (opId, m)" by fastforce
  obtain r st1 where r: "reserve opId m st = (r, st1)" by fastforce
  obtain rs st2 where rs: "reserve_all reserve calls st1 = (rs, st2)" by fastforce
  show ?case
  proof (cases "m = n \<and> r = Inr ()")
    case True
    have "holder st n = None" using reserve_held [of st n _ opId] r True by (cases "holder st n") auto
    with reserve_free [OF _ r] True have "holder st1 n = Some opId" by simp
    from held_stays [OF this, of calls] have "filter (\<lambda>((opId, m), r). m = n \<and> r = Inr ()) (zip calls rs) = []"
      by (auto simp: filter_empty_conv rs)
    then show ?thesis by (simp add: c r rs)
  next
    case False
    with Cons.IH [of st1] show ?thesis by (auto simp: c r rs)
  qed
qed simp

end

definition registry_reserveNonce :: "string \<Rightarrow> string \<Rightarrow> (string, string) jsmap \<Rightarrow> (exn + unit) \<times> (string, string) jsmap" where
  "registry_reserveNonce operationId nonce m =
     (case js_get m nonce of
        Some holder \<Rightarrow> (Inl (''Nonce '' @ nonce @ '' already reserved for operation '' @ holder), m)
      | None \<Rightarrow> (Inr (), js_set nonce operationId m))"

definition isNonceReserved :: "(string, string) jsmap \<Rightarrow> string \<Rightarrow> bool" where
  "isNonceReserved m nonce = js_has m nonce"

definition getOperationForNonce :: "(string, string) jsmap \<Rightarrow> string \<Rightarrow> string option" where
  "getOperationForNonce m nonce = js_get m nonce"

interpretation registry: nonce_register getOperationForNonce registry_reserveNonce
  by unfold_locales (auto simp: getOperationForNonce_def registry_reserveNonce_def split: option.splits)

interpretation mem_nonces: nonce_register "\<lambda>st n. map_option nr_operationId (getNonce st n)" "\<lambda>opId n. reserveNonce n opId payer t"
  for payer t
  by unfold_locales (auto simp: getNonce_def reserveNonce_def js_has_def fun_eq_iff split: if_splits)

interpretation pg_nonces: nonce_register nonce_holder "\<lambda>opId n. pg_reserveNonce names n opId payer t"
  for names payer t
  by unfold_locales (auto simp: nonce_holder_def pg_reserveNonce_def insert_nonce_def js_has_def fun_eq_iff split: if_splits)

section \<open>The local signer\<close>

text \<open>Chain id, aliases and contract of the tokens the signer knows.\<close>

definition USDC_DOMAIN_BINDINGS :: "(int \<times> string list \<times> string) list" where
  "USDC_DOMAIN_BINDINGS =
     [(8453, [''base'', ''base-mainnet'', ''eip155:8453'', ''8453''], ''0x833589fCD6eDb6E08f4c7C32D4f71b54bdA02913''),
      (196, [''x-layer'', ''xlayer'', ''xlayer-mainnet'', ''eip155:196'', ''196''], ''0x74b7F16337B8972027F6196A17a631aC6dE26d22''),
      (84532, [''base-sepolia'', ''eip155:84532'', ''84532''], ''0x036CbD53842c5426634e7929541eC2318f3dCF7e'')]"

definition resolveUsdcDomain :: "string \<Rightarrow> exn + Eip3009Domain" where
  "resolveUsdcDomain network =
     (case find (\<lambda>(chain, aliases, token). toLowerCase (trim network) \<in> set aliases) USDC_DOMAIN_BINDINGS of
        None \<Rightarrow> Inl (''LocalEoaPaymentSigner: no USDC EIP-712 domain binding for network '' @ [CHR 0x22] @ network @ [CHR 0x22] @ ''. '' @
          ''Supported: '' @ join_with '', '' (concat (map (fst \<circ> snd) USDC_DOMAIN_BINDINGS)) @ ''. '' @
          ''Use the non-custodial (external signature) path for other networks.'')
      | Some (chain, aliases, token) \<Rightarrow>
          Inr \<lparr>dm_name = ''USD Coin'', dm_version = ''2'', dm_chainId = chain, dm_verifyingContract = token\<rparr>)"

text \<open>\<open>wallet\<close>: the signature of the account's key over typed data.\<close>

definition eoa_signPayment ::
    "(TypedData \<Rightarrow> exn + string) \<Rightarrow> string \<Rightarrow> int \<Rightarrow> PaymentAuthorizationRequest \<Rightarrow> exn + PaymentSignatureResult" where
  "eoa_signPayment wallet address t r =
     (if PaymentAuthorizationRequest.ar_operationId r = [] \<or> ar_payer r = [] \<or> ar_nonce r = []
      then Inl ''Invalid PaymentAuthorizationRequest: missing critical fields''
      else case BigInt (ar_amount r) of
             None \<Rightarrow> Inl (''Cannot convert '' @ ar_amount r @ '' to a BigInt'')
           | Some value \<Rightarrow>
               (case resolveUsdcDomain (ar_network r) of
                  Inl err \<Rightarrow> Inl err
                | Inr domain \<Rightarrow>
                    (case wallet (signed_data domain \<lparr>va_from = ar_payer r, va_to = ar_payTo r, va_value = value,
                            va_validAfter = ar_validAfter r, va_validBefore = ar_validBefore r, va_nonce = ar_nonce r\<rparr>) of
                       Inl err \<Rightarrow> Inl err
                     | Inr signature \<Rightarrow> Inr
                         \<lparr>sg_operationId = PaymentAuthorizationRequest.ar_operationId r, sg_payer = address, sg_nonce = ar_nonce r,
                          sg_signature = signature, sg_signedAt = Some t\<rparr>)))"

definition LocalEoaPaymentSigner :: "(TypedData \<Rightarrow> exn + string) \<Rightarrow> string \<Rightarrow> int \<Rightarrow> PaymentSigner" where
  "LocalEoaPaymentSigner wallet address t = \<lparr>ps_getAddress = Some address, ps_signPayment = eoa_signPayment wallet address t\<rparr>"

text \<open>\<open>account\<close>: address and wallet of a private key; it throws on text that is no key.\<close>

definition createLocalEoaSignerFromEnv ::
    "(string \<Rightarrow> exn + string \<times> (TypedData \<Rightarrow> exn + string)) \<Rightarrow> env \<Rightarrow> string \<Rightarrow> int \<Rightarrow> exn + PaymentSigner" where
  "createLocalEoaSignerFromEnv account e privateKeyEnvVar t =
     (case nonempty (e privateKeyEnvVar) of
        None \<Rightarrow> Inl (''Private key not found. Set '' @ privateKeyEnvVar @ '' environment variable.'')
      | Some key \<Rightarrow>
          (if \<not> starts_with ''0x'' key \<or> length key \<noteq> 66
           then Inl ''Invalid private key format. Expected 0x-prefixed 64-character hex string.''
           else case account key of Inl err \<Rightarrow> Inl err | Inr (address, wallet) \<Rightarrow> Inr (LocalEoaPaymentSigner wallet address t)))"

section \<open>The verifier's domain\<close>

definition caip2_chain :: "string \<Rightarrow> jsnum" where
  "caip2_chain s = (if starts_with ''eip155:'' s \<and> isInt (drop 7 s) then read_digits digit_value 10 0 (drop 7 s) else None)"

definition chainIdForNetwork :: "string \<Rightarrow> exn + int" where
  "chainIdForNetwork network =
     (case caip2_chain (toLowerCase (trim network)) of
        Some n \<Rightarrow> Inr n
      | None \<Rightarrow>
          (let n = toLowerCase network in
           if n \<in> {''base'', ''base-mainnet''} then Inr 8453
           else if n = ''base-sepolia'' then Inr 84532
           else if n \<in> {''x-layer'', ''xlayer'', ''x-layer-mainnet''} then Inr 196
           else if n = ''bot-chain'' then Inr 677
           else Inl (''EIP-3009 domain is not configured for network '' @ network)))"

definition PRODUCTION_CHAIN_IDS :: "int set" where
  "PRODUCTION_CHAIN_IDS = {196, 8453, 677}"

definition env_trim :: "env \<Rightarrow> string \<Rightarrow> string option" where
  "env_trim e key = nonempty (map_option trim (e key))"

definition resolvePaymentDomain :: "env \<Rightarrow> DurablePaymentIntent \<Rightarrow> exn + Eip3009Domain" where
  "resolvePaymentDomain e i =
     (if \<not> hex_text 40 (pi_asset i) then Inl ''Persisted payment asset is not a valid EVM address''
      else case chainIdForNetwork (pi_network i) of
             Inl err \<Rightarrow> Inl err
           | Inr chainId \<Rightarrow>
               (let name = env_trim e ''ZEUS_EIP3009_DOMAIN_NAME''; version = env_trim e ''ZEUS_EIP3009_DOMAIN_VERSION'' in
                if chainId \<in> PRODUCTION_CHAIN_IDS \<and> (name = None \<or> version = None)
                then Inl (''Secretariat composition: network '' @ pi_network i @ '' (chainId '' @ string_of_int chainId @ '') is a production chain '' @
                  mdash @ '' ZEUS_EIP3009_DOMAIN_NAME and ZEUS_EIP3009_DOMAIN_VERSION must be set explicitly '' @
                  ''(do not rely on the built-in default)'')
                else Inr \<lparr>dm_name = opt_default ''USD Coin'' name, dm_version = opt_default ''2'' version, dm_chainId = chainId,
                          dm_verifyingContract = pi_asset i\<rparr>))"

section \<open>One domain for signer and verifier\<close>

lemma find_in: "find P xs = Some x \<Longrightarrow> x \<in> set xs \<and> P x"
  by (auto simp: find_Some_iff)

lemma signer_name:
  assumes "resolveUsdcDomain network = Inr d"
  shows "\<exists>(chain, aliases, token) \<in> set USDC_DOMAIN_BINDINGS. toLowerCase (trim network) \<in> set aliases \<and> dm_chainId d = chain"
proof -
  obtain chain aliases token where "find (\<lambda>(chain, aliases, token). toLowerCase (trim network) \<in> set aliases) USDC_DOMAIN_BINDINGS =
      Some (chain, aliases, token)" "dm_chainId d = chain"
    using assms by (auto simp: resolveUsdcDomain_def split: option.splits)
  then show ?thesis using find_in by fastforce
qed

lemma names_agree:
  "\<forall>(chain, aliases, token) \<in> set USDC_DOMAIN_BINDINGS. \<forall>a \<in> set aliases.
     caip2_chain a \<in> {None, Some chain} \<and> chainIdForNetwork a \<in> {Inr chain, Inl (''EIP-3009 domain is not configured for network '' @ a)}"
  by code_simp

lemma plain_names:
  "\<forall>a \<in> set [''base'', ''base-mainnet'', ''base-sepolia'', ''x-layer'', ''xlayer'', ''x-layer-mainnet'', ''bot-chain''].
     trim a = a \<and> toLowerCase a = a"
  by code_simp

lemma lower_of_trim: "toLowerCase (trim s) = trim (toLowerCase s)"
  by (simp add: toLowerCase_def trim_lower)

lemma alias_name:
  assumes "chainIdForNetwork network = Inr n" "caip2_chain (toLowerCase (trim network)) = None"
  shows "trim (toLowerCase network) = toLowerCase network \<and> chainIdForNetwork (toLowerCase network) = Inr n"
proof -
  have "toLowerCase network \<in> set [''base'', ''base-mainnet'', ''base-sepolia'', ''x-layer'', ''xlayer'', ''x-layer-mainnet'', ''bot-chain'']"
    using assms by (simp add: chainIdForNetwork_def Let_def split: if_splits) blast+
  with plain_names have "trim (toLowerCase network) = toLowerCase network" "toLowerCase (toLowerCase network) = toLowerCase network" by blast+
  then show ?thesis using assms by (auto simp: chainIdForNetwork_def lower_of_trim Let_def split: option.splits if_splits)
qed

lemma same_chain:
  assumes "resolveUsdcDomain network = Inr d" "chainIdForNetwork network = Inr n"
  shows "dm_chainId d = n"
proof -
  let ?a = "toLowerCase (trim network)"
  obtain aliases token where t: "(dm_chainId d, aliases, token) \<in> set USDC_DOMAIN_BINDINGS" "?a \<in> set aliases"
    using signer_name [OF assms(1)] by blast
  have "\<forall>a \<in> set aliases. caip2_chain a \<in> {None, Some (dm_chainId d)} \<and>
      chainIdForNetwork a \<in> {Inr (dm_chainId d), Inl (''EIP-3009 domain is not configured for network '' @ a)}"
    using bspec [OF names_agree t(1)] by simp
  with t(2) have a: "caip2_chain ?a \<in> {None, Some (dm_chainId d)}"
    "chainIdForNetwork ?a \<in> {Inr (dm_chainId d), Inl (''EIP-3009 domain is not configured for network '' @ ?a)}" by metis+
  show ?thesis
  proof (cases "caip2_chain ?a")
    case (Some k)
    with a assms(2) show ?thesis by (simp add: chainIdForNetwork_def)
  next
    case None
    from alias_name [OF assms(2) None] a(2) show ?thesis by (auto simp: lower_of_trim)
  qed
qed


text \<open>
  On a chain where real money moves the domain is never guessed: it is resolved only when the environment names
  both the token's name and its version, and then it carries these; on every chain the contract is the intent's own asset,
  a well-formed address.
\<close>

theorem production_domain_is_pinned:
  assumes "resolvePaymentDomain e i = Inr d"
  shows "dm_verifyingContract d = pi_asset i \<and> hex_text 40 (pi_asset i) \<and> chainIdForNetwork (pi_network i) = Inr (dm_chainId d) \<and>
    (dm_chainId d \<in> PRODUCTION_CHAIN_IDS \<longrightarrow>
       env_trim e ''ZEUS_EIP3009_DOMAIN_NAME'' = Some (dm_name d) \<and> env_trim e ''ZEUS_EIP3009_DOMAIN_VERSION'' = Some (dm_version d))"
  using assms by (auto simp: resolvePaymentDomain_def opt_default_def Let_def split: if_splits sum.splits option.splits)

text \<open>
  A generated nonce is a 32-byte hex word, and two different draws give two different nonces.
\<close>

theorem generated_nonces_are_words:
  assumes "length a = 32" "length b = 32"
  shows "hex_text 64 (generate a) \<and> (generate a = generate b \<longleftrightarrow> a = b)"
  using assms concat_hex [of a] concat_hex_inj [of a b] by (auto simp: generate_def hex_text_def)

text \<open>
  However many operations ask the stores for a nonce, and in whatever order, one of them at most is granted it.
\<close>

theorem nonce_granted_once:
  "length (winners n calls (fst (reserve_all (\<lambda>opId m. pg_reserveNonce names m opId payer t) calls pst))) \<le> 1 \<and>
   length (winners n calls (fst (reserve_all (\<lambda>opId m. reserveNonce m opId payer t) calls mst))) \<le> 1 \<and>
   length (winners n calls (fst (reserve_all registry_reserveNonce calls reg))) \<le> 1"
  by (intro conjI pg_nonces.one_reservation mem_nonces.one_reservation registry.one_reservation)

definition testnet_intent :: DurablePaymentIntent where
  "testnet_intent = payload_intent\<lparr>pi_asset := ''0x036CbD53842c5426634e7929541eC2318f3dCF7e''\<rparr>"

lemma testnet_domains:
  "resolveUsdcDomain (pi_network testnet_intent) = Inr \<lparr>dm_name = ''USD Coin'', dm_version = ''2'', dm_chainId = 84532,
     dm_verifyingContract = ''0x036CbD53842c5426634e7929541eC2318f3dCF7e''\<rparr>"
  "resolvePaymentDomain (\<lambda>k. None) testnet_intent = Inr \<lparr>dm_name = ''USD Coin'', dm_version = ''2'', dm_chainId = 84532,
     dm_verifyingContract = ''0x036CbD53842c5426634e7929541eC2318f3dCF7e''\<rparr>"
  by code_simp+


theorem production_domain_is_pinned_witness:
  "\<exists>d. resolvePaymentDomain (\<lambda>k. None) testnet_intent = Inr d \<and> hex_text 40 (dm_verifyingContract d)"
  using production_domain_is_pinned [OF testnet_domains(2)] testnet_domains by auto

theorem generated_nonces_are_words_witness:
  "hex_text 64 (generate (replicate 32 255)) \<and> generate (replicate 32 255) \<noteq> generate (replicate 32 0)"
  using generated_nonces_are_words [of "replicate 32 255" "replicate 32 0"] by simp

text \<open>Names that only one of the two knows, and a payment in another asset, which the signer signs for USDC all the same.\<close>

lemma one_side_only:
  "list_all (\<lambda>network. \<not> isl (resolveUsdcDomain network) \<and> isl (chainIdForNetwork network)) [''xlayer-mainnet'', ''8453'', ''196'', '' base'']"
  "list_all (\<lambda>network. isl (resolveUsdcDomain network) \<and> \<not> isl (chainIdForNetwork network)) [''x-layer-mainnet'', ''bot-chain'', ''eip155:1'']"
  by code_simp+

end
