(* ===== verification/OnChainChecker.thy ===== *)
theory OnChainChecker
  imports Reconciliation
begin

text \<open>
  \<^verbatim>\<open>core/viem-onchain-checker.ts\<close>, the check of a payment through one node: chain id, receipt and the two events in its
  logs. The client's calls are parameters. The theorems compare it with the checks of the reconciliation engine.
\<close>

section \<open>The client\<close>

record AuthorizationUsedResult =
  au_transactionHash :: string
  au_blockNumber :: int
  au_logIndex :: jsnum

record ViemReceipt =
  vr_status :: string
  vr_blockNumber :: int
  vr_logs :: "TransactionLog list"

record OnChainClient =
  oc_expectedChainId :: int
  oc_getChainId :: "exn + int"
  oc_getBlockNumber :: "exn + int"
  oc_getTransactionReceipt :: "string \<Rightarrow> exn + ViemReceipt option"
  oc_authorizationState :: "string \<Rightarrow> string \<Rightarrow> string \<Rightarrow> exn + bool"
  oc_getLogs :: "string \<Rightarrow> string \<Rightarrow> string \<Rightarrow> int \<Rightarrow> int \<Rightarrow> exn + AuthorizationUsedResult list"

definition assertExpectedChain :: "OnChainClient \<Rightarrow> exn + unit" where
  "assertExpectedChain c = (case oc_getChainId c of
     Inl err \<Rightarrow> Inl err
   | Inr actual \<Rightarrow> if actual \<noteq> oc_expectedChainId c
       then Inl (''RPC returned chain '' @ string_of_int actual @ ''; expected '' @ string_of_int (oc_expectedChainId c)) else Inr ())"

definition onchain_authorizationState :: "OnChainClient \<Rightarrow> string \<Rightarrow> string \<Rightarrow> string \<Rightarrow> exn + bool" where
  "onchain_authorizationState c token authorizer nonce =
     (case assertExpectedChain c of Inl err \<Rightarrow> Inl err | Inr _ \<Rightarrow> oc_authorizationState c token authorizer nonce)"

definition findAuthorizationUsed :: "OnChainClient \<Rightarrow> string \<Rightarrow> string \<Rightarrow> string \<Rightarrow> int \<Rightarrow> int \<Rightarrow> exn + AuthorizationUsedResult option" where
  "findAuthorizationUsed c token authorizer nonce fromBlock toBlock =
     (case assertExpectedChain c of
        Inl err \<Rightarrow> Inl err
      | Inr _ \<Rightarrow> (case oc_getLogs c token authorizer nonce fromBlock toBlock of
          Inl err \<Rightarrow> Inl err | Inr [] \<Rightarrow> Inr None | Inr (log # _) \<Rightarrow> Inr (Some log)))"

section \<open>The proof in a receipt\<close>

text \<open>Both loops go through all logs and keep the last match.\<close>

definition is_authorization_log :: "(string \<Rightarrow> string) \<Rightarrow> string \<Rightarrow> TransactionLog \<Rightarrow> bool" where
  "is_authorization_log keccak token log =
     (3 \<le> length (tl_topics log) \<and> toLowerCase (tl_address log) = toLowerCase token \<and>
      toLowerCase (hd (tl_topics log)) = toLowerCase (keccak ''AuthorizationUsed(address,bytes32)''))"

definition transfer_of_log :: "string \<Rightarrow> string \<Rightarrow> int \<Rightarrow> string \<Rightarrow> TransactionLog \<Rightarrow> TransferEvent option" where
  "transfer_of_log efrom eto minv token log =
     (if toLowerCase (tl_address log) \<noteq> toLowerCase token then None
      else if \<not> (3 \<le> length (tl_topics log) \<and> hd (tl_topics log) = TRANSFER_TOPIC) then None
      else case BigInt (tl_data log) of
             None \<Rightarrow> None
           | Some v \<Rightarrow>
               (let f = ''0x'' @ drop 26 (tl_topics log ! 1); d = ''0x'' @ drop 26 (tl_topics log ! 2)
                in if toLowerCase f = toLowerCase efrom \<and> toLowerCase d = toLowerCase eto \<and> minv \<le> v
                   then Some \<lparr>te_from = f, te_to = d, te_value = v, te_tokenContract = toLowerCase (tl_address log)\<rparr> else None))"

definition last_some :: "('a \<Rightarrow> 'b option) \<Rightarrow> 'a list \<Rightarrow> 'b option" where
  "last_some f xs = foldl (\<lambda>found x. or_else (f x) found) None xs"

record SettledProof =
  pf_receiptStatus :: int
  pf_blockNumber :: int
  pf_confirmations :: int
  pf_transfer :: "TransferEvent option"
  pf_authorizationUsed :: "AuthorizationUsedResult option"

definition verifySettledProof ::
    "(string \<Rightarrow> string) \<Rightarrow> OnChainClient \<Rightarrow> string \<Rightarrow> string \<Rightarrow> string \<Rightarrow> int \<Rightarrow> string \<Rightarrow> exn + SettledProof option" where
  "verifySettledProof keccak c txHash efrom eto minv token =
     (case assertExpectedChain c of
        Inl err \<Rightarrow> Inl err
      | Inr _ \<Rightarrow> (case oc_getTransactionReceipt c txHash of
          Inl err \<Rightarrow> Inl err
        | Inr None \<Rightarrow> Inr None
        | Inr (Some receipt) \<Rightarrow> (case oc_getBlockNumber c of
            Inl err \<Rightarrow> Inl err
          | Inr chainHead \<Rightarrow>
              (let confirmations = chainHead - vr_blockNumber receipt in
               if vr_status receipt \<noteq> ''success''
               then Inr (Some \<lparr>pf_receiptStatus = 0, pf_blockNumber = vr_blockNumber receipt, pf_confirmations = confirmations,
                      pf_transfer = None, pf_authorizationUsed = None\<rparr>)
               else Inr (Some \<lparr>pf_receiptStatus = 1, pf_blockNumber = vr_blockNumber receipt, pf_confirmations = confirmations,
                      pf_transfer = last_some (transfer_of_log efrom eto minv token) (vr_logs receipt),
                      pf_authorizationUsed = last_some (\<lambda>log. if is_authorization_log keccak token log
                          then Some \<lparr>au_transactionHash = txHash, au_blockNumber = vr_blockNumber receipt, au_logIndex = tl_logIndex log\<rparr>
                          else None) (vr_logs receipt)\<rparr>)))))"

section \<open>Last matches\<close>

lemma last_some_foldl: "foldl (\<lambda>found x. or_else (f x) found) acc xs = or_else (last_some f xs) acc"
proof (induction xs arbitrary: acc)
  case (Cons x xs)
  show ?case
    using Cons [of "or_else (f x) acc"] Cons [of "or_else (f x) None"]
    by (cases "last_some f xs"; cases "f x") (simp_all add: last_some_def)
qed (simp add: last_some_def)

lemma last_some_Nil [simp]: "last_some f [] = None"
  by (simp add: last_some_def)

lemma last_some_Cons [simp]: "last_some f (x # xs) = or_else (last_some f xs) (f x)"
  using last_some_foldl [of f "or_else (f x) None" xs] by (cases "f x") (simp_all add: last_some_def)

lemma last_some_None: "last_some f xs = None \<longleftrightarrow> (\<forall>x \<in> set xs. f x = None)"
  by (induction xs) (auto simp: or_else_def split: option.splits)

lemma last_some_Some: "last_some f xs = Some y \<Longrightarrow> \<exists>x \<in> set xs. f x = Some y"
  by (induction xs) (auto simp: or_else_def split: option.splits)

section \<open>The checker and the engine\<close>

lemma lower_append [simp]: "toLowerCase (a @ b) = toLowerCase a @ toLowerCase b"
  by (simp add: toLowerCase_def)

lemma lower_0x [simp]: "toLowerCase (CHR ''0'' # CHR ''x'' # s) = CHR ''0'' # CHR ''x'' # toLowerCase s"
proof -
  have "map to_lower_char ''0x'' = ''0x''" by code_simp
  then show ?thesis by (simp add: toLowerCase_def)
qed

text \<open>The two readings of one log.\<close>

lemma transfer_skipped:
  "tl_topics log = [] \<or> hd (tl_topics log) \<noteq> TRANSFER_TOPIC \<or> length (tl_topics log) < 3 \<or> toLowerCase (tl_address log) \<noteq> toLowerCase token \<Longrightarrow>
     transfer_of_log efrom eto minv token log = None"
  by (auto simp: transfer_of_log_def)

lemma engine_step:
  assumes "parseTransferLogs (log # logs) efrom eto minv token = Inr r"
  shows "if transfer_of_log efrom eto minv token log = None then parseTransferLogs logs efrom eto minv token = Inr r else r \<noteq> None"
  using assms by (auto simp: transfer_of_log_def Let_def split: if_splits option.splits)

lemma engine_finds:
  "parseTransferLogs logs efrom eto minv token = Inr r \<Longrightarrow>
     r = None \<longleftrightarrow> last_some (transfer_of_log efrom eto minv token) logs = None"
proof (induction logs)
  case (Cons log logs)
  from engine_step [OF Cons.prems] Cons.IH show ?case
    by (cases "transfer_of_log efrom eto minv token log") (auto simp: or_else_def split: option.splits if_splits)
qed simp

lemma engine_authorization:
  assumes "findAuthorizationUsedLog keccak logs token authorizer nonce = Some lg"
  shows "\<exists>log \<in> set logs. is_authorization_log keccak token log"
proof -
  obtain log where "find (matches_authorization keccak token authorizer nonce) logs = Some log"
    using assms by (auto simp: findAuthorizationUsedLog_def)
  then have "log \<in> set logs" "matches_authorization keccak token authorizer nonce log" by (auto simp: find_Some_iff)
  then show ?thesis
    by (intro bexI [of _ log]) (auto simp: is_authorization_log_def matches_authorization_def topic_is_def hd_conv_nth)
qed

lemma proof_of_receipt:
  assumes "verifySettledProof keccak c txHash efrom eto minv token = Inr (Some pf)"
  obtains receipt where "oc_getChainId c = Inr (oc_expectedChainId c)" "oc_getTransactionReceipt c txHash = Inr (Some receipt)"
    "pf_receiptStatus pf = (if vr_status receipt = ''success'' then 1 else 0)"
    "pf_transfer pf = (if vr_status receipt = ''success'' then last_some (transfer_of_log efrom eto minv token) (vr_logs receipt) else None)"
    "pf_authorizationUsed pf = None \<longleftrightarrow> vr_status receipt \<noteq> ''success'' \<or> (\<forall>log \<in> set (vr_logs receipt). \<not> is_authorization_log keccak token log)"
proof -
  obtain receipt head where r: "oc_getChainId c = Inr (oc_expectedChainId c)" "oc_getTransactionReceipt c txHash = Inr (Some receipt)"
    "oc_getBlockNumber c = Inr head"
    using assms by (auto simp: verifySettledProof_def assertExpectedChain_def split: sum.splits option.splits if_splits)
  show thesis
    using assms by (intro that [OF r(1,2)])
      (auto simp: verifySettledProof_def assertExpectedChain_def r last_some_None Let_def split: if_splits)
qed

text \<open>
  The checker's proof and the reconciliation engine agree on the same receipt: on a successful transaction the
  checker reports a transfer exactly when the engine finds one, where the engine can read the logs at all,
  and it reports an authorization whenever the engine finds one; a transfer that it reports is in the receipt, from the
  expected payer to the expected payee, of the expected token and of at least the expected value; and it proves nothing on
  another chain or from a reverted transaction.
\<close>

theorem checker_and_engine_agree:
  assumes "verifySettledProof keccak c txHash efrom eto minv token = Inr (Some pf)"
    and "oc_getTransactionReceipt c txHash = Inr (Some receipt)"
  shows "oc_getChainId c = Inr (oc_expectedChainId c) \<and>
    (pf_receiptStatus pf \<noteq> 1 \<longrightarrow> pf_transfer pf = None \<and> pf_authorizationUsed pf = None) \<and>
    (pf_receiptStatus pf = 1 \<longrightarrow> vr_status receipt = ''success'' \<and>
       (\<forall>r. parseTransferLogs (vr_logs receipt) efrom eto minv token = Inr r \<longrightarrow> (r = None \<longleftrightarrow> pf_transfer pf = None)) \<and>
       (\<forall>authorizer nonce. findAuthorizationUsedLog keccak (vr_logs receipt) token authorizer nonce \<noteq> None \<longrightarrow>
          pf_authorizationUsed pf \<noteq> None)) \<and>
    (\<forall>tr. pf_transfer pf = Some tr \<longrightarrow> minv \<le> te_value tr \<and> toLowerCase (te_from tr) = toLowerCase efrom \<and>
       toLowerCase (te_to tr) = toLowerCase eto \<and>
       (\<exists>log \<in> set (vr_logs receipt). toLowerCase (tl_address log) = toLowerCase token \<and> hd (tl_topics log) = TRANSFER_TOPIC \<and>
          BigInt (tl_data log) = Some (te_value tr)))"
proof -
  from assms(1) obtain receipt' where r': "oc_getChainId c = Inr (oc_expectedChainId c)" "oc_getTransactionReceipt c txHash = Inr (Some receipt')"
    "pf_receiptStatus pf = (if vr_status receipt' = ''success'' then 1 else 0)"
    "pf_transfer pf = (if vr_status receipt' = ''success'' then last_some (transfer_of_log efrom eto minv token) (vr_logs receipt') else None)"
    "pf_authorizationUsed pf = None \<longleftrightarrow> vr_status receipt' \<noteq> ''success'' \<or> (\<forall>log \<in> set (vr_logs receipt'). \<not> is_authorization_log keccak token log)"
    by (rule proof_of_receipt)
  from assms(2) r'(2) have eq: "receipt' = receipt" by simp
  note r = r' [unfolded eq]
  have tr: "minv \<le> te_value tr \<and> toLowerCase (te_from tr) = toLowerCase efrom \<and> toLowerCase (te_to tr) = toLowerCase eto \<and>
       (\<exists>log \<in> set (vr_logs receipt). toLowerCase (tl_address log) = toLowerCase token \<and> hd (tl_topics log) = TRANSFER_TOPIC \<and>
          BigInt (tl_data log) = Some (te_value tr))" if "pf_transfer pf = Some tr" for tr
  proof -
    from that r(4) have "last_some (transfer_of_log efrom eto minv token) (vr_logs receipt) = Some tr" by (simp split: if_splits)
    from last_some_Some [OF this] obtain log where
      "log \<in> set (vr_logs receipt)" "transfer_of_log efrom eto minv token log = Some tr" by blast
    then show ?thesis by (auto simp: transfer_of_log_def Let_def split: if_splits option.splits)
  qed
  have bad: "pf_receiptStatus pf \<noteq> 1 \<longrightarrow> pf_transfer pf = None \<and> pf_authorizationUsed pf = None" using r(3-5) by simp
  have good: "vr_status receipt = ''success''" if "pf_receiptStatus pf = 1" using r(3) that by (simp split: if_splits)
  have engine: "r = None \<longleftrightarrow> pf_transfer pf = None"
    if "pf_receiptStatus pf = 1" "parseTransferLogs (vr_logs receipt) efrom eto minv token = Inr r" for r
    using engine_finds [OF that(2)] r(4) good [OF that(1)] by simp
  have auth: "pf_authorizationUsed pf \<noteq> None"
    if "pf_receiptStatus pf = 1" "findAuthorizationUsedLog keccak (vr_logs receipt) token authorizer nonce \<noteq> None" for authorizer nonce
    using that(2) engine_authorization r(5) good [OF that(1)] by blast
  show ?thesis
    by (intro conjI, rule r(1), rule bad, intro impI conjI allI, erule good, erule (1) engine, erule (1) auth, intro allI impI, erule tr)
qed

section \<open>A receipt\<close>

definition demo_logs :: "TransactionLog list" where
  "demo_logs =
     [\<lparr>tl_address = ''0xTOKEN'', tl_topics = [''0xaa'', ''0x01'', ''0x02''], tl_data = ''0x'', tl_logIndex = Some 0\<rparr>,
      \<lparr>tl_address = ''0xtoken'', tl_topics = [TRANSFER_TOPIC, replicate 26 (CHR ''0'') @ ''AB'', replicate 26 (CHR ''0'') @ ''cd''],
       tl_data = ''0x19'', tl_logIndex = Some 1\<rparr>]"

definition demo_chain :: OnChainClient where
  "demo_chain = \<lparr>oc_expectedChainId = 196, oc_getChainId = Inr 196, oc_getBlockNumber = Inr 20,
     oc_getTransactionReceipt = (\<lambda>h. Inr (Some \<lparr>vr_status = ''success'', vr_blockNumber = 8, vr_logs = demo_logs\<rparr>)),
     oc_authorizationState = (\<lambda>a b n. Inr True), oc_getLogs = (\<lambda>a b n f t. Inr [])\<rparr>"

lemma demo_proof:
  "verifySettledProof (\<lambda>t. ''0xaa'') demo_chain ''0x1'' ''0xab'' ''0xcd'' 25 ''0xtoken'' =
     Inr (Some \<lparr>pf_receiptStatus = 1, pf_blockNumber = 8, pf_confirmations = 12,
       pf_transfer = Some \<lparr>te_from = ''0xAB'', te_to = ''0xcd'', te_value = 25, te_tokenContract = ''0xtoken''\<rparr>,
       pf_authorizationUsed = Some \<lparr>au_transactionHash = ''0x1'', au_blockNumber = 8, au_logIndex = Some 0\<rparr>\<rparr>)"
  by code_simp

lemma demo_receipt: "oc_getTransactionReceipt demo_chain ''0x1'' = Inr (Some \<lparr>vr_status = ''success'', vr_blockNumber = 8, vr_logs = demo_logs\<rparr>)"
  by (simp add: demo_chain_def)

theorem checker_and_engine_agree_witness:
  "\<exists>log \<in> set demo_logs. toLowerCase (tl_address log) = ''0xtoken'' \<and> BigInt (tl_data log) = Some 25"
proof -
  have "toLowerCase ''0xtoken'' = ''0xtoken''" by code_simp
  with checker_and_engine_agree [OF demo_proof demo_receipt] show ?thesis by auto
qed

text \<open>
  The checker's authorization is any authorization of the token: here of the payer 0x01 and the nonce 0x02, where the
  engine, asked for another payer, finds none.
\<close>

lemma foreign_authorization_reported:
  "\<exists>pf. verifySettledProof (\<lambda>t. ''0xaa'') demo_chain ''0x1'' ''0xab'' ''0xcd'' 25 ''0xtoken'' = Inr (Some pf) \<and>
     pf_authorizationUsed pf \<noteq> None \<and> findAuthorizationUsedLog (\<lambda>t. ''0xaa'') demo_logs ''0xtoken'' ''0xab'' ''0x07'' = None"
proof -
  have "findAuthorizationUsedLog (\<lambda>t. ''0xaa'') demo_logs ''0xtoken'' ''0xab'' ''0x07'' = None" by code_simp
  with demo_proof show ?thesis by (intro exI conjI) (assumption | simp)+
qed

end
