(* ===== verification/Spec2Isabelle.thy ===== *)
theory Spec2Isabelle
  imports Prelude CoreTypes OperationFsm MemStore Consensus Reconciliation SettlementFeedback
    ExecStore ExecutionFeedback PostSettlement SellerCalls
    Fingerprint Outbox RequestPolicy FacilitatorClient StandardTransport PaymentCalls
    X402Parser Secretariat StageB SignerFlow StageFrames StageA StageBind ExecutePath
    TextHelpers FacilitatorVerify FacilitatorSettle FacilitatorServer FacilitatorLink
    EgressGuard ReconJobs ReconWorker ExecutionWorker Eip3009Verifier
    PgExecStore PgIntents PgOperations PgHandoff
    RequestsApi SellerHttp Signers OnChainChecker
begin

text \<open>
  A verification library for two services of this repository. The Secretariat (\<^verbatim>\<open>zeus-secretariat/\<close>)
  buys a resource from an x402 seller on behalf of a client: it discovers what the seller asks for,
  checks it against the client's policy, has the payment signed, submits it once, finds out on
  chain whether it settled, and only then has the seller execute. The facilitator
  (\<^verbatim>\<open>zeus-facilitator/\<close>) checks signed payments and broadcasts them to the chain.

  \<^bold>\<open>Parts and theories.\<close> Paths are below \<^verbatim>\<open>zeus-secretariat/src/\<close> unless they say otherwise. Records
  and datatypes carry the names of the source's types, definitions those of its functions.
  \<^item> \<open>Prelude\<close>: what the theories share: insertion-ordered JavaScript maps (\<open>js_set\<close> keeps the place of
    an existing key, as \<open>Map\<close> does), options as \<open>undefined\<close>, \<open>BigInt\<close> and number texts, JSON values.
  \<^item> \<open>CoreTypes\<close>: \<^verbatim>\<open>core/types.ts\<close>. \<open>OperationFsm\<close>: the transition table of \<^verbatim>\<open>core/operation-fsm.ts\<close>, its
    runs as paths, their bound and what they can never do.
  \<^item> \<open>MemStore\<close>: \<^verbatim>\<open>store/in-memory-store.ts\<close>, payment intents, nonces, reconciliation jobs, evidence; the
    step relation \<open>store_step\<close> with its invariants; the contract of the two guarded writes as locales.
  \<^item> \<open>Consensus\<close>: \<^verbatim>\<open>core/multi-rpc-checker.ts\<close>, several views of the chain and their agreement.
    \<open>Reconciliation\<close>: \<^verbatim>\<open>core/reconciliation-engine.ts\<close>, from those views to a settlement verdict.
  \<^item> \<open>SettlementFeedback\<close>, \<open>ExecutionFeedback\<close>: the two services that carry a verdict back to the operation.
  \<^item> \<open>ExecStore\<close>, \<open>PostSettlement\<close>, \<open>SellerCalls\<close>: \<^verbatim>\<open>core/post-settlement-engine.ts\<close>: attempts and jobs with
    leases and fences, the engine, and all interleavings of any number of engines over one store.
  \<^item> \<open>FacilitatorClient\<close> (\<^verbatim>\<open>adapters/x402-facilitator-client.ts\<close>, and the guarded row update of
    \<^verbatim>\<open>lib/db/src/secretariat/postgres-store.ts\<close>), \<open>StandardTransport\<close> (\<^verbatim>\<open>core/standard-x402-transport.ts\<close>),
    \<open>PaymentCalls\<close>: the two ways a payment leaves the process, and their interleavings.
  \<^item> \<open>Fingerprint\<close>, \<open>Outbox\<close>, \<open>RequestPolicy\<close>, \<open>X402Parser\<close>: request identity, the evidence outbox, the payment
    policy and the challenge parser.
  \<^item> \<open>Secretariat\<close>, \<open>StageB\<close>, \<open>SignerFlow\<close>: \<^verbatim>\<open>core/state-machine.ts\<close>, the driver that ties the parts together:
    stage A up to the awaited signature, stage B from the signed payload to the hand-over, and the
    pipeline with a configured signer. \<open>StageFrames\<close>, \<open>StageA\<close>, \<open>StageBind\<close>, \<open>ExecutePath\<close> hold their theorems.
  \<^item> \<open>ReconJobs\<close> (the job methods of \<^verbatim>\<open>lib/db/src/secretariat/postgres-store.ts\<close> over the table of
    \<^verbatim>\<open>lib/db/src/schema/payment-intents.ts\<close>), \<open>ReconWorker\<close> (\<^verbatim>\<open>core/reconciliation-worker.ts\<close>), \<open>ExecutionWorker\<close>
    (\<^verbatim>\<open>core/execution-worker.ts\<close>): the two polling workers that drive the engines in the background.
  \<^item> \<open>PgExecStore\<close>, \<open>PgIntents\<close>, \<open>PgOperations\<close>, \<open>PgHandoff\<close>: \<^verbatim>\<open>postgres-execution-store.ts\<close> and \<^verbatim>\<open>postgres-store.ts\<close> in
    \<^verbatim>\<open>lib/db/src/secretariat/\<close> over the tables of \<^verbatim>\<open>lib/db/src/schema/\<close>: the database stores the program runs
    with; attempts and jobs, intents and nonces, the operation rebuilt from its rows, and the transaction
    that hands a settled payment to execution.
  \<^item> \<open>Eip3009Verifier\<close>: \<^verbatim>\<open>core/eip3009-verifier.ts\<close>, the check of a signed payload against the durable intent.
  \<^item> \<open>EgressGuard\<close>: \<^verbatim>\<open>core/egress-guard.ts\<close>, the address tests before every outgoing request. \<open>SellerHttp\<close>:
    \<^verbatim>\<open>adapters/seller-execution-adapter.ts\<close>, the engine's requests to a seller through this guard.
  \<^item> \<open>RequestsApi\<close>: \<^verbatim>\<open>api-server/src/routes/requests.ts\<close>, the HTTP routes in front of the driver and the verifier.
  \<^item> \<open>Signers\<close>: \<^verbatim>\<open>core/nonce-generator.ts\<close>, \<^verbatim>\<open>adapters/local-eoa-signer.ts\<close> and the signing domain of
    \<^verbatim>\<open>api-server/src/lib/secretariat-composition.ts\<close>. \<open>OnChainChecker\<close>: \<^verbatim>\<open>core/viem-onchain-checker.ts\<close>.
  \<^item> \<open>TextHelpers\<close>: splitting, joining and parsing of texts. \<open>FacilitatorVerify\<close>, \<open>FacilitatorSettle\<close>,
    \<open>FacilitatorServer\<close>: \<^verbatim>\<open>verify.ts\<close>, \<^verbatim>\<open>settle.ts\<close> with \<^verbatim>\<open>rpc.ts\<close>, and \<^verbatim>\<open>config.ts\<close> with \<^verbatim>\<open>server.ts\<close> below
    \<^verbatim>\<open>zeus-facilitator/src/\<close>. \<open>FacilitatorLink\<close>: the Secretariat's client talking to this facilitator.

  \<^bold>\<open>How the program is represented.\<close>
  \<^item> State is passed explicitly. A method that may throw returns a sum, \<open>Inl\<close> with the message of the
    error, together with the state reached when it threw. A unique violation of the database is the
    message 23505. A method of the driver is an action on one operation and the stores.
  \<^item> \<open>Date.now()\<close> is the argument \<open>t\<close> of a call, the same during one call. Random ids are arguments or
    a function from a counter to fresh ids; what a theorem needs of them is one of its hypotheses.
  \<^item> Numbers are integers, \<open>None\<close> where \<open>NaN\<close> or \<open>undefined\<close> occurs; \<open>Number(text)\<close> is exact, without
    the rounding beyond 53 bits. Texts are byte strings. Objects are values: two names for one object
    are modelled only where the source relies on it, in the consensus of several providers.
  \<^item> Addresses are 32-bit words where the code shifts and masks them, and the test of their prefixes is the
    code's mask arithmetic. The database driver is an argument of the job methods, since the code reads
    the results of two kinds of driver differently.
  \<^item> A table of the database is the list or map of its rows; a statement is a function on it, its \<open>WHERE\<close> a
    condition on a row, a transaction one step that is undone when it throws. The error of a statement is
    the chain of causes the driver builds, since the code looks for the code of the database in it.
  \<^item> Code outside the repository is a parameter: the seller's and the facilitator's HTTP answers, the
    RPC answers, keccak, base64 and JSON decoding, URL parsing, DNS, signature recovery, the signer.
  \<^item> Concurrency: step relations whose steps are the single calls on a shared store; a run of the
    post-settlement engine is one step there, the finer interleavings being those of the fenced
    writes of \<open>ExecStore\<close>. The facilitator's settlements interleave at every \<open>await\<close> (\<open>settle_run\<close>).
    The polls of several workers are histories; a failing query, the stop flag and the database's
    clock are the environment of a poll.

  \<^bold>\<open>What the lemmas show.\<close> For each store, which steps it can make and what they keep (one intent per
  operation, one binding of a payload, irreversible terminal states, one live owner per job). For the
  chain: what an agreement is worth, that a complete empty scan covers every block, that a verdict
  is backed by its proof. For the calls: a payment is sent at most once per intent, a seller called
  at most once per attempt and only after settlement. For the driver: stage A ends in a durable intent
  bound to the discovered requirement and does so when nothing stands in the way; stage B submits
  only what this intent binds, and does so when the payload fits. For the facilitator: what passes its
  verification, that a nonce is broadcast once and only when verified, and how the Secretariat reads
  its answers. For the workers: that a lease has one holder, what becomes of every due job, that polls
  are runs of the engine, and where a result does not reach its operation. For the database: that its
  tables simulate the in-memory store of the engine, that nonces and operations have one intent, that
  terms are read back as stored, what of an operation survives a restart and what is lost, and when the
  hand-over writes. For the edges: that the API acts on verified payments only and tells a status only to
  its client, what the seller adapter may report and whom it may ask, that nonces are words granted
  once, and that signer and verifier mean the same domain. The locales state the contracts
  one part relies on (\<open>intent_cas\<close>, \<open>payload_binder\<close>, \<open>job_fence\<close>, \<open>fsm_driver\<close>, \<open>evidence_log\<close>, \<open>send_claim\<close>,
  \<open>act_frame\<close>, \<open>operation_log\<close>, \<open>claim_register\<close>, \<open>lease_return\<close>, \<open>nonce_register\<close>); each is interpreted on the model of the code that provides it,
  \<open>intent_cas\<close>, \<open>payload_binder\<close>, \<open>job_fence\<close> and \<open>nonce_register\<close> on both the in-memory and the database store.

  \<^bold>\<open>Bounds and fuel.\<close> The two reconciliation strategies call each other; \<open>reconcile\<close> runs them with fuel 3,
  which is enough on consistent views of the chain, and without consistency no fuel is enough (both
  proved in \<open>Reconciliation\<close>). The log scan recurses on the blocks left; everything else is structural.

  \<^bold>\<open>Not modelled.\<close> Time passing within one call; garbage and process exits other than as a lost answer.
  Own headers and time-outs of the engine's requests, which it does not set. Branches for stores without
  the durable methods. Requirement fields missing in a challenge, which read as the text
  undefined. Connections to the database and the tables of the API server. The
  entry point of the facilitator, viem and the wallets, the rest of the API server, SDK and user interfaces.
\<close>

end
